(* ===== verification/Prelude.thy ===== *)
theory Prelude
  imports Main
begin

text \<open>
  What every component of the model shares.

  \<^item> Errors.  A Go error is its message and the sentinel errors it wraps, so that
    both \<open>err.Error()\<close> and \<open>errors.Is\<close> can be evaluated.  A call that can fail returns
    \<open>goerr + 'a\<close>, with \<open>Inl\<close> for the error.
  \<^item> Time.  A \<open>time.Time\<close> is an \<open>int\<close> of nanoseconds, a \<open>time.Duration\<close> too; the zero
    \<open>time.Time\<close> and a nil \<open>*time.Time\<close> are \<open>None\<close> of \<open>int option\<close>.
  \<^item> Contexts.  A \<open>context.Context\<close> is its deadline, whether it is cancelled and an
    opaque carrier of values; nil is \<open>None\<close>.
  \<^item> Goroutines and locks.  Every section of code under a mutex is one function on the
    state.  \<open>transition_system\<close> is the contract of a step relation with an invariant.
\<close>

named_theorems frame_simps \<open>what an operation leaves unchanged\<close>
named_theorems op_defs \<open>unfolding rules of the operations\<close>

section \<open>Errors\<close>

datatype sentinel =
    NotFound
  | InvalidArg
  | DeadlineExceeded
  | Canceled
  | SessionExpired
  | RuntimeAlreadyStarted
  | CLIConfigMissing
  | CLIUnavailable
  | CLIUnsupportedMode
  | NotExist

record goerr =
  err_msg :: string
  err_wraps :: "sentinel list"

definition errors_Is :: "goerr \<Rightarrow> sentinel \<Rightarrow> bool" where
  "errors_Is e s = List.member (err_wraps e) s"

text \<open>\<open>errors.New\<close> and a \<open>fmt.Errorf\<close> without \<open>%w\<close>; a \<open>fmt.Errorf\<close> with one \<open>%w\<close>.\<close>

definition errorf :: "string \<Rightarrow> goerr" where
  "errorf m = \<lparr>err_msg = m, err_wraps = []\<rparr>"

definition wrapf :: "string \<Rightarrow> goerr \<Rightarrow> string \<Rightarrow> goerr" where
  "wrapf pre e post = \<lparr>err_msg = pre @ err_msg e @ post, err_wraps = err_wraps e\<rparr>"

lemma errors_Is_iff: "errors_Is e s \<longleftrightarrow> s \<in> set (err_wraps e)"
  by (simp add: errors_Is_def)

lemma errors_Is_errorf [simp]: "\<not> errors_Is (errorf m) s"
  by (simp add: errors_Is_iff errorf_def)

lemma errors_Is_wrapf [simp]: "errors_Is (wrapf p e q) s = errors_Is e s"
  by (simp add: errors_Is_iff wrapf_def)

lemma err_msg_errorf [simp]: "err_msg (errorf m) = m"
  by (simp add: errorf_def)

lemma err_msg_wrapf [simp]: "err_msg (wrapf p e q) = p @ err_msg e @ q"
  by (simp add: wrapf_def)

section \<open>Time\<close>

definition nanosecond :: int where "nanosecond = 1"
definition millisecond :: int where "millisecond = 1000000"
definition second :: int where "second = 1000000000"
definition minute :: int where "minute = 60 * second"

lemmas time_units = nanosecond_def millisecond_def second_def minute_def

section \<open>Contexts\<close>

record goctx =
  cx_deadline :: "int option"
  cx_cancelled :: bool
  cx_values :: "(string \<times> string) list"

definition Background :: goctx where
  "Background = \<lparr>cx_deadline = None, cx_cancelled = False, cx_values = []\<rparr>"

text \<open>\<open>context.WithoutCancel\<close> keeps the values and drops deadline and cancellation.\<close>

definition WithoutCancel :: "goctx \<Rightarrow> goctx" where
  "WithoutCancel c = c\<lparr>cx_deadline := None, cx_cancelled := False\<rparr>"

text \<open>\<open>context.WithTimeout\<close> keeps the earlier of the parent's deadline and its own.\<close>

definition WithTimeout :: "int \<Rightarrow> goctx \<Rightarrow> int \<Rightarrow> goctx" where
  "WithTimeout now c d =
     c\<lparr>cx_deadline :=
        (case cx_deadline c of None \<Rightarrow> Some (now + d) | Some t \<Rightarrow> Some (min t (now + d)))\<rparr>"

text \<open>\<open>ctx.Err()\<close>: cancellation, then a passed deadline.\<close>

definition ctx_Err :: "int \<Rightarrow> goctx \<Rightarrow> goerr option" where
  "ctx_Err now c =
     (if cx_cancelled c
      then Some \<lparr>err_msg = ''context canceled'', err_wraps = [Canceled]\<rparr>
      else case cx_deadline c of
             None \<Rightarrow> None
           | Some t \<Rightarrow> if t \<le> now
                       then Some \<lparr>err_msg = ''context deadline exceeded'', err_wraps = [DeadlineExceeded]\<rparr>
                       else None)"

lemma WithoutCancel_simps [simp]:
  "cx_deadline (WithoutCancel c) = None"
  "cx_cancelled (WithoutCancel c) = False"
  "cx_values (WithoutCancel c) = cx_values c"
  by (simp_all add: WithoutCancel_def)

lemma Background_simps [simp]:
  "cx_deadline Background = None" "cx_cancelled Background = False" "cx_values Background = []"
  by (simp_all add: Background_def)

lemma WithTimeout_simps [simp]:
  "cx_cancelled (WithTimeout n c d) = cx_cancelled c"
  "cx_values (WithTimeout n c d) = cx_values c"
  by (simp_all add: WithTimeout_def)

lemma WithTimeout_deadline [simp]:
  "cx_deadline c = None \<Longrightarrow> cx_deadline (WithTimeout n c d) = Some (n + d)"
  by (simp add: WithTimeout_def)

section \<open>Lists and maps\<close>

text \<open>Deleting the keys of a map that satisfy a predicate (a Go \<open>for k := range m\<close> with \<open>delete\<close>).\<close>

definition map_drop :: "('k \<Rightarrow> 'v \<Rightarrow> bool) \<Rightarrow> ('k \<rightharpoonup> 'v) \<Rightarrow> ('k \<rightharpoonup> 'v)" where
  "map_drop P m = (\<lambda>k. case m k of None \<Rightarrow> None | Some v \<Rightarrow> if P k v then None else Some v)"

lemma map_drop_Some_iff: "map_drop P m k = Some v \<longleftrightarrow> m k = Some v \<and> \<not> P k v"
  by (auto simp: map_drop_def split: option.splits)

lemma map_drop_None_iff: "map_drop P m k = None \<longleftrightarrow> (\<forall>v. m k = Some v \<longrightarrow> P k v)"
  by (auto simp: map_drop_def split: option.splits)

lemma map_drop_idem [simp]: "map_drop P (map_drop P m) = map_drop P m"
  by (auto simp: map_drop_def fun_eq_iff split: option.splits)

lemma map_drop_empty [simp]: "map_drop P Map.empty = Map.empty"
  by (simp add: map_drop_def)

section \<open>Transition systems\<close>

text \<open>
  The contract of a component with interleaved steps: what holds initially and is kept by
  every step holds in every reachable state.
\<close>

locale transition_system =
  fixes initial :: "'s \<Rightarrow> bool"
    and step :: "'s \<Rightarrow> 's \<Rightarrow> bool"
    and inv :: "'s \<Rightarrow> bool"
  assumes initial_inv: "initial s \<Longrightarrow> inv s"
    and step_inv: "step s t \<Longrightarrow> inv s \<Longrightarrow> inv t"
begin

lemma steps_inv: "step\<^sup>*\<^sup>* s t \<Longrightarrow> inv s \<Longrightarrow> inv t"
  by (induction rule: rtranclp_induct) (auto intro: step_inv)

lemma reachable_inv: "initial s \<Longrightarrow> step\<^sup>*\<^sup>* s t \<Longrightarrow> inv t"
  by (rule steps_inv [OF _ initial_inv])

end

text \<open>A quantity no step decreases, such as a version, a clock or an absorbing phase.\<close>

locale stable_property =
  fixes step :: "'s \<Rightarrow> 's \<Rightarrow> bool"
    and P :: "'s \<Rightarrow> bool"
  assumes stable: "step s t \<Longrightarrow> P s \<Longrightarrow> P t"
begin

lemma steps_stable: "step\<^sup>*\<^sup>* s t \<Longrightarrow> P s \<Longrightarrow> P t"
  by (induction rule: rtranclp_induct) (auto intro: stable)

end

end
