(* ===== verification/GoStrings.thy ===== *)
theory GoStrings
  imports Prelude "HOL-Library.Sublist"
begin

text \<open>
  Go strings.  A Go string is a sequence of bytes, and so is an Isabelle \<open>string\<close>: a
  \<open>char\<close> is a byte, a literal is ASCII, other text is given by its UTF-8 bytes
  (\<open>bytes\<close>).  Here are the operations of the packages \<open>strings\<close>, \<open>strconv\<close> and
  \<open>unicode/utf8\<close> that the source calls, with the laws the components use.

  \<^item> \<open>TrimSpace\<close> strips the encodings of the Unicode white space characters, as Go does.
  \<^item> \<open>ToLower\<close> is exact for the use the source makes of it, which is comparing the
    result with ASCII text: the only characters outside ASCII that Go maps into ASCII
    are U+0130 and U+212A, and both are handled.
  \<^item> \<open>runes\<close> splits a string as \<open>[]rune(s)\<close> does; an invalid byte is a rune of its own,
    and is written back as U+FFFD.
\<close>

section \<open>Bytes\<close>

definition bytes :: "nat list \<Rightarrow> string" where
  "bytes ns = map char_of ns"

definition newline :: char where "newline = CHR 0x0A"

definition quote_char :: char where "quote_char = CHR 0x22"

section \<open>Prefixes and substrings\<close>

definition HasPrefix :: "string \<Rightarrow> string \<Rightarrow> bool" where
  "HasPrefix s p = (take (length p) s = p)"

lemma HasPrefix_iff: "HasPrefix s p \<longleftrightarrow> prefix p s"
  by (metis HasPrefix_def append_eq_conv_conj append_take_drop_id prefix_def)

lemma HasPrefix_append [simp]: "HasPrefix (p @ s) p"
  by (simp add: HasPrefix_def)

lemma HasPrefix_Nil [simp]: "HasPrefix s [] "
  by (simp add: HasPrefix_def)

lemma HasPrefix_ex: "HasPrefix s p \<longleftrightarrow> (\<exists>r. s = p @ r)"
  by (auto simp: HasPrefix_iff prefix_def)

definition TrimPrefix :: "string \<Rightarrow> string \<Rightarrow> string" where
  "TrimPrefix s p = (if HasPrefix s p then drop (length p) s else s)"

lemma TrimPrefix_append [simp]: "TrimPrefix (p @ s) p = s"
  by (simp add: TrimPrefix_def)

fun Contains :: "string \<Rightarrow> string \<Rightarrow> bool" where
  "Contains [] n = (n = [])"
| "Contains (c # cs) n = (HasPrefix (c # cs) n \<or> Contains cs n)"

lemma Contains_iff: "Contains s n \<longleftrightarrow> (\<exists>a b. s = a @ n @ b)"
proof (induction s)
  case Nil
  then show ?case by simp
next
  case (Cons c cs)
  show ?case (is "_ \<longleftrightarrow> ?R")
  proof
    assume "Contains (c # cs) n"
    then consider "HasPrefix (c # cs) n" | "Contains cs n" by auto
    then show ?R
    proof cases
      case 1
      then show ?thesis by (metis HasPrefix_ex append_Nil)
    next
      case 2
      then show ?thesis using Cons.IH by (metis append_Cons)
    qed
  next
    assume ?R
    then obtain a b where ab: "c # cs = a @ n @ b" by blast
    show "Contains (c # cs) n"
    proof (cases a)
      case Nil
      with ab show ?thesis by (metis Contains.simps(2) HasPrefix_append append_Nil)
    next
      case (Cons d a')
      with ab have "cs = a' @ n @ b" by simp
      with Cons.IH show ?thesis by auto
    qed
  qed
qed

section \<open>White space\<close>

text \<open>The UTF-8 encodings of the characters with the Unicode property White\_Space.\<close>

definition ws_runes :: "string list" where
  "ws_runes = map bytes
     ([[9], [10], [11], [12], [13], [32], [0xC2, 0x85], [0xC2, 0xA0], [0xE1, 0x9A, 0x80]]
      @ map (\<lambda>i. [0xE2, 0x80, 0x80 + i]) [0..<11]
      @ [[0xE2, 0x80, 0xA8], [0xE2, 0x80, 0xA9], [0xE2, 0x80, 0xAF], [0xE2, 0x81, 0x9F], [0xE3, 0x80, 0x80]])"

text \<open>Strip any of the words \<open>ws\<close> off the front of \<open>s\<close> as long as one is there.\<close>

function strip_front :: "string list \<Rightarrow> string \<Rightarrow> string" where
  "strip_front ws s =
     (case List.find (\<lambda>w. w \<noteq> [] \<and> HasPrefix s w) ws of
        None \<Rightarrow> s
      | Some w \<Rightarrow> strip_front ws (drop (length w) s))"
  by pat_completeness auto
termination
proof (relation "measure (\<lambda>(ws, s). length s)", simp)
  fix ws :: "string list" and s w :: string
  assume "List.find (\<lambda>w. w \<noteq> [] \<and> HasPrefix s w) ws = Some w"
  then have "w \<noteq> []" "HasPrefix s w" by (auto simp: find_Some_iff)
  then show "((ws, drop (length w) s), (ws, s)) \<in> measure (\<lambda>(ws, s). length s)"
    by (auto simp: HasPrefix_ex)
qed

declare strip_front.simps [simp del]

lemma strip_front_Nil [simp]: "strip_front ws [] = []"
  by (subst strip_front.simps) (auto simp: HasPrefix_def split: option.splits dest: find_Some_iff [THEN iffD1])

lemma strip_front_stop:
  "(\<forall>w \<in> set ws. w = [] \<or> \<not> HasPrefix s w) \<Longrightarrow> strip_front ws s = s"
  by (subst strip_front.simps) (auto split: option.splits dest!: find_Some_iff [THEN iffD1])

lemma strip_front_clean:
  "w \<in> set ws \<Longrightarrow> w \<noteq> [] \<Longrightarrow> \<not> HasPrefix (strip_front ws s) w"
proof (induction ws s arbitrary: w rule: strip_front.induct)
  case (1 ws s)
  show ?case
  proof (cases "List.find (\<lambda>w. w \<noteq> [] \<and> HasPrefix s w) ws")
    case None
    then have "strip_front ws s = s" by (subst strip_front.simps) simp
    with None 1(2,3) show ?thesis by (auto simp: find_None_iff)
  next
    case (Some v)
    with 1 show ?thesis by (subst strip_front.simps) simp
  qed
qed

lemma strip_front_suffix: "suffix (strip_front ws s) s"
proof (induction ws s rule: strip_front.induct)
  case (1 ws s)
  show ?case
  proof (cases "List.find (\<lambda>w. w \<noteq> [] \<and> HasPrefix s w) ws")
    case None
    then show ?thesis by (subst strip_front.simps) simp
  next
    case (Some v)
    with 1 show ?thesis
      by (subst strip_front.simps) (auto intro: suffix_order.trans suffix_drop)
  qed
qed

lemma strip_front_idem [simp]: "strip_front ws (strip_front ws s) = strip_front ws s"
  by (rule strip_front_stop) (auto dest: strip_front_clean)

definition TrimLeft_ws :: "string \<Rightarrow> string" where
  "TrimLeft_ws s = strip_front ws_runes s"

definition TrimRight_ws :: "string \<Rightarrow> string" where
  "TrimRight_ws s = rev (strip_front (map rev ws_runes) (rev s))"

definition TrimSpace :: "string \<Rightarrow> string" where
  "TrimSpace s = TrimRight_ws (TrimLeft_ws s)"

lemma TrimRight_ws_prefix: "prefix (TrimRight_ws s) s"
  using strip_front_suffix [of "map rev ws_runes" "rev s"]
  by (simp add: TrimRight_ws_def suffix_to_prefix)

lemma TrimRight_ws_idem [simp]: "TrimRight_ws (TrimRight_ws s) = TrimRight_ws s"
  by (simp add: TrimRight_ws_def)

lemma TrimLeft_TrimSpace [simp]: "TrimLeft_ws (TrimSpace s) = TrimSpace s"
  unfolding TrimLeft_ws_def
proof (rule strip_front_stop, intro ballI)
  fix w assume w: "w \<in> set ws_runes"
  show "w = [] \<or> \<not> HasPrefix (TrimSpace s) w"
  proof (rule disjCI)
    assume "\<not> \<not> HasPrefix (TrimSpace s) w"
    then have "HasPrefix (TrimLeft_ws s) w"
      by (metis HasPrefix_iff TrimRight_ws_prefix TrimSpace_def prefix_order.trans)
    then show "w = []" using strip_front_clean [OF w] by (auto simp: TrimLeft_ws_def)
  qed
qed

lemma TrimSpace_idem [simp]: "TrimSpace (TrimSpace s) = TrimSpace s"
proof -
  have "TrimSpace (TrimSpace s) = TrimRight_ws (TrimSpace s)"
    by (subst TrimSpace_def) simp
  also have "\<dots> = TrimSpace s" by (simp add: TrimSpace_def)
  finally show ?thesis .
qed

lemma TrimSpace_Nil [simp]: "TrimSpace [] = []"
  by (simp add: TrimSpace_def TrimLeft_ws_def TrimRight_ws_def)

lemma TrimSpace_sublist: "sublist (TrimSpace s) s"
  unfolding TrimSpace_def TrimLeft_ws_def
  by (meson TrimRight_ws_prefix prefix_imp_sublist strip_front_suffix sublist_order.order_trans suffix_imp_sublist)

lemma TrimSpace_set: "set (TrimSpace s) \<subseteq> set s"
  by (meson TrimSpace_sublist set_mono_sublist)

lemma TrimSpace_length: "length (TrimSpace s) \<le> length s"
  by (meson TrimSpace_sublist sublist_length_le)

text \<open>A text that starts and ends with a visible ASCII character is its own trimming.\<close>

definition plain_char :: "char \<Rightarrow> bool" where
  "plain_char c \<longleftrightarrow> 32 < (of_char c :: nat) \<and> (of_char c :: nat) < 128"

lemma ws_runes_not_plain:
  "\<forall>w \<in> set ws_runes. w \<noteq> [] \<and> \<not> plain_char (hd w) \<and> \<not> plain_char (last w)"
  by (simp add: ws_runes_def bytes_def plain_char_def)

lemma HasPrefix_hd: "HasPrefix s w \<Longrightarrow> w \<noteq> [] \<Longrightarrow> hd s = hd w"
  by (auto simp: HasPrefix_ex hd_append)

lemma TrimSpace_plain:
  assumes "s \<noteq> []" "plain_char (hd s)" "plain_char (last s)"
  shows "TrimSpace s = s"
proof -
  have "TrimLeft_ws s = s" unfolding TrimLeft_ws_def
    by (rule strip_front_stop) (use assms ws_runes_not_plain HasPrefix_hd in metis)
  moreover have "strip_front (map rev ws_runes) (rev s) = rev s"
  proof (rule strip_front_stop, intro ballI)
    fix w assume "w \<in> set (map rev ws_runes)"
    then have "rev w \<in> set ws_runes" by auto
    with ws_runes_not_plain have "w \<noteq> []" "\<not> plain_char (hd w)" by (metis rev.simps(1), metis hd_rev rev_rev_ident)
    moreover have "plain_char (hd (rev s))" using assms by (simp add: hd_rev)
    ultimately show "w = [] \<or> \<not> HasPrefix (rev s) w" using HasPrefix_hd by metis
  qed
  ultimately show ?thesis by (simp add: TrimSpace_def TrimRight_ws_def)
qed

section \<open>Case\<close>

definition lower_char :: "char \<Rightarrow> char" where
  "lower_char c = (if 65 \<le> (of_char c :: nat) \<and> (of_char c :: nat) \<le> 90
                   then char_of ((of_char c :: nat) + 32) else c)"

fun ToLower :: "string \<Rightarrow> string" where
  "ToLower [] = []"
| "ToLower (c # cs) =
     (if HasPrefix (c # cs) (bytes [0xC4, 0xB0]) then CHR ''i'' # ToLower (drop 1 cs)
      else if HasPrefix (c # cs) (bytes [0xE2, 0x84, 0xAA]) then CHR ''k'' # ToLower (drop 2 cs)
      else lower_char c # ToLower cs)"

lemma ToLower_ascii: "\<forall>c \<in> set s. (of_char c :: nat) < 128 \<Longrightarrow> ToLower s = map lower_char s"
proof (induction s)
  case Nil
  then show ?case by simp
next
  case (Cons c cs)
  have no: "\<not> HasPrefix (c # cs) (bytes (b # bs))" if "128 \<le> b" "b < 256" for b bs
  proof
    assume "HasPrefix (c # cs) (bytes (b # bs))"
    then have "c = char_of b" by (simp add: HasPrefix_def bytes_def)
    with Cons.prems that show False by simp
  qed
  have "\<not> HasPrefix (c # cs) (bytes [0xC4, 0xB0])" "\<not> HasPrefix (c # cs) (bytes [0xE2, 0x84, 0xAA])"
    by (rule no; simp)+
  with Cons show ?case by simp
qed

section \<open>Lines and words\<close>

fun split_on :: "char \<Rightarrow> string \<Rightarrow> string list" where
  "split_on c [] = [[]]"
| "split_on c (x # xs) =
     (if x = c then [] # split_on c xs
      else (case split_on c xs of [] \<Rightarrow> [[x]] | l # ls \<Rightarrow> (x # l) # ls))"

fun Join :: "string list \<Rightarrow> string \<Rightarrow> string" where
  "Join [] sep = []"
| "Join [x] sep = x"
| "Join (x # y # ys) sep = x @ sep @ Join (y # ys) sep"

lemma split_on_nonempty [simp]: "split_on c s \<noteq> []"
  by (induction s) (auto split: list.splits)

lemma Join_Cons_nonempty: "xs \<noteq> [] \<Longrightarrow> Join (x # xs) sep = x @ sep @ Join xs sep"
  by (cases xs) simp_all

lemma Join_split_on [simp]: "Join (split_on c s) [c] = s"
proof (induction s)
  case Nil
  then show ?case by simp
next
  case (Cons x xs)
  obtain l ls where l: "split_on c xs = l # ls" by (cases "split_on c xs") auto
  show ?case
  proof (cases "x = c")
    case True
    with Cons l show ?thesis by (simp add: Join_Cons_nonempty)
  next
    case False
    with Cons l show ?thesis by (cases ls) auto
  qed
qed

lemma length_split_on: "length (split_on c s) = Suc (count_list s c)"
  by (induction s) (auto split: list.splits)

lemma split_on_no_sep: "l \<in> set (split_on c s) \<Longrightarrow> c \<notin> set l"
proof (induction s arbitrary: l)
  case Nil
  then show ?case by simp
next
  case (Cons x xs)
  obtain k ks where k: "split_on c xs = k # ks" by (cases "split_on c xs") auto
  with Cons show ?case by (fastforce split: if_splits)
qed

lemma split_on_single: "c \<notin> set s \<Longrightarrow> split_on c s = [s]"
  by (induction s) auto

lemma split_on_append_sep: "split_on c (a @ c # b) = butlast (split_on c a) @ [last (split_on c a)] @ split_on c b"
proof (induction a)
  case Nil
  then show ?case by simp
next
  case (Cons x xs)
  obtain k ks where k: "split_on c xs = k # ks" by (cases "split_on c xs") auto
  with Cons show ?case by (cases ks) auto
qed

section \<open>Numbers\<close>

fun itoa_nat :: "nat \<Rightarrow> string" where
  "itoa_nat n = (if n < 10 then [char_of (48 + n)] else itoa_nat (n div 10) @ [char_of (48 + n mod 10)])"

declare itoa_nat.simps [simp del]

definition Itoa :: "int \<Rightarrow> string" where
  "Itoa i = (if i < 0 then ''-'' @ itoa_nat (nat (- i)) else itoa_nat (nat i))"

lemma itoa_nat_nonempty [simp]: "itoa_nat n \<noteq> []"
  by (subst itoa_nat.simps) simp

lemma Itoa_nonempty [simp]: "Itoa i \<noteq> []"
  by (simp add: Itoa_def)

section \<open>Runes\<close>

definition byte_at :: "string \<Rightarrow> nat \<Rightarrow> nat" where
  "byte_at s i = (if i < length s then of_char (s ! i) else 0)"

definition cont_byte :: "nat \<Rightarrow> bool" where
  "cont_byte b = (0x80 \<le> b \<and> b \<le> 0xBF)"

text \<open>
  The length of the valid UTF-8 sequence at the front of a nonempty string, 0 when there
  is none (Go then takes one byte as U+FFFD).
\<close>

definition utf8_len :: "string \<Rightarrow> nat" where
  "utf8_len s =
     (let b0 = byte_at s 0; b1 = byte_at s 1; b2 = byte_at s 2; b3 = byte_at s 3 in
      if b0 < 0x80 then 1
      else if 0xC2 \<le> b0 \<and> b0 \<le> 0xDF \<and> cont_byte b1 then 2
      else if b0 = 0xE0 \<and> 0xA0 \<le> b1 \<and> b1 \<le> 0xBF \<and> cont_byte b2 then 3
      else if (0xE1 \<le> b0 \<and> b0 \<le> 0xEC \<or> b0 = 0xEE \<or> b0 = 0xEF) \<and> cont_byte b1 \<and> cont_byte b2 then 3
      else if b0 = 0xED \<and> 0x80 \<le> b1 \<and> b1 \<le> 0x9F \<and> cont_byte b2 then 3
      else if b0 = 0xF0 \<and> 0x90 \<le> b1 \<and> b1 \<le> 0xBF \<and> cont_byte b2 \<and> cont_byte b3 then 4
      else if 0xF1 \<le> b0 \<and> b0 \<le> 0xF3 \<and> cont_byte b1 \<and> cont_byte b2 \<and> cont_byte b3 then 4
      else if b0 = 0xF4 \<and> 0x80 \<le> b1 \<and> b1 \<le> 0x8F \<and> cont_byte b2 \<and> cont_byte b3 then 4
      else 0)"

text \<open>\<open>[]rune(s)\<close>, each rune given by the bytes \<open>string(r)\<close> writes for it.\<close>

function runes :: "string \<Rightarrow> string list" where
  "runes s =
     (if s = [] then []
      else if utf8_len s = 0 then bytes [0xEF, 0xBF, 0xBD] # runes (tl s)
      else take (utf8_len s) s # runes (drop (utf8_len s) s))"
  by pat_completeness auto
termination
  by (relation "measure length") auto

declare runes.simps [simp del]

lemma runes_Nil [simp]: "runes [] = []"
  by (subst runes.simps) simp

lemma length_runes: "length (runes s) \<le> length s"
proof (induction s rule: runes.induct)
  case (1 s)
  show ?case
  proof (cases "s = [] \<or> utf8_len s = 0")
    case True
    with 1 show ?thesis
      by (subst runes.simps) (cases s, auto)
  next
    case False
    with 1 have "length (runes (drop (utf8_len s) s)) \<le> length s - utf8_len s" by simp
    moreover have "length s - utf8_len s < length s" using False by (cases s) auto
    ultimately have "Suc (length (runes (drop (utf8_len s) s))) \<le> length s" by linarith
    then show ?thesis using False by (subst runes.simps) simp
  qed
qed

text \<open>Every byte below 0x80 is a rune of its own, so ASCII text has as many runes as bytes.\<close>

lemma runes_ascii: "\<forall>c \<in> set s. (of_char c :: nat) < 0x80 \<Longrightarrow> runes s = map (\<lambda>c. [c]) s"
proof (induction s)
  case Nil
  then show ?case by simp
next
  case (Cons c s)
  then have "utf8_len (c # s) = 1" by (simp add: utf8_len_def byte_at_def Let_def)
  with Cons show ?case by (subst runes.simps) simp
qed

text \<open>
  A rune is self-delimiting: cutting a string at a rune boundary and reading it again
  gives the same runes.
\<close>

lemma byte_at_take_append:
  "i < k \<Longrightarrow> k \<le> length s \<Longrightarrow> byte_at (take k s @ t) i = byte_at s i"
  by (simp add: byte_at_def nth_append)

lemma utf8_len_le:
  assumes "s \<noteq> []"
  shows "utf8_len s \<le> length s"
proof (rule ccontr)
  assume "\<not> utf8_len s \<le> length s"
  moreover have "utf8_len s \<le> 1 \<or> byte_at s (utf8_len s - 1) \<noteq> 0"
    by (auto simp: utf8_len_def Let_def cont_byte_def)
  moreover have "0 < length s" using assms by simp
  ultimately have "length s < utf8_len s" "byte_at s (utf8_len s - 1) \<noteq> 0" by auto
  then show False by (simp add: byte_at_def split: if_splits)
qed

lemma utf8_len_cases: "P 0 \<Longrightarrow> P 1 \<Longrightarrow> P 2 \<Longrightarrow> P 3 \<Longrightarrow> P 4 \<Longrightarrow> P (utf8_len s)"
  unfolding utf8_len_def Let_def by simp

lemma utf8_len_cut:
  assumes "s \<noteq> []" "0 < utf8_len s"
  shows "utf8_len (take (utf8_len s) s @ t) = utf8_len s"
proof -
  have same: "byte_at (take (utf8_len s) s @ t) i = byte_at s i" if "i < utf8_len s" for i
    using that utf8_len_le [OF assms(1)] by (rule byte_at_take_append)
  define r where "r = take (utf8_len s) s @ t"
  have "utf8_len s = 0 \<or> utf8_len s = 1 \<or> utf8_len s = 2 \<or> utf8_len s = 3 \<or> utf8_len s = 4"
    by (rule utf8_len_cases) simp_all
  with assms(2) consider "utf8_len s = 1" | "utf8_len s = 2" | "utf8_len s = 3" | "utf8_len s = 4"
    by linarith
  then have "utf8_len r = utf8_len s"
  proof cases
    case 1
    then have b: "byte_at r 0 = byte_at s 0" using same [of 0] by (simp add: r_def)
    with 1 show ?thesis by (simp add: utf8_len_def Let_def b split: if_splits)
  next
    case 2
    then have b: "byte_at r 0 = byte_at s 0" "byte_at r 1 = byte_at s 1"
      using same [of 0] same [of 1] by (simp_all add: r_def)
    with 2 show ?thesis by (simp add: utf8_len_def Let_def b split: if_splits)
  next
    case 3
    then have b: "byte_at r 0 = byte_at s 0" "byte_at r 1 = byte_at s 1" "byte_at r 2 = byte_at s 2"
      using same [of 0] same [of 1] same [of 2] by (simp_all add: r_def)
    with 3 show ?thesis by (auto simp: utf8_len_def Let_def b split: if_splits)
  next
    case 4
    then have b: "byte_at r 0 = byte_at s 0" "byte_at r 1 = byte_at s 1" "byte_at r 2 = byte_at s 2"
        "byte_at r 3 = byte_at s 3"
      using same [of 0] same [of 1] same [of 2] same [of 3] by (simp_all add: r_def)
    then show ?thesis by (simp only: utf8_len_def b)
  qed
  then show ?thesis by (simp add: r_def)
qed

lemma runes_concat_take: "runes (concat (take n (runes s))) = take n (runes s)"
proof (induction s arbitrary: n rule: runes.induct)
  case (1 s)
  show ?case
  proof (cases "n = 0 \<or> s = []")
    case True
    then show ?thesis by auto
  next
    case False
    then obtain m where n: "n = Suc m" and s: "s \<noteq> []" by (cases n) auto
    show ?thesis
    proof (cases "utf8_len s = 0")
      case True
      then have r: "runes s = bytes [0xEF, 0xBF, 0xBD] # runes (tl s)"
        using s by (subst runes.simps) simp
      have l: "utf8_len (bytes [0xEF, 0xBF, 0xBD] @ t) = 3" for t
        by (simp add: utf8_len_def byte_at_def bytes_def cont_byte_def)
      have "runes (bytes [0xEF, 0xBF, 0xBD] @ t) = bytes [0xEF, 0xBF, 0xBD] # runes t" for t
        by (subst runes.simps) (simp add: l, simp add: bytes_def)
      with 1(1) True s show ?thesis by (simp add: r n)
    next
      case False
      let ?k = "utf8_len s"
      have r: "runes s = take ?k s # runes (drop ?k s)"
        using s False by (subst runes.simps) simp
      have len: "length (take ?k s) = ?k" using utf8_len_le [OF s] by simp
      have "runes (take ?k s @ t) = take ?k s # runes t" for t
        using utf8_len_cut [OF s, of t] False s len by (subst runes.simps) auto
      with 1(2) False s show ?thesis by (simp add: r n)
    qed
  qed
qed

section \<open>Quoting\<close>

text \<open>
  \<open>strconv.Quote\<close> (the verb \<open>%q\<close>): double quotes around, the escapes of a Go string
  literal inside.  Bytes from 0x80 on are kept, which is what Go does with the UTF-8
  encoding of printable characters.
\<close>

definition hex_digit :: "nat \<Rightarrow> char" where
  "hex_digit d = (if d < 10 then char_of (48 + d) else char_of (87 + d))"

definition quote_byte :: "char \<Rightarrow> string" where
  "quote_byte c =
     (let b = (of_char c :: nat); bs = CHR 0x5C in
      if b = 0x22 \<or> b = 0x5C then [bs, c]
      else if b = 7 then [bs, CHR ''a'']
      else if b = 8 then [bs, CHR ''b'']
      else if b = 12 then [bs, CHR ''f'']
      else if b = 10 then [bs, CHR ''n'']
      else if b = 13 then [bs, CHR ''r'']
      else if b = 9 then [bs, CHR ''t'']
      else if b = 11 then [bs, CHR ''v'']
      else if b < 0x20 \<or> b = 0x7F then [bs, CHR ''x'', hex_digit (b div 16), hex_digit (b mod 16)]
      else [c])"

definition Quote :: "string \<Rightarrow> string" where
  "Quote s = [quote_char] @ concat (map quote_byte s) @ [quote_char]"

end
