(* ===== verification/Domain.thy ===== *)
theory Domain
  imports GoStrings
begin

text \<open>
  The domain package (\<open>internal/domain\<close>): entities, status values, sentinel errors and
  identifiers.  A Go map from strings to strings is the list of its entries, in some
  iteration order, with distinct keys; a \<open>time.Time\<close> is \<open>None\<close> when it is zero.
\<close>

type_synonym timestamp = "int option"
type_synonym strmap = "(string \<times> string) list"

record user =
  user_ID :: string
  user_ExternalUserID :: string
  user_Status :: string
  user_CreatedAt :: timestamp
  user_UpdatedAt :: timestamp

record channelAccount =
  ca_ID :: string
  ca_UserID :: string
  ca_ChannelType :: string
  ca_AccountUID :: string
  ca_DisplayName :: string
  ca_AvatarURL :: string
  ca_CredentialCiphertext :: string
  ca_CredentialVersion :: int
  ca_LastBoundAt :: timestamp
  ca_CreatedAt :: timestamp
  ca_UpdatedAt :: timestamp

record channelBinding =
  cb_ID :: string
  cb_BotID :: string
  cb_UserID :: string
  cb_ChannelType :: string
  cb_Status :: string
  cb_ProviderBindingRef :: string
  cb_QRCodePayload :: string
  cb_ExpiresAt :: timestamp
  cb_ErrorMessage :: string
  cb_ChannelAccountID :: string
  cb_CreatedAt :: timestamp
  cb_UpdatedAt :: timestamp
  cb_FinishedAt :: timestamp

record agentCapability =
  ac_ID :: string
  ac_Key :: string
  ac_Label :: string
  ac_Command :: string
  ac_Args :: "string list"
  ac_SupportedModes :: "string list"
  ac_Available :: bool
  ac_DetectionSource :: string
  ac_LastDetectedAt :: timestamp
  ac_CreatedAt :: timestamp
  ac_UpdatedAt :: timestamp

record bot =
  bot_ID :: string
  bot_UserID :: string
  bot_Name :: string
  bot_Type :: string
  bot_ChannelType :: string
  bot_ChannelAccountID :: string
  bot_ConnectionStatus :: string
  bot_ConnectionError :: string
  bot_AgentCapabilityID :: string
  bot_AgentMode :: string
  bot_Role :: string
  bot_CLIAlias :: string
  bot_Workspace :: string
  bot_SystemPrompt :: string
  bot_AgentEnv :: strmap
  bot_LastConnectedAt :: timestamp
  bot_CreatedAt :: timestamp
  bot_UpdatedAt :: timestamp

record botCLISession =
  bcs_BotID :: string
  bcs_CLIType :: string
  bcs_SessionID :: string
  bcs_WorkDir :: string
  bcs_UpdatedAt :: timestamp

record registeredAgent =
  ra_ID :: string
  ra_Name :: string
  ra_Description :: string
  ra_Kind :: string
  ra_BotID :: string
  ra_Endpoint :: string
  ra_AuthToken :: string
  ra_Health :: string
  ra_LastHeartbeat :: timestamp
  ra_CreatedAt :: timestamp
  ra_UpdatedAt :: timestamp

record mcpServer =
  ms_ID :: string
  ms_Name :: string
  ms_ServerType :: string
  ms_URL :: string
  ms_Command :: string
  ms_Args :: "string list"
  ms_Enabled :: bool
  ms_CreatedAt :: timestamp
  ms_UpdatedAt :: timestamp

section \<open>Status values\<close>

definition BindingStatusPending :: string where "BindingStatusPending = ''pending''"
definition BindingStatusQRReady :: string where "BindingStatusQRReady = ''qr_ready''"
definition BindingStatusConfirmed :: string where "BindingStatusConfirmed = ''confirmed''"
definition BindingStatusFailed :: string where "BindingStatusFailed = ''failed''"
definition BindingStatusExpired :: string where "BindingStatusExpired = ''expired''"

definition BotConnectionStatusLoginRequired :: string where "BotConnectionStatusLoginRequired = ''login_required''"
definition BotConnectionStatusConnecting :: string where "BotConnectionStatusConnecting = ''connecting''"
definition BotConnectionStatusConnected :: string where "BotConnectionStatusConnected = ''connected''"
definition BotConnectionStatusError :: string where "BotConnectionStatusError = ''error''"

definition BotTypeChannel :: string where "BotTypeChannel = ''channel''"
definition BotTypeHook :: string where "BotTypeHook = ''hook''"
definition BotTypeSubagent :: string where "BotTypeSubagent = ''subagent''"

definition BotRoleOrchestrator :: string where "BotRoleOrchestrator = ''orchestrator''"

definition RegisteredAgentKindLocal :: string where "RegisteredAgentKindLocal = ''local''"
definition RegisteredAgentKindRemote :: string where "RegisteredAgentKindRemote = ''remote''"
definition RegisteredAgentHealthy :: string where "RegisteredAgentHealthy = ''healthy''"
definition RegisteredAgentUnhealthy :: string where "RegisteredAgentUnhealthy = ''unhealthy''"

lemmas status_defs =
  BindingStatusPending_def BindingStatusQRReady_def BindingStatusConfirmed_def
  BindingStatusFailed_def BindingStatusExpired_def
  BotConnectionStatusLoginRequired_def BotConnectionStatusConnecting_def
  BotConnectionStatusConnected_def BotConnectionStatusError_def
  BotTypeChannel_def BotTypeHook_def BotTypeSubagent_def BotRoleOrchestrator_def
  RegisteredAgentKindLocal_def RegisteredAgentKindRemote_def
  RegisteredAgentHealthy_def RegisteredAgentUnhealthy_def

section \<open>Errors\<close>

definition ErrNotFound :: goerr where
  "ErrNotFound = \<lparr>err_msg = ''not found'', err_wraps = [NotFound]\<rparr>"

definition ErrInvalidArg :: goerr where
  "ErrInvalidArg = \<lparr>err_msg = ''invalid argument'', err_wraps = [InvalidArg]\<rparr>"

lemma errors_Is_ErrNotFound [simp]: "errors_Is ErrNotFound s = (s = NotFound)"
  by (auto simp: errors_Is_iff ErrNotFound_def)

lemma errors_Is_ErrInvalidArg [simp]: "errors_Is ErrInvalidArg s = (s = InvalidArg)"
  by (auto simp: errors_Is_iff ErrInvalidArg_def)

section \<open>Identifiers\<close>

text \<open>
  \<open>NewPrefixedID\<close>.  The ULID, which the package ulid makes from the clock and random
  bytes, is an argument: the text \<open>id.String()\<close> returns.
\<close>

definition NewPrefixedID :: "string \<Rightarrow> string \<Rightarrow> string" where
  "NewPrefixedID ulid pre =
     (let normalized = TrimSpace pre;
          p = (if normalized = [] then ''id'' else normalized)
      in p @ ''_'' @ ToLower ulid)"

lemma NewPrefixedID_nonempty [simp]: "NewPrefixedID u p \<noteq> []"
  by (simp add: NewPrefixedID_def Let_def)

lemma NewPrefixedID_inj_lower:
  "NewPrefixedID u p = NewPrefixedID v p \<Longrightarrow> ToLower u = ToLower v"
  by (simp add: NewPrefixedID_def Let_def)

end
