(* ===== verification/Repositories.thy ===== *)
theory Repositories
  imports Domain
begin

text \<open>
  Effects, and the repository interfaces of \<open>internal/domain/repositories.go\<close>.

  A call that reads or writes the world (the database, the file system, the clock, the
  entropy source) is a function on a state of type \<open>'w\<close> that can fail; \<open>andThen\<close> is the
  Go sequence \<open>x, err := m; if err != nil { return err }; ...\<close>, and \<open>attempt\<close> runs a call and
  hands its outcome, error or value, to what follows.  An interface is a record of such
  calls, so an implementation is a value of it.  The \<open>context.Context\<close> a call is given only
  reaches the implementation and is part of what it is.
\<close>

section \<open>Effects\<close>

type_synonym ('w, 'a) io = "'w \<Rightarrow> (goerr + 'a) \<times> 'w"

definition return_ok :: "'a \<Rightarrow> ('w, 'a) io" where
  "return_ok a w = (Inr a, w)"

definition return_err :: "goerr \<Rightarrow> ('w, 'a) io" where
  "return_err e w = (Inl e, w)"

definition andThen :: "('w, 'a) io \<Rightarrow> ('a \<Rightarrow> ('w, 'b) io) \<Rightarrow> ('w, 'b) io" where
  "andThen m f w = (case m w of (Inl e, w1) \<Rightarrow> (Inl e, w1) | (Inr a, w1) \<Rightarrow> f a w1)"

definition attempt :: "('w, 'a) io \<Rightarrow> (goerr + 'a \<Rightarrow> ('w, 'b) io) \<Rightarrow> ('w, 'b) io" where
  "attempt m f w = (case m w of (r, w1) \<Rightarrow> f r w1)"

text \<open>A pure computation that can fail.\<close>

definition lift_sum :: "goerr + 'a \<Rightarrow> ('w, 'a) io" where
  "lift_sum r w = (r, w)"

text \<open>A loop that collects a value per element and returns at the first error.\<close>

fun for_each :: "('a \<Rightarrow> ('w, 'b) io) \<Rightarrow> 'a list \<Rightarrow> ('w, 'b list) io" where
  "for_each f [] = return_ok []"
| "for_each f (x # xs) = andThen (f x) (\<lambda>y. andThen (for_each f xs) (\<lambda>ys. return_ok (y # ys)))"

lemma return_ok_eq [simp]: "return_ok a w = (r, w') \<longleftrightarrow> r = Inr a \<and> w' = w"
  by (auto simp: return_ok_def)

lemma return_err_eq [simp]: "return_err e w = (r, w') \<longleftrightarrow> r = Inl e \<and> w' = w"
  by (auto simp: return_err_def)

lemma lift_sum_eq [simp]: "lift_sum s w = (r, w') \<longleftrightarrow> r = s \<and> w' = w"
  by (auto simp: lift_sum_def)

lemma andThen_Inr_iff:
  "andThen m f w = (Inr b, w') \<longleftrightarrow> (\<exists>a w1. m w = (Inr a, w1) \<and> f a w1 = (Inr b, w'))"
  by (auto simp: andThen_def split: prod.splits sum.splits)

lemma andThen_Inl_iff:
  "andThen m f w = (Inl e, w') \<longleftrightarrow> m w = (Inl e, w') \<or> (\<exists>a w1. m w = (Inr a, w1) \<and> f a w1 = (Inl e, w'))"
  by (auto simp: andThen_def split: prod.splits sum.splits)

lemma attempt_iff: "attempt m f w = x \<longleftrightarrow> (\<exists>r w1. m w = (r, w1) \<and> f r w1 = x)"
  by (auto simp: attempt_def split: prod.splits)

lemma attempt_cases [consumes 1, case_names Ok Err]:
  assumes "attempt m f w = x"
  obtains (Ok) a w1 where "m w = (Inr a, w1)" "f (Inr a) w1 = x"
    | (Err) e w1 where "m w = (Inl e, w1)" "f (Inl e) w1 = x"
proof -
  obtain r w1 where "m w = (r, w1)" by fastforce
  with assms that show thesis by (cases r) (auto simp: attempt_def)
qed

text \<open>An early return with an error did not happen when the call succeeded.\<close>

lemma guard_Inr: "(if P then return_err e else m) w = (Inr x, w') \<longleftrightarrow> \<not> P \<and> m w = (Inr x, w')"
  by simp

lemma andThen_InrE:
  assumes "andThen m f w = (Inr b, w')"
  obtains a w1 where "m w = (Inr a, w1)" "f a w1 = (Inr b, w')"
  using assms by (auto simp: andThen_Inr_iff)

lemma andThen_cases [consumes 1, case_names Ok Err]:
  assumes "andThen m f w = (r, w')"
  obtains (Ok) a w1 where "m w = (Inr a, w1)" "f a w1 = (r, w')"
    | (Err) e where "m w = (Inl e, w')" "r = Inl e"
  using assms by (auto simp: andThen_def split: prod.splits sum.splits)

lemma for_each_length: "for_each f xs w = (Inr ys, w') \<Longrightarrow> length ys = length xs"
  by (induction xs arbitrary: w ys) (auto simp: andThen_Inr_iff)

lemma for_each_empty: "for_each f xs w = (Inr [], w') \<Longrightarrow> xs = []"
  using for_each_length by fastforce

text \<open>What every call keeps, a loop of them keeps.\<close>

lemma for_each_keeps:
  assumes "\<And>x w r w'. x \<in> set xs \<Longrightarrow> f x w = (r, w') \<Longrightarrow> P w \<Longrightarrow> P w'"
  shows "for_each f xs w = (r, w') \<Longrightarrow> P w \<Longrightarrow> P w'"
  using assms
proof (induction xs arbitrary: w r w')
  case Nil
  then show ?case by simp
next
  case (Cons x xs)
  obtain q w1 where q: "f x w = (q, w1)" by fastforce
  with Cons.prems have P1: "P w1" by (meson list.set_intros(1))
  show ?case
  proof (cases q)
    case (Inl e)
    with Cons.prems(1) q P1 show ?thesis by (simp add: andThen_def)
  next
    case (Inr y)
    obtain q2 w2 where q2: "for_each f xs w1 = (q2, w2)" by fastforce
    have "P w2" by (rule Cons.IH [OF q2 P1]) (use Cons.prems(3) in \<open>meson list.set_intros(2)\<close>)
    with Cons.prems(1) q Inr q2 show ?thesis
      by (cases q2) (auto simp: andThen_def return_ok_def)
  qed
qed

text \<open>A call that leaves a part of the world as it is.\<close>

definition keeps :: "('w \<Rightarrow> 'v) \<Rightarrow> ('w, 'a) io \<Rightarrow> bool" where
  "keeps view m \<longleftrightarrow> (\<forall>w r w'. m w = (r, w') \<longrightarrow> view w' = view w)"

lemma keepsD: "keeps view m \<Longrightarrow> m w = (r, w') \<Longrightarrow> view w' = view w"
  by (auto simp: keeps_def)

lemma keeps_return [simp]: "keeps view (return_ok a)" "keeps view (return_err e)" "keeps view (lift_sum s)"
  by (simp_all add: keeps_def)

lemma keeps_andThen [intro]: "keeps view m \<Longrightarrow> (\<And>a. keeps view (f a)) \<Longrightarrow> keeps view (andThen m f)"
  unfolding keeps_def by (metis andThen_cases)

lemma keeps_attempt [intro]: "keeps view m \<Longrightarrow> (\<And>r. keeps view (f r)) \<Longrightarrow> keeps view (attempt m f)"
  unfolding keeps_def by (metis attempt_cases)

section \<open>The clock and the source of identifiers\<close>

text \<open>\<open>time.Now().UTC()\<close> in a state, and the ULID drawn next.\<close>

record 'w goenv =
  ge_Now :: "'w \<Rightarrow> int"
  ge_ULID :: "'w \<Rightarrow> string \<times> 'w"

definition fresh_id :: "'w goenv \<Rightarrow> string \<Rightarrow> ('w, string) io" where
  "fresh_id env pre w = (case ge_ULID env w of (u, w1) \<Rightarrow> (Inr (NewPrefixedID u pre), w1))"

definition time_now :: "'w goenv \<Rightarrow> ('w, int) io" where
  "time_now env w = (Inr (ge_Now env w), w)"

lemma time_now_eq [simp]: "time_now env w = (r, w') \<longleftrightarrow> r = Inr (ge_Now env w) \<and> w' = w"
  by (auto simp: time_now_def)

section \<open>The repository interfaces\<close>

record 'w userRepository =
  ur_FindOrCreateByExternalUserID :: "string \<Rightarrow> ('w, user) io"

record 'w channelAccountRepository =
  car_Upsert :: "channelAccount \<Rightarrow> ('w, channelAccount) io"
  car_GetByID :: "string \<Rightarrow> ('w, channelAccount) io"
  car_ListByUserID :: "string \<Rightarrow> string \<Rightarrow> ('w, channelAccount list) io"

record 'w channelBindingRepository =
  cbrepo_Create :: "channelBinding \<Rightarrow> ('w, channelBinding) io"
  cbrepo_GetByID :: "string \<Rightarrow> ('w, channelBinding) io"
  cbrepo_Update :: "channelBinding \<Rightarrow> ('w, channelBinding) io"
  cbrepo_DeleteByBotID :: "string \<Rightarrow> ('w, unit) io"

record 'w botRepository =
  br_Create :: "bot \<Rightarrow> ('w, bot) io"
  br_GetByID :: "string \<Rightarrow> ('w, bot) io"
  br_GetByName :: "string \<Rightarrow> ('w, bot) io"
  br_ListByUserID :: "string \<Rightarrow> ('w, bot list) io"
  br_ListWithAccounts :: "('w, bot list) io"
  br_Update :: "bot \<Rightarrow> ('w, bot) io"
  br_DeleteByID :: "string \<Rightarrow> ('w, unit) io"

record 'w agentCapabilityRepository =
  acr_Upsert :: "agentCapability \<Rightarrow> ('w, agentCapability) io"
  acr_GetByID :: "string \<Rightarrow> ('w, agentCapability) io"
  acr_GetByKey :: "string \<Rightarrow> ('w, agentCapability) io"
  acr_List :: "('w, agentCapability list) io"

record 'w registeredAgentRepository =
  rar_Upsert :: "registeredAgent \<Rightarrow> ('w, registeredAgent) io"
  rar_GetByID :: "string \<Rightarrow> ('w, registeredAgent) io"
  rar_GetByName :: "string \<Rightarrow> ('w, registeredAgent) io"
  rar_List :: "('w, registeredAgent list) io"
  rar_DeleteByID :: "string \<Rightarrow> ('w, unit) io"

record 'w mcpServerRepository =
  mcr_Create :: "mcpServer \<Rightarrow> ('w, mcpServer) io"
  mcr_GetByID :: "string \<Rightarrow> ('w, mcpServer) io"
  mcr_GetByName :: "string \<Rightarrow> ('w, mcpServer) io"
  mcr_List :: "('w, mcpServer list) io"
  mcr_Update :: "mcpServer \<Rightarrow> ('w, mcpServer) io"
  mcr_DeleteByID :: "string \<Rightarrow> ('w, unit) io"
  mcr_ListByBot :: "string \<Rightarrow> ('w, mcpServer list) io"
  mcr_ListEnabledByBot :: "string \<Rightarrow> ('w, mcpServer list) io"
  mcr_SetBotServers :: "string \<Rightarrow> string list \<Rightarrow> ('w, unit) io"
  mcr_AttachToBot :: "string \<Rightarrow> string \<Rightarrow> ('w, unit) io"
  mcr_DetachFromBot :: "string \<Rightarrow> string \<Rightarrow> ('w, unit) io"

record 'w botCLISessionRepository =
  bsr_Upsert :: "botCLISession \<Rightarrow> ('w, unit) io"
  bsr_Get :: "string \<Rightarrow> string \<Rightarrow> ('w, botCLISession) io"

end
