(* ===== verification/Services.thy ===== *)
theory Services
  imports Repositories
begin

text \<open>
  The small services the bot service is built on: the credential cipher
  (\<open>internal/security/crypto.go\<close>), the MCP server service
  (\<open>internal/app/mcpserver/service.go\<close>), the capability discoverer
  (\<open>internal/app/capability/discoverer.go\<close>) and the user service; and the path functions of
  \<open>path/filepath\<close> the source calls, for Unix.
\<close>

section \<open>Paths\<close>

fun clean_parts :: "bool \<Rightarrow> string list \<Rightarrow> string list \<Rightarrow> string list" where
  "clean_parts rooted stack [] = rev stack"
| "clean_parts rooted stack (p # ps) =
     (if p = [] \<or> p = ''.'' then clean_parts rooted stack ps
      else if p = ''..'' then
        (case stack of
           [] \<Rightarrow> clean_parts rooted (if rooted then [] else [''..'']) ps
         | q # rest \<Rightarrow> if q = ''..'' then clean_parts rooted (''..'' # stack) ps else clean_parts rooted rest ps)
      else clean_parts rooted (p # stack) ps)"

definition path_Clean :: "string \<Rightarrow> string" where
  "path_Clean s =
     (let rooted = HasPrefix s ''/'';
          p = (if rooted then ''/'' else []) @ Join (clean_parts rooted [] (split_on (CHR ''/'') s)) ''/''
      in if p = [] then ''.'' else p)"

definition path_Join :: "string list \<Rightarrow> string" where
  "path_Join elems = (case filter (\<lambda>e. e \<noteq> []) elems of [] \<Rightarrow> [] | es \<Rightarrow> path_Clean (Join es ''/''))"

section \<open>The cipher\<close>

text \<open>
  An AEAD of \<open>crypto/cipher\<close>: the size of its nonces, sealing and opening.  The random nonce
  is drawn from the world.
\<close>

record gcm =
  gcm_NonceSize :: nat
  gcm_Seal :: "string \<Rightarrow> string \<Rightarrow> string"
  gcm_Open :: "string \<Rightarrow> string \<Rightarrow> goerr + string"

definition cipher_Encrypt :: "gcm \<Rightarrow> (nat \<Rightarrow> ('w, string) io) \<Rightarrow> string \<Rightarrow> ('w, string) io" where
  "cipher_Encrypt g random plaintext =
     attempt (random (gcm_NonceSize g))
       (\<lambda>res. case res of
          Inl err \<Rightarrow> return_err (wrapf ''generate nonce: '' err [])
        | Inr nonce \<Rightarrow> return_ok (nonce @ gcm_Seal g nonce plaintext))"

definition cipher_Decrypt :: "gcm \<Rightarrow> string \<Rightarrow> goerr + string" where
  "cipher_Decrypt g ciphertext =
     (let nonceSize = gcm_NonceSize g in
      if length ciphertext < nonceSize then Inl (errorf ''ciphertext too short'')
      else case gcm_Open g (take nonceSize ciphertext) (drop nonceSize ciphertext) of
             Inl err \<Rightarrow> Inl (wrapf ''decrypt: '' err [])
           | Inr plaintext \<Rightarrow> Inr plaintext)"

text \<open>
  What the cipher encrypts it decrypts, whatever nonce was drawn, when the AEAD opens what
  it sealed and the source of randomness fills the buffer it is given.
\<close>

theorem cipher_round_trip:
  assumes "\<And>n p. length n = gcm_NonceSize g \<Longrightarrow> gcm_Open g n (gcm_Seal g n p) = Inr p"
    and "\<And>k w n w'. random k w = (Inr n, w') \<Longrightarrow> length n = k"
    and "cipher_Encrypt g random plaintext w = (Inr c, w')"
  shows "cipher_Decrypt g c = Inr plaintext"
proof -
  from assms(3) obtain n where n: "random (gcm_NonceSize g) w = (Inr n, w')" "c = n @ gcm_Seal g n plaintext"
    unfolding cipher_Encrypt_def by (cases rule: attempt_cases) auto
  with assms(2) have "length n = gcm_NonceSize g" by blast
  with n(2) assms(1) show ?thesis by (simp add: cipher_Decrypt_def)
qed

lemma cipher_round_trip_witness:
  "cipher_Decrypt \<lparr>gcm_NonceSize = 2, gcm_Seal = (\<lambda>n p. rev p @ n), gcm_Open = (\<lambda>n c. Inr (rev (take (length c - 2) c)))\<rparr>
     (''aa'' @ ''olleh'' @ ''aa'') = Inr ''hello''"
proof -
  let ?g = "\<lparr>gcm_NonceSize = 2, gcm_Seal = (\<lambda>n p. rev p @ n), gcm_Open = (\<lambda>n c. Inr (rev (take (length c - 2) c)))\<rparr>"
  have "cipher_Encrypt ?g (\<lambda>k w. (Inr (replicate k CHR ''a''), w)) ''hello'' () = (Inr (''aa'' @ ''olleh'' @ ''aa''), ())"
    by (simp add: cipher_Encrypt_def attempt_def return_ok_def numeral_2_eq_2)
  then show ?thesis by (rule cipher_round_trip [rotated 2]) auto
qed

section \<open>MCP servers\<close>

definition TypeHTTP :: string where "TypeHTTP = ''http''"
definition TypeStdio :: string where "TypeStdio = ''stdio''"

record mcpCreateInput =
  mci_Name :: string
  mci_ServerType :: string
  mci_URL :: string
  mci_Command :: string
  mci_Args :: "string list"

record 'w mcpService =
  mcs_repo :: "'w mcpServerRepository"
  mcs_bots :: "'w botRepository"

definition invalid_arg :: "string \<Rightarrow> goerr" where
  "invalid_arg post = wrapf [] ErrInvalidArg post"

definition mcs_Create :: "'w goenv \<Rightarrow> 'w mcpService \<Rightarrow> mcpCreateInput \<Rightarrow> ('w, mcpServer) io" where
  "mcs_Create env s input =
     (let name = TrimSpace (mci_Name input);
          givenType = TrimSpace (mci_ServerType input);
          serverType = (if givenType = [] then TypeHTTP else givenType)
      in
      if name = [] then return_err (invalid_arg '': name is required'')
      else if serverType \<noteq> TypeHTTP \<and> serverType \<noteq> TypeStdio
        then return_err (invalid_arg '': server_type must be http or stdio'')
      else if serverType = TypeHTTP \<and> TrimSpace (mci_URL input) = []
        then return_err (invalid_arg '': url is required for http servers'')
      else if serverType = TypeStdio \<and> TrimSpace (mci_Command input) = []
        then return_err (invalid_arg '': command is required for stdio servers'')
      else attempt (mcr_GetByName (mcs_repo s) name)
        (\<lambda>res. case res of
           Inr _ \<Rightarrow> return_err (invalid_arg ('': server '' @ Quote name @ '' already exists''))
         | Inl err \<Rightarrow>
             if \<not> errors_Is err NotFound then return_err err
             else andThen (fresh_id env ''mcp'') (\<lambda>i.
               mcr_Create (mcs_repo s)
                 \<lparr>ms_ID = i, ms_Name = name, ms_ServerType = serverType, ms_URL = TrimSpace (mci_URL input),
                  ms_Command = TrimSpace (mci_Command input), ms_Args = mci_Args input, ms_Enabled = True,
                  ms_CreatedAt = None, ms_UpdatedAt = None\<rparr>)))"

definition mcs_List :: "'w mcpService \<Rightarrow> ('w, mcpServer list) io" where
  "mcs_List s = mcr_List (mcs_repo s)"

definition mcs_Remove :: "'w mcpService \<Rightarrow> string \<Rightarrow> ('w, unit) io" where
  "mcs_Remove s name =
     andThen (mcr_GetByName (mcs_repo s) (TrimSpace name)) (\<lambda>server. mcr_DeleteByID (mcs_repo s) (ms_ID server))"

definition mcs_SetEnabled :: "'w mcpService \<Rightarrow> string \<Rightarrow> bool \<Rightarrow> ('w, mcpServer) io" where
  "mcs_SetEnabled s name enabled =
     andThen (mcr_GetByName (mcs_repo s) (TrimSpace name))
       (\<lambda>server. mcr_Update (mcs_repo s) (server\<lparr>ms_Enabled := enabled\<rparr>))"

definition mcs_ListByBot :: "'w mcpService \<Rightarrow> string \<Rightarrow> ('w, mcpServer list) io" where
  "mcs_ListByBot s botID = mcr_ListByBot (mcs_repo s) botID"

definition mcs_requireBot :: "'w mcpService \<Rightarrow> string \<Rightarrow> ('w, unit) io" where
  "mcs_requireBot s botID =
     attempt (br_GetByID (mcs_bots s) botID)
       (\<lambda>res. case res of
          Inr _ \<Rightarrow> return_ok ()
        | Inl err \<Rightarrow>
            if errors_Is err NotFound then return_err (wrapf [] ErrNotFound ('': bot '' @ Quote botID @ '' not found''))
            else return_err err)"

definition mcs_AttachToBot :: "'w mcpService \<Rightarrow> string \<Rightarrow> string \<Rightarrow> ('w, unit) io" where
  "mcs_AttachToBot s botID serverName =
     andThen (mcs_requireBot s botID) (\<lambda>_.
     andThen (mcr_GetByName (mcs_repo s) (TrimSpace serverName)) (\<lambda>server.
     mcr_AttachToBot (mcs_repo s) botID (ms_ID server)))"

definition mcs_DetachFromBot :: "'w mcpService \<Rightarrow> string \<Rightarrow> string \<Rightarrow> ('w, unit) io" where
  "mcs_DetachFromBot s botID serverName =
     andThen (mcs_requireBot s botID) (\<lambda>_.
     andThen (mcr_GetByName (mcs_repo s) (TrimSpace serverName)) (\<lambda>server.
     mcr_DetachFromBot (mcs_repo s) botID (ms_ID server)))"

text \<open>The loop of \<open>SetBotServers\<close> that looks every id up before anything is written.\<close>

fun require_servers :: "'w mcpService \<Rightarrow> string list \<Rightarrow> ('w, unit) io" where
  "require_servers s [] = return_ok ()"
| "require_servers s (i # is) =
     attempt (mcr_GetByID (mcs_repo s) i)
       (\<lambda>res. case res of
          Inr _ \<Rightarrow> require_servers s is
        | Inl err \<Rightarrow>
            if errors_Is err NotFound then return_err (invalid_arg ('': mcp server '' @ Quote i @ '' not found''))
            else return_err err)"

definition mcs_SetBotServers :: "'w mcpService \<Rightarrow> string \<Rightarrow> string list \<Rightarrow> ('w, unit) io" where
  "mcs_SetBotServers s botID serverIDs =
     andThen (mcs_requireBot s botID) (\<lambda>_.
     andThen (require_servers s serverIDs) (\<lambda>_.
     mcr_SetBotServers (mcs_repo s) botID serverIDs))"

section \<open>Capabilities\<close>

record capabilitySeed =
  seed_key :: string
  seed_label :: string
  seed_command :: string
  seed_supportedModes :: "string list"

definition capabilitySeeds :: "capabilitySeed list" where
  "capabilitySeeds =
     [\<lparr>seed_key = ''codex'', seed_label = ''Codex CLI'', seed_command = ''codex'', seed_supportedModes = [''codex-exec'', ''codex-acp'']\<rparr>,
      \<lparr>seed_key = ''claude'', seed_label = ''Claude Code'', seed_command = ''claude'', seed_supportedModes = [''claude-acp'']\<rparr>,
      \<lparr>seed_key = ''opencode'', seed_label = ''OpenCode'', seed_command = ''opencode'', seed_supportedModes = [''opencode-acp'']\<rparr>]"

text \<open>
  One seed: \<open>existing\<close> is the stored capability or the zero value.  \<open>lookPath\<close> is
  \<open>exec.LookPath\<close> or what the constructor was given.
\<close>

definition no_capability :: agentCapability where
  "no_capability = \<lparr>ac_ID = [], ac_Key = [], ac_Label = [], ac_Command = [], ac_Args = [], ac_SupportedModes = [],
     ac_Available = False, ac_DetectionSource = [], ac_LastDetectedAt = None, ac_CreatedAt = None, ac_UpdatedAt = None\<rparr>"

definition refresh_seed ::
  "'w goenv \<Rightarrow> 'w agentCapabilityRepository \<Rightarrow> (string \<Rightarrow> goerr + string) \<Rightarrow> capabilitySeed \<Rightarrow> ('w, agentCapability) io" where
  "refresh_seed env repo lookPath seed =
     attempt (acr_GetByKey repo (seed_key seed))
       (\<lambda>res.
          let known = (case res of Inr c \<Rightarrow> c | Inl _ \<Rightarrow> no_capability);
              failure = (case res of Inl err \<Rightarrow> if errors_Is err NotFound then None else Some err | Inr _ \<Rightarrow> None)
          in case failure of
               Some err \<Rightarrow> return_err err
             | None \<Rightarrow>
                 andThen (time_now env) (\<lambda>now.
                 andThen (if ac_ID known = [] then fresh_id env ''cap'' else return_ok (ac_ID known)) (\<lambda>i.
                 let capability = no_capability\<lparr>ac_ID := i, ac_Key := seed_key seed, ac_Label := seed_label seed,
                       ac_Command := seed_command seed, ac_SupportedModes := seed_supportedModes seed,
                       ac_DetectionSource := ''path_scan'', ac_LastDetectedAt := ac_LastDetectedAt known\<rparr>;
                     found = (case lookPath (seed_command seed) of
                       Inr resolved \<Rightarrow>
                         if resolved \<noteq> []
                         then capability\<lparr>ac_Command := resolved, ac_Available := True, ac_LastDetectedAt := Some now\<rparr>
                         else capability
                     | Inl _ \<Rightarrow> capability)
                 in acr_Upsert repo found)))"

definition capability_Refresh ::
  "'w goenv \<Rightarrow> 'w agentCapabilityRepository \<Rightarrow> (string \<Rightarrow> goerr + string) \<Rightarrow> ('w, agentCapability list) io" where
  "capability_Refresh env repo lookPath = for_each (refresh_seed env repo lookPath) capabilitySeeds"

section \<open>Users\<close>

definition ResolveUser :: "'w userRepository \<Rightarrow> string \<Rightarrow> ('w, user) io" where
  "ResolveUser users externalUserID = ur_FindOrCreateByExternalUserID users externalUserID"

section \<open>What the services ensure\<close>

lemma errors_Is_invalid_arg [simp]: "errors_Is (invalid_arg m) k = (k = InvalidArg)"
  by (simp add: invalid_arg_def)

definition server_valid :: "mcpServer \<Rightarrow> bool" where
  "server_valid s \<longleftrightarrow> ms_Name s \<noteq> [] \<and> TrimSpace (ms_Name s) = ms_Name s \<and> ms_Enabled s
     \<and> (ms_ServerType s = TypeHTTP \<and> ms_URL s \<noteq> [] \<or> ms_ServerType s = TypeStdio \<and> ms_Command s \<noteq> [])"

text \<open>
  An MCP server is only ever stored when it is valid and its name is free: if \<open>Create\<close>
  reaches the repository, the server it stores has a trimmed nonempty name, one of the two
  types with the field that type needs, is enabled, has a fresh id, and the lookup of its name
  just reported that there is none.
\<close>

theorem mcs_Create_stores_valid:
  assumes "mcs_Create env s input w = (Inr stored, w')"
  shows "\<exists>server err w1 w2. server_valid server \<and> ms_ID server \<noteq> []
    \<and> mcr_GetByName (mcs_repo s) (ms_Name server) w = (Inl err, w1) \<and> errors_Is err NotFound
    \<and> w2 = snd (fresh_id env ''mcp'' w1) \<and> mcr_Create (mcs_repo s) server w2 = (Inr stored, w')"
proof -
  let ?name = "TrimSpace (mci_Name input)"
  let ?type = "if TrimSpace (mci_ServerType input) = [] then TypeHTTP else TrimSpace (mci_ServerType input)"
  note reached = assms [unfolded mcs_Create_def Let_def guard_Inr]
  then have guards: "?name \<noteq> []" "?type = TypeHTTP \<or> ?type = TypeStdio"
      "\<not> (?type = TypeHTTP \<and> TrimSpace (mci_URL input) = [])" "\<not> (?type = TypeStdio \<and> TrimSpace (mci_Command input) = [])"
    by argo+
  let ?server = "\<lambda>i. \<lparr>ms_ID = i, ms_Name = ?name, ms_ServerType = ?type, ms_URL = TrimSpace (mci_URL input),
                  ms_Command = TrimSpace (mci_Command input), ms_Args = mci_Args input, ms_Enabled = True,
                  ms_CreatedAt = None, ms_UpdatedAt = None\<rparr>"
  from reached have "attempt (mcr_GetByName (mcs_repo s) ?name)
        (\<lambda>res. case res of
           Inr _ \<Rightarrow> return_err (invalid_arg ('': server '' @ Quote ?name @ '' already exists''))
         | Inl err \<Rightarrow>
             if \<not> errors_Is err NotFound then return_err err
             else andThen (fresh_id env ''mcp'') (\<lambda>i. mcr_Create (mcs_repo s) (?server i))) w = (Inr stored, w')"
    by argo
  then show ?thesis
  proof (cases rule: attempt_cases)
    case (Err err w1)
    then have nf: "errors_Is err NotFound" by (auto split: if_splits)
    obtain u w2 where u: "ge_ULID env w1 = (u, w2)" by fastforce
    let ?i = "NewPrefixedID u ''mcp''"
    have "mcr_Create (mcs_repo s) (?server ?i) w2 = (Inr stored, w')"
      using Err(2) nf u by (simp add: andThen_def fresh_id_def)
    moreover have "server_valid (?server ?i)" using guards by (auto simp: server_valid_def)
    moreover have "w2 = snd (fresh_id env ''mcp'' w1)" using u by (simp add: fresh_id_def)
    ultimately show ?thesis using Err(1) nf by (intro exI [of _ "?server ?i"] exI [of _ err] exI [of _ w1] exI [of _ w2]) simp
  qed simp
qed

definition sample_mcs :: "mcpServer list mcpService" where
  "sample_mcs = \<lparr>mcs_repo = (undefined :: mcpServer list mcpServerRepository)
      \<lparr>mcr_GetByName := (\<lambda>n w. (case List.find (\<lambda>s. ms_Name s = n) w of None \<Rightarrow> Inl ErrNotFound | Some s \<Rightarrow> Inr s, w)),
       mcr_Create := (\<lambda>s w. (Inr s, s # w))\<rparr>, mcs_bots = undefined\<rparr>"

lemma mcs_Create_stores_valid_witness:
  "\<exists>server stored. server_valid server \<and>
     mcr_Create (mcs_repo sample_mcs) server ([] :: mcpServer list) =
       (Inr stored, snd (mcs_Create \<lparr>ge_Now = \<lambda>_. 0, ge_ULID = \<lambda>w. (''01'', w)\<rparr> sample_mcs
          \<lparr>mci_Name = ''boo'', mci_ServerType = [], mci_URL = ''u'', mci_Command = [], mci_Args = []\<rparr> []))"
proof -
  let ?env = "\<lparr>ge_Now = \<lambda>_. 0, ge_ULID = \<lambda>w. (''01'', w)\<rparr> :: mcpServer list goenv"
  let ?in = "\<lparr>mci_Name = ''boo'', mci_ServerType = [], mci_URL = ''u'', mci_Command = [], mci_Args = []\<rparr>"
  have t: "TrimSpace ''boo'' = ''boo''" "TrimSpace ''u'' = ''u''"
    by (rule TrimSpace_plain; simp add: plain_char_def)+
  obtain stored w' where r: "mcs_Create ?env sample_mcs ?in [] = (Inr stored, w')"
    by (simp add: mcs_Create_def Let_def t TypeHTTP_def TypeStdio_def attempt_def sample_mcs_def andThen_def fresh_id_def)
  from mcs_Create_stores_valid [OF r] show ?thesis
    unfolding r by (auto simp: sample_mcs_def fresh_id_def)
qed

end
