(* ===== verification/Base64.thy ===== *)
theory Base64
  imports GoStrings
begin

text \<open>
  \<open>base64.StdEncoding\<close> of \<open>encoding/base64\<close>: \<open>EncodeToString\<close> and \<open>DecodeString\<close>, which ignores line
  ends, wants its padding at the end and does not look at the unused bits of a padded group.
  \<open>base64_round_trip\<close> shows that decoding undoes encoding.
\<close>

definition b64_char :: "nat \<Rightarrow> char" where
  "b64_char n =
     (if n < 26 then char_of (65 + n)
      else if n < 52 then char_of (71 + n)
      else if n < 62 then char_of (n - 4)
      else if n = 62 then CHR ''+'' else CHR ''/'')"

definition b64_value :: "char \<Rightarrow> nat option" where
  "b64_value c =
     (let b = (of_char c :: nat) in
      if 65 \<le> b \<and> b \<le> 90 then Some (b - 65)
      else if 97 \<le> b \<and> b \<le> 122 then Some (b - 71)
      else if 48 \<le> b \<and> b \<le> 57 then Some (b + 4)
      else if b = 43 then Some 62
      else if b = 47 then Some 63
      else None)"

abbreviation byte_of :: "char \<Rightarrow> nat" where "byte_of c \<equiv> of_char c"

fun base64_encode :: "string \<Rightarrow> string" where
  "base64_encode [] = []"
| "base64_encode [a] = [b64_char (byte_of a div 4), b64_char (byte_of a mod 4 * 16), CHR ''='', CHR ''='']"
| "base64_encode [a, b] =
     [b64_char (byte_of a div 4), b64_char (byte_of a mod 4 * 16 + byte_of b div 16),
      b64_char (byte_of b mod 16 * 4), CHR ''='']"
| "base64_encode (a # b # c # s) =
     [b64_char (byte_of a div 4), b64_char (byte_of a mod 4 * 16 + byte_of b div 16),
      b64_char (byte_of b mod 16 * 4 + byte_of c div 64), b64_char (byte_of c mod 64)] @ base64_encode s"

fun b64_groups :: "string \<Rightarrow> string option" where
  "b64_groups [] = Some []"
| "b64_groups (a # b # c # d # s) =
     (case (b64_value a, b64_value b) of
        (Some v0, Some v1) \<Rightarrow>
          (if c = CHR ''='' then
             (if d = CHR ''='' \<and> s = [] then Some [char_of (v0 * 4 + v1 div 16)] else None)
           else
             (case b64_value c of
                None \<Rightarrow> None
              | Some v2 \<Rightarrow>
                  (if d = CHR ''='' then
                     (if s = [] then Some [char_of (v0 * 4 + v1 div 16), char_of (v1 mod 16 * 16 + v2 div 4)] else None)
                   else
                     (case b64_value d of
                        None \<Rightarrow> None
                      | Some v3 \<Rightarrow>
                          map_option (\<lambda>r. [char_of (v0 * 4 + v1 div 16), char_of (v1 mod 16 * 16 + v2 div 4),
                                           char_of (v2 mod 4 * 64 + v3)] @ r) (b64_groups s)))))
      | _ \<Rightarrow> None)"
| "b64_groups _ = None"

definition line_end :: "char \<Rightarrow> bool" where
  "line_end c \<longleftrightarrow> c = CHR 0x0A \<or> c = CHR 0x0D"

definition base64_decode :: "string \<Rightarrow> string option" where
  "base64_decode s = b64_groups (filter (\<lambda>c. \<not> line_end c) s)"

lemma b64_char_simps [simp]:
  assumes "n < 64"
  shows "b64_value (b64_char n) = Some n" "b64_char n \<noteq> CHR ''=''" "\<not> line_end (b64_char n)"
proof -
  show "b64_value (b64_char n) = Some n" using assms by (auto simp: b64_char_def b64_value_def Let_def)
  moreover have "b64_value (CHR ''='') = None" "b64_value (CHR 0x0A) = None" "b64_value (CHR 0x0D) = None"
    by (simp_all add: b64_value_def)
  ultimately show "b64_char n \<noteq> CHR ''=''" "\<not> line_end (b64_char n)" by (auto simp: line_end_def)
qed

lemma byte_of_bound: "byte_of c < 256"
  by (metis char_of_char mod_less_divisor of_char_of zero_less_numeral)

lemma six_bits [simp]:
  "byte_of a div 4 < 64" "byte_of a mod 4 * 16 < 64" "byte_of a mod 4 * 16 + byte_of b div 16 < 64"
  "byte_of b mod 16 * 4 < 64" "byte_of b mod 16 * 4 + byte_of c div 64 < 64" "byte_of c mod 64 < 64"
  using byte_of_bound [of a] byte_of_bound [of b] byte_of_bound [of c] by linarith+

lemma unpack:
  "q < k \<Longrightarrow> (p * k + q) div k = (p::nat)" "q < k \<Longrightarrow> (p * k + q) mod k = (q::nat)"
  by simp_all

lemma small_bits: "byte_of b div 16 < 16" "byte_of c div 64 < 4"
  using byte_of_bound [of b] byte_of_bound [of c] by linarith+

lemma bits_back:
  "byte_of a div 4 * 4 + (byte_of a mod 4 * 16) div 16 = byte_of a"
  "byte_of a div 4 * 4 + (byte_of a mod 4 * 16 + byte_of b div 16) div 16 = byte_of a"
  "(byte_of a mod 4 * 16 + byte_of b div 16) mod 16 * 16 + byte_of b mod 16 = byte_of b"
  "(byte_of a mod 4 * 16 + byte_of b div 16) mod 16 * 16 + (byte_of b mod 16 * 4 + byte_of c div 64) div 4 = byte_of b"
  "(byte_of b mod 16 * 4 + byte_of c div 64) mod 4 * 64 + byte_of c mod 64 = byte_of c"
  by (simp_all only: unpack [OF small_bits(1)] unpack [OF small_bits(2)] nonzero_mult_div_cancel_right div_mult_mod_eq
      zero_neq_numeral not_False_eq_True)

lemma base64_encode_no_line_end: "filter (\<lambda>c. \<not> line_end c) (base64_encode s) = base64_encode s"
  by (induction s rule: base64_encode.induct) (simp_all add: line_end_def [of "CHR ''=''"])

lemma base64_round_trip: "base64_decode (base64_encode s) = Some s"
proof -
  have "b64_groups (base64_encode s) = Some s"
    by (induction s rule: base64_encode.induct) (simp_all add: bits_back del: mod_mult_self3 div_mult_self3 add_mult_distrib)
  then show ?thesis by (simp add: base64_decode_def base64_encode_no_line_end)
qed

lemma base64_decode_length: "base64_decode s = Some r \<Longrightarrow> 4 * length r \<le> 3 * length s"
proof -
  have "b64_groups t = Some u \<Longrightarrow> 4 * length u \<le> 3 * length t" for t u
    by (induction t arbitrary: u rule: b64_groups.induct) (auto split: option.splits if_splits)
  moreover assume "base64_decode s = Some r"
  ultimately have "4 * length r \<le> 3 * length (filter (\<lambda>c. \<not> line_end c) s)" by (simp add: base64_decode_def)
  also have "\<dots> \<le> 3 * length s" by simp
  finally show ?thesis .
qed

end
