(* ===== verification/GoTime.thy ===== *)
theory GoTime
  imports Prelude GoStrings
begin

text \<open>
  The text form of durations (\<open>time.ParseDuration\<close>, \<open>Duration.String\<close>), which the
  scheduled-task tools read and print.  The fraction of a number, such as the half in
  "1.5h", is scaled in floating point; that product is the argument \<open>frac\<close>
  (digits, scale, unit).
\<close>

definition is_digit :: "char \<Rightarrow> bool" where
  "is_digit c \<longleftrightarrow> 48 \<le> (of_char c :: nat) \<and> (of_char c :: nat) \<le> 57"

definition digit_val :: "char \<Rightarrow> nat" where
  "digit_val c = (of_char c :: nat) - 48"

text \<open>\<open>leadingInt\<close>: the value of the leading digits and the rest, or overflow.\<close>

fun leadingInt :: "nat \<Rightarrow> string \<Rightarrow> (nat \<times> string) option" where
  "leadingInt x [] = Some (x, [])"
| "leadingInt x (c # cs) =
     (if \<not> is_digit c then Some (x, c # cs)
      else if x > 2 ^ 63 div 10 then None
      else let x' = x * 10 + digit_val c in
           if x' > 2 ^ 63 then None else leadingInt x' cs)"

text \<open>\<open>leadingFraction\<close>: digits that no longer fit are read and ignored.\<close>

fun leadingFraction :: "nat \<Rightarrow> nat \<Rightarrow> bool \<Rightarrow> string \<Rightarrow> nat \<times> nat \<times> string" where
  "leadingFraction x scale overflow [] = (x, scale, [])"
| "leadingFraction x scale overflow (c # cs) =
     (if \<not> is_digit c then (x, scale, c # cs)
      else if overflow then leadingFraction x scale True cs
      else if x > (2 ^ 63 - 1) div 10 then leadingFraction x scale True cs
      else let y = x * 10 + digit_val c in
           if y > 2 ^ 63 then leadingFraction x scale True cs
           else leadingFraction y (scale * 10) False cs)"

definition unitMap :: "(string \<times> nat) list" where
  "unitMap = [(''ns'', 1), (''us'', 1000), (bytes [0xC2, 0xB5, 0x73], 1000), (bytes [0xCE, 0xBC, 0x73], 1000),
     (''ms'', 1000000), (''s'', 1000000000), (''m'', 60000000000), (''h'', 3600000000000)]"

definition unit_char :: "char \<Rightarrow> bool" where
  "unit_char c \<longleftrightarrow> c \<noteq> CHR ''.'' \<and> \<not> is_digit c"

text \<open>A number: value, fraction digits and their scale, and the rest; then the number with its unit.\<close>

definition duration_number :: "string \<Rightarrow> (nat \<times> nat \<times> nat \<times> string) option" where
  "duration_number s =
     (if s = [] \<or> \<not> (hd s = CHR ''.'' \<or> is_digit (hd s)) then None
      else case leadingInt 0 s of
        None \<Rightarrow> None
      | Some (v, s1) \<Rightarrow>
          if s1 \<noteq> [] \<and> hd s1 = CHR ''.''
          then (case leadingFraction 0 1 False (tl s1) of
                  (f, scale, s2) \<Rightarrow>
                    if length s1 = length s \<and> length s2 = length (tl s1) then None
                    else Some (v, f, scale, s2))
          else if length s1 = length s then None
          else Some (v, 0, 1, s1))"

definition scale_unit :: "(nat \<Rightarrow> nat \<Rightarrow> nat \<Rightarrow> nat) \<Rightarrow> nat \<Rightarrow> nat \<Rightarrow> nat \<Rightarrow> nat \<Rightarrow> nat option" where
  "scale_unit frac v f scale unit =
     (if v > 2 ^ 63 div unit then None
      else if f > 0
      then (let w = v * unit + frac f scale unit in if w > 2 ^ 63 then None else Some w)
      else Some (v * unit))"

definition duration_item :: "(nat \<Rightarrow> nat \<Rightarrow> nat \<Rightarrow> nat) \<Rightarrow> string \<Rightarrow> (nat \<times> string) option" where
  "duration_item frac s =
     (case duration_number s of
        None \<Rightarrow> None
      | Some (v, f, scale, s2) \<Rightarrow>
          if takeWhile unit_char s2 = [] then None
          else case map_of unitMap (takeWhile unit_char s2) of
                 None \<Rightarrow> None
               | Some unit \<Rightarrow> map_option (\<lambda>d. (d, dropWhile unit_char s2)) (scale_unit frac v f scale unit))"

lemma leadingInt_shorter: "leadingInt x s = Some (v, r) \<Longrightarrow> length r \<le> length s"
  by (induction x s rule: leadingInt.induct) (auto simp: Let_def split: if_splits)

lemma leadingFraction_shorter: "leadingFraction x sc ov s = (f, sc', r) \<Longrightarrow> length r \<le> length s"
  by (induction x sc ov s rule: leadingFraction.induct) (auto simp: Let_def split: if_splits)

lemma dropWhile_shorter: "takeWhile P s \<noteq> [] \<Longrightarrow> length (dropWhile P s) < length s"
  by (cases s) (auto simp: le_imp_less_Suc length_dropWhile_le split: if_splits)

lemma duration_number_shorter: "duration_number s = Some (v, f, sc, r) \<Longrightarrow> length r \<le> length s"
  unfolding duration_number_def
  by (auto split: if_splits option.splits prod.splits dest!: leadingInt_shorter leadingFraction_shorter)

lemma duration_item_shorter: "duration_item frac s = Some (d, r) \<Longrightarrow> length r < length s"
proof -
  assume "duration_item frac s = Some (d, r)"
  then obtain v f sc s2 where "duration_number s = Some (v, f, sc, s2)" "takeWhile unit_char s2 \<noteq> []"
      "r = dropWhile unit_char s2"
    by (auto simp: duration_item_def split: option.splits if_splits)
  then show ?thesis using duration_number_shorter [of s v f sc s2] dropWhile_shorter [of unit_char s2] by simp
qed

function parse_items :: "(nat \<Rightarrow> nat \<Rightarrow> nat \<Rightarrow> nat) \<Rightarrow> nat \<Rightarrow> string \<Rightarrow> nat option" where
  "parse_items frac d s =
     (if s = [] then Some d
      else case duration_item frac s of
             None \<Rightarrow> None
           | Some (v, r) \<Rightarrow> if d + v > 2 ^ 63 then None else parse_items frac (d + v) r)"
  by pat_completeness auto
termination
  by (relation "measure (\<lambda>(_, _, s). length s)") (auto dest: duration_item_shorter)

declare parse_items.simps [simp del]

text \<open>\<open>None\<close> for every malformed or overflowing text: the callers only test the error.\<close>

definition ParseDuration :: "(nat \<Rightarrow> nat \<Rightarrow> nat \<Rightarrow> nat) \<Rightarrow> string \<Rightarrow> int option" where
  "ParseDuration frac s =
     (let neg = (s \<noteq> [] \<and> hd s = CHR ''-'');
          s1 = (if s \<noteq> [] \<and> (hd s = CHR ''-'' \<or> hd s = CHR ''+'') then tl s else s)
      in if s1 = ''0'' then Some 0
         else if s1 = [] then None
         else case parse_items frac 0 s1 of
                None \<Rightarrow> None
              | Some d \<Rightarrow> if neg then Some (- int d)
                          else if d > 2 ^ 63 - 1 then None else Some (int d))"

section \<open>Printing\<close>

text \<open>\<open>fmtFrac\<close>: the last \<open>prec\<close> digits as a fraction without trailing zeros, and the rest.\<close>

fun fmtFrac :: "nat \<Rightarrow> nat \<Rightarrow> bool \<Rightarrow> string \<Rightarrow> string \<times> nat" where
  "fmtFrac v 0 printed acc = ((if printed then CHR ''.'' # acc else acc), v)"
| "fmtFrac v (Suc p) printed acc =
     (let digit = v mod 10; pr = printed \<or> digit \<noteq> 0
      in fmtFrac (v div 10) p pr (if pr then char_of (48 + digit) # acc else acc))"

definition Duration_String :: "int \<Rightarrow> string" where
  "Duration_String d =
     (let u = nat (abs d);
          txt =
            (if u < 1000000000
             then (if u = 0 then ''0s''
                   else if u < 1000 then itoa_nat u @ ''ns''
                   else if u < 1000000
                   then (case fmtFrac u 3 False [] of (fr, v) \<Rightarrow> itoa_nat v @ fr @ bytes [0xC2, 0xB5, 0x73])
                   else (case fmtFrac u 6 False [] of (fr, v) \<Rightarrow> itoa_nat v @ fr @ ''ms''))
             else (case fmtFrac u 9 False [] of
                     (fr, secs) \<Rightarrow>
                       let mins = secs div 60; hours = mins div 60
                       in (if hours > 0 then itoa_nat hours @ ''h'' else [])
                            @ (if mins > 0 then itoa_nat (mins mod 60) @ ''m'' else [])
                            @ itoa_nat (secs mod 60) @ fr @ ''s''))
      in if d < 0 then CHR ''-'' # txt else txt)"

end
