(* ===== verification/Config.thy ===== *)
theory Config
  imports Services Base64 GoTime
begin

text \<open>
  The configuration, read from the environment: \<open>internal/config/config.go\<close>, and what the Feishu
  channel reads for itself (\<open>feishu/config.go\<close>).  \<open>env\<close> gives the value of a variable, empty when it is
  not set, and \<open>home\<close> is the home directory or the error of asking for it.
\<close>

record config =
  cfg_DataDir :: string
  cfg_HTTPAddr :: string
  cfg_SQLitePath :: string
  cfg_LogLevel :: string
  cfg_ChannelMasterKey :: string
  cfg_OrchestratorTimeout :: int
  cfg_MCPURL :: string

definition requiredMasterKeyBytes :: nat where "requiredMasterKeyBytes = 32"

definition ErrMissingMasterKey :: goerr where
  "ErrMissingMasterKey = errorf ''CHANNEL_MASTER_KEY is required''"

definition getEnvOrDefault :: "(string \<Rightarrow> string) \<Rightarrow> string \<Rightarrow> string \<Rightarrow> string" where
  "getEnvOrDefault env key fallback = (if env key = [] then fallback else env key)"

definition expandPath :: "goerr + string \<Rightarrow> string \<Rightarrow> goerr + string" where
  "expandPath home path =
     (if path = [] then Inr []
      else if path = ''~'' then (case home of Inl err \<Rightarrow> Inl (wrapf ''resolve home dir: '' err []) | Inr h \<Rightarrow> Inr h)
      else if HasPrefix path ''~/''
      then (case home of
              Inl err \<Rightarrow> Inl (wrapf ''resolve home dir: '' err [])
            | Inr h \<Rightarrow> Inr (path_Join [h, TrimPrefix path ''~/'']))
      else Inr path)"

definition LoadDataPaths :: "(string \<Rightarrow> string) \<Rightarrow> goerr + string \<Rightarrow> goerr + (string \<times> string)" where
  "LoadDataPaths env home =
     (case expandPath home (getEnvOrDefault env ''CHANNEL_DATA_DIR'' ''~/.myclaw'') of
        Inl err \<Rightarrow> Inl err
      | Inr dataDir \<Rightarrow>
          if env ''CHANNEL_SQLITE_PATH'' = [] then Inr (dataDir, path_Join [dataDir, ''myclaw.db''])
          else (case expandPath home (env ''CHANNEL_SQLITE_PATH'') of
                  Inl err \<Rightarrow> Inl err
                | Inr sqlitePath \<Rightarrow> Inr (dataDir, sqlitePath)))"

text \<open>The texts of the errors of decoding and parsing are left out after their prefixes.\<close>

definition load_key :: "(string \<Rightarrow> string) \<Rightarrow> goerr + string" where
  "load_key env =
     (let b64 = env ''CHANNEL_MASTER_KEY'' in
      if b64 = [] then Inl ErrMissingMasterKey
      else case base64_decode b64 of
             None \<Rightarrow> Inl (errorf ''decode CHANNEL_MASTER_KEY: '')
           | Some key \<Rightarrow>
               if length key \<noteq> requiredMasterKeyBytes
               then Inl (errorf (''CHANNEL_MASTER_KEY must decode to '' @ Itoa (int requiredMasterKeyBytes) @ '' bytes, got ''
                      @ Itoa (int (length key))))
               else Inr key)"

definition load_timeout :: "(nat \<Rightarrow> nat \<Rightarrow> nat \<Rightarrow> nat) \<Rightarrow> (string \<Rightarrow> string) \<Rightarrow> goerr + int" where
  "load_timeout frac env =
     (let v = env ''CHANNEL_ORCHESTRATOR_TIMEOUT'' in
      if v = [] then Inr (30 * minute)
      else case ParseDuration frac v of
             None \<Rightarrow> Inl (errorf ''parse CHANNEL_ORCHESTRATOR_TIMEOUT: '')
           | Some d \<Rightarrow> Inr d)"

definition LoadConfig :: "(nat \<Rightarrow> nat \<Rightarrow> nat \<Rightarrow> nat) \<Rightarrow> (string \<Rightarrow> string) \<Rightarrow> goerr + string \<Rightarrow> goerr + config" where
  "LoadConfig frac env home =
     (case LoadDataPaths env home of
        Inl err \<Rightarrow> Inl err
      | Inr (dataDir, sqlitePath) \<Rightarrow>
          (case load_key env of
             Inl err \<Rightarrow> Inl err
           | Inr key \<Rightarrow>
               (case load_timeout frac env of
                  Inl err \<Rightarrow> Inl err
                | Inr timeout \<Rightarrow>
                    (let addr = getEnvOrDefault env ''CHANNEL_HTTP_ADDR'' '':8080'' in
                     Inr \<lparr>cfg_DataDir = dataDir, cfg_HTTPAddr = addr, cfg_SQLitePath = sqlitePath,
                          cfg_LogLevel = getEnvOrDefault env ''LOG_LEVEL'' ''info'', cfg_ChannelMasterKey = key,
                          cfg_OrchestratorTimeout = timeout,
                          cfg_MCPURL = getEnvOrDefault env ''CHANNEL_MCP_URL'' (''http://127.0.0.1'' @ addr @ ''/mcp'')\<rparr>))))"

definition BotWorkspaceRoot :: "config \<Rightarrow> string" where
  "BotWorkspaceRoot c = path_Join [cfg_DataDir c, ''bots'']"

definition BotWorkspacePath :: "config \<Rightarrow> string \<Rightarrow> string" where
  "BotWorkspacePath c botID = path_Join [BotWorkspaceRoot c, botID, ''workspace'']"

section \<open>Feishu\<close>

definition fs_getEnvOrDefault :: "(string \<Rightarrow> string) \<Rightarrow> string \<Rightarrow> string \<Rightarrow> string" where
  "fs_getEnvOrDefault env key fallback = (if env key \<noteq> [] then env key else fallback)"

definition envBoolDefaultTrue :: "(string \<Rightarrow> string) \<Rightarrow> string \<Rightarrow> bool" where
  "envBoolDefaultTrue env key \<longleftrightarrow> ToLower (TrimSpace (env key)) \<notin> {''0'', ''false'', ''off'', ''no''}"

text \<open>The domain and whether the trace is shown.\<close>

definition fs_LoadConfig :: "(string \<Rightarrow> string) \<Rightarrow> string \<times> bool" where
  "fs_LoadConfig env =
     (fs_getEnvOrDefault env ''FEISHU_DOMAIN'' ''https://open.feishu.cn'', envBoolDefaultTrue env ''CHANNEL_FEISHU_TRACE'')"

section \<open>What is loaded\<close>

text \<open>
  The configuration is loaded with a master key of exactly 32 bytes or not at all: for any 32 bytes
  their base64 text is accepted and gives them back, whatever else is set, unless the home directory
  or the timeout cannot be had; and every configuration that is loaded has a key of this size.
\<close>

theorem LoadConfig_key:
  "(\<forall>c. LoadConfig frac env home = Inr c \<longrightarrow> length (cfg_ChannelMasterKey c) = 32)
   \<and> (length key = 32 \<longrightarrow> env ''CHANNEL_MASTER_KEY'' = base64_encode key \<longrightarrow>
        (case LoadConfig frac env (Inr h) of
           Inr c \<Rightarrow> cfg_ChannelMasterKey c = key
         | Inl err \<Rightarrow> env ''CHANNEL_ORCHESTRATOR_TIMEOUT'' \<noteq> [] \<and> ParseDuration frac (env ''CHANNEL_ORCHESTRATOR_TIMEOUT'') = None))"
proof -
  have paths: "\<exists>p. LoadDataPaths env (Inr h) = Inr p"
    by (auto simp: LoadDataPaths_def expandPath_def)
  have "length key = 32 \<Longrightarrow> base64_encode key \<noteq> []" by (cases key rule: base64_encode.cases) auto
  then have key: "length key = 32 \<Longrightarrow> env ''CHANNEL_MASTER_KEY'' = base64_encode key \<Longrightarrow> load_key env = Inr key"
    by (simp add: load_key_def base64_round_trip requiredMasterKeyBytes_def)
  have "load_key env = Inr k \<Longrightarrow> length k = 32" for k
    by (auto simp: load_key_def requiredMasterKeyBytes_def Let_def split: if_splits option.splits)
  then show ?thesis using paths key
    by (auto simp: LoadConfig_def load_timeout_def Let_def split: sum.splits prod.splits if_splits option.splits)
qed

text \<open>
  The default address of the MCP endpoint puts the listening address after the loopback host as it
  is, so an address that names a host gives a URL of another one.
\<close>

lemma LoadConfig_mcp_url:
  assumes "LoadConfig frac env home = Inr c" "env ''CHANNEL_MCP_URL'' = []" "env ''CHANNEL_HTTP_ADDR'' = ''0.0.0.0:8080''"
  shows "cfg_MCPURL c = ''http://127.0.0.10.0.0.0:8080/mcp''"
  using assms by (auto simp: LoadConfig_def getEnvOrDefault_def Let_def split: sum.splits prod.splits)

section \<open>Witness\<close>

lemma LoadConfig_key_witness:
  "\<exists>c. LoadConfig (\<lambda>_ _ _. 0) (\<lambda>k. if k = ''CHANNEL_MASTER_KEY'' then base64_encode (replicate 32 CHR ''k'') else []) (Inr ''/home'') = Inr c
     \<and> cfg_ChannelMasterKey c = replicate 32 CHR ''k''"
  using LoadConfig_key [of "\<lambda>_ _ _. 0" "\<lambda>k. if k = ''CHANNEL_MASTER_KEY'' then base64_encode (replicate 32 CHR ''k'') else []"
      "Inr ''/home''" "replicate 32 CHR ''k''" "''/home''"]
  by (auto split: sum.splits)

end
