(* ===== verification/Json.thy ===== *)
theory Json
  imports GoStrings
begin

text \<open>
  JSON values and how \<open>encoding/json\<close> decodes them into Go structs.  A value is a tree;
  an object keeps its members in order, duplicates included.  Decoding into a struct
  goes through the members in order: a member sets the field whose name its key equals
  up to case, \<open>null\<close> leaves the field alone, a value of the wrong type leaves it alone
  too and makes the whole call report an error after the other fields are filled.
  A getter returns the field's value, starting from the zero value, and whether such an
  error was met.  Numbers that are not integers keep their text (\<open>JReal\<close>).
\<close>

datatype json =
    JNull
  | JBool bool
  | JNum int
  | JReal string
  | JStr string
  | JArr "json list"
  | JObj "(string \<times> json) list"

type_synonym members = "(string \<times> json) list"

text \<open>The case folding of member names: ASCII letters, U+017F (long s) and U+212A (kelvin).\<close>

fun fold_name :: "string \<Rightarrow> string" where
  "fold_name [] = []"
| "fold_name (c # cs) =
     (if HasPrefix (c # cs) (bytes [0xC5, 0xBF]) then CHR ''s'' # fold_name (drop 1 cs)
      else if HasPrefix (c # cs) (bytes [0xE2, 0x84, 0xAA]) then CHR ''k'' # fold_name (drop 2 cs)
      else lower_char c # fold_name cs)"

definition same_name :: "string \<Rightarrow> string \<Rightarrow> bool" where
  "same_name a b = (fold_name a = fold_name b)"

definition decode_field :: "(json \<Rightarrow> 'a \<times> bool \<Rightarrow> 'a \<times> bool) \<Rightarrow> 'a \<Rightarrow> string \<Rightarrow> members \<Rightarrow> 'a \<times> bool" where
  "decode_field upd zero n ms =
     fold (\<lambda>(k, v) acc. if same_name k n then upd v acc else acc) ms (zero, False)"

fun upd_str :: "json \<Rightarrow> string \<times> bool \<Rightarrow> string \<times> bool" where
  "upd_str (JStr s) (_, e) = (s, e)"
| "upd_str JNull acc = acc"
| "upd_str _ (s, e) = (s, True)"

text \<open>An \<open>int\<close> or \<open>int64\<close>: a number out of range is an error.\<close>

fun upd_int :: "json \<Rightarrow> int \<times> bool \<Rightarrow> int \<times> bool" where
  "upd_int (JNum i) (j, e) = (if - (2 ^ 63) \<le> i \<and> i < 2 ^ 63 then (i, e) else (j, True))"
| "upd_int JNull acc = acc"
| "upd_int _ (i, e) = (i, True)"

fun upd_bool :: "json \<Rightarrow> bool \<times> bool \<Rightarrow> bool \<times> bool" where
  "upd_bool (JBool b) (_, e) = (b, e)"
| "upd_bool JNull acc = acc"
| "upd_bool _ (b, e) = (b, True)"

text \<open>A nested struct: a repeated member is decoded into the same struct, so its members add up.\<close>

fun upd_struct :: "json \<Rightarrow> members \<times> bool \<Rightarrow> members \<times> bool" where
  "upd_struct (JObj ms) (ms0, e) = (ms0 @ ms, e)"
| "upd_struct JNull acc = acc"
| "upd_struct _ (ms, e) = (ms, True)"

text \<open>A pointer to a struct: \<open>null\<close> makes it nil.\<close>

fun upd_ptr :: "json \<Rightarrow> members option \<times> bool \<Rightarrow> members option \<times> bool" where
  "upd_ptr (JObj ms) (None, e) = (Some ms, e)"
| "upd_ptr (JObj ms) (Some ms0, e) = (Some (ms0 @ ms), e)"
| "upd_ptr JNull (_, e) = (None, e)"
| "upd_ptr _ (None, e) = (Some [], True)"
| "upd_ptr _ (Some ms, e) = (Some ms, True)"

fun upd_list :: "json \<Rightarrow> json list \<times> bool \<Rightarrow> json list \<times> bool" where
  "upd_list (JArr js) (_, e) = (js, e)"
| "upd_list JNull (_, e) = ([], e)"
| "upd_list _ (js, e) = (js, True)"

text \<open>A \<open>json.RawMessage\<close>: the member's value as it is.\<close>

fun upd_raw :: "json \<Rightarrow> json option \<times> bool \<Rightarrow> json option \<times> bool" where
  "upd_raw v (_, e) = (Some v, e)"

definition get_str :: "string \<Rightarrow> members \<Rightarrow> string \<times> bool" where
  "get_str = decode_field upd_str []"
definition get_int :: "string \<Rightarrow> members \<Rightarrow> int \<times> bool" where
  "get_int = decode_field upd_int 0"
definition get_bool :: "string \<Rightarrow> members \<Rightarrow> bool \<times> bool" where
  "get_bool = decode_field upd_bool False"
definition get_struct :: "string \<Rightarrow> members \<Rightarrow> members \<times> bool" where
  "get_struct = decode_field upd_struct []"
definition get_ptr :: "string \<Rightarrow> members \<Rightarrow> members option \<times> bool" where
  "get_ptr = decode_field upd_ptr None"
definition get_list :: "string \<Rightarrow> members \<Rightarrow> json list \<times> bool" where
  "get_list = decode_field upd_list []"
definition get_raw :: "string \<Rightarrow> members \<Rightarrow> json option \<times> bool" where
  "get_raw = decode_field upd_raw None"

lemmas getters = get_str_def get_int_def get_bool_def get_struct_def get_ptr_def get_list_def
  get_raw_def decode_field_def

text \<open>The value a whole message decodes into: the members of a struct, and the error flag.\<close>

fun as_struct :: "json \<Rightarrow> members \<times> bool" where
  "as_struct (JObj ms) = (ms, False)"
| "as_struct JNull = ([], False)"
| "as_struct _ = ([], True)"

text \<open>Looking a key up in a \<open>map[string]any\<close>: keys are exact and the last member wins.\<close>

definition any_lookup :: "members \<Rightarrow> string \<Rightarrow> json option" where
  "any_lookup ms k = map_of (rev ms) k"

text \<open>The type assertion \<open>v, _ := m[k].(string)\<close>: the string, or the empty string.\<close>

definition any_str :: "members \<Rightarrow> string \<Rightarrow> string" where
  "any_str ms k = (case any_lookup ms k of Some (JStr s) \<Rightarrow> s | _ \<Rightarrow> [])"

lemma fold_name_ascii: "\<forall>c \<in> set s. (of_char c :: nat) < 128 \<Longrightarrow> fold_name s = map lower_char s"
proof (induction s)
  case (Cons c s)
  have "\<not> HasPrefix (c # s) (bytes [0xC5, 0xBF])" "\<not> HasPrefix (c # s) (bytes [0xE2, 0x84, 0xAA])"
    using Cons.prems by (auto simp: HasPrefix_iff bytes_def)
  with Cons show ?case by simp
qed simp

lemma same_name_ascii:
  "\<forall>c \<in> set (a @ b). (of_char c :: nat) < 128 \<Longrightarrow> same_name a b = (map lower_char a = map lower_char b)"
  by (simp add: same_name_def fold_name_ascii)

lemma decode_field_Nil [simp]: "decode_field u z n [] = (z, False)"
  by (simp add: decode_field_def)

lemma any_lookup_Nil [simp]: "any_lookup [] k = None"
  by (simp add: any_lookup_def)

lemma any_str_in: "any_str ms k \<noteq> [] \<Longrightarrow> (k, JStr (any_str ms k)) \<in> set ms"
  by (auto simp: any_str_def any_lookup_def split: option.splits json.splits dest: map_of_SomeD)

end
