(* ===== verification/Agent.thy ===== *)
theory Agent
  imports Domain Json "HOL-Library.List_Lexorder" "HOL-Library.Char_ord"
begin

text \<open>
  The agent package's data (\<open>internal/agent/types.go\<close>, \<open>driver.go\<close>), the progress events
  shown to a channel (\<open>progress.go\<close>) and the argument summaries of the launch log
  (\<open>logargs.go\<close>).

  \<open>spec\<close> distinguishes a nil slice or map (\<open>None\<close>) from an empty one, because
  \<open>reflect.DeepEqual\<close>, on which a session decides whether it can be reused, does.
\<close>

section \<open>Types\<close>

datatype sessionState = SessionStarting | SessionReady | SessionBusy | SessionBroken | SessionStopped

datatype runtimeState = StateStarting | StateReady | StateRunning | StateBroken

record spec =
  sp_BotID :: string
  sp_BotName :: string
  sp_Type :: string
  sp_Command :: string
  sp_Args :: "string list option"
  sp_WorkDir :: string
  sp_SQLitePath :: string
  sp_Env :: "strmap option"
  sp_Timeout :: int
  sp_QueueSize :: int
  sp_Orchestrator :: bool
  sp_RealCLI :: bool
  sp_ResumeSessionID :: string

record scheduledTask =
  st_ID :: string
  st_Interval :: int
  st_Prompt :: string

text \<open>\<open>rq_OnProgress\<close> tells whether the callback is set.\<close>

record request =
  rq_BotID :: string
  rq_UserID :: string
  rq_MessageID :: string
  rq_Prompt :: string
  rq_WorkDir :: string
  rq_Metadata :: strmap
  rq_OnProgress :: bool

record response =
  rs_Text :: string
  rs_RuntimeType :: string
  rs_ExitCode :: int
  rs_Duration :: int
  rs_RawOutput :: string
  rs_SessionID :: string

record pushResponse =
  pr_Response :: response
  pr_TaskID :: string

definition empty_spec :: spec where
  "empty_spec = \<lparr>sp_BotID = [], sp_BotName = [], sp_Type = [], sp_Command = [], sp_Args = None,
     sp_WorkDir = [], sp_SQLitePath = [], sp_Env = None, sp_Timeout = 0, sp_QueueSize = 0,
     sp_Orchestrator = False, sp_RealCLI = False, sp_ResumeSessionID = []\<rparr>"

definition empty_request :: request where
  "empty_request = \<lparr>rq_BotID = [], rq_UserID = [], rq_MessageID = [], rq_Prompt = [], rq_WorkDir = [],
     rq_Metadata = [], rq_OnProgress = False\<rparr>"

definition empty_response :: response where
  "empty_response = \<lparr>rs_Text = [], rs_RuntimeType = [], rs_ExitCode = 0, rs_Duration = 0,
     rs_RawOutput = [], rs_SessionID = []\<rparr>"

text \<open>\<open>agent.Response{Text: t}\<close>.\<close>

definition text_response :: "string \<Rightarrow> response" where
  "text_response t = empty_response\<lparr>rs_Text := t\<rparr>"

lemma rs_Text_text_response [simp]: "rs_Text (text_response t) = t"
  by (simp add: text_response_def)

section \<open>Environments\<close>

text \<open>\<open>FlattenEnv\<close>: "KEY=VALUE" entries in iteration order, nil for an empty map.\<close>

definition FlattenEnv :: "strmap \<Rightarrow> string list" where
  "FlattenEnv env = (if env = [] then [] else map (\<lambda>(k, v). k @ ''='' @ v) env)"

lemma length_FlattenEnv: "length (FlattenEnv env) = length env"
  by (simp add: FlattenEnv_def)

section \<open>The driver registry\<close>

text \<open>The package variable \<open>drivers\<close>; a factory is whatever it makes.\<close>

type_synonym 'd drivers = "string \<rightharpoonup> 'd"

definition LookupDriver :: "'d drivers \<Rightarrow> string \<Rightarrow> 'd option" where
  "LookupDriver drivers name = drivers name"

definition RegisterDriver :: "string \<Rightarrow> 'd \<Rightarrow> 'd drivers \<Rightarrow> goerr + 'd drivers" where
  "RegisterDriver name factory drivers =
     (case drivers name of
        Some _ \<Rightarrow> Inl (errorf (''driver already registered: '' @ name))
      | None \<Rightarrow> Inr (drivers(name \<mapsto> factory)))"

lemma RegisterDriver_lookup:
  "RegisterDriver n f ds = Inr ds' \<Longrightarrow> LookupDriver ds' m = (if m = n then Some f else LookupDriver ds m)"
  by (auto simp: RegisterDriver_def LookupDriver_def split: option.splits)

lemma RegisterDriver_once: "RegisterDriver n f ds = Inr ds' \<Longrightarrow> \<exists>e. RegisterDriver n g ds' = Inl e"
  by (auto simp: RegisterDriver_def split: option.splits)

section \<open>Progress events\<close>

record progressEvent =
  pe_Kind :: string
  pe_Tool :: string
  pe_Target :: string

definition maxTargetLen :: nat where "maxTargetLen = 60"

definition targetKeys :: "(string \<times> string) list" where
  "targetKeys =
     [(''Bash'', ''command''), (''Read'', ''file_path''), (''Edit'', ''file_path''),
      (''Write'', ''file_path''), (''WebFetch'', ''url''), (''WebSearch'', ''query''),
      (''Grep'', ''pattern''), (''Glob'', ''pattern''), (''Task'', ''description'')]"

definition truncate :: "string \<Rightarrow> nat \<Rightarrow> string" where
  "truncate s n = (let r = runes s in if length r \<le> n then s else concat (take n r))"

text \<open>The first key, in order, whose value is a nonempty string.\<close>

fun first_string :: "members \<Rightarrow> string list \<Rightarrow> string option" where
  "first_string input [] = None"
| "first_string input (k # ks) =
     (case any_lookup input k of
        Some (JStr v) \<Rightarrow> if v \<noteq> [] then Some v else first_string input ks
      | _ \<Rightarrow> first_string input ks)"

definition TargetFromInput :: "string \<Rightarrow> members \<Rightarrow> string" where
  "TargetFromInput tool input =
     (case map_of targetKeys tool of
        Some key \<Rightarrow> truncate (any_str input key) maxTargetLen
      | None \<Rightarrow>
          (case first_string input (sort (remdups (map fst input))) of
             Some v \<Rightarrow> truncate v maxTargetLen
           | None \<Rightarrow> []))"

lemma truncate_runes: "length (runes (truncate s n)) \<le> n"
  by (simp add: truncate_def Let_def runes_concat_take)

lemma truncate_short: "length (runes s) \<le> n \<Longrightarrow> truncate s n = s"
  by (simp add: truncate_def Let_def)

lemma truncate_idem [simp]: "truncate (truncate s n) n = truncate s n"
  by (rule truncate_short [OF truncate_runes])

lemma TargetFromInput_bound: "length (runes (TargetFromInput tool input)) \<le> maxTargetLen"
  by (auto simp: TargetFromInput_def truncate_runes split: option.splits)

lemma first_string_Some:
  "first_string input ks = Some v \<Longrightarrow> v \<noteq> [] \<and> (\<exists>k \<in> set ks. any_lookup input k = Some (JStr v))"
  by (induction ks) (auto split: option.splits json.splits if_splits)

lemma first_string_None:
  "first_string input ks = None \<Longrightarrow> k \<in> set ks \<Longrightarrow> any_lookup input k = Some (JStr v) \<Longrightarrow> v = []"
  by (induction ks) (auto split: option.splits json.splits if_splits)

text \<open>An unlisted tool shows a target whenever some field of its input is a nonempty string.\<close>

lemma TargetFromInput_unknown_empty:
  assumes "map_of targetKeys tool = None" "first_string input (sort (remdups (map fst input))) = None"
    and "any_lookup input k = Some (JStr v)"
  shows "v = []"
proof -
  have "k \<in> fst ` set input" using assms(3) by (force simp: any_lookup_def dest: map_of_SomeD)
  then show ?thesis by (intro first_string_None [OF assms(2) _ assms(3)]) simp
qed

section \<open>Argument summaries\<close>

text \<open>\<open>SummarizeArgs\<close>; the ellipsis is the character U+2026.\<close>

definition summarize_arg :: "string \<Rightarrow> string" where
  "summarize_arg a =
     (let r = runes a in
      if length r > 64
      then concat (take 48 r) @ bytes [0xE2, 0x80, 0xA6] @ ''('' @ Itoa (int (length r)) @ '' runes)''
      else a)"

definition SummarizeArgs :: "string list \<Rightarrow> string list" where
  "SummarizeArgs args = map summarize_arg args"

lemma SummarizeArgs_length [simp]: "length (SummarizeArgs as) = length as"
  by (simp add: SummarizeArgs_def)

lemma summarize_arg_short: "length (runes a) \<le> 64 \<Longrightarrow> summarize_arg a = a"
  by (simp add: summarize_arg_def Let_def)

end
