(* ===== verification/Channel.thy ===== *)
theory Channel
  imports Agent
begin

text \<open>
  The channel package (\<open>internal/channel\<close>): what a channel plugin is told and tells
  back, and the three dispatchers that pick the plugin by channel type
  (\<open>multi_provider.go\<close>, \<open>reply_gateway.go\<close>, \<open>progress.go\<close>).  A registered plugin is an
  arbitrary value; dispatching hands its operation the request.
\<close>

section \<open>Messages\<close>

record createBindingRequest =
  cbq_BindingID :: string
  cbq_ChannelType :: string
  cbq_Config :: strmap

record createBindingResult =
  cbr_ProviderBindingRef :: string
  cbr_QRCodePayload :: string
  cbr_QRShareURL :: string
  cbr_ExpiresAt :: timestamp

record refreshBindingRequest =
  rbq_ProviderBindingRef :: string
  rbq_ChannelType :: string
  rbq_Config :: strmap

record refreshBindingResult =
  rbr_ProviderStatus :: string
  rbr_QRCodePayload :: string
  rbr_ExpiresAt :: timestamp
  rbr_AccountUID :: string
  rbr_DisplayName :: string
  rbr_AvatarURL :: string
  rbr_CredentialPayload :: string
  rbr_CredentialVersion :: int
  rbr_ErrorMessage :: string

record buildRuntimeConfigRequest =
  brq_AccountUID :: string
  brq_ChannelType :: string
  brq_CredentialPayload :: string
  brq_CredentialVersion :: int

text \<open>A nil \<open>Metadata\<close> map is empty here: the source only ever reads it with \<open>MetadataValue\<close>.\<close>

record replyTarget =
  rt_ChannelType :: string
  rt_RecipientID :: string
  rt_Metadata :: strmap

definition MetadataValue :: "replyTarget \<Rightarrow> string \<Rightarrow> string" where
  "MetadataValue t key = (case map_of (rt_Metadata t) key of Some v \<Rightarrow> v | None \<Rightarrow> [])"

record runtimeEvent =
  ev_BotID :: string
  ev_ChannelType :: string
  ev_MessageID :: string
  ev_From :: string
  ev_Text :: string
  ev_ReplyTarget :: replyTarget
  ev_Raw :: string

datatype runtimeStateKind = RuntimeStateConnected | RuntimeStateError | RuntimeStateStopped

record runtimeStateEvent =
  se_BotID :: string
  se_ChannelType :: string
  se_State :: runtimeStateKind
  se_Err :: "goerr option"
  se_Reason :: string

text \<open>\<open>StartRuntimeRequest\<close>; of the callbacks, whether each is set.\<close>

record startRuntimeRequest =
  srq_BotID :: string
  srq_ChannelType :: string
  srq_AccountUID :: string
  srq_CredentialPayload :: string
  srq_CredentialVersion :: int
  srq_OnEvent :: bool
  srq_OnState :: bool

definition empty_target :: replyTarget where
  "empty_target = \<lparr>rt_ChannelType = [], rt_RecipientID = [], rt_Metadata = []\<rparr>"

section \<open>The provider dispatcher\<close>

text \<open>
  A provider of type \<open>'p\<close> may also be a runtime starter of type \<open>'s\<close>
  (\<open>as_starter\<close>, the type assertion \<open>p.(RuntimeStarter)\<close>).
\<close>

record ('p, 's) multiProvider =
  mp_providers :: "string \<rightharpoonup> 'p"
  mp_starters :: "string \<rightharpoonup> 's"

definition NewMultiProvider :: "('p, 's) multiProvider" where
  "NewMultiProvider = \<lparr>mp_providers = Map.empty, mp_starters = Map.empty\<rparr>"

definition Register_provider ::
  "('p \<Rightarrow> 's option) \<Rightarrow> string \<Rightarrow> 'p option \<Rightarrow> 's option \<Rightarrow> ('p, 's) multiProvider \<Rightarrow> ('p, 's) multiProvider" where
  "Register_provider as_starter channelType p s mp =
     (let mp1 = (case p of Some p' \<Rightarrow> mp\<lparr>mp_providers := (mp_providers mp)(channelType \<mapsto> p')\<rparr> | None \<Rightarrow> mp)
      in case s of
           Some s' \<Rightarrow> mp1\<lparr>mp_starters := (mp_starters mp1)(channelType \<mapsto> s')\<rparr>
         | None \<Rightarrow>
             (case Option.bind p as_starter of
                Some rts \<Rightarrow> mp1\<lparr>mp_starters := (mp_starters mp1)(channelType \<mapsto> rts)\<rparr>
              | None \<Rightarrow> mp1))"

definition unsupported :: "string \<Rightarrow> goerr" where
  "unsupported t = errorf (''channel: unsupported channel type '' @ Quote t)"

definition mp_CreateBinding ::
  "('p \<Rightarrow> createBindingRequest \<Rightarrow> goerr + 'r) \<Rightarrow> ('p, 's) multiProvider \<Rightarrow> createBindingRequest \<Rightarrow> goerr + 'r" where
  "mp_CreateBinding call mp req =
     (case mp_providers mp (cbq_ChannelType req) of
        None \<Rightarrow> Inl (unsupported (cbq_ChannelType req))
      | Some p \<Rightarrow> call p req)"

definition mp_RefreshBinding ::
  "('p \<Rightarrow> refreshBindingRequest \<Rightarrow> goerr + 'r) \<Rightarrow> ('p, 's) multiProvider \<Rightarrow> refreshBindingRequest \<Rightarrow> goerr + 'r" where
  "mp_RefreshBinding call mp req =
     (if rbq_ChannelType req = []
      then Inl (errorf ''channel: channel_type is required for refresh'')
      else case mp_providers mp (rbq_ChannelType req) of
             None \<Rightarrow> Inl (unsupported (rbq_ChannelType req))
           | Some p \<Rightarrow> call p req)"

definition mp_BuildRuntimeConfig ::
  "('p \<Rightarrow> buildRuntimeConfigRequest \<Rightarrow> goerr + 'r) \<Rightarrow> ('p, 's) multiProvider \<Rightarrow> buildRuntimeConfigRequest \<Rightarrow> goerr + 'r" where
  "mp_BuildRuntimeConfig call mp req =
     (if brq_ChannelType req = []
      then Inl (errorf ''channel: channel_type is required for build config'')
      else case mp_providers mp (brq_ChannelType req) of
             None \<Rightarrow> Inl (unsupported (brq_ChannelType req))
           | Some p \<Rightarrow> call p req)"

definition mp_StartRuntime ::
  "('s \<Rightarrow> startRuntimeRequest \<Rightarrow> goerr + 'h) \<Rightarrow> ('p, 's) multiProvider \<Rightarrow> startRuntimeRequest \<Rightarrow> goerr + 'h" where
  "mp_StartRuntime call mp req =
     (case mp_starters mp (srq_ChannelType req) of
        None \<Rightarrow> Inl (unsupported (srq_ChannelType req))
      | Some s \<Rightarrow> call s req)"

section \<open>The reply and progress dispatchers\<close>

type_synonym 'g multiReplyGateway = "string \<rightharpoonup> 'g"

definition Register_gateway :: "string \<Rightarrow> 'g \<Rightarrow> 'g multiReplyGateway \<Rightarrow> 'g multiReplyGateway" where
  "Register_gateway channelType gw mg = mg(channelType \<mapsto> gw)"

text \<open>The result of \<open>Reply\<close>: \<open>None\<close> is the nil error.\<close>

definition mg_Reply ::
  "('g \<Rightarrow> replyTarget \<Rightarrow> response \<Rightarrow> goerr option) \<Rightarrow> 'g multiReplyGateway \<Rightarrow> replyTarget \<Rightarrow> response \<Rightarrow> goerr option" where
  "mg_Reply call mg target resp =
     (case mg (rt_ChannelType target) of
        None \<Rightarrow> Some (errorf (''channel: no reply gateway for channel type '' @ Quote (rt_ChannelType target)))
      | Some gw \<Rightarrow> call gw target resp)"

type_synonym 'r multiProgressReporter = "string \<rightharpoonup> 'r"

definition Register_reporter :: "string \<Rightarrow> 'r \<Rightarrow> 'r multiProgressReporter \<Rightarrow> 'r multiProgressReporter" where
  "Register_reporter channelType r m = m(channelType \<mapsto> r)"

text \<open>\<open>None\<close> is the nil session: no tracing.\<close>

definition mpr_Begin ::
  "('r \<Rightarrow> replyTarget \<Rightarrow> 'sess option) \<Rightarrow> 'r multiProgressReporter \<Rightarrow> replyTarget \<Rightarrow> 'sess option" where
  "mpr_Begin call m target =
     (case m (rt_ChannelType target) of None \<Rightarrow> None | Some r \<Rightarrow> call r target)"

lemmas dispatch_defs =
  mp_CreateBinding_def mp_RefreshBinding_def mp_BuildRuntimeConfig_def mp_StartRuntime_def
  mg_Reply_def mpr_Begin_def Register_provider_def Register_gateway_def Register_reporter_def

lemma Register_provider_other:
  "t \<noteq> u \<Longrightarrow> mp_providers (Register_provider f t p s mp) u = mp_providers mp u
    \<and> mp_starters (Register_provider f t p s mp) u = mp_starters mp u"
  by (auto simp: Register_provider_def Let_def split: option.splits)

lemma Register_provider_same:
  "mp_providers (Register_provider f t (Some p) s mp) t = Some p"
  by (auto simp: Register_provider_def Let_def split: option.splits)

lemma Register_starter_same:
  "mp_starters (Register_provider f t p (Some s) mp) t = Some s"
  by (auto simp: Register_provider_def Let_def split: option.splits)

end
