(* ===== verification/BotService.thy ===== *)
theory BotService
  imports Services Channel
begin

text \<open>
  The bot service (\<open>internal/app/bot/service.go\<close>): creating, listing, configuring and deleting
  bots, and the login of a channel account (start, refresh, automatic confirmation) that ends
  with the start of the bot's runtime.

  The service holds its collaborators in a record, as the Go struct does; a nil collaborator
  is \<open>None\<close>.  A \<open>*time.Time\<close> that is nil or points at the zero time is \<open>None\<close>.
\<close>

section \<open>Inputs and outputs\<close>

record createBotInput =
  cbi_ExternalUserID :: string
  cbi_Name :: string
  cbi_Type :: string
  cbi_Role :: string
  cbi_ChannelType :: string
  cbi_AgentCapabilityID :: string
  cbi_AgentMode :: string
  cbi_SystemPrompt :: string
  cbi_AgentEnv :: strmap

record createBotOutput =
  cbo_BotID :: string
  cbo_Name :: string
  cbo_Type :: string
  cbo_Role :: string
  cbo_ChannelType :: string
  cbo_ConnectionStatus :: string
  cbo_ChannelAccountID :: string
  cbo_AgentCapabilityID :: string
  cbo_AgentMode :: string
  cbo_SystemPrompt :: string
  cbo_AgentEnv :: strmap

record startBotLoginInput =
  sli_BotID :: string
  sli_Config :: strmap

record botListItem =
  bli_BotID :: string
  bli_Name :: string
  bli_Type :: string
  bli_Role :: string
  bli_ChannelType :: string
  bli_ConnectionStatus :: string
  bli_ChannelAccountID :: string
  bli_AgentCapabilityID :: string
  bli_AgentMode :: string
  bli_CLIAlias :: string
  bli_MCPServerIDs :: "string list"
  bli_SystemPrompt :: string
  bli_AgentEnv :: strmap

record startBotLoginOutput =
  slo_BotID :: string
  slo_BindingID :: string
  slo_Status :: string
  slo_QRCodePayload :: string
  slo_QRShareURL :: string
  slo_ExpiresAt :: timestamp
  slo_ConnectionStatus :: string
  slo_ChannelAccountID :: string

record refreshBotLoginOutput =
  rlo_BotID :: string
  rlo_BindingID :: string
  rlo_Status :: string
  rlo_QRCodePayload :: string
  rlo_QRShareURL :: string
  rlo_ExpiresAt :: timestamp
  rlo_ChannelAccountID :: string
  rlo_ConnectionStatus :: string

record configureBotAgentInput =
  cai_BotID :: string
  cai_AgentCapabilityID :: string
  cai_AgentMode :: string
  cai_CLIAlias :: string
  cai_MCPServerIDs :: "string list"
  cai_SystemPrompt :: string
  cai_AgentEnv :: strmap

record agentCapabilityListItem =
  acl_ID :: string
  acl_Key :: string
  acl_Label :: string
  acl_Command :: string
  acl_Available :: bool
  acl_DetectionSource :: string
  acl_SupportedModes :: "string list"

record completedLogin =
  cl_BotID :: string
  cl_BindingID :: string
  cl_Status :: string
  cl_ConnectionStatus :: string
  cl_ChannelAccountID :: string

section \<open>The service\<close>

record 'w botService =
  sv_users :: "'w userRepository"
  sv_bots :: "'w botRepository"
  sv_bindings :: "'w channelBindingRepository"
  sv_accounts :: "'w channelAccountRepository"
  sv_capabilities :: "'w agentCapabilityRepository"
  sv_capabilityDiscoverer :: "('w, agentCapability list) io option"
  sv_Encrypt :: "string \<Rightarrow> ('w, string) io"
  sv_CreateBinding :: "createBindingRequest \<Rightarrow> ('w, createBindingResult) io"
  sv_RefreshBinding :: "refreshBindingRequest \<Rightarrow> ('w, refreshBindingResult) io"
  sv_runtimes_Start :: "(string \<Rightarrow> ('w, unit) io) option"
  sv_workspaceRoot :: string
  sv_mcp :: "'w mcpService"

text \<open>The setters of the optional collaborators.\<close>

definition SetCapabilityDiscoverer :: "('w, agentCapability list) io \<Rightarrow> 'w botService \<Rightarrow> 'w botService" where
  "SetCapabilityDiscoverer d sv = sv\<lparr>sv_capabilityDiscoverer := Some d\<rparr>"

definition SetWorkspaceRoot :: "string \<Rightarrow> 'w botService \<Rightarrow> 'w botService" where
  "SetWorkspaceRoot root sv = sv\<lparr>sv_workspaceRoot := root\<rparr>"

definition new_bot :: "'w botService \<Rightarrow> createBotInput \<Rightarrow> string \<Rightarrow> string \<Rightarrow> bot" where
  "new_bot sv input userID botID =
     (let botType = (if cbi_Type input = [] then BotTypeChannel else cbi_Type input) in
      \<lparr>bot_ID = botID, bot_UserID = userID, bot_Name = cbi_Name input, bot_Type = botType,
       bot_ChannelType = cbi_ChannelType input, bot_ChannelAccountID = [],
       bot_ConnectionStatus = (if botType = BotTypeHook then [] else BotConnectionStatusLoginRequired),
       bot_ConnectionError = [], bot_AgentCapabilityID = cbi_AgentCapabilityID input,
       bot_AgentMode = cbi_AgentMode input, bot_Role = cbi_Role input, bot_CLIAlias = [],
       bot_Workspace = (if sv_workspaceRoot sv \<noteq> [] then path_Join [sv_workspaceRoot sv, botID, ''workspace''] else []),
       bot_SystemPrompt = cbi_SystemPrompt input, bot_AgentEnv = cbi_AgentEnv input,
       bot_LastConnectedAt = None, bot_CreatedAt = None, bot_UpdatedAt = None\<rparr>)"

definition CreateBot :: "'w goenv \<Rightarrow> 'w botService \<Rightarrow> createBotInput \<Rightarrow> ('w, createBotOutput) io" where
  "CreateBot env sv input =
     (if cbi_ExternalUserID input = [] \<or> cbi_Name input = [] then return_err ErrInvalidArg
      else
        andThen (ur_FindOrCreateByExternalUserID (sv_users sv) (cbi_ExternalUserID input)) (\<lambda>user.
        andThen (fresh_id env ''bot'') (\<lambda>botID.
        andThen (br_Create (sv_bots sv) (new_bot sv input (user_ID user) botID)) (\<lambda>b.
        return_ok
          \<lparr>cbo_BotID = bot_ID b, cbo_Name = bot_Name b, cbo_Type = bot_Type b, cbo_Role = bot_Role b,
           cbo_ChannelType = bot_ChannelType b, cbo_ConnectionStatus = bot_ConnectionStatus b,
           cbo_ChannelAccountID = bot_ChannelAccountID b, cbo_AgentCapabilityID = bot_AgentCapabilityID b,
           cbo_AgentMode = bot_AgentMode b, cbo_SystemPrompt = bot_SystemPrompt b, cbo_AgentEnv = bot_AgentEnv b\<rparr>))))"

definition DeleteBot :: "'w botService \<Rightarrow> string \<Rightarrow> ('w, unit) io" where
  "DeleteBot sv botID =
     (if botID = [] then return_err ErrInvalidArg
      else
        andThen (br_GetByID (sv_bots sv) botID) (\<lambda>_.
        andThen (cbrepo_DeleteByBotID (sv_bindings sv) botID) (\<lambda>_.
        br_DeleteByID (sv_bots sv) botID)))"

section \<open>Listing and configuring\<close>

definition attachedServerIDs :: "'w botService \<Rightarrow> string \<Rightarrow> ('w, string list) io" where
  "attachedServerIDs sv botID =
     andThen (mcs_ListByBot (sv_mcp sv) botID) (\<lambda>servers. return_ok (map ms_ID servers))"

definition list_item :: "bot \<Rightarrow> string list \<Rightarrow> botListItem" where
  "list_item b mcpIDs =
     \<lparr>bli_BotID = bot_ID b, bli_Name = bot_Name b, bli_Type = bot_Type b, bli_Role = bot_Role b,
      bli_ChannelType = bot_ChannelType b, bli_ConnectionStatus = bot_ConnectionStatus b,
      bli_ChannelAccountID = bot_ChannelAccountID b, bli_AgentCapabilityID = bot_AgentCapabilityID b,
      bli_AgentMode = bot_AgentMode b, bli_CLIAlias = bot_CLIAlias b, bli_MCPServerIDs = mcpIDs,
      bli_SystemPrompt = bot_SystemPrompt b, bli_AgentEnv = bot_AgentEnv b\<rparr>"

definition ListBots :: "'w botService \<Rightarrow> string \<Rightarrow> ('w, botListItem list) io" where
  "ListBots sv externalUserID =
     (if externalUserID = [] then return_err ErrInvalidArg
      else
        andThen (ur_FindOrCreateByExternalUserID (sv_users sv) externalUserID) (\<lambda>user.
        andThen (br_ListByUserID (sv_bots sv) (user_ID user)) (\<lambda>bots.
        for_each (\<lambda>b. andThen (attachedServerIDs sv (bot_ID b)) (\<lambda>mcpIDs. return_ok (list_item b mcpIDs))) bots)))"

definition configured :: "bot \<Rightarrow> configureBotAgentInput \<Rightarrow> bot" where
  "configured b input =
     b\<lparr>bot_AgentCapabilityID := cai_AgentCapabilityID input, bot_AgentMode := cai_AgentMode input,
       bot_CLIAlias := TrimSpace (cai_CLIAlias input), bot_SystemPrompt := TrimSpace (cai_SystemPrompt input),
       bot_AgentEnv := cai_AgentEnv input\<rparr>"

text \<open>The item returned leaves \<open>Role\<close> empty, as the literal in the source does.\<close>

definition ConfigureBotAgent :: "'w botService \<Rightarrow> configureBotAgentInput \<Rightarrow> ('w, botListItem) io" where
  "ConfigureBotAgent sv input =
     (if cai_BotID input = [] \<or> cai_AgentCapabilityID input = [] \<or> cai_AgentMode input = []
      then return_err ErrInvalidArg
      else
        andThen (br_GetByID (sv_bots sv) (cai_BotID input)) (\<lambda>b.
        andThen (br_Update (sv_bots sv) (configured b input)) (\<lambda>b1.
        andThen (mcs_SetBotServers (sv_mcp sv) (bot_ID b1) (cai_MCPServerIDs input)) (\<lambda>_.
        andThen (attachedServerIDs sv (bot_ID b1)) (\<lambda>mcpIDs.
        return_ok ((list_item b1 mcpIDs)\<lparr>bli_Role := []\<rparr>))))))"

definition ListMCPServers :: "'w botService \<Rightarrow> ('w, mcpServer list) io" where
  "ListMCPServers sv = mcs_List (sv_mcp sv)"

definition ListAgentCapabilities :: "'w botService \<Rightarrow> ('w, agentCapabilityListItem list) io" where
  "ListAgentCapabilities sv =
     andThen (case sv_capabilityDiscoverer sv of
                None \<Rightarrow> return_ok ()
              | Some refresh \<Rightarrow> andThen refresh (\<lambda>_. return_ok ())) (\<lambda>_.
     andThen (acr_List (sv_capabilities sv)) (\<lambda>capabilities.
     return_ok (map (\<lambda>c. \<lparr>acl_ID = ac_ID c, acl_Key = ac_Key c, acl_Label = ac_Label c, acl_Command = ac_Command c,
                          acl_Available = ac_Available c, acl_DetectionSource = ac_DetectionSource c,
                          acl_SupportedModes = ac_SupportedModes c\<rparr>) capabilities)))"

definition GetBotWorkspace :: "'w botService \<Rightarrow> string \<Rightarrow> ('w, string) io" where
  "GetBotWorkspace sv botID = andThen (br_GetByID (sv_bots sv) botID) (\<lambda>b. return_ok (bot_Workspace b))"

section \<open>Login\<close>

text \<open>
  The steps \<open>RefreshLogin\<close> and \<open>confirmAndStartRuntime\<close> share: what the provider answered goes
  into the binding; a confirmed binding gets its account stored and linked to the bot; the
  runtime is started, and a failure to start is recorded before it is returned.
\<close>

definition refreshed_binding :: "channelBinding \<Rightarrow> refreshBindingResult \<Rightarrow> channelBinding" where
  "refreshed_binding binding result =
     binding\<lparr>cb_Status := rbr_ProviderStatus result, cb_QRCodePayload := rbr_QRCodePayload result,
             cb_ExpiresAt := (case rbr_ExpiresAt result of None \<Rightarrow> cb_ExpiresAt binding | Some t \<Rightarrow> Some t),
             cb_ErrorMessage := rbr_ErrorMessage result\<rparr>"

definition store_account :: "'w goenv \<Rightarrow> 'w botService \<Rightarrow> bot \<Rightarrow> refreshBindingResult \<Rightarrow> ('w, channelAccount \<times> int) io" where
  "store_account env sv b result =
     andThen (time_now env) (\<lambda>now.
     andThen (sv_Encrypt sv (rbr_CredentialPayload result)) (\<lambda>ciphertext.
     andThen (fresh_id env ''acct'') (\<lambda>i.
     andThen (car_Upsert (sv_accounts sv)
       \<lparr>ca_ID = i, ca_UserID = bot_UserID b, ca_ChannelType = bot_ChannelType b, ca_AccountUID = rbr_AccountUID result,
        ca_DisplayName = rbr_DisplayName result, ca_AvatarURL = rbr_AvatarURL result, ca_CredentialCiphertext = ciphertext,
        ca_CredentialVersion = rbr_CredentialVersion result, ca_LastBoundAt = Some now,
        ca_CreatedAt = None, ca_UpdatedAt = None\<rparr>) (\<lambda>account.
     return_ok (account, now)))))"

definition linked_bot :: "bot \<Rightarrow> channelAccount \<Rightarrow> bot" where
  "linked_bot b account =
     b\<lparr>bot_ChannelAccountID := ca_ID account, bot_ConnectionStatus := BotConnectionStatusConnecting, bot_ConnectionError := []\<rparr>"

definition start_runtime :: "'w botService \<Rightarrow> bot \<Rightarrow> channelBinding \<Rightarrow> ('w, unit) io" where
  "start_runtime sv b binding =
     (case sv_runtimes_Start sv of
        None \<Rightarrow> return_ok ()
      | Some start \<Rightarrow>
          attempt (start (bot_ID b))
            (\<lambda>res. case res of
               Inr _ \<Rightarrow> return_ok ()
             | Inl err \<Rightarrow>
                 andThen (cbrepo_Update (sv_bindings sv) binding) (\<lambda>_.
                 attempt (br_Update (sv_bots sv)
                            (b\<lparr>bot_ConnectionStatus := BotConnectionStatusError, bot_ConnectionError := err_msg err\<rparr>)) (\<lambda>_.
                 return_err err))))"

text \<open>The confirmed branch: account, bot row, runtime; the binding as it is to be stored.\<close>

definition confirm_login :: "'w goenv \<Rightarrow> 'w botService \<Rightarrow> bot \<Rightarrow> channelBinding \<Rightarrow> refreshBindingResult \<Rightarrow> ('w, channelBinding) io" where
  "confirm_login env sv b binding result =
     andThen (store_account env sv b result) (\<lambda>(account, now).
     let binding1 = binding\<lparr>cb_ChannelAccountID := ca_ID account, cb_FinishedAt := Some now\<rparr>;
         b1 = linked_bot b account in
     andThen (br_Update (sv_bots sv) b1) (\<lambda>_.
     andThen (start_runtime sv b1 binding1) (\<lambda>_.
     return_ok binding1)))"

definition RefreshLogin :: "'w goenv \<Rightarrow> 'w botService \<Rightarrow> string \<Rightarrow> ('w, refreshBotLoginOutput) io" where
  "RefreshLogin env sv bindingID =
     (if bindingID = [] then return_err ErrInvalidArg
      else
        andThen (cbrepo_GetByID (sv_bindings sv) bindingID) (\<lambda>binding.
        andThen (br_GetByID (sv_bots sv) (cb_BotID binding)) (\<lambda>b.
        andThen (sv_RefreshBinding sv
          \<lparr>rbq_ProviderBindingRef = cb_ProviderBindingRef binding, rbq_ChannelType = cb_ChannelType binding, rbq_Config = []\<rparr>) (\<lambda>result.
        andThen
          (let binding1 = refreshed_binding binding result; status = rbr_ProviderStatus result in
           if status = BindingStatusConfirmed then confirm_login env sv b binding1 result
           else if status = BindingStatusFailed \<or> status = BindingStatusExpired then
             andThen (time_now env) (\<lambda>now.
             andThen (br_Update (sv_bots sv)
               (b\<lparr>bot_ConnectionStatus := BotConnectionStatusError,
                  bot_ConnectionError := (if rbr_ErrorMessage result = [] then status else rbr_ErrorMessage result)\<rparr>)) (\<lambda>_.
             return_ok (binding1\<lparr>cb_FinishedAt := Some now\<rparr>)))
           else return_ok binding1) (\<lambda>binding2.
        andThen (cbrepo_Update (sv_bindings sv) binding2) (\<lambda>binding3.
        andThen (br_GetByID (sv_bots sv) (bot_ID b)) (\<lambda>b1.
        return_ok
          \<lparr>rlo_BotID = bot_ID b1, rlo_BindingID = cb_ID binding3, rlo_Status = cb_Status binding3,
           rlo_QRCodePayload = cb_QRCodePayload binding3, rlo_QRShareURL = cb_QRCodePayload binding3,
           rlo_ExpiresAt = cb_ExpiresAt binding3, rlo_ChannelAccountID = cb_ChannelAccountID binding3,
           rlo_ConnectionStatus = bot_ConnectionStatus b1\<rparr>)))))))"

definition isAutoConfirmChannel :: "string \<Rightarrow> bool" where
  "isAutoConfirmChannel channelType \<longleftrightarrow> channelType = ''http'' \<or> channelType = ''feishu''"

text \<open>
  A binding that was not confirmed is stored and reported; when storing it fails the source
  reports the zero binding.
\<close>

definition confirmAndStartRuntime ::
  "'w goenv \<Rightarrow> 'w botService \<Rightarrow> bot \<Rightarrow> channelBinding \<Rightarrow> strmap \<Rightarrow> ('w, completedLogin) io" where
  "confirmAndStartRuntime env sv b binding config =
     andThen (sv_RefreshBinding sv
       \<lparr>rbq_ProviderBindingRef = cb_ProviderBindingRef binding, rbq_ChannelType = bot_ChannelType b, rbq_Config = config\<rparr>) (\<lambda>refreshed.
     let binding1 = refreshed_binding binding refreshed in
     if rbr_ProviderStatus refreshed \<noteq> BindingStatusConfirmed then
       attempt (cbrepo_Update (sv_bindings sv) binding1) (\<lambda>res.
       return_ok (case res of
           Inr binding2 \<Rightarrow> \<lparr>cl_BotID = bot_ID b, cl_BindingID = cb_ID binding2, cl_Status = cb_Status binding2,
                            cl_ConnectionStatus = [], cl_ChannelAccountID = []\<rparr>
         | Inl _ \<Rightarrow> \<lparr>cl_BotID = bot_ID b, cl_BindingID = [], cl_Status = [], cl_ConnectionStatus = [], cl_ChannelAccountID = []\<rparr>))
     else
       andThen (confirm_login env sv b binding1 refreshed) (\<lambda>binding2.
       andThen (cbrepo_Update (sv_bindings sv) binding2) (\<lambda>binding3.
       andThen (br_GetByID (sv_bots sv) (bot_ID b)) (\<lambda>b1.
       return_ok \<lparr>cl_BotID = bot_ID b1, cl_BindingID = cb_ID binding3, cl_Status = cb_Status binding3,
                  cl_ConnectionStatus = bot_ConnectionStatus b1, cl_ChannelAccountID = bot_ChannelAccountID b1\<rparr>))))"

definition StartLogin :: "'w goenv \<Rightarrow> 'w botService \<Rightarrow> startBotLoginInput \<Rightarrow> ('w, startBotLoginOutput) io" where
  "StartLogin env sv input =
     (if sli_BotID input = [] then return_err ErrInvalidArg
      else
        andThen (br_GetByID (sv_bots sv) (sli_BotID input)) (\<lambda>b.
        andThen (fresh_id env ''bind'') (\<lambda>bindingID.
        andThen (cbrepo_Create (sv_bindings sv)
          \<lparr>cb_ID = bindingID, cb_BotID = bot_ID b, cb_UserID = bot_UserID b, cb_ChannelType = bot_ChannelType b,
           cb_Status = BindingStatusPending, cb_ProviderBindingRef = [], cb_QRCodePayload = [], cb_ExpiresAt = None,
           cb_ErrorMessage = [], cb_ChannelAccountID = [], cb_CreatedAt = None, cb_UpdatedAt = None, cb_FinishedAt = None\<rparr>) (\<lambda>binding.
        attempt (sv_CreateBinding sv
          \<lparr>cbq_BindingID = bindingID, cbq_ChannelType = bot_ChannelType b, cbq_Config = sli_Config input\<rparr>) (\<lambda>res.
        case res of
          Inl err \<Rightarrow>
            andThen (time_now env) (\<lambda>now.
            attempt (cbrepo_Update (sv_bindings sv)
              (binding\<lparr>cb_Status := BindingStatusFailed, cb_ErrorMessage := err_msg err, cb_FinishedAt := Some now\<rparr>)) (\<lambda>_.
            return_err err))
        | Inr result \<Rightarrow>
            (let binding1 = binding\<lparr>cb_Status := BindingStatusQRReady,
                   cb_ProviderBindingRef := cbr_ProviderBindingRef result,
                   cb_QRCodePayload := cbr_QRCodePayload result, cb_ExpiresAt := cbr_ExpiresAt result\<rparr>
             in
             if isAutoConfirmChannel (bot_ChannelType b) then
               andThen (confirmAndStartRuntime env sv b binding1 (sli_Config input)) (\<lambda>completed.
               return_ok \<lparr>slo_BotID = cl_BotID completed, slo_BindingID = cl_BindingID completed,
                          slo_Status = cl_Status completed, slo_QRCodePayload = [], slo_QRShareURL = [],
                          slo_ExpiresAt = None, slo_ConnectionStatus = cl_ConnectionStatus completed,
                          slo_ChannelAccountID = cl_ChannelAccountID completed\<rparr>)
             else
               andThen (cbrepo_Update (sv_bindings sv) binding1) (\<lambda>binding2.
               return_ok \<lparr>slo_BotID = bot_ID b, slo_BindingID = cb_ID binding2, slo_Status = cb_Status binding2,
                          slo_QRCodePayload = cb_QRCodePayload binding2, slo_QRShareURL = cbr_QRShareURL result,
                          slo_ExpiresAt = cb_ExpiresAt binding2, slo_ConnectionStatus = [],
                          slo_ChannelAccountID = []\<rparr>)))))))"

end
