(* ===== verification/JsonText.thy ===== *)
theory JsonText
  imports Json
begin

text \<open>
  JSON texts: what \<open>json.Marshal\<close> writes for a value and what \<open>json.Unmarshal\<close> reads.
  A string is written rune by rune with the escapes of Go 1.23 (HTML characters, U+2028 and
  U+2029 are escaped, an invalid byte becomes \<open>\ufffd\<close>); the reader replaces invalid bytes
  and lone surrogates by U+FFFD, as Go does.  The recursion of the reader is on a fuel that
  the length of the text bounds; \<open>json_round_trip\<close> shows it is enough for what is written.
\<close>

section \<open>Strings\<close>

definition backslash :: char where "backslash = CHR 0x5C"

definition hex4_text :: "nat \<Rightarrow> string" where
  "hex4_text n = [hex_digit (n div 4096 mod 16), hex_digit (n div 256 mod 16), hex_digit (n div 16 mod 16), hex_digit (n mod 16)]"

definition u_escape :: "nat \<Rightarrow> string" where
  "u_escape n = [backslash, CHR ''u''] @ hex4_text n"

definition json_byte :: "char \<Rightarrow> string" where
  "json_byte c =
     (let b = (of_char c :: nat) in
      if c = quote_char \<or> c = backslash then [backslash, c]
      else if b = 8 then [backslash, CHR ''b'']
      else if b = 12 then [backslash, CHR ''f'']
      else if b = 10 then [backslash, CHR ''n'']
      else if b = 13 then [backslash, CHR ''r'']
      else if b = 9 then [backslash, CHR ''t'']
      else if b < 0x20 \<or> b = 0x3C \<or> b = 0x3E \<or> b = 0x26 then u_escape b
      else [c])"

text \<open>One valid rune, given by its bytes.\<close>

definition json_rune :: "string \<Rightarrow> string" where
  "json_rune r =
     (case r of
        [c] \<Rightarrow> json_byte c
      | _ \<Rightarrow> if r = bytes [0xE2, 0x80, 0xA8] then u_escape 0x2028
             else if r = bytes [0xE2, 0x80, 0xA9] then u_escape 0x2029
             else r)"

function json_chars :: "string \<Rightarrow> string" where
  "json_chars s =
     (if s = [] then []
      else if utf8_len s = 0 then u_escape 0xFFFD @ json_chars (tl s)
      else json_rune (take (utf8_len s) s) @ json_chars (drop (utf8_len s) s))"
  by pat_completeness auto
termination
  by (relation "measure length") auto

declare json_chars.simps [simp del]

definition json_string :: "string \<Rightarrow> string" where
  "json_string s = [quote_char] @ json_chars s @ [quote_char]"

definition hex_value :: "char \<Rightarrow> nat option" where
  "hex_value c =
     (let b = (of_char c :: nat) in
      if 48 \<le> b \<and> b \<le> 57 then Some (b - 48)
      else if 97 \<le> b \<and> b \<le> 102 then Some (b - 87)
      else if 65 \<le> b \<and> b \<le> 70 then Some (b - 55)
      else None)"

definition hex4 :: "string \<Rightarrow> nat option" where
  "hex4 s =
     (case s of
        a # b # c # d # _ \<Rightarrow>
          (case (hex_value a, hex_value b, hex_value c, hex_value d) of
             (Some w, Some x, Some y, Some z) \<Rightarrow> Some (((w * 16 + x) * 16 + y) * 16 + z)
           | _ \<Rightarrow> None)
      | _ \<Rightarrow> None)"

text \<open>The UTF-8 encoding of a code point that is no surrogate.\<close>

definition utf8_encode :: "nat \<Rightarrow> string" where
  "utf8_encode n =
     (if n < 0x80 then bytes [n]
      else if n < 0x800 then bytes [0xC0 + n div 64, 0x80 + n mod 64]
      else if n < 0x10000 then bytes [0xE0 + n div 4096, 0x80 + n div 64 mod 64, 0x80 + n mod 64]
      else bytes [0xF0 + n div 262144, 0x80 + n div 4096 mod 64, 0x80 + n div 64 mod 64, 0x80 + n mod 64])"

definition simple_escape :: "char \<Rightarrow> char option" where
  "simple_escape c =
     (if c = quote_char \<or> c = backslash \<or> c = CHR ''/'' then Some c
      else if c = CHR ''b'' then Some (CHR 0x08)
      else if c = CHR ''f'' then Some (CHR 0x0C)
      else if c = CHR ''n'' then Some (CHR 0x0A)
      else if c = CHR ''r'' then Some (CHR 0x0D)
      else if c = CHR ''t'' then Some (CHR 0x09)
      else None)"

definition replacement :: string where "replacement = bytes [0xEF, 0xBF, 0xBD]"

definition prepend :: "string \<Rightarrow> (string \<times> string) option \<Rightarrow> (string \<times> string) option" where
  "prepend p r = map_option (\<lambda>(t, rest). (p @ t, rest)) r"

text \<open>The body of a string literal after its opening quote: its value and what follows.\<close>

function parse_chars :: "string \<Rightarrow> (string \<times> string) option" where
  "parse_chars [] = None"
| "parse_chars (c # cs) =
     (if c = quote_char then Some ([], cs)
      else if c = backslash then
        (case cs of
           [] \<Rightarrow> None
         | e # es \<Rightarrow>
             if e = CHR ''u'' then
               (case hex4 es of
                  None \<Rightarrow> None
                | Some n \<Rightarrow>
                    if n < 0xD800 \<or> 0xDFFF < n then prepend (utf8_encode n) (parse_chars (drop 4 es))
                    else
                      (case hex4 (drop 6 es) of
                         Some k \<Rightarrow>
                           if take 2 (drop 4 es) = [backslash, CHR ''u''] \<and> n < 0xDC00 \<and> 0xDC00 \<le> k \<and> k \<le> 0xDFFF
                           then prepend (utf8_encode (0x10000 + (n - 0xD800) * 1024 + (k - 0xDC00))) (parse_chars (drop 10 es))
                           else prepend replacement (parse_chars (drop 4 es))
                       | None \<Rightarrow> prepend replacement (parse_chars (drop 4 es))))
             else (case simple_escape e of None \<Rightarrow> None | Some x \<Rightarrow> prepend [x] (parse_chars es)))
      else if (of_char c :: nat) < 0x20 then None
      else if utf8_len (c # cs) = 0 then prepend replacement (parse_chars cs)
      else prepend (take (utf8_len (c # cs)) (c # cs)) (parse_chars (drop (utf8_len (c # cs)) (c # cs))))"
  by pat_completeness auto
termination
  by (relation "measure length") auto

declare parse_chars.simps(2) [simp del]

section \<open>Values\<close>

fun json_text :: "json \<Rightarrow> string" where
  "json_text JNull = ''null''"
| "json_text (JBool b) = (if b then ''true'' else ''false'')"
| "json_text (JNum i) = Itoa i"
| "json_text (JReal t) = t"
| "json_text (JStr s) = json_string s"
| "json_text (JArr js) = ''['' @ Join (map json_text js) '','' @ '']''"
| "json_text (JObj ms) = ''{'' @ Join (map (\<lambda>(k, v). json_string k @ '':'' @ json_text v) ms) '','' @ ''}''"

definition json_space :: "char \<Rightarrow> bool" where
  "json_space c \<longleftrightarrow> c = CHR '' '' \<or> c = CHR 0x09 \<or> c = CHR 0x0A \<or> c = CHR 0x0D"

definition skip_ws :: "string \<Rightarrow> string" where
  "skip_ws s = dropWhile json_space s"

definition is_digit :: "char \<Rightarrow> bool" where
  "is_digit c \<longleftrightarrow> 48 \<le> (of_char c :: nat) \<and> (of_char c :: nat) \<le> 57"

definition digits_value :: "string \<Rightarrow> int" where
  "digits_value ds = fold (\<lambda>c n. 10 * n + (int (of_char c) - 48)) ds 0"

text \<open>A number: an integer, or its text when it has a fraction or an exponent.\<close>

definition parse_number :: "string \<Rightarrow> (json \<times> string) option" where
  "parse_number s =
     (let (neg, s1) = (case s of c # cs \<Rightarrow> if c = CHR ''-'' then (True, cs) else (False, s) | [] \<Rightarrow> (False, s));
          ds = takeWhile is_digit s1; s2 = dropWhile is_digit s1
      in if ds = [] \<or> (hd ds = CHR ''0'' \<and> length ds > 1) then None
         else
           let (frac, s3) = (case s2 of c # cs \<Rightarrow> if c = CHR ''.'' then (c # takeWhile is_digit cs, dropWhile is_digit cs) else ([], s2) | [] \<Rightarrow> ([], s2));
               (expo, s4) =
                 (case s3 of
                    c # cs \<Rightarrow>
                      if c = CHR ''e'' \<or> c = CHR ''E''
                      then (let sg = takeWhile (\<lambda>d. d = CHR ''+'' \<or> d = CHR ''-'') (take 1 cs); r = drop (length sg) cs
                            in (c # sg @ takeWhile is_digit r, dropWhile is_digit r))
                      else ([], s3)
                  | [] \<Rightarrow> ([], s3))
           in if frac = ''.'' \<or> (expo \<noteq> [] \<and> \<not> is_digit (last expo)) then None
              else if frac = [] \<and> expo = [] then Some (JNum (if neg then - digits_value ds else digits_value ds), s4)
              else Some (JReal ((if neg then ''-'' else []) @ ds @ frac @ expo), s4))"

fun json_value :: "nat \<Rightarrow> string \<Rightarrow> (json \<times> string) option"
  and json_elems :: "nat \<Rightarrow> string \<Rightarrow> (json list \<times> string) option"
  and json_members :: "nat \<Rightarrow> string \<Rightarrow> ((string \<times> json) list \<times> string) option" where
  "json_value 0 s = None"
| "json_value (Suc n) s =
     (case skip_ws s of
        [] \<Rightarrow> None
      | c # cs \<Rightarrow>
          if c = quote_char then map_option (\<lambda>(t, r). (JStr t, r)) (parse_chars cs)
          else if c = CHR ''['' then
            (if HasPrefix (skip_ws cs) '']'' then Some (JArr [], tl (skip_ws cs))
             else map_option (\<lambda>(vs, r). (JArr vs, r)) (json_elems n cs))
          else if c = CHR ''{'' then
            (if HasPrefix (skip_ws cs) ''}'' then Some (JObj [], tl (skip_ws cs))
             else map_option (\<lambda>(ms, r). (JObj ms, r)) (json_members n cs))
          else if HasPrefix (c # cs) ''null'' then Some (JNull, drop 4 (c # cs))
          else if HasPrefix (c # cs) ''true'' then Some (JBool True, drop 4 (c # cs))
          else if HasPrefix (c # cs) ''false'' then Some (JBool False, drop 5 (c # cs))
          else parse_number (c # cs))"
| "json_elems 0 s = None"
| "json_elems (Suc n) s =
     (case json_value n s of
        None \<Rightarrow> None
      | Some (v, r) \<Rightarrow>
          (case skip_ws r of
             [] \<Rightarrow> None
           | c # cs \<Rightarrow>
               if c = CHR '','' then map_option (\<lambda>(vs, r1). (v # vs, r1)) (json_elems n cs)
               else if c = CHR '']'' then Some ([v], cs)
               else None))"
| "json_members 0 s = None"
| "json_members (Suc n) s =
     (case skip_ws s of
        [] \<Rightarrow> None
      | q # qs \<Rightarrow>
          if q \<noteq> quote_char then None
          else
            (case parse_chars qs of
               None \<Rightarrow> None
             | Some (k, r0) \<Rightarrow>
                 if \<not> HasPrefix (skip_ws r0) '':'' then None
                 else
                   (case json_value n (tl (skip_ws r0)) of
                      None \<Rightarrow> None
                    | Some (v, r) \<Rightarrow>
                        (case skip_ws r of
                           [] \<Rightarrow> None
                         | c # cs \<Rightarrow>
                             if c = CHR '','' then map_option (\<lambda>(ms, r1). ((k, v) # ms, r1)) (json_members n cs)
                             else if c = CHR ''}'' then Some ([(k, v)], cs)
                             else None))))"

definition json_parse :: "string \<Rightarrow> json option" where
  "json_parse s =
     (case json_value (2 * length s + 1) s of
        None \<Rightarrow> None
      | Some (v, r) \<Rightarrow> if skip_ws r = [] then Some v else None)"

section \<open>Reading back what was written\<close>

lemma prepend_simps [simp]:
  "prepend p None = None"
  "prepend p (Some (t, r)) = Some (p @ t, r)"
  "prepend p (prepend q x) = prepend (p @ q) x"
  by (simp_all add: prepend_def) (cases x; simp add: split_beta)

lemma hex_value_digit: "d < 16 \<Longrightarrow> hex_value (hex_digit d) = Some d"
  by (auto simp: hex_value_def hex_digit_def)

lemma hex4_text_value:
  assumes "n < 65536"
  shows "hex4 (hex4_text n @ r) = Some n"
proof -
  have "((n div 4096 mod 16 * 16 + n div 256 mod 16) * 16 + n div 16 mod 16) * 16 + n mod 16 = n"
  proof -
    have "n div 256 = n div 16 div 16" by (simp only: div_mult2_eq [symmetric]) simp
    moreover have "n div 4096 mod 16 = n div 16 div 16 div 16"
      using assms by (simp only: div_mult2_eq [symmetric]) simp
    ultimately show ?thesis by (simp only: div_mult_mod_eq)
  qed
  moreover have "n div 4096 mod 16 = n div 4096" using assms by (intro mod_less) simp
  ultimately show ?thesis using assms by (simp add: hex4_def hex4_text_def hex_value_digit)
qed

lemma length_hex4_text [simp]: "length (hex4_text n) = 4"
  by (simp add: hex4_text_def)

lemma drop_hex4_text [simp]: "drop 4 (hex4_text n @ r) = r"
  by simp

lemma quote_not_backslash [simp]: "quote_char \<noteq> backslash" "backslash \<noteq> quote_char"
  by (simp_all add: quote_char_def backslash_def)

lemma parse_escape:
  assumes "simple_escape e = Some x" "e \<noteq> CHR ''u''"
  shows "parse_chars (backslash # e # r) = prepend [x] (parse_chars r)"
  using assms by (subst parse_chars.simps) simp

lemma parse_u_escape:
  assumes "n < 0xD800 \<or> 0xDFFF < n" "n < 65536"
  shows "parse_chars (u_escape n @ r) = prepend (utf8_encode n) (parse_chars r)"
  using assms by (subst u_escape_def) (simp add: parse_chars.simps(2) hex4_text_value del: prepend_simps)

lemma parse_quote [simp]: "parse_chars (quote_char # r) = Some ([], r)"
  by (simp add: parse_chars.simps(2))

lemma utf8_encode_ascii: "(of_char c :: nat) < 128 \<Longrightarrow> utf8_encode (of_char c) = [c]"
  by (simp add: utf8_encode_def bytes_def)

lemma parse_plain_byte:
  assumes "(of_char c :: nat) < 128" "\<not> (of_char c :: nat) < 0x20" "c \<noteq> quote_char" "c \<noteq> backslash"
  shows "parse_chars (c # r) = prepend [c] (parse_chars r)"
proof -
  have "utf8_len (c # r) = 1" using assms(1) by (simp add: utf8_len_def byte_at_def Let_def)
  with assms(2-) show ?thesis by (subst parse_chars.simps) simp
qed

lemma control_codes:
  "(of_char c :: nat) = 8 \<longleftrightarrow> c = CHR 0x08" "(of_char c :: nat) = 9 \<longleftrightarrow> c = CHR 0x09"
  "(of_char c :: nat) = 10 \<longleftrightarrow> c = CHR 0x0A" "(of_char c :: nat) = 12 \<longleftrightarrow> c = CHR 0x0C"
  "(of_char c :: nat) = 13 \<longleftrightarrow> c = CHR 0x0D"
  by (subst of_char_eq_iff [symmetric, where 'a = nat], simp)+

lemma parse_json_byte:
  assumes "(of_char c :: nat) < 128"
  shows "parse_chars (json_byte c @ r) = prepend [c] (parse_chars r)"
proof -
  have "c = quote_char \<or> c = backslash \<or> c = CHR 0x08 \<or> c = CHR 0x0C \<or> c = CHR 0x0A \<or> c = CHR 0x0D \<or> c = CHR 0x09
    \<or> json_byte c = u_escape (of_char c)
    \<or> (json_byte c = [c] \<and> \<not> (of_char c :: nat) < 0x20 \<and> c \<noteq> quote_char \<and> c \<noteq> backslash)"
    unfolding json_byte_def Let_def by (auto simp: control_codes split: if_splits)
  then consider "c = quote_char" | "c = backslash" | "c = CHR 0x08" | "c = CHR 0x0C" | "c = CHR 0x0A" | "c = CHR 0x0D" | "c = CHR 0x09"
    | "json_byte c = u_escape (of_char c)"
    | "json_byte c = [c]" "\<not> (of_char c :: nat) < 0x20" "c \<noteq> quote_char" "c \<noteq> backslash"
    by blast
  then show ?thesis
  proof cases
    case 8
    then show ?thesis using assms by (simp add: parse_u_escape utf8_encode_ascii)
  next
    case 9
    then show ?thesis using assms parse_plain_byte by simp
  qed (simp_all add: json_byte_def parse_escape simple_escape_def quote_char_def backslash_def parse_escape [unfolded backslash_def])
qed

lemma utf8_len_1: "utf8_len s = 1 \<longleftrightarrow> byte_at s 0 < 0x80"
  by (simp add: utf8_len_def Let_def)

lemma parse_json_rune:
  assumes "s \<noteq> []" "utf8_len s \<noteq> 0"
  shows "parse_chars (json_rune (take (utf8_len s) s) @ t) = prepend (take (utf8_len s) s) (parse_chars t)"
proof (cases "utf8_len s = 1")
  case True
  then obtain c s' where s: "s = c # s'" "(of_char c :: nat) < 128"
    using assms(1) utf8_len_1 [of s] by (cases s) (auto simp: byte_at_def)
  with True show ?thesis by (simp add: json_rune_def parse_json_byte)
next
  case False
  define u where "u = take (utf8_len s) s"
  have lu: "length u = utf8_len s" using utf8_len_le [OF assms(1)] by (simp add: u_def)
  have cut: "utf8_len (u @ t) = utf8_len s" using utf8_len_cut [OF assms(1)] assms(2) by (simp add: u_def)
  obtain c d us where u: "u = c # d # us"
    using lu False assms(2) by (cases u; cases "tl u") auto
  have c: "c = s ! 0" using u assms(2) by (cases s) (auto simp: u_def take_Cons' split: if_splits)
  then have high: "\<not> (of_char c :: nat) < 0x80"
    using False assms(1) utf8_len_1 [of s] by (auto simp: byte_at_def)
  then have c3: "c \<noteq> quote_char" "c \<noteq> backslash" "\<not> (of_char c :: nat) < 0x20"
    by (auto simp: quote_char_def backslash_def)
  have E: "utf8_encode 0x2028 = bytes [0xE2, 0x80, 0xA8]" "utf8_encode 0x2029 = bytes [0xE2, 0x80, 0xA9]"
    by (simp_all add: utf8_encode_def)
  have "parse_chars (u @ t) = prepend u (parse_chars t)"
  proof -
    have "parse_chars (u @ t) = prepend (take (utf8_len (u @ t)) (u @ t)) (parse_chars (drop (utf8_len (u @ t)) (u @ t)))"
      using c3 cut assms(2) by (simp add: u parse_chars.simps(2))
    also have "\<dots> = prepend u (parse_chars t)" by (simp add: cut flip: lu)
    finally show ?thesis .
  qed
  moreover have "json_rune u = u_escape 0x2028 \<and> u = bytes [0xE2, 0x80, 0xA8] \<or>
      json_rune u = u_escape 0x2029 \<and> u = bytes [0xE2, 0x80, 0xA9] \<or> json_rune u = u"
    by (simp add: json_rune_def u)
  ultimately show ?thesis using E by (auto simp: parse_u_escape simp flip: u_def)
qed

lemma parse_json_chars: "parse_chars (json_chars s @ quote_char # rest) = Some (concat (runes s), rest)"
proof (induction s rule: json_chars.induct)
  case (1 s)
  show ?case
  proof (cases "s = []")
    case True
    then show ?thesis by (simp add: json_chars.simps)
  next
    case s: False
    show ?thesis
    proof (cases "utf8_len s = 0")
      case True
      have "utf8_encode 0xFFFD = bytes [0xEF, 0xBF, 0xBD]" by (simp add: utf8_encode_def)
      with 1(1) s True show ?thesis by (subst json_chars.simps, subst runes.simps) (simp add: parse_u_escape)
    next
      case False
      with 1(2) s show ?thesis by (subst json_chars.simps, subst runes.simps) (simp add: parse_json_rune)
    qed
  qed
qed

text \<open>What a string becomes on the way: its runes, with every invalid byte replaced.\<close>

definition clean_utf8 :: "string \<Rightarrow> string" where
  "clean_utf8 s = concat (runes s)"

lemma parse_json_string: "parse_chars (tl (json_string s) @ rest) = Some (clean_utf8 s, rest)"
  using parse_json_chars by (simp add: json_string_def clean_utf8_def)

text \<open>What may follow a number, and the reading of a whole number.\<close>

definition delimited :: "string \<Rightarrow> bool" where
  "delimited r \<longleftrightarrow> r = [] \<or> \<not> is_digit (hd r) \<and> hd r \<notin> {CHR ''.'', CHR ''e'', CHR ''E''}"

lemma delimited_simps [simp]:
  "delimited []" "delimited (CHR '','' # r)" "delimited (CHR '']'' # r)" "delimited (CHR ''}'' # r)" "delimited (CHR 0x0A # r)"
  by (simp_all add: delimited_def is_digit_def)

lemma itoa_nat_digits: "\<forall>c \<in> set (itoa_nat n). is_digit c"
proof (induction n rule: itoa_nat.induct)
  case (1 n)
  then show ?case by (subst itoa_nat.simps) (auto simp: is_digit_def)
qed

lemma itoa_nat_hd: "0 < n \<Longrightarrow> hd (itoa_nat n) \<noteq> CHR ''0''"
proof (induction n rule: itoa_nat.induct)
  case (1 n)
  have c: "(of_char (char_of (48 + n) :: char) :: nat) = 48 + n" if "n < 10" using that by simp
  show ?case
  proof (cases "n < 10")
    case True
    have "char_of (48 + n) \<noteq> CHR ''0''"
    proof
      assume "char_of (48 + n) = CHR ''0''"
      then have "(of_char (char_of (48 + n) :: char) :: nat) = of_char (CHR ''0'')" by simp
      with c [OF True] 1 show False by simp
    qed
    with True show ?thesis by (subst itoa_nat.simps) simp
  next
    case False
    then have "hd (itoa_nat (n div 10)) \<noteq> CHR ''0''" using 1 by simp
    then show ?thesis by (subst itoa_nat.simps) (simp add: False)
  qed
qed

lemma itoa_nat_length: "1 < length (itoa_nat n) \<Longrightarrow> 0 < n"
  by (cases n) (subst (asm) itoa_nat.simps, simp_all)

lemma digits_value_snoc: "digits_value (ds @ [c]) = 10 * digits_value ds + (int (of_char c) - 48)"
  by (simp add: digits_value_def)

lemma digits_value_itoa: "digits_value (itoa_nat n) = int n"
proof (induction n rule: itoa_nat.induct)
  case (1 n)
  show ?case
  proof (cases "n < 10")
    case True
    then show ?thesis by (subst itoa_nat.simps) (simp add: digits_value_def)
  next
    case False
    then have "digits_value (itoa_nat (n div 10) @ [char_of (48 + n mod 10)]) = 10 * int (n div 10) + int (n mod 10)"
      using 1 by (simp add: digits_value_snoc)
    also have "\<dots> = int n" by (metis div_mult_mod_eq mult.commute of_nat_add of_nat_mult of_nat_numeral)
    finally show ?thesis by (subst itoa_nat.simps) (simp add: False)
  qed
qed

lemma parse_number_digits:
  assumes "takeWhile is_digit s = ds" "dropWhile is_digit s = r" "ds \<noteq> []" "\<not> (hd ds = CHR ''0'' \<and> length ds > 1)" "delimited r"
  shows "hd s \<noteq> CHR ''-'' \<Longrightarrow> parse_number s = Some (JNum (digits_value ds), r)"
    and "parse_number (CHR ''-'' # s) = Some (JNum (- digits_value ds), r)"
proof -
  obtain c cs where s: "s = c # cs" using assms(1,3) by (cases s) auto
  show "parse_number s = Some (JNum (digits_value ds), r)" if "hd s \<noteq> CHR ''-''"
  proof -
    have "(case s of c # cs \<Rightarrow> if c = CHR ''-'' then (True, cs) else (False, s) | [] \<Rightarrow> (False, s)) = (False, s)"
      using that by (simp add: s)
    then show ?thesis using assms(3-5) by (cases r) (auto simp: parse_number_def delimited_def Let_def assms(1,2))
  qed
  show "parse_number (CHR ''-'' # s) = Some (JNum (- digits_value ds), r)"
    using assms(3-5) by (cases r) (auto simp: parse_number_def delimited_def Let_def assms(1,2))
qed

lemma parse_number_nat:
  assumes "delimited r"
  shows "parse_number (itoa_nat n @ r) = Some (JNum (int n), r)" "parse_number (CHR ''-'' # itoa_nat n @ r) = Some (JNum (- int n), r)"
proof -
  have t: "takeWhile is_digit (itoa_nat n @ r) = itoa_nat n" "dropWhile is_digit (itoa_nat n @ r) = r"
    using itoa_nat_digits [of n] assms
    by (auto simp: takeWhile_append2 dropWhile_append2 delimited_def takeWhile_eq_Nil_iff dropWhile_eq_self_iff)
  have lead: "\<not> (hd (itoa_nat n) = CHR ''0'' \<and> length (itoa_nat n) > 1)"
    using itoa_nat_hd [of n] itoa_nat_length [of n] by blast
  have "is_digit (hd (itoa_nat n @ r))" using itoa_nat_digits [of n] by (simp add: hd_append)
  then have "hd (itoa_nat n @ r) \<noteq> CHR ''-''" by (auto simp: is_digit_def)
  from parse_number_digits [OF t itoa_nat_nonempty lead assms] this
  show "parse_number (itoa_nat n @ r) = Some (JNum (int n), r)" "parse_number (CHR ''-'' # itoa_nat n @ r) = Some (JNum (- int n), r)"
    by (simp_all add: digits_value_itoa)
qed

lemma parse_number_Itoa: "delimited r \<Longrightarrow> parse_number (Itoa i @ r) = Some (JNum i, r)"
  using parse_number_nat [of r "nat i"] parse_number_nat [of r "nat (- i)"] by (auto simp: Itoa_def)

lemma Itoa_hd: "is_digit (hd (Itoa i)) \<or> hd (Itoa i) = CHR ''-''"
  using itoa_nat_digits [of "nat i"] by (auto simp: Itoa_def)

text \<open>
  The values of text, truth, null and whole numbers, nested at will; the string of each is cleaned
  on the way.
\<close>

fun texty :: "json \<Rightarrow> bool" where
  "texty (JReal t) = False"
| "texty (JArr js) = list_all texty js"
| "texty (JObj ms) = list_all (\<lambda>(k, v). texty v) ms"
| "texty _ = True"

fun clean_json :: "json \<Rightarrow> json" where
  "clean_json (JStr s) = JStr (clean_utf8 s)"
| "clean_json (JArr js) = JArr (map clean_json js)"
| "clean_json (JObj ms) = JObj (map (\<lambda>(k, v). (clean_utf8 k, clean_json v)) ms)"
| "clean_json v = v"

fun json_fuel :: "json \<Rightarrow> nat" where
  "json_fuel (JArr js) = Suc (sum_list (map (\<lambda>j. Suc (json_fuel j)) js))"
| "json_fuel (JObj ms) = Suc (sum_list (map (\<lambda>(k, v). Suc (json_fuel v)) ms))"
| "json_fuel _ = 1"

lemma skip_ws_simps [simp]:
  "skip_ws [] = []"
  "\<not> json_space c \<Longrightarrow> skip_ws (c # s) = c # s"
  by (simp_all add: skip_ws_def)

lemma not_space [simp]:
  "\<not> json_space CHR '',''" "\<not> json_space CHR '']''" "\<not> json_space CHR ''}''" "\<not> json_space CHR '':''"
  "\<not> json_space CHR ''[''" "\<not> json_space CHR ''{''" "\<not> json_space CHR ''n''" "\<not> json_space CHR ''t''"
  "\<not> json_space CHR ''f''" "\<not> json_space quote_char"
  by (simp_all add: json_space_def quote_char_def)

lemma json_text_hd:
  "texty v \<Longrightarrow> json_text v \<noteq> [] \<and> \<not> json_space (hd (json_text v)) \<and>
     hd (json_text v) \<noteq> CHR '']'' \<and> hd (json_text v) \<noteq> CHR ''}''"
proof (cases v)
  case (JNum i)
  have "is_digit (hd (Itoa i)) \<or> hd (Itoa i) = CHR ''-''" by (rule Itoa_hd)
  then have "\<not> json_space (hd (Itoa i))" "hd (Itoa i) \<noteq> CHR '']''" "hd (Itoa i) \<noteq> CHR ''}''"
    by (auto simp: is_digit_def json_space_def)
  then show ?thesis by (simp add: JNum)
qed (auto simp: json_string_def quote_char_def json_space_def)

lemma json_text_head:
  assumes "texty v"
  obtains c t where "json_text v = c # t" "\<not> json_space c" "c \<noteq> CHR '']''" "c \<noteq> CHR ''}''"
  using json_text_hd [OF assms] by (cases "json_text v") auto

lemma skip_ws_text: "texty v \<Longrightarrow> skip_ws (json_text v @ r) = json_text v @ r"
  by (erule json_text_head) simp

lemma elems_round_trip:
  assumes "\<And>v n rest. v \<in> set vs \<Longrightarrow> json_fuel v \<le> n \<Longrightarrow> delimited rest \<Longrightarrow> json_value n (json_text v @ rest) = Some (clean_json v, rest)"
    and "vs \<noteq> []" "sum_list (map (\<lambda>v. Suc (json_fuel v)) vs) \<le> n"
  shows "json_elems n (Join (map json_text vs) '','' @ CHR '']'' # rest) = Some (map clean_json vs, rest)"
  using assms
proof (induction vs arbitrary: n)
  case Nil
  then show ?case by simp
next
  case (Cons v vs)
  then obtain m where n: "n = Suc m" by (cases n) auto
  have v: "delimited r \<Longrightarrow> json_value m (json_text v @ r) = Some (clean_json v, r)" for r
    using Cons.prems n by (intro Cons.prems(1)) auto
  show ?case
  proof (cases vs)
    case Nil
    then show ?thesis by (simp add: n v)
  next
    case (Cons u us)
    have "json_elems m (Join (map json_text vs) '','' @ CHR '']'' # rest) = Some (map clean_json vs, rest)"
      using Cons.prems n Cons by (intro Cons.IH) auto
    then show ?thesis using Cons by (simp add: n v)
  qed
qed

lemma members_round_trip:
  assumes "\<And>k v n rest. (k, v) \<in> set ms \<Longrightarrow> json_fuel v \<le> n \<Longrightarrow> delimited rest \<Longrightarrow> json_value n (json_text v @ rest) = Some (clean_json v, rest)"
    and "ms \<noteq> []" "sum_list (map (\<lambda>(k, v). Suc (json_fuel v)) ms) \<le> n"
  shows "json_members n (Join (map (\<lambda>(k, v). json_string k @ '':'' @ json_text v) ms) '','' @ CHR ''}'' # rest)
    = Some (map (\<lambda>(k, v). (clean_utf8 k, clean_json v)) ms, rest)"
  using assms
proof (induction ms arbitrary: n)
  case Nil
  then show ?case by simp
next
  case (Cons kv ms)
  obtain k v where kv: "kv = (k, v)" by fastforce
  from Cons.prems obtain m where n: "n = Suc m" by (cases n) (auto simp: kv)
  have v: "delimited r \<Longrightarrow> json_value m (json_text v @ r) = Some (clean_json v, r)" for r
    using Cons.prems n kv by (intro Cons.prems(1) [of k]) auto
  have k: "parse_chars (json_chars k @ quote_char # r) = Some (clean_utf8 k, r)" for r
    by (simp add: parse_json_chars clean_utf8_def)
  show ?case
  proof (cases ms)
    case Nil
    then show ?thesis by (simp add: n v k kv json_string_def HasPrefix_def)
  next
    case (Cons u us)
    have "json_members m (Join (map (\<lambda>(k, v). json_string k @ '':'' @ json_text v) ms) '','' @ CHR ''}'' # rest)
      = Some (map (\<lambda>(k, v). (clean_utf8 k, clean_json v)) ms, rest)"
      using Cons.prems n Cons kv by (intro Cons.IH) (auto split: prod.splits)
    then show ?thesis using Cons by (simp add: n v k kv json_string_def HasPrefix_def case_prod_unfold)
  qed
qed

lemma value_round_trip:
  "texty v \<Longrightarrow> json_fuel v \<le> n \<Longrightarrow> delimited rest \<Longrightarrow> json_value n (json_text v @ rest) = Some (clean_json v, rest)"
proof (induction v arbitrary: n rest)
  case (JArr vs)
  then obtain m where n: "n = Suc m" by (cases n) auto
  show ?case
  proof (cases vs)
    case Nil
    then show ?thesis by (simp add: n quote_char_def HasPrefix_def)
  next
    case (Cons u us)
    then obtain c t where u: "json_text u = c # t" "\<not> json_space c" "c \<noteq> CHR '']''"
      using JArr.prems(1) by (auto elim!: json_text_head)
    have "json_elems m (Join (map json_text vs) '','' @ CHR '']'' # rest) = Some (map clean_json vs, rest)"
      using JArr n Cons by (intro elems_round_trip) (auto simp: list_all_iff)
    moreover obtain s where "Join (map json_text vs) '','' = c # s"
      using Cons u by (cases us) auto
    ultimately show ?thesis using u by (simp add: n quote_char_def HasPrefix_def)
  qed
next
  case (JObj ms)
  then obtain m where n: "n = Suc m" by (cases n) auto
  show ?case
  proof (cases ms)
    case Nil
    then show ?thesis by (simp add: n quote_char_def HasPrefix_def)
  next
    case (Cons u us)
    have "json_members m (Join (map (\<lambda>(k, v). json_string k @ '':'' @ json_text v) ms) '','' @ CHR ''}'' # rest)
      = Some (map (\<lambda>(k, v). (clean_utf8 k, clean_json v)) ms, rest)"
      using JObj n Cons by (intro members_round_trip) (fastforce simp: list_all_iff)+
    moreover obtain s where "Join (map (\<lambda>(k, v). json_string k @ '':'' @ json_text v) ms) '','' = quote_char # s"
      using Cons by (cases us) (auto simp: json_string_def split_beta)
    ultimately show ?thesis by (simp add: n quote_char_def HasPrefix_def json_space_def)
  qed
next
  case (JNum i)
  obtain c cs where i: "Itoa i = c # cs" by (cases "Itoa i") auto
  then have "is_digit c \<or> c = CHR ''-''" using Itoa_hd [of i] by simp
  then have "\<not> json_space c" "c \<noteq> quote_char" "c \<noteq> CHR ''[''" "c \<noteq> CHR ''{''" "c \<noteq> CHR ''n''" "c \<noteq> CHR ''t''" "c \<noteq> CHR ''f''"
    by (auto simp: is_digit_def json_space_def quote_char_def)
  then show ?case using JNum parse_number_Itoa [of rest i] by (cases n) (simp_all add: i HasPrefix_def)
next
  case (JStr s)
  then show ?case by (cases n) (simp_all add: json_string_def parse_json_chars clean_utf8_def)
next
  case (JBool b)
  then show ?case by (cases n) (auto simp: HasPrefix_def quote_char_def)
next
  case JNull
  then show ?case by (cases n) (auto simp: HasPrefix_def quote_char_def)
qed simp_all

lemma Join_length: "length (Join ts sep) \<ge> sum_list (map length ts) + (length ts - 1) * length sep"
proof (induction ts sep rule: Join.induct)
  case (3 x y ys sep)
  then show ?case by (cases ys) auto
qed simp_all

lemma json_fuel_bound: "texty v \<Longrightarrow> json_fuel v \<le> 2 * length (json_text v)"
proof (induction v)
  case (JArr vs)
  have "sum_list (map (\<lambda>j. Suc (json_fuel j)) vs) \<le> sum_list (map (\<lambda>j. Suc (2 * length (json_text j))) vs)"
    using JArr by (intro sum_list_mono) (auto simp: list_all_iff)
  also have "\<dots> = 2 * sum_list (map length (map json_text vs)) + length vs"
    by (induction vs) auto
  also have "\<dots> \<le> 2 * length (Join (map json_text vs) '','') + 1"
    using Join_length [of "map json_text vs" "'',''"] by (cases vs) auto
  finally show ?case by simp
next
  case (JObj ms)
  let ?t = "\<lambda>(k, v). json_string k @ '':'' @ json_text v"
  have "sum_list (map (\<lambda>(k, v). Suc (json_fuel v)) ms) \<le> sum_list (map (\<lambda>m. Suc (2 * length (?t m))) ms)"
    using JObj by (intro sum_list_mono) (fastforce simp: list_all_iff)
  also have "\<dots> = 2 * sum_list (map length (map ?t ms)) + length ms"
    by (induction ms) auto
  also have "\<dots> \<le> 2 * length (Join (map ?t ms) '','') + 1"
    using Join_length [of "map ?t ms" "'',''"] by (cases ms) auto
  finally show ?case by simp
qed (auto simp: json_string_def Suc_le_eq)

text \<open>\<open>json.Unmarshal\<close> reads back what \<open>json.Marshal\<close> wrote, up to invalid bytes.\<close>

lemma json_round_trip: "texty v \<Longrightarrow> json_parse (json_text v) = Some (clean_json v)"
  using value_round_trip [of v "2 * length (json_text v) + 1" "[]"] json_fuel_bound [of v]
  by (simp add: json_parse_def)

section \<open>Lists of strings\<close>

text \<open>\<open>json.Marshal\<close> and \<open>json.Unmarshal\<close> of a \<open>[]string\<close>; \<open>None\<close> is the nil slice.\<close>

definition marshal_strings :: "string list option \<Rightarrow> string" where
  "marshal_strings xs = json_text (case xs of None \<Rightarrow> JNull | Some ys \<Rightarrow> JArr (map JStr ys))"

text \<open>Elements of another type are left empty and the call fails; \<open>null\<close> leaves the nil slice.\<close>

fun string_elem :: "json \<Rightarrow> string" where
  "string_elem (JStr s) = s"
| "string_elem _ = []"

fun string_elem_ok :: "json \<Rightarrow> bool" where
  "string_elem_ok (JStr s) = True"
| "string_elem_ok JNull = True"
| "string_elem_ok _ = False"

definition unmarshal_strings :: "string \<Rightarrow> string list option \<times> goerr option" where
  "unmarshal_strings t =
     (case json_parse t of
        Some (JArr js) \<Rightarrow>
          (Some (map string_elem js),
           if list_all string_elem_ok js then None else Some (errorf ''json: cannot unmarshal into Go value of type string''))
      | Some JNull \<Rightarrow> (None, None)
      | Some _ \<Rightarrow> (None, Some (errorf ''json: cannot unmarshal into Go value of type []string''))
      | None \<Rightarrow> (None, Some (errorf ''invalid JSON'')))"

lemma strings_round_trip: "unmarshal_strings (marshal_strings xs) = (map_option (map clean_utf8) xs, None)"
proof -
  let ?v = "case xs of None \<Rightarrow> JNull | Some ys \<Rightarrow> JArr (map JStr ys)"
  have "texty ?v" by (cases xs) (auto simp: list_all_iff)
  then have "json_parse (marshal_strings xs) = Some (clean_json ?v)"
    unfolding marshal_strings_def by (rule json_round_trip)
  then show ?thesis by (cases xs) (auto simp: unmarshal_strings_def list_all_iff comp_def)
qed

lemma clean_utf8_ascii: "\<forall>c \<in> set s. (of_char c :: nat) < 0x80 \<Longrightarrow> clean_utf8 s = s"
  by (simp add: clean_utf8_def runes_ascii)

end
