(* ===== verification/Store.thy ===== *)
theory Store
  imports Repositories JsonText
begin

text \<open>
  The repositories (\<open>internal/store/repositories\<close>) and the rows they store
  (\<open>internal/store/models\<close>).

  The database is reached through the package gorm, which is not part of the repository: a
  \<open>table\<close> is the record of the statements the source issues on one table, as arguments of the
  model.  A \<open>Where\<close> is the predicate on rows it selects, an \<open>OnConflict\<close> clause the predicate
  of its columns and the assignment of its \<open>DoUpdates\<close>.  \<open>table_ok\<close> states what gorm documents
  of these statements, over the set of rows a database state holds; \<open>core\<close> is the part of a
  row gorm stores as given (it may fill timestamps in).  A repository is a function from a
  table to the interface it implements.
\<close>

section \<open>Statements\<close>

definition ErrRecordNotFound :: goerr where
  "ErrRecordNotFound = errorf ''record not found''"

record ('w, 'r) table =
  tb_Create :: "'r \<Rightarrow> ('w, 'r) io"
  tb_CreateOnConflict :: "('r \<Rightarrow> 'r \<Rightarrow> bool) \<Rightarrow> ('r \<Rightarrow> 'r \<Rightarrow> 'r) \<Rightarrow> 'r \<Rightarrow> ('w, 'r) io"
  tb_First :: "('r \<Rightarrow> bool) \<Rightarrow> ('w, 'r) io"
  tb_Find :: "('r \<Rightarrow> bool) \<Rightarrow> string \<Rightarrow> ('w, 'r list) io"
  tb_Save :: "'r \<Rightarrow> ('w, 'r) io"
  tb_Updates :: "('r \<Rightarrow> bool) \<Rightarrow> ('r \<Rightarrow> 'r) \<Rightarrow> ('w, nat) io"
  tb_Delete :: "('r \<Rightarrow> bool) \<Rightarrow> ('w, nat) io"

text \<open>
  What the statements do to the rows \<open>rows w\<close>, where \<open>key\<close> is the primary key: a failed
  statement changes nothing, a read changes nothing.
\<close>

definition create_ok :: "('r \<Rightarrow> 'k) \<Rightarrow> ('r \<Rightarrow> 'c) \<Rightarrow> ('w \<Rightarrow> 'r set) \<Rightarrow> ('w, 'r) table \<Rightarrow> bool" where
  "create_ok key core rows tb \<longleftrightarrow>
     (\<forall>r w e w'. tb_Create tb r w = (Inl e, w') \<longrightarrow> rows w' = rows w) \<and>
     (\<forall>r w r' w'. tb_Create tb r w = (Inr r', w') \<longrightarrow>
        key r' = key r \<and> core r' = core r \<and> key r \<notin> key ` rows w \<and> rows w' = insert r' (rows w))"

definition upsert_ok :: "('r \<Rightarrow> 'c) \<Rightarrow> ('w \<Rightarrow> 'r set) \<Rightarrow> ('w, 'r) table \<Rightarrow> bool" where
  "upsert_ok core rows tb \<longleftrightarrow>
     (\<forall>c u r w e w'. tb_CreateOnConflict tb c u r w = (Inl e, w') \<longrightarrow> rows w' = rows w) \<and>
     (\<forall>c u r w r' w'. tb_CreateOnConflict tb c u r w = (Inr r', w') \<longrightarrow>
        core r' = core r \<and>
        (if \<exists>old \<in> rows w. c old r
         then rows w' = (\<lambda>x. if c x r then u x r else x) ` rows w
         else rows w' = insert r' (rows w)))"

definition read_ok :: "('w \<Rightarrow> 'r set) \<Rightarrow> ('w, 'r) table \<Rightarrow> bool" where
  "read_ok rows tb \<longleftrightarrow>
     (\<forall>P w r w'. tb_First tb P w = (r, w') \<longrightarrow> rows w' = rows w) \<and>
     (\<forall>P w r w'. tb_First tb P w = (Inr r, w') \<longrightarrow> r \<in> rows w \<and> P r) \<and>
     (\<forall>P w e w'. tb_First tb P w = (Inl e, w') \<longrightarrow> e \<noteq> ErrNotFound) \<and>
     (\<forall>P w w'. tb_First tb P w = (Inl ErrRecordNotFound, w') \<longrightarrow> (\<forall>r \<in> rows w. \<not> P r)) \<and>
     (\<forall>P ord w r w'. tb_Find tb P ord w = (r, w') \<longrightarrow> rows w' = rows w) \<and>
     (\<forall>P ord w rs w'. tb_Find tb P ord w = (Inr rs, w') \<longrightarrow> set rs = {r \<in> rows w. P r})"

definition write_ok :: "('r \<Rightarrow> 'k) \<Rightarrow> ('r \<Rightarrow> 'c) \<Rightarrow> ('w \<Rightarrow> 'r set) \<Rightarrow> ('w, 'r) table \<Rightarrow> bool" where
  "write_ok key core rows tb \<longleftrightarrow>
     (\<forall>r w e w'. tb_Save tb r w = (Inl e, w') \<longrightarrow> rows w' = rows w) \<and>
     (\<forall>r w r' w'. tb_Save tb r w = (Inr r', w') \<longrightarrow>
        key r' = key r \<and> core r' = core r \<and> rows w' = insert r' {x \<in> rows w. key x \<noteq> key r}) \<and>
     (\<forall>P w e w'. tb_Delete tb P w = (Inl e, w') \<longrightarrow> rows w' = rows w) \<and>
     (\<forall>P w n w'. tb_Delete tb P w = (Inr n, w') \<longrightarrow>
        rows w' = {x \<in> rows w. \<not> P x} \<and> (n = 0 \<longleftrightarrow> (\<forall>x \<in> rows w. \<not> P x)))"

definition table_ok :: "('r \<Rightarrow> 'k) \<Rightarrow> ('r \<Rightarrow> 'c) \<Rightarrow> ('w \<Rightarrow> 'r set) \<Rightarrow> ('w, 'r) table \<Rightarrow> bool" where
  "table_ok key core rows tb \<longleftrightarrow>
     create_ok key core rows tb \<and> upsert_ok core rows tb \<and> read_ok rows tb \<and> write_ok key core rows tb"

text \<open>
  The lookup every \<open>Get\<close> of the package makes: the first row, or \<open>domain.ErrNotFound\<close> for
  gorm's own error.
\<close>

definition first_row :: "('w, 'r) table \<Rightarrow> ('r \<Rightarrow> bool) \<Rightarrow> ('w, 'r) io" where
  "first_row tb P =
     attempt (tb_First tb P)
       (\<lambda>res. case res of
          Inr m \<Rightarrow> return_ok m
        | Inl err \<Rightarrow> if err = ErrRecordNotFound then return_err ErrNotFound else return_err err)"

definition delete_rows :: "('w, 'r) table \<Rightarrow> ('r \<Rightarrow> bool) \<Rightarrow> ('w, unit) io" where
  "delete_rows tb P =
     andThen (tb_Delete tb P) (\<lambda>affected. if affected = 0 then return_err ErrNotFound else return_ok ())"

section \<open>Users\<close>

record userRow =
  um_ID :: string
  um_ExternalUserID :: string
  um_Status :: string
  um_CreatedAt :: timestamp
  um_UpdatedAt :: timestamp

definition toDomainUser :: "userRow \<Rightarrow> user" where
  "toDomainUser m = \<lparr>user_ID = um_ID m, user_ExternalUserID = um_ExternalUserID m, user_Status = um_Status m,
     user_CreatedAt = um_CreatedAt m, user_UpdatedAt = um_UpdatedAt m\<rparr>"

definition user_FindOrCreate :: "'w goenv \<Rightarrow> ('w, userRow) table \<Rightarrow> string \<Rightarrow> ('w, user) io" where
  "user_FindOrCreate env tb externalUserID =
     attempt (tb_First tb (\<lambda>m. um_ExternalUserID m = externalUserID))
       (\<lambda>res. case res of
          Inr m \<Rightarrow> return_ok (toDomainUser m)
        | Inl err \<Rightarrow>
            if err \<noteq> ErrRecordNotFound then return_err err
            else andThen (time_now env) (\<lambda>now.
                 andThen (fresh_id env ''usr'') (\<lambda>i.
                 andThen (tb_Create tb \<lparr>um_ID = i, um_ExternalUserID = externalUserID, um_Status = ''active'',
                                        um_CreatedAt = Some now, um_UpdatedAt = Some now\<rparr>) (\<lambda>m.
                 return_ok (toDomainUser m)))))"

definition UserRepository :: "'w goenv \<Rightarrow> ('w, userRow) table \<Rightarrow> 'w userRepository" where
  "UserRepository env tb = \<lparr>ur_FindOrCreateByExternalUserID = user_FindOrCreate env tb\<rparr>"

section \<open>Bots\<close>

record botRow =
  bm_ID :: string
  bm_UserID :: string
  bm_Name :: string
  bm_Type :: string
  bm_ChannelType :: string
  bm_ChannelAccountID :: string
  bm_ConnectionStatus :: string
  bm_ConnectionError :: string
  bm_AgentCapabilityID :: string
  bm_AgentMode :: string
  bm_Role :: string
  bm_CLIAlias :: string
  bm_Workspace :: string
  bm_SystemPrompt :: string
  bm_AgentEnv :: strmap
  bm_LastConnectedAt :: timestamp
  bm_CreatedAt :: timestamp
  bm_UpdatedAt :: timestamp

definition toDomainBot :: "botRow \<Rightarrow> bot" where
  "toDomainBot m =
     \<lparr>bot_ID = bm_ID m, bot_UserID = bm_UserID m, bot_Name = bm_Name m, bot_Type = bm_Type m,
      bot_ChannelType = bm_ChannelType m, bot_ChannelAccountID = bm_ChannelAccountID m,
      bot_ConnectionStatus = bm_ConnectionStatus m, bot_ConnectionError = bm_ConnectionError m,
      bot_AgentCapabilityID = bm_AgentCapabilityID m, bot_AgentMode = bm_AgentMode m, bot_Role = bm_Role m,
      bot_CLIAlias = bm_CLIAlias m, bot_Workspace = bm_Workspace m, bot_SystemPrompt = bm_SystemPrompt m,
      bot_AgentEnv = bm_AgentEnv m, bot_LastConnectedAt = bm_LastConnectedAt m,
      bot_CreatedAt = bm_CreatedAt m, bot_UpdatedAt = bm_UpdatedAt m\<rparr>"

text \<open>The literal \<open>models.Bot{...}\<close> of \<open>Create\<close> and \<open>Update\<close>, which differ in the timestamps.\<close>

definition bot_row :: "bot \<Rightarrow> timestamp \<Rightarrow> timestamp \<Rightarrow> botRow" where
  "bot_row b created updated =
     \<lparr>bm_ID = bot_ID b, bm_UserID = bot_UserID b, bm_Name = bot_Name b, bm_Type = bot_Type b,
      bm_ChannelType = bot_ChannelType b, bm_ChannelAccountID = bot_ChannelAccountID b,
      bm_ConnectionStatus = bot_ConnectionStatus b, bm_ConnectionError = bot_ConnectionError b,
      bm_AgentCapabilityID = bot_AgentCapabilityID b, bm_AgentMode = bot_AgentMode b, bm_Role = bot_Role b,
      bm_CLIAlias = bot_CLIAlias b, bm_Workspace = bot_Workspace b, bm_SystemPrompt = bot_SystemPrompt b,
      bm_AgentEnv = bot_AgentEnv b, bm_LastConnectedAt = bot_LastConnectedAt b,
      bm_CreatedAt = created, bm_UpdatedAt = updated\<rparr>"

definition bots_Create :: "'w goenv \<Rightarrow> ('w, botRow) table \<Rightarrow> bot \<Rightarrow> ('w, bot) io" where
  "bots_Create env tb b =
     andThen (time_now env) (\<lambda>now.
     andThen (tb_Create tb (bot_row b (Some now) (Some now))) (\<lambda>m. return_ok (toDomainBot m)))"

definition bots_GetByID :: "('w, botRow) table \<Rightarrow> string \<Rightarrow> ('w, bot) io" where
  "bots_GetByID tb i = andThen (first_row tb (\<lambda>m. bm_ID m = i)) (\<lambda>m. return_ok (toDomainBot m))"

definition bots_GetByName :: "('w, botRow) table \<Rightarrow> string \<Rightarrow> ('w, bot) io" where
  "bots_GetByName tb n = andThen (first_row tb (\<lambda>m. bm_Name m = n)) (\<lambda>m. return_ok (toDomainBot m))"

definition bots_ListByUserID :: "('w, botRow) table \<Rightarrow> string \<Rightarrow> ('w, bot list) io" where
  "bots_ListByUserID tb userID =
     andThen (tb_Find tb (\<lambda>m. bm_UserID m = userID) ''created_at desc'') (\<lambda>rows. return_ok (map toDomainBot rows))"

definition bots_ListWithAccounts :: "('w, botRow) table \<Rightarrow> ('w, bot list) io" where
  "bots_ListWithAccounts tb =
     andThen (tb_Find tb (\<lambda>m. bm_ChannelAccountID m \<noteq> []) ''created_at desc'') (\<lambda>rows. return_ok (map toDomainBot rows))"

definition bots_Update :: "'w goenv \<Rightarrow> ('w, botRow) table \<Rightarrow> bot \<Rightarrow> ('w, bot) io" where
  "bots_Update env tb b =
     andThen (time_now env) (\<lambda>now.
     andThen (tb_Save tb (bot_row b (bot_CreatedAt b) (Some now))) (\<lambda>m. return_ok (toDomainBot m)))"

definition bots_DeleteByID :: "('w, botRow) table \<Rightarrow> string \<Rightarrow> ('w, unit) io" where
  "bots_DeleteByID tb i = delete_rows tb (\<lambda>m. bm_ID m = i)"

definition BotRepository :: "'w goenv \<Rightarrow> ('w, botRow) table \<Rightarrow> 'w botRepository" where
  "BotRepository env tb =
     \<lparr>br_Create = bots_Create env tb, br_GetByID = bots_GetByID tb, br_GetByName = bots_GetByName tb,
      br_ListByUserID = bots_ListByUserID tb, br_ListWithAccounts = bots_ListWithAccounts tb,
      br_Update = bots_Update env tb, br_DeleteByID = bots_DeleteByID tb\<rparr>"

section \<open>Channel accounts\<close>

record channelAccountRow =
  cam_ID :: string
  cam_UserID :: string
  cam_ChannelType :: string
  cam_AccountUID :: string
  cam_DisplayName :: string
  cam_AvatarURL :: string
  cam_CredentialCiphertext :: string
  cam_CredentialVersion :: int
  cam_LastBoundAt :: timestamp
  cam_CreatedAt :: timestamp
  cam_UpdatedAt :: timestamp

definition toDomainChannelAccount :: "channelAccountRow \<Rightarrow> channelAccount" where
  "toDomainChannelAccount m =
     \<lparr>ca_ID = cam_ID m, ca_UserID = cam_UserID m, ca_ChannelType = cam_ChannelType m, ca_AccountUID = cam_AccountUID m,
      ca_DisplayName = cam_DisplayName m, ca_AvatarURL = cam_AvatarURL m,
      ca_CredentialCiphertext = cam_CredentialCiphertext m, ca_CredentialVersion = cam_CredentialVersion m,
      ca_LastBoundAt = cam_LastBoundAt m, ca_CreatedAt = cam_CreatedAt m, ca_UpdatedAt = cam_UpdatedAt m\<rparr>"

definition account_row :: "channelAccount \<Rightarrow> timestamp \<Rightarrow> channelAccountRow" where
  "account_row a now =
     \<lparr>cam_ID = ca_ID a, cam_UserID = ca_UserID a, cam_ChannelType = ca_ChannelType a, cam_AccountUID = ca_AccountUID a,
      cam_DisplayName = ca_DisplayName a, cam_AvatarURL = ca_AvatarURL a,
      cam_CredentialCiphertext = ca_CredentialCiphertext a, cam_CredentialVersion = ca_CredentialVersion a,
      cam_LastBoundAt = ca_LastBoundAt a, cam_CreatedAt = now, cam_UpdatedAt = now\<rparr>"

text \<open>The conflict columns and the assignments of the upsert.\<close>

definition account_conflict :: "channelAccountRow \<Rightarrow> channelAccountRow \<Rightarrow> bool" where
  "account_conflict old new \<longleftrightarrow>
     cam_UserID old = cam_UserID new \<and> cam_ChannelType old = cam_ChannelType new \<and> cam_AccountUID old = cam_AccountUID new"

definition account_assign :: "channelAccountRow \<Rightarrow> channelAccountRow \<Rightarrow> channelAccountRow" where
  "account_assign old new =
     old\<lparr>cam_DisplayName := cam_DisplayName new, cam_AvatarURL := cam_AvatarURL new,
         cam_CredentialCiphertext := cam_CredentialCiphertext new, cam_CredentialVersion := cam_CredentialVersion new,
         cam_LastBoundAt := cam_LastBoundAt new, cam_UpdatedAt := cam_UpdatedAt new\<rparr>"

definition accounts_Upsert :: "'w goenv \<Rightarrow> ('w, channelAccountRow) table \<Rightarrow> channelAccount \<Rightarrow> ('w, channelAccount) io" where
  "accounts_Upsert env tb a =
     andThen (time_now env) (\<lambda>now.
     andThen (tb_CreateOnConflict tb account_conflict account_assign (account_row a (Some now))) (\<lambda>m.
     andThen (tb_First tb (\<lambda>m. cam_UserID m = ca_UserID a \<and> cam_ChannelType m = ca_ChannelType a \<and> cam_AccountUID m = ca_AccountUID a)) (\<lambda>result.
     return_ok (toDomainChannelAccount result))))"

definition accounts_GetByID :: "('w, channelAccountRow) table \<Rightarrow> string \<Rightarrow> ('w, channelAccount) io" where
  "accounts_GetByID tb i = andThen (first_row tb (\<lambda>m. cam_ID m = i)) (\<lambda>m. return_ok (toDomainChannelAccount m))"

definition accounts_ListByUserID :: "('w, channelAccountRow) table \<Rightarrow> string \<Rightarrow> string \<Rightarrow> ('w, channelAccount list) io" where
  "accounts_ListByUserID tb userID channelType =
     andThen (tb_Find tb (\<lambda>m. cam_UserID m = userID \<and> (channelType \<noteq> [] \<longrightarrow> cam_ChannelType m = channelType)) [])
       (\<lambda>ms. return_ok (map toDomainChannelAccount ms))"

definition ChannelAccountRepository :: "'w goenv \<Rightarrow> ('w, channelAccountRow) table \<Rightarrow> 'w channelAccountRepository" where
  "ChannelAccountRepository env tb =
     \<lparr>car_Upsert = accounts_Upsert env tb, car_GetByID = accounts_GetByID tb, car_ListByUserID = accounts_ListByUserID tb\<rparr>"

section \<open>Channel bindings\<close>

record channelBindingRow =
  cbm_ID :: string
  cbm_BotID :: string
  cbm_UserID :: string
  cbm_ChannelType :: string
  cbm_Status :: string
  cbm_ProviderBindingRef :: string
  cbm_QRCodePayload :: string
  cbm_ExpiresAt :: timestamp
  cbm_ErrorMessage :: string
  cbm_ChannelAccountID :: string
  cbm_CreatedAt :: timestamp
  cbm_UpdatedAt :: timestamp
  cbm_FinishedAt :: timestamp

definition toDomainChannelBinding :: "channelBindingRow \<Rightarrow> channelBinding" where
  "toDomainChannelBinding m =
     \<lparr>cb_ID = cbm_ID m, cb_BotID = cbm_BotID m, cb_UserID = cbm_UserID m, cb_ChannelType = cbm_ChannelType m,
      cb_Status = cbm_Status m, cb_ProviderBindingRef = cbm_ProviderBindingRef m, cb_QRCodePayload = cbm_QRCodePayload m,
      cb_ExpiresAt = cbm_ExpiresAt m, cb_ErrorMessage = cbm_ErrorMessage m, cb_ChannelAccountID = cbm_ChannelAccountID m,
      cb_CreatedAt = cbm_CreatedAt m, cb_UpdatedAt = cbm_UpdatedAt m, cb_FinishedAt = cbm_FinishedAt m\<rparr>"

text \<open>\<open>Create\<close> leaves \<open>FinishedAt\<close> out of the row, \<open>Update\<close> stores it.\<close>

definition bindings_Create :: "'w goenv \<Rightarrow> ('w, channelBindingRow) table \<Rightarrow> channelBinding \<Rightarrow> ('w, channelBinding) io" where
  "bindings_Create env tb b =
     andThen (time_now env) (\<lambda>now.
     andThen (tb_Create tb
       \<lparr>cbm_ID = cb_ID b, cbm_BotID = cb_BotID b, cbm_UserID = cb_UserID b, cbm_ChannelType = cb_ChannelType b,
        cbm_Status = cb_Status b, cbm_ProviderBindingRef = cb_ProviderBindingRef b, cbm_QRCodePayload = cb_QRCodePayload b,
        cbm_ExpiresAt = cb_ExpiresAt b, cbm_ErrorMessage = cb_ErrorMessage b, cbm_ChannelAccountID = cb_ChannelAccountID b,
        cbm_CreatedAt = Some now, cbm_UpdatedAt = Some now, cbm_FinishedAt = None\<rparr>) (\<lambda>m.
     return_ok (toDomainChannelBinding m)))"

definition bindings_GetByID :: "('w, channelBindingRow) table \<Rightarrow> string \<Rightarrow> ('w, channelBinding) io" where
  "bindings_GetByID tb i = andThen (first_row tb (\<lambda>m. cbm_ID m = i)) (\<lambda>m. return_ok (toDomainChannelBinding m))"

definition bindings_Update :: "'w goenv \<Rightarrow> ('w, channelBindingRow) table \<Rightarrow> channelBinding \<Rightarrow> ('w, channelBinding) io" where
  "bindings_Update env tb b =
     andThen (time_now env) (\<lambda>now.
     andThen (tb_Save tb
       \<lparr>cbm_ID = cb_ID b, cbm_BotID = cb_BotID b, cbm_UserID = cb_UserID b, cbm_ChannelType = cb_ChannelType b,
        cbm_Status = cb_Status b, cbm_ProviderBindingRef = cb_ProviderBindingRef b, cbm_QRCodePayload = cb_QRCodePayload b,
        cbm_ExpiresAt = cb_ExpiresAt b, cbm_ErrorMessage = cb_ErrorMessage b, cbm_ChannelAccountID = cb_ChannelAccountID b,
        cbm_CreatedAt = cb_CreatedAt b, cbm_UpdatedAt = Some now, cbm_FinishedAt = cb_FinishedAt b\<rparr>) (\<lambda>m.
     return_ok (toDomainChannelBinding m)))"

text \<open>No error when the bot has no binding: the number of rows is not looked at.\<close>

definition bindings_DeleteByBotID :: "('w, channelBindingRow) table \<Rightarrow> string \<Rightarrow> ('w, unit) io" where
  "bindings_DeleteByBotID tb botID = andThen (tb_Delete tb (\<lambda>m. cbm_BotID m = botID)) (\<lambda>_. return_ok ())"

definition ChannelBindingRepository :: "'w goenv \<Rightarrow> ('w, channelBindingRow) table \<Rightarrow> 'w channelBindingRepository" where
  "ChannelBindingRepository env tb =
     \<lparr>cbrepo_Create = bindings_Create env tb, cbrepo_GetByID = bindings_GetByID tb,
      cbrepo_Update = bindings_Update env tb, cbrepo_DeleteByBotID = bindings_DeleteByBotID tb\<rparr>"

section \<open>Agent capabilities\<close>

record agentCapabilityRow =
  acm_ID :: string
  acm_Key :: string
  acm_Label :: string
  acm_Command :: string
  acm_ArgsJSON :: string
  acm_SupportedModesJSON :: string
  acm_Available :: bool
  acm_DetectionSource :: string
  acm_LastDetectedAt :: timestamp
  acm_CreatedAt :: timestamp
  acm_UpdatedAt :: timestamp

text \<open>An empty slice of the domain is the nil slice, which is what the source builds.\<close>

definition slice_of :: "string list \<Rightarrow> string list option" where
  "slice_of xs = (if xs = [] then None else Some xs)"

definition elements_of :: "string list option \<Rightarrow> string list" where
  "elements_of s = (case s of None \<Rightarrow> [] | Some xs \<Rightarrow> xs)"

definition toDomainAgentCapability :: "agentCapabilityRow \<Rightarrow> goerr + agentCapability" where
  "toDomainAgentCapability m =
     (case unmarshal_strings (acm_ArgsJSON m) of
        (_, Some err) \<Rightarrow> Inl err
      | (args, None) \<Rightarrow>
          (case unmarshal_strings (acm_SupportedModesJSON m) of
             (_, Some err) \<Rightarrow> Inl err
           | (supportedModes, None) \<Rightarrow>
               Inr \<lparr>ac_ID = acm_ID m, ac_Key = acm_Key m, ac_Label = acm_Label m, ac_Command = acm_Command m,
                    ac_Args = elements_of args, ac_SupportedModes = elements_of supportedModes,
                    ac_Available = acm_Available m, ac_DetectionSource = acm_DetectionSource m,
                    ac_LastDetectedAt = acm_LastDetectedAt m, ac_CreatedAt = acm_CreatedAt m,
                    ac_UpdatedAt = acm_UpdatedAt m\<rparr>))"

definition capability_row :: "agentCapability \<Rightarrow> timestamp \<Rightarrow> agentCapabilityRow" where
  "capability_row c now =
     \<lparr>acm_ID = ac_ID c, acm_Key = ac_Key c, acm_Label = ac_Label c, acm_Command = ac_Command c,
      acm_ArgsJSON = marshal_strings (slice_of (ac_Args c)),
      acm_SupportedModesJSON = marshal_strings (slice_of (ac_SupportedModes c)),
      acm_Available = ac_Available c, acm_DetectionSource = ac_DetectionSource c,
      acm_LastDetectedAt = ac_LastDetectedAt c, acm_CreatedAt = now, acm_UpdatedAt = now\<rparr>"

definition capability_assign :: "agentCapabilityRow \<Rightarrow> agentCapabilityRow \<Rightarrow> agentCapabilityRow" where
  "capability_assign old new =
     old\<lparr>acm_Label := acm_Label new, acm_Command := acm_Command new, acm_ArgsJSON := acm_ArgsJSON new,
         acm_SupportedModesJSON := acm_SupportedModesJSON new, acm_Available := acm_Available new,
         acm_DetectionSource := acm_DetectionSource new, acm_LastDetectedAt := acm_LastDetectedAt new,
         acm_UpdatedAt := acm_UpdatedAt new\<rparr>"

definition capabilities_GetByID :: "('w, agentCapabilityRow) table \<Rightarrow> string \<Rightarrow> ('w, agentCapability) io" where
  "capabilities_GetByID tb i = andThen (first_row tb (\<lambda>m. acm_ID m = i)) (\<lambda>m. lift_sum (toDomainAgentCapability m))"

definition capabilities_GetByKey :: "('w, agentCapabilityRow) table \<Rightarrow> string \<Rightarrow> ('w, agentCapability) io" where
  "capabilities_GetByKey tb k = andThen (first_row tb (\<lambda>m. acm_Key m = k)) (\<lambda>m. lift_sum (toDomainAgentCapability m))"

definition capabilities_Upsert :: "'w goenv \<Rightarrow> ('w, agentCapabilityRow) table \<Rightarrow> agentCapability \<Rightarrow> ('w, agentCapability) io" where
  "capabilities_Upsert env tb c =
     andThen (time_now env) (\<lambda>now.
     andThen (tb_CreateOnConflict tb (\<lambda>old new. acm_Key old = acm_Key new) capability_assign (capability_row c (Some now))) (\<lambda>_.
     capabilities_GetByKey tb (ac_Key c)))"

definition capabilities_List :: "('w, agentCapabilityRow) table \<Rightarrow> ('w, agentCapability list) io" where
  "capabilities_List tb =
     andThen (tb_Find tb (\<lambda>_. True) ''key asc'') (\<lambda>rows. for_each (\<lambda>row. lift_sum (toDomainAgentCapability row)) rows)"

definition AgentCapabilityRepository :: "'w goenv \<Rightarrow> ('w, agentCapabilityRow) table \<Rightarrow> 'w agentCapabilityRepository" where
  "AgentCapabilityRepository env tb =
     \<lparr>acr_Upsert = capabilities_Upsert env tb, acr_GetByID = capabilities_GetByID tb,
      acr_GetByKey = capabilities_GetByKey tb, acr_List = capabilities_List tb\<rparr>"

section \<open>Registered agents\<close>

record registeredAgentRow =
  ram_ID :: string
  ram_Name :: string
  ram_Description :: string
  ram_Kind :: string
  ram_BotID :: string
  ram_Endpoint :: string
  ram_AuthToken :: string
  ram_Health :: string
  ram_LastHeartbeatAt :: timestamp
  ram_CreatedAt :: timestamp
  ram_UpdatedAt :: timestamp

definition toDomainRegisteredAgent :: "registeredAgentRow \<Rightarrow> registeredAgent" where
  "toDomainRegisteredAgent m =
     \<lparr>ra_ID = ram_ID m, ra_Name = ram_Name m, ra_Description = ram_Description m, ra_Kind = ram_Kind m,
      ra_BotID = ram_BotID m, ra_Endpoint = ram_Endpoint m, ra_AuthToken = ram_AuthToken m, ra_Health = ram_Health m,
      ra_LastHeartbeat = ram_LastHeartbeatAt m, ra_CreatedAt = ram_CreatedAt m, ra_UpdatedAt = ram_UpdatedAt m\<rparr>"

definition agent_row :: "registeredAgent \<Rightarrow> timestamp \<Rightarrow> registeredAgentRow" where
  "agent_row a now =
     \<lparr>ram_ID = ra_ID a, ram_Name = ra_Name a, ram_Description = ra_Description a, ram_Kind = ra_Kind a,
      ram_BotID = ra_BotID a, ram_Endpoint = ra_Endpoint a, ram_AuthToken = ra_AuthToken a, ram_Health = ra_Health a,
      ram_LastHeartbeatAt = ra_LastHeartbeat a, ram_CreatedAt = now, ram_UpdatedAt = now\<rparr>"

definition agent_assign :: "registeredAgentRow \<Rightarrow> registeredAgentRow \<Rightarrow> registeredAgentRow" where
  "agent_assign old new =
     old\<lparr>ram_Description := ram_Description new, ram_Kind := ram_Kind new, ram_BotID := ram_BotID new,
         ram_Endpoint := ram_Endpoint new, ram_AuthToken := ram_AuthToken new, ram_Health := ram_Health new,
         ram_LastHeartbeatAt := ram_LastHeartbeatAt new, ram_UpdatedAt := ram_UpdatedAt new\<rparr>"

definition agents_GetByID :: "('w, registeredAgentRow) table \<Rightarrow> string \<Rightarrow> ('w, registeredAgent) io" where
  "agents_GetByID tb i = andThen (first_row tb (\<lambda>m. ram_ID m = i)) (\<lambda>m. return_ok (toDomainRegisteredAgent m))"

definition agents_GetByName :: "('w, registeredAgentRow) table \<Rightarrow> string \<Rightarrow> ('w, registeredAgent) io" where
  "agents_GetByName tb n = andThen (first_row tb (\<lambda>m. ram_Name m = n)) (\<lambda>m. return_ok (toDomainRegisteredAgent m))"

definition agents_Upsert :: "'w goenv \<Rightarrow> ('w, registeredAgentRow) table \<Rightarrow> registeredAgent \<Rightarrow> ('w, registeredAgent) io" where
  "agents_Upsert env tb a =
     andThen (time_now env) (\<lambda>now.
     andThen (tb_CreateOnConflict tb (\<lambda>old new. ram_Name old = ram_Name new) agent_assign (agent_row a (Some now))) (\<lambda>_.
     agents_GetByName tb (ra_Name a)))"

definition agents_List :: "('w, registeredAgentRow) table \<Rightarrow> ('w, registeredAgent list) io" where
  "agents_List tb = andThen (tb_Find tb (\<lambda>_. True) ''name asc'') (\<lambda>rows. return_ok (map toDomainRegisteredAgent rows))"

definition agents_DeleteByID :: "('w, registeredAgentRow) table \<Rightarrow> string \<Rightarrow> ('w, unit) io" where
  "agents_DeleteByID tb i = delete_rows tb (\<lambda>m. ram_ID m = i)"

definition RegisteredAgentRepository :: "'w goenv \<Rightarrow> ('w, registeredAgentRow) table \<Rightarrow> 'w registeredAgentRepository" where
  "RegisteredAgentRepository env tb =
     \<lparr>rar_Upsert = agents_Upsert env tb, rar_GetByID = agents_GetByID tb, rar_GetByName = agents_GetByName tb,
      rar_List = agents_List tb, rar_DeleteByID = agents_DeleteByID tb\<rparr>"

section \<open>CLI sessions\<close>

record botCLISessionRow =
  bsm_BotID :: string
  bsm_CLIType :: string
  bsm_SessionID :: string
  bsm_WorkDir :: string
  bsm_UpdatedAt :: timestamp

definition sessions_Upsert :: "'w goenv \<Rightarrow> ('w, botCLISessionRow) table \<Rightarrow> botCLISession \<Rightarrow> ('w, unit) io" where
  "sessions_Upsert env tb s =
     andThen (time_now env) (\<lambda>now.
     andThen (tb_CreateOnConflict tb (\<lambda>old new. bsm_BotID old = bsm_BotID new \<and> bsm_CLIType old = bsm_CLIType new)
               (\<lambda>old new. old\<lparr>bsm_SessionID := bsm_SessionID new, bsm_WorkDir := bsm_WorkDir new, bsm_UpdatedAt := bsm_UpdatedAt new\<rparr>)
               \<lparr>bsm_BotID = bcs_BotID s, bsm_CLIType = bcs_CLIType s, bsm_SessionID = bcs_SessionID s,
                bsm_WorkDir = bcs_WorkDir s, bsm_UpdatedAt = Some now\<rparr>) (\<lambda>_.
     return_ok ()))"

definition sessions_Get :: "('w, botCLISessionRow) table \<Rightarrow> string \<Rightarrow> string \<Rightarrow> ('w, botCLISession) io" where
  "sessions_Get tb botID cliType =
     andThen (first_row tb (\<lambda>m. bsm_BotID m = botID \<and> bsm_CLIType m = cliType)) (\<lambda>m.
     return_ok \<lparr>bcs_BotID = bsm_BotID m, bcs_CLIType = bsm_CLIType m, bcs_SessionID = bsm_SessionID m,
                bcs_WorkDir = bsm_WorkDir m, bcs_UpdatedAt = bsm_UpdatedAt m\<rparr>)"

definition BotCLISessionRepository :: "'w goenv \<Rightarrow> ('w, botCLISessionRow) table \<Rightarrow> 'w botCLISessionRepository" where
  "BotCLISessionRepository env tb = \<lparr>bsr_Upsert = sessions_Upsert env tb, bsr_Get = sessions_Get tb\<rparr>"

section \<open>MCP servers and their attachments to bots\<close>

record mcpServerRow =
  mm_ID :: string
  mm_Name :: string
  mm_ServerType :: string
  mm_URL :: string
  mm_Command :: string
  mm_ArgsJSON :: string
  mm_Enabled :: "bool option"
  mm_CreatedAt :: timestamp
  mm_UpdatedAt :: timestamp

record botMCPServerRow =
  bmm_BotID :: string
  bmm_MCPServerID :: string
  bmm_CreatedAt :: timestamp

text \<open>
  The two tables, the select over their join (the predicate is its \<open>ON\<close> and \<open>WHERE\<close>
  clauses), and the transaction, which runs its argument and rolls back when that fails.
\<close>

record 'w mcpDB =
  md_servers :: "('w, mcpServerRow) table"
  md_links :: "('w, botMCPServerRow) table"
  md_FindJoined :: "(mcpServerRow \<Rightarrow> botMCPServerRow \<Rightarrow> bool) \<Rightarrow> string \<Rightarrow> ('w, mcpServerRow list) io"
  md_Transaction :: "('w, unit) io \<Rightarrow> ('w, unit) io"

definition toModelMCPServer :: "mcpServer \<Rightarrow> mcpServerRow" where
  "toModelMCPServer s =
     \<lparr>mm_ID = ms_ID s, mm_Name = ms_Name s, mm_ServerType = ms_ServerType s, mm_URL = ms_URL s,
      mm_Command = ms_Command s,
      mm_ArgsJSON = (if ms_Args s \<noteq> [] then marshal_strings (Some (ms_Args s)) else ''[]''),
      mm_Enabled = Some (ms_Enabled s), mm_CreatedAt = None, mm_UpdatedAt = None\<rparr>"

definition toDomainMCPServer :: "mcpServerRow \<Rightarrow> mcpServer" where
  "toDomainMCPServer m =
     \<lparr>ms_ID = mm_ID m, ms_Name = mm_Name m, ms_ServerType = mm_ServerType m, ms_URL = mm_URL m,
      ms_Command = mm_Command m,
      ms_Args = (if mm_ArgsJSON m \<noteq> [] \<and> mm_ArgsJSON m \<noteq> ''[]'' then elements_of (fst (unmarshal_strings (mm_ArgsJSON m))) else []),
      ms_Enabled = (case mm_Enabled m of Some e \<Rightarrow> e | None \<Rightarrow> True),
      ms_CreatedAt = mm_CreatedAt m, ms_UpdatedAt = mm_UpdatedAt m\<rparr>"

definition mcp_first :: "'w mcpDB \<Rightarrow> (mcpServerRow \<Rightarrow> bool) \<Rightarrow> ('w, mcpServer) io" where
  "mcp_first db P = andThen (first_row (md_servers db) P) (\<lambda>m. return_ok (toDomainMCPServer m))"

definition mcp_Create :: "'w goenv \<Rightarrow> 'w mcpDB \<Rightarrow> mcpServer \<Rightarrow> ('w, mcpServer) io" where
  "mcp_Create env db s =
     andThen (time_now env) (\<lambda>now.
     andThen (tb_Create (md_servers db) ((toModelMCPServer s)\<lparr>mm_CreatedAt := Some now, mm_UpdatedAt := Some now\<rparr>)) (\<lambda>m.
     return_ok (toDomainMCPServer m)))"

definition mcp_GetByID :: "'w mcpDB \<Rightarrow> string \<Rightarrow> ('w, mcpServer) io" where
  "mcp_GetByID db i = mcp_first db (\<lambda>m. mm_ID m = i)"

definition mcp_GetByName :: "'w mcpDB \<Rightarrow> string \<Rightarrow> ('w, mcpServer) io" where
  "mcp_GetByName db n = mcp_first db (\<lambda>m. mm_Name m = n)"

definition mcp_List :: "'w mcpDB \<Rightarrow> ('w, mcpServer list) io" where
  "mcp_List db = andThen (tb_Find (md_servers db) (\<lambda>_. True) ''name asc'') (\<lambda>rows. return_ok (map toDomainMCPServer rows))"

definition mcp_Update :: "'w goenv \<Rightarrow> 'w mcpDB \<Rightarrow> mcpServer \<Rightarrow> ('w, mcpServer) io" where
  "mcp_Update env db s =
     andThen (time_now env) (\<lambda>now.
     let m = (toModelMCPServer s)\<lparr>mm_UpdatedAt := Some now\<rparr> in
     andThen (tb_Updates (md_servers db) (\<lambda>row. mm_ID row = ms_ID s)
       (\<lambda>row. row\<lparr>mm_Name := mm_Name m, mm_ServerType := mm_ServerType m, mm_URL := mm_URL m, mm_Command := mm_Command m,
                  mm_ArgsJSON := mm_ArgsJSON m, mm_Enabled := mm_Enabled m, mm_UpdatedAt := mm_UpdatedAt m\<rparr>)) (\<lambda>_.
     mcp_GetByID db (ms_ID s)))"

definition mcp_DeleteByID :: "'w mcpDB \<Rightarrow> string \<Rightarrow> ('w, unit) io" where
  "mcp_DeleteByID db i =
     md_Transaction db
       (andThen (tb_Delete (md_links db) (\<lambda>l. bmm_MCPServerID l = i)) (\<lambda>_.
        delete_rows (md_servers db) (\<lambda>m. mm_ID m = i)))"

definition mcp_listJoined :: "'w mcpDB \<Rightarrow> string \<Rightarrow> bool \<Rightarrow> ('w, mcpServer list) io" where
  "mcp_listJoined db botID onlyEnabled =
     andThen (md_FindJoined db
       (\<lambda>m bms. bmm_MCPServerID bms = mm_ID m \<and> bmm_BotID bms = botID \<and> (onlyEnabled \<longrightarrow> mm_Enabled m = Some True))
       ''mcp_servers.name asc'') (\<lambda>rows.
     return_ok (map toDomainMCPServer rows))"

definition mcp_ListByBot :: "'w mcpDB \<Rightarrow> string \<Rightarrow> ('w, mcpServer list) io" where
  "mcp_ListByBot db botID = mcp_listJoined db botID False"

definition mcp_ListEnabledByBot :: "'w mcpDB \<Rightarrow> string \<Rightarrow> ('w, mcpServer list) io" where
  "mcp_ListEnabledByBot db botID = mcp_listJoined db botID True"

definition mcp_AttachToBot :: "'w goenv \<Rightarrow> 'w mcpDB \<Rightarrow> string \<Rightarrow> string \<Rightarrow> ('w, unit) io" where
  "mcp_AttachToBot env db botID serverID =
     andThen (time_now env) (\<lambda>now.
     andThen (tb_CreateOnConflict (md_links db)
       (\<lambda>old new. bmm_BotID old = bmm_BotID new \<and> bmm_MCPServerID old = bmm_MCPServerID new) (\<lambda>old new. old)
       \<lparr>bmm_BotID = botID, bmm_MCPServerID = serverID, bmm_CreatedAt = Some now\<rparr>) (\<lambda>_.
     return_ok ()))"

definition mcp_DetachFromBot :: "'w mcpDB \<Rightarrow> string \<Rightarrow> string \<Rightarrow> ('w, unit) io" where
  "mcp_DetachFromBot db botID serverID =
     andThen (tb_Delete (md_links db) (\<lambda>l. bmm_BotID l = botID \<and> bmm_MCPServerID l = serverID)) (\<lambda>_. return_ok ())"

text \<open>The loop of \<open>SetBotServers\<close>: empty and repeated ids are skipped.\<close>

fun link_servers :: "'w mcpDB \<Rightarrow> string \<Rightarrow> timestamp \<Rightarrow> string list \<Rightarrow> string list \<Rightarrow> ('w, unit) io" where
  "link_servers db botID now seen [] = return_ok ()"
| "link_servers db botID now seen (i # is) =
     (if i = [] \<or> List.member seen i then link_servers db botID now seen is
      else andThen (tb_Create (md_links db) \<lparr>bmm_BotID = botID, bmm_MCPServerID = i, bmm_CreatedAt = now\<rparr>) (\<lambda>_.
           link_servers db botID now (i # seen) is))"

definition mcp_SetBotServers :: "'w goenv \<Rightarrow> 'w mcpDB \<Rightarrow> string \<Rightarrow> string list \<Rightarrow> ('w, unit) io" where
  "mcp_SetBotServers env db botID serverIDs =
     andThen (time_now env) (\<lambda>now.
     md_Transaction db
       (andThen (tb_Delete (md_links db) (\<lambda>l. bmm_BotID l = botID)) (\<lambda>_.
        link_servers db botID (Some now) [] serverIDs)))"

definition MCPServerRepository :: "'w goenv \<Rightarrow> 'w mcpDB \<Rightarrow> 'w mcpServerRepository" where
  "MCPServerRepository env db =
     \<lparr>mcr_Create = mcp_Create env db, mcr_GetByID = mcp_GetByID db, mcr_GetByName = mcp_GetByName db,
      mcr_List = mcp_List db, mcr_Update = mcp_Update env db, mcr_DeleteByID = mcp_DeleteByID db,
      mcr_ListByBot = mcp_ListByBot db, mcr_ListEnabledByBot = mcp_ListEnabledByBot db,
      mcr_SetBotServers = mcp_SetBotServers env db, mcr_AttachToBot = mcp_AttachToBot env db,
      mcr_DetachFromBot = mcp_DetachFromBot db\<rparr>"

end
