(* ===== verification/StoreLaws.thy ===== *)
theory StoreLaws
  imports Store
begin

text \<open>
  What the repositories promise their clients.  The contract of an interface
  (\<open>bot_repo_ok\<close>, \<open>binding_repo_ok\<close>) speaks of the set of bots or bindings a database state
  holds; the repositories meet it whenever their table does what gorm documents.  \<open>mem_table\<close>
  is a table kept in a list, on which the contracts can be evaluated.
\<close>

section \<open>Tables kept in a list\<close>

definition unique_error :: goerr where
  "unique_error = errorf ''UNIQUE constraint failed''"

definition mem_table :: "('r \<Rightarrow> 'k) \<Rightarrow> ('w \<Rightarrow> 'r list) \<Rightarrow> ('r list \<Rightarrow> 'w \<Rightarrow> 'w) \<Rightarrow> ('w, 'r) table" where
  "mem_table key get put =
     \<lparr>tb_Create = (\<lambda>r w. if key r \<in> key ` set (get w) then (Inl unique_error, w) else (Inr r, put (get w @ [r]) w)),
      tb_CreateOnConflict = (\<lambda>c u r w. if list_ex (\<lambda>x. c x r) (get w)
          then (Inr r, put (map (\<lambda>x. if c x r then u x r else x) (get w)) w)
          else (Inr r, put (get w @ [r]) w)),
      tb_First = (\<lambda>P w. (case List.find P (get w) of None \<Rightarrow> Inl ErrRecordNotFound | Some r \<Rightarrow> Inr r, w)),
      tb_Find = (\<lambda>P _ w. (Inr (filter P (get w)), w)),
      tb_Save = (\<lambda>r w. (Inr r, put (filter (\<lambda>x. key x \<noteq> key r) (get w) @ [r]) w)),
      tb_Updates = (\<lambda>P u w. (Inr (length (filter P (get w))), put (map (\<lambda>x. if P x then u x else x) (get w)) w)),
      tb_Delete = (\<lambda>P w. (Inr (length (filter P (get w))), put (filter (\<lambda>x. \<not> P x) (get w)) w))\<rparr>"

lemma ErrRecordNotFound_not_ErrNotFound [simp]: "ErrRecordNotFound \<noteq> ErrNotFound" "ErrNotFound \<noteq> ErrRecordNotFound"
  by (simp_all add: ErrRecordNotFound_def ErrNotFound_def errorf_def)

lemma mem_table_ok:
  assumes "\<And>xs w. get (put xs w) = xs"
  shows "table_ok key core (\<lambda>w. set (get w)) (mem_table key get put)"
proof -
  have "create_ok key core (\<lambda>w. set (get w)) (mem_table key get put)"
    using assms by (auto simp: create_ok_def mem_table_def split: if_splits)
  moreover have "upsert_ok core (\<lambda>w. set (get w)) (mem_table key get put)"
    using assms by (auto simp: upsert_ok_def mem_table_def list_ex_iff split: if_splits)
  moreover have "read_ok (\<lambda>w. set (get w)) (mem_table key get put)"
    by (auto simp: read_ok_def mem_table_def find_Some_iff find_None_iff split: option.splits)
  moreover have "write_ok key core (\<lambda>w. set (get w)) (mem_table key get put)"
    using assms by (auto simp: write_ok_def mem_table_def filter_empty_conv)
  ultimately show ?thesis by (simp add: table_ok_def)
qed

text \<open>A statement on one table leaves the rest of the world alone.\<close>

lemma mem_table_keeps:
  assumes "\<And>xs w. view (put xs w) = view w"
  shows "keeps view (tb_Create (mem_table key get put) r)" "keeps view (tb_First (mem_table key get put) P)"
    "keeps view (tb_Find (mem_table key get put) P ord)" "keeps view (tb_Save (mem_table key get put) r)"
    "keeps view (tb_Delete (mem_table key get put) P)"
  using assms by (auto simp: keeps_def mem_table_def split: if_splits)

section \<open>Lookups\<close>

lemma create_okD:
  assumes "create_ok key core rows tb" "tb_Create tb r w = (Inr r', w')"
  shows "key r' = key r" "core r' = core r" "key r \<notin> key ` rows w" "rows w' = insert r' (rows w)"
  using assms unfolding create_ok_def by blast+

lemma read_okD:
  assumes "read_ok rows tb"
  shows "tb_First tb P w = (q, w') \<Longrightarrow> rows w' = rows w"
    and "tb_First tb P w = (Inr m, w') \<Longrightarrow> m \<in> rows w \<and> P m"
    and "tb_First tb P w = (Inl e, w') \<Longrightarrow> e \<noteq> ErrNotFound"
    and "tb_First tb P w = (Inl ErrRecordNotFound, w') \<Longrightarrow> \<forall>x \<in> rows w. \<not> P x"
    and "tb_Find tb P ord w = (q2, w') \<Longrightarrow> rows w' = rows w"
    and "tb_Find tb P ord w = (Inr ms, w') \<Longrightarrow> set ms = {m \<in> rows w. P m}"
  using assms unfolding read_ok_def by metis+

lemma upsert_okD:
  assumes "upsert_ok core rows tb" "tb_CreateOnConflict tb c u r w = (Inr r', w')"
  shows "core r' = core r"
    and "rows w' = (if \<exists>old \<in> rows w. c old r then (\<lambda>x. if c x r then u x r else x) ` rows w else insert r' (rows w))"
proof -
  have "core r' = core r \<and>
      (if \<exists>old \<in> rows w. c old r then rows w' = (\<lambda>x. if c x r then u x r else x) ` rows w else rows w' = insert r' (rows w))"
    using assms unfolding upsert_ok_def by (elim conjE allE [of _ c] allE [of _ u] allE [of _ r]) simp
  then show "core r' = core r"
    and "rows w' = (if \<exists>old \<in> rows w. c old r then (\<lambda>x. if c x r then u x r else x) ` rows w else insert r' (rows w))"
    by (simp_all split: if_splits)
qed

lemma save_okD:
  assumes "write_ok key core rows tb" "tb_Save tb r w = (Inr r', w')"
  shows "key r' = key r" "core r' = core r" "rows w' = insert r' {x \<in> rows w. key x \<noteq> key r}"
  using assms unfolding write_ok_def by blast+

lemma first_row_result:
  assumes "read_ok rows tb" "first_row tb P w = (r, w')"
  shows "rows w' = rows w"
    and "r = Inr m \<Longrightarrow> m \<in> rows w \<and> P m"
    and "r = Inl ErrNotFound \<Longrightarrow> \<forall>x \<in> rows w. \<not> P x"
proof -
  obtain q w1 where q1: "tb_First tb P w = (q, w1)" by fastforce
  with assms(2) have q: "tb_First tb P w = (q, w')" "r = (case q of Inr m \<Rightarrow> Inr m | Inl e \<Rightarrow> Inl (if e = ErrRecordNotFound then ErrNotFound else e))"
    by (cases q; auto simp: first_row_def attempt_def split: if_splits)+
  show "rows w' = rows w" using read_okD(1) [OF assms(1) q(1)] .
  show "r = Inr m \<Longrightarrow> m \<in> rows w \<and> P m"
    using read_okD(2) [OF assms(1)] q by (cases q) auto
  show "r = Inl ErrNotFound \<Longrightarrow> \<forall>x \<in> rows w. \<not> P x"
    using q by (cases q) (auto split: if_splits dest: read_okD(3, 4) [OF assms(1)])
qed

lemma delete_rows_result:
  assumes "write_ok key core rows tb" "delete_rows tb P w = (r, w')"
  shows "r = Inr u \<Longrightarrow> rows w' = {x \<in> rows w. \<not> P x} \<and> (\<exists>x \<in> rows w. P x)"
    and "r = Inl e \<Longrightarrow> rows w' = rows w"
proof -
  obtain q w1 where q1: "tb_Delete tb P w = (q, w1)" by fastforce
  with assms(2) have q: "tb_Delete tb P w = (q, w')" "r = (case q of Inl e \<Rightarrow> Inl e | Inr n \<Rightarrow> if n = 0 then Inl ErrNotFound else Inr ())"
    by (cases q; auto simp: delete_rows_def andThen_def split: if_splits)+
  show "r = Inr u \<Longrightarrow> rows w' = {x \<in> rows w. \<not> P x} \<and> (\<exists>x \<in> rows w. P x)"
    using assms(1) q unfolding write_ok_def by (cases q) (auto split: if_splits)
  show "r = Inl e \<Longrightarrow> rows w' = rows w"
  proof (cases q)
    case (Inl e')
    then show ?thesis using assms(1) q(1) unfolding write_ok_def by blast
  next
    case (Inr n)
    moreover assume "r = Inl e"
    ultimately have "n = 0" using q(2) by (auto split: if_splits)
    with Inr assms(1) q(1) have "rows w' = {x \<in> rows w. \<not> P x}" "\<forall>x \<in> rows w. \<not> P x"
      unfolding write_ok_def by blast+
    then show ?thesis by auto
  qed
qed

section \<open>Contracts of repository operations\<close>

text \<open>
  The operations on a set of entities with an id; \<open>core\<close> is an entity without the timestamps
  the store maintains.
\<close>

definition lookup_ok :: "('w \<Rightarrow> 'd set) \<Rightarrow> ('d \<Rightarrow> bool) \<Rightarrow> ('w, 'd) io \<Rightarrow> bool" where
  "lookup_ok view P m \<longleftrightarrow>
     (\<forall>w r w'. m w = (r, w') \<longrightarrow> view w' = view w \<and> (\<forall>b. r = Inr b \<longrightarrow> b \<in> view w \<and> P b)
        \<and> (r = Inl ErrNotFound \<longrightarrow> (\<forall>b \<in> view w. \<not> P b)))"

definition list_ok :: "('w \<Rightarrow> 'd set) \<Rightarrow> ('d \<Rightarrow> bool) \<Rightarrow> ('w, 'd list) io \<Rightarrow> bool" where
  "list_ok view P m \<longleftrightarrow>
     (\<forall>w r w'. m w = (r, w') \<longrightarrow> view w' = view w \<and> (\<forall>bs. r = Inr bs \<longrightarrow> set bs = {b \<in> view w. P b}))"

definition creates_ok :: "('d \<Rightarrow> string) \<Rightarrow> ('d \<Rightarrow> 'd) \<Rightarrow> ('w \<Rightarrow> 'd set) \<Rightarrow> ('d \<Rightarrow> ('w, 'd) io) \<Rightarrow> bool" where
  "creates_ok ID core view create \<longleftrightarrow>
     (\<forall>b w r w'. create b w = (r, w') \<longrightarrow>
        (case r of
           Inl e \<Rightarrow> view w' = view w
         | Inr b' \<Rightarrow> core b' = core b \<and> ID b \<notin> ID ` view w \<and> view w' = insert b' (view w)))"

definition updates_ok :: "('d \<Rightarrow> string) \<Rightarrow> ('d \<Rightarrow> 'd) \<Rightarrow> ('w \<Rightarrow> 'd set) \<Rightarrow> ('d \<Rightarrow> ('w, 'd) io) \<Rightarrow> bool" where
  "updates_ok ID core view upd \<longleftrightarrow>
     (\<forall>b w r w'. upd b w = (r, w') \<longrightarrow>
        (case r of
           Inl e \<Rightarrow> view w' = view w
         | Inr b' \<Rightarrow> core b' = core b \<and> view w' = insert b' {c \<in> view w. ID c \<noteq> ID b}))"

text \<open>\<open>strict\<close>: deleting nothing is an error.\<close>

definition deletes_ok :: "bool \<Rightarrow> ('d \<Rightarrow> string) \<Rightarrow> ('w \<Rightarrow> 'd set) \<Rightarrow> (string \<Rightarrow> ('w, unit) io) \<Rightarrow> bool" where
  "deletes_ok strict ID view del \<longleftrightarrow>
     (\<forall>i w r w'. del i w = (r, w') \<longrightarrow>
        (case r of
           Inl e \<Rightarrow> view w' = view w
         | Inr u \<Rightarrow> (strict \<longrightarrow> (\<exists>c \<in> view w. ID c = i)) \<and> view w' = {c \<in> view w. ID c \<noteq> i}))"

lemma lookup_okD:
  assumes "lookup_ok view P m" "m w = (r, w')"
  shows "view w' = view w" "r = Inr b \<Longrightarrow> b \<in> view w \<and> P b" "r = Inl ErrNotFound \<Longrightarrow> \<forall>b \<in> view w. \<not> P b"
  using assms unfolding lookup_ok_def by blast+

lemma lookup_ok_keeps: "lookup_ok view P m \<Longrightarrow> keeps view m"
  by (auto simp: lookup_ok_def keeps_def)

lemma creates_okD:
  assumes "creates_ok ID core view create" "create b w = (Inr b', w')"
  shows "core b' = core b" "ID b \<notin> ID ` view w" "view w' = insert b' (view w)"
  using assms unfolding creates_ok_def by fastforce+

lemma updates_okD:
  assumes "updates_ok ID core view upd" "upd b w = (Inr b', w')"
  shows "core b' = core b" "view w' = insert b' {c \<in> view w. ID c \<noteq> ID b}"
  using assms unfolding updates_ok_def by fastforce+

lemma failed_write_keeps:
  "creates_ok ID core view create \<Longrightarrow> create b w = (Inl e, w') \<Longrightarrow> view w' = view w"
  "updates_ok ID core view upd \<Longrightarrow> upd b w = (Inl e, w') \<Longrightarrow> view w' = view w"
  "deletes_ok strict KEY view del \<Longrightarrow> del i w = (Inl e, w') \<Longrightarrow> view w' = view w"
  unfolding creates_ok_def updates_ok_def deletes_ok_def by fastforce+

lemma deletes_okD:
  assumes "deletes_ok strict ID view del" "del i w = (Inr u, w')"
  shows "strict \<Longrightarrow> \<exists>c \<in> view w. ID c = i" "view w' = {c \<in> view w. ID c \<noteq> i}"
  using assms unfolding deletes_ok_def by fastforce+

text \<open>An operation on rows, read through the conversion \<open>toD\<close>, meets the contract on entities.\<close>

lemma lookup_rows:
  assumes "read_ok rows tb" "\<And>m. Q (toD m) = P m"
  shows "lookup_ok (\<lambda>w. toD ` rows w) Q (andThen (first_row tb P) (\<lambda>m. return_ok (toD m)))"
  unfolding lookup_ok_def
proof (intro allI impI)
  fix w r w'
  assume "andThen (first_row tb P) (\<lambda>m. return_ok (toD m)) w = (r, w')"
  then obtain q where q: "first_row tb P w = (q, w')" "r = (case q of Inl e \<Rightarrow> Inl e | Inr m \<Rightarrow> Inr (toD m))"
    by (auto simp: andThen_def split: prod.splits sum.splits)
  note first_row_result [OF assms(1) q(1)]
  then show "toD ` rows w' = toD ` rows w \<and> (\<forall>b. r = Inr b \<longrightarrow> b \<in> toD ` rows w \<and> Q b)
      \<and> (r = Inl ErrNotFound \<longrightarrow> (\<forall>b \<in> toD ` rows w. \<not> Q b))"
    using q(2) assms(2) by (cases q) auto
qed

lemma list_rows:
  assumes "read_ok rows tb" "\<And>m. Q (toD m) = P m"
  shows "list_ok (\<lambda>w. toD ` rows w) Q (andThen (tb_Find tb P ord) (\<lambda>ms. return_ok (map toD ms)))"
  unfolding list_ok_def
proof (intro allI impI)
  fix w r w'
  assume "andThen (tb_Find tb P ord) (\<lambda>ms. return_ok (map toD ms)) w = (r, w')"
  then obtain q where q: "tb_Find tb P ord w = (q, w')" "r = (case q of Inl e \<Rightarrow> Inl e | Inr ms \<Rightarrow> Inr (map toD ms))"
    by (auto simp: andThen_def split: prod.splits sum.splits)
  then have "rows w' = rows w" "\<And>ms. q = Inr ms \<Longrightarrow> set ms = {m \<in> rows w. P m}"
    using read_okD(5, 6) [OF assms(1)] by blast+
  then show "toD ` rows w' = toD ` rows w \<and> (\<forall>bs. r = Inr bs \<longrightarrow> set bs = {b \<in> toD ` rows w. Q b})"
    using q(2) assms(2) by (cases q) auto
qed

lemma create_rows:
  assumes "create_ok key rcore rows tb" "\<And>m. ID (toD m) = key m"
    and "\<And>m m'. rcore m = rcore m' \<Longrightarrow> core (toD m) = core (toD m')"
    and "\<And>b c. core (toD (row b c)) = core b" "\<And>b c. key (row b c) = ID b"
  shows "creates_ok ID core (\<lambda>w. toD ` rows w)
    (\<lambda>b. andThen (time_now env) (\<lambda>now. andThen (tb_Create tb (row b now)) (\<lambda>m. return_ok (toD m))))"
  unfolding creates_ok_def
proof (intro allI impI)
  fix b w r w'
  assume "andThen (time_now env) (\<lambda>now. andThen (tb_Create tb (row b now)) (\<lambda>m. return_ok (toD m))) w = (r, w')"
  then obtain c q where q: "tb_Create tb (row b c) w = (q, w')" "r = (case q of Inl e \<Rightarrow> Inl e | Inr m \<Rightarrow> Inr (toD m))"
    by (auto simp: andThen_def time_now_def split: prod.splits sum.splits)
  show "case r of Inl e \<Rightarrow> toD ` rows w' = toD ` rows w
    | Inr b' \<Rightarrow> core b' = core b \<and> ID b \<notin> ID ` toD ` rows w \<and> toD ` rows w' = insert b' (toD ` rows w)"
  proof (cases q)
    case (Inl e)
    with assms(1) q have "rows w' = rows w" unfolding create_ok_def by blast
    with Inl q show ?thesis by simp
  next
    case (Inr m)
    note m = create_okD [OF assms(1) q(1) [unfolded Inr]]
    have "core (toD m) = core b" using assms(3) [OF m(2)] assms(4) by simp
    moreover have "ID b \<notin> ID ` toD ` rows w" using m(3) assms(2, 5) by (auto simp: image_iff)
    ultimately show ?thesis using m(4) by (simp add: q(2) Inr)
  qed
qed

lemma update_rows:
  assumes "write_ok key rcore rows tb" "\<And>m. ID (toD m) = key m"
    and "\<And>m m'. rcore m = rcore m' \<Longrightarrow> core (toD m) = core (toD m')"
    and "\<And>b c. core (toD (row b c)) = core b" "\<And>b c. key (row b c) = ID b"
  shows "updates_ok ID core (\<lambda>w. toD ` rows w)
    (\<lambda>b. andThen (time_now env) (\<lambda>now. andThen (tb_Save tb (row b now)) (\<lambda>m. return_ok (toD m))))"
  unfolding updates_ok_def
proof (intro allI impI)
  fix b w r w'
  assume "andThen (time_now env) (\<lambda>now. andThen (tb_Save tb (row b now)) (\<lambda>m. return_ok (toD m))) w = (r, w')"
  then obtain c q where q: "tb_Save tb (row b c) w = (q, w')" "r = (case q of Inl e \<Rightarrow> Inl e | Inr m \<Rightarrow> Inr (toD m))"
    by (auto simp: andThen_def time_now_def split: prod.splits sum.splits)
  show "case r of Inl e \<Rightarrow> toD ` rows w' = toD ` rows w
    | Inr b' \<Rightarrow> core b' = core b \<and> toD ` rows w' = insert b' {c \<in> toD ` rows w. ID c \<noteq> ID b}"
  proof (cases q)
    case (Inl e)
    with assms(1) q have "rows w' = rows w" unfolding write_ok_def by blast
    with Inl q show ?thesis by simp
  next
    case (Inr m)
    note m = save_okD [OF assms(1) q(1) [unfolded Inr]]
    have "core (toD m) = core b" using assms(3) [OF m(2)] assms(4) by simp
    moreover have "toD ` rows w' = insert (toD m) {c \<in> toD ` rows w. ID c \<noteq> ID b}"
      using m(3) assms(2, 5) by auto
    ultimately show ?thesis by (simp add: q(2) Inr)
  qed
qed

lemma delete_rows_strict:
  assumes "write_ok key rcore rows tb" "\<And>m. ID (toD m) = f m"
  shows "deletes_ok True ID (\<lambda>w. toD ` rows w) (\<lambda>i. delete_rows tb (\<lambda>m. f m = i))"
  unfolding deletes_ok_def
proof (intro allI impI)
  fix i w r w'
  assume "delete_rows tb (\<lambda>m. f m = i) w = (r, w')"
  note result = delete_rows_result [OF assms(1) this]
  show "case r of Inl e \<Rightarrow> toD ` rows w' = toD ` rows w
    | Inr u \<Rightarrow> (True \<longrightarrow> (\<exists>c \<in> toD ` rows w. ID c = i)) \<and> toD ` rows w' = {c \<in> toD ` rows w. ID c \<noteq> i}"
    using result assms(2) by (cases r) auto
qed

lemma delete_rows_lax:
  assumes "write_ok key rcore rows tb" "\<And>m. ID (toD m) = f m"
  shows "deletes_ok False ID (\<lambda>w. toD ` rows w) (\<lambda>i. andThen (tb_Delete tb (\<lambda>m. f m = i)) (\<lambda>_. return_ok ()))"
  unfolding deletes_ok_def
proof (intro allI impI)
  fix i w r w'
  assume "andThen (tb_Delete tb (\<lambda>m. f m = i)) (\<lambda>_. return_ok ()) w = (r, w')"
  then obtain q where q: "tb_Delete tb (\<lambda>m. f m = i) w = (q, w')" "r = (case q of Inl e \<Rightarrow> Inl e | Inr n \<Rightarrow> Inr ())"
    by (auto simp: andThen_def split: prod.splits sum.splits)
  then have "(\<forall>e. q = Inl e \<longrightarrow> rows w' = rows w) \<and> (\<forall>n. q = Inr n \<longrightarrow> rows w' = {x \<in> rows w. f x \<noteq> i})"
    using assms(1) unfolding write_ok_def by blast
  then show "case r of Inl e \<Rightarrow> toD ` rows w' = toD ` rows w
    | Inr u \<Rightarrow> (False \<longrightarrow> (\<exists>c \<in> toD ` rows w. ID c = i)) \<and> toD ` rows w' = {c \<in> toD ` rows w. ID c \<noteq> i}"
    using q(2) assms(2) by (cases q) auto
qed

section \<open>The contracts of \<open>domain.BotRepository\<close> and \<open>domain.ChannelBindingRepository\<close>\<close>

definition bot_core :: "bot \<Rightarrow> bot" where
  "bot_core b = b\<lparr>bot_CreatedAt := None, bot_UpdatedAt := None\<rparr>"

definition bot_repo_ok :: "('w \<Rightarrow> bot set) \<Rightarrow> 'w botRepository \<Rightarrow> bool" where
  "bot_repo_ok bots r \<longleftrightarrow>
     creates_ok bot_ID bot_core bots (br_Create r) \<and> updates_ok bot_ID bot_core bots (br_Update r) \<and>
     deletes_ok True bot_ID bots (br_DeleteByID r) \<and>
     (\<forall>i. lookup_ok bots (\<lambda>b. bot_ID b = i) (br_GetByID r i)) \<and>
     (\<forall>n. lookup_ok bots (\<lambda>b. bot_Name b = n) (br_GetByName r n)) \<and>
     (\<forall>u. list_ok bots (\<lambda>b. bot_UserID b = u) (br_ListByUserID r u)) \<and>
     list_ok bots (\<lambda>b. bot_ChannelAccountID b \<noteq> []) (br_ListWithAccounts r)"

definition binding_core :: "channelBinding \<Rightarrow> channelBinding" where
  "binding_core b = b\<lparr>cb_CreatedAt := None, cb_UpdatedAt := None\<rparr>"

text \<open>\<open>Create\<close> does not store the finish time it is given.\<close>

definition unfinished_core :: "channelBinding \<Rightarrow> channelBinding" where
  "unfinished_core b = binding_core (b\<lparr>cb_FinishedAt := None\<rparr>)"

definition binding_repo_ok :: "('w \<Rightarrow> channelBinding set) \<Rightarrow> 'w channelBindingRepository \<Rightarrow> bool" where
  "binding_repo_ok bindings r \<longleftrightarrow>
     creates_ok cb_ID unfinished_core bindings (cbrepo_Create r) \<and>
     updates_ok cb_ID binding_core bindings (cbrepo_Update r) \<and>
     deletes_ok False cb_BotID bindings (cbrepo_DeleteByBotID r) \<and>
     (\<forall>i. lookup_ok bindings (\<lambda>b. cb_ID b = i) (cbrepo_GetByID r i))"

definition bm_core :: "botRow \<Rightarrow> botRow" where
  "bm_core m = m\<lparr>bm_CreatedAt := None, bm_UpdatedAt := None\<rparr>"

lemma bot_row_inverse [simp]:
  "toDomainBot (bot_row b c u) = b\<lparr>bot_CreatedAt := c, bot_UpdatedAt := u\<rparr>"
  by (simp add: toDomainBot_def bot_row_def)

lemma toDomainBot_fields [simp]:
  "bot_ID (toDomainBot m) = bm_ID m" "bot_Name (toDomainBot m) = bm_Name m"
  "bot_UserID (toDomainBot m) = bm_UserID m" "bot_ChannelAccountID (toDomainBot m) = bm_ChannelAccountID m"
  by (simp_all add: toDomainBot_def)

lemma bot_row_ID [simp]: "bm_ID (bot_row b c u) = bot_ID b"
  by (simp add: bot_row_def)

lemma bm_core_bot_core: "bm_core m = bm_core m' \<Longrightarrow> bot_core (toDomainBot m) = bot_core (toDomainBot m')"
  by (cases m, cases m') (simp add: bm_core_def bot_core_def toDomainBot_def)

lemma bot_core_time [simp]:
  "bot_core (b\<lparr>bot_CreatedAt := c\<rparr>) = bot_core b"
  "bot_core (b\<lparr>bot_UpdatedAt := u\<rparr>) = bot_core b"
  by (simp_all add: bot_core_def)

definition cbm_core :: "channelBindingRow \<Rightarrow> channelBindingRow" where
  "cbm_core m = m\<lparr>cbm_CreatedAt := None, cbm_UpdatedAt := None\<rparr>"

lemma cbm_core_binding_core:
  "cbm_core m = cbm_core m' \<Longrightarrow> binding_core (toDomainChannelBinding m) = binding_core (toDomainChannelBinding m')"
  by (cases m, cases m') (simp add: cbm_core_def binding_core_def toDomainChannelBinding_def)

lemma toDomainChannelBinding_fields [simp]:
  "cb_ID (toDomainChannelBinding m) = cbm_ID m" "cb_BotID (toDomainChannelBinding m) = cbm_BotID m"
  by (simp_all add: toDomainChannelBinding_def)

lemma ChannelBindingRepository_refines:
  assumes "table_ok cbm_ID cbm_core rows tb"
  shows "binding_repo_ok (\<lambda>w. toDomainChannelBinding ` rows w) (ChannelBindingRepository env tb)"
proof -
  have ok: "create_ok cbm_ID cbm_core rows tb" "read_ok rows tb" "write_ok cbm_ID cbm_core rows tb"
    using assms by (simp_all add: table_ok_def)
  have core: "unfinished_core (toDomainChannelBinding m) = unfinished_core (toDomainChannelBinding m')"
    if "cbm_core m = cbm_core m'" for m m'
    using cbm_core_binding_core [OF that]
    by (cases m, cases m') (simp add: unfinished_core_def binding_core_def toDomainChannelBinding_def)
  have "creates_ok cb_ID unfinished_core (\<lambda>w. toDomainChannelBinding ` rows w) (bindings_Create env tb)"
    unfolding bindings_Create_def
    by (rule create_rows [OF ok(1), where row = "\<lambda>b now. \<lparr>cbm_ID = cb_ID b, cbm_BotID = cb_BotID b,
          cbm_UserID = cb_UserID b, cbm_ChannelType = cb_ChannelType b, cbm_Status = cb_Status b,
          cbm_ProviderBindingRef = cb_ProviderBindingRef b, cbm_QRCodePayload = cb_QRCodePayload b,
          cbm_ExpiresAt = cb_ExpiresAt b, cbm_ErrorMessage = cb_ErrorMessage b, cbm_ChannelAccountID = cb_ChannelAccountID b,
          cbm_CreatedAt = Some now, cbm_UpdatedAt = Some now, cbm_FinishedAt = None\<rparr>"])
      (simp, erule core, simp_all add: unfinished_core_def binding_core_def toDomainChannelBinding_def)
  moreover have "updates_ok cb_ID binding_core (\<lambda>w. toDomainChannelBinding ` rows w) (bindings_Update env tb)"
    unfolding bindings_Update_def
    by (rule update_rows [OF ok(3), where row = "\<lambda>b now. \<lparr>cbm_ID = cb_ID b, cbm_BotID = cb_BotID b,
          cbm_UserID = cb_UserID b, cbm_ChannelType = cb_ChannelType b, cbm_Status = cb_Status b,
          cbm_ProviderBindingRef = cb_ProviderBindingRef b, cbm_QRCodePayload = cb_QRCodePayload b,
          cbm_ExpiresAt = cb_ExpiresAt b, cbm_ErrorMessage = cb_ErrorMessage b, cbm_ChannelAccountID = cb_ChannelAccountID b,
          cbm_CreatedAt = cb_CreatedAt b, cbm_UpdatedAt = Some now, cbm_FinishedAt = cb_FinishedAt b\<rparr>"])
      (simp, erule cbm_core_binding_core, simp_all add: binding_core_def toDomainChannelBinding_def)
  moreover have "deletes_ok False cb_BotID (\<lambda>w. toDomainChannelBinding ` rows w) (bindings_DeleteByBotID tb)"
    unfolding bindings_DeleteByBotID_def by (rule delete_rows_lax [OF ok(3)]) simp
  ultimately show ?thesis
    unfolding binding_repo_ok_def ChannelBindingRepository_def
    by (simp add: bindings_GetByID_def lookup_rows [OF ok(2)])
qed

lemma bot_repository_contract:
  assumes "table_ok bm_ID bm_core rows tb"
  shows "bot_repo_ok (\<lambda>w. toDomainBot ` rows w) (BotRepository env tb)"
proof -
  have ok: "create_ok bm_ID bm_core rows tb" "read_ok rows tb" "write_ok bm_ID bm_core rows tb"
    using assms by (simp_all add: table_ok_def)
  have "creates_ok bot_ID bot_core (\<lambda>w. toDomainBot ` rows w) (bots_Create env tb)"
    unfolding bots_Create_def
    by (rule create_rows [OF ok(1), where row = "\<lambda>b c. bot_row b (Some c) (Some c)"])
      (simp, erule bm_core_bot_core, simp_all)
  moreover have "updates_ok bot_ID bot_core (\<lambda>w. toDomainBot ` rows w) (bots_Update env tb)"
    unfolding bots_Update_def
    by (rule update_rows [OF ok(3), where row = "\<lambda>b c. bot_row b (bot_CreatedAt b) (Some c)"])
      (simp, erule bm_core_bot_core, simp_all)
  moreover have "deletes_ok True bot_ID (\<lambda>w. toDomainBot ` rows w) (bots_DeleteByID tb)"
    unfolding bots_DeleteByID_def by (rule delete_rows_strict [OF ok(3)]) simp
  ultimately show ?thesis
    unfolding bot_repo_ok_def BotRepository_def
    by (simp add: bots_GetByID_def bots_GetByName_def bots_ListByUserID_def bots_ListWithAccounts_def
        lookup_rows [OF ok(2)] list_rows [OF ok(2)])
qed

text \<open>
  C9. The bot repository refines a set of bots keyed by their id: whatever the table does
  within gorm's documented behaviour, \<open>Create\<close> adds a new bot or fails without effect, \<open>Update\<close>
  replaces (or, when the row is gone, puts back) the bot of that id, \<open>DeleteByID\<close> removes it and
  reports an unknown id, the lookups and lists read the set.
\<close>

theorem BotRepository_refines:
  assumes "table_ok bm_ID bm_core rows tb"
  shows "bot_repo_ok (\<lambda>w. toDomainBot ` rows w) (BotRepository env tb)"
  using assms by (rule bot_repository_contract)

lemma BotRepository_refines_witness:
  "bot_repo_ok (\<lambda>w. toDomainBot ` set w) (BotRepository \<lparr>ge_Now = \<lambda>_. 0, ge_ULID = \<lambda>w. (''01'', w)\<rparr> (mem_table bm_ID id (\<lambda>xs _. xs)))"
  using BotRepository_refines [OF mem_table_ok [of id "\<lambda>xs _. xs"]] by simp

section \<open>Replacing the servers of a bot\<close>

definition link_key :: "botMCPServerRow \<Rightarrow> string \<times> string" where
  "link_key l = (bmm_BotID l, bmm_MCPServerID l)"

text \<open>A transaction commits what its body did, or leaves the view of the state as it was.\<close>

definition transaction_ok :: "('w \<Rightarrow> 'v) \<Rightarrow> (('w, unit) io \<Rightarrow> ('w, unit) io) \<Rightarrow> bool" where
  "transaction_ok view T \<longleftrightarrow>
     (\<forall>m w r w'. T m w = (r, w') \<longrightarrow>
        (case r of Inl e \<Rightarrow> view w' = view w | Inr u \<Rightarrow> \<exists>w1. m w = (Inr (), w1) \<and> view w' = view w1))"

lemma link_servers_rows:
  assumes "create_ok link_key core links (md_links db)"
  shows "link_servers db b now seen ids w = (Inr u, w') \<Longrightarrow>
    link_key ` links w' = link_key ` links w \<union> Pair b ` (set ids - {[]} - set seen)
    \<and> {l \<in> links w'. bmm_BotID l \<noteq> b} = {l \<in> links w. bmm_BotID l \<noteq> b}"
proof (induction ids arbitrary: seen w)
  case Nil
  then show ?case by simp
next
  case (Cons i ids)
  show ?case
  proof (cases "i = [] \<or> i \<in> set seen")
    case True
    with Cons.prems have "link_servers db b now seen ids w = (Inr u, w')" by auto
    from Cons.IH [OF this] True show ?thesis by auto
  next
    case False
    with Cons.prems obtain r w1 where c: "tb_Create (md_links db) \<lparr>bmm_BotID = b, bmm_MCPServerID = i, bmm_CreatedAt = now\<rparr> w = (Inr r, w1)"
      and l: "link_servers db b now (i # seen) ids w1 = (Inr u, w')"
      by (auto simp: andThen_Inr_iff)
    note r = create_okD [OF assms c]
    have "link_key r = (b, i)" using r(1) by (simp add: link_key_def)
    moreover have "bmm_BotID r = b" using calculation by (simp add: link_key_def)
    ultimately show ?thesis using Cons.IH [OF l] False r(4) by auto
  qed
qed

text \<open>
  C10. \<open>SetBotServers\<close> replaces the servers attached to a bot as a whole: when it succeeds the
  bot has exactly the nonempty ids it was given, once each, and the attachments of the other
  bots are the rows they were; when any statement fails no attachment has changed.
\<close>

theorem mcp_SetBotServers_atomic:
  assumes "table_ok link_key core links (md_links db)" "transaction_ok links (md_Transaction db)"
    and "mcp_SetBotServers env db b ids w = (r, w')"
  shows "case r of
      Inl e \<Rightarrow> links w' = links w
    | Inr u \<Rightarrow> {i. (b, i) \<in> link_key ` links w'} = set ids - {[]}
        \<and> {l \<in> links w'. bmm_BotID l \<noteq> b} = {l \<in> links w. bmm_BotID l \<noteq> b}"
proof -
  let ?body = "\<lambda>now. andThen (tb_Delete (md_links db) (\<lambda>l. bmm_BotID l = b)) (\<lambda>_. link_servers db b now [] ids)"
  obtain now where T: "md_Transaction db (?body now) w = (r, w')"
    using assms(3) by (auto simp: mcp_SetBotServers_def andThen_def time_now_def)
  show ?thesis
  proof (cases r)
    case (Inl e)
    with T assms(2) show ?thesis unfolding transaction_ok_def by fastforce
  next
    case (Inr u)
    with T assms(2) obtain w1 where m: "?body now w = (Inr (), w1)" and v: "links w' = links w1"
      unfolding transaction_ok_def by fastforce
    from m obtain n w2 where d: "tb_Delete (md_links db) (\<lambda>l. bmm_BotID l = b) w = (Inr n, w2)"
      and l: "link_servers db b now [] ids w2 = (Inr (), w1)"
      unfolding andThen_Inr_iff by blast
    have ok: "create_ok link_key core links (md_links db)" "write_ok link_key core links (md_links db)"
      using assms(1) by (simp_all add: table_ok_def)
    have w2: "links w2 = {l \<in> links w. bmm_BotID l \<noteq> b}" using ok(2) d unfolding write_ok_def by blast
    have "(b, i) \<notin> link_key ` links w2" for i by (auto simp: w2 link_key_def)
    then show ?thesis using link_servers_rows [OF ok(1) l] by (auto simp: Inr v w2)
  qed
qed

section \<open>Binding an account again\<close>

definition account_core :: "channelAccountRow \<Rightarrow> channelAccountRow" where
  "account_core m = m\<lparr>cam_CreatedAt := None, cam_UpdatedAt := None\<rparr>"

lemma account_core_fields:
  assumes "account_core m = account_core m'"
  shows "cam_ID m = cam_ID m'" "cam_CredentialCiphertext m = cam_CredentialCiphertext m'" "account_conflict m m'"
  using assms by (cases m; cases m'; simp add: account_core_def account_conflict_def)+

lemma account_conflict_assign [simp]:
  "account_conflict (account_assign x r) y = account_conflict x y"
  by (simp add: account_conflict_def account_assign_def)

lemma account_conflict_eq:
  "account_conflict x z \<Longrightarrow> account_conflict y z \<Longrightarrow> account_conflict x y"
  by (simp add: account_conflict_def)

text \<open>
  Storing an account whose user, channel and account id are known already updates that
  account in place: the account keeps its id and creation time and gets the new credential;
  an unknown account is stored under the id it was given.
\<close>

theorem accounts_Upsert_keeps_identity:
  assumes "table_ok cam_ID account_core rows tb"
    and "\<And>x y. x \<in> rows w \<Longrightarrow> y \<in> rows w \<Longrightarrow> account_conflict x y \<Longrightarrow> x = y"
    and "accounts_Upsert env tb a w = (Inr a', w')"
  shows "ca_CredentialCiphertext a' = ca_CredentialCiphertext a \<and>
    (\<forall>old \<in> rows w. account_conflict old (account_row a None) \<longrightarrow>
       ca_ID a' = cam_ID old \<and> ca_CreatedAt a' = cam_CreatedAt old) \<and>
    ((\<forall>old \<in> rows w. \<not> account_conflict old (account_row a None)) \<longrightarrow> ca_ID a' = ca_ID a)"
proof -
  have ok: "upsert_ok account_core rows tb" "read_ok rows tb" using assms(1) by (simp_all add: table_ok_def)
  obtain t r w1 m where up: "tb_CreateOnConflict tb account_conflict account_assign (account_row a t) w = (Inr r, w1)"
    and f: "tb_First tb (\<lambda>m. cam_UserID m = ca_UserID a \<and> cam_ChannelType m = ca_ChannelType a \<and> cam_AccountUID m = ca_AccountUID a) w1 = (Inr m, w')"
    and a': "a' = toDomainChannelAccount m"
    using assms(3) by (auto simp: accounts_Upsert_def andThen_Inr_iff)
  let ?n = "account_row a t"
  have cn: "account_conflict x ?n = account_conflict x (account_row a None)" for x
    by (simp add: account_conflict_def account_row_def)
  have m: "m \<in> rows w1" "account_conflict m ?n"
    using read_okD(2) [OF ok(2) f] by (simp_all add: account_conflict_def account_row_def)
  note u = upsert_okD [OF ok(1) up]
  show ?thesis
  proof (cases "\<exists>old \<in> rows w. account_conflict old ?n")
    case True
    then obtain x where x: "x \<in> rows w" "account_conflict x ?n" "m = account_assign x ?n"
      using u(2) m by (auto split: if_splits)
    have same: "old = x" if "old \<in> rows w" "account_conflict old (account_row a None)" for old
      using assms(2) [OF that(1) x(1)] that(2) x(2) account_conflict_eq cn by blast
    have a'x: "ca_ID a' = cam_ID x" "ca_CreatedAt a' = cam_CreatedAt x" "ca_CredentialCiphertext a' = ca_CredentialCiphertext a"
      by (simp_all add: a' x(3) toDomainChannelAccount_def account_assign_def account_row_def)
    show ?thesis using same a'x x(1,2) cn by metis
  next
    case False
    with u(2) m have "m = r" by auto
    with account_core_fields [OF u(1)] have "ca_ID a' = ca_ID a" "ca_CredentialCiphertext a' = ca_CredentialCiphertext a"
      by (simp_all add: a' toDomainChannelAccount_def account_row_def)
    with False cn show ?thesis by simp
  qed
qed

section \<open>Rows and the values they stand for\<close>

lemma Join_nonempty: "x \<noteq> [] \<Longrightarrow> Join (x # xs) sep \<noteq> []"
  by (cases xs) auto

lemma marshal_strings_not_empty:
  assumes "xs \<noteq> []"
  shows "marshal_strings (Some xs) \<noteq> []" "marshal_strings (Some xs) \<noteq> ''[]''"
proof -
  obtain y ys where xs: "xs = y # ys" using assms by (cases xs) auto
  have "json_string y \<noteq> []" by (simp add: json_string_def)
  then have "Join (map json_text (map JStr xs)) '','' \<noteq> []" by (simp add: xs Join_nonempty)
  moreover have "marshal_strings (Some xs) = ''['' @ Join (map json_text (map JStr xs)) '','' @ '']''"
    by (simp add: marshal_strings_def)
  ultimately show "marshal_strings (Some xs) \<noteq> []" "marshal_strings (Some xs) \<noteq> ''[]''"
    by (auto simp del: json_text.simps simp: append_eq_Cons_conv)
qed

lemma elements_of_slice: "elements_of (map_option (map f) (slice_of xs)) = map f xs"
  by (simp add: elements_of_def slice_of_def)

lemma capability_round_trip:
  "toDomainAgentCapability (capability_row c t) =
     Inr (c\<lparr>ac_Args := map clean_utf8 (ac_Args c), ac_SupportedModes := map clean_utf8 (ac_SupportedModes c),
            ac_CreatedAt := t, ac_UpdatedAt := t\<rparr>)"
proof -
  have "unmarshal_strings (acm_ArgsJSON (capability_row c t)) = (map_option (map clean_utf8) (slice_of (ac_Args c)), None)"
    "unmarshal_strings (acm_SupportedModesJSON (capability_row c t)) = (map_option (map clean_utf8) (slice_of (ac_SupportedModes c)), None)"
    by (simp_all only: capability_row_def agentCapabilityRow.simps strings_round_trip)
  then show ?thesis
    unfolding toDomainAgentCapability_def by (simp add: elements_of_slice capability_row_def)
qed

lemma mcp_server_round_trip:
  "toDomainMCPServer (toModelMCPServer s) = s\<lparr>ms_Args := map clean_utf8 (ms_Args s), ms_CreatedAt := None, ms_UpdatedAt := None\<rparr>"
proof (cases "ms_Args s = []")
  case True
  then show ?thesis by (simp add: toDomainMCPServer_def toModelMCPServer_def)
next
  case False
  then have "mm_ArgsJSON (toModelMCPServer s) = marshal_strings (Some (ms_Args s))"
    by (simp add: toModelMCPServer_def)
  with False have "ms_Args (toDomainMCPServer (toModelMCPServer s)) = map clean_utf8 (ms_Args s)"
    by (simp add: toDomainMCPServer_def marshal_strings_not_empty strings_round_trip elements_of_def)
  then show ?thesis by (simp add: toDomainMCPServer_def toModelMCPServer_def)
qed

text \<open>
  C11. What is written to a row is read back from it: an agent capability and an MCP server
  come back as they were, their argument lists through the JSON text of their column (up to
  bytes that are not UTF-8), with the timestamps of the row.
\<close>

theorem rows_round_trip:
  "toDomainAgentCapability (capability_row c t) =
     Inr (c\<lparr>ac_Args := map clean_utf8 (ac_Args c), ac_SupportedModes := map clean_utf8 (ac_SupportedModes c),
            ac_CreatedAt := t, ac_UpdatedAt := t\<rparr>)
   \<and> toDomainMCPServer (toModelMCPServer s) =
     s\<lparr>ms_Args := map clean_utf8 (ms_Args s), ms_CreatedAt := None, ms_UpdatedAt := None\<rparr>"
  by (rule conjI [OF capability_round_trip mcp_server_round_trip])

section \<open>Witnesses\<close>

definition sample_env :: "'w goenv" where
  "sample_env = \<lparr>ge_Now = \<lambda>_. 7, ge_ULID = \<lambda>w. (''01'', w)\<rparr>"

definition sample_links :: "botMCPServerRow list mcpDB" where
  "sample_links =
     \<lparr>md_servers = mem_table mm_ID (\<lambda>_. []) (\<lambda>_ w. w), md_links = mem_table link_key id (\<lambda>xs _. xs),
      md_FindJoined = (\<lambda>_ _ w. (Inr [], w)),
      md_Transaction = (\<lambda>m w. case m w of (Inl e, _) \<Rightarrow> (Inl e, w) | (Inr u, w1) \<Rightarrow> (Inr u, w1))\<rparr>"

lemma sample_links_ok:
  "table_ok link_key id (\<lambda>w. set (id w)) (md_links sample_links)"
  "transaction_ok (\<lambda>w. set (id w)) (md_Transaction sample_links)"
  by (simp only: sample_links_def mcpDB.simps, rule mem_table_ok, simp)
    (auto simp: sample_links_def transaction_ok_def split: prod.splits sum.splits)

lemma mcp_SetBotServers_atomic_witness:
  "{i. (''b'', i) \<in> link_key ` set (snd (mcp_SetBotServers sample_env sample_links ''b'' [''x'', [], ''x'']
      [\<lparr>bmm_BotID = ''b'', bmm_MCPServerID = ''old'', bmm_CreatedAt = None\<rparr>]))} = {''x''}"
proof -
  let ?w = "[\<lparr>bmm_BotID = ''b'', bmm_MCPServerID = ''old'', bmm_CreatedAt = None\<rparr>]"
  have r: "mcp_SetBotServers sample_env sample_links ''b'' [''x'', [], ''x''] ?w =
     (Inr (), [\<lparr>bmm_BotID = ''b'', bmm_MCPServerID = ''x'', bmm_CreatedAt = Some 7\<rparr>])"
    by (simp add: mcp_SetBotServers_def sample_links_def sample_env_def mem_table_def andThen_def time_now_def return_ok_def)
      (auto simp: link_key_def)
  show ?thesis
    using conjunct1 [OF mcp_SetBotServers_atomic [OF sample_links_ok r, unfolded sum.case]] by (simp only: r snd_conv id_apply) (auto simp: link_key_def)
qed

definition sample_account :: channelAccount where
  "sample_account = \<lparr>ca_ID = ''acct_2'', ca_UserID = ''u'', ca_ChannelType = ''http'', ca_AccountUID = ''uid'', ca_DisplayName = [],
     ca_AvatarURL = [], ca_CredentialCiphertext = ''secret'', ca_CredentialVersion = 1, ca_LastBoundAt = None,
     ca_CreatedAt = None, ca_UpdatedAt = None\<rparr>"

lemma accounts_Upsert_keeps_identity_witness:
  "\<exists>a' w'. accounts_Upsert sample_env (mem_table cam_ID id (\<lambda>xs _. xs)) sample_account
      [account_row (sample_account\<lparr>ca_ID := ''acct_1'', ca_CredentialCiphertext := ''old''\<rparr>) (Some 3)] = (Inr a', w')
    \<and> ca_ID a' = ''acct_1'' \<and> ca_CreatedAt a' = Some 3 \<and> ca_CredentialCiphertext a' = ''secret''"
proof -
  let ?old = "account_row (sample_account\<lparr>ca_ID := ''acct_1'', ca_CredentialCiphertext := ''old''\<rparr>) (Some 3)"
  let ?tb = "mem_table cam_ID id (\<lambda>xs _. xs) :: (channelAccountRow list, channelAccountRow) table"
  obtain a' w' where r: "accounts_Upsert sample_env ?tb sample_account [?old] = (Inr a', w')"
    by (simp add: accounts_Upsert_def mem_table_def andThen_def time_now_def return_ok_def account_conflict_def
        account_assign_def account_row_def sample_account_def)
  have old: "account_conflict ?old (account_row sample_account None)" "cam_ID ?old = ''acct_1''" "cam_CreatedAt ?old = Some 3"
    by (simp_all add: account_conflict_def account_row_def sample_account_def)
  have ok: "table_ok cam_ID account_core (\<lambda>w. set (id w)) ?tb" by (rule mem_table_ok) simp
  have u: "x = y" if "x \<in> set (id [?old])" "y \<in> set (id [?old])" for x y using that by simp
  show ?thesis
    using accounts_Upsert_keeps_identity [OF ok u r] r old by (simp add: sample_account_def)
qed

end
