(* ===== verification/BotServiceLaws.thy ===== *)
theory BotServiceLaws
  imports BotService StoreLaws
begin

text \<open>
  What the operations of the bot service do to the bots and bindings stored, on top of the
  contracts of the repositories (\<open>StoreLaws\<close>).  \<open>keeps\<close> states that a collaborator leaves
  the part of the world a property speaks of alone.
\<close>

section \<open>Deleting\<close>

text \<open>
  C12. \<open>DeleteBot\<close> removes the bot and all its bindings and nothing else when it succeeds; when
  it fails the bot is still there, with its bindings or, if only the last step failed, without.
\<close>

theorem DeleteBot_removes:
  assumes "bot_repo_ok bots (sv_bots sv)" "binding_repo_ok bindings (sv_bindings sv)"
    and "keeps bots (cbrepo_DeleteByBotID (sv_bindings sv) i)"
    and "keeps bindings (br_GetByID (sv_bots sv) i)" "keeps bindings (br_DeleteByID (sv_bots sv) i)"
    and "DeleteBot sv i w = (r, w')"
  shows "case r of
      Inr u \<Rightarrow> (\<exists>b \<in> bots w. bot_ID b = i) \<and> bots w' = {b \<in> bots w. bot_ID b \<noteq> i}
        \<and> bindings w' = {c \<in> bindings w. cb_BotID c \<noteq> i}
    | Inl e \<Rightarrow> bots w' = bots w \<and> (bindings w' = bindings w \<or> bindings w' = {c \<in> bindings w. cb_BotID c \<noteq> i})"
proof (cases "i = []")
  case True
  with assms(6) show ?thesis by (auto simp: DeleteBot_def)
next
  case False
  have ok: "deletes_ok True bot_ID bots (br_DeleteByID (sv_bots sv))" "lookup_ok bots (\<lambda>b. bot_ID b = i) (br_GetByID (sv_bots sv) i)"
    "deletes_ok False cb_BotID bindings (cbrepo_DeleteByBotID (sv_bindings sv))"
    using assms(1, 2) by (simp_all add: bot_repo_ok_def binding_repo_ok_def)
  from False assms(6) have "andThen (br_GetByID (sv_bots sv) i) (\<lambda>_. andThen (cbrepo_DeleteByBotID (sv_bindings sv) i)
      (\<lambda>_. br_DeleteByID (sv_bots sv) i)) w = (r, w')" by (simp add: DeleteBot_def)
  then show ?thesis
  proof (cases rule: andThen_cases)
    case (Err e)
    then show ?thesis using lookup_okD(1) [OF ok(2) Err(1)] keepsD [OF assms(4) Err(1)] by simp
  next
    case (Ok b w1)
    note w1 = lookup_okD(1) [OF ok(2) Ok(1)] keepsD [OF assms(4) Ok(1)]
    from Ok(2) show ?thesis
    proof (cases rule: andThen_cases)
      case (Err e)
      then show ?thesis using failed_write_keeps(3) [OF ok(3) Err(1)] keepsD [OF assms(3) Err(1)] w1 by simp
    next
      case (Ok u w2)
      note w2 = deletes_okD(2) [OF ok(3) Ok(1)] keepsD [OF assms(3) Ok(1)] keepsD [OF assms(5) Ok(2)]
      show ?thesis
      proof (cases r)
        case (Inl e)
        then show ?thesis using failed_write_keeps(3) [OF ok(1)] Ok(2) w1 w2 by simp
      next
        case (Inr v)
        with Ok(2) have del: "br_DeleteByID (sv_bots sv) i w2 = (Inr v, w')" by simp
        from deletes_okD [OF ok(1) del] Inr w1 w2 show ?thesis by simp
      qed
    qed
  qed
qed

section \<open>Creating\<close>

text \<open>
  \<open>CreateBot\<close> adds one bot under a new id, for the user found or created, and leaves the
  others alone: its type is the given one or \<open>channel\<close>, it waits for a login unless it is a hook,
  and it is linked to no account; what is returned describes the bot stored.  When it fails no
  bot is added.
\<close>

theorem CreateBot_adds:
  assumes "bot_repo_ok bots (sv_bots sv)"
    and "keeps bots (ur_FindOrCreateByExternalUserID (sv_users sv) (cbi_ExternalUserID input))"
    and "keeps bots (fresh_id env ''bot'')"
    and "CreateBot env sv input w = (r, w')"
  shows "case r of
      Inl e \<Rightarrow> bots w' = bots w
    | Inr out \<Rightarrow> (\<exists>b. bots w' = insert b (bots w) \<and> bot_ID b \<notin> bot_ID ` bots w \<and> cbo_BotID out = bot_ID b
        \<and> cbo_ConnectionStatus out = bot_ConnectionStatus b \<and> bot_Name b = cbi_Name input \<and> bot_Name b \<noteq> []
        \<and> bot_Type b = (if cbi_Type input = [] then BotTypeChannel else cbi_Type input)
        \<and> bot_ConnectionStatus b = (if bot_Type b = BotTypeHook then [] else BotConnectionStatusLoginRequired)
        \<and> bot_ChannelAccountID b = [] \<and> bot_Role b = cbi_Role input)"
proof (cases "cbi_ExternalUserID input = [] \<or> cbi_Name input = []")
  case True
  with assms(4) show ?thesis by (auto simp: CreateBot_def)
next
  case False
  have ok: "creates_ok bot_ID bot_core bots (br_Create (sv_bots sv))" using assms(1) by (simp add: bot_repo_ok_def)
  note run = assms(4) [unfolded CreateBot_def if_not_P [OF False]]
  from run show ?thesis
  proof (cases rule: andThen_cases)
    case (Err e)
    then show ?thesis using keepsD [OF assms(2)] by simp
  next
    case (Ok u w1)
    note w1 = keepsD [OF assms(2) Ok(1)]
    from Ok(2) show ?thesis
    proof (cases rule: andThen_cases)
      case (Err e)
      then show ?thesis using keepsD [OF assms(3)] w1 by simp
    next
      case (Ok i w2)
      note w2 = keepsD [OF assms(3) Ok(1)]
      from Ok(2) show ?thesis
      proof (cases rule: andThen_cases)
        case (Err e)
        then show ?thesis using failed_write_keeps(1) [OF ok] w1 w2 by simp
      next
        case (Ok b w3)
        note b = creates_okD [OF ok Ok(1)]
        have "bot_core b = bot_core (new_bot sv input (user_ID u) i)" by (rule b(1))
        then have "bot_ID b = i" "bot_Name b = cbi_Name input" "bot_Type b = (if cbi_Type input = [] then BotTypeChannel else cbi_Type input)"
          "bot_ConnectionStatus b = (if bot_Type b = BotTypeHook then [] else BotConnectionStatusLoginRequired)"
          "bot_ChannelAccountID b = []" "bot_Role b = cbi_Role input"
          by (cases b; simp add: bot_core_def new_bot_def Let_def)+
        moreover have "bot_ID b \<notin> bot_ID ` bots w" using b(2) w1 w2 calculation(1) by (simp add: new_bot_def Let_def)
        moreover obtain out where "r = Inr out" "w' = w3" "cbo_BotID out = bot_ID b" "cbo_ConnectionStatus out = bot_ConnectionStatus b"
          using Ok(2) by auto
        ultimately show ?thesis using b(3) w1 w2 False by (auto intro!: exI [of _ b])
      qed
    qed
  qed
qed

section \<open>Configuring\<close>

text \<open>
  \<open>ConfigureBotAgent\<close> changes the agent settings of one bot and nothing else of it: either
  nothing is stored and an error is returned, or the bot of that id is replaced by itself with
  the capability, mode, trimmed alias and prompt and environment of the input (its role, type,
  account and status are kept), and the other bots are as they were; the item returned
  describes the bot stored, except for its role, which it leaves empty.
\<close>

theorem ConfigureBotAgent_replaces:
  assumes "bot_repo_ok bots (sv_bots sv)"
    and "\<And>b ids. keeps bots (mcs_SetBotServers (sv_mcp sv) b ids)" "\<And>b. keeps bots (mcs_ListByBot (sv_mcp sv) b)"
    and "ConfigureBotAgent sv input w = (r, w')"
  shows "(\<exists>e. r = Inl e \<and> bots w' = bots w) \<or>
    (\<exists>b \<in> bots w. \<exists>b1. bot_ID b = cai_BotID input \<and> bot_core b1 = bot_core (configured b input)
       \<and> bots w' = insert b1 {c \<in> bots w. bot_ID c \<noteq> cai_BotID input}
       \<and> (\<forall>item. r = Inr item \<longrightarrow> (\<exists>ids. item = (list_item b1 ids)\<lparr>bli_Role := []\<rparr>)))"
proof (cases "cai_BotID input = [] \<or> cai_AgentCapabilityID input = [] \<or> cai_AgentMode input = []")
  case True
  with assms(4) show ?thesis by (auto simp: ConfigureBotAgent_def)
next
  case False
  let ?i = "cai_BotID input"
  have ok: "lookup_ok bots (\<lambda>b. bot_ID b = ?i) (br_GetByID (sv_bots sv) ?i)" "updates_ok bot_ID bot_core bots (br_Update (sv_bots sv))"
    using assms(1) by (simp_all add: bot_repo_ok_def)
  note run = assms(4) [unfolded ConfigureBotAgent_def if_not_P [OF False]]
  from run show ?thesis
  proof (cases rule: andThen_cases)
    case (Err e)
    then show ?thesis using lookup_okD(1) [OF ok(1) Err(1)] by simp
  next
    case (Ok b w1)
    have b: "b \<in> bots w" "bot_ID b = ?i" "bots w1 = bots w"
      using lookup_okD(1, 2) [OF ok(1) Ok(1)] by auto
    from Ok(2) show ?thesis
    proof (cases rule: andThen_cases)
      case (Err e)
      then show ?thesis using failed_write_keeps(2) [OF ok(2) Err(1)] b by simp
    next
      case (Ok b1 w2)
      have b1: "bot_core b1 = bot_core (configured b input)" "bots w2 = insert b1 {c \<in> bots w. bot_ID c \<noteq> ?i}"
        using updates_okD [OF ok(2) Ok(1)] b by (simp_all add: configured_def)
      have kept: "keeps bots (andThen (mcs_SetBotServers (sv_mcp sv) (bot_ID b1) (cai_MCPServerIDs input)) (\<lambda>_.
          andThen (attachedServerIDs sv (bot_ID b1)) (\<lambda>mcpIDs. return_ok ((list_item b1 mcpIDs)\<lparr>bli_Role := []\<rparr>))))"
        unfolding attachedServerIDs_def by (intro keeps_andThen assms(2, 3) keeps_return)
      have "\<exists>ids. item = (list_item b1 ids)\<lparr>bli_Role := []\<rparr>" if "r = Inr item" for item
        using Ok(2) that by (auto elim!: andThen_InrE)
      with keepsD [OF kept Ok(2)] b b1 show ?thesis by blast
    qed
  qed
qed

section \<open>Refreshing a login\<close>

text \<open>What the confirmed branch leaves to be stored.\<close>

lemma confirm_login_binding:
  assumes "confirm_login env sv b binding result w = (Inr bd, w')"
  shows "\<exists>a t. bd = binding\<lparr>cb_ChannelAccountID := a, cb_FinishedAt := Some t\<rparr>"
proof -
  from assms obtain account now w1 where
    "(let binding1 = binding\<lparr>cb_ChannelAccountID := ca_ID account, cb_FinishedAt := Some now\<rparr>;
          b1 = linked_bot b account in
     andThen (br_Update (sv_bots sv) b1) (\<lambda>_. andThen (start_runtime sv b1 binding1) (\<lambda>_. return_ok binding1))) w1 = (Inr bd, w')"
    unfolding confirm_login_def by (auto elim!: andThen_InrE split: prod.splits)
  then have "bd = binding\<lparr>cb_ChannelAccountID := ca_ID account, cb_FinishedAt := Some now\<rparr>"
    by (auto simp: Let_def elim!: andThen_InrE)
  then show ?thesis by blast
qed

text \<open>
  When \<open>RefreshLogin\<close> succeeds, the status it reports is the one of the binding now stored;
  a binding that reached a final status (confirmed, failed, expired) is stored with its finish
  time, and the account it is linked to is the one reported.
\<close>

theorem RefreshLogin_stores_outcome:
  assumes "binding_repo_ok bindings (sv_bindings sv)"
    and "\<And>i. keeps bindings (br_GetByID (sv_bots sv) i)"
    and "RefreshLogin env sv i w = (Inr out, w')"
  shows "\<exists>bd \<in> bindings w'. cb_ID bd = rlo_BindingID out \<and> cb_Status bd = rlo_Status out
    \<and> cb_ChannelAccountID bd = rlo_ChannelAccountID out
    \<and> (rlo_Status out \<in> {BindingStatusConfirmed, BindingStatusFailed, BindingStatusExpired} \<longrightarrow> cb_FinishedAt bd \<noteq> None)"
proof -
  have ok: "updates_ok cb_ID binding_core bindings (cbrepo_Update (sv_bindings sv))"
    using assms(1) by (simp add: binding_repo_ok_def)
  from assms(3) have "i \<noteq> []" by (auto simp: RefreshLogin_def)
  with assms(3) obtain binding b result bd bd3 b1 w3 w4 w5 w6 where
    bd: "(let binding1 = refreshed_binding binding result; status = rbr_ProviderStatus result in
           if status = BindingStatusConfirmed then confirm_login env sv b binding1 result
           else if status = BindingStatusFailed \<or> status = BindingStatusExpired then
             andThen (time_now env) (\<lambda>now.
             andThen (br_Update (sv_bots sv)
               (b\<lparr>bot_ConnectionStatus := BotConnectionStatusError,
                  bot_ConnectionError := (if rbr_ErrorMessage result = [] then status else rbr_ErrorMessage result)\<rparr>)) (\<lambda>_.
             return_ok (binding1\<lparr>cb_FinishedAt := Some now\<rparr>)))
           else return_ok binding1) w3 = (Inr bd, w4)"
    and up: "cbrepo_Update (sv_bindings sv) bd w4 = (Inr bd3, w5)"
    and get: "br_GetByID (sv_bots sv) (bot_ID b) w5 = (Inr b1, w')"
    and out: "rlo_BindingID out = cb_ID bd3" "rlo_Status out = cb_Status bd3" "rlo_ChannelAccountID out = cb_ChannelAccountID bd3"
    unfolding RefreshLogin_def if_not_P [OF \<open>i \<noteq> []\<close>] by (elim andThen_InrE) simp
  have status: "cb_Status bd = rbr_ProviderStatus result"
    and finished: "rbr_ProviderStatus result \<in> {BindingStatusConfirmed, BindingStatusFailed, BindingStatusExpired} \<Longrightarrow> cb_FinishedAt bd \<noteq> None"
    using bd by (auto simp: Let_def refreshed_binding_def elim!: andThen_InrE dest!: confirm_login_binding split: if_splits)
  note u = updates_okD [OF ok up]
  have "binding_core bd3 = binding_core bd" by (rule u(1))
  then have same: "cb_Status bd3 = cb_Status bd" "cb_FinishedAt bd3 = cb_FinishedAt bd"
    by (cases bd3; cases bd; simp add: binding_core_def)+
  have "bd3 \<in> bindings w'" using u(2) keepsD [OF assms(2) get] by simp
  then show ?thesis using same out status finished by (intro bexI [of _ bd3]) auto
qed

section \<open>A service in memory\<close>

record sampleWorld =
  sw_bots :: "botRow list"
  sw_bindings :: "channelBindingRow list"

definition sample_bot :: bot where
  "sample_bot = \<lparr>bot_ID = ''b1'', bot_UserID = ''u'', bot_Name = ''bot'', bot_Type = BotTypeChannel, bot_ChannelType = ''wechat'',
     bot_ChannelAccountID = [], bot_ConnectionStatus = BotConnectionStatusLoginRequired, bot_ConnectionError = [],
     bot_AgentCapabilityID = [], bot_AgentMode = [], bot_Role = BotRoleOrchestrator, bot_CLIAlias = [], bot_Workspace = [],
     bot_SystemPrompt = [], bot_AgentEnv = [], bot_LastConnectedAt = None, bot_CreatedAt = Some 1, bot_UpdatedAt = Some 1\<rparr>"

definition sample_binding :: channelBindingRow where
  "sample_binding = \<lparr>cbm_ID = ''bind_1'', cbm_BotID = ''b1'', cbm_UserID = ''u'', cbm_ChannelType = ''wechat'',
     cbm_Status = BindingStatusQRReady, cbm_ProviderBindingRef = ''ref'', cbm_QRCodePayload = [], cbm_ExpiresAt = None,
     cbm_ErrorMessage = [], cbm_ChannelAccountID = [], cbm_CreatedAt = Some 1, cbm_UpdatedAt = Some 1, cbm_FinishedAt = None\<rparr>"

definition sample_world :: sampleWorld where
  "sample_world = \<lparr>sw_bots = [bot_row sample_bot (Some 1) (Some 1)], sw_bindings = [sample_binding]\<rparr>"

definition sample_service :: "sampleWorld botService" where
  "sample_service =
     \<lparr>sv_users = \<lparr>ur_FindOrCreateByExternalUserID =
        (\<lambda>x w. (Inr \<lparr>user_ID = ''u'', user_ExternalUserID = x, user_Status = ''active'', user_CreatedAt = None, user_UpdatedAt = None\<rparr>, w))\<rparr>,
      sv_bots = BotRepository sample_env (mem_table bm_ID sw_bots (\<lambda>xs w. w\<lparr>sw_bots := xs\<rparr>)),
      sv_bindings = ChannelBindingRepository sample_env (mem_table cbm_ID sw_bindings (\<lambda>xs w. w\<lparr>sw_bindings := xs\<rparr>)),
      sv_accounts = \<lparr>car_Upsert = (\<lambda>a w. (Inr a, w)), car_GetByID = (\<lambda>_ w. (Inl ErrNotFound, w)), car_ListByUserID = (\<lambda>_ _ w. (Inr [], w))\<rparr>,
      sv_capabilities = undefined, sv_capabilityDiscoverer = None, sv_Encrypt = (\<lambda>p w. (Inr p, w)),
      sv_CreateBinding = (\<lambda>_ w. (Inl (errorf ''offline''), w)),
      sv_RefreshBinding = (\<lambda>_ w. (Inr \<lparr>rbr_ProviderStatus = BindingStatusConfirmed, rbr_QRCodePayload = [], rbr_ExpiresAt = None,
         rbr_AccountUID = ''uid'', rbr_DisplayName = [], rbr_AvatarURL = [], rbr_CredentialPayload = ''secret'',
         rbr_CredentialVersion = 1, rbr_ErrorMessage = []\<rparr>, w)),
      sv_runtimes_Start = None, sv_workspaceRoot = [],
      sv_mcp = \<lparr>mcs_repo = (undefined :: sampleWorld mcpServerRepository)
          \<lparr>mcr_SetBotServers := (\<lambda>_ _ w. (Inr (), w)), mcr_ListByBot := (\<lambda>_ w. (Inr [], w)), mcr_GetByID := (\<lambda>_ w. (Inl ErrNotFound, w))\<rparr>,
        mcs_bots = BotRepository sample_env (mem_table bm_ID sw_bots (\<lambda>xs w. w\<lparr>sw_bots := xs\<rparr>))\<rparr>\<rparr>"

definition sample_bots :: "sampleWorld \<Rightarrow> bot set" where
  "sample_bots w = toDomainBot ` set (sw_bots w)"

definition sample_bindings :: "sampleWorld \<Rightarrow> channelBinding set" where
  "sample_bindings w = toDomainChannelBinding ` set (sw_bindings w)"

lemma sample_service_ok:
  "bot_repo_ok sample_bots (sv_bots sample_service)" "binding_repo_ok sample_bindings (sv_bindings sample_service)"
  using bot_repository_contract [OF mem_table_ok [where get = sw_bots and put = "\<lambda>xs w. w\<lparr>sw_bots := xs\<rparr>"]]
    ChannelBindingRepository_refines [OF mem_table_ok [where get = sw_bindings and put = "\<lambda>xs w. w\<lparr>sw_bindings := xs\<rparr>"]]
  by (simp_all add: sample_service_def sample_bots_def [abs_def] sample_bindings_def [abs_def])

lemma keeps_first_row: "keeps view (tb_First tb P) \<Longrightarrow> keeps view (first_row tb P)"
  unfolding first_row_def by (intro keeps_attempt) (auto split: sum.splits)

lemma keeps_delete_rows: "keeps view (tb_Delete tb P) \<Longrightarrow> keeps view (delete_rows tb P)"
  unfolding delete_rows_def by (intro keeps_andThen) auto

lemma sample_service_keeps:
  "keeps sample_bindings (br_GetByID (sv_bots sample_service) i)"
  "keeps sample_bindings (br_DeleteByID (sv_bots sample_service) i)"
  "keeps sample_bots (cbrepo_DeleteByBotID (sv_bindings sample_service) i)"
  "keeps sample_bots (mcs_ListByBot (sv_mcp sample_service) i)"
  "keeps sample_bots (ur_FindOrCreateByExternalUserID (sv_users sample_service) i)"
  "keeps sample_bots (fresh_id sample_env ''bot'')"
proof -
  show "keeps sample_bindings (br_GetByID (sv_bots sample_service) i)"
    "keeps sample_bindings (br_DeleteByID (sv_bots sample_service) i)"
    "keeps sample_bots (cbrepo_DeleteByBotID (sv_bindings sample_service) i)"
    by (simp_all add: sample_service_def BotRepository_def ChannelBindingRepository_def bots_GetByID_def bots_DeleteByID_def
        bindings_DeleteByBotID_def sample_bindings_def sample_bots_def keeps_andThen keeps_first_row keeps_delete_rows mem_table_keeps)
  show "keeps sample_bots (mcs_ListByBot (sv_mcp sample_service) i)"
    "keeps sample_bots (ur_FindOrCreateByExternalUserID (sv_users sample_service) i)"
    "keeps sample_bots (fresh_id sample_env ''bot'')"
    by (simp_all add: keeps_def sample_service_def mcs_ListByBot_def fresh_id_def sample_env_def)
qed

lemmas sample_defs = sample_service_def sample_world_def sample_bot_def sample_binding_def sample_env_def
  BotRepository_def ChannelBindingRepository_def mem_table_def andThen_def attempt_def return_ok_def return_err_def
  time_now_def fresh_id_def first_row_def delete_rows_def bot_row_def

lemma DeleteBot_removes_witness:
  "sample_bots (snd (DeleteBot sample_service ''b1'' sample_world)) = {}"
proof -
  have r: "DeleteBot sample_service ''b1'' sample_world = (Inr (), \<lparr>sw_bots = [], sw_bindings = []\<rparr>)"
    by (simp add: DeleteBot_def bots_GetByID_def bots_DeleteByID_def bindings_DeleteByBotID_def sample_defs)
  have "sample_bots (snd (DeleteBot sample_service ''b1'' sample_world)) = {b \<in> sample_bots sample_world. bot_ID b \<noteq> ''b1''}"
    using DeleteBot_removes [OF sample_service_ok sample_service_keeps(3, 1, 2) r] by (simp add: r)
  then show ?thesis by (simp add: sample_bots_def sample_world_def sample_bot_def bot_row_def toDomainBot_def)
qed

lemma CreateBot_adds_witness:
  "\<exists>b. sample_bots (snd (CreateBot sample_env sample_service
        \<lparr>cbi_ExternalUserID = ''x'', cbi_Name = ''hook'', cbi_Type = BotTypeHook, cbi_Role = [], cbi_ChannelType = [],
         cbi_AgentCapabilityID = [], cbi_AgentMode = [], cbi_SystemPrompt = [], cbi_AgentEnv = []\<rparr> sample_world)) =
      insert b (sample_bots sample_world) \<and> bot_ConnectionStatus b = []"
proof -
  let ?in = "\<lparr>cbi_ExternalUserID = ''x'', cbi_Name = ''hook'', cbi_Type = BotTypeHook, cbi_Role = [], cbi_ChannelType = [],
         cbi_AgentCapabilityID = [], cbi_AgentMode = [], cbi_SystemPrompt = [], cbi_AgentEnv = []\<rparr>"
  have id: "NewPrefixedID ''01'' ''bot'' \<noteq> ''b1''"
    by (simp add: NewPrefixedID_def Let_def TrimSpace_plain plain_char_def)
  obtain out w' where r: "CreateBot sample_env sample_service ?in sample_world = (Inr out, w')"
    using id by (simp add: CreateBot_def bots_Create_def new_bot_def Let_def sample_defs)
  have t: "cbi_Type ?in = BotTypeHook" "BotTypeHook \<noteq> []" by (simp_all add: BotTypeHook_def)
  show ?thesis
    using CreateBot_adds [OF sample_service_ok(1) sample_service_keeps(5, 6) r] t by (auto simp: r)
qed

lemma ConfigureBotAgent_replaces_witness:
  "\<exists>b1. sample_bots (snd (ConfigureBotAgent sample_service
        \<lparr>cai_BotID = ''b1'', cai_AgentCapabilityID = ''cap'', cai_AgentMode = ''codex-exec'', cai_CLIAlias = [],
         cai_MCPServerIDs = [], cai_SystemPrompt = [], cai_AgentEnv = []\<rparr> sample_world)) = {b1}
     \<and> bot_Role b1 = BotRoleOrchestrator \<and> bot_AgentMode b1 = ''codex-exec''"
proof -
  let ?in = "\<lparr>cai_BotID = ''b1'', cai_AgentCapabilityID = ''cap'', cai_AgentMode = ''codex-exec'', cai_CLIAlias = [],
         cai_MCPServerIDs = [], cai_SystemPrompt = [], cai_AgentEnv = []\<rparr>"
  have set: "keeps sample_bots (mcs_SetBotServers (sv_mcp sample_service) b ids)" for b ids
  proof -
    have "keeps sample_bots (require_servers (sv_mcp sample_service) ids)"
      by (cases ids; auto simp: keeps_def attempt_def sample_service_def split: sum.splits prod.splits)
    moreover have "keeps sample_bots (mcs_requireBot (sv_mcp sample_service) b)"
      unfolding mcs_requireBot_def
    proof (intro keeps_attempt)
      have "mcs_bots (sv_mcp sample_service) = sv_bots sample_service" by (simp add: sample_service_def)
      then show "keeps sample_bots (br_GetByID (mcs_bots (sv_mcp sample_service)) b)"
        using sample_service_ok(1) by (auto simp: bot_repo_ok_def intro: lookup_ok_keeps)
    qed (auto split: sum.splits)
    ultimately show ?thesis
      unfolding mcs_SetBotServers_def by (intro keeps_andThen) (auto simp: sample_service_def keeps_def)
  qed
  obtain item w' where r: "ConfigureBotAgent sample_service ?in sample_world = (Inr item, w')"
    by (simp add: ConfigureBotAgent_def bots_GetByID_def bots_Update_def configured_def attachedServerIDs_def
        mcs_SetBotServers_def mcs_requireBot_def mcs_ListByBot_def sample_defs)
  obtain b b1 where b: "b \<in> sample_bots sample_world" "bot_core b1 = bot_core (configured b ?in)"
      "sample_bots w' = insert b1 {c \<in> sample_bots sample_world. bot_ID c \<noteq> ''b1''}"
    using ConfigureBotAgent_replaces [OF sample_service_ok(1) set sample_service_keeps(4) r] by auto
  have world: "sample_bots sample_world = {sample_bot}"
    by (simp add: sample_bots_def sample_world_def sample_bot_def)
  have "bot_Role b1 = bot_Role b" "bot_AgentMode b1 = ''codex-exec''"
    using b(2) by (cases b1; cases b; simp add: bot_core_def configured_def)+
  moreover have sample_id: "bot_ID sample_bot = ''b1''" by (simp add: sample_bot_def)
  moreover have "b = sample_bot" "sample_bots w' = {b1}"
    using b(1, 3) sample_id unfolding world by auto
  moreover have "bot_Role sample_bot = BotRoleOrchestrator" by (simp add: sample_bot_def)
  ultimately show ?thesis by (intro exI [of _ b1]) (simp only: r snd_conv simp_thms)
qed

lemma RefreshLogin_stores_outcome_witness:
  "\<exists>bd \<in> sample_bindings (snd (RefreshLogin sample_env sample_service ''bind_1'' sample_world)). cb_FinishedAt bd \<noteq> None"
proof -
  have status: "BindingStatusConfirmed \<noteq> BindingStatusFailed" by (simp add: status_defs)
  obtain out w' where r: "RefreshLogin sample_env sample_service ''bind_1'' sample_world = (Inr out, w')"
    and s: "rlo_Status out = BindingStatusConfirmed"
    by (simp add: RefreshLogin_def bindings_GetByID_def bindings_Update_def bots_GetByID_def bots_Update_def confirm_login_def
        store_account_def start_runtime_def linked_bot_def refreshed_binding_def toDomainChannelBinding_def toDomainBot_def
        Let_def sample_defs)
  show ?thesis
    using RefreshLogin_stores_outcome [OF sample_service_ok(2) sample_service_keeps(1) r] s by (auto simp: r)
qed

end
