(* ===== verification/ConnectionManager.thy ===== *)
theory ConnectionManager
  imports BotServiceLaws
begin

text \<open>
  The connection manager (\<open>internal/app/bot/connection_manager.go\<close>): which bots have a running
  channel runtime.

  \<open>cm_handles\<close> is the Go map under the manager's mutex; a \<open>nil\<close> handle, which reserves the bot
  while its runtime starts, is \<open>Some None\<close>.  \<open>Start\<close> takes the mutex three times: to reserve, to
  install the handle, and in the deferred cleanup; the sections are operations of their own,
  \<open>Start\<close> is their sequence, and \<open>conn_step\<close> interleaves them with each other and with runtimes
  that end by themselves.
\<close>

section \<open>Operations\<close>

record connManager =
  cm_handles :: "string \<Rightarrow> nat option option"

definition ErrRuntimeAlreadyStarted :: goerr where
  "ErrRuntimeAlreadyStarted = \<lparr>err_msg = ''runtime already started'', err_wraps = [RuntimeAlreadyStarted]\<rparr>"

definition NewBotConnectionManager :: connManager where
  "NewBotConnectionManager = \<lparr>cm_handles = Map.empty\<rparr>"

definition Start_reserve :: "string \<Rightarrow> connManager \<Rightarrow> goerr option \<times> connManager" where
  "Start_reserve botID m =
     (case cm_handles m botID of
        Some _ \<Rightarrow> (Some ErrRuntimeAlreadyStarted, m)
      | None \<Rightarrow> (None, m\<lparr>cm_handles := (cm_handles m)(botID \<mapsto> None)\<rparr>))"

definition Start_cleanup :: "string \<Rightarrow> connManager \<Rightarrow> connManager" where
  "Start_cleanup botID m =
     (if cm_handles m botID = Some None then m\<lparr>cm_handles := (cm_handles m)(botID := None)\<rparr> else m)"

text \<open>An error here means that the caller stops the handle.\<close>

definition Start_install :: "string \<Rightarrow> nat \<Rightarrow> connManager \<Rightarrow> goerr option \<times> connManager" where
  "Start_install botID handle m =
     (case cm_handles m botID of
        None \<Rightarrow> (Some ErrRuntimeAlreadyStarted, m)
      | Some (Some _) \<Rightarrow> (Some ErrRuntimeAlreadyStarted, m)
      | Some None \<Rightarrow> (None, m\<lparr>cm_handles := (cm_handles m)(botID \<mapsto> Some handle)\<rparr>))"

text \<open>
  The request for the channel; with nil repositories it names the bot only and sets no
  callbacks.  The second part is the bot the state callback will work on.
\<close>

definition Start_request ::
  "('w botRepository \<times> 'w channelAccountRepository) option \<Rightarrow> (string \<Rightarrow> goerr + string) option \<Rightarrow> string
     \<Rightarrow> ('w, startRuntimeRequest \<times> bot option) io" where
  "Start_request repos decrypt botID =
     (case repos of
        None \<Rightarrow>
          return_ok (\<lparr>srq_BotID = botID, srq_ChannelType = [], srq_AccountUID = [], srq_CredentialPayload = [],
                      srq_CredentialVersion = 0, srq_OnEvent = False, srq_OnState = False\<rparr>, None)
      | Some (bots, accounts) \<Rightarrow>
          andThen (br_GetByID bots botID) (\<lambda>b.
          andThen (car_GetByID accounts (bot_ChannelAccountID b)) (\<lambda>account.
          andThen (lift_sum (case decrypt of
                      None \<Rightarrow> Inr (ca_CredentialCiphertext account)
                    | Some d \<Rightarrow> d (ca_CredentialCiphertext account))) (\<lambda>credentialPayload.
          return_ok (\<lparr>srq_BotID = bot_ID b, srq_ChannelType = bot_ChannelType b, srq_AccountUID = ca_AccountUID account,
                      srq_CredentialPayload = credentialPayload, srq_CredentialVersion = ca_CredentialVersion account,
                      srq_OnEvent = True, srq_OnState = True\<rparr>, Some b)))))"

text \<open>\<open>Start\<close> when nothing else touches the map meanwhile.\<close>

definition conn_Start ::
  "('w botRepository \<times> 'w channelAccountRepository) option \<Rightarrow> (string \<Rightarrow> goerr + string) option
     \<Rightarrow> (startRuntimeRequest \<Rightarrow> ('w, nat) io) \<Rightarrow> (nat \<Rightarrow> 'w \<Rightarrow> 'w)
     \<Rightarrow> string \<Rightarrow> connManager \<times> 'w \<Rightarrow> goerr option \<times> connManager \<times> 'w" where
  "conn_Start repos decrypt StartRuntime Stop botID mw =
     (case mw of (m, w) \<Rightarrow>
        (case Start_reserve botID m of
           (Some err, m1) \<Rightarrow> (Some err, m1, w)
         | (None, m1) \<Rightarrow>
             (case andThen (Start_request repos decrypt botID) (\<lambda>(req, _). StartRuntime req) w of
                (Inl err, w1) \<Rightarrow> (Some err, Start_cleanup botID m1, w1)
              | (Inr handle, w1) \<Rightarrow>
                  (case Start_install botID handle m1 of
                     (Some err, m2) \<Rightarrow> (Some err, Start_cleanup botID m2, Stop handle w1)
                   | (None, m2) \<Rightarrow> (None, m2, w1)))))"

definition conn_remove :: "string \<Rightarrow> connManager \<Rightarrow> connManager" where
  "conn_remove botID m = m\<lparr>cm_handles := (cm_handles m)(botID := None)\<rparr>"

definition conn_notifyStop :: "(string \<Rightarrow> 'w \<Rightarrow> 'w) option \<Rightarrow> string \<Rightarrow> 'w \<Rightarrow> 'w" where
  "conn_notifyStop onStop botID w = (case onStop of None \<Rightarrow> w | Some f \<Rightarrow> f botID w)"

text \<open>
  \<open>handleState\<close> works on its own copy \<open>b\<close> of the bot, taken when the runtime was started; a
  failed update is ignored.
\<close>

definition state_bot :: "bot \<Rightarrow> runtimeStateEvent \<Rightarrow> bot" where
  "state_bot b ev =
     (case se_State ev of
        RuntimeStateConnected \<Rightarrow> b\<lparr>bot_ConnectionStatus := BotConnectionStatusConnected, bot_ConnectionError := []\<rparr>
      | RuntimeStateError \<Rightarrow>
          b\<lparr>bot_ConnectionStatus :=
              (if (case se_Err ev of None \<Rightarrow> False | Some e \<Rightarrow> errors_Is e SessionExpired)
               then BotConnectionStatusLoginRequired else BotConnectionStatusError),
            bot_ConnectionError := (case se_Err ev of None \<Rightarrow> bot_ConnectionError b | Some e \<Rightarrow> err_msg e)\<rparr>
      | RuntimeStateStopped \<Rightarrow> b)"

definition handleState ::
  "'w botRepository \<Rightarrow> (string \<Rightarrow> 'w \<Rightarrow> 'w) option \<Rightarrow> bot \<Rightarrow> runtimeStateEvent \<Rightarrow> connManager \<times> 'w \<Rightarrow> connManager \<times> 'w" where
  "handleState bots onStop b ev mw =
     (case mw of (m, w) \<Rightarrow>
        (case se_State ev of
           RuntimeStateConnected \<Rightarrow> (m, snd (br_Update bots (state_bot b ev) w))
         | RuntimeStateError \<Rightarrow>
             (conn_remove (bot_ID b) m,
              conn_notifyStop onStop (bot_ID b) (snd (br_Update bots (state_bot b ev) w)))
         | RuntimeStateStopped \<Rightarrow> (conn_remove (bot_ID b) m, conn_notifyStop onStop (bot_ID b) w)))"

definition conn_Active :: "string \<Rightarrow> connManager \<Rightarrow> bool" where
  "conn_Active botID m \<longleftrightarrow> cm_handles m botID \<noteq> None"

section \<open>Starting in isolation\<close>

lemma drop_absent: "cm_handles m i = None \<Longrightarrow> m\<lparr>cm_handles := (cm_handles m)(i := None)\<rparr> = m"
  by (cases m) (simp add: fun_upd_idem)

text \<open>
  \<open>Start\<close>, when nothing else happens to the bot meanwhile: a bot that is active or being
  started is refused without effect; otherwise the bot ends up active with the handle its
  channel returned, or, when loading, decrypting or starting fails, the map is as before and
  the error is the one of the step that failed; no handle is ever stopped.
\<close>

theorem conn_Start_outcome:
  assumes "conn_Start repos decrypt StartRuntime Stop i (m, w) = (r, m', w')"
  shows "if conn_Active i m then r = Some ErrRuntimeAlreadyStarted \<and> m' = m \<and> w' = w
    else (case andThen (Start_request repos decrypt i) (\<lambda>(req, _). StartRuntime req) w of
            (Inl err, w1) \<Rightarrow> r = Some err \<and> m' = m \<and> w' = w1
          | (Inr h, w1) \<Rightarrow> r = None \<and> cm_handles m' = (cm_handles m)(i \<mapsto> Some h) \<and> w' = w1)"
  using assms
  by (auto simp: conn_Start_def Start_reserve_def Start_install_def Start_cleanup_def conn_Active_def drop_absent
      split: option.splits prod.splits sum.splits)

lemma conn_Start_outcome_witness:
  "conn_Start (None :: (nat botRepository \<times> nat channelAccountRepository) option) None (\<lambda>_ w. (Inr 3, w)) (\<lambda>_ w. w) ''b''
      (NewBotConnectionManager, 0) = (None, \<lparr>cm_handles = [''b'' \<mapsto> Some 3]\<rparr>, 0)"
proof -
  let ?run = "conn_Start (None :: (nat botRepository \<times> nat channelAccountRepository) option) None (\<lambda>_ w. (Inr 3, w)) (\<lambda>_ w. w) ''b''
      (NewBotConnectionManager, 0)"
  obtain r m' w' where r: "?run = (r, m', w')" using prod_cases3 by blast
  from conn_Start_outcome [OF r] have "r = None" "cm_handles m' = [''b'' \<mapsto> Some 3]" "w' = 0"
    by (simp_all add: conn_Active_def NewBotConnectionManager_def andThen_def Start_request_def return_ok_def)
  then show ?thesis unfolding r by (cases m') simp
qed

section \<open>State events\<close>

text \<open>
  A runtime's state event writes back the bot as it was when the runtime started, with a
  new status: an update that succeeds replaces whatever is stored under that id, so settings
  changed meanwhile are undone and a bot deleted meanwhile is stored again.  An expired
  session asks for a login, any other error is recorded with its message; an error or a stop
  makes the bot inactive.
\<close>

theorem handleState_writes_snapshot:
  assumes "bot_repo_ok bots r" "se_State ev \<noteq> RuntimeStateStopped"
    and "br_Update r (state_bot b ev) w = (Inr stored, w1)"
    and "handleState r None b ev (m, w) = (m', w')"
  shows "bots w' = insert stored {c \<in> bots w. bot_ID c \<noteq> bot_ID b} \<and> bot_core stored = bot_core (state_bot b ev)
    \<and> (se_State ev = RuntimeStateError \<longrightarrow> \<not> conn_Active (bot_ID b) m'
         \<and> (bot_ConnectionStatus stored = BotConnectionStatusLoginRequired \<longleftrightarrow>
              (\<exists>e. se_Err ev = Some e \<and> errors_Is e SessionExpired)))
    \<and> (se_State ev = RuntimeStateConnected \<longrightarrow> m' = m \<and> bot_ConnectionStatus stored = BotConnectionStatusConnected)"
proof -
  have ok: "updates_ok bot_ID bot_core bots (br_Update r)" using assms(1) by (simp add: bot_repo_ok_def)
  note u = updates_okD [OF ok assms(3)]
  have id: "bot_ID (state_bot b ev) = bot_ID b" by (auto simp: state_bot_def split: runtimeStateKind.splits)
  have status: "bot_ConnectionStatus stored = bot_ConnectionStatus (state_bot b ev)"
    using u(1) by (cases stored; cases "state_bot b ev") (simp add: bot_core_def)
  have w': "w' = w1" using assms(2-4) by (auto simp: handleState_def conn_notifyStop_def split: runtimeStateKind.splits)
  show ?thesis
    using assms(2, 4) u id status w'
    by (cases "se_State ev")
      (auto simp: handleState_def conn_Active_def conn_remove_def state_bot_def status_defs split: option.splits)
qed

lemma handleState_writes_snapshot_witness:
  "\<exists>w'. handleState (BotRepository sample_env (mem_table bm_ID id (\<lambda>xs _. xs))) None sample_bot
       \<lparr>se_BotID = ''b1'', se_ChannelType = [], se_State = RuntimeStateConnected, se_Err = None, se_Reason = []\<rparr>
       (NewBotConnectionManager, []) = (NewBotConnectionManager, w') \<and> toDomainBot ` set w' \<noteq> {}"
proof -
  let ?repo = "BotRepository sample_env (mem_table bm_ID id (\<lambda>xs _. xs))"
  let ?ev = "\<lparr>se_BotID = ''b1'', se_ChannelType = [], se_State = RuntimeStateConnected, se_Err = None, se_Reason = []\<rparr>"
  have ok: "bot_repo_ok (\<lambda>w. toDomainBot ` set (id w)) ?repo"
    by (rule bot_repository_contract [OF mem_table_ok]) simp
  obtain stored w1 where u: "br_Update ?repo (state_bot sample_bot ?ev) [] = (Inr stored, w1)"
    by (simp add: BotRepository_def bots_Update_def mem_table_def andThen_def time_now_def return_ok_def)
  obtain m' w' where h: "handleState ?repo None sample_bot ?ev (NewBotConnectionManager, []) = (m', w')"
    by fastforce
  from handleState_writes_snapshot [OF ok _ u h] show ?thesis by (auto simp: h)
qed

section \<open>Interleaved starts\<close>

text \<open>
  Several calls of \<open>Start\<close> and the runtimes they started.  A call is between its sections in
  one of four phases: \<open>Refused\<close> has released the mutex and is about to stop the handle it may
  not install.  A runtime is live from its start until it is stopped or ends by itself, which it reports once
  by a state event that removes the bot's entry; the event of a runtime that was stopped comes later
  (\<open>cs_stopping\<close>).  \<open>ends\<close> tells whether runtimes may end by themselves.
\<close>

datatype startPhase = Reserved | Started nat | Refused nat | Failing

record connSys =
  cs_mgr :: connManager
  cs_starts :: "nat \<Rightarrow> (string \<times> startPhase) option"
  cs_live :: "(nat \<times> string) set"
  cs_stopping :: "(nat \<times> string) set"
  cs_next :: nat

definition conn_init :: "connSys \<Rightarrow> bool" where
  "conn_init s \<longleftrightarrow> s = \<lparr>cs_mgr = NewBotConnectionManager, cs_starts = Map.empty, cs_live = {}, cs_stopping = {},
     cs_next = 0\<rparr>"

inductive conn_step :: "bool \<Rightarrow> connSys \<Rightarrow> connSys \<Rightarrow> bool" for ends where
  reserve: "cs_starts s t = None \<Longrightarrow> Start_reserve b (cs_mgr s) = (None, m) \<Longrightarrow>
    conn_step ends s (s\<lparr>cs_mgr := m, cs_starts := (cs_starts s)(t \<mapsto> (b, Reserved))\<rparr>)"
| start_fails: "cs_starts s t = Some (b, Reserved) \<Longrightarrow>
    conn_step ends s (s\<lparr>cs_starts := (cs_starts s)(t \<mapsto> (b, Failing))\<rparr>)"
| started: "cs_starts s t = Some (b, Reserved) \<Longrightarrow>
    conn_step ends s (s\<lparr>cs_starts := (cs_starts s)(t \<mapsto> (b, Started (cs_next s))),
                        cs_live := insert (cs_next s, b) (cs_live s), cs_next := cs_next s + 1\<rparr>)"
| install: "cs_starts s t = Some (b, Started h) \<Longrightarrow> Start_install b h (cs_mgr s) = (None, m) \<Longrightarrow>
    conn_step ends s (s\<lparr>cs_mgr := m, cs_starts := (cs_starts s)(t := None)\<rparr>)"
| reject: "cs_starts s t = Some (b, Started h) \<Longrightarrow> Start_install b h (cs_mgr s) = (Some err, m) \<Longrightarrow>
    conn_step ends s (s\<lparr>cs_mgr := m, cs_starts := (cs_starts s)(t \<mapsto> (b, Refused h))\<rparr>)"
| stop: "cs_starts s t = Some (b, Refused h) \<Longrightarrow>
    conn_step ends s (s\<lparr>cs_starts := (cs_starts s)(t \<mapsto> (b, Failing)), cs_live := cs_live s - {(h, b)},
                        cs_stopping := cs_stopping s \<union> (cs_live s \<inter> {(h, b)})\<rparr>)"
| stopped: "(h, b) \<in> cs_stopping s \<Longrightarrow>
    conn_step ends s (s\<lparr>cs_mgr := conn_remove b (cs_mgr s), cs_stopping := cs_stopping s - {(h, b)}\<rparr>)"
| cleanup: "cs_starts s t = Some (b, Failing) \<Longrightarrow>
    conn_step ends s (s\<lparr>cs_mgr := Start_cleanup b (cs_mgr s), cs_starts := (cs_starts s)(t := None)\<rparr>)"
| ended: "ends \<Longrightarrow> (h, b) \<in> cs_live s \<Longrightarrow>
    conn_step ends s (s\<lparr>cs_mgr := conn_remove b (cs_mgr s), cs_live := cs_live s - {(h, b)}\<rparr>)"

text \<open>
  While runtimes only end by being stopped, a bot is idle, or being started by one call that
  owns its reservation, or running one registered runtime.
\<close>

definition bot_idle :: "connSys \<Rightarrow> string \<Rightarrow> bool" where
  "bot_idle s b \<longleftrightarrow> cm_handles (cs_mgr s) b = None \<and> (\<forall>t p. cs_starts s t \<noteq> Some (b, p)) \<and> (\<forall>h. (h, b) \<notin> cs_live s)"

definition bot_starting :: "connSys \<Rightarrow> string \<Rightarrow> nat \<Rightarrow> startPhase \<Rightarrow> bool" where
  "bot_starting s b t p \<longleftrightarrow> cm_handles (cs_mgr s) b = Some None \<and> cs_starts s t = Some (b, p) \<and> (\<forall>h. p \<noteq> Refused h)
     \<and> (\<forall>t' p'. cs_starts s t' = Some (b, p') \<longrightarrow> t' = t) \<and> (\<forall>h. (h, b) \<in> cs_live s \<longleftrightarrow> p = Started h)"

definition bot_running :: "connSys \<Rightarrow> string \<Rightarrow> nat \<Rightarrow> bool" where
  "bot_running s b h \<longleftrightarrow> cm_handles (cs_mgr s) b = Some (Some h) \<and> (\<forall>t p. cs_starts s t \<noteq> Some (b, p))
     \<and> (\<forall>h'. (h', b) \<in> cs_live s \<longleftrightarrow> h' = h)"

definition bot_exclusive :: "connSys \<Rightarrow> string \<Rightarrow> bool" where
  "bot_exclusive s b \<longleftrightarrow> bot_idle s b \<or> (\<exists>t p. bot_starting s b t p) \<or> (\<exists>h. bot_running s b h)"

definition conn_exclusive :: "connSys \<Rightarrow> bool" where
  "conn_exclusive s \<longleftrightarrow> (\<forall>b. bot_exclusive s b) \<and> (\<forall>h b. (h, b) \<in> cs_live s \<longrightarrow> h < cs_next s) \<and> cs_stopping s = {}"

lemma conn_init_exclusive: "conn_init s \<Longrightarrow> conn_exclusive s"
  by (simp add: conn_init_def conn_exclusive_def bot_exclusive_def bot_idle_def NewBotConnectionManager_def)

text \<open>A bot that a step does not concern stays as it is.\<close>

lemma bot_exclusive_cong:
  assumes "cm_handles (cs_mgr s') b = cm_handles (cs_mgr s) b" "\<And>t p. cs_starts s' t = Some (b, p) \<longleftrightarrow> cs_starts s t = Some (b, p)"
    and "\<And>h. (h, b) \<in> cs_live s' \<longleftrightarrow> (h, b) \<in> cs_live s"
  shows "bot_exclusive s' b = bot_exclusive s b"
  using assms by (simp add: bot_exclusive_def bot_idle_def bot_starting_def bot_running_def)

lemma exclusive_starting:
  assumes "bot_exclusive s b" "cs_starts s t = Some (b, p)"
  shows "bot_starting s b t p"
  using assms by (auto simp: bot_exclusive_def bot_idle_def bot_starting_def bot_running_def)

lemma exclusive_idle: "bot_exclusive s b \<Longrightarrow> cm_handles (cs_mgr s) b = None \<Longrightarrow> bot_idle s b"
  by (auto simp: bot_exclusive_def bot_starting_def bot_running_def)

lemma conn_exclusiveI:
  assumes "conn_exclusive s" "bot_exclusive s' b"
    and "\<And>c. c \<noteq> b \<Longrightarrow> cm_handles (cs_mgr s') c = cm_handles (cs_mgr s) c"
    and "\<And>c t p. c \<noteq> b \<Longrightarrow> cs_starts s' t = Some (c, p) \<longleftrightarrow> cs_starts s t = Some (c, p)"
    and "\<And>c h. c \<noteq> b \<Longrightarrow> (h, c) \<in> cs_live s' \<longleftrightarrow> (h, c) \<in> cs_live s"
    and "\<And>h c. (h, c) \<in> cs_live s' \<Longrightarrow> h < cs_next s'" "cs_stopping s' = cs_stopping s"
  shows "conn_exclusive s'"
proof -
  have "bot_exclusive s' c" for c
  proof (cases "c = b")
    case False
    then have "bot_exclusive s' c = bot_exclusive s c" by (intro bot_exclusive_cong assms(3-5))
    with assms(1) show ?thesis by (simp add: conn_exclusive_def)
  qed (simp add: assms(2))
  with assms(1,6,7) show ?thesis by (auto simp: conn_exclusive_def)
qed

lemma Start_reserve_None:
  "Start_reserve b m = (None, m') \<longleftrightarrow> cm_handles m b = None \<and> m' = m\<lparr>cm_handles := (cm_handles m)(b \<mapsto> None)\<rparr>"
  by (auto simp: Start_reserve_def split: option.splits)

lemma Start_install_None:
  "Start_install b h m = (None, m') \<longleftrightarrow> cm_handles m b = Some None \<and> m' = m\<lparr>cm_handles := (cm_handles m)(b \<mapsto> Some h)\<rparr>"
  by (auto simp: Start_install_def split: option.splits)

lemma Start_install_Some:
  "Start_install b h m = (Some e, m') \<longleftrightarrow> cm_handles m b \<noteq> Some None \<and> e = ErrRuntimeAlreadyStarted \<and> m' = m"
  by (auto simp: Start_install_def split: option.splits)

lemmas bot_phases = bot_exclusive_def bot_idle_def bot_starting_def bot_running_def

lemma conn_step_exclusive: "conn_step False s s' \<Longrightarrow> conn_exclusive s \<Longrightarrow> conn_exclusive s'"
proof (induction rule: conn_step.induct)
  case (reserve s t b m)
  then have E: "bot_exclusive s b" "\<And>h c. (h, c) \<in> cs_live s \<Longrightarrow> h < cs_next s" by (auto simp: conn_exclusive_def)
  note m = reserve.hyps(2) [unfolded Start_reserve_None]
  with E have idle: "bot_idle s b" by (auto intro: exclusive_idle)
  show ?case
    by (rule conn_exclusiveI [OF reserve.prems, where b = b])
      (use idle m reserve.hyps(1) E in \<open>auto simp: bot_phases split: if_splits\<close>)
next
  case (start_fails s t b)
  then have E: "bot_starting s b t Reserved" "\<And>h c. (h, c) \<in> cs_live s \<Longrightarrow> h < cs_next s"
    by (auto simp: conn_exclusive_def intro: exclusive_starting)
  show ?case
    by (rule conn_exclusiveI [OF start_fails.prems, where b = b])
      (use E in \<open>auto simp: bot_phases split: if_splits\<close>)
next
  case (started s t b)
  then have E: "bot_starting s b t Reserved" "\<And>h c. (h, c) \<in> cs_live s \<Longrightarrow> h < cs_next s"
    by (auto simp: conn_exclusive_def intro: exclusive_starting)
  show ?case
    by (rule conn_exclusiveI [OF started.prems, where b = b])
      (use E in \<open>auto simp: bot_phases less_Suc_eq split: if_splits\<close>)
next
  case (install s t b h m)
  then have E: "bot_starting s b t (Started h)" "\<And>h c. (h, c) \<in> cs_live s \<Longrightarrow> h < cs_next s"
    by (auto simp: conn_exclusive_def intro: exclusive_starting)
  show ?case
    by (rule conn_exclusiveI [OF install.prems, where b = b])
      (use E install.hyps(2) [unfolded Start_install_None] in \<open>auto simp: bot_phases split: if_splits\<close>)
next
  case (reject s t b h err m)
  then have "bot_starting s b t (Started h)" by (auto simp: conn_exclusive_def intro: exclusive_starting)
  with reject.hyps(2) show ?case by (simp add: Start_install_Some bot_starting_def)
next
  case (stop s t b h)
  then have "bot_starting s b t (Refused h)" by (auto simp: conn_exclusive_def intro: exclusive_starting)
  then show ?case by (simp add: bot_starting_def)
next
  case (stopped h b s)
  then show ?case by (simp add: conn_exclusive_def)
next
  case (cleanup s t b)
  then have E: "bot_starting s b t Failing" "\<And>h c. (h, c) \<in> cs_live s \<Longrightarrow> h < cs_next s"
    by (auto simp: conn_exclusive_def intro: exclusive_starting)
  show ?case
    by (rule conn_exclusiveI [OF cleanup.prems, where b = b])
      (use E in \<open>auto simp: bot_phases Start_cleanup_def split: if_splits\<close>)
qed simp

interpretation conn: transition_system conn_init "conn_step False" conn_exclusive
  by unfold_locales (auto intro: conn_init_exclusive conn_step_exclusive)

text \<open>
  C13. As long as runtimes only end by being stopped, calls of \<open>Start\<close> interleaved at will never
  leave a bot with two runtimes: a bot has at most one live runtime, a live runtime with no
  call under way is the registered one, and a registered runtime is live.
\<close>

theorem conn_one_runtime:
  assumes "conn_init s0" "(conn_step False)\<^sup>*\<^sup>* s0 s"
  shows "((h, b) \<in> cs_live s \<and> (h', b) \<in> cs_live s \<longrightarrow> h = h')
    \<and> ((h, b) \<in> cs_live s \<and> (\<forall>t p. cs_starts s t \<noteq> Some (b, p)) \<longrightarrow> cm_handles (cs_mgr s) b = Some (Some h))
    \<and> (cm_handles (cs_mgr s) b = Some (Some h) \<longrightarrow> (h, b) \<in> cs_live s)"
proof -
  have "bot_exclusive s b" using conn.reachable_inv [OF assms] by (simp add: conn_exclusive_def)
  then show ?thesis by (auto simp: bot_phases)
qed

section \<open>Runtimes that end while they are being started\<close>

definition conn_state :: "(string \<Rightarrow> nat option option) \<Rightarrow> (nat \<Rightarrow> (string \<times> startPhase) option) \<Rightarrow> (nat \<times> string) set \<Rightarrow> nat \<Rightarrow> connSys" where
  "conn_state handles starts live n = \<lparr>cs_mgr = \<lparr>cm_handles = handles\<rparr>, cs_starts = starts, cs_live = live,
     cs_stopping = {}, cs_next = n\<rparr>"

lemma conn_state_sel [simp]:
  "cm_handles (cs_mgr (conn_state hs st l n)) = hs" "cs_starts (conn_state hs st l n) = st"
  "cs_live (conn_state hs st l n) = l" "cs_stopping (conn_state hs st l n) = {}" "cs_next (conn_state hs st l n) = n"
  by (simp_all add: conn_state_def)

text \<open>The steps on states written out, each with its effect.\<close>

lemma conn_state_steps:
  "st t = None \<Longrightarrow> hs b = None \<Longrightarrow> conn_step e (conn_state hs st l n) (conn_state (hs(b \<mapsto> None)) (st(t \<mapsto> (b, Reserved))) l n)"
  "st t = Some (b, Reserved) \<Longrightarrow>
     conn_step e (conn_state hs st l n) (conn_state hs (st(t \<mapsto> (b, Started n))) (insert (n, b) l) (n + 1))"
  "st t = Some (b, Started h) \<Longrightarrow> hs b = Some None \<Longrightarrow>
     conn_step e (conn_state hs st l n) (conn_state (hs(b \<mapsto> Some h)) (st(t := None)) l n)"
  "st t = Some (b, Started h) \<Longrightarrow> hs b \<noteq> Some None \<Longrightarrow>
     conn_step e (conn_state hs st l n) (conn_state hs (st(t \<mapsto> (b, Refused h))) l n)"
  "st t = Some (b, Failing) \<Longrightarrow>
     conn_step e (conn_state hs st l n) (conn_state (if hs b = Some None then hs(b := None) else hs) (st(t := None)) l n)"
  "(h, b) \<in> l \<Longrightarrow> conn_step True (conn_state hs st l n) (conn_state (hs(b := None)) st (l - {(h, b)}) n)"
  "st t = Some (b, Reserved) \<Longrightarrow> conn_step e (conn_state hs st l n) (conn_state hs (st(t \<mapsto> (b, Failing))) l n)"
  "st t = Some (b, Refused h) \<Longrightarrow> (h, b) \<notin> l \<Longrightarrow>
     conn_step e (conn_state hs st l n) (conn_state hs (st(t \<mapsto> (b, Failing))) l n)"
  using conn_step.reserve [of "conn_state hs st l n" t b "\<lparr>cm_handles = hs(b \<mapsto> None)\<rparr>" e]
    conn_step.started [of "conn_state hs st l n" t b e]
    conn_step.install [of "conn_state hs st l n" t b h "\<lparr>cm_handles = hs(b \<mapsto> Some h)\<rparr>" e]
    conn_step.reject [of "conn_state hs st l n" t b h ErrRuntimeAlreadyStarted "\<lparr>cm_handles = hs\<rparr>" e]
    conn_step.cleanup [of "conn_state hs st l n" t b e]
    conn_step.ended [of True h b "conn_state hs st l n"]
    conn_step.start_fails [of "conn_state hs st l n" t b e]
    conn_step.stop [of "conn_state hs st l n" t b h e]
  by (simp_all add: conn_state_def Start_reserve_None Start_install_None Start_install_Some Start_cleanup_def conn_remove_def
      split: if_splits)

lemma run_step:
  "conn_step e s s1 \<Longrightarrow> \<exists>t. (conn_step e)\<^sup>*\<^sup>* s1 t \<and> P t \<Longrightarrow> \<exists>t. (conn_step e)\<^sup>*\<^sup>* s t \<and> P t"
  by (meson converse_rtranclp_into_rtranclp)

lemma conn_state_init: "conn_init (conn_state Map.empty Map.empty {} 0)"
  by (simp add: conn_init_def conn_state_def NewBotConnectionManager_def)

text \<open>
  C14. A runtime that ends while its call of \<open>Start\<close> is under way releases the reservation that
  call relies on, and the map can end up wrong, with no call under way and no event to come.  One run leaves a bot active whose
  only registered runtime is dead, so that it can not be started again; another leaves a live
  runtime that no entry mentions, so that a second one can be started beside it.
\<close>

theorem conn_ended_during_start:
  "(\<exists>s. (conn_step True)\<^sup>*\<^sup>* (conn_state Map.empty Map.empty {} 0) s
      \<and> cs_starts s = Map.empty \<and> cs_live s = {} \<and> cs_stopping s = {} \<and> conn_Active ''b'' (cs_mgr s))
   \<and> (\<exists>s. (conn_step True)\<^sup>*\<^sup>* (conn_state Map.empty Map.empty {} 0) s
      \<and> cs_starts s = Map.empty \<and> cs_live s = {(1, ''b'')} \<and> cs_stopping s = {} \<and> \<not> conn_Active ''b'' (cs_mgr s))"
proof (intro conjI)
  show "\<exists>s. (conn_step True)\<^sup>*\<^sup>* (conn_state Map.empty Map.empty {} 0) s
      \<and> cs_starts s = Map.empty \<and> cs_live s = {} \<and> cs_stopping s = {} \<and> conn_Active ''b'' (cs_mgr s)"
    by (rule run_step [OF conn_state_steps(1) [where t = 0 and b = "''b''"]], simp, simp, 
      rule run_step [OF conn_state_steps(2) [where t = 0 and b = "''b''"]], simp, 
      rule run_step [OF conn_state_steps(6) [where h = 0 and b = "''b''"]], simp, 
      rule run_step [OF conn_state_steps(1) [where t = 1 and b = "''b''"]], simp, simp, 
      rule run_step [OF conn_state_steps(3) [where t = 0 and b = "''b''"]], simp, simp, 
      rule run_step [OF conn_state_steps(7) [where t = 1 and b = "''b''"]], simp, 
      rule run_step [OF conn_state_steps(5) [where t = 1 and b = "''b''"]], simp, 
      rule exI, rule conjI, rule rtranclp.rtrancl_refl, auto simp: conn_Active_def fun_eq_iff)
  show "\<exists>s. (conn_step True)\<^sup>*\<^sup>* (conn_state Map.empty Map.empty {} 0) s
      \<and> cs_starts s = Map.empty \<and> cs_live s = {(1, ''b'')} \<and> cs_stopping s = {} \<and> \<not> conn_Active ''b'' (cs_mgr s)"
    by (rule run_step [OF conn_state_steps(1) [where t = 0 and b = "''b''"]], simp, simp, 
      rule run_step [OF conn_state_steps(2) [where t = 0 and b = "''b''"]], simp, 
      rule run_step [OF conn_state_steps(6) [where h = 0 and b = "''b''"]], simp, 
      rule run_step [OF conn_state_steps(4) [where t = 0 and b = "''b''"]], simp, simp, 
      rule run_step [OF conn_state_steps(8) [where t = 0 and b = "''b''"]], simp, simp, 
      rule run_step [OF conn_state_steps(1) [where t = 1 and b = "''b''"]], simp, simp, 
      rule run_step [OF conn_state_steps(5) [where t = 0 and b = "''b''"]], simp, 
      rule run_step [OF conn_state_steps(1) [where t = 2 and b = "''b''"]], simp, simp, 
      rule run_step [OF conn_state_steps(2) [where t = 1 and b = "''b''"]], simp, 
      rule run_step [OF conn_state_steps(2) [where t = 2 and b = "''b''"]], simp, 
      rule run_step [OF conn_state_steps(3) [where t = 1 and b = "''b''"]], simp, simp, 
      rule run_step [OF conn_state_steps(6) [where h = 2 and b = "''b''"]], simp, 
      rule run_step [OF conn_state_steps(4) [where t = 2 and b = "''b''"]], simp, simp, 
      rule run_step [OF conn_state_steps(8) [where t = 2 and b = "''b''"]], simp, simp, 
      rule run_step [OF conn_state_steps(5) [where t = 2 and b = "''b''"]], simp, 
      rule exI, rule conjI, rule rtranclp.rtrancl_refl, auto simp: conn_Active_def fun_eq_iff)
qed

lemma conn_one_runtime_witness:
  "(1, ''b'') \<notin> cs_live (conn_state [''b'' \<mapsto> Some 0] Map.empty {(0, ''b'')} 1)"
proof -
  let ?s = "conn_state [''b'' \<mapsto> Some 0] Map.empty {(0, ''b'')} 1"
  have "\<exists>t. (conn_step False)\<^sup>*\<^sup>* (conn_state Map.empty Map.empty {} 0) t \<and> t = ?s"
    by (rule run_step [OF conn_state_steps(1) [where t = 0 and b = "''b''"]], simp, simp, 
      rule run_step [OF conn_state_steps(2) [where t = 0 and b = "''b''"]], simp, 
      rule run_step [OF conn_state_steps(3) [where t = 0 and b = "''b''"]], simp, simp, 
      rule exI, rule conjI, rule rtranclp.rtrancl_refl, simp add: conn_state_def)
  then have "(conn_step False)\<^sup>*\<^sup>* (conn_state Map.empty Map.empty {} 0) ?s" by blast
  from conn_one_runtime [OF conn_state_init this, of 0 "''b''" 1] show ?thesis by simp
qed

end
