(* ===== verification/Commands.thy ===== *)
theory Commands
  imports Config ConnectionManager
begin

text \<open>
  Starting up: the \<open>mcp\<close> commands of \<open>cmd/mcp.go\<close>, which work on the database directly, the \<open>server\<close>
  command of \<open>cmd/server.go\<close>, the cipher made from the configured key (\<open>internal/security/crypto.go\<close>), the
  restoring of runtimes at the end of \<open>internal/bootstrap/bootstrap.go\<close>, and the tools of the two example
  servers.  Opening the database, the file system and the parts the commands start are parameters.
\<close>

section \<open>The cipher\<close>

text \<open>
  \<open>aead\<close> is the AEAD \<open>crypto/cipher\<close> makes of an AES key.  \<open>aes.NewCipher\<close> takes keys of 16, 24 and 32
  bytes, and its blocks always suit GCM.
\<close>

definition NewCipher :: "(string \<Rightarrow> gcm) \<Rightarrow> string \<Rightarrow> goerr + gcm" where
  "NewCipher aead key =
     (if length key \<in> {16, 24, 32} then Inr (aead key)
      else Inl (wrapf ''new aes cipher: '' (errorf (''crypto/aes: invalid key size '' @ Itoa (int (length key)))) []))"

text \<open>A configuration that is loaded always makes a cipher.\<close>

lemma loaded_key_makes_cipher:
  "LoadConfig frac env home = Inr c \<Longrightarrow> NewCipher aead (cfg_ChannelMasterKey c) = Inr (aead (cfg_ChannelMasterKey c))"
  using LoadConfig_key [of frac env home] by (simp add: NewCipher_def)

section \<open>The mcp commands\<close>

record 'w cmdEnv =
  ce_Getenv :: "string \<Rightarrow> string"
  ce_HomeDir :: "goerr + string"
  ce_MkdirAll :: "string \<Rightarrow> ('w, unit) io"
  ce_Open :: "string \<Rightarrow> ('w, unit) io"
  ce_Migrate :: "('w, unit) io"
  ce_Close :: "'w \<Rightarrow> 'w"
  ce_goenv :: "'w goenv"
  ce_service :: "'w mcpService"

definition TrimSuffix :: "string \<Rightarrow> string \<Rightarrow> string" where
  "TrimSuffix s suf = rev (TrimPrefix (rev s) (rev suf))"

text \<open>The directory that is made before the database is opened, if any.\<close>

definition database_dir :: "string \<Rightarrow> string option" where
  "database_dir path = (if path \<noteq> [] \<and> path \<noteq> '':memory:'' then Some (TrimSuffix path ''/myclaw.db'') else None)"

definition newMCPService :: "'w cmdEnv \<Rightarrow> ('w, unit) io" where
  "newMCPService env =
     (case LoadDataPaths (ce_Getenv env) (ce_HomeDir env) of
        Inl err \<Rightarrow> return_err (wrapf ''load data paths: '' err [])
      | Inr (_, path) \<Rightarrow>
          attempt (case database_dir path of None \<Rightarrow> return_ok () | Some d \<Rightarrow> ce_MkdirAll env d) (\<lambda>_.
          attempt (ce_Open env path) (\<lambda>opened. case opened of
            Inl err \<Rightarrow> return_err (wrapf ''open database: '' err [])
          | Inr _ \<Rightarrow>
              attempt (ce_Migrate env) (\<lambda>migrated. case migrated of
                Inl err \<Rightarrow> return_err (wrapf ''migrate database: '' err [])
              | Inr _ \<Rightarrow> return_ok ()))))"

text \<open>A command: its output, or its error with a prefix; the database is closed either way.\<close>

definition run_mcp :: "'w cmdEnv \<Rightarrow> string \<Rightarrow> ('w, 'a) io \<Rightarrow> ('a \<Rightarrow> string) \<Rightarrow> ('w, string) io" where
  "run_mcp env what op output =
     andThen (newMCPService env) (\<lambda>_ w.
       case op w of
         (Inl err, w1) \<Rightarrow> (Inl (wrapf (what @ '': '') err []), ce_Close env w1)
       | (Inr x, w1) \<Rightarrow> (Inr (output x), ce_Close env w1))"

text \<open>The verb \<open>%-ns\<close> pads to a number of runes.\<close>

definition pad_right :: "nat \<Rightarrow> string \<Rightarrow> string" where
  "pad_right n s = s @ replicate (n - length (runes s)) (CHR '' '')"

definition server_line :: "mcpServer \<Rightarrow> string" where
  "server_line s =
     pad_right 24 (ms_Name s) @ '' '' @ pad_right 8 (ms_ServerType s) @ '' ''
     @ pad_right 8 (if ms_Enabled s then ''enabled'' else ''disabled'') @ '' ''
     @ (if ms_ServerType s = TypeHTTP then ms_URL s else ms_Command s @ '' '' @ Join (ms_Args s) '' '') @ [newline]"

definition list_output :: "mcpServer list \<Rightarrow> string" where
  "list_output servers =
     (if servers = [] then ''(no MCP servers configured)'' @ [newline] else concat (map server_line servers))"

definition cmd_List :: "'w cmdEnv \<Rightarrow> string \<Rightarrow> ('w, string) io" where
  "cmd_List env botID =
     run_mcp env ''list mcp servers''
       (if TrimSpace botID \<noteq> [] then mcs_ListByBot (ce_service env) botID else mcs_List (ce_service env)) list_output"

definition cmd_Add :: "'w cmdEnv \<Rightarrow> mcpCreateInput \<Rightarrow> ('w, string) io" where
  "cmd_Add env inp =
     (if TrimSpace (mci_Name inp) = [] then return_err (errorf ''--name is required'')
      else run_mcp env ''create mcp server'' (mcs_Create (ce_goenv env) (ce_service env) inp)
             (\<lambda>s. ''created MCP server '' @ Quote (ms_Name s) @ '' (type='' @ ms_ServerType s @ '')'' @ [newline]))"

definition cmd_Remove :: "'w cmdEnv \<Rightarrow> string \<Rightarrow> ('w, string) io" where
  "cmd_Remove env name =
     run_mcp env ''remove mcp server'' (mcs_Remove (ce_service env) name) (\<lambda>_. ''removed MCP server '' @ Quote name @ [newline])"

definition cmd_Enable :: "'w cmdEnv \<Rightarrow> string \<Rightarrow> ('w, string) io" where
  "cmd_Enable env name =
     run_mcp env ''enable mcp server'' (mcs_SetEnabled (ce_service env) name True) (\<lambda>_. ''enabled MCP server '' @ Quote name @ [newline])"

definition cmd_Disable :: "'w cmdEnv \<Rightarrow> string \<Rightarrow> ('w, string) io" where
  "cmd_Disable env name =
     run_mcp env ''disable mcp server'' (mcs_SetEnabled (ce_service env) name False) (\<lambda>_. ''disabled MCP server '' @ Quote name @ [newline])"

definition cmd_Attach :: "'w cmdEnv \<Rightarrow> string \<Rightarrow> string \<Rightarrow> ('w, string) io" where
  "cmd_Attach env botID server =
     (if TrimSpace botID = [] \<or> TrimSpace server = [] then return_err (errorf ''--bot and --server are required'')
      else run_mcp env ''attach'' (mcs_AttachToBot (ce_service env) botID server)
             (\<lambda>_. ''attached '' @ Quote server @ '' to bot '' @ Quote botID @ [newline]))"

definition cmd_Detach :: "'w cmdEnv \<Rightarrow> string \<Rightarrow> string \<Rightarrow> ('w, string) io" where
  "cmd_Detach env botID server =
     (if TrimSpace botID = [] \<or> TrimSpace server = [] then return_err (errorf ''--bot and --server are required'')
      else run_mcp env ''detach'' (mcs_DetachFromBot (ce_service env) botID server)
             (\<lambda>_. ''detached '' @ Quote server @ '' from bot '' @ Quote botID @ [newline]))"

section \<open>The server\<close>

definition serviceURL :: "string \<Rightarrow> string" where
  "serviceURL addr = (if HasPrefix addr '':'' then ''http://localhost'' @ addr else ''http://'' @ addr)"

text \<open>The exit code; \<open>newApp\<close> and \<open>serve\<close> are the application and the HTTP server.\<close>

definition RunServer :: "goerr + config \<Rightarrow> (config \<Rightarrow> ('w, 'h) io) \<Rightarrow> (string \<Rightarrow> 'h \<Rightarrow> ('w, unit) io) \<Rightarrow> 'w \<Rightarrow> int \<times> 'w" where
  "RunServer loaded newApp serve w =
     (case loaded of
        Inl _ \<Rightarrow> (1, w)
      | Inr cfg \<Rightarrow>
          (case newApp cfg w of
             (Inl _, w1) \<Rightarrow> (1, w1)
           | (Inr handler, w1) \<Rightarrow>
               (case serve (cfg_HTTPAddr cfg) handler w1 of (Inl _, w2) \<Rightarrow> (1, w2) | (Inr _, w2) \<Rightarrow> (0, w2))))"

datatype logLevel = LevelDebug | LevelInfo | LevelError

definition parseLevel :: "string \<Rightarrow> logLevel" where
  "parseLevel level =
     (if ToLower level = ''debug'' then LevelDebug else if ToLower level = ''error'' then LevelError else LevelInfo)"

section \<open>Restoring the runtimes\<close>

text \<open>
  The goroutine at the end of \<open>New\<close>: every bot with an account is stored as connecting, and then started;
  errors are logged.
\<close>

definition restore_bot ::
  "'w botRepository \<Rightarrow> (string \<Rightarrow> connManager \<times> 'w \<Rightarrow> goerr option \<times> connManager \<times> 'w) \<Rightarrow> bot \<Rightarrow> connManager \<times> 'w \<Rightarrow> connManager \<times> 'w" where
  "restore_bot bots start item = (\<lambda>(m, w).
     if bot_ChannelAccountID item = [] then (m, w)
     else case br_Update bots (item\<lparr>bot_ConnectionStatus := BotConnectionStatusConnecting\<rparr>) w of
            (Inl _, w1) \<Rightarrow> (m, w1)
          | (Inr _, w1) \<Rightarrow> snd (start (bot_ID item) (m, w1)))"

definition restore_runtimes ::
  "'w botRepository \<Rightarrow> (string \<Rightarrow> connManager \<times> 'w \<Rightarrow> goerr option \<times> connManager \<times> 'w) \<Rightarrow> connManager \<times> 'w \<Rightarrow> connManager \<times> 'w" where
  "restore_runtimes bots start mw =
     (case br_ListWithAccounts bots (snd mw) of
        (Inl _, w1) \<Rightarrow> (fst mw, w1)
      | (Inr items, w1) \<Rightarrow> fold (restore_bot bots start) items (fst mw, w1))"

lemma conn_Start_other:
  assumes "conn_Start repos decrypt StartRuntime Stop botID (m, w) = (e, m', w')" "b \<noteq> botID"
  shows "cm_handles m' b = cm_handles m b"
  using assms
  by (auto simp: conn_Start_def Start_reserve_def Start_cleanup_def Start_install_def
      split: option.splits prod.splits sum.splits if_splits)

lemma conn_Start_settled:
  assumes "conn_Start repos decrypt StartRuntime Stop botID (m, w) = (e, m', w')" "cm_handles m botID = None"
  shows "(e = None \<longleftrightarrow> (\<exists>h. cm_handles m' botID = Some (Some h))) \<and> (e \<noteq> None \<longrightarrow> cm_handles m' botID = None)"
  using assms
  by (auto simp: conn_Start_def Start_reserve_def Start_cleanup_def Start_install_def
      split: option.splits prod.splits sum.splits if_splits)

text \<open>
  Restoring starts bots with an account only: a bot that is active afterwards was active before, or is one of
  the bots listed that has an account, and then it runs: no start is left half done.
\<close>

lemma restore_fold:
  assumes "fold (restore_bot bots (conn_Start repos decrypt StartRuntime Stop)) items (m, w) = (m', w')" "\<forall>b. cm_handles m b \<noteq> Some None"
  shows "(\<forall>b. cm_handles m' b \<noteq> Some None)
    \<and> (\<forall>b. cm_handles m' b \<noteq> cm_handles m b \<longrightarrow> (\<exists>item \<in> set items. bot_ID item = b \<and> bot_ChannelAccountID item \<noteq> []))"
  using assms
proof (induction items arbitrary: m w)
  case Nil
  then show ?case by simp
next
  case (Cons item items)
  obtain m1 w1 where r: "restore_bot bots (conn_Start repos decrypt StartRuntime Stop) item (m, w) = (m1, w1)" by fastforce
  have one: "(\<forall>b. cm_handles m1 b \<noteq> Some None)
    \<and> (\<forall>b. cm_handles m1 b \<noteq> cm_handles m b \<longrightarrow> b = bot_ID item \<and> bot_ChannelAccountID item \<noteq> [])"
  proof (cases "m1 = m")
    case False
    then obtain e w2 where s: "conn_Start repos decrypt StartRuntime Stop (bot_ID item) (m, w2) = (e, m1, w1)" "bot_ChannelAccountID item \<noteq> []"
      using r by (auto simp: restore_bot_def split: if_splits prod.splits sum.splits) (metis prod.collapse)
    have other: "cm_handles m1 b = cm_handles m b" if "b \<noteq> bot_ID item" for b using conn_Start_other [OF s(1) that] .
    have "cm_handles m1 (bot_ID item) \<noteq> Some None"
    proof (cases "cm_handles m (bot_ID item)")
      case None
      from conn_Start_settled [OF s(1) this] show ?thesis by (cases e) auto
    next
      case (Some h)
      then have "m1 = m" using s(1) by (simp add: conn_Start_def Start_reserve_def)
      with Cons.prems(2) show ?thesis by simp
    qed
    with other Cons.prems(2) s(2) show ?thesis by metis
  qed (use Cons.prems(2) in auto)
  have rest: "fold (restore_bot bots (conn_Start repos decrypt StartRuntime Stop)) items (m1, w1) = (m', w')"
    using Cons.prems(1) r by simp
  from Cons.IH [OF rest] one show ?case by (metis list.set_intros(1) list.set_intros(2))
qed

section \<open>The example servers\<close>

definition runEcho :: "string \<Rightarrow> string" where "runEcho inp = inp"

text \<open>\<open>now\<close> is the time of the server in RFC 3339.\<close>

definition runPing :: "string \<Rightarrow> string \<times> string" where "runPing now = (now, ''pong'')"

section \<open>The directory of the database\<close>

text \<open>
  A command makes the directory of the database only when the file has its default name; another file
  name is itself made a directory, before the database is opened there.
\<close>

lemma database_dir_default: "database_dir (d @ ''/myclaw.db'') = Some d"
proof -
  have "TrimSuffix (d @ ''/myclaw.db'') ''/myclaw.db'' = d"
    by (simp only: TrimSuffix_def rev_append TrimPrefix_append rev_rev_ident)
  moreover have "length (d @ ''/myclaw.db'') > 9" by simp
  then have "d @ ''/myclaw.db'' \<noteq> '':memory:''" by auto
  ultimately show ?thesis by (simp add: database_dir_def)
qed

lemma database_dir_other:
  assumes "path \<noteq> []" "path \<noteq> '':memory:''" "\<nexists>d. path = d @ ''/myclaw.db''"
  shows "database_dir path = Some path"
proof -
  have "\<not> HasPrefix (rev path) (rev ''/myclaw.db'')"
  proof
    assume "HasPrefix (rev path) (rev ''/myclaw.db'')"
    then obtain r where "rev path = rev ''/myclaw.db'' @ r" by (auto simp only: HasPrefix_ex)
    then have "path = rev r @ ''/myclaw.db''" by (metis rev_append rev_rev_ident)
    with assms(3) show False by blast
  qed
  with assms(1,2) show ?thesis by (simp add: database_dir_def TrimSuffix_def TrimPrefix_def)
qed

end
