(* ===== verification/HttpClient.thy ===== *)
theory HttpClient
  imports Repositories JsonText
begin

text \<open>
  What the channels and drivers use of \<open>net/http\<close> and of the rest of the outside world: a
  request, and a record of the calls that perform it.  \<open>he_Do\<close> sends a request and returns the
  error of the transport, or the status with the outcome of reading the body.  The texts of
  errors of \<open>encoding/json\<close>, and the reading of an RFC 3339 time, are parameters too.
\<close>

record httpCall =
  hcl_Method :: string
  hcl_URL :: string
  hcl_Headers :: "(string \<times> string) list"
  hcl_Body :: "string option"
  hcl_Timeout :: int

type_synonym httpAnswer = "int \<times> (goerr + string)"

record 'w httpEnv =
  he_NewRequest :: "string \<Rightarrow> goerr option"
  he_Do :: "httpCall \<Rightarrow> ('w, httpAnswer) io"
  he_jsonError :: "string \<Rightarrow> goerr"
  he_parseTime :: "string \<Rightarrow> timestamp option"
  he_Uint32 :: "'w \<Rightarrow> nat \<times> 'w"
  he_Now :: "'w \<Rightarrow> int"

text \<open>\<open>http.NewRequestWithContext\<close>: refused, or the request without headers.\<close>

definition new_request :: "'w httpEnv \<Rightarrow> string \<Rightarrow> string \<Rightarrow> string option \<Rightarrow> int \<Rightarrow> goerr + httpCall" where
  "new_request env method url body timeout =
     (case he_NewRequest env url of
        Some err \<Rightarrow> Inl err
      | None \<Rightarrow> Inr \<lparr>hcl_Method = method, hcl_URL = url, hcl_Headers = [], hcl_Body = body, hcl_Timeout = timeout\<rparr>)"

definition set_header :: "string \<Rightarrow> string \<Rightarrow> httpCall \<Rightarrow> httpCall" where
  "set_header k v c = c\<lparr>hcl_Headers := filter (\<lambda>(k', _). k' \<noteq> k) (hcl_Headers c) @ [(k, v)]\<rparr>"

definition header :: "httpCall \<Rightarrow> string \<Rightarrow> string option" where
  "header c k = map_of (hcl_Headers c) k"

text \<open>The first JSON value of a text (\<open>json.NewDecoder\<close>), and its whole (\<open>json.Unmarshal\<close>).\<close>

definition json_first :: "string \<Rightarrow> json option" where
  "json_first s = map_option fst (json_value (2 * length s + 1) s)"

text \<open>Decoding a \<open>time.Time\<close>.\<close>

fun upd_time :: "(string \<Rightarrow> timestamp option) \<Rightarrow> json \<Rightarrow> timestamp \<times> bool \<Rightarrow> timestamp \<times> bool" where
  "upd_time parse (JStr s) (t, e) = (case parse s of Some t' \<Rightarrow> (t', e) | None \<Rightarrow> (t, True))"
| "upd_time parse JNull acc = acc"
| "upd_time parse _ (t, e) = (t, True)"

definition get_time :: "(string \<Rightarrow> timestamp option) \<Rightarrow> string \<Rightarrow> members \<Rightarrow> timestamp \<times> bool" where
  "get_time parse = decode_field (upd_time parse) None"

text \<open>A list of structs, each decoded by \<open>flds\<close>; an element \<open>null\<close> is the zero struct.\<close>

definition decode_elems :: "(members \<Rightarrow> 'a \<times> bool) \<Rightarrow> json list \<Rightarrow> 'a list \<times> bool" where
  "decode_elems flds vs =
     (let rs = map (\<lambda>v. case as_struct v of (ms, e0) \<Rightarrow> case flds ms of (x, e) \<Rightarrow> (x, e0 \<or> e)) vs
      in (map fst rs, list_ex snd rs))"

lemma header_set_header: "header (set_header k v c) j = (if j = k then Some v else header c j)"
proof -
  have "map_of (filter (\<lambda>(k', _). k' \<noteq> k) hs) j = (if j = k then None else map_of hs j)" for hs :: "(string \<times> string) list"
    by (induction hs) auto
  then show ?thesis by (auto simp: header_def set_header_def map_add_def split: option.splits)
qed

end
