(* ===== verification/Boo.thy ===== *)
theory Boo
  imports Repositories HttpClient
begin

text \<open>
  The boo MCP server, \<open>mcps/boo/boo.go\<close>: its tools, the argument lists they give to the \<open>boo\<close> program
  and how they read what it prints.  Running the program is a parameter, and so is the text of the
  errors of \<open>encoding/json\<close>.  Then what the argument lists mean to the program.
\<close>

section \<open>Running the program\<close>

text \<open>
  What \<open>cmd.Run\<close> comes to: the program ended with an exit code, or it could not be run to its end.
  \<open>Ended\<close> and \<open>Failed\<close> hold its standard output, and \<open>Ended\<close> the standard error too.
\<close>

datatype cmdOutcome =
    Ended string string int
  | Failed string goerr

record 'w booEnv =
  be_Run :: "string list \<Rightarrow> 'w \<Rightarrow> cmdOutcome \<times> 'w"
  be_jsonError :: "string \<Rightarrow> goerr"

definition runBoo :: "'w booEnv \<Rightarrow> string list \<Rightarrow> ('w, string \<times> string \<times> int) io" where
  "runBoo env args w =
     (case be_Run env args w of
        (Ended out errb code, w1) \<Rightarrow> (Inr (out, errb, code), w1)
      | (Failed _ err, w1) \<Rightarrow> (Inl (wrapf ''boo not available: '' err []), w1))"

definition booError :: "string \<Rightarrow> int \<Rightarrow> string \<Rightarrow> goerr option" where
  "booError name exitCode stderr =
     (if exitCode = 0 then None
      else if exitCode = 3 then Some (errorf (''no such session: '' @ name))
      else let msg = TrimSpace stderr
           in Some (errorf (''boo error: '' @ (if msg = [] then ''boo exited '' @ Itoa exitCode else msg))))"

section \<open>Tools\<close>

record sessionInfo =
  ss_Name :: string
  ss_Attached :: bool
  ss_IdleMs :: int
  ss_Title :: string

record newInput =
  ni_Name :: string
  ni_Command :: "string list"
  ni_Rows :: int
  ni_Cols :: int
  ni_Cwd :: string

record sendInput =
  sn_Name :: string
  sn_Text :: string
  sn_Enter :: bool
  sn_Keys :: string

record peekInput =
  pi_Name :: string
  pi_Scrollback :: bool

record cursor =
  cu_Row :: int
  cu_Col :: int

record peekOutput =
  pk_Session :: string
  pk_Title :: string
  pk_Rows :: int
  pk_Cols :: int
  pk_Cursor :: cursor
  pk_Screen :: string

record waitInput =
  wi_Name :: string
  wi_Mode :: string
  wi_Text :: string
  wi_Timeout :: string

record killInput =
  ki_Name :: string
  ki_All :: bool

definition argsForLs :: "goerr + string list" where
  "argsForLs = Inr [''ls'', ''--json'']"

definition argsForNew :: "newInput \<Rightarrow> goerr + string list" where
  "argsForNew inp =
     Inr ([''new''] @ (if ni_Name inp \<noteq> [] then [ni_Name inp] else []) @ [''-d'']
        @ (if ni_Rows inp > 0 then [''--rows'', Itoa (ni_Rows inp)] else [])
        @ (if ni_Cols inp > 0 then [''--cols'', Itoa (ni_Cols inp)] else [])
        @ (if ni_Cwd inp \<noteq> [] then [''--cwd'', ni_Cwd inp] else [])
        @ (if length (ni_Command inp) > 0 then ''--'' # ni_Command inp else []))"

definition argsForSend :: "sendInput \<Rightarrow> goerr + string list" where
  "argsForSend inp =
     (if sn_Name inp = [] then Inl (errorf ''name is required'')
      else if (sn_Text inp \<noteq> []) = (sn_Keys inp \<noteq> []) then Inl (errorf ''exactly one of text or keys is required'')
      else if sn_Text inp \<noteq> []
      then Inr ([''send'', sn_Name inp, ''--text'', sn_Text inp] @ (if sn_Enter inp then [''--enter''] else []))
      else Inr [''send'', sn_Name inp, ''--key'', sn_Keys inp])"

definition argsForPeek :: "peekInput \<Rightarrow> goerr + string list" where
  "argsForPeek inp =
     (if pi_Name inp = [] then Inl (errorf ''name is required'')
      else Inr ([''peek'', pi_Name inp, ''--json''] @ (if pi_Scrollback inp then [''--scrollback''] else [])))"

definition argsForWait :: "waitInput \<Rightarrow> goerr + string list" where
  "argsForWait inp =
     (if wi_Name inp = [] then Inl (errorf ''name is required'')
      else let timeout = (if wi_Timeout inp \<noteq> [] then [''--timeout'', wi_Timeout inp] else []) in
           if wi_Mode inp = ''text''
           then (if wi_Text inp = [] then Inl (errorf ''mode=text requires text'')
                 else Inr ([''wait'', wi_Name inp, ''--text'', wi_Text inp] @ timeout))
           else if wi_Mode inp = ''idle'' then Inr ([''wait'', wi_Name inp, ''--idle''] @ timeout)
           else Inl (errorf ''mode must be text or idle''))"

definition argsForKill :: "killInput \<Rightarrow> goerr + string list" where
  "argsForKill inp =
     (if (ki_Name inp \<noteq> []) = ki_All inp then Inl (errorf ''exactly one of name or all is required'')
      else if ki_All inp then Inr [''kill'', ''--all'']
      else Inr [''kill'', ki_Name inp])"

section \<open>Reading the output\<close>

text \<open>Decoding into a slice of structs; \<open>null\<close> makes the slice nil.\<close>

definition unmarshal_list :: "(members \<Rightarrow> 'a \<times> bool) \<Rightarrow> string \<Rightarrow> 'a list option option" where
  "unmarshal_list flds s =
     (case json_parse s of
        Some (JArr vs) \<Rightarrow> (case decode_elems flds vs of (xs, e) \<Rightarrow> if e then None else Some (Some xs))
      | Some JNull \<Rightarrow> Some None
      | _ \<Rightarrow> None)"

definition unmarshal_struct :: "(members \<Rightarrow> 'a \<times> bool) \<Rightarrow> string \<Rightarrow> 'a option" where
  "unmarshal_struct flds s =
     (case json_parse s of
        None \<Rightarrow> None
      | Some v \<Rightarrow> (case as_struct v of (ms, e0) \<Rightarrow> case flds ms of (x, e) \<Rightarrow> if e0 \<or> e then None else Some x))"

definition sessionInfo_fields :: "members \<Rightarrow> sessionInfo \<times> bool" where
  "sessionInfo_fields ms =
     (let (n, e1) = get_str ''name'' ms; (a, e2) = get_bool ''attached'' ms; (i, e3) = get_int ''idle_ms'' ms;
          (t, e4) = get_str ''title'' ms
      in (\<lparr>ss_Name = n, ss_Attached = a, ss_IdleMs = i, ss_Title = t\<rparr>, e1 \<or> e2 \<or> e3 \<or> e4))"

definition peekOutput_fields :: "members \<Rightarrow> peekOutput \<times> bool" where
  "peekOutput_fields ms =
     (let (s, e1) = get_str ''session'' ms; (t, e2) = get_str ''title'' ms; (r, e3) = get_int ''rows'' ms;
          (c, e4) = get_int ''cols'' ms; (cs, e5) = get_struct ''cursor'' ms; (cr, e6) = get_int ''row'' cs;
          (cc, e7) = get_int ''col'' cs; (scr, e8) = get_str ''screen'' ms
      in (\<lparr>pk_Session = s, pk_Title = t, pk_Rows = r, pk_Cols = c, pk_Cursor = \<lparr>cu_Row = cr, cu_Col = cc\<rparr>, pk_Screen = scr\<rparr>,
          e1 \<or> e2 \<or> e3 \<or> e4 \<or> e5 \<or> e6 \<or> e7 \<or> e8))"

text \<open>The common part of the tools: the arguments, the program, the exit code.\<close>

definition boo_tool :: "'w booEnv \<Rightarrow> string \<Rightarrow> goerr + string list \<Rightarrow> (string \<Rightarrow> goerr + 'a) \<Rightarrow> ('w, 'a) io" where
  "boo_tool env name args read =
     andThen (lift_sum args) (\<lambda>as. andThen (runBoo env as) (\<lambda>(out, errb, code).
       case booError name code errb of Some e \<Rightarrow> return_err e | None \<Rightarrow> lift_sum (read out)))"

text \<open>The sessions are nil when the program prints \<open>null\<close>.\<close>

definition runLs :: "'w booEnv \<Rightarrow> ('w, sessionInfo list option) io" where
  "runLs env = boo_tool env [] argsForLs (\<lambda>out.
     if TrimSpace out = [] then Inr (Some [])
     else case unmarshal_list sessionInfo_fields out of
            None \<Rightarrow> Inl (wrapf ''parse ls --json: '' (be_jsonError env out) [])
          | Some sessions \<Rightarrow> Inr sessions)"

definition runNew :: "'w booEnv \<Rightarrow> newInput \<Rightarrow> ('w, string) io" where
  "runNew env inp = boo_tool env (ni_Name inp) (argsForNew inp) (\<lambda>out. Inr (TrimSpace out))"

definition runSend :: "'w booEnv \<Rightarrow> sendInput \<Rightarrow> ('w, unit) io" where
  "runSend env inp = boo_tool env (sn_Name inp) (argsForSend inp) (\<lambda>_. Inr ())"

definition runPeek :: "'w booEnv \<Rightarrow> peekInput \<Rightarrow> ('w, peekOutput) io" where
  "runPeek env inp = boo_tool env (pi_Name inp) (argsForPeek inp) (\<lambda>out.
     case unmarshal_struct peekOutput_fields out of
       None \<Rightarrow> Inl (wrapf ''parse peek --json: '' (be_jsonError env out) [])
     | Some po \<Rightarrow> Inr po)"

definition runWait :: "'w booEnv \<Rightarrow> waitInput \<Rightarrow> ('w, bool) io" where
  "runWait env inp =
     andThen (lift_sum (argsForWait inp)) (\<lambda>as. andThen (runBoo env as) (\<lambda>(out, errb, code).
       if code = 4 then return_ok False
       else case booError (wi_Name inp) code errb of Some e \<Rightarrow> return_err e | None \<Rightarrow> return_ok True))"

definition runKill :: "'w booEnv \<Rightarrow> killInput \<Rightarrow> ('w, unit) io" where
  "runKill env inp = boo_tool env (ki_Name inp) (argsForKill inp) (\<lambda>_. Inr ())"

section \<open>What is run\<close>

text \<open>
  How the program reads the arguments of \<open>new\<close>: the words before a \<open>--\<close> are its own, those after it the
  command.  A dash at its head makes a word an option.
\<close>

definition command_of :: "string list \<Rightarrow> string list" where
  "command_of args = tl (dropWhile (\<lambda>a. a \<noteq> ''--'') args)"

lemma Itoa_not_dashes: "n > 0 \<Longrightarrow> Itoa n \<noteq> ''--''"
proof
  assume n: "n > 0" and "Itoa n = ''--''"
  then have "itoa_nat (nat n) = ''--''" by (simp add: Itoa_def)
  moreover have "last (itoa_nat k) = char_of (48 + k mod 10)" for k
    by (subst itoa_nat.simps) (simp del: itoa_nat.simps)
  ultimately have "char_of (48 + nat n mod 10) = CHR ''-''" by (metis last.simps list.discI)
  then have "(of_char (char_of (48 + nat n mod 10) :: char) :: nat) = of_char (CHR ''-'')" by (rule arg_cong)
  then have eq: "(48 + nat n mod 10) mod 256 = 45" by simp
  have "48 + nat n mod 10 < 256" using mod_less_divisor [of 10 "nat n"] by linarith
  then have "(48 + nat n mod 10) mod 256 = 48 + nat n mod 10" by (rule mod_less)
  with eq show False by linarith
qed

text \<open>
  The command of a new session reaches the program as it was given, whatever options it has itself,
  unless the name or the directory is the separator.
\<close>

lemma new_command_verbatim:
  assumes "argsForNew inp = Inr args" "ni_Name inp \<noteq> ''--''" "ni_Cwd inp \<noteq> ''--''"
  shows "command_of args = ni_Command inp"
  using assms by (auto simp: argsForNew_def command_of_def Itoa_not_dashes)

text \<open>A name that looks like an option is one: killing the session \<open>--all\<close> kills all sessions.\<close>

lemma kill_name_all: "argsForKill \<lparr>ki_Name = ''--all'', ki_All = False\<rparr> = argsForKill \<lparr>ki_Name = [], ki_All = True\<rparr>"
  by (simp add: argsForKill_def)

text \<open>
  Waiting tells the two outcomes apart from failure: whether the condition was met, and every other exit
  code is an error.
\<close>

lemma runWait_outcomes:
  assumes "argsForWait inp = Inr args" "be_Run env args w = (Ended out errb code, w')"
  shows "runWait env inp w = (case booError (wi_Name inp) code errb of
      None \<Rightarrow> (Inr True, w') | Some e \<Rightarrow> (if code = 4 then Inr False else Inl e, w'))"
  using assms by (simp add: runWait_def runBoo_def andThen_def lift_sum_def return_ok_def return_err_def booError_def Let_def)

end
