(* ===== verification/Session.thy ===== *)
theory Session
  imports Agent
begin

text \<open>
  One agent session (\<open>internal/agent/session.go\<close>): the turn state, the runtime it drives
  and its scheduled tasks.

  A runtime is a handle; what running a request on it or closing it answers is an argument
  (\<open>run\<close>, \<open>close_rt\<close>), since it is a CLI process.  Calling a method of a nil runtime is
  the panic Go makes of it (\<open>Panic\<close>).  A task timer is a value with its own number, so
  that two tasks registered one after the other under the same id stay apart; \<open>ss_stopped\<close>
  holds the timers whose stop channel is closed and \<open>ss_live\<close> those whose goroutine still
  runs.  The map of tasks is a list of entries with distinct ids.
\<close>

section \<open>State\<close>

datatype 'a outcome = Panic | Ret 'a

record taskTimer =
  tt_num :: nat
  tt_task :: scheduledTask

record session =
  ss_state :: sessionState
  ss_runtime :: "nat option"
  ss_spec :: spec
  ss_sink :: "nat option"
  ss_tasks :: "(string \<times> taskTimer) list"
  ss_taskSeq :: nat
  ss_schedClosed :: bool
  ss_stopped :: "nat list"
  ss_live :: "taskTimer list"
  ss_nextTimer :: nat

type_synonym runner = "nat \<Rightarrow> request \<Rightarrow> response \<times> goerr option"
type_synonym closer = "nat \<Rightarrow> goerr option"

section \<open>Specs\<close>

text \<open>
  \<open>cloneSpec\<close>: \<open>append([]string(nil), args...)\<close> of an empty slice is nil; the map is
  copied entry by entry and stays non-nil.
\<close>

definition cloneSpec :: "spec \<Rightarrow> spec" where
  "cloneSpec sp = sp\<lparr>sp_Args := (case sp_Args sp of Some [] \<Rightarrow> None | a \<Rightarrow> a)\<rparr>"

text \<open>\<open>reflect.DeepEqual\<close> on two specs: maps are compared by content, nil is not empty.\<close>

definition env_equal :: "strmap option \<Rightarrow> strmap option \<Rightarrow> bool" where
  "env_equal a b =
     (case (a, b) of
        (None, None) \<Rightarrow> True
      | (Some x, Some y) \<Rightarrow> set x = set y
      | _ \<Rightarrow> False)"

definition spec_DeepEqual :: "spec \<Rightarrow> spec \<Rightarrow> bool" where
  "spec_DeepEqual a b \<longleftrightarrow> env_equal (sp_Env a) (sp_Env b) \<and> a\<lparr>sp_Env := None\<rparr> = b\<lparr>sp_Env := None\<rparr>"

section \<open>Turns\<close>

definition NewSession :: "(spec \<Rightarrow> goerr + nat) \<Rightarrow> spec \<Rightarrow> goerr + session" where
  "NewSession init sp =
     (let clonedSpec = cloneSpec sp in
      case init clonedSpec of
        Inl e \<Rightarrow> Inl e
      | Inr runtime \<Rightarrow>
          Inr \<lparr>ss_state = SessionReady, ss_runtime = Some runtime, ss_spec = clonedSpec, ss_sink = None,
               ss_tasks = [], ss_taskSeq = 0, ss_schedClosed = False, ss_stopped = [], ss_live = [],
               ss_nextTimer = 0\<rparr>)"

definition session_State :: "session \<Rightarrow> sessionState" where
  "session_State s = ss_state s"

text \<open>
  A turn up to the call of the runtime, with the runtime it calls, and from the answer on;
  the session's lock is held in between, but the operations that do not take it go on.
\<close>

definition runLocked_begin :: "session \<Rightarrow> nat option \<times> session" where
  "runLocked_begin s = (let s1 = s\<lparr>ss_state := SessionBusy\<rparr> in (ss_runtime s1, s1))"

definition runLocked_end :: "response \<times> goerr option \<Rightarrow> session \<Rightarrow> session" where
  "runLocked_end answer s =
     (case answer of
        (_, Some err) \<Rightarrow> s\<lparr>ss_state := SessionBroken\<rparr>
      | (_, None) \<Rightarrow> s\<lparr>ss_state := SessionReady\<rparr>)"

definition runLocked :: "runner \<Rightarrow> request \<Rightarrow> session \<Rightarrow> (response \<times> goerr option) outcome \<times> session" where
  "runLocked run req s =
     (case runLocked_begin s of
        (None, s1) \<Rightarrow> (Panic, s1)
      | (Some runtime, s1) \<Rightarrow>
          (let answer = run runtime req in (Ret answer, runLocked_end answer s1)))"

definition session_Send :: "runner \<Rightarrow> request \<Rightarrow> session \<Rightarrow> (response \<times> goerr option) outcome \<times> session" where
  "session_Send run req s = runLocked run req s"

definition session_SetPushSink :: "nat option \<Rightarrow> session \<Rightarrow> session" where
  "session_SetPushSink sink s = s\<lparr>ss_sink := sink\<rparr>"

definition session_pushSink :: "session \<Rightarrow> nat option" where
  "session_pushSink s = ss_sink s"

definition session_Matches :: "session \<Rightarrow> spec \<Rightarrow> bool" where
  "session_Matches s sp = spec_DeepEqual (ss_spec s) sp"

section \<open>Scheduled tasks\<close>

definition session_Schedule :: "scheduledTask \<Rightarrow> session \<Rightarrow> (goerr + string) \<times> session" where
  "session_Schedule task s =
     (if st_Interval task \<le> 0 then (Inl (errorf ''scheduled task interval must be positive''), s)
      else if TrimSpace (st_Prompt task) = [] then (Inl (errorf ''scheduled task prompt is required''), s)
      else if ss_schedClosed s then (Inl (errorf ''session is closed''), s)
      else
        let (task1, s1) =
              (if st_ID task = []
               then let n = ss_taskSeq s + 1
                    in (task\<lparr>st_ID := ''task-'' @ Itoa (int n)\<rparr>, s\<lparr>ss_taskSeq := n\<rparr>)
               else (task, s))
        in if map_of (ss_tasks s1) (st_ID task1) \<noteq> None
           then (Inl (errorf (''scheduled task already exists: '' @ st_ID task1)), s1)
           else let timer = \<lparr>tt_num = ss_nextTimer s1, tt_task = task1\<rparr>
                in (Inr (st_ID task1),
                    s1\<lparr>ss_tasks := (st_ID task1, timer) # ss_tasks s1,
                       ss_live := timer # ss_live s1,
                       ss_nextTimer := ss_nextTimer s1 + 1\<rparr>))"

definition timer_stop :: "taskTimer \<Rightarrow> session \<Rightarrow> session" where
  "timer_stop t s = s\<lparr>ss_stopped := tt_num t # ss_stopped s\<rparr>"

definition session_CancelTask :: "string \<Rightarrow> session \<Rightarrow> bool \<times> session" where
  "session_CancelTask taskID s =
     (case map_of (ss_tasks s) taskID of
        None \<Rightarrow> (False, s)
      | Some timer \<Rightarrow>
          (True, timer_stop timer (s\<lparr>ss_tasks := filter (\<lambda>(k, _). k \<noteq> taskID) (ss_tasks s)\<rparr>)))"

definition session_Tasks :: "session \<Rightarrow> scheduledTask list" where
  "session_Tasks s = map (tt_task \<circ> snd) (ss_tasks s)"

definition stopAllTasks :: "bool \<Rightarrow> session \<Rightarrow> session" where
  "stopAllTasks markClosed s =
     (let s1 = (if markClosed then s\<lparr>ss_schedClosed := True\<rparr> else s);
          timers = map snd (ss_tasks s1)
      in fold timer_stop timers (s1\<lparr>ss_tasks := []\<rparr>))"

text \<open>The turn of a tick, and the states of the session in which there is none.\<close>

definition tick_request :: "scheduledTask \<Rightarrow> session \<Rightarrow> request" where
  "tick_request task s = empty_request\<lparr>rq_BotID := sp_BotID (ss_spec s), rq_Prompt := st_Prompt task\<rparr>"

definition tick_idle :: "session \<Rightarrow> bool" where
  "tick_idle s \<longleftrightarrow> ss_runtime s = None \<or> ss_state s = SessionBroken \<or> ss_state s = SessionStopped"

text \<open>
  \<open>runTick\<close>; \<open>held\<close> tells whether another turn holds the session's lock.  The last part is
  the push handed to the sink, if any.
\<close>

definition runTick :: "runner \<Rightarrow> bool \<Rightarrow> scheduledTask \<Rightarrow> session \<Rightarrow> bool \<times> (nat \<times> pushResponse) option \<times> session" where
  "runTick run held task s =
     (if held then (True, None, s)
      else if tick_idle s then (False, None, s)
      else
        (case runLocked run (tick_request task s) s of
           (Ret (resp, None), s1) \<Rightarrow>
             (True,
              map_option (\<lambda>sink. (sink, \<lparr>pr_Response = resp, pr_TaskID = st_ID task\<rparr>)) (session_pushSink s1),
              s1)
         | (_, s1) \<Rightarrow> (False, None, s1)))"

text \<open>
  One turn of the loop of \<open>runTask\<close>: the goroutine sees its stop channel closed and ends,
  or takes a tick, and ends after cancelling its task when the tick says so.
\<close>

definition task_exit :: "taskTimer \<Rightarrow> session \<Rightarrow> session" where
  "task_exit t s = s\<lparr>ss_live := filter (\<lambda>u. tt_num u \<noteq> tt_num t) (ss_live s)\<rparr>"

definition runTask_stop :: "taskTimer \<Rightarrow> session \<Rightarrow> session" where
  "runTask_stop t s = (if tt_num t \<in> set (ss_stopped s) then task_exit t s else s)"

definition runTask_tick :: "runner \<Rightarrow> bool \<Rightarrow> taskTimer \<Rightarrow> session \<Rightarrow> (nat \<times> pushResponse) option \<times> session" where
  "runTask_tick run held t s =
     (case runTick run held (tt_task t) s of
        (True, push, s1) \<Rightarrow> (push, s1)
      | (False, push, s1) \<Rightarrow> (push, task_exit t (snd (session_CancelTask (st_ID (tt_task t)) s1))))"

section \<open>Closing\<close>

text \<open>
  The sections of \<open>Close\<close>: the tasks are stopped under \<open>schedMu\<close>, the runtime is read under
  \<open>mu\<close>, closed with no lock held, and cleared under \<open>mu\<close>.  (The timers stopped after
  \<open>schedMu\<close> is released may tick until then, as a stopped timer may anyway.)
\<close>

datatype closing = CloseTasks | CloseRead | CloseRuntime nat | CloseClear | Closed "goerr option"

fun close_step :: "closer \<Rightarrow> closing \<Rightarrow> session \<Rightarrow> closing \<times> session" where
  "close_step close_rt CloseTasks s = (CloseRead, stopAllTasks True s)"
| "close_step close_rt CloseRead s =
     (case ss_runtime s of
        None \<Rightarrow> (Closed None, s\<lparr>ss_state := SessionStopped\<rparr>)
      | Some runtime \<Rightarrow> (CloseRuntime runtime, s))"
| "close_step close_rt (CloseRuntime runtime) s =
     (case close_rt runtime of
        Some err \<Rightarrow> (Closed (Some err), s)
      | None \<Rightarrow> (CloseClear, s))"
| "close_step close_rt CloseClear s =
     (Closed None,
      if ss_runtime s \<noteq> None then s\<lparr>ss_runtime := None, ss_state := SessionStopped\<rparr> else s)"
| "close_step close_rt (Closed err) s = (Closed err, s)"

text \<open>\<open>Close\<close> with nothing in between.\<close>

definition session_Close :: "closer \<Rightarrow> session \<Rightarrow> goerr option \<times> session" where
  "session_Close close_rt s =
     (let (c1, s1) = close_step close_rt CloseTasks s;
          (c2, s2) = close_step close_rt c1 s1;
          (c3, s3) = close_step close_rt c2 s2;
          (c4, s4) = close_step close_rt c3 s3
      in (case c4 of Closed err \<Rightarrow> err | _ \<Rightarrow> None, s4))"

section \<open>The operations with nothing in between\<close>

lemma runLocked_eq:
  "runLocked run req s =
     (case ss_runtime s of
        None \<Rightarrow> (Panic, s\<lparr>ss_state := SessionBusy\<rparr>)
      | Some runtime \<Rightarrow>
          (case run runtime req of
             (resp, Some err) \<Rightarrow> (Ret (resp, Some err), s\<lparr>ss_state := SessionBroken\<rparr>)
           | (resp, None) \<Rightarrow> (Ret (resp, None), s\<lparr>ss_state := SessionReady\<rparr>)))"
  by (simp add: runLocked_def runLocked_begin_def runLocked_end_def split: option.splits prod.splits)

lemma stopAllTasks_runtime: "ss_runtime (stopAllTasks c s) = ss_runtime s"
proof -
  have "ss_runtime (fold timer_stop ts u) = ss_runtime u" for ts u
    by (induction ts arbitrary: u) (simp_all add: timer_stop_def)
  then show ?thesis by (simp add: stopAllTasks_def Let_def)
qed

lemma session_Close_eq:
  "session_Close close_rt s =
     (let s1 = stopAllTasks True s in
      case ss_runtime s1 of
        None \<Rightarrow> (None, s1\<lparr>ss_state := SessionStopped\<rparr>)
      | Some runtime \<Rightarrow>
          (case close_rt runtime of
             Some err \<Rightarrow> (Some err, s1)
           | None \<Rightarrow> (None, s1\<lparr>ss_runtime := None, ss_state := SessionStopped\<rparr>)))"
  by (cases "ss_runtime s"; cases "close_rt (the (ss_runtime s))")
     (simp_all add: session_Close_def Let_def stopAllTasks_runtime)

lemmas runTick_eq = runTick_def [unfolded tick_idle_def tick_request_def]

section \<open>Well-formed sessions\<close>

text \<open>
  The tasks have distinct ids, are the ones their timers run, and are valid; a closed
  scheduler has none.  Timers have distinct numbers, and a timer whose goroutine runs and
  whose stop channel is open is registered: no ticker is left running unreachably.
\<close>

definition tasks_ok :: "session \<Rightarrow> bool" where
  "tasks_ok s \<longleftrightarrow> distinct (map fst (ss_tasks s)) \<and>
     (\<forall>(k, t) \<in> set (ss_tasks s).
        st_ID (tt_task t) = k \<and> t \<in> set (ss_live s) \<and> tt_num t \<notin> set (ss_stopped s) \<and>
        0 < st_Interval (tt_task t) \<and> TrimSpace (st_Prompt (tt_task t)) \<noteq> [])"

definition timers_ok :: "session \<Rightarrow> bool" where
  "timers_ok s \<longleftrightarrow> distinct (map tt_num (ss_live s)) \<and>
     (\<forall>t \<in> set (ss_live s). tt_num t < ss_nextTimer s) \<and>
     (\<forall>n \<in> set (ss_stopped s). n < ss_nextTimer s) \<and>
     (\<forall>t \<in> set (ss_live s). tt_num t \<notin> set (ss_stopped s) \<longrightarrow> (st_ID (tt_task t), t) \<in> set (ss_tasks s))"

definition session_wf :: "session \<Rightarrow> bool" where
  "session_wf s \<longleftrightarrow> tasks_ok s \<and> timers_ok s \<and> (ss_schedClosed s \<longrightarrow> ss_tasks s = [])"

lemmas wf_defs = session_wf_def tasks_ok_def timers_ok_def

lemma live_num_inj:
  "timers_ok s \<Longrightarrow> t \<in> set (ss_live s) \<Longrightarrow> u \<in> set (ss_live s) \<Longrightarrow> tt_num t = tt_num u \<Longrightarrow> t = u"
  by (auto simp: timers_ok_def distinct_map inj_on_def)

lemma NewSession_wf: "NewSession init sp = Inr s \<Longrightarrow> session_wf s"
  by (auto simp: NewSession_def wf_defs Let_def split: sum.splits)

lemma runLocked_frame [frame_simps]:
  "ss_tasks (snd (runLocked run req s)) = ss_tasks s"
  "ss_live (snd (runLocked run req s)) = ss_live s"
  "ss_stopped (snd (runLocked run req s)) = ss_stopped s"
  "ss_nextTimer (snd (runLocked run req s)) = ss_nextTimer s"
  "ss_schedClosed (snd (runLocked run req s)) = ss_schedClosed s"
  "ss_runtime (snd (runLocked run req s)) = ss_runtime s"
  "ss_spec (snd (runLocked run req s)) = ss_spec s"
  "ss_sink (snd (runLocked run req s)) = ss_sink s"
  by (auto simp: runLocked_eq Let_def split: option.splits prod.splits)

lemma session_Send_wf: "session_wf s \<Longrightarrow> session_wf (snd (session_Send run req s))"
  by (simp add: session_Send_def wf_defs frame_simps)

lemma session_SetPushSink_wf: "session_wf s \<Longrightarrow> session_wf (session_SetPushSink k s)"
  by (simp add: session_SetPushSink_def wf_defs)

lemma session_Schedule_cases:
  obtains (error) e n where "session_Schedule task s = (Inl e, s\<lparr>ss_taskSeq := n\<rparr>)"
  | (ok) n task1 timer where
      "session_Schedule task s = (Inr (st_ID task1),
         s\<lparr>ss_taskSeq := n, ss_tasks := (st_ID task1, timer) # ss_tasks s,
           ss_live := timer # ss_live s, ss_nextTimer := ss_nextTimer s + 1\<rparr>)"
      "timer = \<lparr>tt_num = ss_nextTimer s, tt_task = task1\<rparr>"
      "task1 = task\<lparr>st_ID := st_ID task1\<rparr>" "st_ID task1 \<noteq> []"
      "st_ID task \<noteq> [] \<Longrightarrow> task1 = task"
      "map_of (ss_tasks s) (st_ID task1) = None"
      "0 < st_Interval task" "TrimSpace (st_Prompt task) \<noteq> []" "\<not> ss_schedClosed s"
proof -
  show thesis
  proof (cases "st_Interval task \<le> 0 \<or> TrimSpace (st_Prompt task) = [] \<or> ss_schedClosed s")
    case True
    then have "\<exists>e. session_Schedule task s = (Inl e, s)"
      unfolding session_Schedule_def by (elim disjE; cases "st_Interval task \<le> 0"; cases "TrimSpace (st_Prompt task) = []") simp_all
    then obtain e where "session_Schedule task s = (Inl e, s)" ..
    then show thesis by (intro error [of e "ss_taskSeq s"]) simp
  next
    case False
    define n where "n = (if st_ID task = [] then ss_taskSeq s + 1 else ss_taskSeq s)"
    define t1 where "t1 = (if st_ID task = [] then task\<lparr>st_ID := ''task-'' @ Itoa (int n)\<rparr> else task)"
    have t1: "t1 = task\<lparr>st_ID := st_ID t1\<rparr>" "st_ID t1 \<noteq> []" "st_ID task \<noteq> [] \<Longrightarrow> t1 = task"
      by (auto simp: t1_def)
    have pair: "(if st_ID task = [] then let n = ss_taskSeq s + 1
                   in (task\<lparr>st_ID := ''task-'' @ Itoa (int n)\<rparr>, s\<lparr>ss_taskSeq := n\<rparr>) else (task, s))
                = (t1, s\<lparr>ss_taskSeq := n\<rparr>)"
      by (simp add: t1_def n_def)
    show thesis
    proof (cases "map_of (ss_tasks s) (st_ID t1)")
      case None
      with False have eq: "session_Schedule task s = (Inr (st_ID t1),
         s\<lparr>ss_taskSeq := n, ss_tasks := (st_ID t1, \<lparr>tt_num = ss_nextTimer s, tt_task = t1\<rparr>) # ss_tasks s,
           ss_live := \<lparr>tt_num = ss_nextTimer s, tt_task = t1\<rparr> # ss_live s, ss_nextTimer := ss_nextTimer s + 1\<rparr>)"
        by (simp only: session_Schedule_def pair) (simp add: Let_def)
      show thesis by (rule ok [OF eq refl t1 None]) (use False in auto)
    next
      case (Some u)
      with False show thesis
        by (intro error [of "errorf (''scheduled task already exists: '' @ st_ID t1)" n])
           (simp only: session_Schedule_def pair, simp)
    qed
  qed
qed

lemma session_Schedule_wf: "session_wf s \<Longrightarrow> session_wf (snd (session_Schedule task s))"
proof (cases rule: session_Schedule_cases [of task s])
  case (error e n)
  assume "session_wf s"
  with error show ?thesis by (simp add: wf_defs)
next
  case (ok n task1 timer)
  assume wf: "session_wf s"
  have num: "tt_num timer = ss_nextTimer s" "tt_task timer = task1" using ok(2) by simp_all
  have iv: "st_Interval task1 = st_Interval task" "st_Prompt task1 = st_Prompt task"
    by (rule trans [OF arg_cong [OF ok(3), of st_Interval]], simp)
       (rule trans [OF arg_cong [OF ok(3), of st_Prompt]], simp)
  have fresh: "st_ID task1 \<notin> fst ` set (ss_tasks s)"
    using ok(6) by (simp add: map_of_eq_None_iff)
  have below: "\<forall>t \<in> set (ss_live s). tt_num t \<noteq> ss_nextTimer s" "ss_nextTimer s \<notin> set (ss_stopped s)"
    using wf by (auto simp: wf_defs)
  have "tasks_ok (snd (session_Schedule task s))"
    using wf fresh ok(7,8) below(2) by (auto simp: ok(1) wf_defs num iv)
  moreover have "timers_ok (snd (session_Schedule task s))"
    using wf below by (auto simp: ok(1) wf_defs num less_Suc_eq)
  ultimately show ?thesis using ok(9) by (simp add: session_wf_def ok(1))
qed

lemma timer_stop_simps [simp]:
  "ss_tasks (timer_stop t s) = ss_tasks s" "ss_live (timer_stop t s) = ss_live s"
  "ss_nextTimer (timer_stop t s) = ss_nextTimer s" "ss_schedClosed (timer_stop t s) = ss_schedClosed s"
  "ss_runtime (timer_stop t s) = ss_runtime s" "ss_state (timer_stop t s) = ss_state s"
  "ss_spec (timer_stop t s) = ss_spec s" "ss_sink (timer_stop t s) = ss_sink s"
  "ss_stopped (timer_stop t s) = tt_num t # ss_stopped s"
  by (simp_all add: timer_stop_def)

lemma fold_timer_stop_simps [simp]:
  "ss_tasks (fold timer_stop ts s) = ss_tasks s" "ss_live (fold timer_stop ts s) = ss_live s"
  "ss_nextTimer (fold timer_stop ts s) = ss_nextTimer s"
  "ss_schedClosed (fold timer_stop ts s) = ss_schedClosed s"
  "ss_runtime (fold timer_stop ts s) = ss_runtime s" "ss_state (fold timer_stop ts s) = ss_state s"
  "ss_spec (fold timer_stop ts s) = ss_spec s" "ss_sink (fold timer_stop ts s) = ss_sink s"
  "set (ss_stopped (fold timer_stop ts s)) = tt_num ` set ts \<union> set (ss_stopped s)"
  by (induction ts arbitrary: s) auto

lemma session_CancelTask_wf: "session_wf s \<Longrightarrow> session_wf (snd (session_CancelTask k s))"
proof (cases "map_of (ss_tasks s) k")
  case None
  assume "session_wf s"
  with None show ?thesis by (simp add: session_CancelTask_def)
next
  case (Some timer)
  assume wf: "session_wf s"
  have tin: "(k, timer) \<in> set (ss_tasks s)" using Some by (rule map_of_SomeD)
  have lt: "timer \<in> set (ss_live s)" "tt_num timer < ss_nextTimer s"
    using wf tin by (auto simp: wf_defs)
  have other: "tt_num u \<noteq> tt_num timer" if "(k', u) \<in> set (ss_tasks s)" "k' \<noteq> k" for k' u
  proof
    assume "tt_num u = tt_num timer"
    moreover have "u \<in> set (ss_live s)" using wf that by (auto simp: wf_defs)
    ultimately have "u = timer" using wf lt(1) live_num_inj [of s u timer] by (simp add: session_wf_def)
    moreover have "st_ID (tt_task u) = k'" "st_ID (tt_task timer) = k"
      using wf that(1) tin unfolding session_wf_def tasks_ok_def by fast+
    ultimately show False using that(2) by simp
  qed
  have "tasks_ok (snd (session_CancelTask k s))"
    using wf other by (auto simp: session_CancelTask_def Some wf_defs distinct_map_filter)
  moreover have "timers_ok (snd (session_CancelTask k s))"
  proof -
    have "(st_ID (tt_task t), t) \<in> set (ss_tasks s) \<and> st_ID (tt_task t) \<noteq> k"
      if "t \<in> set (ss_live s)" "tt_num t \<notin> set (ss_stopped s)" "tt_num t \<noteq> tt_num timer" for t
    proof -
      have "(st_ID (tt_task t), t) \<in> set (ss_tasks s)" using wf that by (auto simp: wf_defs)
      moreover from this have "st_ID (tt_task t) \<noteq> k"
        using wf that(3) tin by (auto simp: wf_defs dest: eq_key_imp_eq_value)
      ultimately show ?thesis by simp
    qed
    with wf lt show ?thesis by (auto simp: session_CancelTask_def Some wf_defs)
  qed
  ultimately show ?thesis using wf by (simp add: session_wf_def session_CancelTask_def Some)
qed

lemma stopAllTasks_wf: "session_wf s \<Longrightarrow> session_wf (stopAllTasks c s)"
proof -
  assume wf: "session_wf s"
  have "t \<in> set (ss_live s) \<Longrightarrow> tt_num t \<notin> set (ss_stopped s) \<Longrightarrow> tt_num t \<in> tt_num ` snd ` set (ss_tasks s)" for t
    using wf by (force simp: wf_defs)
  with wf show ?thesis by (auto simp: stopAllTasks_def Let_def wf_defs image_image)
qed

lemma session_Close_wf: "session_wf s \<Longrightarrow> session_wf (snd (session_Close cl s))"
  using stopAllTasks_wf [of s True]
  by (auto simp: session_Close_eq Let_def wf_defs split: option.splits)

lemma task_exit_wf:
  "session_wf s \<Longrightarrow> (\<forall>(k, u) \<in> set (ss_tasks s). tt_num u \<noteq> tt_num t) \<Longrightarrow> session_wf (task_exit t s)"
  by (auto simp: task_exit_def wf_defs distinct_map_filter)

lemma runTask_stop_wf: "session_wf s \<Longrightarrow> session_wf (runTask_stop t s)"
proof (cases "tt_num t \<in> set (ss_stopped s)")
  case True
  assume wf: "session_wf s"
  then have "\<forall>(k, u) \<in> set (ss_tasks s). tt_num u \<noteq> tt_num t"
    using True unfolding session_wf_def tasks_ok_def by fastforce
  with wf True show ?thesis by (simp add: runTask_stop_def task_exit_wf)
qed (simp add: runTask_stop_def)

lemma runTick_frame [frame_simps]:
  "ss_tasks (snd (snd (runTick run h task s))) = ss_tasks s"
  "ss_live (snd (snd (runTick run h task s))) = ss_live s"
  "ss_stopped (snd (snd (runTick run h task s))) = ss_stopped s"
  "ss_nextTimer (snd (snd (runTick run h task s))) = ss_nextTimer s"
  "ss_schedClosed (snd (snd (runTick run h task s))) = ss_schedClosed s"
  "ss_runtime (snd (snd (runTick run h task s))) = ss_runtime s"
  using runLocked_frame [of run "empty_request\<lparr>rq_BotID := sp_BotID (ss_spec s), rq_Prompt := st_Prompt task\<rparr>" s]
  by (auto simp: runTick_eq split: prod.splits outcome.splits option.splits)

lemma runTick_wf: "session_wf s \<Longrightarrow> session_wf (snd (snd (runTick run h task s)))"
  by (simp add: wf_defs frame_simps)

lemma tick_fail_wf:
  assumes "session_wf s" "t \<in> set (ss_live s)"
  shows "session_wf (task_exit t (snd (session_CancelTask (st_ID (tt_task t)) s)))"
proof -
  let ?s2 = "snd (session_CancelTask (st_ID (tt_task t)) s)"
  have wf2: "session_wf ?s2" by (rule session_CancelTask_wf [OF assms(1)])
  have sub: "set (ss_tasks ?s2) \<subseteq> {(k, u) \<in> set (ss_tasks s). k \<noteq> st_ID (tt_task t)}"
    by (auto simp: session_CancelTask_def map_of_eq_None_iff rev_image_eqI split: option.splits)
  have "tt_num u \<noteq> tt_num t" if "(k, u) \<in> set (ss_tasks ?s2)" for k u
  proof
    assume "tt_num u = tt_num t"
    moreover have "(k, u) \<in> set (ss_tasks s)" "k \<noteq> st_ID (tt_task t)" using sub that by auto
    ultimately show False using assms live_num_inj [of s u t] by (auto simp: wf_defs)
  qed
  then show ?thesis by (intro task_exit_wf [OF wf2]) auto
qed

lemma runTask_tick_wf:
  assumes "session_wf s" "t \<in> set (ss_live s)"
  shows "session_wf (snd (runTask_tick run h t s))"
proof -
  obtain ok push s1 where r: "runTick run h (tt_task t) s = (ok, push, s1)" by (cases "runTick run h (tt_task t) s")
  have "session_wf s1" using runTick_wf [OF assms(1), of run h "tt_task t"] r by simp
  moreover have "t \<in> set (ss_live s1)" using runTick_frame(2) [of run h "tt_task t" s] r assms(2) by simp
  ultimately show ?thesis using tick_fail_wf [of s1 t] by (simp add: runTask_tick_def r split: bool.splits)
qed

lemma close_step_wf: "session_wf s \<Longrightarrow> session_wf (snd (close_step cl c s))"
  using stopAllTasks_wf [of s True] by (cases c) (auto simp: wf_defs split: option.splits)

lemma runLocked_begin_wf: "session_wf s \<Longrightarrow> session_wf (snd (runLocked_begin s))"
  and runLocked_end_wf: "session_wf s \<Longrightarrow> session_wf (runLocked_end a s)"
  by (simp_all add: runLocked_begin_def runLocked_end_def wf_defs split: prod.splits option.splits)

section \<open>What the operations leave alone\<close>

lemma session_Schedule_frame [frame_simps]:
  "ss_sink (snd (session_Schedule task s)) = ss_sink s"
  "ss_runtime (snd (session_Schedule task s)) = ss_runtime s"
  "ss_state (snd (session_Schedule task s)) = ss_state s"
  "ss_spec (snd (session_Schedule task s)) = ss_spec s"
  by (cases rule: session_Schedule_cases [of task s]; simp)+

lemma session_CancelTask_frame [frame_simps]:
  "ss_sink (snd (session_CancelTask k s)) = ss_sink s"
  "ss_runtime (snd (session_CancelTask k s)) = ss_runtime s"
  "ss_state (snd (session_CancelTask k s)) = ss_state s"
  "ss_spec (snd (session_CancelTask k s)) = ss_spec s"
  "ss_live (snd (session_CancelTask k s)) = ss_live s"
  by (simp_all add: session_CancelTask_def split: option.splits)

lemma runTick_frame2 [frame_simps]:
  "ss_sink (snd (snd (runTick run h task s))) = ss_sink s"
  "ss_spec (snd (snd (runTick run h task s))) = ss_spec s"
  using runLocked_frame [of run "empty_request\<lparr>rq_BotID := sp_BotID (ss_spec s), rq_Prompt := st_Prompt task\<rparr>" s]
  by (auto simp: runTick_eq split: prod.splits outcome.splits option.splits)

lemma task_exit_frame [frame_simps]:
  "ss_sink (task_exit t s) = ss_sink s" "ss_runtime (task_exit t s) = ss_runtime s"
  "ss_spec (task_exit t s) = ss_spec s" "ss_state (task_exit t s) = ss_state s"
  "ss_tasks (task_exit t s) = ss_tasks s"
  by (simp_all add: task_exit_def)

lemma runTask_tick_frame [frame_simps]:
  "ss_sink (snd (runTask_tick run h t s)) = ss_sink s"
  "ss_runtime (snd (runTask_tick run h t s)) = ss_runtime s"
  "ss_spec (snd (runTask_tick run h t s)) = ss_spec s"
  using runTick_frame [of run h "tt_task t" s] runTick_frame2 [of run h "tt_task t" s]
  by (cases "runTick run h (tt_task t) s"; simp add: runTask_tick_def frame_simps split: bool.splits)+

lemma runTask_stop_frame [frame_simps]:
  "ss_sink (runTask_stop t s) = ss_sink s" "ss_runtime (runTask_stop t s) = ss_runtime s"
  "ss_spec (runTask_stop t s) = ss_spec s"
  by (simp_all add: runTask_stop_def frame_simps)

lemma stopAllTasks_simps [simp]:
  "ss_tasks (stopAllTasks c s) = []" "ss_live (stopAllTasks c s) = ss_live s"
  "ss_schedClosed (stopAllTasks c s) = (c \<or> ss_schedClosed s)"
  "ss_runtime (stopAllTasks c s) = ss_runtime s" "ss_sink (stopAllTasks c s) = ss_sink s"
  "ss_state (stopAllTasks c s) = ss_state s" "ss_spec (stopAllTasks c s) = ss_spec s"
  "set (ss_stopped (stopAllTasks c s)) = tt_num ` snd ` set (ss_tasks s) \<union> set (ss_stopped s)"
  by (auto simp: stopAllTasks_def Let_def)

lemma close_step_frame [frame_simps]:
  "ss_sink (snd (close_step cl c s)) = ss_sink s"
  "ss_spec (snd (close_step cl c s)) = ss_spec s"
  "ss_live (snd (close_step cl c s)) = ss_live s"
  by (cases c; simp split: option.splits)+

lemma runLocked_parts_frame [frame_simps]:
  "ss_sink (snd (runLocked_begin s)) = ss_sink s" "ss_sink (runLocked_end a s) = ss_sink s"
  "ss_runtime (snd (runLocked_begin s)) = ss_runtime s" "ss_runtime (runLocked_end a s) = ss_runtime s"
  "ss_spec (snd (runLocked_begin s)) = ss_spec s" "ss_spec (runLocked_end a s) = ss_spec s"
  by (simp_all add: runLocked_begin_def runLocked_end_def split: prod.splits option.splits)

lemma session_Close_frame [frame_simps]:
  "ss_sink (snd (session_Close cl s)) = ss_sink s"
  "ss_spec (snd (session_Close cl s)) = ss_spec s"
  "ss_tasks (snd (session_Close cl s)) = []"
  "ss_schedClosed (snd (session_Close cl s))"
  "ss_live (snd (session_Close cl s)) = ss_live s"
  by (simp_all add: session_Close_eq Let_def split: option.splits)

lemma session_Close_runtime:
  "ss_runtime (snd (session_Close cl s)) = None \<or> ss_runtime (snd (session_Close cl s)) = ss_runtime s"
  "fst (session_Close cl s) = None \<Longrightarrow> ss_runtime (snd (session_Close cl s)) = None
     \<and> ss_state (snd (session_Close cl s)) = SessionStopped"
  "fst (session_Close cl s) = Some e \<Longrightarrow> ss_runtime (snd (session_Close cl s)) = ss_runtime s
     \<and> ss_state (snd (session_Close cl s)) = ss_state s"
  by (auto simp: session_Close_eq Let_def split: option.splits)

section \<open>What the table of tasks shows\<close>

lemma session_Tasks_ids: "session_wf s \<Longrightarrow> st_ID ` set (session_Tasks s) = fst ` set (ss_tasks s)"
proof -
  assume wf: "session_wf s"
  have "st_ID (tt_task (snd x)) = fst x" if "x \<in> set (ss_tasks s)" for x
    using wf that unfolding session_wf_def tasks_ok_def by fastforce
  then show ?thesis by (auto simp: session_Tasks_def image_image)
qed

lemma session_Schedule_Tasks:
  assumes wf: "session_wf s" and r: "session_Schedule t s = (Inr k, s')"
  shows "k \<noteq> [] \<and> k \<notin> st_ID ` set (session_Tasks s)
     \<and> set (session_Tasks s') = insert (t\<lparr>st_ID := k\<rparr>) (set (session_Tasks s))"
proof (cases rule: session_Schedule_cases [of t s])
  case (error e n)
  with r show ?thesis by simp
next
  case (ok n t1 timer)
  have k: "st_ID t1 = k" using r ok(1) by simp
  have t1: "t1 = t\<lparr>st_ID := k\<rparr>" using ok(3) k by simp
  have "k \<notin> fst ` set (ss_tasks s)" using ok(6) k by (simp add: map_of_eq_None_iff)
  moreover have "set (session_Tasks s') = insert t1 (set (session_Tasks s))"
  proof -
    have "ss_tasks s' = (st_ID t1, timer) # ss_tasks s"
      using arg_cong [OF r, of "\<lambda>x. ss_tasks (snd x)"] by (simp add: ok(1))
    then show ?thesis by (simp add: session_Tasks_def ok(2))
  qed
  ultimately show ?thesis using session_Tasks_ids [OF wf] ok(4) k t1 by simp
qed

lemma session_Schedule_err_Tasks:
  "session_Schedule t s = (Inl e, s') \<Longrightarrow> session_Tasks s' = session_Tasks s"
  by (cases rule: session_Schedule_cases [of t s]) (auto simp: session_Tasks_def)

lemma session_CancelTask_Tasks:
  assumes "session_wf s"
  shows "fst (session_CancelTask k s) \<longleftrightarrow> k \<in> st_ID ` set (session_Tasks s)"
    and "set (session_Tasks (snd (session_CancelTask k s))) = {t \<in> set (session_Tasks s). st_ID t \<noteq> k}"
proof -
  have ids: "st_ID (tt_task (snd x)) = fst x" if "x \<in> set (ss_tasks s)" for x
    using assms that unfolding session_wf_def tasks_ok_def by fastforce
  have "fst (session_CancelTask k s) \<longleftrightarrow> k \<in> fst ` set (ss_tasks s)"
    by (auto simp: session_CancelTask_def map_of_eq_None_iff split: option.splits
        dest: map_of_SomeD intro: rev_image_eqI)
  then show "fst (session_CancelTask k s) \<longleftrightarrow> k \<in> st_ID ` set (session_Tasks s)"
    by (simp add: session_Tasks_ids [OF assms])
  have "ss_tasks (snd (session_CancelTask k s)) = filter (\<lambda>(j, _). j \<noteq> k) (ss_tasks s)"
  proof (cases "map_of (ss_tasks s) k")
    case None
    then have "\<forall>x \<in> set (ss_tasks s). fst x \<noteq> k" by (auto simp: map_of_eq_None_iff)
    then have "filter (\<lambda>(j, _). j \<noteq> k) (ss_tasks s) = ss_tasks s" by (auto simp: filter_id_conv)
    with None show ?thesis by (simp add: session_CancelTask_def)
  qed (simp add: session_CancelTask_def)
  then show "set (session_Tasks (snd (session_CancelTask k s))) = {t \<in> set (session_Tasks s). st_ID t \<noteq> k}"
    using ids by (force simp: session_Tasks_def)
qed

section \<open>Properties\<close>

lemma session_Schedule_closed: "ss_schedClosed s \<Longrightarrow> \<exists>e. fst (session_Schedule t s) = Inl e"
  by (cases rule: session_Schedule_cases [of t s]) auto

lemma live_timer_known:
  "session_wf s \<Longrightarrow> t \<in> set (ss_live s) \<Longrightarrow> tt_num t \<in> tt_num ` snd ` set (ss_tasks s) \<union> set (ss_stopped s)"
  unfolding session_wf_def timers_ok_def by force

text \<open>
  Closing a session, whether or not the runtime closes, leaves no scheduled task: the
  table is empty, every ticker that still runs has its stop channel closed, and every
  later \<open>Schedule\<close> is refused.  When the runtime closes, the session is stopped and holds
  no runtime; when it does not, both are as they were.
\<close>

theorem session_Close_stops_tasks:
  assumes "session_wf s" "session_Close close_rt s = (err, s')"
  shows "session_Tasks s' = [] \<and> (\<forall>t \<in> set (ss_live s'). tt_num t \<in> set (ss_stopped s'))
    \<and> (\<forall>task. \<exists>e. fst (session_Schedule task s') = Inl e)
    \<and> (err = None \<longrightarrow> ss_runtime s' = None \<and> session_State s' = SessionStopped)
    \<and> (err \<noteq> None \<longrightarrow> ss_runtime s' = ss_runtime s \<and> session_State s' = session_State s)"
proof -
  have s': "s' = snd (session_Close close_rt s)" "err = fst (session_Close close_rt s)"
    using assms(2) by simp_all
  have "set (ss_stopped s') = tt_num ` snd ` set (ss_tasks s) \<union> set (ss_stopped s)"
    by (simp add: s' session_Close_eq Let_def split: option.splits)
  then have "\<forall>t \<in> set (ss_live s'). tt_num t \<in> set (ss_stopped s')"
    using live_timer_known [OF assms(1)] by (simp add: s'(1) frame_simps)
  moreover have "\<exists>e. fst (session_Schedule task s') = Inl e" for task
    by (rule session_Schedule_closed) (simp add: s'(1) frame_simps)
  ultimately show ?thesis
    using session_Close_runtime [of close_rt s] by (auto simp: s' session_Tasks_def frame_simps session_State_def)
qed

lemma runTask_tick_gone:
  assumes wf: "session_wf s" and r: "runTick run held (tt_task t) s = (False, p, s1)" "session_wf s1"
  shows "t \<notin> set (ss_live (snd (runTask_tick run held t s)))"
    and "st_ID (tt_task t) \<notin> st_ID ` set (session_Tasks (snd (runTask_tick run held t s)))"
proof -
  have eq: "snd (runTask_tick run held t s) = task_exit t (snd (session_CancelTask (st_ID (tt_task t)) s1))"
    by (simp add: runTask_tick_def r)
  show "t \<notin> set (ss_live (snd (runTask_tick run held t s)))" unfolding eq by (simp add: task_exit_def)
  show "st_ID (tt_task t) \<notin> st_ID ` set (session_Tasks (snd (runTask_tick run held t s)))"
    using session_CancelTask_Tasks(2) [OF r(2), of "st_ID (tt_task t)"]
    by (auto simp: eq session_Tasks_def frame_simps)
qed

text \<open>
  One tick of a scheduled task.  A turn in flight skips it.  When the session has no
  runtime, is broken or stopped, or the task's turn fails, nothing is pushed, the ticker ends
  and the task is removed.  Otherwise the ticker goes on and the answer is handed to the
  session's sink, if one is set, under the id of the task.
\<close>

theorem runTask_tick_outcome:
  assumes wf: "session_wf s" and live: "t \<in> set (ss_live s)"
    and tick: "runTask_tick run held t s = (push, s')"
  defines "idle \<equiv> ss_runtime s = None \<or> session_State s \<in> {SessionBroken, SessionStopped}"
  defines "answer \<equiv> run (the (ss_runtime s))
      (empty_request\<lparr>rq_BotID := sp_BotID (ss_spec s), rq_Prompt := st_Prompt (tt_task t)\<rparr>)"
  shows "if held then push = None \<and> s' = s
    else if idle \<or> snd answer \<noteq> None
    then push = None \<and> t \<notin> set (ss_live s') \<and> st_ID (tt_task t) \<notin> st_ID ` set (session_Tasks s')
    else t \<in> set (ss_live s') \<and>
      push = map_option (\<lambda>k. (k, \<lparr>pr_Response = fst answer, pr_TaskID = st_ID (tt_task t)\<rparr>)) (ss_sink s)"
proof -
  obtain go p s1 where r: "runTick run held (tt_task t) s = (go, p, s1)" by (cases "runTick run held (tt_task t) s")
  have wf1: "session_wf s1" using runTick_wf [OF wf, of run held "tt_task t"] r by simp
  have push: "push = p" and s': "s' = snd (runTask_tick run held t s)"
    using tick r by (auto simp: runTask_tick_def split: bool.splits)
  have live1: "ss_live s1 = ss_live s" using runTick_frame(2) [of run held "tt_task t" s] r by simp
  have go: "go \<Longrightarrow> s' = s1" using tick r by (simp add: runTask_tick_def)
  have gone: "\<not> go \<Longrightarrow> t \<notin> set (ss_live s') \<and> st_ID (tt_task t) \<notin> st_ID ` set (session_Tasks s')"
    using runTask_tick_gone [OF wf _ wf1, of run held t p] r unfolding s' by simp
  have held: "held \<Longrightarrow> go \<and> p = None \<and> s1 = s" using r by (auto simp: runTick_eq)
  have idle: "\<not> held \<Longrightarrow> idle \<Longrightarrow> \<not> go \<and> p = None"
    using r by (auto simp: runTick_eq idle_def session_State_def)
  have turn: "if snd answer \<noteq> None then \<not> go \<and> p = None
      else go \<and> p = map_option (\<lambda>k. (k, \<lparr>pr_Response = fst answer, pr_TaskID = st_ID (tt_task t)\<rparr>)) (ss_sink s)"
    if "\<not> held" "\<not> idle"
    using r that unfolding answer_def idle_def
    by (cases "ss_runtime s"; cases answer)
       (auto simp: answer_def runTick_eq runLocked_eq Let_def session_State_def session_pushSink_def
         split: option.splits)
  show ?thesis
    by (cases held; cases idle; cases "snd answer = None"; cases go)
       (use push go gone held idle turn live live1 in simp_all)
qed

text \<open>A session with one task, for the examples.\<close>

definition sample_task :: scheduledTask where
  "sample_task = \<lparr>st_ID = ''task-1'', st_Interval = minute, st_Prompt = ''report''\<rparr>"

definition sample_session :: session where
  "sample_session = \<lparr>ss_state = SessionReady, ss_runtime = Some 7, ss_spec = empty_spec, ss_sink = Some 3,
     ss_tasks = [(''task-1'', \<lparr>tt_num = 0, tt_task = sample_task\<rparr>)], ss_taskSeq = 1, ss_schedClosed = False,
     ss_stopped = [], ss_live = [\<lparr>tt_num = 0, tt_task = sample_task\<rparr>], ss_nextTimer = 1\<rparr>"

lemma sample_session_wf: "session_wf sample_session"
  by (simp add: sample_session_def sample_task_def wf_defs time_units TrimSpace_plain plain_char_def)

lemma session_Close_stops_tasks_witness:
  "session_Tasks (snd (session_Close (\<lambda>_. Some (errorf ''busy'')) sample_session)) = []
    \<and> ss_runtime (snd (session_Close (\<lambda>_. Some (errorf ''busy'')) sample_session)) = Some 7"
  using session_Close_stops_tasks [OF sample_session_wf surjective_pairing, of "\<lambda>_. Some (errorf ''busy'')"]
  by (simp add: session_Close_eq Let_def) (simp add: sample_session_def)

lemma runTask_tick_outcome_witness:
  "fst (runTask_tick (\<lambda>_ q. (text_response (rq_Prompt q), None)) False \<lparr>tt_num = 0, tt_task = sample_task\<rparr> sample_session)
     = Some (3, \<lparr>pr_Response = text_response ''report'', pr_TaskID = ''task-1''\<rparr>)"
  using runTask_tick_outcome [where run = "\<lambda>_ q. (text_response (rq_Prompt q), None)" and held = False
      and t = "\<lparr>tt_num = 0, tt_task = sample_task\<rparr>", OF sample_session_wf _ surjective_pairing]
  by (simp add: sample_session_def sample_task_def session_State_def)

end
