(* ===== verification/Orchestrator.thy ===== *)
theory Orchestrator
  imports Channel Session
begin

text \<open>
  The message orchestrator (\<open>internal/app/bot/message_orchestrator.go\<close>).

  The state of a bot is shared by pointer between the table, the accept goroutine and the
  deliver goroutine; \<open>or_heap\<close> is the heap and a pointer is an index.  A Go channel of
  messages is the list of what it buffers, with its capacity and its identity, since
  \<open>resizeWorkerQueue\<close> replaces the channel of a worker.  \<open>stopCh\<close> is \<open>None\<close> until made,
  then \<open>Some closed\<close>.  Each function is one call; \<open>OrchSteps\<close> interleaves them.  What the
  calls do to the outside world is a list of effects, in order.
\<close>

section \<open>Constants and data\<close>

definition busyReply :: string where
  "busyReply = bytes [0xE5, 0xBD, 0x93, 0xE5, 0x89, 0x8D, 0xE8, 0xAF, 0xB7, 0xE6, 0xB1, 0x82, 0xE8, 0xBE, 0x83,
     0xE5, 0xA4, 0x9A, 0xEF, 0xBC, 0x8C, 0xE8, 0xAF, 0xB7, 0xE7, 0xA8, 0x8D, 0xE5, 0x90, 0x8E, 0xE5, 0x86, 0x8D,
     0xE8, 0xAF, 0x95, 0xE3, 0x80, 0x82]"

definition timeoutReply :: string where
  "timeoutReply = bytes [0xE5, 0xA4, 0x84, 0xE7, 0x90, 0x86, 0xE8, 0xB6, 0x85, 0xE6, 0x97, 0xB6, 0xEF, 0xBC, 0x8C,
     0xE8, 0xAF, 0xB7, 0xE7, 0xA8, 0x8D, 0xE5, 0x90, 0x8E, 0xE9, 0x87, 0x8D, 0xE8, 0xAF, 0x95, 0xE3, 0x80, 0x82]"

definition failedReply :: string where
  "failedReply = bytes [0xE5, 0xA4, 0x84, 0xE7, 0x90, 0x86, 0xE5, 0xA4, 0xB1, 0xE8, 0xB4, 0xA5, 0xEF, 0xBC, 0x8C,
     0xE8, 0xAF, 0xB7, 0xE7, 0xA8, 0x8D, 0xE5, 0x90, 0x8E, 0xE9, 0x87, 0x8D, 0xE8, 0xAF, 0x95, 0xE3, 0x80, 0x82]"

definition ackReply :: string where
  "ackReply = bytes [0xE6, 0x94, 0xB6, 0xE5, 0x88, 0xB0, 0xEF, 0xBC, 0x8C, 0xE6, 0xAD, 0xA3, 0xE5, 0x9C, 0xA8,
     0xE5, 0xA4, 0x84, 0xE7, 0x90, 0x86, 0xE2, 0x80, 0xA6]"

definition seenMessageTTL :: int where "seenMessageTTL = 10 * minute"
definition cleanupInterval :: int where "cleanupInterval = minute"
definition defaultProcessingTimeout :: int where "defaultProcessingTimeout = 30 * second"
definition defaultReplyTimeout :: int where "defaultReplyTimeout = 5 * second"
definition defaultQueueSize :: int where "defaultQueueSize = 1"

record inboundMessage =
  im_BotID :: string
  im_MessageID :: string
  im_From :: string
  im_Text :: string
  im_ReplyTarget :: replyTarget
  im_ReceivedAt :: timestamp
  im_Ctx :: "goctx option"

text \<open>A progress session is a handle.\<close>

record deliveryItem =
  di_msg :: inboundMessage
  di_spec :: spec
  di_sess :: "nat option"

record botWorker =
  bw_chan :: nat
  bw_cap :: nat
  bw_queue :: "inboundMessage list"

record botState =
  bs_worker :: "botWorker option"
  bs_pending :: "inboundMessage option"
  bs_stopCh :: "bool option"
  bs_active :: int
  bs_queueSize :: int
  bs_lastReplyTarget :: replyTarget

record seenMessageState =
  sm_seenAt :: int
  sm_inProgress :: bool

record orchestrator =
  or_heap :: "botState list"
  or_bots :: "string \<rightharpoonup> nat"
  or_seen :: "string \<rightharpoonup> seenMessageState"
  or_lastSeenCleanup :: "int option"
  or_progress :: "(replyTarget \<Rightarrow> nat option) option"
  or_messageContext :: "goctx option \<Rightarrow> goctx"
  or_processingTimeout :: int
  or_replyTimeout :: int
  or_nextChan :: nat

datatype effect =
    Reply goctx replyTarget response
  | SessAck nat
  | SessStep nat progressEvent
  | SessFail goctx nat string
  | SessDone nat
  | Upsert botCLISession
  | SetPushSink string
  | StopSession string

text \<open>The collaborators: resolver, progress sessions' \<open>Ack\<close>, executor, and whether sessions are stored.\<close>

record orchEnv =
  en_resolve :: "goctx \<Rightarrow> string \<Rightarrow> goerr + spec"
  en_ack :: "nat \<Rightarrow> goerr option"
  en_send :: "goctx \<Rightarrow> string \<Rightarrow> spec \<Rightarrow> request \<Rightarrow> progressEvent list \<times> response \<times> goerr option"
  en_sessions :: bool

section \<open>Construction and settings\<close>

definition NewBotMessageOrchestrator :: orchestrator where
  "NewBotMessageOrchestrator =
     \<lparr>or_heap = [], or_bots = Map.empty, or_seen = Map.empty, or_lastSeenCleanup = None, or_progress = None,
      or_messageContext = (\<lambda>ctx. case ctx of None \<Rightarrow> Background | Some c \<Rightarrow> c),
      or_processingTimeout = defaultProcessingTimeout, or_replyTimeout = defaultReplyTimeout, or_nextChan = 0\<rparr>"

definition SetMessageContext :: "(goctx option \<Rightarrow> goctx) option \<Rightarrow> orchestrator \<Rightarrow> orchestrator" where
  "SetMessageContext fn o1 = (case fn of None \<Rightarrow> o1 | Some f \<Rightarrow> o1\<lparr>or_messageContext := f\<rparr>)"

definition SetProgressReporter :: "(replyTarget \<Rightarrow> nat option) option \<Rightarrow> orchestrator \<Rightarrow> orchestrator" where
  "SetProgressReporter p o1 = o1\<lparr>or_progress := p\<rparr>"

definition SetProcessingTimeoutForTest :: "int \<Rightarrow> orchestrator \<Rightarrow> orchestrator" where
  "SetProcessingTimeoutForTest d o1 = (if d \<le> 0 then o1 else o1\<lparr>or_processingTimeout := d\<rparr>)"

definition SetReplyTimeoutForTest :: "int \<Rightarrow> orchestrator \<Rightarrow> orchestrator" where
  "SetReplyTimeoutForTest d o1 = (if d \<le> 0 then o1 else o1\<lparr>or_replyTimeout := d\<rparr>)"

definition beginProgress :: "replyTarget \<Rightarrow> orchestrator \<Rightarrow> nat option" where
  "beginProgress target o1 = (case or_progress o1 of None \<Rightarrow> None | Some begin \<Rightarrow> begin target)"

definition attachContext :: "goctx option \<Rightarrow> inboundMessage \<Rightarrow> orchestrator \<Rightarrow> inboundMessage" where
  "attachContext ctx msg o1 = msg\<lparr>im_Ctx := Some (or_messageContext o1 ctx)\<rparr>"

section \<open>Heap access\<close>

definition or_state :: "orchestrator \<Rightarrow> nat \<Rightarrow> botState" where
  "or_state o1 h = or_heap o1 ! h"

definition or_put :: "nat \<Rightarrow> botState \<Rightarrow> orchestrator \<Rightarrow> orchestrator" where
  "or_put h s o1 = o1\<lparr>or_heap := (or_heap o1)[h := s]\<rparr>"

section \<open>Contexts\<close>

definition base_ctx :: "goctx option \<Rightarrow> goctx" where
  "base_ctx parent = (case parent of None \<Rightarrow> Background | Some c \<Rightarrow> WithoutCancel c)"

definition deliverContext :: "int \<Rightarrow> inboundMessage \<Rightarrow> int \<Rightarrow> orchestrator \<Rightarrow> goctx" where
  "deliverContext now msg specTimeout o1 =
     (let timeout = (if specTimeout > or_processingTimeout o1 then specTimeout else or_processingTimeout o1);
          base = base_ctx (im_Ctx msg)
      in if timeout > 0 then WithTimeout now base timeout else base)"

definition processingContext :: "int \<Rightarrow> goctx option \<Rightarrow> int \<Rightarrow> orchestrator \<Rightarrow> goctx" where
  "processingContext now parent minTimeout o1 =
     (let timeout = (if minTimeout > or_processingTimeout o1 then minTimeout else or_processingTimeout o1);
          p = (case parent of None \<Rightarrow> Background | Some c \<Rightarrow> c)
      in if timeout \<le> 0 then p else WithTimeout now p timeout)"

definition replyContext :: "int \<Rightarrow> goctx option \<Rightarrow> orchestrator \<Rightarrow> goctx" where
  "replyContext now parent o1 =
     (if or_replyTimeout o1 \<le> 0 then base_ctx parent
      else WithTimeout now (base_ctx parent) (or_replyTimeout o1))"

section \<open>Replies\<close>

definition reply_target :: "inboundMessage \<Rightarrow> replyTarget" where
  "reply_target msg =
     (let target = im_ReplyTarget msg
      in if rt_RecipientID target = [] then target\<lparr>rt_RecipientID := im_From msg\<rparr> else target)"

definition orch_reply :: "inboundMessage \<Rightarrow> response \<Rightarrow> effect" where
  "orch_reply msg resp =
     Reply (case im_Ctx msg of None \<Rightarrow> Background | Some c \<Rightarrow> c) (reply_target msg) resp"

definition replyWithTimeout :: "int \<Rightarrow> goctx option \<Rightarrow> inboundMessage \<Rightarrow> response \<Rightarrow> orchestrator \<Rightarrow> effect" where
  "replyWithTimeout now ctx msg resp o1 = orch_reply (msg\<lparr>im_Ctx := Some (replyContext now ctx o1)\<rparr>) resp"

definition finalizeSessionOnStop :: "int \<Rightarrow> nat option \<Rightarrow> effect list" where
  "finalizeSessionOnStop now sess =
     (case sess of None \<Rightarrow> []
      | Some s \<Rightarrow> [SessFail (WithTimeout now Background defaultReplyTimeout) s failedReply])"

definition push_message :: "string \<Rightarrow> replyTarget \<Rightarrow> inboundMessage" where
  "push_message botID target = \<lparr>im_BotID = botID, im_MessageID = [], im_From = [], im_Text = [],
     im_ReplyTarget = target, im_ReceivedAt = None, im_Ctx = None\<rparr>"

text \<open>A push without a target is only logged.\<close>

definition deliverPush :: "int \<Rightarrow> string \<Rightarrow> pushResponse \<Rightarrow> orchestrator \<Rightarrow> effect list" where
  "deliverPush now botID pr o1 =
     (case or_bots o1 botID of
        None \<Rightarrow> []
      | Some h \<Rightarrow>
          let target = bs_lastReplyTarget (or_state o1 h) in
          if rt_RecipientID target = [] then []
          else [replyWithTimeout now (Some Background) (push_message botID target) (pr_Response pr) o1])"

definition rememberReplyTarget :: "inboundMessage \<Rightarrow> orchestrator \<Rightarrow> orchestrator" where
  "rememberReplyTarget msg o1 =
     (let target = reply_target msg in
      if rt_RecipientID target = [] then o1
      else case or_bots o1 (im_BotID msg) of
             None \<Rightarrow> o1
           | Some h \<Rightarrow> or_put h ((or_state o1 h)\<lparr>bs_lastReplyTarget := target\<rparr>) o1)"

section \<open>Admission\<close>

definition seen_key :: "inboundMessage \<Rightarrow> string" where
  "seen_key msg = im_BotID msg @ '':'' @ im_MessageID msg"

definition cleanupSeenLocked :: "int \<Rightarrow> orchestrator \<Rightarrow> orchestrator" where
  "cleanupSeenLocked now o1 =
     o1\<lparr>or_seen := map_drop (\<lambda>_ st. \<not> sm_inProgress st \<and> now - sm_seenAt st \<ge> seenMessageTTL) (or_seen o1),
        or_lastSeenCleanup := Some now\<rparr>"

definition isMessageInProgress :: "inboundMessage \<Rightarrow> orchestrator \<Rightarrow> bool" where
  "isMessageInProgress msg o1 =
     (if im_MessageID msg = [] then False
      else case or_seen o1 (seen_key msg) of None \<Rightarrow> False | Some st \<Rightarrow> sm_inProgress st)"

definition empty_botState :: botState where
  "empty_botState = \<lparr>bs_worker = None, bs_pending = None, bs_stopCh = None, bs_active = 0,
     bs_queueSize = defaultQueueSize, bs_lastReplyTarget = empty_target\<rparr>"

text \<open>A non-blocking send on the worker's queue: the worker afterwards, or \<open>None\<close> when it is full.\<close>

definition offer :: "inboundMessage \<Rightarrow> botWorker \<Rightarrow> botWorker option" where
  "offer msg w = (if length (bw_queue w) < bw_cap w then Some (w\<lparr>bw_queue := bw_queue w @ [msg]\<rparr>) else None)"

definition mark_seen :: "int \<Rightarrow> inboundMessage \<Rightarrow> orchestrator \<Rightarrow> orchestrator" where
  "mark_seen now msg o1 =
     (if im_MessageID msg \<noteq> []
      then o1\<lparr>or_seen := (or_seen o1)(seen_key msg \<mapsto> \<lparr>sm_seenAt = now, sm_inProgress = True\<rparr>)\<rparr> else o1)"

text \<open>The result is (state, admitted, duplicate).\<close>

definition admitMessage :: "int \<Rightarrow> inboundMessage \<Rightarrow> orchestrator \<Rightarrow> (nat option \<times> bool \<times> bool) \<times> orchestrator" where
  "admitMessage now msg o0 =
     (let o1 = (if (case or_lastSeenCleanup o0 of None \<Rightarrow> True | Some t \<Rightarrow> now - t \<ge> cleanupInterval)
                then cleanupSeenLocked now o0 else o0);
          (h, o2) = (case or_bots o1 (im_BotID msg) of
                       Some h \<Rightarrow> (h, o1)
                     | None \<Rightarrow> (length (or_heap o1),
                                o1\<lparr>or_heap := or_heap o1 @ [empty_botState],
                                   or_bots := (or_bots o1)(im_BotID msg \<mapsto> length (or_heap o1))\<rparr>));
          duplicate = (im_MessageID msg \<noteq> [] \<and>
                       (case or_seen o2 (seen_key msg) of
                          None \<Rightarrow> False
                        | Some st \<Rightarrow> sm_inProgress st \<or> now - sm_seenAt st < seenMessageTTL))
      in if duplicate then ((None, False, True), o2)
         else case bs_worker (or_state o2 h) of
                None \<Rightarrow>
                  ((Some h, True, False),
                   mark_seen now msg (or_put h ((or_state o2 h)\<lparr>bs_pending := Some msg\<rparr>) o2))
              | Some w \<Rightarrow>
                  (case offer msg w of
                     Some w' \<Rightarrow>
                       ((Some h, True, False),
                        mark_seen now msg (or_put h ((or_state o2 h)\<lparr>bs_worker := Some w'\<rparr>) o2))
                   | None \<Rightarrow> ((None, False, False), o2)))"

text \<open>
  The locked part of \<open>ensureWorker\<close>; \<open>Some pending\<close> when it made the worker, so that the two
  goroutines are to be started and \<open>pending\<close> is to be sent.
\<close>

definition ensureWorker :: "string \<Rightarrow> nat \<Rightarrow> orchestrator \<Rightarrow> inboundMessage option option \<times> orchestrator" where
  "ensureWorker botID h o1 =
     (if or_bots o1 botID \<noteq> Some h then (None, o1)
      else if bs_worker (or_state o1 h) \<noteq> None then (None, o1)
      else (Some (bs_pending (or_state o1 h)),
            or_put h ((or_state o1 h)\<lparr>bs_pending := None,
                        bs_worker := Some \<lparr>bw_chan = or_nextChan o1, bw_cap = nat defaultQueueSize, bw_queue = []\<rparr>,
                        bs_stopCh := Some False\<rparr>)
              (o1\<lparr>or_nextChan := or_nextChan o1 + 1\<rparr>)))"

definition HandleMessage ::
  "int \<Rightarrow> goctx option \<Rightarrow> inboundMessage \<Rightarrow> orchestrator \<Rightarrow> effect list \<times> inboundMessage option option \<times> orchestrator" where
  "HandleMessage now ctx msg0 o1 =
     (if im_Text msg0 = [] then ([], None, o1)
      else let msg = attachContext ctx msg0 o1 in
           case admitMessage now msg o1 of
             ((h, admitted, duplicate), o2) \<Rightarrow>
               if duplicate then ([], None, o2)
               else if \<not> admitted then ([orch_reply msg (text_response busyReply)], None, o2)
               else (case h of
                       None \<Rightarrow> ([], None, o2)
                     | Some h' \<Rightarrow>
                         (case ensureWorker (im_BotID msg) h' o2 of
                            (None, o3) \<Rightarrow> ([], None, o3)
                          | (Some pending, o3) \<Rightarrow> ([SetPushSink (im_BotID msg)], Some pending, o3))))"

definition event_message :: "runtimeEvent \<Rightarrow> inboundMessage" where
  "event_message ev = \<lparr>im_BotID = ev_BotID ev, im_MessageID = ev_MessageID ev, im_From = ev_From ev,
     im_Text = ev_Text ev, im_ReplyTarget = ev_ReplyTarget ev, im_ReceivedAt = None, im_Ctx = None\<rparr>"

definition HandleEvent ::
  "int \<Rightarrow> goctx option \<Rightarrow> runtimeEvent \<Rightarrow> orchestrator \<Rightarrow> effect list \<times> inboundMessage option option \<times> orchestrator" where
  "HandleEvent now ctx ev o1 = HandleMessage now ctx (event_message ev) o1"

section \<open>The worker's queue\<close>

definition resizeWorkerQueue :: "string \<Rightarrow> int \<Rightarrow> orchestrator \<Rightarrow> orchestrator" where
  "resizeWorkerQueue botID queueSize0 o1 =
     (let queueSize = (if queueSize0 \<le> 0 then defaultQueueSize else queueSize0) in
      case or_bots o1 botID of
        None \<Rightarrow> o1
      | Some h \<Rightarrow>
          let s = (or_state o1 h)\<lparr>bs_queueSize := queueSize\<rparr> in
          (case bs_worker s of
             None \<Rightarrow> or_put h s o1
           | Some w \<Rightarrow>
               if int (bw_cap w) = queueSize \<or> bw_queue w \<noteq> [] then or_put h s o1
               else or_put h (s\<lparr>bs_worker := Some \<lparr>bw_chan = or_nextChan o1, bw_cap = nat queueSize, bw_queue = []\<rparr>\<rparr>)
                      (o1\<lparr>or_nextChan := or_nextChan o1 + 1\<rparr>)))"

definition queueMessage :: "string \<Rightarrow> inboundMessage \<Rightarrow> orchestrator \<Rightarrow> bool \<times> orchestrator" where
  "queueMessage botID msg o1 =
     (case or_bots o1 botID of
        None \<Rightarrow> (False, o1)
      | Some h \<Rightarrow>
          (case bs_worker (or_state o1 h) of
             None \<Rightarrow> (False, o1)
           | Some w \<Rightarrow>
               (case offer msg w of
                  Some w' \<Rightarrow> (True, or_put h ((or_state o1 h)\<lparr>bs_worker := Some w'\<rparr>) o1)
                | None \<Rightarrow> (False, o1))))"

text \<open>The receive of \<open>runAccept\<close>.\<close>

definition worker_recv :: "nat \<Rightarrow> orchestrator \<Rightarrow> inboundMessage option \<times> orchestrator" where
  "worker_recv h o1 =
     (case bs_worker (or_state o1 h) of
        None \<Rightarrow> (None, o1)
      | Some w \<Rightarrow>
          (case bw_queue w of
             [] \<Rightarrow> (None, o1)
           | m # q \<Rightarrow> (Some m, or_put h ((or_state o1 h)\<lparr>bs_worker := Some (w\<lparr>bw_queue := q\<rparr>)\<rparr>) o1)))"

section \<open>Book-keeping of messages\<close>

definition markMessageStarted :: "inboundMessage \<Rightarrow> orchestrator \<Rightarrow> orchestrator" where
  "markMessageStarted msg o1 =
     (case or_bots o1 (im_BotID msg) of
        None \<Rightarrow> o1
      | Some h \<Rightarrow> or_put h ((or_state o1 h)\<lparr>bs_active := bs_active (or_state o1 h) + 1\<rparr>) o1)"

definition dec_active :: "nat \<Rightarrow> orchestrator \<Rightarrow> orchestrator" where
  "dec_active h o1 =
     (if bs_active (or_state o1 h) > 0
      then or_put h ((or_state o1 h)\<lparr>bs_active := bs_active (or_state o1 h) - 1\<rparr>) o1 else o1)"

definition finishMessage :: "int \<Rightarrow> inboundMessage \<Rightarrow> bool \<Rightarrow> orchestrator \<Rightarrow> orchestrator" where
  "finishMessage now msg succeeded o1 =
     (case or_bots o1 (im_BotID msg) of
        None \<Rightarrow> o1
      | Some h \<Rightarrow>
          if im_MessageID msg = [] then dec_active h o1
          else (case or_seen o1 (seen_key msg) of
                  None \<Rightarrow> o1
                | Some st \<Rightarrow>
                    if \<not> sm_inProgress st then o1
                    else let o2 = dec_active h o1 in
                         if succeeded
                         then o2\<lparr>or_seen := (or_seen o2)(seen_key msg \<mapsto> \<lparr>sm_seenAt = now, sm_inProgress = False\<rparr>)\<rparr>
                         else o2\<lparr>or_seen := (or_seen o2)(seen_key msg := None)\<rparr>))"

definition HasBotState :: "string \<Rightarrow> orchestrator \<Rightarrow> bool" where
  "HasBotState botID o1 = (or_bots o1 botID \<noteq> None)"

definition ActiveCount :: "string \<Rightarrow> orchestrator \<Rightarrow> int" where
  "ActiveCount botID o1 = (case or_bots o1 botID of None \<Rightarrow> 0 | Some h \<Rightarrow> bs_active (or_state o1 h))"

section \<open>Accepting and delivering\<close>

text \<open>Resolving, acknowledging and handing over; \<open>now\<close> is the clock of the whole call.\<close>

definition accept ::
  "orchEnv \<Rightarrow> int \<Rightarrow> string \<Rightarrow> inboundMessage \<Rightarrow> orchestrator \<Rightarrow> deliveryItem option \<times> effect list \<times> orchestrator" where
  "accept env now botID msg o0 =
     (let o1 = rememberReplyTarget msg (markMessageStarted msg o0) in
      case en_resolve env (processingContext now (im_Ctx msg) 0 o1) botID of
        Inl err \<Rightarrow>
          (None, [replyWithTimeout now (im_Ctx msg) msg (text_response failedReply) o1], finishMessage now msg False o1)
      | Inr sp \<Rightarrow>
          let queueSize = (if sp_QueueSize sp \<le> 0 then defaultQueueSize else sp_QueueSize sp);
              o2 = resizeWorkerQueue botID queueSize o1;
              sess = beginProgress (im_ReplyTarget msg) o2;
              ack = replyWithTimeout now (im_Ctx msg) msg (text_response ackReply) o2;
              (sess', effs) =
                (if sp_Orchestrator sp
                 then (case sess of
                         Some s \<Rightarrow> (case en_ack env s of
                                      Some err \<Rightarrow> (None, [SessAck s, ack])
                                    | None \<Rightarrow> (Some s, [SessAck s]))
                       | None \<Rightarrow> (None, [ack]))
                 else (sess, []))
          in (Some \<lparr>di_msg = msg, di_spec = sp, di_sess = sess'\<rparr>, effs, o2))"

definition isStopping :: "nat \<Rightarrow> orchestrator \<Rightarrow> bool" where
  "isStopping h o1 = (bs_stopCh (or_state o1 h) = Some True)"

text \<open>The text a failed turn is answered with.\<close>

definition failure_text :: "goerr \<Rightarrow> response \<Rightarrow> string" where
  "failure_text err resp =
     (if errors_Is err DeadlineExceeded \<or> errors_Is err Canceled then timeoutReply
      else if rs_RuntimeType resp \<noteq> [] \<and> TrimSpace (rs_Text resp) \<noteq> []
      then rs_RuntimeType resp @ '': '' @ TrimSpace (rs_Text resp)
      else failedReply)"

definition turn_request :: "deliveryItem \<Rightarrow> request" where
  "turn_request item = \<lparr>rq_BotID = im_BotID (di_msg item), rq_UserID = im_From (di_msg item),
     rq_MessageID = im_MessageID (di_msg item), rq_Prompt = im_Text (di_msg item), rq_WorkDir = [],
     rq_Metadata = [], rq_OnProgress = (di_sess item \<noteq> None)\<rparr>"

text \<open>
  \<open>started\<close> is the clock when the turn starts and \<open>now\<close> when \<open>Send\<close> has returned; the
  state is the one found then.
\<close>

definition executeAndDeliver ::
  "orchEnv \<Rightarrow> int \<Rightarrow> int \<Rightarrow> nat \<Rightarrow> deliveryItem \<Rightarrow> orchestrator \<Rightarrow> effect list \<times> orchestrator" where
  "executeAndDeliver env started now h item o1 =
     (let msg = di_msg item;
          ctx = deliverContext started msg (sp_Timeout (di_spec item)) o1
      in case en_send env ctx (im_BotID msg) (di_spec item) (turn_request item) of
           (steps, resp, result) \<Rightarrow>
             let traced = (case di_sess item of None \<Rightarrow> [] | Some s \<Rightarrow> map (SessStep s) steps) in
             (case result of
                Some err \<Rightarrow>
                  if isStopping h o1
                  then (traced @ finalizeSessionOnStop now (di_sess item), finishMessage now msg False o1)
                  else let replyText = failure_text err resp in
                       (traced @ (case di_sess item of None \<Rightarrow> [] | Some s \<Rightarrow> [SessFail ctx s replyText])
                          @ [replyWithTimeout now (Some ctx) msg (text_response replyText) o1],
                        finishMessage now msg False o1)
              | None \<Rightarrow>
                  (traced
                     @ (if en_sessions env \<and> TrimSpace (rs_SessionID resp) \<noteq> []
                             \<and> rs_SessionID resp \<noteq> sp_ResumeSessionID (di_spec item)
                        then [Upsert \<lparr>bcs_BotID = im_BotID msg, bcs_CLIType = rs_RuntimeType resp,
                                bcs_SessionID = rs_SessionID resp, bcs_WorkDir = sp_WorkDir (di_spec item),
                                bcs_UpdatedAt = None\<rparr>]
                        else [])
                     @ (case di_sess item of None \<Rightarrow> [] | Some s \<Rightarrow> [SessDone s])
                     @ [replyWithTimeout now (Some ctx) msg resp o1],
                   finishMessage now msg True o1)))"

section \<open>Stopping\<close>

definition orch_StopBot :: "string \<Rightarrow> orchestrator \<Rightarrow> effect list \<times> orchestrator" where
  "orch_StopBot botID o1 =
     (case or_bots o1 botID of
        None \<Rightarrow> ([], o1)
      | Some h \<Rightarrow>
          let s = or_state o1 h;
              o2 = (if bs_stopCh s \<noteq> None then or_put h (s\<lparr>bs_stopCh := Some True\<rparr>) o1 else o1)
          in ([StopSession botID],
              o2\<lparr>or_bots := (or_bots o2)(botID := None),
                 or_seen := map_drop (\<lambda>key _. HasPrefix key (botID @ '':'')) (or_seen o2)\<rparr>))"

section \<open>Frame lemmas\<close>

lemma or_put_simps [simp]:
  "or_bots (or_put h s x) = or_bots x" "or_seen (or_put h s x) = or_seen x"
  "length (or_heap (or_put h s x)) = length (or_heap x)"
  "or_lastSeenCleanup (or_put h s x) = or_lastSeenCleanup x" "or_progress (or_put h s x) = or_progress x"
  "or_messageContext (or_put h s x) = or_messageContext x"
  "or_processingTimeout (or_put h s x) = or_processingTimeout x"
  "or_replyTimeout (or_put h s x) = or_replyTimeout x" "or_nextChan (or_put h s x) = or_nextChan x"
  by (simp_all add: or_put_def)

lemma or_state_put [simp]:
  "h < length (or_heap x) \<Longrightarrow> or_state (or_put h s x) k = (if k = h then s else or_state x k)"
  by (simp add: or_state_def or_put_def)

lemma or_state_upd [simp]:
  "or_state (x\<lparr>or_seen := f\<rparr>) = or_state x" "or_state (x\<lparr>or_bots := g\<rparr>) = or_state x"
  "or_state (x\<lparr>or_bots := g, or_seen := f\<rparr>) = or_state x"
  "or_state (x\<lparr>or_nextChan := n\<rparr>) = or_state x"
  "or_state (x\<lparr>or_seen := f, or_lastSeenCleanup := t\<rparr>) = or_state x"
  by (simp_all add: fun_eq_iff or_state_def)

lemma mark_seen_simps [simp]:
  "or_bots (mark_seen now m x) = or_bots x" "or_heap (mark_seen now m x) = or_heap x"
  "or_state (mark_seen now m x) = or_state x" "or_nextChan (mark_seen now m x) = or_nextChan x"
  by (simp_all add: mark_seen_def)

lemma dec_active_simps [simp]:
  "or_bots (dec_active h x) = or_bots x" "or_seen (dec_active h x) = or_seen x"
  "length (or_heap (dec_active h x)) = length (or_heap x)" "or_nextChan (dec_active h x) = or_nextChan x"
  by (simp_all add: dec_active_def)

lemma cleanupSeenLocked_simps [simp]:
  "or_bots (cleanupSeenLocked now x) = or_bots x" "or_heap (cleanupSeenLocked now x) = or_heap x"
  "or_state (cleanupSeenLocked now x) = or_state x" "or_nextChan (cleanupSeenLocked now x) = or_nextChan x"
  by (simp_all add: cleanupSeenLocked_def)

lemma cleanupSeenLocked_seen:
  "or_seen (cleanupSeenLocked now x) k =
     (case or_seen x k of None \<Rightarrow> None
      | Some st \<Rightarrow> if \<not> sm_inProgress st \<and> now - sm_seenAt st \<ge> seenMessageTTL then None else Some st)"
  by (simp add: cleanupSeenLocked_def map_drop_def)

text \<open>What \<open>admitMessage\<close> decides and does, over the cleaned table of seen messages.\<close>

definition admit_base :: "int \<Rightarrow> string \<Rightarrow> orchestrator \<Rightarrow> orchestrator" where
  "admit_base now b o0 =
     (let o1 = (if (case or_lastSeenCleanup o0 of None \<Rightarrow> True | Some t \<Rightarrow> now - t \<ge> cleanupInterval)
                then cleanupSeenLocked now o0 else o0)
      in case or_bots o1 b of
           Some h \<Rightarrow> o1
         | None \<Rightarrow> o1\<lparr>or_heap := or_heap o1 @ [empty_botState], or_bots := (or_bots o1)(b \<mapsto> length (or_heap o1))\<rparr>)"

definition is_duplicate :: "int \<Rightarrow> inboundMessage \<Rightarrow> orchestrator \<Rightarrow> bool" where
  "is_duplicate now msg o1 \<longleftrightarrow> im_MessageID msg \<noteq> [] \<and>
     (\<exists>st. or_seen o1 (seen_key msg) = Some st \<and> (sm_inProgress st \<or> now - sm_seenAt st < seenMessageTTL))"

definition base_ptr :: "string \<Rightarrow> orchestrator \<Rightarrow> nat" where
  "base_ptr b o0 = (case or_bots o0 b of Some h \<Rightarrow> h | None \<Rightarrow> length (or_heap o0))"

lemma admit_base_simps:
  "or_bots (admit_base now b x) = (or_bots x)(b \<mapsto> base_ptr b x)"
  "or_heap (admit_base now b x) = (if or_bots x b = None then or_heap x @ [empty_botState] else or_heap x)"
  "or_nextChan (admit_base now b x) = or_nextChan x"
  by (auto simp: admit_base_def base_ptr_def Let_def fun_eq_iff split: option.splits)

lemma admit_base_seen:
  "or_seen (admit_base now b x) k = or_seen x k \<or>
     or_seen (admit_base now b x) k = None \<and> (\<exists>st. or_seen x k = Some st \<and> \<not> sm_inProgress st \<and> now - sm_seenAt st \<ge> seenMessageTTL)"
  by (auto simp: admit_base_def Let_def cleanupSeenLocked_seen split: option.splits)

lemma is_duplicate_base [simp]: "is_duplicate now msg (admit_base now b x) = is_duplicate now msg x"
  using admit_base_seen [of now b x "seen_key msg"]
  by (cases "or_seen x (seen_key msg)") (auto simp: is_duplicate_def)

lemma admitMessage_cases:
  obtains
    (duplicate) "is_duplicate now msg x"
      "admitMessage now msg x = ((None, False, True), admit_base now (im_BotID msg) x)"
  | (pending) "\<not> is_duplicate now msg x"
      "bs_worker (or_state (admit_base now (im_BotID msg) x) (base_ptr (im_BotID msg) x)) = None"
      "admitMessage now msg x = ((Some (base_ptr (im_BotID msg) x), True, False),
         mark_seen now msg (or_put (base_ptr (im_BotID msg) x)
           ((or_state (admit_base now (im_BotID msg) x) (base_ptr (im_BotID msg) x))\<lparr>bs_pending := Some msg\<rparr>)
           (admit_base now (im_BotID msg) x)))"
  | (queued) w w' where "\<not> is_duplicate now msg x"
      "bs_worker (or_state (admit_base now (im_BotID msg) x) (base_ptr (im_BotID msg) x)) = Some w"
      "offer msg w = Some w'"
      "admitMessage now msg x = ((Some (base_ptr (im_BotID msg) x), True, False),
         mark_seen now msg (or_put (base_ptr (im_BotID msg) x)
           ((or_state (admit_base now (im_BotID msg) x) (base_ptr (im_BotID msg) x))\<lparr>bs_worker := Some w'\<rparr>)
           (admit_base now (im_BotID msg) x)))"
  | (busy) w where "\<not> is_duplicate now msg x"
      "bs_worker (or_state (admit_base now (im_BotID msg) x) (base_ptr (im_BotID msg) x)) = Some w"
      "offer msg w = None"
      "admitMessage now msg x = ((None, False, False), admit_base now (im_BotID msg) x)"
proof -
  let ?b = "im_BotID msg" and ?o = "admit_base now (im_BotID msg) x" and ?h = "base_ptr (im_BotID msg) x"
  define o1 where "o1 = (if (case or_lastSeenCleanup x of None \<Rightarrow> True | Some t \<Rightarrow> now - t \<ge> cleanupInterval)
                then cleanupSeenLocked now x else x)"
  have bots: "or_bots o1 = or_bots x" "or_heap o1 = or_heap x" by (simp_all add: o1_def)
  have pair: "(case or_bots o1 ?b of Some h \<Rightarrow> (h, o1)
      | None \<Rightarrow> (length (or_heap o1), o1\<lparr>or_heap := or_heap o1 @ [empty_botState],
                   or_bots := (or_bots o1)(?b \<mapsto> length (or_heap o1))\<rparr>)) = (?h, ?o)"
    by (auto simp: admit_base_def base_ptr_def o1_def [symmetric] bots split: option.splits)
  have dup: "(im_MessageID msg \<noteq> [] \<and> (case or_seen ?o (seen_key msg) of None \<Rightarrow> False
      | Some st \<Rightarrow> sm_inProgress st \<or> now - sm_seenAt st < seenMessageTTL)) = is_duplicate now msg x"
    unfolding is_duplicate_base [symmetric, of now msg x ?b] by (auto simp: is_duplicate_def split: option.splits)
  have eq: "admitMessage now msg x = (if is_duplicate now msg x then ((None, False, True), ?o)
         else case bs_worker (or_state ?o ?h) of
                None \<Rightarrow> ((Some ?h, True, False), mark_seen now msg (or_put ?h ((or_state ?o ?h)\<lparr>bs_pending := Some msg\<rparr>) ?o))
              | Some w \<Rightarrow>
                  (case offer msg w of
                     Some w' \<Rightarrow> ((Some ?h, True, False), mark_seen now msg (or_put ?h ((or_state ?o ?h)\<lparr>bs_worker := Some w'\<rparr>) ?o))
                   | None \<Rightarrow> ((None, False, False), ?o)))"
    unfolding admitMessage_def o1_def [symmetric] Let_def pair prod.case dup ..
  show thesis
  proof (cases "is_duplicate now msg x")
    case True
    then show thesis by (intro duplicate) (simp_all add: eq)
  next
    case nd: False
    show thesis
    proof (cases "bs_worker (or_state ?o ?h)")
      case None
      with nd show thesis by (intro pending) (simp_all add: eq)
    next
      case w: (Some w)
      show thesis
      proof (cases "offer msg w")
        case None
        with nd w show thesis by (intro busy [of w]) (simp_all add: eq)
      next
        case (Some w')
        with nd w show thesis by (intro queued [of w w']) (simp_all add: eq)
      qed
    qed
  qed
qed

section \<open>Properties of single calls\<close>

text \<open>
  Deduplication: a message is refused as a duplicate exactly when it has an id and a
  message with this id is being handled for the bot, or was handled successfully less than
  \<open>seenMessageTTL\<close> ago; the clean-up that may run first never changes that decision.  A
  duplicate, and a message refused because the queue is full, leave the record of that id
  unharmed, so that a busy sender may try again.
\<close>

theorem admitMessage_decision:
  "snd (snd (fst (admitMessage now msg x))) = is_duplicate now msg x
   \<and> (\<not> fst (snd (fst (admitMessage now msg x))) \<longrightarrow>
        is_duplicate t2 msg (snd (admitMessage now msg x)) = is_duplicate t2 msg x \<or> t2 < now)
   \<and> (fst (snd (fst (admitMessage now msg x))) \<and> im_MessageID msg \<noteq> [] \<longrightarrow>
        isMessageInProgress msg (snd (admitMessage now msg x)))"
proof -
  have keep: "is_duplicate t2 msg (admit_base now b x) = is_duplicate t2 msg x \<or> t2 < now" for b
    using admit_base_seen [of now b x "seen_key msg"]
    by (cases "or_seen x (seen_key msg)") (auto simp: is_duplicate_def)
  show ?thesis
    by (cases rule: admitMessage_cases [of now msg x])
       (use keep in \<open>auto simp: isMessageInProgress_def mark_seen_def\<close>)
qed

lemma dec_active_seen [simp]: "or_seen ((dec_active h x)\<lparr>or_seen := f\<rparr>) = f" by simp

text \<open>
  The record a finished message leaves: after success its id is refused for
  \<open>seenMessageTTL\<close> and then admissible again; after a failure it is admissible at once, so
  that the sender can retry.
\<close>

theorem finishMessage_redelivery:
  assumes "or_bots x (im_BotID msg) = Some h" "isMessageInProgress msg x"
  shows "is_duplicate later msg (finishMessage now msg True x) = (later - now < seenMessageTTL)
    \<and> \<not> is_duplicate later msg (finishMessage now msg False x)"
proof -
  obtain st where "im_MessageID msg \<noteq> []" "or_seen x (seen_key msg) = Some st" "sm_inProgress st"
    using assms(2) by (auto simp: isMessageInProgress_def split: if_splits option.splits)
  with assms(1) show ?thesis by (simp add: finishMessage_def is_duplicate_def Let_def)
qed

text \<open>
  A reply is always sent under its own deadline: whatever became of the context of the
  message or of the turn, the reply's context is not cancelled, keeps its values and expires
  after the reply timeout; the recipient is the sender when the target names nobody.
\<close>

theorem replyWithTimeout_detached:
  assumes "or_replyTimeout x > 0"
  shows "\<exists>c target. replyWithTimeout now ctx msg resp x = Reply c target resp
    \<and> cx_cancelled c = False \<and> cx_deadline c = Some (now + or_replyTimeout x)
    \<and> (\<forall>p. ctx = Some p \<longrightarrow> cx_values c = cx_values p)
    \<and> target = (im_ReplyTarget msg)\<lparr>rt_RecipientID :=
         (if rt_RecipientID (im_ReplyTarget msg) = [] then im_From msg else rt_RecipientID (im_ReplyTarget msg))\<rparr>"
  using assms
  by (auto simp: replyWithTimeout_def orch_reply_def replyContext_def base_ctx_def reply_target_def Let_def
      split: option.splits)

text \<open>
  A turn's context: it outlives the request that brought the message (no inherited
  deadline or cancellation), keeps its values, and expires after the longer of the
  orchestrator's and the bot's timeout.
\<close>

theorem deliverContext_deadline:
  assumes "or_processingTimeout x > 0 \<or> specTimeout > 0"
  shows "cx_cancelled (deliverContext now msg specTimeout x) = False
    \<and> cx_deadline (deliverContext now msg specTimeout x) = Some (now + max specTimeout (or_processingTimeout x))
    \<and> (\<forall>c. im_Ctx msg = Some c \<longrightarrow> cx_values (deliverContext now msg specTimeout x) = cx_values c)"
  using assms by (auto simp: deliverContext_def base_ctx_def Let_def max_def split: option.splits)

definition is_reply :: "effect \<Rightarrow> bool" where
  "is_reply e = (case e of Reply _ _ _ \<Rightarrow> True | _ \<Rightarrow> False)"

lemma filter_is_reply_simps [simp]:
  "filter is_reply (map (SessStep s) es) = []" "is_reply (Reply c tg r)"
  "\<not> is_reply (SessFail c n t)" "\<not> is_reply (SessDone n)" "\<not> is_reply (Upsert b)" "\<not> is_reply (SessStep s e)"
  "\<not> is_reply (SessAck n)"
  by (auto simp: is_reply_def filter_empty_conv)

text \<open>
  C5. One turn sends its channel exactly one reply, the answer or, on failure, the text the
  kind of failure calls for; only a turn that fails while its bot is being stopped sends
  none.  The message is finished in every case, as succeeded exactly when the turn did.
\<close>

theorem executeAndDeliver_one_reply:
  assumes "en_send env (deliverContext started (di_msg item) (sp_Timeout (di_spec item)) x)
      (im_BotID (di_msg item)) (di_spec item) (turn_request item) = (steps, resp, result)"
  shows "filter is_reply (fst (executeAndDeliver env started now h item x)) =
      (case result of
         Some err \<Rightarrow>
           if isStopping h x then []
           else [replyWithTimeout now (Some (deliverContext started (di_msg item) (sp_Timeout (di_spec item)) x))
                   (di_msg item) (text_response (failure_text err resp)) x]
       | None \<Rightarrow> [replyWithTimeout now (Some (deliverContext started (di_msg item) (sp_Timeout (di_spec item)) x))
                   (di_msg item) resp x])
    \<and> snd (executeAndDeliver env started now h item x) = finishMessage now (di_msg item) (result = None) x"
  using assms
  by (auto simp: executeAndDeliver_def Let_def finalizeSessionOnStop_def replyWithTimeout_def orch_reply_def
      split: option.splits)

text \<open>
  Stopping a bot forgets it: it has no state, no message of it is remembered, its
  goroutines see a closed stop channel and its agent session is stopped, while other bots
  keep their states and the records of messages whose key does not start with the bot's id and a colon.
\<close>

theorem orch_StopBot_forgets:
  assumes "or_bots x b = Some h" "h < length (or_heap x)"
  shows "let (effs, y) = orch_StopBot b x in
    \<not> HasBotState b y \<and> ActiveCount b y = 0 \<and> effs = [StopSession b]
    \<and> (\<forall>msg. im_BotID msg = b \<longrightarrow> \<not> is_duplicate now msg y)
    \<and> (bs_worker (or_state x h) \<noteq> None \<and> bs_stopCh (or_state x h) \<noteq> None \<longrightarrow> isStopping h y)
    \<and> (\<forall>c. c \<noteq> b \<longrightarrow> or_bots y c = or_bots x c)
    \<and> (\<forall>key. \<not> HasPrefix key (b @ '':'') \<longrightarrow> or_seen y key = or_seen x key)"
proof -
  have pre: "HasPrefix (seen_key msg) (b @ '':'')" if "im_BotID msg = b" for msg
    using that by (simp add: seen_key_def HasPrefix_ex)
  then show ?thesis
    using assms
    by (auto simp: orch_StopBot_def Let_def HasBotState_def ActiveCount_def is_duplicate_def map_drop_def isStopping_def
        split: option.splits)
qed

section \<open>Examples\<close>

definition sample_msg :: inboundMessage where
  "sample_msg = \<lparr>im_BotID = ''b1'', im_MessageID = ''m1'', im_From = ''u1'', im_Text = ''hi'',
     im_ReplyTarget = empty_target, im_ReceivedAt = None, im_Ctx = Some Background\<rparr>"

definition sample_orch :: orchestrator where
  "sample_orch = NewBotMessageOrchestrator\<lparr>
     or_heap := [empty_botState\<lparr>bs_worker := Some \<lparr>bw_chan = 0, bw_cap = 1, bw_queue = []\<rparr>, bs_stopCh := Some False,
        bs_active := 1\<rparr>],
     or_bots := [''b1'' \<mapsto> 0], or_seen := [''b1:m1'' \<mapsto> \<lparr>sm_seenAt = 0, sm_inProgress = True\<rparr>]\<rparr>"

lemmas sample_simps = sample_msg_def sample_orch_def NewBotMessageOrchestrator_def seen_key_def

lemma admitMessage_decision_witness:
  "isMessageInProgress sample_msg (snd (admitMessage 0 sample_msg NewBotMessageOrchestrator))"
proof -
  have "fst (snd (fst (admitMessage 0 sample_msg NewBotMessageOrchestrator)))"
    by (simp add: admitMessage_def sample_simps cleanupSeenLocked_def or_state_def empty_botState_def)
  with admitMessage_decision [of 0 sample_msg NewBotMessageOrchestrator 0] show ?thesis
    by (simp add: sample_msg_def)
qed

lemma finishMessage_redelivery_witness:
  "is_duplicate (5 * minute) sample_msg (finishMessage 0 sample_msg True sample_orch)
   \<and> \<not> is_duplicate 0 sample_msg (finishMessage 0 sample_msg False sample_orch)"
  using finishMessage_redelivery [of sample_orch sample_msg 0 "5 * minute" 0]
    finishMessage_redelivery [of sample_orch sample_msg 0 0 0]
  by (simp add: sample_simps isMessageInProgress_def seenMessageTTL_def time_units)

lemma replyWithTimeout_detached_witness:
  "\<exists>c target. replyWithTimeout 7 (Some (Background\<lparr>cx_cancelled := True\<rparr>)) sample_msg (text_response ''x'') sample_orch
      = Reply c target (text_response ''x'') \<and> cx_cancelled c = False \<and> rt_RecipientID target = ''u1''"
  using replyWithTimeout_detached [of sample_orch 7 "Some (Background\<lparr>cx_cancelled := True\<rparr>)" sample_msg "text_response ''x''"]
  by (auto simp: sample_simps defaultReplyTimeout_def time_units empty_target_def)

lemma deliverContext_deadline_witness:
  "cx_deadline (deliverContext 0 sample_msg minute sample_orch) = Some minute"
  using deliverContext_deadline [of sample_orch minute 0 sample_msg]
  by (simp add: sample_simps defaultProcessingTimeout_def time_units)

lemma executeAndDeliver_one_reply_witness:
  "length (filter is_reply (fst (executeAndDeliver
      \<lparr>en_resolve = \<lambda>_ _. Inr empty_spec, en_ack = \<lambda>_. None, en_send = \<lambda>_ _ _ _. ([], empty_response, Some (errorf ''boom'')),
       en_sessions = False\<rparr> 0 1 0 \<lparr>di_msg = sample_msg, di_spec = empty_spec, di_sess = Some 4\<rparr> sample_orch))) = 1"
  using executeAndDeliver_one_reply [of
      "\<lparr>en_resolve = \<lambda>_ _. Inr empty_spec, en_ack = \<lambda>_. None, en_send = \<lambda>_ _ _ _. ([], empty_response, Some (errorf ''boom'')),
        en_sessions = False\<rparr>" 0 "\<lparr>di_msg = sample_msg, di_spec = empty_spec, di_sess = Some 4\<rparr>" sample_orch
      "[]" empty_response "Some (errorf ''boom'')" 1 0]
  by (simp add: isStopping_def sample_orch_def or_state_def empty_botState_def)

lemma orch_StopBot_forgets_witness:
  "\<not> HasBotState ''b1'' (snd (orch_StopBot ''b1'' sample_orch)) \<and> fst (orch_StopBot ''b1'' sample_orch) = [StopSession ''b1'']"
  using orch_StopBot_forgets [of sample_orch "''b1''" 0 0]
  by (simp add: sample_orch_def split: prod.splits)

end
