(* ===== verification/HttpChannel.thy ===== *)
theory HttpChannel
  imports Orchestrator JsonText Repositories
begin

text \<open>
  The HTTP channel (\<open>internal/channel/httpchan\<close>): the receiver that hands incoming messages to
  the runtime callbacks of a bot and keeps the waiters of the web console's chats
  (\<open>receiver.go\<close>), the gateway that answers either a waiting chat or the sender's callback URL
  (\<open>reply_gateway.go\<close>), and the provider with its runtime (\<open>provider.go\<close>).

  A callback is an arbitrary value; \<open>Receive\<close> returns which callback is called with which
  event.  A waiter is a pointer, an index into the list of the buffers of all waiters ever
  made; the methods run under the receiver's mutex, so each is one function on its state.
  The reply channel of a waiter holds \<open>chat_capacity\<close> responses, and a send that would block
  is dropped (\<open>select\<close> with \<open>default\<close>).
\<close>

section \<open>The receiver\<close>

definition http_ChannelType :: string where "http_ChannelType = ''http''"

record incomingMessage =
  in_UserID :: string
  in_Text :: string
  in_MessageID :: string
  in_CallbackURL :: string

record 'c runtimeCallbacks =
  rc_OnEvent :: "'c option"
  rc_OnState :: "'c option"

record 'c receiver =
  rv_bots :: "string \<rightharpoonup> 'c runtimeCallbacks"
  rv_chatWaiters :: "string \<rightharpoonup> nat"
  rv_buffers :: "response list list"

definition NewReceiver :: "'c receiver" where
  "NewReceiver = \<lparr>rv_bots = Map.empty, rv_chatWaiters = Map.empty, rv_buffers = []\<rparr>"

definition Register_bot :: "string \<Rightarrow> 'c runtimeCallbacks \<Rightarrow> 'c receiver \<Rightarrow> 'c receiver" where
  "Register_bot botID callbacks r = r\<lparr>rv_bots := (rv_bots r)(botID \<mapsto> callbacks)\<rparr>"

definition Unregister_bot :: "string \<Rightarrow> 'c receiver \<Rightarrow> 'c receiver" where
  "Unregister_bot botID r =
     r\<lparr>rv_bots := (rv_bots r)(botID := None),
       rv_chatWaiters := map_drop (\<lambda>key _. length key > length botID \<and> take (length botID) key = botID) (rv_chatWaiters r)\<rparr>"

definition receiver_Active :: "string \<Rightarrow> 'c receiver \<Rightarrow> bool" where
  "receiver_Active botID r = (rv_bots r botID \<noteq> None)"

definition incoming_event :: "string \<Rightarrow> incomingMessage \<Rightarrow> runtimeEvent" where
  "incoming_event botID msg =
     \<lparr>ev_BotID = botID, ev_ChannelType = http_ChannelType, ev_MessageID = in_MessageID msg,
      ev_From = in_UserID msg, ev_Text = in_Text msg,
      ev_ReplyTarget =
        \<lparr>rt_ChannelType = http_ChannelType, rt_RecipientID = in_UserID msg,
         rt_Metadata = [(''bot_id'', botID), (''message_id'', in_MessageID msg), (''callback_url'', in_CallbackURL msg)]\<rparr>,
      ev_Raw = []\<rparr>"

definition Receive :: "string \<Rightarrow> incomingMessage \<Rightarrow> 'c receiver \<Rightarrow> goerr + 'c \<times> runtimeEvent" where
  "Receive botID msg r =
     (case rv_bots r botID of
        None \<Rightarrow> Inl (errorf (''httpchan: bot '' @ Quote botID @ '' is not active''))
      | Some entry \<Rightarrow>
          (case rc_OnEvent entry of
             None \<Rightarrow> Inl (errorf (''httpchan: bot '' @ Quote botID @ '' has no event callback''))
           | Some onEvent \<Rightarrow> Inr (onEvent, incoming_event botID msg)))"

definition chat_key :: "string \<Rightarrow> string \<Rightarrow> string" where
  "chat_key botID messageID = botID @ '':'' @ messageID"

definition chat_capacity :: nat where "chat_capacity = 5"

definition RegisterChat :: "string \<Rightarrow> string \<Rightarrow> 'c receiver \<Rightarrow> nat \<times> 'c receiver" where
  "RegisterChat botID messageID r =
     (length (rv_buffers r),
      r\<lparr>rv_buffers := rv_buffers r @ [[]],
        rv_chatWaiters := (rv_chatWaiters r)(chat_key botID messageID \<mapsto> length (rv_buffers r))\<rparr>)"

text \<open>The function \<open>RegisterChat\<close> returns: it removes its own waiter only.\<close>

definition unregisterChat :: "string \<Rightarrow> string \<Rightarrow> nat \<Rightarrow> 'c receiver \<Rightarrow> 'c receiver" where
  "unregisterChat botID messageID w r =
     (if rv_chatWaiters r (chat_key botID messageID) = Some w
      then r\<lparr>rv_chatWaiters := (rv_chatWaiters r)(chat_key botID messageID := None)\<rparr> else r)"

definition DeliverChatReply :: "string \<Rightarrow> string \<Rightarrow> response \<Rightarrow> 'c receiver \<Rightarrow> bool \<times> 'c receiver" where
  "DeliverChatReply botID messageID resp r =
     (case rv_chatWaiters r (chat_key botID messageID) of
        None \<Rightarrow> (False, r)
      | Some w \<Rightarrow>
          (True, if length (rv_buffers r ! w) < chat_capacity
                 then r\<lparr>rv_buffers := (rv_buffers r)[w := rv_buffers r ! w @ [resp]]\<rparr> else r))"

text \<open>Receiving from the reply channel of a waiter, when it holds something.\<close>

definition chat_recv :: "nat \<Rightarrow> 'c receiver \<Rightarrow> (response \<times> 'c receiver) option" where
  "chat_recv w r =
     (case rv_buffers r ! w of
        [] \<Rightarrow> None
      | resp # rest \<Rightarrow> Some (resp, r\<lparr>rv_buffers := (rv_buffers r)[w := rest]\<rparr>))"

section \<open>The reply gateway\<close>

text \<open>
  The HTTP client is two parameters: \<open>newreq\<close> is the error of building a request for a URL, and
  \<open>post\<close> sends a body to a URL and returns an error or the status code of the answer.
  Marshalling a struct of strings does not fail.
\<close>

record replyPayload =
  rp_BotID :: string
  rp_UserID :: string
  rp_Text :: string
  rp_MessageID :: string

definition payload_json :: "replyPayload \<Rightarrow> json" where
  "payload_json p =
     JObj ([(''bot_id'', JStr (rp_BotID p)), (''user_id'', JStr (rp_UserID p)), (''text'', JStr (rp_Text p))]
       @ (if rp_MessageID p = [] then [] else [(''message_id'', JStr (rp_MessageID p))]))"

definition post_reply ::
  "(string \<Rightarrow> goerr option) \<Rightarrow> (string \<Rightarrow> string \<Rightarrow> ('w, int) io) \<Rightarrow> string \<Rightarrow> replyPayload \<Rightarrow> ('w, unit) io" where
  "post_reply newreq post callbackURL payload =
     (case newreq callbackURL of
        Some err \<Rightarrow> return_err (wrapf ''httpchan: create reply request: '' err [])
      | None \<Rightarrow>
          attempt (post callbackURL (json_text (payload_json payload))) (\<lambda>res. case res of
              Inl err \<Rightarrow> return_err (wrapf ''httpchan: reply request: '' err [])
            | Inr status \<Rightarrow>
                if status < 200 \<or> status \<ge> 300
                then return_err (errorf (''httpchan: reply got status '' @ Itoa status))
                else return_ok ()))"

text \<open>The attempt to hand the reply to a chat that waits for it.\<close>

definition chat_reply :: "replyTarget \<Rightarrow> response \<Rightarrow> 'c receiver \<Rightarrow> bool \<times> 'c receiver" where
  "chat_reply target resp r =
     (let botID = MetadataValue target ''bot_id''; messageID = MetadataValue target ''message_id''
      in if botID \<noteq> [] \<and> messageID \<noteq> [] then DeliverChatReply botID messageID resp r else (False, r))"

text \<open>The state is the receiver, if the gateway has one, beside the rest of the world.\<close>

definition http_Reply ::
  "(string \<Rightarrow> goerr option) \<Rightarrow> (string \<Rightarrow> string \<Rightarrow> ('w, int) io) \<Rightarrow> replyTarget \<Rightarrow> response
     \<Rightarrow> ('c receiver option \<times> 'w, unit) io" where
  "http_Reply newreq post target resp = (\<lambda>(rcv, w).
     let text = TrimSpace (rs_Text resp) in
     if text = [] then (Inr (), (rcv, w))
     else
       let (delivered, rcv') = (case rcv of
             None \<Rightarrow> (False, None)
           | Some r \<Rightarrow> (case chat_reply target resp r of (d, r') \<Rightarrow> (d, Some r')));
           callbackURL = TrimSpace (MetadataValue target ''callback_url'')
       in if delivered then (Inr (), (rcv', w))
          else if callbackURL = []
          then (Inl (errorf ''httpchan: callback_url is required in reply target metadata''), (rcv', w))
          else (case post_reply newreq post callbackURL
                  \<lparr>rp_BotID = [], rp_UserID = TrimSpace (rt_RecipientID target), rp_Text = text, rp_MessageID = []\<rparr> w of
                  (res, w') \<Rightarrow> (res, (rcv', w'))))"

section \<open>The provider\<close>

definition http_CreateBinding :: "int \<Rightarrow> createBindingRequest \<Rightarrow> createBindingResult" where
  "http_CreateBinding now req =
     \<lparr>cbr_ProviderBindingRef = cbq_BindingID req, cbr_QRCodePayload = [], cbr_QRShareURL = [],
      cbr_ExpiresAt = Some (now + 5 * minute)\<rparr>"

definition http_RefreshBinding :: "refreshBindingRequest \<Rightarrow> refreshBindingResult" where
  "http_RefreshBinding req =
     \<lparr>rbr_ProviderStatus = ''confirmed'', rbr_QRCodePayload = [], rbr_ExpiresAt = None,
      rbr_AccountUID = ''http-'' @ rbq_ProviderBindingRef req, rbr_DisplayName = ''HTTP Channel'', rbr_AvatarURL = [],
      rbr_CredentialPayload = json_text (JObj [(''channel_type'', JStr http_ChannelType)]),
      rbr_CredentialVersion = 1, rbr_ErrorMessage = []\<rparr>"

definition http_BuildRuntimeConfig :: "buildRuntimeConfigRequest \<Rightarrow> json" where
  "http_BuildRuntimeConfig req =
     JObj [(''credential_blob'', JObj [(''version'', JNum (brq_CredentialVersion req))])]"

text \<open>
  A runtime: the bot it serves, whether its context is cancelled and whether \<open>stopped\<close> is
  closed.  \<open>StartRuntime\<close> returns it with the state event it reports, if there is a callback;
  \<open>http_runtime_end\<close> is what its goroutine does once the context is done.
\<close>

record httpRuntime =
  hr_botID :: string
  hr_cancelled :: bool
  hr_stopped :: bool

definition http_StartRuntime ::
  "startRuntimeRequest \<Rightarrow> 'c runtimeCallbacks \<Rightarrow> 'c receiver option
     \<Rightarrow> (goerr + httpRuntime \<times> ('c \<times> runtimeStateEvent) option) \<times> 'c receiver option" where
  "http_StartRuntime req callbacks rcv =
     (case rcv of
        None \<Rightarrow> (Inl (errorf ''httpchan: receiver is nil''), rcv)
      | Some r \<Rightarrow>
          (Inr (\<lparr>hr_botID = srq_BotID req, hr_cancelled = False, hr_stopped = False\<rparr>,
                map_option (\<lambda>onState. (onState, \<lparr>se_BotID = srq_BotID req, se_ChannelType = srq_ChannelType req,
                   se_State = RuntimeStateConnected, se_Err = None, se_Reason = []\<rparr>)) (rc_OnState callbacks)),
           Some (Register_bot (srq_BotID req) callbacks r)))"

definition http_Stop :: "httpRuntime \<Rightarrow> httpRuntime" where
  "http_Stop h = h\<lparr>hr_cancelled := True\<rparr>"

definition http_runtime_end :: "httpRuntime \<Rightarrow> 'c receiver \<Rightarrow> (httpRuntime \<times> 'c receiver) option" where
  "http_runtime_end h r =
     (if hr_cancelled h \<and> \<not> hr_stopped h
      then Some (h\<lparr>hr_stopped := True\<rparr>, Unregister_bot (hr_botID h) r) else None)"

section \<open>The receiver as a transition system\<close>

text \<open>
  Everything that changes the receiver, in any order: runtimes that start and end, chats that
  begin and end, replies of the gateway and chats reading them.
\<close>

inductive rcv_step :: "'c receiver \<Rightarrow> 'c receiver \<Rightarrow> bool" where
  started: "rcv_step r (Register_bot b callbacks r)"
| ended: "http_runtime_end h r = Some (h', r') \<Longrightarrow> rcv_step r r'"
| chat: "rcv_step r (snd (RegisterChat b m r))"
| chat_end: "rcv_step r (unregisterChat b m w r)"
| reply: "TrimSpace (rs_Text resp) \<noteq> [] \<Longrightarrow> rcv_step r (snd (chat_reply target resp r))"
| recv: "chat_recv w r = Some (resp, r') \<Longrightarrow> rcv_step r r'"

definition buffer_ok :: "response list \<Rightarrow> bool" where
  "buffer_ok buf \<longleftrightarrow> length buf \<le> chat_capacity \<and> (\<forall>resp \<in> set buf. TrimSpace (rs_Text resp) \<noteq> [])"

definition rcv_inv :: "'c receiver \<Rightarrow> bool" where
  "rcv_inv r \<longleftrightarrow>
     (\<forall>k w. rv_chatWaiters r k = Some w \<longrightarrow> w < length (rv_buffers r))
     \<and> (\<forall>k k' w. rv_chatWaiters r k = Some w \<and> rv_chatWaiters r k' = Some w \<longrightarrow> k = k')
     \<and> (\<forall>buf \<in> set (rv_buffers r). buffer_ok buf)"

lemma rcv_invD:
  assumes "rcv_inv r"
  shows "rv_chatWaiters r k = Some w \<Longrightarrow> w < length (rv_buffers r)"
    and "rv_chatWaiters r k = Some w \<Longrightarrow> rv_chatWaiters r k' = Some w \<Longrightarrow> k = k'"
    and "w < length (rv_buffers r) \<Longrightarrow> buffer_ok (rv_buffers r ! w)"
  using assms unfolding rcv_inv_def by (blast, blast, simp)

lemma waiters_drop_inv:
  assumes "rcv_inv r" "\<And>k w. rv_chatWaiters r' k = Some w \<Longrightarrow> rv_chatWaiters r k = Some w"
    and "rv_buffers r' = rv_buffers r"
  shows "rcv_inv r'"
  using assms unfolding rcv_inv_def by metis

lemma DeliverChatReply_inv:
  assumes "rcv_inv r" "TrimSpace (rs_Text resp) \<noteq> []"
  shows "rcv_inv (snd (DeliverChatReply b m resp r))"
proof (cases "rv_chatWaiters r (chat_key b m)")
  case None
  with assms show ?thesis by (simp add: DeliverChatReply_def)
next
  case (Some w)
  note w = rcv_invD [OF assms(1)]
  have "buffer_ok (rv_buffers r ! w @ [resp])" if "length (rv_buffers r ! w) < chat_capacity"
    using w(3) [OF w(1) [OF Some]] that assms(2) by (auto simp: buffer_ok_def)
  with Some assms(1) show ?thesis
    by (auto simp: DeliverChatReply_def rcv_inv_def dest: subsetD [OF set_update_subset_insert])
qed

lemma chat_reply_inv:
  "rcv_inv r \<Longrightarrow> TrimSpace (rs_Text resp) \<noteq> [] \<Longrightarrow> rcv_inv (snd (chat_reply target resp r))"
  by (simp add: chat_reply_def Let_def DeliverChatReply_inv)

lemma RegisterChat_inv:
  assumes "rcv_inv r"
  shows "rcv_inv (snd (RegisterChat b m r))"
  using assms rcv_invD(1) [OF assms]
  by (fastforce simp: rcv_inv_def RegisterChat_def buffer_ok_def split: if_splits)

lemma chat_recv_inv:
  assumes "rcv_inv r" "chat_recv w r = Some (resp, r')"
  shows "rcv_inv r'"
proof -
  obtain rest where rest: "rv_buffers r ! w = resp # rest" "r' = r\<lparr>rv_buffers := (rv_buffers r)[w := rest]\<rparr>"
    using assms(2) by (auto simp: chat_recv_def split: list.splits)
  show ?thesis
  proof (cases "w < length (rv_buffers r)")
    case True
    with rcv_invD(3) [OF assms(1)] rest(1) have "buffer_ok rest" by (force simp: buffer_ok_def)
    with rest(2) assms(1) show ?thesis
      by (auto simp: rcv_inv_def dest: subsetD [OF set_update_subset_insert])
  qed (use rest assms(1) in \<open>simp add: rcv_inv_def list_update_beyond\<close>)
qed

interpretation receivers: transition_system "\<lambda>r. r = NewReceiver" rcv_step rcv_inv
proof
  show "rcv_inv r" if "r = NewReceiver" for r :: "'c receiver"
    using that by (simp add: NewReceiver_def rcv_inv_def)
  show "rcv_inv t" if "rcv_step s t" "rcv_inv s" for s t :: "'c receiver"
    using that
  proof (cases rule: rcv_step.cases)
    case (started b callbacks)
    with that show ?thesis by (simp add: Register_bot_def rcv_inv_def)
  next
    case (ended h h')
    then have "t = Unregister_bot (hr_botID h) s" by (auto simp: http_runtime_end_def split: if_splits)
    then show ?thesis
      by (intro waiters_drop_inv [OF that(2)]) (auto simp: Unregister_bot_def map_drop_Some_iff)
  next
    case (chat_end b m w)
    then show ?thesis
      by (intro waiters_drop_inv [OF that(2)]) (auto simp: unregisterChat_def split: if_splits)
  qed (use that in \<open>auto intro: chat_reply_inv RegisterChat_inv chat_recv_inv\<close>)
qed

section \<open>Properties\<close>

text \<open>
  The receiver's bookkeeping is sound in every reachable state: a chat's key leads to a
  reply channel that exists, no two chats share one, no channel holds more than its capacity,
  and no blank reply is ever waiting in one.
\<close>

theorem receiver_reachable_wf:
  assumes "rcv_step\<^sup>*\<^sup>* NewReceiver r"
  shows "(\<forall>k w. rv_chatWaiters r k = Some w \<longrightarrow> w < length (rv_buffers r))
    \<and> (\<forall>k k' w. rv_chatWaiters r k = Some w \<and> rv_chatWaiters r k' = Some w \<longrightarrow> k = k')
    \<and> (\<forall>buf \<in> set (rv_buffers r). length buf \<le> chat_capacity \<and> (\<forall>resp \<in> set buf. TrimSpace (rs_Text resp) \<noteq> []))"
  using receivers.reachable_inv [OF refl assms] by (simp add: rcv_inv_def buffer_ok_def)

lemma event_reply_target:
  "\<exists>c target. replyWithTimeout now ctx (event_message (incoming_event b msg)) resp x = Reply c target resp
     \<and> rt_ChannelType target = http_ChannelType
     \<and> MetadataValue target ''bot_id'' = b \<and> MetadataValue target ''message_id'' = in_MessageID msg
     \<and> MetadataValue target ''callback_url'' = in_CallbackURL msg \<and> rt_RecipientID target = in_UserID msg"
  by (auto simp: replyWithTimeout_def orch_reply_def reply_target_def event_message_def incoming_event_def
      MetadataValue_def Let_def)

text \<open>
  C15. The answer to a chat reaches that chat and no other: when the orchestrator replies, in
  whatever state it is, to the event the receiver made of a chat's message, and the chat is
  still waiting, the gateway registered for the channel hands the response to the chat's own
  reply channel - unless that is full, when the response is dropped - leaves every other
  channel alone, sends no request and reports success.
\<close>

theorem chat_answer_reaches_chat:
  assumes wf: "rcv_step\<^sup>*\<^sup>* NewReceiver r"
    and ids: "b \<noteq> []" "in_MessageID msg \<noteq> []" and recv: "Receive b msg r0 = Inr (cb, ev)"
    and waits: "rv_chatWaiters r (chat_key b (in_MessageID msg)) = Some w"
    and nonblank: "TrimSpace (rs_Text resp) \<noteq> []"
    and gw: "gateways http_ChannelType = Some g"
  shows "\<exists>c target r'. replyWithTimeout now ctx (event_message ev) resp x = Reply c target resp
    \<and> rt_ChannelType target = http_ChannelType
    \<and> mg_Reply (\<lambda>g t rsp. case fst (http_Reply newreq post t rsp (Some r, v)) of Inl e \<Rightarrow> Some e | Inr u \<Rightarrow> None)
        gateways target resp = None
    \<and> http_Reply newreq post target resp (Some r, v) = (Inr (), (Some r', v))
    \<and> rv_buffers r' ! w = take chat_capacity (rv_buffers r ! w @ [resp])
    \<and> (\<forall>u. u \<noteq> w \<longrightarrow> rv_buffers r' ! u = rv_buffers r ! u)
    \<and> rv_chatWaiters r' = rv_chatWaiters r \<and> rv_bots r' = rv_bots r"
proof -
  have ev: "ev = incoming_event b msg" using recv by (auto simp: Receive_def split: option.splits)
  obtain c target where t: "replyWithTimeout now ctx (event_message ev) resp x = Reply c target resp"
    "rt_ChannelType target = http_ChannelType" "MetadataValue target ''bot_id'' = b"
    "MetadataValue target ''message_id'' = in_MessageID msg"
    using event_reply_target [of now ctx b msg resp x] unfolding ev by blast
  note inv = receivers.reachable_inv [OF refl wf]
  have w: "w < length (rv_buffers r)" "length (rv_buffers r ! w) \<le> chat_capacity"
    using rcv_invD(1) [OF inv waits] rcv_invD(3) [OF inv] by (auto simp: buffer_ok_def)
  define r' where "r' = snd (DeliverChatReply b (in_MessageID msg) resp r)"
  have d: "DeliverChatReply b (in_MessageID msg) resp r = (True, r')"
    using waits by (simp add: DeliverChatReply_def r'_def)
  have reply: "http_Reply newreq post target resp (Some r, v) = (Inr (), (Some r', v))"
    using nonblank t ids d by (simp add: http_Reply_def chat_reply_def Let_def)
  have "rv_buffers r' ! w = take chat_capacity (rv_buffers r ! w @ [resp])"
    "\<forall>u. u \<noteq> w \<longrightarrow> rv_buffers r' ! u = rv_buffers r ! u"
    "rv_chatWaiters r' = rv_chatWaiters r" "rv_bots r' = rv_bots r"
    using waits w by (auto simp: r'_def DeliverChatReply_def)
  with t reply gw show ?thesis by (auto simp: mg_Reply_def)
qed

text \<open>
  Without a waiting chat the gateway posts the answer, once, to the callback URL of the
  message: a JSON object with the trimmed text and recipient; a refused URL, a failed request
  and a status outside 200-299 are reported.  The object never names the bot or the message
  that is answered, although it has members for both.
\<close>

theorem http_Reply_posts:
  assumes "TrimSpace (rs_Text resp) \<noteq> []" "fst (chat_reply target resp r) = False"
    and "TrimSpace (MetadataValue target ''callback_url'') = url" "url \<noteq> []" "newreq url = None"
  shows "\<exists>body. json_parse body =
      Some (JObj [(''bot_id'', JStr []), (''user_id'', JStr (clean_utf8 (TrimSpace (rt_RecipientID target)))),
                  (''text'', JStr (clean_utf8 (TrimSpace (rs_Text resp))))])
    \<and> snd (snd (http_Reply newreq post target resp (Some r, v))) = snd (post url body v)
    \<and> (fst (http_Reply newreq post target resp (Some r, v)) = Inr () \<longleftrightarrow>
         (\<exists>status. fst (post url body v) = Inr status \<and> 200 \<le> status \<and> status < 300))"
proof -
  define p where "p = \<lparr>rp_BotID = [], rp_UserID = TrimSpace (rt_RecipientID target), rp_Text = TrimSpace (rs_Text resp), rp_MessageID = []\<rparr>"
  obtain r' where cr: "chat_reply target resp r = (False, r')"
    using assms(2) by (metis prod.collapse)
  obtain q v' where q: "post url (json_text (payload_json p)) v = (q, v')" by fastforce
  have H: "http_Reply newreq post target resp (Some r, v) =
      (case post_reply newreq post url p v of (res, w') \<Rightarrow> (res, (Some r', w')))"
    using assms cr by (simp add: http_Reply_def Let_def p_def)
  have J: "texty (payload_json p)" by (simp add: payload_json_def p_def)
  have C: "json_parse (json_text (payload_json p)) =
      Some (JObj [(''bot_id'', JStr []), (''user_id'', JStr (clean_utf8 (TrimSpace (rt_RecipientID target)))),
                  (''text'', JStr (clean_utf8 (TrimSpace (rs_Text resp))))])"
    unfolding json_round_trip [OF J] by (simp add: payload_json_def p_def clean_utf8_ascii)
  show ?thesis
    by (rule exI [of _ "json_text (payload_json p)"], intro conjI C)
      (auto simp: H post_reply_def assms(5) attempt_def q return_ok_def return_err_def split: sum.splits)
qed

section \<open>Examples\<close>

text \<open>A bot with a callback, one chat waiting.\<close>

definition sample_chat_receiver :: "nat receiver" where
  "sample_chat_receiver =
     snd (RegisterChat ''b1'' ''chat_1'' (Register_bot ''b1'' \<lparr>rc_OnEvent = Some 7, rc_OnState = None\<rparr> NewReceiver))"

definition sample_chat_msg :: incomingMessage where
  "sample_chat_msg = \<lparr>in_UserID = ''webui'', in_Text = ''hi'', in_MessageID = ''chat_1'', in_CallbackURL = []\<rparr>"

definition sample_answer :: response where
  "sample_answer = text_response ''ok''"

lemma sample_chat_reachable: "rcv_step\<^sup>*\<^sup>* NewReceiver sample_chat_receiver"
  unfolding sample_chat_receiver_def
  by (rule rtranclp.rtrancl_into_rtrancl [OF rtranclp.rtrancl_into_rtrancl [OF rtranclp.rtrancl_refl]])
    (rule rcv_step.started, rule rcv_step.chat)

lemma sample_answer_nonblank: "TrimSpace (rs_Text sample_answer) \<noteq> []"
  by (simp add: sample_answer_def TrimSpace_plain plain_char_def)

lemma receiver_reachable_wf_witness:
  "\<forall>k k' w. rv_chatWaiters sample_chat_receiver k = Some w \<and> rv_chatWaiters sample_chat_receiver k' = Some w \<longrightarrow> k = k'"
  using receiver_reachable_wf [OF sample_chat_reachable] by blast

lemma chat_answer_reaches_chat_witness:
  "\<exists>target r'. replyWithTimeout 0 None (event_message (incoming_event ''b1'' sample_chat_msg)) sample_answer sample_orch
      = Reply (WithTimeout 0 Background defaultReplyTimeout) target sample_answer
    \<and> http_Reply (\<lambda>_. None) (\<lambda>_ _. return_ok 200) target sample_answer (Some sample_chat_receiver, 0::nat) = (Inr (), (Some r', 0))
    \<and> rv_buffers r' ! 0 = [sample_answer]"
proof -
  have recv: "Receive ''b1'' sample_chat_msg sample_chat_receiver = Inr (7, incoming_event ''b1'' sample_chat_msg)"
    and waits: "rv_chatWaiters sample_chat_receiver (chat_key ''b1'' (in_MessageID sample_chat_msg)) = Some 0"
    and ids: "''b1'' \<noteq> []" "in_MessageID sample_chat_msg \<noteq> []"
    and buf: "rv_buffers sample_chat_receiver ! 0 = []"
    by (simp_all add: Receive_def sample_chat_receiver_def RegisterChat_def Register_bot_def NewReceiver_def sample_chat_msg_def)
  from chat_answer_reaches_chat [OF sample_chat_reachable ids recv waits sample_answer_nonblank,
      of "[http_ChannelType \<mapsto> (0::nat)]" 0 0 None sample_orch "\<lambda>_. None" "\<lambda>_ _. return_ok 200" "0::nat"] buf
  show ?thesis
    by (auto simp: replyWithTimeout_def orch_reply_def replyContext_def sample_orch_def NewBotMessageOrchestrator_def
        base_ctx_def chat_capacity_def defaultReplyTimeout_def time_units)
qed

definition sample_callback_target :: replyTarget where
  "sample_callback_target =
     \<lparr>rt_ChannelType = http_ChannelType, rt_RecipientID = ''u1'', rt_Metadata = [(''bot_id'', ''b1''), (''message_id'', ''m9''),
       (''callback_url'', ''http://x/cb'')]\<rparr>"

lemma http_Reply_posts_witness:
  "fst (http_Reply (\<lambda>_. None) (\<lambda>_ _. return_ok 204) sample_callback_target sample_answer (Some sample_chat_receiver, 0::nat)) = Inr ()
   \<and> fst (http_Reply (\<lambda>_. None) (\<lambda>_ _. return_ok 500) sample_callback_target sample_answer (Some sample_chat_receiver, 0::nat)) \<noteq> Inr ()"
proof -
  have nochat: "fst (chat_reply sample_callback_target sample_answer sample_chat_receiver) = False"
    by (simp add: chat_reply_def sample_callback_target_def MetadataValue_def DeliverChatReply_def sample_chat_receiver_def
        RegisterChat_def Register_bot_def NewReceiver_def chat_key_def)
  have url: "TrimSpace (MetadataValue sample_callback_target ''callback_url'') = ''http://x/cb''" "''http://x/cb'' \<noteq> []"
    by (simp_all add: sample_callback_target_def MetadataValue_def TrimSpace_plain plain_char_def)
  show ?thesis
    using http_Reply_posts [OF sample_answer_nonblank nochat url refl, of "\<lambda>_ _. return_ok 204" "0::nat"]
      http_Reply_posts [OF sample_answer_nonblank nochat url refl, of "\<lambda>_ _. return_ok 500" "0::nat"]
    by (simp add: return_ok_def)
qed

end
