(* ===== verification/GoUrl.thy ===== *)
theory GoUrl
  imports GoStrings "HOL-Library.List_Lexorder" "HOL-Library.Char_ord"
begin

text \<open>
  Query strings of \<open>net/url\<close>: escaping, \<open>url.Values\<close> as the list of its pairs in order of
  arrival, \<open>ParseQuery\<close> and \<open>Encode\<close>.  \<open>ParseQuery_Encode\<close> shows that a query survives being
  written into a URL and read back.
\<close>

section \<open>Escaping\<close>

definition upper_hex :: "nat \<Rightarrow> char" where
  "upper_hex d = (if d < 10 then char_of (48 + d) else char_of (55 + d))"

definition unhex :: "char \<Rightarrow> nat option" where
  "unhex c =
     (let b = (of_char c :: nat) in
      if 48 \<le> b \<and> b \<le> 57 then Some (b - 48)
      else if 97 \<le> b \<and> b \<le> 102 then Some (b - 87)
      else if 65 \<le> b \<and> b \<le> 70 then Some (b - 55)
      else None)"

definition unreserved :: "char \<Rightarrow> bool" where
  "unreserved c \<longleftrightarrow>
     (let b = (of_char c :: nat) in
      48 \<le> b \<and> b \<le> 57 \<or> 65 \<le> b \<and> b \<le> 90 \<or> 97 \<le> b \<and> b \<le> 122) \<or> c \<in> set ''-_.~''"

definition escape_char :: "char \<Rightarrow> string" where
  "escape_char c =
     (if unreserved c then [c]
      else if c = CHR '' '' then ''+''
      else [CHR ''%'', upper_hex (of_char c div 16), upper_hex (of_char c mod 16)])"

definition QueryEscape :: "string \<Rightarrow> string" where
  "QueryEscape s = concat (map escape_char s)"

fun QueryUnescape :: "string \<Rightarrow> string option" where
  "QueryUnescape [] = Some []"
| "QueryUnescape (c # cs) =
     (if c = CHR ''%'' then
        (case cs of
           a # b # r \<Rightarrow>
             (case (unhex a, unhex b) of
                (Some x, Some y) \<Rightarrow> map_option ((#) (char_of (16 * x + y))) (QueryUnescape r)
              | _ \<Rightarrow> None)
         | _ \<Rightarrow> None)
      else map_option ((#) (if c = CHR ''+'' then CHR '' '' else c)) (QueryUnescape cs))"

lemma char_code_bound: "(of_char c :: nat) div 16 < 16"
proof -
  have "(of_char c :: nat) = of_char c mod 256" by (metis char_of_char of_char_of)
  then have "(of_char c :: nat) < 256" by (metis mod_less_divisor zero_less_numeral)
  then show ?thesis by (simp add: less_mult_imp_div_less)
qed

lemma unhex_upper: "d < 16 \<Longrightarrow> unhex (upper_hex d) = Some d"
  by (auto simp: unhex_def upper_hex_def)

lemma unreserved_not: "unreserved c \<Longrightarrow> c \<noteq> CHR ''%'' \<and> c \<noteq> CHR ''+'' \<and> c \<noteq> CHR ''&'' \<and> c \<noteq> CHR ''='' \<and> c \<noteq> CHR '';''"
  by (auto simp: unreserved_def)

lemma QueryUnescape_escape_char:
  "QueryUnescape (escape_char c @ s) = map_option ((#) c) (QueryUnescape s)"
proof (cases "unreserved c")
  case True
  with unreserved_not show ?thesis by (auto simp: escape_char_def)
next
  case False
  have "unhex (upper_hex (of_char c div 16)) = Some (of_char c div 16)" "unhex (upper_hex (of_char c mod 16)) = Some (of_char c mod 16)"
    using char_code_bound by (simp_all add: unhex_upper)
  moreover have "char_of (16 * (of_char c div 16) + of_char c mod 16 :: nat) = c" by (simp only: mult_div_mod_eq char_of_char)
  ultimately show ?thesis using False by (simp add: escape_char_def)
qed

lemma QueryUnescape_QueryEscape [simp]: "QueryUnescape (QueryEscape s) = Some s"
proof (induction s)
  case Nil
  then show ?case by (simp add: QueryEscape_def)
next
  case (Cons c s)
  then show ?case using QueryUnescape_escape_char [of c "QueryEscape s"] by (simp add: QueryEscape_def)
qed

lemma upper_hex_plain: "d < 16 \<Longrightarrow> upper_hex d \<notin> set ''&=;''"
  by (auto simp: upper_hex_def dest: arg_cong [where f = "of_char :: char \<Rightarrow> nat"])

lemma QueryEscape_plain: "c \<in> set (QueryEscape s) \<Longrightarrow> c \<noteq> CHR ''&'' \<and> c \<noteq> CHR ''='' \<and> c \<noteq> CHR '';''"
proof -
  assume "c \<in> set (QueryEscape s)"
  then obtain d where d: "c \<in> set (escape_char d)" by (auto simp: QueryEscape_def)
  have "upper_hex (of_char d div 16) \<notin> set ''&=;''" "upper_hex (of_char d mod 16) \<notin> set ''&=;''"
    using char_code_bound by (simp_all add: upper_hex_plain del: list.set)
  with d unreserved_not show ?thesis by (auto simp: escape_char_def split: if_splits)
qed

section \<open>Values\<close>

type_synonym url_values = "(string \<times> string) list"

definition Values_Get :: "url_values \<Rightarrow> string \<Rightarrow> string" where
  "Values_Get vs k = (case map_of vs k of Some v \<Rightarrow> v | None \<Rightarrow> [])"

definition Values_Set :: "string \<Rightarrow> string \<Rightarrow> url_values \<Rightarrow> url_values" where
  "Values_Set k v vs = filter (\<lambda>(k', _). k' \<noteq> k) vs @ [(k, v)]"

text \<open>One part between ampersands; an empty or malformed one is skipped.\<close>

definition parse_pair :: "string \<Rightarrow> (string \<times> string) option" where
  "parse_pair part =
     (if part = [] \<or> CHR '';'' \<in> set part then None
      else
        let key = takeWhile (\<lambda>c. c \<noteq> CHR ''='') part; value = drop (length key + 1) part
        in case (QueryUnescape key, QueryUnescape value) of
             (Some k, Some v) \<Rightarrow> Some (k, v)
           | _ \<Rightarrow> None)"

definition ParseQuery :: "string \<Rightarrow> url_values" where
  "ParseQuery q = List.map_filter parse_pair (split_on (CHR ''&'') q)"

definition encode_pair :: "string \<times> string \<Rightarrow> string" where
  "encode_pair kv = (case kv of (k, v) \<Rightarrow> QueryEscape k @ ''='' @ QueryEscape v)"

text \<open>The keys in order, the values of a key in their order.\<close>

definition sorted_pairs :: "url_values \<Rightarrow> url_values" where
  "sorted_pairs vs = concat (map (\<lambda>k. filter (\<lambda>(k', _). k' = k) vs) (sort (remdups (map fst vs))))"

definition Values_Encode :: "url_values \<Rightarrow> string" where
  "Values_Encode vs = Join (map encode_pair (sorted_pairs vs)) ''&''"

section \<open>Reading back an encoded query\<close>

lemma parse_encode_pair: "parse_pair (encode_pair (k, v)) = Some (k, v)"
proof -
  let ?p = "QueryEscape k @ ''='' @ QueryEscape v"
  have "takeWhile (\<lambda>c. c \<noteq> CHR ''='') ?p = QueryEscape k"
    using QueryEscape_plain [of _ k] by (subst takeWhile_append2) auto
  moreover have "CHR '';'' \<notin> set ?p" using QueryEscape_plain by auto
  ultimately show ?thesis by (simp add: parse_pair_def encode_pair_def)
qed

lemma encode_pair_no_amp: "CHR ''&'' \<notin> set (encode_pair kv)"
  using QueryEscape_plain by (cases kv) (auto simp: encode_pair_def)

lemma split_on_Join:
  assumes "ps \<noteq> []" "\<And>p. p \<in> set ps \<Longrightarrow> c \<notin> set p"
  shows "split_on c (Join ps [c]) = ps"
  using assms
proof (induction ps)
  case Nil
  then show ?case by simp
next
  case (Cons p ps)
  show ?case
  proof (cases ps)
    case Nil
    with Cons show ?thesis by (simp add: split_on_single)
  next
    case (Cons q qs)
    then have "Join (p # ps) [c] = p @ c # Join ps [c]" by simp
    with Cons.IH Cons.prems Cons show ?thesis by (simp add: split_on_append_sep split_on_single)
  qed
qed

lemma ParseQuery_Encode: "ParseQuery (Values_Encode vs) = sorted_pairs vs"
proof (cases "sorted_pairs vs")
  case Nil
  then show ?thesis by (simp add: ParseQuery_def Values_Encode_def parse_pair_def List.map_filter_def)
next
  case (Cons p ps)
  have "split_on (CHR ''&'') (Values_Encode vs) = map encode_pair (sorted_pairs vs)"
    unfolding Values_Encode_def using Cons
    by (intro split_on_Join) (auto simp only: set_map image_iff encode_pair_no_amp list.simps)
  moreover have "List.map_filter parse_pair (map encode_pair qs) = qs" for qs
    by (induction qs) (auto simp: List.map_filter_simps parse_encode_pair split: option.splits prod.splits)
  ultimately show ?thesis by (simp add: ParseQuery_def)
qed

lemma map_of_filter_key: "map_of (filter (\<lambda>(k', _). k' = k) vs) j = (if j = k then map_of vs k else None)"
  by (induction vs) auto

lemma map_of_concat_filter:
  "map_of (concat (map (\<lambda>k. filter (\<lambda>(k', _). k' = k) vs) ks)) j = (if j \<in> set ks then map_of vs j else None)"
  by (induction ks) (auto simp: map_of_filter_key map_add_def split: option.splits)

lemma Get_sorted_pairs [simp]: "Values_Get (sorted_pairs vs) k = Values_Get vs k"
  by (auto simp: Values_Get_def sorted_pairs_def map_of_concat_filter split: option.splits dest: map_of_SomeD)
    (metis fst_conv image_eqI map_of_SomeD)

lemma Get_Set: "Values_Get (Values_Set k v vs) j = (if j = k then v else Values_Get vs j)"
proof -
  have "map_of (filter (\<lambda>(k', _). k' \<noteq> k) vs) j = (if j = k then None else map_of vs j)"
    by (induction vs) auto
  then show ?thesis by (auto simp: Values_Get_def Values_Set_def map_add_def split: option.splits)
qed

end
