(* ===== verification/HttpApi.thy ===== *)
theory HttpApi
  imports BotServiceLaws HttpChannel GoUrl
begin

text \<open>
  The HTTP API (\<open>internal/api/http\<close>): the envelope every answer is wrapped in (\<open>response.go\<close>),
  request ids (\<open>request_id.go\<close>), the request and response types (\<open>dto\<close>) with how
  \<open>encoding/json\<close> reads and writes them, and the handlers of bots, agent capabilities and the
  HTTP channel (\<open>handlers\<close>).

  A request is its id, the first JSON value of its body (\<open>None\<close> when that is not JSON; what
  follows it is not read) and its raw query.  A handler returns the envelope it writes and
  runs as an effect on the state the services work on.  \<open>expires_at\<close> is shown by the parameter
  \<open>show_time\<close>, the JSON text of a \<open>time.Time\<close> in its location, and is \<open>null\<close> for a nil pointer.
\<close>

section \<open>Decoding maps and slices of strings\<close>

definition map_put :: "string \<Rightarrow> string \<Rightarrow> strmap \<Rightarrow> strmap" where
  "map_put k v m = filter (\<lambda>(k', _). k' \<noteq> k) m @ [(k, v)]"

fun put_member :: "string \<times> json \<Rightarrow> strmap \<times> bool \<Rightarrow> strmap \<times> bool" where
  "put_member (k, JStr s) (m, e) = (map_put k s m, e)"
| "put_member (k, JNull) (m, e) = (map_put k [] m, e)"
| "put_member (k, _) (m, e) = (map_put k [] m, True)"

fun upd_strmap :: "json \<Rightarrow> strmap \<times> bool \<Rightarrow> strmap \<times> bool" where
  "upd_strmap (JObj ms) acc = fold put_member ms acc"
| "upd_strmap JNull (_, e) = ([], e)"
| "upd_strmap _ (m, e) = (m, True)"

definition get_strmap :: "string \<Rightarrow> members \<Rightarrow> strmap \<times> bool" where
  "get_strmap = decode_field upd_strmap []"

text \<open>
  A slice is its backing array and its length: decoding into it again reuses the array, and
  an element that is \<open>null\<close> keeps what the array holds there.
\<close>

fun put_elems :: "json list \<Rightarrow> string list \<times> bool \<Rightarrow> string list \<times> bool" where
  "put_elems [] (back, e) = (back, e)"
| "put_elems (v # vs) (back, e) =
     (let old = (case back of [] \<Rightarrow> [] | b # _ \<Rightarrow> b);
          (x, e1) = (case v of JStr s \<Rightarrow> (s, e) | JNull \<Rightarrow> (old, e) | _ \<Rightarrow> (old, True));
          (xs, e2) = put_elems vs (drop 1 back, e1)
      in (x # xs, e2))"

fun upd_strs :: "json \<Rightarrow> (string list \<times> nat) \<times> bool \<Rightarrow> (string list \<times> nat) \<times> bool" where
  "upd_strs (JArr []) (_, e) = (([], 0), e)"
| "upd_strs (JArr vs) ((back, _), e) = (case put_elems vs (back, e) of (xs, e') \<Rightarrow> ((xs, length vs), e'))"
| "upd_strs JNull (_, e) = (([], 0), e)"
| "upd_strs _ (acc, e) = (acc, True)"

definition get_strs :: "string \<Rightarrow> members \<Rightarrow> string list \<times> bool" where
  "get_strs n ms = (case decode_field upd_strs ([], 0) n ms of ((back, len), e) \<Rightarrow> (take len back, e))"

section \<open>Encoding\<close>

text \<open>A field with \<open>omitempty\<close>; a map, whose keys are sorted; a slice, \<open>null\<close> when nil.\<close>

definition omit_str :: "string \<Rightarrow> string \<Rightarrow> members" where
  "omit_str k v = (if v = [] then [] else [(k, JStr v)])"

definition strmap_json :: "strmap \<Rightarrow> json" where
  "strmap_json m = JObj (map (\<lambda>k. (k, JStr (case map_of m k of Some v \<Rightarrow> v | None \<Rightarrow> []))) (sort (remdups (map fst m))))"

definition omit_map :: "string \<Rightarrow> strmap \<Rightarrow> members" where
  "omit_map k m = (if m = [] then [] else [(k, strmap_json m)])"

definition strs_json :: "string list \<Rightarrow> json" where
  "strs_json xs = JArr (map JStr xs)"

section \<open>The envelope\<close>

record envelope =
  env_Code :: string
  env_Message :: string
  env_RequestID :: string
  env_Data :: json

record httpRequest =
  hq_requestID :: string
  hq_body :: "json option"
  hq_rawQuery :: string

record httpResponse =
  hr_status :: int
  hr_ContentType :: string
  hr_body :: string

definition StatusOK :: int where "StatusOK = 200"

definition RequestIDFromContext :: "httpRequest \<Rightarrow> string" where
  "RequestIDFromContext r = hq_requestID r"

definition WriteOK :: "string \<Rightarrow> json \<Rightarrow> envelope" where
  "WriteOK requestID data =
     \<lparr>env_Code = ''OK'', env_Message = ''success'', env_RequestID = requestID, env_Data = data\<rparr>"

definition WriteOKFromRequest :: "httpRequest \<Rightarrow> json \<Rightarrow> envelope" where
  "WriteOKFromRequest r data = WriteOK (RequestIDFromContext r) data"

definition WriteError :: "httpRequest \<Rightarrow> string \<Rightarrow> string \<Rightarrow> envelope" where
  "WriteError r code message =
     \<lparr>env_Code = code, env_Message = message, env_RequestID = RequestIDFromContext r, env_Data = JObj []\<rparr>"

definition envelope_json :: "envelope \<Rightarrow> json" where
  "envelope_json e =
     JObj [(''code'', JStr (env_Code e)), (''message'', JStr (env_Message e)),
           (''request_id'', JStr (env_RequestID e)), (''data'', env_Data e)]"

definition writeJSON :: "int \<Rightarrow> envelope \<Rightarrow> httpResponse" where
  "writeJSON status body =
     \<lparr>hr_status = status, hr_ContentType = ''application/json'', hr_body = json_text (envelope_json body) @ [newline]\<rparr>"

type_synonym 'w handler = "httpRequest \<Rightarrow> 'w \<Rightarrow> envelope \<times> 'w"

text \<open>The middleware gives the request a fresh id; what the handler writes is sent with status 200.\<close>

definition RequestIDMiddleware :: "'w goenv \<Rightarrow> 'w handler \<Rightarrow> httpRequest \<Rightarrow> 'w \<Rightarrow> httpResponse \<times> 'w" where
  "RequestIDMiddleware env handler r w =
     (case ge_ULID env w of (u, w1) \<Rightarrow>
        (case handler (r\<lparr>hq_requestID := NewPrefixedID u ''req''\<rparr>) w1 of (e, w2) \<Rightarrow> (writeJSON StatusOK e, w2)))"

section \<open>Requests\<close>

record createBotRequest =
  crq_UserID :: string
  crq_Name :: string
  crq_Type :: string
  crq_Role :: string
  crq_ChannelType :: string
  crq_AgentCapabilityID :: string
  crq_AgentMode :: string
  crq_SystemPrompt :: string
  crq_AgentEnv :: strmap

text \<open>\<open>Decode\<close>: \<open>None\<close> when it returns an error.\<close>

definition decode_body :: "(members \<Rightarrow> 'r \<times> bool) \<Rightarrow> httpRequest \<Rightarrow> 'r option" where
  "decode_body flds r =
     (case hq_body r of
        None \<Rightarrow> None
      | Some v \<Rightarrow> (case as_struct v of (ms, e0) \<Rightarrow> case flds ms of (req, e) \<Rightarrow> if e0 \<or> e then None else Some req))"

definition createBotRequest_fields :: "members \<Rightarrow> createBotRequest \<times> bool" where
  "createBotRequest_fields ms =
     (let (userID, e1) = get_str ''user_id'' ms; (name, e2) = get_str ''name'' ms; (type, e3) = get_str ''type'' ms;
          (role, e4) = get_str ''role'' ms; (channelType, e5) = get_str ''channel_type'' ms;
          (capabilityID, e6) = get_str ''agent_capability_id'' ms; (mode, e7) = get_str ''agent_mode'' ms;
          (prompt, e8) = get_str ''system_prompt'' ms; (env, e9) = get_strmap ''agent_env'' ms
      in (\<lparr>crq_UserID = userID, crq_Name = name, crq_Type = type, crq_Role = role, crq_ChannelType = channelType,
           crq_AgentCapabilityID = capabilityID, crq_AgentMode = mode, crq_SystemPrompt = prompt, crq_AgentEnv = env\<rparr>,
          e1 \<or> e2 \<or> e3 \<or> e4 \<or> e5 \<or> e6 \<or> e7 \<or> e8 \<or> e9))"

record configureBotAgentRequest =
  cfq_BotID :: string
  cfq_AgentCapabilityID :: string
  cfq_AgentMode :: string
  cfq_CLIAlias :: string
  cfq_MCPServerIDs :: "string list"
  cfq_SystemPrompt :: string
  cfq_AgentEnv :: strmap

definition configureBotAgentRequest_fields :: "members \<Rightarrow> configureBotAgentRequest \<times> bool" where
  "configureBotAgentRequest_fields ms =
     (let (botID, e1) = get_str ''bot_id'' ms; (capabilityID, e2) = get_str ''agent_capability_id'' ms;
          (mode, e3) = get_str ''agent_mode'' ms; (cliAlias, e4) = get_str ''cli_alias'' ms;
          (servers, e5) = get_strs ''mcp_server_ids'' ms; (prompt, e6) = get_str ''system_prompt'' ms;
          (env, e7) = get_strmap ''agent_env'' ms
      in (\<lparr>cfq_BotID = botID, cfq_AgentCapabilityID = capabilityID, cfq_AgentMode = mode, cfq_CLIAlias = cliAlias,
           cfq_MCPServerIDs = servers, cfq_SystemPrompt = prompt, cfq_AgentEnv = env\<rparr>,
          e1 \<or> e2 \<or> e3 \<or> e4 \<or> e5 \<or> e6 \<or> e7))"

record connectBotRequest =
  cnq_BotID :: string
  cnq_AppID :: string
  cnq_AppSecret :: string

definition connectBotRequest_fields :: "members \<Rightarrow> connectBotRequest \<times> bool" where
  "connectBotRequest_fields ms =
     (let (botID, e1) = get_str ''bot_id'' ms; (appID, e2) = get_str ''app_id'' ms; (secret, e3) = get_str ''app_secret'' ms
      in (\<lparr>cnq_BotID = botID, cnq_AppID = appID, cnq_AppSecret = secret\<rparr>, e1 \<or> e2 \<or> e3))"

record deleteBotRequest =
  dlq_BotID :: string

definition deleteBotRequest_fields :: "members \<Rightarrow> deleteBotRequest \<times> bool" where
  "deleteBotRequest_fields ms = (case get_str ''bot_id'' ms of (botID, e) \<Rightarrow> (\<lparr>dlq_BotID = botID\<rparr>, e))"

record simulateBotMessageRequest =
  smq_BotID :: string
  smq_From :: string
  smq_Text :: string
  smq_MessageID :: string
  smq_RecipientID :: string

definition simulateBotMessageRequest_fields :: "members \<Rightarrow> simulateBotMessageRequest \<times> bool" where
  "simulateBotMessageRequest_fields ms =
     (let (botID, e1) = get_str ''bot_id'' ms; (from1, e2) = get_str ''from'' ms; (txt, e3) = get_str ''text'' ms;
          (messageID, e4) = get_str ''message_id'' ms; (recipientID, e5) = get_str ''recipient_id'' ms
      in (\<lparr>smq_BotID = botID, smq_From = from1, smq_Text = txt, smq_MessageID = messageID, smq_RecipientID = recipientID\<rparr>,
          e1 \<or> e2 \<or> e3 \<or> e4 \<or> e5))"

record httpChannelMessageRequest =
  hmq_BotID :: string
  hmq_UserID :: string
  hmq_Text :: string
  hmq_MessageID :: string
  hmq_CallbackURL :: string

definition httpChannelMessageRequest_fields :: "members \<Rightarrow> httpChannelMessageRequest \<times> bool" where
  "httpChannelMessageRequest_fields ms =
     (let (botID, e1) = get_str ''bot_id'' ms; (userID, e2) = get_str ''user_id'' ms; (txt, e3) = get_str ''text'' ms;
          (messageID, e4) = get_str ''message_id'' ms; (callbackURL, e5) = get_str ''callback_url'' ms
      in (\<lparr>hmq_BotID = botID, hmq_UserID = userID, hmq_Text = txt, hmq_MessageID = messageID, hmq_CallbackURL = callbackURL\<rparr>,
          e1 \<or> e2 \<or> e3 \<or> e4 \<or> e5))"

record httpChannelChatRequest =
  hcq_BotID :: string
  hcq_Text :: string

definition httpChannelChatRequest_fields :: "members \<Rightarrow> httpChannelChatRequest \<times> bool" where
  "httpChannelChatRequest_fields ms =
     (let (botID, e1) = get_str ''bot_id'' ms; (txt, e2) = get_str ''text'' ms
      in (\<lparr>hcq_BotID = botID, hcq_Text = txt\<rparr>, e1 \<or> e2))"

section \<open>Responses\<close>

definition createBotResponse :: "createBotOutput \<Rightarrow> json" where
  "createBotResponse out =
     JObj ([(''bot_id'', JStr (cbo_BotID out)), (''name'', JStr (cbo_Name out)), (''type'', JStr (cbo_Type out))]
       @ omit_str ''role'' (cbo_Role out)
       @ [(''channel_type'', JStr (cbo_ChannelType out)), (''connection_status'', JStr (cbo_ConnectionStatus out))]
       @ omit_str ''channel_account_id'' (cbo_ChannelAccountID out)
       @ omit_str ''agent_capability_id'' (cbo_AgentCapabilityID out) @ omit_str ''agent_mode'' (cbo_AgentMode out)
       @ omit_str ''system_prompt'' (cbo_SystemPrompt out) @ omit_map ''agent_env'' (cbo_AgentEnv out))"

definition botResponse :: "botListItem \<Rightarrow> json" where
  "botResponse item =
     JObj ([(''bot_id'', JStr (bli_BotID item)), (''name'', JStr (bli_Name item)), (''type'', JStr (bli_Type item))]
       @ omit_str ''role'' (bli_Role item)
       @ [(''channel_type'', JStr (bli_ChannelType item)), (''connection_status'', JStr (bli_ConnectionStatus item))]
       @ omit_str ''channel_account_id'' (bli_ChannelAccountID item)
       @ omit_str ''agent_capability_id'' (bli_AgentCapabilityID item) @ omit_str ''agent_mode'' (bli_AgentMode item)
       @ omit_str ''cli_alias'' (bli_CLIAlias item) @ [(''mcp_server_ids'', strs_json (bli_MCPServerIDs item))]
       @ omit_str ''system_prompt'' (bli_SystemPrompt item) @ omit_map ''agent_env'' (bli_AgentEnv item))"

definition mcpServerResponse :: "mcpServer \<Rightarrow> json" where
  "mcpServerResponse s =
     JObj [(''id'', JStr (ms_ID s)), (''name'', JStr (ms_Name s)), (''server_type'', JStr (ms_ServerType s)),
           (''enabled'', JBool (ms_Enabled s))]"

text \<open>The slice of modes is a copy made by appending to nil, so an empty one is nil.\<close>

definition agentCapabilityResponse :: "agentCapabilityListItem \<Rightarrow> json" where
  "agentCapabilityResponse item =
     JObj ([(''id'', JStr (acl_ID item)), (''key'', JStr (acl_Key item)), (''label'', JStr (acl_Label item)),
            (''command'', JStr (acl_Command item)), (''available'', JBool (acl_Available item))]
       @ omit_str ''detection_source'' (acl_DetectionSource item)
       @ [(''supported_modes'', if acl_SupportedModes item = [] then JNull else strs_json (acl_SupportedModes item))])"

definition time_json :: "(int \<Rightarrow> string) \<Rightarrow> timestamp \<Rightarrow> json" where
  "time_json show_time t = (case t of None \<Rightarrow> JNull | Some i \<Rightarrow> JStr (show_time i))"

definition connectBotResponse :: "(int \<Rightarrow> string) \<Rightarrow> startBotLoginOutput \<Rightarrow> json" where
  "connectBotResponse show_time out =
     JObj ([(''bot_id'', JStr (slo_BotID out)), (''binding_id'', JStr (slo_BindingID out)), (''status'', JStr (slo_Status out)),
            (''qr_code_payload'', JStr (slo_QRCodePayload out)), (''qr_share_url'', JStr (slo_QRShareURL out)),
            (''expires_at'', time_json show_time (slo_ExpiresAt out))]
       @ omit_str ''connection_status'' (slo_ConnectionStatus out)
       @ omit_str ''channel_account_id'' (slo_ChannelAccountID out))"

definition refreshBotLoginResponse :: "(int \<Rightarrow> string) \<Rightarrow> refreshBotLoginOutput \<Rightarrow> json" where
  "refreshBotLoginResponse show_time out =
     JObj ([(''bot_id'', JStr (rlo_BotID out)), (''binding_id'', JStr (rlo_BindingID out)), (''status'', JStr (rlo_Status out)),
            (''qr_code_payload'', JStr (rlo_QRCodePayload out)), (''qr_share_url'', JStr (rlo_QRShareURL out)),
            (''expires_at'', time_json show_time (rlo_ExpiresAt out))]
       @ omit_str ''channel_account_id'' (rlo_ChannelAccountID out)
       @ [(''connection_status'', JStr (rlo_ConnectionStatus out))])"

record simulateMessageInput =
  smi_BotID :: string
  smi_From :: string
  smi_Text :: string
  smi_MessageID :: string
  smi_RecipientID :: string

record simulateMessageOutput =
  smo_BotID :: string
  smo_From :: string
  smo_Text :: string
  smo_MessageID :: string
  smo_RecipientID :: string

definition simulateBotMessageResponse :: "simulateMessageOutput \<Rightarrow> json" where
  "simulateBotMessageResponse out =
     JObj [(''bot_id'', JStr (smo_BotID out)), (''from'', JStr (smo_From out)), (''text'', JStr (smo_Text out)),
           (''message_id'', JStr (smo_MessageID out)), (''recipient_id'', JStr (smo_RecipientID out))]"

definition httpChannelChatResponse :: "string \<Rightarrow> string \<Rightarrow> string \<Rightarrow> string \<Rightarrow> json" where
  "httpChannelChatResponse botID userID txt messageID =
     JObj [(''bot_id'', JStr botID), (''user_id'', JStr userID), (''text'', JStr txt), (''message_id'', JStr messageID)]"

section \<open>Handlers of bots\<close>

text \<open>
  Every handler ends by turning the outcome of its service call into an envelope; \<open>lookups\<close>
  tells whether it distinguishes \<open>ErrNotFound\<close>.
\<close>

definition error_code :: "bool \<Rightarrow> goerr \<Rightarrow> string" where
  "error_code lookups err =
     (if errors_Is err InvalidArg then ''INVALID_ARGUMENT''
      else if lookups \<and> errors_Is err NotFound then ''NOT_FOUND''
      else ''INTERNAL_ERROR'')"

definition respond :: "bool \<Rightarrow> httpRequest \<Rightarrow> ('a \<Rightarrow> json) \<Rightarrow> ('w, 'a) io \<Rightarrow> 'w \<Rightarrow> envelope \<times> 'w" where
  "respond lookups r show call w =
     (case call w of
        (Inl err, w1) \<Rightarrow> (WriteError r (error_code lookups err) (err_msg err), w1)
      | (Inr a, w1) \<Rightarrow> (WriteOKFromRequest r (show a), w1))"

definition invalid_argument :: "httpRequest \<Rightarrow> string \<Rightarrow> 'w \<Rightarrow> envelope \<times> 'w" where
  "invalid_argument r message w = (WriteError r ''INVALID_ARGUMENT'' message, w)"

definition api_CreateBot :: "'w goenv \<Rightarrow> 'w botService \<Rightarrow> 'w handler" where
  "api_CreateBot env svc r =
     (case decode_body createBotRequest_fields r of
        None \<Rightarrow> invalid_argument r ''invalid request body''
      | Some req \<Rightarrow>
          if crq_UserID req = [] \<or> crq_Name req = []
          then invalid_argument r ''user_id and name are required''
          else respond False r createBotResponse
                 (CreateBot env svc
                   \<lparr>cbi_ExternalUserID = crq_UserID req, cbi_Name = crq_Name req, cbi_Type = crq_Type req,
                    cbi_Role = crq_Role req, cbi_ChannelType = crq_ChannelType req,
                    cbi_AgentCapabilityID = crq_AgentCapabilityID req, cbi_AgentMode = crq_AgentMode req,
                    cbi_SystemPrompt = crq_SystemPrompt req, cbi_AgentEnv = crq_AgentEnv req\<rparr>))"

definition api_ListBots :: "'w botService \<Rightarrow> 'w handler" where
  "api_ListBots svc r =
     (let userID = Values_Get (ParseQuery (hq_rawQuery r)) ''user_id''
      in if userID = [] then invalid_argument r ''user_id is required''
         else respond False r (\<lambda>items. JArr (map botResponse items)) (ListBots svc userID))"

definition api_ConfigureBotAgent :: "'w botService \<Rightarrow> 'w handler" where
  "api_ConfigureBotAgent svc r =
     (case decode_body configureBotAgentRequest_fields r of
        None \<Rightarrow> invalid_argument r ''invalid request body''
      | Some req \<Rightarrow>
          if cfq_BotID req = [] \<or> cfq_AgentCapabilityID req = [] \<or> cfq_AgentMode req = []
          then invalid_argument r ''bot_id, agent_capability_id and agent_mode are required''
          else respond True r botResponse
                 (ConfigureBotAgent svc
                   \<lparr>cai_BotID = cfq_BotID req, cai_AgentCapabilityID = cfq_AgentCapabilityID req,
                    cai_AgentMode = cfq_AgentMode req, cai_CLIAlias = cfq_CLIAlias req,
                    cai_MCPServerIDs = cfq_MCPServerIDs req, cai_SystemPrompt = cfq_SystemPrompt req,
                    cai_AgentEnv = cfq_AgentEnv req\<rparr>))"

definition api_ConnectBot :: "(int \<Rightarrow> string) \<Rightarrow> 'w goenv \<Rightarrow> 'w botService \<Rightarrow> 'w handler" where
  "api_ConnectBot show_time env svc r =
     (case decode_body connectBotRequest_fields r of
        None \<Rightarrow> invalid_argument r ''invalid request body''
      | Some req \<Rightarrow>
          if cnq_BotID req = [] then invalid_argument r ''bot_id is required''
          else respond True r (connectBotResponse show_time)
                 (StartLogin env svc
                   \<lparr>sli_BotID = cnq_BotID req,
                    sli_Config = (if cnq_AppID req \<noteq> [] \<or> cnq_AppSecret req \<noteq> []
                                  then [(''app_id'', cnq_AppID req), (''app_secret'', cnq_AppSecret req)] else [])\<rparr>))"

definition api_DeleteBot :: "'w botService \<Rightarrow> 'w handler" where
  "api_DeleteBot svc r =
     (case decode_body deleteBotRequest_fields r of
        None \<Rightarrow> invalid_argument r ''invalid request body''
      | Some req \<Rightarrow>
          if dlq_BotID req = [] then invalid_argument r ''bot_id is required''
          else respond True r (\<lambda>_. JObj [(''bot_id'', JStr (dlq_BotID req))]) (DeleteBot svc (dlq_BotID req)))"

definition api_SimulateBotMessage ::
  "(simulateMessageInput \<Rightarrow> ('w, simulateMessageOutput) io) option \<Rightarrow> 'w handler" where
  "api_SimulateBotMessage svc r =
     (case decode_body simulateBotMessageRequest_fields r of
        None \<Rightarrow> invalid_argument r ''invalid request body''
      | Some req \<Rightarrow>
          if TrimSpace (smq_BotID req) = [] \<or> TrimSpace (smq_From req) = [] \<or> TrimSpace (smq_RecipientID req) = []
             \<or> TrimSpace (smq_Text req) = []
          then invalid_argument r ''bot_id, from, recipient_id and text are required''
          else (case svc of
                  None \<Rightarrow> (\<lambda>w. (WriteError r ''INTERNAL_ERROR'' ''message simulator is not configured'', w))
                | Some simulate \<Rightarrow>
                    respond True r simulateBotMessageResponse
                      (simulate \<lparr>smi_BotID = smq_BotID req, smi_From = smq_From req, smi_Text = smq_Text req,
                                 smi_MessageID = smq_MessageID req, smi_RecipientID = smq_RecipientID req\<rparr>)))"

text \<open>These two report every error as internal.\<close>

definition internal_error :: "httpRequest \<Rightarrow> ('a \<Rightarrow> json) \<Rightarrow> ('w, 'a) io \<Rightarrow> 'w \<Rightarrow> envelope \<times> 'w" where
  "internal_error r show call w =
     (case call w of
        (Inl err, w1) \<Rightarrow> (WriteError r ''INTERNAL_ERROR'' (err_msg err), w1)
      | (Inr a, w1) \<Rightarrow> (WriteOKFromRequest r (show a), w1))"

definition api_ListMCPServers :: "'w botService \<Rightarrow> 'w handler" where
  "api_ListMCPServers svc r =
     internal_error r (\<lambda>servers. JArr (map mcpServerResponse servers)) (ListMCPServers svc)"

definition api_ListAgentCapabilities :: "'w botService \<Rightarrow> 'w handler" where
  "api_ListAgentCapabilities svc r =
     internal_error r (\<lambda>items. JArr (map agentCapabilityResponse items)) (ListAgentCapabilities svc)"

definition api_RefreshBotLogin :: "(int \<Rightarrow> string) \<Rightarrow> 'w goenv \<Rightarrow> 'w botService \<Rightarrow> 'w handler" where
  "api_RefreshBotLogin show_time env svc r =
     (let bindingID = Values_Get (ParseQuery (hq_rawQuery r)) ''binding_id''
      in if bindingID = [] then invalid_argument r ''binding_id is required''
         else respond True r (refreshBotLoginResponse show_time) (RefreshLogin env svc bindingID))"

section \<open>Handlers of the HTTP channel\<close>

text \<open>
  The state is the receiver.  A handler that hands a message to a bot returns the callback
  and the event it is called with.  A handler takes the receiver's lock once per call, and
  \<open>between\<close> is what others make of the receiver from one call to the next.
\<close>

definition not_active :: string where
  "not_active = ''bot is not active or not an http channel bot''"

definition SendHttpChannelMessage ::
  "('c receiver \<Rightarrow> 'c receiver) \<Rightarrow> httpRequest \<Rightarrow> 'c receiver \<Rightarrow> envelope \<times> ('c \<times> runtimeEvent) option" where
  "SendHttpChannelMessage between r receiver =
     (case decode_body httpChannelMessageRequest_fields r of
        None \<Rightarrow> (WriteError r ''INVALID_ARGUMENT'' ''invalid request body'', None)
      | Some req \<Rightarrow>
          if TrimSpace (hmq_BotID req) = [] \<or> TrimSpace (hmq_UserID req) = [] \<or> TrimSpace (hmq_Text req) = []
             \<or> TrimSpace (hmq_CallbackURL req) = []
          then (WriteError r ''INVALID_ARGUMENT'' ''bot_id, user_id, text and callback_url are required'', None)
          else if \<not> receiver_Active (hmq_BotID req) receiver then (WriteError r ''NOT_FOUND'' not_active, None)
          else (case Receive (hmq_BotID req)
                  \<lparr>in_UserID = hmq_UserID req, in_Text = hmq_Text req, in_MessageID = hmq_MessageID req,
                   in_CallbackURL = hmq_CallbackURL req\<rparr> (between receiver) of
                  Inl err \<Rightarrow> (WriteError r ''INTERNAL_ERROR'' (err_msg err), None)
                | Inr call \<Rightarrow>
                    (WriteOKFromRequest r (strmap_json [(''bot_id'', hmq_BotID req), (''message_id'', hmq_MessageID req),
                       (''status'', ''accepted'')]), Some call)))"

text \<open>
  The loop that reads the replies of a chat.  Times are measured from its start; \<open>arrivals\<close> are
  the replies in the order and at the times they become available.  Each round waits for a reply
  until the deadline, or, once there was one, for another \<open>linger\<close>; when a reply and the
  timeout are there at the same time, \<open>select\<close> picks one (\<open>pick\<close>: the reply).  The result is the
  last reply and the time the loop ends.
\<close>

definition chat_deadline :: int where "chat_deadline = 60 * second"
definition chat_linger :: int where "chat_linger = 10 * second"

fun chat_read :: "(int \<Rightarrow> bool) \<Rightarrow> int \<Rightarrow> response option \<Rightarrow> (int \<times> response) list \<Rightarrow> response option \<times> int" where
  "chat_read pick now prev [] =
     (prev, if prev = None then chat_deadline else now + chat_linger)"
| "chat_read pick now prev ((t, reply) # arrivals) =
     (let timeout = (if prev = None then chat_deadline else now + chat_linger); ready = max now t
      in if ready < timeout \<or> ready = timeout \<and> pick ready
         then chat_read pick ready (Some reply) arrivals
         else (prev, timeout))"

text \<open>
  \<open>ChatWithHttpChannel\<close>.  The result before the loop is either the answer, with the receiver as
  it is left, or the chat that waits: its bot, its message id, its waiter and the call to make.
\<close>

record 'c chat =
  ch_botID :: string
  ch_messageID :: string
  ch_waiter :: nat
  ch_call :: "'c \<times> runtimeEvent"

definition chat_begin ::
  "('c receiver \<Rightarrow> 'c receiver) \<Rightarrow> string \<Rightarrow> httpRequest \<Rightarrow> 'c receiver \<Rightarrow> (envelope + 'c chat) \<times> 'c receiver" where
  "chat_begin between ulid r receiver =
     (case decode_body httpChannelChatRequest_fields r of
        None \<Rightarrow> (Inl (WriteError r ''INVALID_ARGUMENT'' ''invalid request body''), receiver)
      | Some req \<Rightarrow>
          if TrimSpace (hcq_BotID req) = [] \<or> TrimSpace (hcq_Text req) = []
          then (Inl (WriteError r ''INVALID_ARGUMENT'' ''bot_id and text are required''), receiver)
          else if \<not> receiver_Active (hcq_BotID req) receiver then (Inl (WriteError r ''NOT_FOUND'' not_active), receiver)
          else
            let messageID = NewPrefixedID ulid ''chat'';
                (w, receiver1) = RegisterChat (hcq_BotID req) messageID (between receiver);
                receiver2 = between receiver1
            in case Receive (hcq_BotID req)
                 \<lparr>in_UserID = ''webui'', in_Text = hcq_Text req, in_MessageID = messageID, in_CallbackURL = []\<rparr> receiver2 of
                 Inl err \<Rightarrow> (Inl (WriteError r ''INTERNAL_ERROR'' (err_msg err)),
                             unregisterChat (hcq_BotID req) messageID w receiver2)
               | Inr call \<Rightarrow> (Inr \<lparr>ch_botID = hcq_BotID req, ch_messageID = messageID, ch_waiter = w, ch_call = call\<rparr>, receiver2))"

definition chat_answer :: "httpRequest \<Rightarrow> 'c chat \<Rightarrow> response option \<Rightarrow> envelope" where
  "chat_answer r c lastReply =
     (case lastReply of
        Some reply \<Rightarrow>
          if rs_Text reply \<noteq> []
          then WriteOKFromRequest r (httpChannelChatResponse (ch_botID c) ''webui'' (rs_Text reply) (ch_messageID c))
          else WriteError r ''TIMEOUT'' ''bot did not reply within 60 seconds''
      | None \<Rightarrow> WriteError r ''TIMEOUT'' ''bot did not reply within 60 seconds'')"

text \<open>
  The whole handler: \<open>during\<close> is what others make of the receiver while the chat waits, and \<open>arrivals\<close> the replies that come through its channel.  The result also has the
  time the loop took.
\<close>

definition ChatWithHttpChannel ::
  "('c receiver \<Rightarrow> 'c receiver) \<Rightarrow> string \<Rightarrow> (int \<Rightarrow> bool) \<Rightarrow> ('c receiver \<Rightarrow> 'c receiver) \<Rightarrow> (int \<times> response) list \<Rightarrow> httpRequest \<Rightarrow> 'c receiver
     \<Rightarrow> (envelope \<times> int) \<times> 'c receiver" where
  "ChatWithHttpChannel between ulid pick during arrivals r receiver =
     (case chat_begin between ulid r receiver of
        (Inl e, receiver1) \<Rightarrow> ((e, 0), receiver1)
      | (Inr c, receiver1) \<Rightarrow>
          (case chat_read pick 0 None arrivals of
             (lastReply, elapsed) \<Rightarrow>
               ((chat_answer r c lastReply, elapsed),
                unregisterChat (ch_botID c) (ch_messageID c) (ch_waiter c) (during receiver1))))"

section \<open>Routes\<close>

datatype endpoint =
    EP_CreateBot | EP_ListBots | EP_ConfigureBotAgent | EP_ConnectBot | EP_DeleteBot | EP_SimulateBotMessage
  | EP_RefreshBotLogin | EP_ListAgentCapabilities | EP_ListMCPServers | EP_Hook | EP_SendHttpChannelMessage
  | EP_ChatWithHttpChannel

definition RegisterRoutes :: "bool \<Rightarrow> bool \<Rightarrow> (string \<times> endpoint) list" where
  "RegisterRoutes hookManager httpReceiver =
     [(''POST /api/v1/bots/create'', EP_CreateBot), (''GET /api/v1/bots/list'', EP_ListBots),
      (''POST /api/v1/bots/agent'', EP_ConfigureBotAgent), (''POST /api/v1/bots/connect'', EP_ConnectBot),
      (''POST /api/v1/bots/delete'', EP_DeleteBot), (''POST /api/v1/bots/simulate-message'', EP_SimulateBotMessage),
      (''GET /api/v1/bots/connect'', EP_RefreshBotLogin), (''GET /api/v1/agent-capabilities'', EP_ListAgentCapabilities),
      (''GET /api/v1/mcp-servers'', EP_ListMCPServers)]
     @ (if hookManager then [(''POST /hooks/{platform}/{botname}'', EP_Hook)] else [])
     @ (if httpReceiver then [(''POST /api/v1/channels/http/messages'', EP_SendHttpChannelMessage),
                              (''POST /api/v1/channels/http/chat'', EP_ChatWithHttpChannel)] else [])"

text \<open>Registering a pattern twice makes \<open>ServeMux\<close> panic; none is.\<close>

lemma RegisterRoutes_distinct: "distinct (map fst (RegisterRoutes hm hr))"
  by (cases hm; cases hr; simp only: RegisterRoutes_def if_True if_False simp_thms; code_simp)

section \<open>The endpoints as one function\<close>

record 'w dependencies =
  dep_show_time :: "int \<Rightarrow> string"
  dep_env :: "'w goenv"
  dep_BotService :: "'w botService"
  dep_MessageSimulator :: "(simulateMessageInput \<Rightarrow> ('w, simulateMessageOutput) io) option"

definition api_handler :: "'w dependencies \<Rightarrow> endpoint \<Rightarrow> 'w handler option" where
  "api_handler deps ep =
     (let svc = dep_BotService deps in
      case ep of
        EP_CreateBot \<Rightarrow> Some (api_CreateBot (dep_env deps) svc)
      | EP_ListBots \<Rightarrow> Some (api_ListBots svc)
      | EP_ConfigureBotAgent \<Rightarrow> Some (api_ConfigureBotAgent svc)
      | EP_ConnectBot \<Rightarrow> Some (api_ConnectBot (dep_show_time deps) (dep_env deps) svc)
      | EP_DeleteBot \<Rightarrow> Some (api_DeleteBot svc)
      | EP_SimulateBotMessage \<Rightarrow> Some (api_SimulateBotMessage (dep_MessageSimulator deps))
      | EP_RefreshBotLogin \<Rightarrow> Some (api_RefreshBotLogin (dep_show_time deps) (dep_env deps) svc)
      | EP_ListAgentCapabilities \<Rightarrow> Some (api_ListAgentCapabilities svc)
      | EP_ListMCPServers \<Rightarrow> Some (api_ListMCPServers svc)
      | _ \<Rightarrow> None)"

end
