(* ===== verification/Manager.thy ===== *)
theory Manager
  imports Session
begin

text \<open>
  The table of agent sessions (\<open>internal/agent/manager.go\<close>).

  Sessions are shared by pointer, so the model keeps them in a heap (\<open>am_heap\<close>, a
  pointer is an index) and the maps of the manager hold pointers.  An operation is a
  sequence of critical sections, under the manager's lock or a lock of one session.  The sections of the
  manager are definitions of their own here (\<open>setSink_register\<close>, \<open>stop_remove\<close>,
  \<open>swap_session\<close>, \<open>restore_session\<close>), those of a session are in theory Session, and the operations are
  composed of them as they run with nothing in between; theory ManagerSteps interleaves the sections.
\<close>

section \<open>State\<close>

record agentManager =
  am_heap :: "session list"
  am_sessions :: "string \<rightharpoonup> nat"
  am_sinks :: "string \<rightharpoonup> nat option"

definition NewManager :: agentManager where
  "NewManager = \<lparr>am_heap = [], am_sessions = Map.empty, am_sinks = Map.empty\<rparr>"

text \<open>A method of the session a pointer leads to, and \<open>m.sinks[botID]\<close>.\<close>

definition am_session :: "agentManager \<Rightarrow> nat \<Rightarrow> session" where
  "am_session m h = am_heap m ! h"

definition am_set :: "nat \<Rightarrow> session \<Rightarrow> agentManager \<Rightarrow> agentManager" where
  "am_set h s m = m\<lparr>am_heap := (am_heap m)[h := s]\<rparr>"

definition am_sink :: "agentManager \<Rightarrow> string \<Rightarrow> nat option" where
  "am_sink m botID = (case am_sinks m botID of Some k \<Rightarrow> k | None \<Rightarrow> None)"

section \<open>Operations on the current session\<close>

definition on_session :: "nat \<Rightarrow> (session \<Rightarrow> session) \<Rightarrow> agentManager \<Rightarrow> agentManager" where
  "on_session h f m = am_set h (f (am_session m h)) m"

text \<open>\<open>SetPushSink\<close> registers the sink under the manager's lock and sets it in the session after.\<close>

definition setSink_register :: "string \<Rightarrow> nat option \<Rightarrow> agentManager \<Rightarrow> nat option \<times> agentManager" where
  "setSink_register botID sink m = (am_sessions m botID, m\<lparr>am_sinks := (am_sinks m)(botID \<mapsto> sink)\<rparr>)"

definition mgr_SetPushSink :: "string \<Rightarrow> nat option \<Rightarrow> agentManager \<Rightarrow> agentManager" where
  "mgr_SetPushSink botID sink m =
     (case setSink_register botID sink m of
        (None, m1) \<Rightarrow> m1
      | (Some h, m1) \<Rightarrow> on_session h (session_SetPushSink sink) m1)"

definition mgr_Schedule :: "string \<Rightarrow> scheduledTask \<Rightarrow> agentManager \<Rightarrow> (goerr + string) \<times> agentManager" where
  "mgr_Schedule botID task m =
     (case am_sessions m botID of
        None \<Rightarrow> (Inl (errorf (''no active session for bot '' @ botID)), m)
      | Some h \<Rightarrow>
          (case session_Schedule task (am_session m h) of (r, s) \<Rightarrow> (r, am_set h s m)))"

definition mgr_CancelTask :: "string \<Rightarrow> string \<Rightarrow> agentManager \<Rightarrow> bool \<times> agentManager" where
  "mgr_CancelTask botID taskID m =
     (case am_sessions m botID of
        None \<Rightarrow> (False, m)
      | Some h \<Rightarrow>
          (case session_CancelTask taskID (am_session m h) of (r, s) \<Rightarrow> (r, am_set h s m)))"

definition mgr_Tasks :: "string \<Rightarrow> agentManager \<Rightarrow> scheduledTask list" where
  "mgr_Tasks botID m =
     (case am_sessions m botID of None \<Rightarrow> [] | Some h \<Rightarrow> session_Tasks (am_session m h))"

definition mgr_State :: "string \<Rightarrow> agentManager \<Rightarrow> sessionState" where
  "mgr_State botID m =
     (case am_sessions m botID of None \<Rightarrow> SessionStopped | Some h \<Rightarrow> session_State (am_session m h))"

text \<open>
  \<open>StopBot\<close> removes the session and the sink under the lock and closes the session after.
  The error of a failing \<open>Close\<close> is only logged.
\<close>

definition stop_remove :: "string \<Rightarrow> agentManager \<Rightarrow> nat option \<times> agentManager" where
  "stop_remove botID m =
     (am_sessions m botID,
      m\<lparr>am_sessions := (am_sessions m)(botID := None), am_sinks := (am_sinks m)(botID := None)\<rparr>)"

definition mgr_StopBot :: "closer \<Rightarrow> string \<Rightarrow> agentManager \<Rightarrow> agentManager" where
  "mgr_StopBot close_rt botID m =
     (case stop_remove botID m of
        (None, m1) \<Rightarrow> m1
      | (Some h, m1) \<Rightarrow> on_session h (\<lambda>s. snd (session_Close close_rt s)) m1)"

section \<open>Finding or replacing a session\<close>

definition driverForSpec :: "'d drivers \<Rightarrow> spec \<Rightarrow> goerr + 'd" where
  "driverForSpec ds sp =
     (let name = (if sp_Type sp = [] then ''codex-exec'' else sp_Type sp) in
      case LookupDriver ds name of
        None \<Rightarrow> Inl (errorf (''unknown agent driver type: '' @ name))
      | Some driver \<Rightarrow> Inr driver)"

text \<open>The session of the bot when it matches the spec and is not broken.\<close>

definition sessionFor_lookup :: "string \<Rightarrow> spec \<Rightarrow> agentManager \<Rightarrow> nat option" where
  "sessionFor_lookup botID sp m =
     (case am_sessions m botID of
        None \<Rightarrow> None
      | Some h \<Rightarrow>
          if session_Matches (am_session m h) sp \<and> session_State (am_session m h) \<noteq> SessionBroken
          then Some h else None)"

definition sessionFor_create ::
  "('d \<Rightarrow> spec \<Rightarrow> goerr + nat) \<Rightarrow> 'd drivers \<Rightarrow> spec \<Rightarrow> agentManager \<Rightarrow> (goerr + nat) \<times> agentManager" where
  "sessionFor_create init ds sp m =
     (case driverForSpec ds sp of
        Inl err \<Rightarrow> (Inl err, m)
      | Inr driver \<Rightarrow>
          (case NewSession (init driver) sp of
             Inl err \<Rightarrow> (Inl err, m)
           | Inr s \<Rightarrow> (Inr (length (am_heap m)), m\<lparr>am_heap := am_heap m @ [s]\<rparr>)))"

text \<open>
  The replacement becomes the bot's session: the session it replaces, if any, and the bot's
  sink are read in the same section.  When the replaced session does not close it is put
  back, unless the replacement was itself replaced or removed meanwhile.
\<close>

definition swap_session :: "string \<Rightarrow> nat \<Rightarrow> agentManager \<Rightarrow> nat option \<times> nat option \<times> agentManager" where
  "swap_session botID replacement m =
     (am_sessions m botID, am_sink m botID, m\<lparr>am_sessions := (am_sessions m)(botID \<mapsto> replacement)\<rparr>)"

definition set_sink :: "nat \<Rightarrow> nat option \<Rightarrow> agentManager \<Rightarrow> agentManager" where
  "set_sink h sink m =
     (case sink of None \<Rightarrow> m | Some k \<Rightarrow> on_session h (session_SetPushSink (Some k)) m)"

definition restore_session :: "string \<Rightarrow> nat \<Rightarrow> nat \<Rightarrow> agentManager \<Rightarrow> agentManager" where
  "restore_session botID replacement stale m =
     (if am_sessions m botID = Some replacement
      then m\<lparr>am_sessions := (am_sessions m)(botID \<mapsto> stale)\<rparr> else m)"

definition sessionFor_install ::
  "closer \<Rightarrow> string \<Rightarrow> spec \<Rightarrow> nat \<Rightarrow> agentManager \<Rightarrow> (goerr + nat) \<times> agentManager" where
  "sessionFor_install close_rt botID sp replacement m =
     (case sessionFor_lookup botID sp m of
        Some current \<Rightarrow>
          (case session_Close close_rt (am_session m replacement) of
             (Some err, s) \<Rightarrow> (Inl err, am_set replacement s m)
           | (None, s) \<Rightarrow> (Inr current, am_set replacement s m))
      | None \<Rightarrow>
          (let (stale, sink, m1) = swap_session botID replacement m;
               m2 = set_sink replacement sink m1
           in case stale of
                None \<Rightarrow> (Inr replacement, m2)
              | Some st \<Rightarrow>
                  (case session_Close close_rt (am_session m2 st) of
                     (None, s) \<Rightarrow> (Inr replacement, am_set st s m2)
                   | (Some err, s) \<Rightarrow>
                       (Inl err,
                        on_session replacement (\<lambda>r. snd (session_Close close_rt r))
                          (restore_session botID replacement st (am_set st s m2))))))"

definition sessionFor ::
  "('d \<Rightarrow> spec \<Rightarrow> goerr + nat) \<Rightarrow> 'd drivers \<Rightarrow> closer \<Rightarrow> string \<Rightarrow> spec \<Rightarrow> agentManager \<Rightarrow> (goerr + nat) \<times> agentManager" where
  "sessionFor init ds close_rt botID sp m =
     (case sessionFor_lookup botID sp m of
        Some h \<Rightarrow> (Inr h, m)
      | None \<Rightarrow>
          (case sessionFor_create init ds sp m of
             (Inl err, m1) \<Rightarrow> (Inl err, m1)
           | (Inr replacement, m1) \<Rightarrow> sessionFor_install close_rt botID sp replacement m1))"

definition mgr_Send ::
  "('d \<Rightarrow> spec \<Rightarrow> goerr + nat) \<Rightarrow> 'd drivers \<Rightarrow> closer \<Rightarrow> runner \<Rightarrow> string \<Rightarrow> spec \<Rightarrow> request \<Rightarrow> agentManager
     \<Rightarrow> (response \<times> goerr option) outcome \<times> agentManager" where
  "mgr_Send init ds close_rt run botID sp req m =
     (case sessionFor init ds close_rt botID sp m of
        (Inl err, m1) \<Rightarrow> (Ret (empty_response, Some err), m1)
      | (Inr h, m1) \<Rightarrow>
          (case session_Send run req (am_session m1 h) of (r, s) \<Rightarrow> (r, am_set h s m1)))"

section \<open>Heap lemmas\<close>

lemma am_session_set [simp]:
  "h < length (am_heap m) \<Longrightarrow> am_session (am_set h s m) h' = (if h' = h then s else am_session m h')"
  by (simp add: am_session_def am_set_def)

lemma am_set_simps [simp]:
  "am_sessions (am_set h s m) = am_sessions m"
  "am_sinks (am_set h s m) = am_sinks m"
  "length (am_heap (am_set h s m)) = length (am_heap m)"
  "am_sink (am_set h s m) b = am_sink m b"
  by (simp_all add: am_set_def am_sink_def)

lemma am_session_upd [simp]:
  "am_session (m\<lparr>am_sessions := f\<rparr>) h = am_session m h"
  "am_session (m\<lparr>am_sinks := g\<rparr>) h = am_session m h"
  "am_session (m\<lparr>am_sessions := f, am_sinks := g\<rparr>) h = am_session m h"
  by (simp_all add: am_session_def)

lemma am_sink_upd [simp]: "am_sink (m\<lparr>am_sessions := f\<rparr>) b = am_sink m b"
  by (simp add: am_sink_def)

section \<open>The invariant\<close>

text \<open>Every pointer is allocated, no session serves two bots and every session is well formed.\<close>

definition mgr_wf :: "agentManager \<Rightarrow> bool" where
  "mgr_wf m \<longleftrightarrow>
     (\<forall>b h. am_sessions m b = Some h \<longrightarrow> h < length (am_heap m)) \<and>
     (\<forall>b c h. am_sessions m b = Some h \<longrightarrow> am_sessions m c = Some h \<longrightarrow> b = c) \<and>
     (\<forall>h < length (am_heap m). session_wf (am_session m h))"

lemma mgr_wfD:
  assumes "mgr_wf m"
  shows "am_sessions m b = Some h \<Longrightarrow> h < length (am_heap m)"
    and "am_sessions m b = Some h \<Longrightarrow> am_sessions m c = Some h \<Longrightarrow> b = c"
    and "h < length (am_heap m) \<Longrightarrow> session_wf (am_session m h)"
  using assms unfolding mgr_wf_def by blast+

lemma mgr_wf_New: "mgr_wf NewManager"
  by (simp add: mgr_wf_def NewManager_def)

text \<open>What an operation on one session may do without touching the tables.\<close>

lemma mgr_wf_set:
  assumes "mgr_wf m" "h < length (am_heap m)" "session_wf s"
  shows "mgr_wf (am_set h s m)"
  using assms by (auto simp: mgr_wf_def)

lemma mgr_wf_on:
  "mgr_wf m \<Longrightarrow> h < length (am_heap m) \<Longrightarrow> (\<And>s. session_wf s \<Longrightarrow> session_wf (f s)) \<Longrightarrow> mgr_wf (on_session h f m)"
  by (simp add: on_session_def mgr_wf_set mgr_wfD)

lemma mgr_wf_tables:
  "mgr_wf m \<Longrightarrow> mgr_wf (snd (setSink_register b k m))"
  "mgr_wf m \<Longrightarrow> mgr_wf (snd (stop_remove b m))"
  "mgr_wf m \<Longrightarrow> rep < length (am_heap m) \<Longrightarrow> (\<And>c. c \<noteq> b \<Longrightarrow> am_sessions m c \<noteq> Some rep)
     \<Longrightarrow> mgr_wf (snd (snd (swap_session b rep m)))"
  by (auto simp: mgr_wf_def setSink_register_def stop_remove_def swap_session_def)

lemma mgr_wf_restore:
  "mgr_wf m \<Longrightarrow> st < length (am_heap m) \<Longrightarrow> (\<And>c. c \<noteq> b \<Longrightarrow> am_sessions m c \<noteq> Some st)
     \<Longrightarrow> mgr_wf (restore_session b rep st m)"
  by (auto simp: mgr_wf_def restore_session_def)

lemma set_sink_wf: "mgr_wf m \<Longrightarrow> h < length (am_heap m) \<Longrightarrow> mgr_wf (set_sink h k m)"
  by (auto simp: set_sink_def session_SetPushSink_wf intro: mgr_wf_on split: option.split)

lemma mgr_SetPushSink_wf: "mgr_wf m \<Longrightarrow> mgr_wf (mgr_SetPushSink b k m)"
  using mgr_wf_tables(1) [of m b k] mgr_wfD(1) [of m b]
  by (auto simp: mgr_SetPushSink_def setSink_register_def session_SetPushSink_wf
      intro!: mgr_wf_on split: option.splits)

lemma mgr_Schedule_wf: "mgr_wf m \<Longrightarrow> mgr_wf (snd (mgr_Schedule b t m))"
  by (auto simp: mgr_Schedule_def mgr_wfD frame_simps session_Schedule_wf prod.case_eq_if
      split: option.splits intro!: mgr_wf_set)

lemma mgr_CancelTask_wf: "mgr_wf m \<Longrightarrow> mgr_wf (snd (mgr_CancelTask b k m))"
  by (auto simp: mgr_CancelTask_def mgr_wfD frame_simps session_CancelTask_wf prod.case_eq_if
      split: option.splits intro!: mgr_wf_set)

lemma mgr_StopBot_wf: "mgr_wf m \<Longrightarrow> mgr_wf (mgr_StopBot cl b m)"
  using mgr_wf_tables(2) [of m b] mgr_wfD(1) [of m b]
  by (auto simp: mgr_StopBot_def stop_remove_def session_Close_wf
      intro!: mgr_wf_on split: option.splits)

lemma mgr_StopBot_eq:
  "mgr_StopBot close_rt botID m =
     (let m1 = m\<lparr>am_sessions := (am_sessions m)(botID := None), am_sinks := (am_sinks m)(botID := None)\<rparr>
      in case am_sessions m botID of
           None \<Rightarrow> m1
         | Some h \<Rightarrow> am_set h (snd (session_Close close_rt (am_session m1 h))) m1)"
  by (simp add: mgr_StopBot_def stop_remove_def on_session_def Let_def split: option.splits)

lemma sessionFor_install_eq:
  "sessionFor_install close_rt botID sp replacement m =
     (case sessionFor_lookup botID sp m of
        Some current \<Rightarrow>
          (case session_Close close_rt (am_session m replacement) of
             (Some err, s) \<Rightarrow> (Inl err, am_set replacement s m)
           | (None, s) \<Rightarrow> (Inr current, am_set replacement s m))
      | None \<Rightarrow>
          let stale = am_sessions m botID;
              m1 = m\<lparr>am_sessions := (am_sessions m)(botID \<mapsto> replacement)\<rparr>;
              m2 = (case am_sink m botID of
                      None \<Rightarrow> m1
                    | Some k \<Rightarrow> am_set replacement (session_SetPushSink (Some k) (am_session m1 replacement)) m1)
          in case stale of
               None \<Rightarrow> (Inr replacement, m2)
             | Some st \<Rightarrow>
                 (case session_Close close_rt (am_session m2 st) of
                    (None, s) \<Rightarrow> (Inr replacement, am_set st s m2)
                  | (Some err, s) \<Rightarrow>
                      let m3 = am_set st s m2;
                          m4 = (if am_sessions m3 botID = Some replacement
                                then m3\<lparr>am_sessions := (am_sessions m3)(botID \<mapsto> st)\<rparr> else m3)
                      in (Inl err,
                          am_set replacement (snd (session_Close close_rt (am_session m4 replacement))) m4)))"
  by (cases "sessionFor_lookup botID sp m"; cases "am_sessions m botID"; cases "am_sink m botID")
     (simp_all add: sessionFor_install_def swap_session_def set_sink_def on_session_def restore_session_def Let_def
        split: prod.split option.split)

lemma sessionFor_lookup_Some:
  "sessionFor_lookup b sp m = Some h \<longleftrightarrow>
     am_sessions m b = Some h \<and> session_Matches (am_session m h) sp
     \<and> session_State (am_session m h) \<noteq> SessionBroken"
  by (auto simp: sessionFor_lookup_def split: option.splits)

lemma sessionFor_create_Inr:
  assumes "sessionFor_create init ds sp m = (Inr h, m1)"
  obtains s driver where "h = length (am_heap m)" "m1 = m\<lparr>am_heap := am_heap m @ [s]\<rparr>"
    "driverForSpec ds sp = Inr driver" "NewSession (init driver) sp = Inr s"
  using assms by (auto simp: sessionFor_create_def split: sum.splits)

lemma sessionFor_create_Inl: "sessionFor_create init ds sp m = (Inl e, m1) \<Longrightarrow> m1 = m"
  by (auto simp: sessionFor_create_def split: sum.splits)

lemma sessionFor_create_wf:
  assumes "mgr_wf m" "sessionFor_create init ds sp m = (Inr h, m1)"
  shows "mgr_wf m1" "\<And>b. am_sessions m1 b \<noteq> Some h" "h < length (am_heap m1)"
proof -
  from assms(2) obtain s driver where *: "h = length (am_heap m)" "m1 = m\<lparr>am_heap := am_heap m @ [s]\<rparr>"
    "NewSession (init driver) sp = Inr s" by (rule sessionFor_create_Inr)
  have "session_wf s" by (rule NewSession_wf [OF *(3)])
  with assms(1) show "mgr_wf m1"
    by (auto simp: * mgr_wf_def am_session_def am_sink_def nth_append less_Suc_eq)
  show "am_sessions m1 b \<noteq> Some h" for b using mgr_wfD(1) [OF assms(1), of b h] by (auto simp: *)
  show "h < length (am_heap m1)" by (simp add: *)
qed

text \<open>
  The outcomes of the second half: another caller installed a matching session meanwhile,
  the replacement is installed, or the session it replaces would not close and stays.
\<close>

lemma sessionFor_install_cases:
  assumes "mgr_wf m" "rep < length (am_heap m)" "\<And>c. am_sessions m c \<noteq> Some rep"
  obtains
    (lost) h r where "sessionFor_lookup b sp m = Some h"
      "sessionFor_install cl b sp rep m = (r, am_set rep (snd (session_Close cl (am_session m rep))) m)"
      "fst (session_Close cl (am_session m rep)) = None \<Longrightarrow> r = Inr h"
      "\<And>k. r = Inr k \<Longrightarrow> k = h \<and> fst (session_Close cl (am_session m rep)) = None"
  | (fresh) "sessionFor_lookup b sp m = None" "am_sessions m b = None"
      "sessionFor_install cl b sp rep m =
         (Inr rep, am_set rep (if am_sink m b = None then am_session m rep
                               else session_SetPushSink (am_sink m b) (am_session m rep))
                     (m\<lparr>am_sessions := (am_sessions m)(b \<mapsto> rep)\<rparr>))"
  | (replaced) st where "sessionFor_lookup b sp m = None" "am_sessions m b = Some st" "st \<noteq> rep"
      "fst (session_Close cl (am_session m st)) = None"
      "sessionFor_install cl b sp rep m =
         (Inr rep, am_set st (snd (session_Close cl (am_session m st)))
                     (am_set rep (if am_sink m b = None then am_session m rep
                                  else session_SetPushSink (am_sink m b) (am_session m rep))
                       (m\<lparr>am_sessions := (am_sessions m)(b \<mapsto> rep)\<rparr>)))"
  | (restored) st e rep_s where "sessionFor_lookup b sp m = None" "am_sessions m b = Some st" "st \<noteq> rep"
      "fst (session_Close cl (am_session m st)) = Some e"
      "rep_s = am_session m rep \<or> rep_s = session_SetPushSink (am_sink m b) (am_session m rep)"
      "sessionFor_install cl b sp rep m =
         (Inl e, am_set rep (snd (session_Close cl rep_s)) (am_set st (snd (session_Close cl (am_session m st))) m))"
proof -
  have same: "am_set rep (am_session m rep) m' = m'" if "am_heap m' = am_heap m" for m'
    using assms(2) that by (simp add: am_set_def am_session_def)
  show thesis
  proof (cases "sessionFor_lookup b sp m")
    case (Some h)
    show thesis
      by (rule lost [of h "fst (sessionFor_install cl b sp rep m)"])
         (auto simp: Some sessionFor_install_eq split: prod.splits option.splits)
  next
    case None
    show thesis
    proof (cases "am_sessions m b")
      case None1: None
      show thesis
        by (rule fresh [OF None None1])
           (auto simp: sessionFor_install_eq None None1 Let_def same split: option.splits)
    next
      case Some1: (Some st)
      have ne: "st \<noteq> rep" using assms(3) [of b] Some1 by auto
      have lt: "st < length (am_heap m)" by (rule mgr_wfD(1) [OF assms(1) Some1])
      show thesis
      proof (cases "fst (session_Close cl (am_session m st))")
        case None2: None
        show thesis
          by (rule replaced [OF None Some1 ne None2])
             (use None2 ne assms(2) in \<open>auto simp: sessionFor_install_eq None Some1 Let_def same
                split: option.splits prod.splits\<close>)
      next
        case Some2: (Some e)
        define rep_s where "rep_s = (if am_sink m b = None then am_session m rep
                                     else session_SetPushSink (am_sink m b) (am_session m rep))"
        have bk: "am_sessions m = (am_sessions m)(b \<mapsto> st)" using Some1 by auto
        show thesis
          by (rule restored [OF None Some1 ne Some2, of rep_s])
             (use Some2 ne assms(2) lt bk in \<open>auto simp: rep_s_def sessionFor_install_eq None Some1 Let_def same
                am_set_def am_session_def list_update_swap fun_upd_idem split: option.splits prod.splits\<close>)
      qed
    qed
  qed
qed

section \<open>The scheduling interface\<close>

text \<open>
  \<open>TaskScheduler\<close> of \<open>internal/app/orchestration/schedule_mcp.go\<close>, which the scheduled-task
  tools call: the laws are what the tools' users rely on.
\<close>

locale task_scheduler =
  fixes ok :: "'m \<Rightarrow> bool"
    and sched :: "string \<Rightarrow> scheduledTask \<Rightarrow> 'm \<Rightarrow> (goerr + string) \<times> 'm"
    and cancel :: "string \<Rightarrow> string \<Rightarrow> 'm \<Rightarrow> bool \<times> 'm"
    and tasks :: "string \<Rightarrow> 'm \<Rightarrow> scheduledTask list"
  assumes sched_keeps: "ok m \<Longrightarrow> ok (snd (sched b t m))"
    and cancel_keeps: "ok m \<Longrightarrow> ok (snd (cancel b k m))"
    and sched_new: "ok m \<Longrightarrow> sched b t m = (Inr k, m') \<Longrightarrow>
          k \<noteq> [] \<and> k \<notin> st_ID ` set (tasks b m) \<and> set (tasks b m') = insert (t\<lparr>st_ID := k\<rparr>) (set (tasks b m))"
    and sched_err: "ok m \<Longrightarrow> sched b t m = (Inl e, m') \<Longrightarrow> tasks c m' = tasks c m"
    and sched_other: "ok m \<Longrightarrow> c \<noteq> b \<Longrightarrow> tasks c (snd (sched b t m)) = tasks c m"
    and cancel_known: "ok m \<Longrightarrow> fst (cancel b k m) \<longleftrightarrow> k \<in> st_ID ` set (tasks b m)"
    and cancel_removes: "ok m \<Longrightarrow> set (tasks b (snd (cancel b k m))) = {t \<in> set (tasks b m). st_ID t \<noteq> k}"
    and cancel_other: "ok m \<Longrightarrow> c \<noteq> b \<Longrightarrow> tasks c (snd (cancel b k m)) = tasks c m"
begin

lemma cancel_scheduled:
  assumes "ok m" "sched b t m = (Inr k, m1)"
  shows "fst (cancel b k m1)" and "set (tasks b (snd (cancel b k m1))) = set (tasks b m)"
proof -
  have ok1: "ok m1" using sched_keeps [OF assms(1), of b t] assms(2) by simp
  note new = sched_new [OF assms]
  show "fst (cancel b k m1)" unfolding cancel_known [OF ok1] using new by force
  show "set (tasks b (snd (cancel b k m1))) = set (tasks b m)"
    unfolding cancel_removes [OF ok1] using new by auto
qed

lemma cancel_twice:
  assumes "ok m"
  shows "\<not> fst (cancel b k (snd (cancel b k m)))"
  unfolding cancel_known [OF cancel_keeps [OF assms]] cancel_removes [OF assms] by auto

lemma cancel_of_other_bot:
  assumes "ok m" "sched b t m = (Inr k, m1)" "c \<noteq> b"
  shows "t\<lparr>st_ID := k\<rparr> \<in> set (tasks b (snd (cancel c j m1)))"
proof -
  have ok1: "ok m1" using sched_keeps [OF assms(1), of b t] assms(2) by simp
  show ?thesis using cancel_other [OF ok1, of b c j] assms(3) sched_new [OF assms(1,2)] by auto
qed

end

text \<open>The manager's session is unshared, so an operation on one bot leaves the others alone.\<close>

lemma mgr_Tasks_am_set:
  assumes "mgr_wf m" "am_sessions m b = Some h"
  shows "mgr_Tasks b (am_set h s m) = session_Tasks s"
    and "c \<noteq> b \<Longrightarrow> mgr_Tasks c (am_set h s m) = mgr_Tasks c m"
proof -
  show "mgr_Tasks b (am_set h s m) = session_Tasks s"
    using mgr_wfD(1) [OF assms] assms(2) by (simp add: mgr_Tasks_def)
  show "mgr_Tasks c (am_set h s m) = mgr_Tasks c m" if "c \<noteq> b"
    using mgr_wfD(1,2) [OF assms] that by (auto simp: mgr_Tasks_def split: option.splits)
qed

interpretation sched: task_scheduler mgr_wf mgr_Schedule mgr_CancelTask mgr_Tasks
proof unfold_locales
  fix m b t k assume wf: "mgr_wf m"
  show "mgr_wf (snd (mgr_Schedule b t m))" by (rule mgr_Schedule_wf [OF wf])
  show "mgr_wf (snd (mgr_CancelTask b k m))" by (rule mgr_CancelTask_wf [OF wf])
  note [simp] = mgr_Tasks_am_set [OF wf] mgr_wfD(1,3) [OF wf]
  have cur: "am_sessions m b = Some h \<Longrightarrow> mgr_Tasks b m = session_Tasks (am_session m h)" for h
    by (simp add: mgr_Tasks_def)
  have none: "am_sessions m b = None \<Longrightarrow> mgr_Tasks b m = []" by (simp add: mgr_Tasks_def)
  show "k \<noteq> [] \<and> k \<notin> st_ID ` set (mgr_Tasks b m)
      \<and> set (mgr_Tasks b m') = insert (t\<lparr>st_ID := k\<rparr>) (set (mgr_Tasks b m))"
    if "mgr_Schedule b t m = (Inr k, m')" for m'
  proof -
    from that obtain h s' where "am_sessions m b = Some h" "session_Schedule t (am_session m h) = (Inr k, s')"
        "m' = am_set h s' m"
      by (auto simp: mgr_Schedule_def split: option.splits prod.splits)
    with session_Schedule_Tasks [OF mgr_wfD(3) [OF wf mgr_wfD(1) [OF wf]]] cur show ?thesis by simp
  qed
  show "mgr_Tasks c m' = mgr_Tasks c m" if "mgr_Schedule b t m = (Inl e, m')" for c e m'
  proof (cases "am_sessions m b")
    case None
    with that show ?thesis by (simp add: mgr_Schedule_def)
  next
    case (Some h)
    with that obtain s' where "session_Schedule t (am_session m h) = (Inl e, s')" "m' = am_set h s' m"
      by (auto simp: mgr_Schedule_def split: prod.splits)
    with Some session_Schedule_err_Tasks show ?thesis by (cases "c = b") (simp_all add: cur)
  qed
  show "mgr_Tasks c (snd (mgr_Schedule b t m)) = mgr_Tasks c m" if "c \<noteq> b" for c
    using that by (auto simp: mgr_Schedule_def split: option.splits prod.splits)
  show "mgr_Tasks c (snd (mgr_CancelTask b k m)) = mgr_Tasks c m" if "c \<noteq> b" for c
    using that by (auto simp: mgr_CancelTask_def split: option.splits prod.splits)
  show "fst (mgr_CancelTask b k m) \<longleftrightarrow> k \<in> st_ID ` set (mgr_Tasks b m)"
    by (cases "am_sessions m b")
       (simp_all add: mgr_CancelTask_def none cur session_CancelTask_Tasks(1) [OF mgr_wfD(3) [OF wf], symmetric] prod.case_eq_if)
  show "set (mgr_Tasks b (snd (mgr_CancelTask b k m))) = {t \<in> set (mgr_Tasks b m). st_ID t \<noteq> k}"
    by (cases "am_sessions m b")
       (simp_all add: mgr_CancelTask_def none cur session_CancelTask_Tasks(2) [OF mgr_wfD(3) [OF wf]] prod.case_eq_if)
qed

section \<open>Properties\<close>

lemma NewSession_Inr:
  "NewSession init sp = Inr s \<Longrightarrow> ss_spec s = cloneSpec sp \<and> ss_state s = SessionReady"
  by (auto simp: NewSession_def Let_def split: sum.splits)

text \<open>
  \<open>sessionFor\<close> answers with the bot's current session, which is not broken and was
  started for this spec, up to the copy; a session that matches and is not broken is reused as it is,
  without starting a process.
\<close>

theorem sessionFor_ready:
  assumes wf: "mgr_wf m" and r: "sessionFor init ds cl b sp m = (Inr h, m')"
  shows "am_sessions m' b = Some h \<and> session_State (am_session m' h) \<noteq> SessionBroken
    \<and> (session_Matches (am_session m' h) sp \<or> ss_spec (am_session m' h) = cloneSpec sp)
    \<and> (sessionFor_lookup b sp m \<noteq> None \<longrightarrow> sessionFor_lookup b sp m = Some h \<and> m' = m)"
proof (cases "sessionFor_lookup b sp m")
  case (Some k)
  with r show ?thesis by (auto simp: sessionFor_def sessionFor_lookup_Some)
next
  case None
  with r obtain rep m1 where c: "sessionFor_create init ds sp m = (Inr rep, m1)"
      and i: "sessionFor_install cl b sp rep m1 = (Inr h, m')"
    by (auto simp: sessionFor_def split: prod.splits sum.splits)
  from c obtain s driver where eq: "rep = length (am_heap m)" "m1 = m\<lparr>am_heap := am_heap m @ [s]\<rparr>"
      "NewSession (init driver) sp = Inr s" by (rule sessionFor_create_Inr)
  note new = sessionFor_create_wf [OF wf c]
  have s: "am_session m1 rep = s" by (simp add: eq am_session_def)
  note spec = NewSession_Inr [OF eq(3)]
  have lookup: "sessionFor_lookup b sp m1 = None"
    using None mgr_wfD(1) [OF wf] by (auto simp: sessionFor_lookup_def eq am_session_def nth_append split: option.splits)
  from new(1,3,2) show ?thesis
  proof (cases rule: sessionFor_install_cases [where b = b and sp = sp and cl = cl])
    case lost with lookup show ?thesis by simp
  next
    case fresh
    have "h = rep" using i fresh(3) by simp
    moreover have "m' = snd (sessionFor_install cl b sp rep m1)" by (simp only: i snd_conv)
    ultimately show ?thesis using fresh new(3) spec None
      by (simp add: s session_State_def session_SetPushSink_def)
  next
    case (replaced st)
    have "h = rep" using i replaced(5) by simp
    moreover have "m' = snd (sessionFor_install cl b sp rep m1)" by (simp only: i snd_conv)
    ultimately show ?thesis using replaced new(3) mgr_wfD(1) [OF new(1) replaced(2)] spec None
      by (simp add: s session_State_def session_SetPushSink_def)
  next
    case restored with i show ?thesis by simp
  qed
qed

text \<open>
  When the session being replaced does not close, the call reports that error and the old
  session stays the bot's current one, with its runtime and turn state, while the new process
  is closed; but its scheduled tasks are gone and it refuses to schedule any more.
\<close>

theorem sessionFor_failed_replacement:
  assumes wf: "mgr_wf m" and lookup: "sessionFor_lookup b sp m = None"
    and st: "am_sessions m b = Some st"
    and drv: "driverForSpec ds sp = Inr driver" and init: "init driver (cloneSpec sp) = Inr rt"
    and fails: "fst (session_Close cl (am_session m st)) = Some e"
  shows "\<exists>m'. sessionFor init ds cl b sp m = (Inl e, m') \<and> am_sessions m' = am_sessions m
    \<and> ss_runtime (am_session m' st) = ss_runtime (am_session m st)
    \<and> mgr_State b m' = mgr_State b m
    \<and> mgr_Tasks b m' = [] \<and> (\<forall>task. \<exists>err. fst (mgr_Schedule b task m') = Inl err)"
proof -
  obtain s where ns: "NewSession (init driver) sp = Inr s" using init by (simp add: NewSession_def)
  let ?rep = "length (am_heap m)" and ?m1 = "m\<lparr>am_heap := am_heap m @ [s]\<rparr>"
  have c: "sessionFor_create init ds sp m = (Inr ?rep, ?m1)"
    by (simp add: sessionFor_create_def drv ns)
  note new = sessionFor_create_wf [OF wf c]
  have lt: "st < length (am_heap m)" by (rule mgr_wfD(1) [OF wf st])
  have old: "am_session ?m1 st = am_session m st" using lt by (simp add: am_session_def nth_append)
  have lookup1: "sessionFor_lookup b sp ?m1 = None"
    using lookup st old by (auto simp: sessionFor_lookup_def)
  from new(1,3,2) show ?thesis
  proof (cases rule: sessionFor_install_cases [where b = b and sp = sp and cl = cl])
    case lost with lookup1 show ?thesis by simp
  next
    case fresh with st show ?thesis by simp
  next
    case (replaced st') with st fails old show ?thesis by simp
  next
    case (restored st' e' rep_s)
    then have [simp]: "st' = st" "e' = e" using st fails old by simp_all
    obtain m' where m': "sessionFor init ds cl b sp m = (Inl e, m')"
        "m' = am_set ?rep (snd (session_Close cl rep_s)) (am_set st (snd (session_Close cl (am_session m st))) ?m1)"
      using restored(6) by (simp add: sessionFor_def lookup c old)
    have cur: "am_session m' st = snd (session_Close cl (am_session m st))" "am_sessions m' = am_sessions m"
      using lt by (simp_all add: m'(2))
    have "ss_schedClosed (am_session m' st)" by (simp add: cur frame_simps)
    then have "\<exists>err. fst (mgr_Schedule b task m') = Inl err" for task
      using session_Schedule_closed [of "am_session m' st" task] st
      by (auto simp: mgr_Schedule_def cur(2) split: prod.splits)
    then show ?thesis
      using m'(1) cur st session_Close_runtime(3) [OF fails]
      by (auto simp: mgr_State_def mgr_Tasks_def session_Tasks_def session_State_def frame_simps)
  qed
qed

text \<open>
  \<open>StopBot\<close> ends everything the bot had: its state is stopped, it has no tasks and no
  sink, every ticker of its session has been told to stop and, if the runtime closes, the
  process is released; other bots' sessions and sinks are untouched.
\<close>

theorem mgr_StopBot_releases:
  assumes wf: "mgr_wf m" and h: "am_sessions m b = Some h"
  shows "mgr_State b (mgr_StopBot cl b m) = SessionStopped \<and> mgr_Tasks b (mgr_StopBot cl b m) = []
    \<and> am_sink (mgr_StopBot cl b m) b = None
    \<and> (\<forall>t \<in> set (ss_live (am_session (mgr_StopBot cl b m) h)).
          tt_num t \<in> set (ss_stopped (am_session (mgr_StopBot cl b m) h)))
    \<and> (fst (session_Close cl (am_session m h)) = None \<longrightarrow> ss_runtime (am_session (mgr_StopBot cl b m) h) = None)
    \<and> (\<forall>c. c \<noteq> b \<longrightarrow> am_sessions (mgr_StopBot cl b m) c = am_sessions m c \<and> am_sink (mgr_StopBot cl b m) c = am_sink m c)
    \<and> (\<forall>k. k \<noteq> h \<longrightarrow> am_session (mgr_StopBot cl b m) k = am_session m k)"
proof -
  have lt: "h < length (am_heap m)" by (rule mgr_wfD(1) [OF wf h])
  have s: "session_wf (am_session m h)" by (rule mgr_wfD(3) [OF wf lt])
  have "set (ss_stopped (snd (session_Close cl (am_session m h)))) =
      tt_num ` snd ` set (ss_tasks (am_session m h)) \<union> set (ss_stopped (am_session m h))"
    by (simp add: session_Close_eq Let_def split: option.splits)
  then have stop: "\<forall>t \<in> set (ss_live (snd (session_Close cl (am_session m h)))).
      tt_num t \<in> set (ss_stopped (snd (session_Close cl (am_session m h))))"
    using live_timer_known [OF s] by (simp add: frame_simps)
  show ?thesis
    using lt h stop session_Close_runtime(2) [of cl "am_session m h"]
    by (simp add: mgr_StopBot_eq mgr_State_def mgr_Tasks_def) (simp add: am_sink_def)
qed

text \<open>A manager with one bot, for the examples.\<close>

definition sample_manager :: agentManager where
  "sample_manager = \<lparr>am_heap = [sample_session], am_sessions = [''b1'' \<mapsto> 0], am_sinks = [''b1'' \<mapsto> Some 3]\<rparr>"

definition sample_spec :: spec where
  "sample_spec = empty_spec\<lparr>sp_BotID := ''b1'', sp_Type := ''claude-acp''\<rparr>"

lemma sample_manager_wf: "mgr_wf sample_manager"
  using sample_session_wf
  by (auto simp: mgr_wf_def sample_manager_def am_session_def)

lemma sessionFor_ready_witness:
  "\<exists>h m'. sessionFor (\<lambda>_ _. Inr 9) [''claude-acp'' \<mapsto> ()] (\<lambda>_. None) ''b1'' sample_spec sample_manager = (Inr h, m')
     \<and> am_sessions m' ''b1'' = Some h \<and> session_State (am_session m' h) \<noteq> SessionBroken"
proof -
  have "\<exists>m'. sessionFor (\<lambda>_ _. Inr 9) [''claude-acp'' \<mapsto> ()] (\<lambda>_. None) ''b1'' sample_spec sample_manager = (Inr 1, m')"
    by (simp add: sessionFor_def sessionFor_lookup_def sample_manager_def am_session_def sample_session_def
        session_Matches_def spec_DeepEqual_def env_equal_def sample_spec_def empty_spec_def sessionFor_create_def
        driverForSpec_def LookupDriver_def NewSession_def cloneSpec_def sessionFor_install_eq am_sink_def
        am_set_def session_Close_eq stopAllTasks_def timer_stop_def session_SetPushSink_def)
  then obtain m' where "sessionFor (\<lambda>_ _. Inr 9) [''claude-acp'' \<mapsto> ()] (\<lambda>_. None) ''b1'' sample_spec sample_manager
      = (Inr 1, m')" ..
  with sessionFor_ready [OF sample_manager_wf this] show ?thesis by blast
qed

lemma sessionFor_failed_replacement_witness:
  "\<exists>m'. sessionFor (\<lambda>_ _. Inr 9) [''claude-acp'' \<mapsto> ()] (\<lambda>_. Some (errorf ''busy'')) ''b1'' sample_spec sample_manager
       = (Inl (errorf ''busy''), m') \<and> am_sessions m' ''b1'' = Some 0 \<and> mgr_Tasks ''b1'' m' = []"
proof -
  have eq: "am_session sample_manager 0 = sample_session" "am_sessions sample_manager ''b1'' = Some 0"
    by (simp_all add: sample_manager_def am_session_def)
  have "sessionFor_lookup ''b1'' sample_spec sample_manager = None"
    by (simp add: sessionFor_lookup_def eq session_Matches_def spec_DeepEqual_def)
       (simp add: sample_session_def sample_spec_def empty_spec_def)
  note 1 = this
  have 2: "driverForSpec [''claude-acp'' \<mapsto> ()] sample_spec = Inr ()"
    by (simp add: driverForSpec_def LookupDriver_def sample_spec_def)
  have 3: "fst (session_Close (\<lambda>_. Some (errorf ''busy'')) (am_session sample_manager 0)) = Some (errorf ''busy'')"
    by (simp add: eq session_Close_eq Let_def) (simp add: sample_session_def)
  show ?thesis
    using sessionFor_failed_replacement [where init = "\<lambda>_ _. Inr 9" and rt = 9,
      OF sample_manager_wf 1 eq(2) 2 refl 3] eq(2) by metis
qed

lemma mgr_StopBot_releases_witness:
  "mgr_State ''b1'' (mgr_StopBot (\<lambda>_. None) ''b1'' sample_manager) = SessionStopped"
  using mgr_StopBot_releases [OF sample_manager_wf, of "''b1''" 0] by (simp add: sample_manager_def)

end
