(* ===== verification/Orchestration.thy ===== *)
theory Orchestration
  imports Manager GoTime
begin

text \<open>
  The orchestration package (\<open>internal/app/orchestration\<close>): the store of dispatched tasks,
  the runners, the MCP tools, the scheduled-task tools, the registry of sub-agents with
  its synchronisation and health sweep, and the A2A client.

  The registry (a repository), the resolver, the executor and the HTTP transport are
  arguments.  A registry that is written threads its state \<open>'r\<close>.
\<close>

section \<open>Tasks\<close>

datatype taskState = TaskStateSubmitted | TaskStateWorking | TaskStateCompleted | TaskStateFailed | TaskStateCanceled

definition terminal :: "taskState \<Rightarrow> bool" where
  "terminal s = (s = TaskStateCompleted \<or> s = TaskStateFailed \<or> s = TaskStateCanceled)"

fun taskState_text :: "taskState \<Rightarrow> string" where
  "taskState_text TaskStateSubmitted = ''submitted''"
| "taskState_text TaskStateWorking = ''working''"
| "taskState_text TaskStateCompleted = ''completed''"
| "taskState_text TaskStateFailed = ''failed''"
| "taskState_text TaskStateCanceled = ''canceled''"

record task =
  tk_ID :: string
  tk_AgentName :: string
  tk_Prompt :: string
  tk_State :: taskState
  tk_Result :: string
  tk_Error :: string
  tk_CreatedAt :: int
  tk_UpdatedAt :: int

type_synonym taskStore = "string \<rightharpoonup> task"

definition NewTaskStore :: taskStore where
  "NewTaskStore = Map.empty"

definition ts_Create :: "string \<Rightarrow> int \<Rightarrow> string \<Rightarrow> string \<Rightarrow> taskStore \<Rightarrow> task \<times> taskStore" where
  "ts_Create ulid now agentName prompt s =
     (let t = \<lparr>tk_ID = NewPrefixedID ulid ''task'', tk_AgentName = agentName, tk_Prompt = prompt,
               tk_State = TaskStateSubmitted, tk_Result = [], tk_Error = [], tk_CreatedAt = now, tk_UpdatedAt = now\<rparr>
      in (t, s(tk_ID t \<mapsto> t)))"

definition ts_Get :: "string \<Rightarrow> taskStore \<Rightarrow> task option" where
  "ts_Get i s = s i"

text \<open>In the map's order, which Go leaves open: a set.\<close>

definition ts_List :: "taskStore \<Rightarrow> task set" where
  "ts_List s = ran s"

definition ts_transition :: "int \<Rightarrow> string \<Rightarrow> taskState \<Rightarrow> string \<Rightarrow> string \<Rightarrow> taskStore \<Rightarrow> taskStore" where
  "ts_transition now i state result errMsg s =
     (case s i of
        None \<Rightarrow> s
      | Some t \<Rightarrow>
          if terminal (tk_State t) then s
          else let t1 = t\<lparr>tk_State := state\<rparr>;
                   t2 = (if result \<noteq> [] then t1\<lparr>tk_Result := result\<rparr> else t1);
                   t3 = (if errMsg \<noteq> [] then t2\<lparr>tk_Error := errMsg\<rparr> else t2)
               in s(i \<mapsto> t3\<lparr>tk_UpdatedAt := now\<rparr>))"

definition ts_SetWorking :: "int \<Rightarrow> string \<Rightarrow> taskStore \<Rightarrow> taskStore" where
  "ts_SetWorking now i s = ts_transition now i TaskStateWorking [] [] s"

definition ts_Complete :: "int \<Rightarrow> string \<Rightarrow> string \<Rightarrow> taskStore \<Rightarrow> taskStore" where
  "ts_Complete now i result s = ts_transition now i TaskStateCompleted result [] s"

definition ts_Fail :: "int \<Rightarrow> string \<Rightarrow> string \<Rightarrow> taskStore \<Rightarrow> taskStore" where
  "ts_Fail now i errMsg s = ts_transition now i TaskStateFailed [] errMsg s"

definition ts_Cancel :: "int \<Rightarrow> string \<Rightarrow> taskStore \<Rightarrow> bool \<times> taskStore" where
  "ts_Cancel now i s =
     (case s i of
        None \<Rightarrow> (False, s)
      | Some t \<Rightarrow>
          if terminal (tk_State t) then (False, s)
          else (True, s(i \<mapsto> t\<lparr>tk_State := TaskStateCanceled, tk_UpdatedAt := now\<rparr>)))"

section \<open>Runners\<close>

type_synonym resolver = "string \<Rightarrow> goerr + spec"
type_synonym sender = "string \<Rightarrow> spec \<Rightarrow> request \<Rightarrow> response \<times> goerr option"

text \<open>The text is returned with an error too: \<open>resp.Text, err\<close>.\<close>

definition LocalRunner_Run ::
  "resolver \<Rightarrow> sender \<Rightarrow> string \<Rightarrow> registeredAgent \<Rightarrow> string \<Rightarrow> string \<times> goerr option" where
  "LocalRunner_Run resolve send ulid a prompt =
     (case resolve (ra_BotID a) of
        Inl err \<Rightarrow> ([], Some (wrapf (''resolve sub-agent '' @ ra_BotID a @ '': '') err []))
      | Inr sp \<Rightarrow>
          (case send (ra_BotID a) sp (empty_request\<lparr>rq_BotID := ra_BotID a,
                  rq_MessageID := NewPrefixedID ulid ''subtask'', rq_Prompt := prompt\<rparr>) of
             (resp, err) \<Rightarrow> (rs_Text resp, err)))"

definition Runner_Run ::
  "(registeredAgent \<Rightarrow> string \<Rightarrow> string \<times> goerr option) option \<Rightarrow>
   (registeredAgent \<Rightarrow> string \<Rightarrow> string \<times> goerr option) option \<Rightarrow>
   registeredAgent \<Rightarrow> string \<Rightarrow> string \<times> goerr option" where
  "Runner_Run local remote a prompt =
     (if ra_Kind a = RegisteredAgentKindLocal
      then (case local of None \<Rightarrow> ([], Some (errorf ''local runner not configured'')) | Some run \<Rightarrow> run a prompt)
      else if ra_Kind a = RegisteredAgentKindRemote
      then (case remote of None \<Rightarrow> ([], Some (errorf ''remote runner not configured'')) | Some run \<Rightarrow> run a prompt)
      else ([], Some (errorf (''unknown agent kind '' @ Quote (ra_Kind a)))))"

section \<open>The dispatch tools\<close>

record agentInfo =
  ai_Name :: string
  ai_Description :: string
  ai_Kind :: string
  ai_Health :: string

definition ListAgents :: "(goerr + registeredAgent list) \<Rightarrow> goerr + agentInfo list" where
  "ListAgents listed =
     (case listed of
        Inl err \<Rightarrow> Inl err
      | Inr agents \<Rightarrow>
          Inr (map (\<lambda>a. \<lparr>ai_Name = ra_Name a, ai_Description = ra_Description a, ai_Kind = ra_Kind a, ai_Health = ra_Health a\<rparr>)
                 (filter (\<lambda>a. ra_Health a \<noteq> RegisteredAgentUnhealthy) agents)))"

text \<open>
  The call answers at once; the goroutine it starts is \<open>dispatch_start\<close> and, when the
  runner has returned, \<open>dispatch_end\<close>.
\<close>

definition Dispatch ::
  "(string \<Rightarrow> goerr + registeredAgent) \<Rightarrow> string \<Rightarrow> int \<Rightarrow> string \<Rightarrow> string \<Rightarrow> taskStore
     \<Rightarrow> (goerr + (string \<times> registeredAgent)) \<times> taskStore" where
  "Dispatch getByName ulid now agentName prompt s =
     (case getByName agentName of
        Inl err \<Rightarrow> (Inl (wrapf (''unknown agent '' @ Quote agentName @ '': '') err []), s)
      | Inr ra \<Rightarrow> (case ts_Create ulid now (ra_Name ra) prompt s of (t, s1) \<Rightarrow> (Inr (tk_ID t, ra), s1)))"

definition dispatch_start :: "int \<Rightarrow> string \<Rightarrow> taskStore \<Rightarrow> taskStore" where
  "dispatch_start now i s = ts_SetWorking now i s"

definition dispatch_end :: "int \<Rightarrow> string \<Rightarrow> string \<times> goerr option \<Rightarrow> taskStore \<Rightarrow> taskStore" where
  "dispatch_end now i outcome s =
     (case outcome of
        (_, Some runErr) \<Rightarrow> ts_Fail now i (err_msg runErr) s
      | (result, None) \<Rightarrow> ts_Complete now i result s)"

record getTaskOutput =
  gt_TaskID :: string
  gt_AgentName :: string
  gt_State :: string
  gt_Result :: string
  gt_Error :: string

definition GetTask :: "string \<Rightarrow> taskStore \<Rightarrow> goerr + getTaskOutput" where
  "GetTask i s =
     (case ts_Get i s of
        None \<Rightarrow> Inl (errorf (''unknown task '' @ Quote i))
      | Some t \<Rightarrow> Inr \<lparr>gt_TaskID = tk_ID t, gt_AgentName = tk_AgentName t, gt_State = taskState_text (tk_State t),
                       gt_Result = tk_Result t, gt_Error = tk_Error t\<rparr>)"

definition mcp_CancelTask :: "int \<Rightarrow> string \<Rightarrow> taskStore \<Rightarrow> bool \<times> taskStore" where
  "mcp_CancelTask now i s = ts_Cancel now i s"

section \<open>The scheduled-task tools\<close>

definition minScheduleInterval :: int where "minScheduleInterval = second"

text \<open>The bot id rides in the context's values; the HTTP layer takes it from \<open>?bot_id=\<close>.\<close>

definition WithBotID :: "string \<Rightarrow> goctx \<Rightarrow> goctx" where
  "WithBotID botID ctx = ctx\<lparr>cx_values := (''botID'', botID) # cx_values ctx\<rparr>"

definition BotIDFromContext :: "goctx \<Rightarrow> string" where
  "BotIDFromContext ctx = (case map_of (cx_values ctx) ''botID'' of Some b \<Rightarrow> b | None \<Rightarrow> [])"

definition botIDMiddleware :: "string \<Rightarrow> goctx \<Rightarrow> goctx" where
  "botIDMiddleware query_bot_id ctx = (if query_bot_id \<noteq> [] then WithBotID query_bot_id ctx else ctx)"

text \<open>\<open>configured\<close> tells whether \<open>SetScheduler\<close> was called.\<close>

definition schedulerFor :: "bool \<Rightarrow> goctx \<Rightarrow> goerr + string" where
  "schedulerFor configured ctx =
     (if \<not> configured then Inl (errorf ''scheduled tasks are not configured on this server'')
      else if BotIDFromContext ctx = []
      then Inl (errorf ''bot identity missing: the MCP URL must include bot_id'')
      else Inr (BotIDFromContext ctx))"

type_synonym 'm sched_fn = "string \<Rightarrow> scheduledTask \<Rightarrow> 'm \<Rightarrow> (goerr + string) \<times> 'm"

definition ScheduleTask ::
  "(nat \<Rightarrow> nat \<Rightarrow> nat \<Rightarrow> nat) \<Rightarrow> 'm sched_fn \<Rightarrow> bool \<Rightarrow> goctx \<Rightarrow> string \<Rightarrow> string \<Rightarrow> 'm \<Rightarrow> (goerr + string) \<times> 'm" where
  "ScheduleTask frac sched configured ctx intervalText prompt m =
     (case schedulerFor configured ctx of
        Inl err \<Rightarrow> (Inl err, m)
      | Inr botID \<Rightarrow>
          (case ParseDuration frac (TrimSpace intervalText) of
             None \<Rightarrow> (Inl (errorf (''invalid interval '' @ Quote intervalText @ '': use a Go duration such as 30s or 1m'')), m)
           | Some interval \<Rightarrow>
               if interval < minScheduleInterval
               then (Inl (errorf (''interval '' @ Duration_String interval @ '' is below the minimum ''
                                    @ Duration_String minScheduleInterval)), m)
               else if TrimSpace prompt = [] then (Inl (errorf ''prompt is required''), m)
               else sched botID \<lparr>st_ID = [], st_Interval = interval, st_Prompt = prompt\<rparr> m))"

definition CancelScheduledTask ::
  "(string \<Rightarrow> string \<Rightarrow> 'm \<Rightarrow> bool \<times> 'm) \<Rightarrow> bool \<Rightarrow> goctx \<Rightarrow> string \<Rightarrow> 'm \<Rightarrow> (goerr + bool) \<times> 'm" where
  "CancelScheduledTask cancel configured ctx taskID m =
     (case schedulerFor configured ctx of
        Inl err \<Rightarrow> (Inl err, m)
      | Inr botID \<Rightarrow> (case cancel botID taskID m of (canceled, m1) \<Rightarrow> (Inr canceled, m1)))"

record scheduledTaskInfo =
  sti_TaskID :: string
  sti_Interval :: string
  sti_Prompt :: string

definition ListScheduledTasks ::
  "(string \<Rightarrow> 'm \<Rightarrow> scheduledTask list) \<Rightarrow> bool \<Rightarrow> goctx \<Rightarrow> 'm \<Rightarrow> goerr + scheduledTaskInfo list" where
  "ListScheduledTasks tasks configured ctx m =
     (case schedulerFor configured ctx of
        Inl err \<Rightarrow> Inl err
      | Inr botID \<Rightarrow>
          Inr (map (\<lambda>t. \<lparr>sti_TaskID = st_ID t, sti_Interval = Duration_String (st_Interval t), sti_Prompt = st_Prompt t\<rparr>)
                 (tasks botID m)))"

section \<open>Registration and health of sub-agents\<close>

type_synonym 'r upserter = "registeredAgent \<Rightarrow> 'r \<Rightarrow> (goerr + registeredAgent) \<times> 'r"

text \<open>\<open>ulid\<close> gives the identifier of the n-th entry.\<close>

fun sync_bots :: "(nat \<Rightarrow> string) \<Rightarrow> 'r upserter \<Rightarrow> nat \<Rightarrow> bot list \<Rightarrow> 'r \<Rightarrow> goerr option \<times> 'r" where
  "sync_bots ulid upsert n [] r = (None, r)"
| "sync_bots ulid upsert n (b # bs) r =
     (if bot_Type b \<noteq> BotTypeSubagent then sync_bots ulid upsert n bs r
      else case upsert \<lparr>ra_ID = NewPrefixedID (ulid n) ''ra'', ra_Name = bot_Name b, ra_Description = bot_Name b,
                        ra_Kind = RegisteredAgentKindLocal, ra_BotID = bot_ID b, ra_Endpoint = [], ra_AuthToken = [],
                        ra_Health = RegisteredAgentHealthy, ra_LastHeartbeat = None, ra_CreatedAt = None,
                        ra_UpdatedAt = None\<rparr> r of
             (Inl err, r1) \<Rightarrow> (Some err, r1)
           | (Inr _, r1) \<Rightarrow> sync_bots ulid upsert (n + 1) bs r1)"

definition SyncLocalAgents ::
  "(nat \<Rightarrow> string) \<Rightarrow> (goerr + bot list) \<Rightarrow> 'r upserter \<Rightarrow> 'r \<Rightarrow> goerr option \<times> 'r" where
  "SyncLocalAgents ulid listed upsert r =
     (case listed of Inl err \<Rightarrow> (Some err, r) | Inr bots \<Rightarrow> sync_bots ulid upsert 0 bots r)"

text \<open>Whether an agent is due: a healthy remote one whose last heartbeat is older than \<open>ttl\<close>.\<close>

definition sweep_due :: "int \<Rightarrow> int \<Rightarrow> registeredAgent \<Rightarrow> bool" where
  "sweep_due ttl now a \<longleftrightarrow> ra_Kind a = RegisteredAgentKindRemote \<and> ra_Health a = RegisteredAgentHealthy
     \<and> (case ra_LastHeartbeat a of None \<Rightarrow> False | Some t \<Rightarrow> now - t > ttl)"

fun sweep_agents :: "int \<Rightarrow> int \<Rightarrow> 'r upserter \<Rightarrow> nat \<Rightarrow> registeredAgent list \<Rightarrow> 'r \<Rightarrow> (nat \<times> goerr option) \<times> 'r" where
  "sweep_agents ttl now upsert marked [] r = ((marked, None), r)"
| "sweep_agents ttl now upsert marked (a # as) r =
     (if \<not> sweep_due ttl now a then sweep_agents ttl now upsert marked as r
      else case upsert (a\<lparr>ra_Health := RegisteredAgentUnhealthy\<rparr>) r of
             (Inl err, r1) \<Rightarrow> ((marked, Some err), r1)
           | (Inr _, r1) \<Rightarrow> sweep_agents ttl now upsert (marked + 1) as r1)"

definition SweepStaleAgents ::
  "(goerr + registeredAgent list) \<Rightarrow> 'r upserter \<Rightarrow> int \<Rightarrow> int \<Rightarrow> 'r \<Rightarrow> (nat \<times> goerr option) \<times> 'r" where
  "SweepStaleAgents listed upsert ttl now r =
     (case listed of Inl err \<Rightarrow> ((0, Some err), r) | Inr agents \<Rightarrow> sweep_agents ttl now upsert 0 agents r)"

section \<open>The life of a task\<close>

text \<open>
  The calls that touch the store, for the task \<open>i\<close> whose runner answers \<open>outcome\<close>: its
  goroutine starts and ends, anyone cancels any task, other tasks are created under fresh
  ids and make progress.
\<close>

inductive task_step :: "string \<Rightarrow> string \<times> goerr option \<Rightarrow> taskStore \<Rightarrow> taskStore \<Rightarrow> bool" for i outcome where
  begins: "task_step i outcome s (dispatch_start now i s)"
| ends: "task_step i outcome s (dispatch_end now i outcome s)"
| cancels: "task_step i outcome s (snd (mcp_CancelTask now j s))"
| creates: "s (NewPrefixedID ulid ''task'') = None \<Longrightarrow>
    task_step i outcome s (snd (ts_Create ulid now agentName prompt s))"
| others: "j \<noteq> i \<Longrightarrow> task_step i outcome s (ts_transition now j state result errMsg s)"

definition task_fresh :: "string \<Rightarrow> taskStore \<Rightarrow> bool" where
  "task_fresh i s \<longleftrightarrow> (\<exists>t. s i = Some t \<and> tk_State t = TaskStateSubmitted \<and> tk_Result t = [] \<and> tk_Error t = [])"

definition task_ok :: "string \<times> goerr option \<Rightarrow> task \<Rightarrow> bool" where
  "task_ok outcome t \<longleftrightarrow>
     (case tk_State t of
        TaskStateCompleted \<Rightarrow> snd outcome = None \<and> tk_Result t = fst outcome \<and> tk_Error t = []
      | TaskStateFailed \<Rightarrow> snd outcome \<noteq> None \<and> tk_Error t = err_msg (the (snd outcome)) \<and> tk_Result t = []
      | _ \<Rightarrow> tk_Result t = [] \<and> tk_Error t = [])"

definition task_consistent :: "string \<Rightarrow> string \<times> goerr option \<Rightarrow> taskStore \<Rightarrow> bool" where
  "task_consistent i outcome s \<longleftrightarrow> (case s i of None \<Rightarrow> False | Some t \<Rightarrow> task_ok outcome t)"

lemma ts_transition_other: "j \<noteq> i \<Longrightarrow> ts_transition now j st r e s i = s i"
  by (auto simp: ts_transition_def Let_def split: option.splits)

lemma ts_transition_terminal: "s i = Some t \<Longrightarrow> terminal (tk_State t) \<Longrightarrow> ts_transition now j st r e s i = Some t"
  by (cases "j = i") (simp_all add: ts_transition_other, simp add: ts_transition_def)

lemmas task_op_defs = dispatch_start_def dispatch_end_def ts_SetWorking_def ts_Complete_def ts_Fail_def
  mcp_CancelTask_def ts_Cancel_def ts_Create_def

lemma task_step_terminal:
  assumes "task_step i outcome s s'" "s i = Some t \<and> terminal (tk_State t)"
  shows "s' i = Some t \<and> terminal (tk_State t)"
  using assms
proof (induction rule: task_step.induct)
  case (begins s now)
  then show ?case by (simp add: task_op_defs ts_transition_terminal)
next
  case (ends s now)
  then show ?case by (auto simp: task_op_defs ts_transition_terminal split: prod.splits option.splits)
next
  case (cancels s now j)
  then show ?case by (auto simp: task_op_defs split: option.splits)
next
  case (creates s ulid now agentName prompt)
  then show ?case by (auto simp: task_op_defs Let_def)
next
  case (others j s now state result errMsg)
  then show ?case by (simp add: ts_transition_other)
qed

lemma ts_transition_live:
  "s i = Some t \<Longrightarrow> \<not> terminal (tk_State t) \<Longrightarrow> ts_transition now i st r e s i =
     Some (t\<lparr>tk_State := st, tk_Result := (if r \<noteq> [] then r else tk_Result t),
             tk_Error := (if e \<noteq> [] then e else tk_Error t), tk_UpdatedAt := now\<rparr>)"
  by (simp add: ts_transition_def)

lemma task_ok_live: "task_ok outcome t \<Longrightarrow> \<not> terminal (tk_State t) \<Longrightarrow> tk_Result t = [] \<and> tk_Error t = []"
  by (cases "tk_State t") (simp_all add: task_ok_def terminal_def)

lemma task_step_consistent: "task_step i outcome s s' \<Longrightarrow> task_consistent i outcome s \<Longrightarrow> task_consistent i outcome s'"
proof (cases "s i")
  case None
  assume "task_consistent i outcome s"
  with None show ?thesis by (simp add: task_consistent_def)
next
  case (Some t)
  assume step: "task_step i outcome s s'" and ok: "task_consistent i outcome s"
  have t: "task_ok outcome t" using ok Some by (simp add: task_consistent_def)
  show ?thesis
  proof (cases "terminal (tk_State t)")
    case True
    then show ?thesis using task_step_terminal [OF step] Some t by (simp add: task_consistent_def)
  next
    case live: False
    note empty = task_ok_live [OF t live]
    from step Some show ?thesis
    proof (induction rule: task_step.induct)
      case (begins s now)
      with live empty show ?case
        by (simp add: task_consistent_def task_op_defs ts_transition_live task_ok_def)
    next
      case (ends s now)
      with live empty show ?case
        by (cases outcome; cases "snd outcome")
           (simp_all add: task_consistent_def task_op_defs ts_transition_live task_ok_def)
    next
      case (cancels s now j)
      with live empty t show ?case
        by (cases "j = i") (simp_all add: task_consistent_def task_op_defs task_ok_def split: option.splits)
    next
      case (creates s ulid now agentName prompt)
      with t show ?case by (auto simp: task_consistent_def task_op_defs Let_def)
    next
      case (others j s now state result errMsg)
      with t show ?case by (simp add: task_consistent_def ts_transition_other)
    qed
  qed
qed

lemma task_fresh_consistent: "task_fresh i s \<Longrightarrow> task_consistent i outcome s"
  by (auto simp: task_fresh_def task_consistent_def task_ok_def)

interpretation dispatched: transition_system "task_fresh i" "task_step i outcome" "task_consistent i outcome" for i outcome
  by unfold_locales (erule task_fresh_consistent, erule task_step_consistent)

interpretation settled: stable_property "task_step i outcome" "\<lambda>s. s i = Some t \<and> terminal (tk_State t)" for i outcome t
  by unfold_locales (rule task_step_terminal)

text \<open>
  C7. Whatever cancellations and other tasks interleave with its goroutine, a dispatched
  task always says what happened: it is completed only with the text its runner returned and
  without an error, failed only with the runner's error, and in any other state has neither.
\<close>

theorem dispatched_task_outcome:
  assumes "Dispatch getByName ulid now agentName prompt s = (Inr (i, ra), s0)"
    and "(task_step i outcome)\<^sup>*\<^sup>* s0 s'"
  shows "task_consistent i outcome s'"
proof (rule dispatched.reachable_inv [OF _ assms(2)])
  show "task_fresh i s0"
    using assms(1) by (auto simp: Dispatch_def ts_Create_def Let_def task_fresh_def split: sum.splits)
qed

text \<open>
  C6. A terminal task never changes again: in particular a task that was cancelled stays
  cancelled, also when its runner answers later.
\<close>

theorem terminal_task_settled:
  assumes "s i = Some t" "terminal (tk_State t)" "(task_step i outcome)\<^sup>*\<^sup>* s s'"
  shows "GetTask i s' = GetTask i s \<and> fst (mcp_CancelTask now i s') = False"
  using settled.steps_stable [OF assms(3)] assms(1,2)
  by (simp add: GetTask_def ts_Get_def mcp_CancelTask_def ts_Cancel_def)

section \<open>The scheduled-task tools over any scheduler\<close>

lemma schedulerFor_Inr: "schedulerFor c ctx = Inr b \<longleftrightarrow> c \<and> b \<noteq> [] \<and> BotIDFromContext ctx = b"
  by (auto simp: schedulerFor_def)

lemma ScheduleTask_Inr:
  assumes "ScheduleTask frac sched c ctx iv p m = (Inr k, m1)"
  obtains b d where "schedulerFor c ctx = Inr b" "ParseDuration frac (TrimSpace iv) = Some d"
    "minScheduleInterval \<le> d" "TrimSpace p \<noteq> []" "sched b \<lparr>st_ID = [], st_Interval = d, st_Prompt = p\<rparr> m = (Inr k, m1)"
  using assms by (auto simp: ScheduleTask_def split: sum.splits option.splits if_splits)

lemma ScheduleTask_state:
  "snd (ScheduleTask frac sched c ctx iv p m) = m
   \<or> (\<exists>t. c \<and> snd (ScheduleTask frac sched c ctx iv p m) = snd (sched (BotIDFromContext ctx) t m))"
  by (auto simp: ScheduleTask_def schedulerFor_Inr split: sum.splits option.splits)

context task_scheduler
begin

lemma tool_roundtrip:
  assumes ok: "ok m" and s: "ScheduleTask frac sched True ctx iv p m = (Inr k, m1)"
  shows "\<exists>m2. CancelScheduledTask cancel True ctx k m1 = (Inr True, m2)
     \<and> set (tasks (BotIDFromContext ctx) m2) = set (tasks (BotIDFromContext ctx) m)"
proof -
  from s obtain b d where b: "schedulerFor True ctx = Inr b"
      and sch: "sched b \<lparr>st_ID = [], st_Interval = d, st_Prompt = p\<rparr> m = (Inr k, m1)" by (rule ScheduleTask_Inr)
  have "b = BotIDFromContext ctx" using b by (simp add: schedulerFor_Inr)
  with b cancel_scheduled [OF ok sch] show ?thesis
    by (cases "cancel b k m1") (simp add: CancelScheduledTask_def)
qed

lemma tool_isolation:
  assumes "ok m" "c \<noteq> BotIDFromContext ctx"
  shows "tasks c (snd (ScheduleTask frac sched conf ctx iv p m)) = tasks c m"
    and "tasks c (snd (CancelScheduledTask cancel conf ctx k m)) = tasks c m"
  using ScheduleTask_state [of frac sched conf ctx iv p m] sched_other [OF assms] cancel_other [OF assms]
  by (auto simp: CancelScheduledTask_def schedulerFor_Inr prod.case_eq_if split: sum.splits)

end

text \<open>
  Scheduling through the MCP tools, on the session manager: a task that was accepted has
  an interval of at least a second, is listed, and cancelling it with the id the tool
  returned succeeds and leaves the bot's tasks as they were.
\<close>

theorem schedule_tool_roundtrip:
  assumes "mgr_wf m" "ScheduleTask frac mgr_Schedule True ctx iv p m = (Inr k, m1)"
  shows "(\<exists>d \<ge> second. ParseDuration frac (TrimSpace iv) = Some d \<and>
      \<lparr>st_ID = k, st_Interval = d, st_Prompt = p\<rparr> \<in> set (mgr_Tasks (BotIDFromContext ctx) m1))
    \<and> (\<exists>m2. CancelScheduledTask mgr_CancelTask True ctx k m1 = (Inr True, m2)
         \<and> set (mgr_Tasks (BotIDFromContext ctx) m2) = set (mgr_Tasks (BotIDFromContext ctx) m))"
proof -
  from assms(2) obtain b d where b: "schedulerFor True ctx = Inr b" "ParseDuration frac (TrimSpace iv) = Some d"
      "minScheduleInterval \<le> d" "mgr_Schedule b \<lparr>st_ID = [], st_Interval = d, st_Prompt = p\<rparr> m = (Inr k, m1)"
    by (rule ScheduleTask_Inr)
  have "b = BotIDFromContext ctx" using b(1) by (simp add: schedulerFor_Inr)
  with b sched.sched_new [OF assms(1) b(4)] sched.tool_roundtrip [OF assms] show ?thesis
    by (simp add: minScheduleInterval_def)
qed

text \<open>
  A tool call acts for the bot its URL names and no other: whatever a bot schedules or
  cancels, the tasks of every other bot stay as they are, even if it guesses their ids.
\<close>

theorem schedule_tool_isolation:
  assumes "mgr_wf m" "query_bot_id \<noteq> []" "c \<noteq> query_bot_id"
  shows "mgr_Tasks c (snd (ScheduleTask frac mgr_Schedule conf (botIDMiddleware query_bot_id ctx) iv p m)) = mgr_Tasks c m
    \<and> mgr_Tasks c (snd (CancelScheduledTask mgr_CancelTask conf (botIDMiddleware query_bot_id ctx) k m)) = mgr_Tasks c m"
proof -
  have "c \<noteq> BotIDFromContext (botIDMiddleware query_bot_id ctx)"
    using assms(2,3) by (simp add: botIDMiddleware_def BotIDFromContext_def WithBotID_def)
  from sched.tool_isolation [OF assms(1) this] show ?thesis by blast
qed

section \<open>Synchronisation and sweeping\<close>

lemma sweep_agents_ok:
  assumes "\<And>a r. \<exists>b r'. upsert a r = (Inr b, r')"
  shows "sweep_agents ttl now upsert n as r =
    ((n + length (filter (sweep_due ttl now) as), None),
     fold (\<lambda>a r. snd (upsert (a\<lparr>ra_Health := RegisteredAgentUnhealthy\<rparr>) r)) (filter (sweep_due ttl now) as) r)"
proof (induction as arbitrary: n r)
  case (Cons a as)
  obtain b r' where "upsert (a\<lparr>ra_Health := RegisteredAgentUnhealthy\<rparr>) r = (Inr b, r')" using assms by blast
  with Cons show ?case by simp
qed simp

text \<open>
  A sweep marks exactly the agents that are due - remote, healthy, with a heartbeat
  older than the limit - as unhealthy, each once, in order, and reports how many; local
  agents and agents that never sent a heartbeat are left alone.
\<close>

theorem SweepStaleAgents_marks:
  assumes "\<And>a r. \<exists>b r'. upsert a r = (Inr b, r')"
  shows "SweepStaleAgents (Inr agents) upsert ttl now r =
    ((length (filter (sweep_due ttl now) agents), None),
     fold (\<lambda>a r. snd (upsert (a\<lparr>ra_Health := RegisteredAgentUnhealthy\<rparr>) r)) (filter (sweep_due ttl now) agents) r)"
  using sweep_agents_ok [where upsert = upsert and n = 0, OF assms] by (simp add: SweepStaleAgents_def)

lemma sync_bots_ok:
  assumes "\<And>a r. \<exists>b r'. upsert a r = (Inr b, r')"
    and "\<And>a r. set (names (snd (upsert a r))) = insert (ra_Name a) (set (names r))"
  shows "fst (sync_bots ulid upsert n bs r) = None
    \<and> set (names (snd (sync_bots ulid upsert n bs r))) = bot_Name ` {b \<in> set bs. bot_Type b = BotTypeSubagent} \<union> set (names r)"
proof (induction bs arbitrary: n r)
  case (Cons b bs)
  show ?case
  proof (cases "bot_Type b = BotTypeSubagent")
    case True
    let ?a = "\<lparr>ra_ID = NewPrefixedID (ulid n) ''ra'', ra_Name = bot_Name b, ra_Description = bot_Name b,
       ra_Kind = RegisteredAgentKindLocal, ra_BotID = bot_ID b, ra_Endpoint = [], ra_AuthToken = [],
       ra_Health = RegisteredAgentHealthy, ra_LastHeartbeat = None, ra_CreatedAt = None, ra_UpdatedAt = None\<rparr>"
    obtain c r' where u: "upsert ?a r = (Inr c, r')" using assms(1) by blast
    have "set (names r') = insert (bot_Name b) (set (names r))" using assms(2) [of ?a r] u by simp
    with Cons [of "n + 1" r'] True u show ?thesis by auto
  next
    case False
    with Cons [of n r] show ?thesis by auto
  qed
qed simp

text \<open>
  Synchronising registers exactly the listed bots of type subagent: when the registry
  accepts every entry, afterwards the registered names are those from before and the names
  of these bots.
\<close>

theorem SyncLocalAgents_registers:
  assumes "\<And>a r. \<exists>b r'. upsert a r = (Inr b, r')"
    and "\<And>a r. set (names (snd (upsert a r))) = insert (ra_Name a) (set (names r))"
  shows "fst (SyncLocalAgents ulid (Inr bots) upsert r) = None
    \<and> set (names (snd (SyncLocalAgents ulid (Inr bots) upsert r))) =
        bot_Name ` {b \<in> set bots. bot_Type b = BotTypeSubagent} \<union> set (names r)"
  using sync_bots_ok [OF assms] by (simp add: SyncLocalAgents_def)

section \<open>Examples\<close>

definition sample_agent :: registeredAgent where
  "sample_agent = \<lparr>ra_ID = ''ra_1'', ra_Name = ''coder'', ra_Description = ''writes code'', ra_Kind = RegisteredAgentKindRemote,
     ra_BotID = [], ra_Endpoint = ''http://x'', ra_AuthToken = [], ra_Health = RegisteredAgentHealthy,
     ra_LastHeartbeat = Some 0, ra_CreatedAt = None, ra_UpdatedAt = None\<rparr>"

lemma dispatched_task_outcome_witness:
  "\<exists>i ra s0. Dispatch (\<lambda>_. Inr sample_agent) ''01'' 0 ''coder'' ''do it'' NewTaskStore = (Inr (i, ra), s0)
     \<and> task_consistent i (''done'', None) (dispatch_end 5 i (''done'', None) (dispatch_start 1 i s0))"
proof -
  obtain i ra s0 where d: "Dispatch (\<lambda>_. Inr sample_agent) ''01'' 0 ''coder'' ''do it'' NewTaskStore = (Inr (i, ra), s0)"
    by (simp add: Dispatch_def ts_Create_def Let_def)
  have "(task_step i (''done'', None))\<^sup>*\<^sup>* s0 (dispatch_end 5 i (''done'', None) (dispatch_start 1 i s0))"
    by (rule converse_rtranclp_into_rtranclp [where b = "dispatch_start 1 i s0"], rule task_step.begins,
        rule r_into_rtranclp, rule task_step.ends)
  from dispatched_task_outcome [OF d this] d show ?thesis by blast
qed

definition canceled_task :: task where
  "canceled_task = \<lparr>tk_ID = ''t'', tk_AgentName = ''coder'', tk_Prompt = ''p'', tk_State = TaskStateCanceled,
     tk_Result = [], tk_Error = [], tk_CreatedAt = 0, tk_UpdatedAt = 0\<rparr>"

lemma terminal_task_settled_witness:
  "GetTask ''t'' (dispatch_end 9 ''t'' (''late'', None) [''t'' \<mapsto> canceled_task]) = GetTask ''t'' [''t'' \<mapsto> canceled_task]"
proof -
  have run: "(task_step ''t'' (''late'', None))\<^sup>*\<^sup>* [''t'' \<mapsto> canceled_task]
      (dispatch_end 9 ''t'' (''late'', None) [''t'' \<mapsto> canceled_task])"
    by (rule r_into_rtranclp, rule task_step.ends)
  show ?thesis using terminal_task_settled [OF _ _ run, of canceled_task] by (simp add: terminal_def canceled_task_def)
qed

lemma sample_duration: "ParseDuration f (TrimSpace ''30s'') = Some (30 * second)"
proof -
  have "TrimSpace ''30s'' = ''30s''" by (rule TrimSpace_plain) (simp_all add: plain_char_def)
  moreover have "ParseDuration f ''30s'' = Some 30000000000"
  proof -
    have n: "duration_number ''30s'' = Some (30, 0, 1, ''s'')"
      by (simp add: duration_number_def is_digit_def digit_val_def Let_def)
    have i: "duration_item f ''30s'' = Some (30000000000, [])"
      by (simp add: duration_item_def n unit_char_def is_digit_def unitMap_def scale_unit_def bytes_def)
    have "parse_items f 0 ''30s'' = Some 30000000000"
      by (subst parse_items.simps) (simp add: i parse_items.simps [of f _ "[]"])
    then show ?thesis by (simp add: ParseDuration_def)
  qed
  ultimately show ?thesis by (simp add: second_def)
qed

lemma schedule_tool_roundtrip_witness:
  "\<exists>k m1 m2. ScheduleTask (\<lambda>_ _ _. 0) mgr_Schedule True (WithBotID ''b1'' Background) ''30s'' ''ping'' sample_manager = (Inr k, m1)
     \<and> CancelScheduledTask mgr_CancelTask True (WithBotID ''b1'' Background) k m1 = (Inr True, m2)
     \<and> set (mgr_Tasks ''b1'' m2) = {sample_task}"
proof -
  let ?ctx = "WithBotID ''b1'' Background"
  have b: "BotIDFromContext ?ctx = ''b1''" by (simp add: BotIDFromContext_def WithBotID_def)
  have tasks: "mgr_Tasks ''b1'' sample_manager = [sample_task]"
    by (simp add: mgr_Tasks_def sample_manager_def am_session_def session_Tasks_def sample_session_def)
  have p: "TrimSpace ''ping'' = ''ping''" by (rule TrimSpace_plain) (simp_all add: plain_char_def)
  have two: "Itoa 2 = ''2''" by code_simp
  have "\<exists>k m1. mgr_Schedule ''b1'' \<lparr>st_ID = [], st_Interval = 30 * second, st_Prompt = ''ping''\<rparr> sample_manager = (Inr k, m1)"
    by (simp add: mgr_Schedule_def sample_manager_def am_session_def session_Schedule_def sample_session_def p second_def
        two Let_def)
  then obtain k m1 where "ScheduleTask (\<lambda>_ _ _. 0) mgr_Schedule True ?ctx ''30s'' ''ping'' sample_manager = (Inr k, m1)"
    by (auto simp: ScheduleTask_def schedulerFor_def b sample_duration minScheduleInterval_def p second_def)
  with schedule_tool_roundtrip [OF sample_manager_wf this] show ?thesis unfolding b tasks by auto
qed

lemma schedule_tool_isolation_witness:
  "mgr_Tasks ''b1'' (snd (CancelScheduledTask mgr_CancelTask True (botIDMiddleware ''b2'' Background) ''task-1'' sample_manager))
     = [sample_task]"
  using schedule_tool_isolation [OF sample_manager_wf, of "''b2''" "''b1''"]
  by (simp add: mgr_Tasks_def sample_manager_def am_session_def session_Tasks_def sample_session_def)

lemma SweepStaleAgents_marks_witness:
  "SweepStaleAgents (Inr [sample_agent, sample_agent\<lparr>ra_LastHeartbeat := None\<rparr>]) (\<lambda>a r. (Inr a, r @ [ra_Health a])) 5 10 [] =
     ((1, None), [RegisteredAgentUnhealthy])"
  using SweepStaleAgents_marks [where upsert = "\<lambda>a r. (Inr a, r @ [ra_Health a])"]
  by (simp add: sweep_due_def sample_agent_def)

lemma SyncLocalAgents_registers_witness:
  "set (snd (SyncLocalAgents (\<lambda>_. ''01'') (Inr []) (\<lambda>a r. (Inr a, ra_Name a # r)) [''old''])) = {''old''}"
  using SyncLocalAgents_registers [where upsert = "\<lambda>a r. (Inr a, ra_Name a # r)" and names = id] by simp

end
