(* ===== verification/AcpCore.thy ===== *)
theory AcpCore
  imports Agent JsonText HttpClient
begin

text \<open>
  What the two drivers that speak JSON-RPC with a command line tool share
  (\<open>internal/agent/opencode/driver_acp.go\<close>, \<open>internal/agent/codex/driver_acp.go\<close>, whose texts agree
  up to names): the state guarded by \<open>mu\<close>, \<open>rpc\<close>, \<open>notify\<close>, \<open>readLoop\<close>, \<open>markBroken\<close>, \<open>Close\<close>,
  the channel from the reader to the turn, and the stderr writer.  \<open>name\<close> is how the errors of a
  driver begin.

  \<^item> Every section under the mutex, and every receive or send, is one operation.  A goroutine inside
    \<open>rpc\<close> is the entry \<open>ar_calls id\<close>, the reader is \<open>ar_reader\<close>: a handler it is in is the list of
    the sections and sends still to come, so that a turn may end or begin between any two of them.
  \<^item> The channel of a call holds one reply (\<open>ar_replies id\<close>).  The channel of a turn is the list
    of all it was ever given and how many of them were received.
  \<^item> A context is an index into \<open>ar_ctxs\<close>, which holds its error once it is done.
  \<^item> \<open>ar_in\<close> and \<open>ar_out\<close> are the lines read from and written to the process, \<open>ar_progress\<close> the
    calls of the progress callbacks, each with the turn it belongs to.
  \<^item> Members kept raw (\<open>json.RawMessage\<close>) are values; marshalling the messages here cannot fail.
\<close>

section \<open>State\<close>

record rpcResponse =
  rr_ID :: "json option"
  rr_Method :: string
  rr_Result :: "json option"
  rr_Error :: "string option"
  rr_Params :: "json option"

record turnEvent =
  te_Kind :: string
  te_Delta :: string
  te_Text :: string
  te_Err :: "goerr option"

definition empty_event :: turnEvent where
  "empty_event = \<lparr>te_Kind = [], te_Delta = [], te_Text = [], te_Err = None\<rparr>"

record chan =
  ch_sent :: "turnEvent list"
  ch_taken :: nat

definition queued :: "chan \<Rightarrow> turnEvent list" where
  "queued c = drop (ch_taken c) (ch_sent c)"

text \<open>
  A call: its line is to be written, it waits (both with the context it was made under), it is
  leaving with its result, it has returned, or its goroutine has panicked.
\<close>

datatype callState =
    CallWriting nat string
  | CallWaiting nat
  | CallLeaving "goerr + json option"
  | CallReturned "goerr + json option"
  | CallPanicked

text \<open>
  The sections and sends of the handlers of the reader: choosing the channel of an event and sending
  it there, looking whether a tool call is new, choosing the callback and calling it, answering a
  request.
\<close>

datatype readerOp =
    OpDispatch string turnEvent
  | OpSend nat turnEvent
  | OpTool string "progressEvent option"
  | OpProgress progressEvent
  | OpReport nat progressEvent
  | OpAnswer json

datatype readerState =
    Reading
  | Handling "readerOp list"
  | Sending int rpcResponse
  | ReadFailed goerr
  | Failing "int list" "nat option" goerr
  | ReaderDone

record acpRuntime =
  ar_spec :: spec
  ar_stdin :: bool
  ar_cmd :: bool
  ar_state :: runtimeState
  ar_readErr :: "goerr option"
  ar_closed :: bool
  ar_nextID :: int
  ar_pending :: "int list"
  ar_replies :: "int \<Rightarrow> rpcResponse option"
  ar_calls :: "int \<Rightarrow> callState option"
  ar_reader :: readerState
  ar_stderr :: string
  ar_sessionID :: string
  ar_sessionWorkDir :: string
  ar_activeSession :: string
  ar_activeCh :: "nat option"
  ar_activeProgress :: "nat option"
  ar_chans :: "chan list"
  ar_ctxs :: "goerr option list"
  ar_in :: "string list"
  ar_out :: "string list"
  ar_progress :: "(nat \<times> progressEvent) list"

section \<open>Messages\<close>

definition rpcResponse_fields :: "members \<Rightarrow> rpcResponse \<times> bool" where
  "rpcResponse_fields ms =
     (let (v, e0) = get_str ''jsonrpc'' ms; (i, e1) = get_raw ''id'' ms; (m, e2) = get_str ''method'' ms;
          (r, e3) = get_raw ''result'' ms; (p, e4) = get_raw ''params'' ms; (err, e5) = get_ptr ''error'' ms;
          (msg, e6) = (case err of
                         None \<Rightarrow> (None, False)
                       | Some es \<Rightarrow> (case (get_int ''code'' es, get_str ''message'' es) of
                                       ((_, f1), (t, f2)) \<Rightarrow> (Some t, f1 \<or> f2)))
      in (\<lparr>rr_ID = i, rr_Method = m, rr_Result = r, rr_Error = msg, rr_Params = p\<rparr>, e0 \<or> e1 \<or> e2 \<or> e3 \<or> e4 \<or> e5 \<or> e6))"

text \<open>\<open>json.Unmarshal\<close> of a raw value into a struct: \<open>None\<close> for an error, also for a missing value.\<close>

definition unmarshal_value :: "(members \<Rightarrow> 'a \<times> bool) \<Rightarrow> json option \<Rightarrow> 'a option" where
  "unmarshal_value flds raw =
     (case raw of
        None \<Rightarrow> None
      | Some v \<Rightarrow> (case as_struct v of (ms, e0) \<Rightarrow> case flds ms of (x, e) \<Rightarrow> if e0 \<or> e then None else Some x))"

definition decode_line :: "string \<Rightarrow> rpcResponse option" where
  "decode_line line = unmarshal_value rpcResponse_fields (json_parse line)"

definition response_id :: "rpcResponse \<Rightarrow> int option" where
  "response_id msg =
     (case rr_ID msg of
        None \<Rightarrow> None
      | Some v \<Rightarrow> (case upd_int v (0, False) of (i, e) \<Rightarrow> if e then None else Some i))"

definition rpcRequest :: "int \<Rightarrow> string \<Rightarrow> json option \<Rightarrow> json" where
  "rpcRequest i method params =
     JObj ([(''jsonrpc'', JStr ''2.0''), (''id'', JNum i), (''method'', JStr method)]
           @ (case params of None \<Rightarrow> [] | Some p \<Rightarrow> [(''params'', p)]))"

definition notification :: "string \<Rightarrow> json option \<Rightarrow> json" where
  "notification method params =
     JObj ([(''jsonrpc'', JStr ''2.0''), (''method'', JStr method)]
           @ (case params of None \<Rightarrow> [] | Some p \<Rightarrow> [(''params'', p)]))"

text \<open>A \<open>map[string]any\<close> member.\<close>

fun upd_anymap :: "json \<Rightarrow> members \<times> bool \<Rightarrow> members \<times> bool" where
  "upd_anymap (JObj ms) (ms0, e) = (ms0 @ ms, e)"
| "upd_anymap JNull (_, e) = ([], e)"
| "upd_anymap _ (ms, e) = (ms, True)"

definition get_anymap :: "string \<Rightarrow> members \<Rightarrow> members \<times> bool" where
  "get_anymap = decode_field upd_anymap []"

section \<open>Calls\<close>

definition markBroken :: "goerr \<Rightarrow> 'a acpRuntime_scheme \<Rightarrow> 'a acpRuntime_scheme" where
  "markBroken err r = r\<lparr>ar_readErr := Some err, ar_state := StateBroken\<rparr>"

definition stdin_closed :: "string \<Rightarrow> goerr" where
  "stdin_closed name = errorf (name @ '' stdin is closed'')"

definition rpc_begin ::
  "string \<Rightarrow> nat \<Rightarrow> string \<Rightarrow> json option \<Rightarrow> 'a acpRuntime_scheme \<Rightarrow> (goerr + int) \<times> 'a acpRuntime_scheme" where
  "rpc_begin name c method params r =
     (let i = ar_nextID r + 1; r1 = r\<lparr>ar_nextID := i\<rparr> in
      if \<not> ar_stdin r1 then (Inl (stdin_closed name), r1)
      else (Inr i, r1\<lparr>ar_pending := i # ar_pending r1,
                      ar_calls := (ar_calls r1)(i \<mapsto> CallWriting c (json_text (rpcRequest i method params)))\<rparr>))"

text \<open>The write does not look at \<open>stdin\<close> again: a runtime closed by now has none, and Go panics.\<close>

definition rpc_write :: "string \<Rightarrow> goerr option \<Rightarrow> int \<Rightarrow> 'a acpRuntime_scheme \<Rightarrow> 'a acpRuntime_scheme option" where
  "rpc_write name werr i r =
     (case ar_calls r i of
        Some (CallWriting c line) \<Rightarrow>
          Some (if \<not> ar_stdin r then r\<lparr>ar_calls := (ar_calls r)(i \<mapsto> CallPanicked)\<rparr>
                else case werr of
                       Some err \<Rightarrow>
                         r\<lparr>ar_calls := (ar_calls r)(i \<mapsto> CallLeaving (Inl (wrapf (''write '' @ name @ '' request: '') err [])))\<rparr>
                     | None \<Rightarrow> r\<lparr>ar_out := ar_out r @ [line], ar_calls := (ar_calls r)(i \<mapsto> CallWaiting c)\<rparr>)
      | _ \<Rightarrow> None)"

definition ctx_err :: "'a acpRuntime_scheme \<Rightarrow> nat \<Rightarrow> goerr option" where
  "ctx_err r c = (if c < length (ar_ctxs r) then ar_ctxs r ! c else None)"

definition rpc_ctx_done :: "int \<Rightarrow> 'a acpRuntime_scheme \<Rightarrow> 'a acpRuntime_scheme option" where
  "rpc_ctx_done i r =
     (case ar_calls r i of
        Some (CallWaiting c) \<Rightarrow>
          map_option (\<lambda>err. r\<lparr>ar_calls := (ar_calls r)(i \<mapsto> CallLeaving (Inl err))\<rparr>) (ctx_err r c)
      | _ \<Rightarrow> None)"

definition or_text :: "string \<Rightarrow> string \<Rightarrow> string" where
  "or_text a b = (if a = [] then b else a)"

definition reply_result :: "string \<Rightarrow> rpcResponse \<Rightarrow> goerr + json option" where
  "reply_result stderr resp =
     (case rr_Error resp of
        Some message \<Rightarrow> Inl (errorf (or_text (or_text (TrimSpace message) (TrimSpace stderr)) ''unknown ACP error''))
      | None \<Rightarrow> Inr (rr_Result resp))"

definition rpc_reply :: "int \<Rightarrow> 'a acpRuntime_scheme \<Rightarrow> 'a acpRuntime_scheme option" where
  "rpc_reply i r =
     (case (ar_calls r i, ar_replies r i) of
        (Some (CallWaiting _), Some resp) \<Rightarrow>
          Some (r\<lparr>ar_replies := (ar_replies r)(i := None),
                  ar_calls := (ar_calls r)(i \<mapsto> CallLeaving (reply_result (ar_stderr r) resp))\<rparr>)
      | _ \<Rightarrow> None)"

definition rpc_leave :: "int \<Rightarrow> 'a acpRuntime_scheme \<Rightarrow> 'a acpRuntime_scheme option" where
  "rpc_leave i r =
     (case ar_calls r i of
        Some (CallLeaving res) \<Rightarrow>
          Some (r\<lparr>ar_pending := filter (\<lambda>j. j \<noteq> i) (ar_pending r), ar_calls := (ar_calls r)(i \<mapsto> CallReturned res)\<rparr>)
      | _ \<Rightarrow> None)"

definition write_line :: "json \<Rightarrow> 'a acpRuntime_scheme \<Rightarrow> 'a acpRuntime_scheme" where
  "write_line v r = r\<lparr>ar_out := ar_out r @ [json_text v]\<rparr>"

definition acp_notify ::
  "string \<Rightarrow> goerr option \<Rightarrow> string \<Rightarrow> json option \<Rightarrow> 'a acpRuntime_scheme \<Rightarrow> goerr option \<times> 'a acpRuntime_scheme" where
  "acp_notify name werr method params r =
     (if \<not> ar_stdin r then (Some (stdin_closed name), r)
      else case werr of
             Some err \<Rightarrow> (Some err, r)
           | None \<Rightarrow> (None, write_line (notification method params) r))"

text \<open>What the goroutine inside \<open>rpc\<close> returns, once it does.\<close>

definition call_result :: "int \<Rightarrow> 'a acpRuntime_scheme \<Rightarrow> (goerr + json option) option" where
  "call_result i r = (case ar_calls r i of Some (CallReturned res) \<Rightarrow> Some res | _ \<Rightarrow> None)"

section \<open>Contexts\<close>

definition new_ctx :: "'a acpRuntime_scheme \<Rightarrow> nat \<times> 'a acpRuntime_scheme" where
  "new_ctx r = (length (ar_ctxs r), r\<lparr>ar_ctxs := ar_ctxs r @ [None]\<rparr>)"

text \<open>A context becomes done once, by its deadline or by being cancelled.\<close>

definition deadline_exceeded :: goerr where
  "deadline_exceeded = \<lparr>err_msg = ''context deadline exceeded'', err_wraps = [DeadlineExceeded]\<rparr>"

definition context_canceled :: goerr where
  "context_canceled = \<lparr>err_msg = ''context canceled'', err_wraps = [Canceled]\<rparr>"

definition end_ctx :: "nat \<Rightarrow> goerr \<Rightarrow> 'a acpRuntime_scheme \<Rightarrow> 'a acpRuntime_scheme" where
  "end_ctx c err r =
     (if c < length (ar_ctxs r) \<and> ar_ctxs r ! c = None then r\<lparr>ar_ctxs := (ar_ctxs r)[c := Some err]\<rparr> else r)"

text \<open>The deferred \<open>cancel\<close> of a context that was derived to give it a timeout.\<close>

definition cancel_derived :: "bool \<Rightarrow> nat \<Rightarrow> 'a acpRuntime_scheme \<Rightarrow> 'a acpRuntime_scheme" where
  "cancel_derived derived c r = (if derived then end_ctx c context_canceled r else r)"

section \<open>Turns\<close>

text \<open>What a turn was asked: its context, whether it was derived, the prompt and directory, the callback.\<close>

record turn =
  tn_ctx :: nat
  tn_derived :: bool
  tn_prompt :: string
  tn_workDir :: string
  tn_progress :: bool

definition turn_workDir :: "spec \<Rightarrow> request \<Rightarrow> string" where
  "turn_workDir sp req = or_text (TrimSpace (rq_WorkDir req)) (TrimSpace (sp_WorkDir sp))"

text \<open>The start of \<open>Run\<close>: refused with an error, or a turn of a runtime that is now running.\<close>

definition turn_begin ::
  "string \<Rightarrow> goctx \<Rightarrow> request \<Rightarrow> 'a acpRuntime_scheme \<Rightarrow> (goerr + turn) \<times> 'a acpRuntime_scheme" where
  "turn_begin name ctx req r =
     (let prompt = TrimSpace (rq_Prompt req) in
      if prompt = [] then (Inl (errorf (name @ '' request prompt is required'')), r)
      else if ar_state r = StateBroken
      then (Inl (case ar_readErr r of None \<Rightarrow> errorf (name @ '' runtime is broken'') | Some err \<Rightarrow> err), r)
      else (case new_ctx r of
              (c, r1) \<Rightarrow>
                (Inr \<lparr>tn_ctx = c, tn_derived = (cx_deadline ctx = None \<and> sp_Timeout (ar_spec r) > 0), tn_prompt = prompt,
                      tn_workDir = turn_workDir (ar_spec r) req, tn_progress = rq_OnProgress req\<rparr>,
                 r1\<lparr>ar_state := StateRunning\<rparr>)))"

section \<open>The channel of a turn\<close>

definition turnBuffer :: nat where "turnBuffer = 256"

definition the_chan :: "'a acpRuntime_scheme \<Rightarrow> nat \<Rightarrow> chan" where
  "the_chan r c = (if c < length (ar_chans r) then ar_chans r ! c else \<lparr>ch_sent = [], ch_taken = 0\<rparr>)"

definition has_room :: "'a acpRuntime_scheme \<Rightarrow> nat \<Rightarrow> bool" where
  "has_room r c \<longleftrightarrow> c < length (ar_chans r) \<and> length (queued (the_chan r c)) < turnBuffer"

definition put_event :: "nat \<Rightarrow> turnEvent \<Rightarrow> 'a acpRuntime_scheme \<Rightarrow> 'a acpRuntime_scheme" where
  "put_event c ev r = r\<lparr>ar_chans := (ar_chans r)[c := (the_chan r c)\<lparr>ch_sent := ch_sent (the_chan r c) @ [ev]\<rparr>]\<rparr>"

text \<open>\<open>select { case ch <- ev: default: }\<close>.\<close>

definition offer_event :: "nat \<Rightarrow> turnEvent \<Rightarrow> 'a acpRuntime_scheme \<Rightarrow> 'a acpRuntime_scheme" where
  "offer_event c ev r = (if has_room r c then put_event c ev r else r)"

text \<open>
  An event of a session reaches the turn that is active, unless it names another session: the channel
  is chosen under the mutex and given the event after it.
\<close>

definition dispatch_target :: "string \<Rightarrow> 'a acpRuntime_scheme \<Rightarrow> nat option" where
  "dispatch_target sid r =
     (if sid \<noteq> [] \<and> ar_activeSession r \<noteq> [] \<and> sid \<noteq> ar_activeSession r then None else ar_activeCh r)"

definition acp_dispatch :: "string \<Rightarrow> turnEvent \<Rightarrow> 'a acpRuntime_scheme \<Rightarrow> 'a acpRuntime_scheme" where
  "acp_dispatch sid ev r = (case dispatch_target sid r of None \<Rightarrow> r | Some c \<Rightarrow> offer_event c ev r)"

definition report_progress :: "nat \<Rightarrow> progressEvent \<Rightarrow> 'a acpRuntime_scheme \<Rightarrow> 'a acpRuntime_scheme" where
  "report_progress c ev r = r\<lparr>ar_progress := ar_progress r @ [(c, ev)]\<rparr>"

definition dispatchProgress :: "progressEvent \<Rightarrow> 'a acpRuntime_scheme \<Rightarrow> 'a acpRuntime_scheme" where
  "dispatchProgress ev r = (case ar_activeProgress r of None \<Rightarrow> r | Some c \<Rightarrow> report_progress c ev r)"

definition open_turn :: "string \<Rightarrow> bool \<Rightarrow> 'a acpRuntime_scheme \<Rightarrow> 'a acpRuntime_scheme" where
  "open_turn sid onProgress r =
     (let c = length (ar_chans r) in
      r\<lparr>ar_chans := ar_chans r @ [\<lparr>ch_sent = [], ch_taken = 0\<rparr>], ar_activeSession := sid, ar_activeCh := Some c,
        ar_activeProgress := (if onProgress then Some c else None)\<rparr>)"

definition close_turn :: "nat \<Rightarrow> 'a acpRuntime_scheme \<Rightarrow> 'a acpRuntime_scheme" where
  "close_turn c r =
     (if ar_activeCh r = Some c
      then r\<lparr>ar_activeCh := None, ar_activeSession := [], ar_activeProgress := None\<rparr> else r)"

text \<open>What the loop of \<open>Run\<close> makes of an event, with the parts of the answer it has so far.\<close>

datatype eventOutcome = TurnContinues "string list" | TurnFails goerr | TurnEmpty | TurnAnswers string

definition add_parts :: "turnEvent \<Rightarrow> string list \<Rightarrow> string list" where
  "add_parts ev parts =
     parts @ (if te_Delta ev \<noteq> [] then [te_Delta ev] else []) @ (if te_Text ev \<noteq> [] then [te_Text ev] else [])"

definition event_outcome :: "turnEvent \<Rightarrow> string list \<Rightarrow> eventOutcome" where
  "event_outcome ev parts =
     (case te_Err ev of
        Some err \<Rightarrow> TurnFails err
      | None \<Rightarrow>
          if te_Kind ev = ''completed''
          then (let answer = TrimSpace (concat (add_parts ev parts)) in
                if answer = [] then TurnEmpty else TurnAnswers answer)
          else TurnContinues (add_parts ev parts))"

definition take_event :: "nat \<Rightarrow> 'a acpRuntime_scheme \<Rightarrow> (turnEvent \<times> 'a acpRuntime_scheme) option" where
  "take_event c r =
     (case queued (the_chan r c) of
        [] \<Rightarrow> None
      | ev # _ \<Rightarrow>
          Some (ev, r\<lparr>ar_chans := (ar_chans r)[c := (the_chan r c)\<lparr>ch_taken := ch_taken (the_chan r c) + 1\<rparr>]\<rparr>))"

definition set_ready :: "'a acpRuntime_scheme \<Rightarrow> 'a acpRuntime_scheme" where
  "set_ready r = (if ar_state r \<noteq> StateBroken then r\<lparr>ar_state := StateReady\<rparr> else r)"

text \<open>The loop of \<open>Run\<close> receiving an event: it goes on, has an answer, or returns an error.\<close>

datatype turnNext = NextLoop "string list" | NextAnswer string | NextReturn goerr

definition turn_receive ::
  "string \<Rightarrow> string \<Rightarrow> nat \<Rightarrow> string list \<Rightarrow> 'a acpRuntime_scheme \<Rightarrow> (turnNext \<times> 'a acpRuntime_scheme) option" where
  "turn_receive name what c parts r =
     (case take_event c r of
        None \<Rightarrow> None
      | Some (ev, r1) \<Rightarrow>
          Some (case event_outcome ev parts of
                  TurnContinues parts1 \<Rightarrow> (NextLoop parts1, r1)
                | TurnFails err \<Rightarrow> (NextReturn (wrapf (name @ '' '' @ what @ '' failed: '') err []), markBroken err r1)
                | TurnEmpty \<Rightarrow>
                    (let err = errorf (name @ '' returned empty response'') in (NextReturn err, markBroken err r1))
                | TurnAnswers answer \<Rightarrow> (NextAnswer answer, set_ready r1)))"

definition acp_answer :: "string \<Rightarrow> string \<Rightarrow> 'a acpRuntime_scheme \<Rightarrow> response" where
  "acp_answer runtimeType answer r =
     \<lparr>rs_Text = answer, rs_RuntimeType = runtimeType, rs_ExitCode = 0, rs_Duration = 0, rs_RawOutput = answer,
      rs_SessionID = ar_sessionID r\<rparr>"

definition acp_classifyContextError :: "string \<Rightarrow> goerr \<Rightarrow> goerr" where
  "acp_classifyContextError name err =
     (if errors_Is err DeadlineExceeded then wrapf (name @ '' timed out: '') err []
      else if errors_Is err Canceled then wrapf (name @ '' canceled: '') err []
      else err)"

text \<open>The loop of \<open>Run\<close> when its context is done.\<close>

definition turn_ctx_done :: "string \<Rightarrow> nat \<Rightarrow> 'a acpRuntime_scheme \<Rightarrow> (turnNext \<times> 'a acpRuntime_scheme) option" where
  "turn_ctx_done name c r =
     map_option (\<lambda>e. let err = acp_classifyContextError name e in (NextReturn err, markBroken err r)) (ctx_err r c)"

section \<open>The reader\<close>

text \<open>
  A line of the process: an answer to a call is handed to it, which may block; for the other messages
  \<open>handle\<close> tells what its driver does, given the method, the parameters and the line.
\<close>

definition handling :: "readerOp list \<Rightarrow> readerState" where
  "handling ops = (if ops = [] then Reading else Handling ops)"

definition read_line ::
  "(string \<Rightarrow> json option \<Rightarrow> string \<Rightarrow> readerOp list) \<Rightarrow> string \<Rightarrow> 'a acpRuntime_scheme \<Rightarrow> 'a acpRuntime_scheme option" where
  "read_line handle scanned r0 =
     (if ar_reader r0 \<noteq> Reading then None
      else
        let line = TrimSpace scanned; r = r0\<lparr>ar_in := ar_in r0 @ [line]\<rparr> in
        Some (if line = [] then r
              else case decode_line line of
                     None \<Rightarrow> r
                   | Some msg \<Rightarrow>
                       if rr_Method msg = [] \<and> rr_ID msg \<noteq> None
                       then (case response_id msg of
                               None \<Rightarrow> r
                             | Some i \<Rightarrow> if i \<in> set (ar_pending r) then r\<lparr>ar_reader := Sending i msg\<rparr> else r)
                       else r\<lparr>ar_reader := handling (handle (rr_Method msg) (rr_Params msg) line)\<rparr>))"

text \<open>
  A step of a handler, with what it has to do next.  \<open>tool\<close> is how the driver keeps the tool calls it
  has seen, and \<open>ok\<close> whether a write to the process succeeds, whose error is ignored.
\<close>

fun handler_op ::
  "(string \<Rightarrow> 'a acpRuntime_scheme \<Rightarrow> bool \<times> 'a acpRuntime_scheme) \<Rightarrow> bool \<Rightarrow> readerOp \<Rightarrow> 'a acpRuntime_scheme \<Rightarrow>
   readerOp list \<times> 'a acpRuntime_scheme" where
  "handler_op tool ok (OpDispatch sid ev) r =
     (case dispatch_target sid r of None \<Rightarrow> [] | Some c \<Rightarrow> [OpSend c ev], r)"
| "handler_op tool ok (OpSend c ev) r = ([], offer_event c ev r)"
| "handler_op tool ok (OpTool i shown) r =
     (case tool i r of (seen, r1) \<Rightarrow> (case shown of None \<Rightarrow> [] | Some pe \<Rightarrow> if seen then [] else [OpProgress pe], r1))"
| "handler_op tool ok (OpProgress pe) r =
     (case ar_activeProgress r of None \<Rightarrow> [] | Some c \<Rightarrow> [OpReport c pe], r)"
| "handler_op tool ok (OpReport c pe) r = ([], report_progress c pe r)"
| "handler_op tool ok (OpAnswer v) r = ([], if ar_stdin r \<and> ok then write_line v r else r)"

definition handler_next ::
  "(string \<Rightarrow> 'a acpRuntime_scheme \<Rightarrow> bool \<times> 'a acpRuntime_scheme) \<Rightarrow> bool \<Rightarrow> 'a acpRuntime_scheme \<Rightarrow> 'a acpRuntime_scheme option" where
  "handler_next tool ok r =
     (case ar_reader r of
        Handling (op # ops) \<Rightarrow>
          (case handler_op tool ok op r of (todo, r1) \<Rightarrow> Some (r1\<lparr>ar_reader := handling (todo @ ops)\<rparr>))
      | _ \<Rightarrow> None)"

definition eof :: goerr where "eof = errorf ''EOF''"

text \<open>The end of the input, or the error the scanner stops at.\<close>

definition read_end :: "string \<Rightarrow> goerr option \<Rightarrow> 'a acpRuntime_scheme \<Rightarrow> 'a acpRuntime_scheme option" where
  "read_end name scanErr r =
     (if ar_reader r \<noteq> Reading then None
      else
        let err = (case scanErr of None \<Rightarrow> eof | Some e \<Rightarrow> e) in
        Some ((markBroken (wrapf (name @ '' read failed: '') err []) r)\<lparr>ar_reader := ReadFailed err\<rparr>))"

definition failure_response :: "goerr \<Rightarrow> rpcResponse" where
  "failure_response err =
     \<lparr>rr_ID = None, rr_Method = [], rr_Result = None, rr_Error = Some (err_msg err), rr_Params = None\<rparr>"

text \<open>The other steps of the reader; \<open>None\<close> while it is blocked on a full channel.\<close>

definition reader_next :: "'a acpRuntime_scheme \<Rightarrow> 'a acpRuntime_scheme option" where
  "reader_next r =
     (case ar_reader r of
        Sending i msg \<Rightarrow>
          if ar_replies r i = None then Some (r\<lparr>ar_replies := (ar_replies r)(i \<mapsto> msg), ar_reader := Reading\<rparr>) else None
      | ReadFailed err \<Rightarrow> Some (r\<lparr>ar_reader := Failing (ar_pending r) (ar_activeCh r) err\<rparr>)
      | Failing (i # is) ch err \<Rightarrow>
          if ar_replies r i = None
          then Some (r\<lparr>ar_replies := (ar_replies r)(i \<mapsto> failure_response err), ar_reader := Failing is ch err\<rparr>) else None
      | Failing [] ch err \<Rightarrow>
          Some ((case ch of
                   None \<Rightarrow> r
                 | Some c \<Rightarrow> offer_event c (empty_event\<lparr>te_Kind := ''error'', te_Err := Some err\<rparr>) r)\<lparr>ar_reader := ReaderDone\<rparr>)
      | _ \<Rightarrow> None)"

section \<open>Permissions\<close>

definition permission_option :: "string list \<Rightarrow> (string \<times> string) list \<Rightarrow> string" where
  "permission_option kinds opts = (case find (\<lambda>(_, k). k \<in> set kinds) opts of Some (i, _) \<Rightarrow> i | None \<Rightarrow> ''allow'')"

definition permission_fields :: "members \<Rightarrow> (json option \<times> (string \<times> string) list) \<times> bool" where
  "permission_fields ms =
     (let (i, e1) = get_raw ''id'' ms; (ps, e2) = get_struct ''params'' ms; (os, e3) = get_list ''options'' ps;
          (opts, e4) = decode_elems (\<lambda>m. let (oid, f1) = get_str ''optionId'' m; (k, f2) = get_str ''kind'' m
                                          in ((oid, k), f1 \<or> f2)) os
      in ((i, opts), e1 \<or> e2 \<or> e3 \<or> e4))"

definition permission_answer :: "json option \<Rightarrow> string \<Rightarrow> json" where
  "permission_answer i optionID =
     JObj [(''id'', case i of None \<Rightarrow> JNull | Some v \<Rightarrow> v), (''jsonrpc'', JStr ''2.0''),
           (''result'', JObj [(''outcome'', JObj [(''optionId'', JStr optionID), (''outcome'', JStr ''selected'')])])]"

definition answer_permission :: "string list \<Rightarrow> string \<Rightarrow> readerOp list" where
  "answer_permission kinds line =
     (case unmarshal_value permission_fields (json_parse line) of
        None \<Rightarrow> []
      | Some (i, opts) \<Rightarrow> [OpAnswer (permission_answer i (permission_option kinds opts))])"

section \<open>Closing\<close>

text \<open>
  \<open>Close\<close>; \<open>wait\<close> is the error of \<open>cmd.Wait\<close> with whether it is one of those that are expected of
  a process just killed.
\<close>

definition acp_Close :: "string \<Rightarrow> (goerr \<times> bool) option \<Rightarrow> 'a acpRuntime_scheme \<Rightarrow> goerr option \<times> 'a acpRuntime_scheme" where
  "acp_Close name wait r =
     (if ar_closed r then (None, r)
      else
        (if \<not> ar_cmd r then None else case wait of Some (err, expected) \<Rightarrow> if expected then None else Some err | None \<Rightarrow> None,
         r\<lparr>ar_closed := True, ar_stdin := False, ar_cmd := False, ar_state := StateBroken,
           ar_readErr := Some (errorf (name @ '' runtime is closed''))\<rparr>))"

section \<open>The process\<close>

text \<open>\<open>filepath.Base\<close>.\<close>

definition drop_slashes :: "string \<Rightarrow> string" where
  "drop_slashes s = rev (dropWhile (\<lambda>c. c = CHR ''/'') (rev s))"

definition path_Base :: "string \<Rightarrow> string" where
  "path_Base s =
     (if s = [] then ''.''
      else let p = drop_slashes s in if p = [] then ''/'' else rev (takeWhile (\<lambda>c. c \<noteq> CHR ''/'') (rev p)))"

text \<open>What \<open>exec.CommandContext\<close> is given; \<open>None\<close> for a directory or environment that is inherited.\<close>

record execCmd =
  xc_Path :: string
  xc_Args :: "string list"
  xc_Dir :: "string option"
  xc_Env :: "string list option"

definition is_binary :: "string \<Rightarrow> string \<Rightarrow> bool" where
  "is_binary binary command =
     (let base = ToLower (path_Base (TrimSpace command)) in base = binary \<or> base = binary @ ''.exe'')"

definition with_subcommand :: "string \<Rightarrow> string \<Rightarrow> string \<Rightarrow> string list \<Rightarrow> bool \<Rightarrow> string list" where
  "with_subcommand binary sub command args realCLI =
     (if \<not> is_binary binary command \<and> \<not> realCLI then args
      else if sub \<in> set args then args
      else sub # args)"

definition spec_args :: "spec \<Rightarrow> string list" where
  "spec_args sp = (case sp_Args sp of None \<Rightarrow> [] | Some as \<Rightarrow> as)"

definition spec_env :: "spec \<Rightarrow> strmap" where
  "spec_env sp = (case sp_Env sp of None \<Rightarrow> [] | Some env \<Rightarrow> env)"

definition nonblank :: "string \<Rightarrow> string option" where
  "nonblank s = (if TrimSpace s = [] then None else Some (TrimSpace s))"

text \<open>The command of \<open>Init\<close>; the environment is added to the inherited one.\<close>

definition acp_command :: "string \<Rightarrow> (string \<Rightarrow> string list \<Rightarrow> bool \<Rightarrow> string list) \<Rightarrow> spec \<Rightarrow> goerr + execCmd" where
  "acp_command name buildArgs sp =
     (if TrimSpace (sp_Command sp) = [] then Inl (errorf (name @ '' driver requires command''))
      else Inr \<lparr>xc_Path = sp_Command sp, xc_Args = buildArgs (sp_Command sp) (spec_args sp) (sp_RealCLI sp),
                xc_Dir = nonblank (sp_WorkDir sp),
                xc_Env = (if FlattenEnv (spec_env sp) = [] then None else Some (FlattenEnv (spec_env sp)))\<rparr>)"

text \<open>The errors of the two pipes and of the start of the process.\<close>

fun start_error :: "string \<Rightarrow> goerr option \<Rightarrow> goerr option \<Rightarrow> goerr option \<Rightarrow> goerr option" where
  "start_error name (Some err) _ _ = Some (wrapf (name @ '' stdin pipe: '') err [])"
| "start_error name None (Some err) _ = Some (wrapf (name @ '' stdout pipe: '') err [])"
| "start_error name None None (Some err) = Some (wrapf (''start '' @ name @ '': '') err [])"
| "start_error name None None None = None"

definition started_runtime :: "spec \<Rightarrow> 'a \<Rightarrow> 'a acpRuntime_scheme" where
  "started_runtime sp rest =
     \<lparr>ar_spec = sp, ar_stdin = True, ar_cmd = True, ar_state = StateStarting, ar_readErr = None, ar_closed = False,
      ar_nextID = 0, ar_pending = [], ar_replies = \<lambda>_. None, ar_calls = \<lambda>_. None, ar_reader = Reading, ar_stderr = [],
      ar_sessionID = [], ar_sessionWorkDir = [], ar_activeSession = [], ar_activeCh = None, ar_activeProgress = None,
      ar_chans = [], ar_ctxs = [None], ar_in = [], ar_out = [], ar_progress = [], \<dots> = rest\<rparr>"

text \<open>Where \<open>Init\<close> is; its context is the first one.\<close>

datatype initState = InitCall int | InitNotify | InitReady | InitDone | InitFailed goerr

definition initialize_params :: "(string \<times> json) list \<Rightarrow> json" where
  "initialize_params extra = JObj ((''clientInfo'', JObj [(''name'', JStr ''myclaw''), (''version'', JStr ''0.1.0'')]) # extra)"

definition init_next ::
  "string \<Rightarrow> goerr option \<Rightarrow> (goerr \<times> bool) option \<Rightarrow> initState \<times> 'a acpRuntime_scheme \<Rightarrow> (initState \<times> 'a acpRuntime_scheme) option" where
  "init_next name werr wait = (\<lambda>(pc, r). case pc of
       InitCall i \<Rightarrow>
         (case ar_calls r i of
            Some (CallReturned (Inl err)) \<Rightarrow>
              Some (InitFailed (wrapf (''initialize '' @ name @ '': '') err []), snd (acp_Close name wait r))
          | Some (CallReturned (Inr _)) \<Rightarrow> Some (InitNotify, r)
          | _ \<Rightarrow> None)
     | InitNotify \<Rightarrow>
         (case acp_notify name werr ''initialized'' None r of
            (Some err, r1) \<Rightarrow>
              Some (InitFailed (wrapf (''notify '' @ name @ '' initialized: '') err []), snd (acp_Close name wait r1))
          | (None, r1) \<Rightarrow> Some (InitReady, r1))
     | InitReady \<Rightarrow> Some (InitDone, r\<lparr>ar_state := StateReady\<rparr>)
     | _ \<Rightarrow> None)"

section \<open>Standard error\<close>

definition stderr_Write :: "string \<Rightarrow> 'a acpRuntime_scheme \<Rightarrow> 'a acpRuntime_scheme" where
  "stderr_Write p r =
     r\<lparr>ar_stderr := fold (\<lambda>line cur. let t = TrimSpace line in if t \<noteq> [] then t else cur) (split_on newline (TrimSpace p)) (ar_stderr r)\<rparr>"

end
