(* ===== verification/A2A.thy ===== *)
theory A2A
  imports HttpApi HttpClient Orchestration AcpCore
begin

text \<open>
  Remote agents: the A2A client of \<open>internal/app/orchestration/a2a_client.go\<close>, and the HTTP handlers
  with which agents register and report that they are alive (\<open>register_http.go\<close>).  The HTTP client,
  the ids and the clock are parameters.  Then what the client reads from the answers of an agent,
  and that the handlers and the sweep over stale agents fit together.
\<close>

section \<open>Messages\<close>

record a2aPart =
  pt_Kind :: string
  pt_Text :: string

definition a2aPart_fields :: "members \<Rightarrow> a2aPart \<times> bool" where
  "a2aPart_fields ms =
     (let (k, e1) = get_str ''kind'' ms; (t, e2) = get_str ''text'' ms in (\<lparr>pt_Kind = k, pt_Text = t\<rparr>, e1 \<or> e2))"

definition parts_field :: "members \<Rightarrow> a2aPart list \<times> bool" where
  "parts_field ms =
     (let (vs, e1) = get_list ''parts'' ms; (ps, e2) = decode_elems a2aPart_fields vs in (ps, e1 \<or> e2))"

text \<open>Of a message only its parts are used.\<close>

definition a2aMessage_fields :: "members \<Rightarrow> a2aPart list \<times> bool" where
  "a2aMessage_fields ms =
     (let (k, e1) = get_str ''kind'' ms; (r, e2) = get_str ''role'' ms; (i, e3) = get_str ''messageId'' ms;
          (ps, e4) = parts_field ms
      in (ps, e1 \<or> e2 \<or> e3 \<or> e4))"

definition a2aTask_fields :: "members \<Rightarrow> (a2aPart list \<times> a2aPart list list) \<times> bool" where
  "a2aTask_fields ms =
     (let (st, e1) = get_struct ''status'' ms; (m, e2) = get_struct ''message'' st; (ps, e3) = a2aMessage_fields m;
          (vs, e4) = get_list ''artifacts'' ms; (arts, e5) = decode_elems parts_field vs
      in ((ps, arts), e1 \<or> e2 \<or> e3 \<or> e4 \<or> e5))"

definition joinTextParts :: "a2aPart list \<Rightarrow> string" where
  "joinTextParts ps = concat (map pt_Text (filter (\<lambda>p. pt_Kind p = ''text'') ps))"

definition raw_text :: "json option \<Rightarrow> string" where
  "raw_text raw = (case raw of None \<Rightarrow> [] | Some v \<Rightarrow> json_text v)"

text \<open>A result is a message, or else a task with a message or artifacts.\<close>

definition task_text :: "a2aPart list \<times> a2aPart list list \<Rightarrow> string" where
  "task_text = (\<lambda>(ps, arts).
     if ps \<noteq> [] then joinTextParts ps
     else case find (\<lambda>qs. qs \<noteq> []) arts of Some qs \<Rightarrow> joinTextParts qs | None \<Rightarrow> [])"

definition extractText :: "'w httpEnv \<Rightarrow> json option \<Rightarrow> goerr + string" where
  "extractText env raw =
     (case unmarshal_value a2aMessage_fields raw of
        Some (p # ps) \<Rightarrow> Inr (joinTextParts (p # ps))
      | _ \<Rightarrow>
          (case unmarshal_value a2aTask_fields raw of
             None \<Rightarrow> Inl (wrapf ''unrecognized a2a result: '' (he_jsonError env (raw_text raw)) [])
           | Some t \<Rightarrow> Inr (task_text t)))"

section \<open>The client\<close>

definition a2a_request :: "string \<Rightarrow> string \<Rightarrow> string \<Rightarrow> json" where
  "a2a_request rpcID msgID prompt =
     JObj [(''jsonrpc'', JStr ''2.0''), (''id'', JStr rpcID), (''method'', JStr ''message/send''),
           (''params'', JObj [(''message'',
              JObj [(''kind'', JStr ''message''), (''role'', JStr ''user''), (''messageId'', JStr msgID),
                    (''parts'', JArr [JObj [(''kind'', JStr ''text''), (''text'', JStr prompt)]])])])]"

definition a2aResponse_fields :: "members \<Rightarrow> (json option \<times> (int \<times> string) option) \<times> bool" where
  "a2aResponse_fields ms =
     (let (r, e1) = get_raw ''result'' ms; (ep, e2) = get_ptr ''error'' ms;
          (err, e3) = (case ep of
                         None \<Rightarrow> (None, False)
                       | Some es \<Rightarrow> (case (get_int ''code'' es, get_str ''message'' es) of ((c, f1), (m, f2)) \<Rightarrow> (Some (c, m), f1 \<or> f2)))
      in ((r, err), e1 \<or> e2 \<or> e3))"

definition a2a_answer :: "'w httpEnv \<Rightarrow> httpAnswer \<Rightarrow> goerr + string" where
  "a2a_answer env = (\<lambda>(status, body).
     if status < 200 \<or> 300 \<le> status then Inl (errorf (''a2a endpoint returned '' @ Itoa status))
     else case body of
            Inl err \<Rightarrow> Inl (wrapf ''decode a2a response: '' err [])
          | Inr b \<Rightarrow>
              (case unmarshal_value a2aResponse_fields (json_first b) of
                 None \<Rightarrow> Inl (wrapf ''decode a2a response: '' (he_jsonError env b) [])
               | Some (_, Some (code, message)) \<Rightarrow> Inl (errorf (''a2a error '' @ Itoa code @ '': '' @ message))
               | Some (raw, None) \<Rightarrow> extractText env raw))"

definition a2a_headers :: "string \<Rightarrow> httpCall \<Rightarrow> httpCall" where
  "a2a_headers token req =
     (let req1 = set_header ''Content-Type'' ''application/json'' req
      in if token \<noteq> [] then set_header ''Authorization'' (''Bearer '' @ token) req1 else req1)"

definition a2a_call :: "'w httpEnv \<Rightarrow> string \<Rightarrow> string \<Rightarrow> json \<Rightarrow> ('w, string) io" where
  "a2a_call env endpoint token body =
     andThen (lift_sum (new_request env ''POST'' endpoint (Some (json_text body)) 0)) (\<lambda>req.
     attempt (he_Do env (a2a_headers token req)) (\<lambda>res. case res of
         Inl err \<Rightarrow> return_err (wrapf ''a2a request: '' err [])
       | Inr answer \<Rightarrow> lift_sum (a2a_answer env answer)))"

definition a2a_Run :: "'w goenv \<Rightarrow> 'w httpEnv \<Rightarrow> registeredAgent \<Rightarrow> string \<Rightarrow> ('w, string) io" where
  "a2a_Run genv env a prompt =
     andThen (fresh_id genv ''rpc'') (\<lambda>rpcID.
     andThen (fresh_id genv ''msg'') (\<lambda>msgID.
     a2a_call env (ra_Endpoint a) (ra_AuthToken a) (a2a_request rpcID msgID prompt)))"

section \<open>Registration\<close>

record registerAgentRequest =
  rg_Name :: string
  rg_Description :: string
  rg_Endpoint :: string
  rg_AuthToken :: string

definition registerAgentRequest_fields :: "members \<Rightarrow> registerAgentRequest \<times> bool" where
  "registerAgentRequest_fields ms =
     (let (n, e1) = get_str ''name'' ms; (d, e2) = get_str ''description'' ms; (ep, e3) = get_str ''endpoint'' ms;
          (tk, e4) = get_str ''auth_token'' ms
      in (\<lparr>rg_Name = n, rg_Description = d, rg_Endpoint = ep, rg_AuthToken = tk\<rparr>, e1 \<or> e2 \<or> e3 \<or> e4))"

text \<open>The times of creation and update are left to the repository.\<close>

definition registration :: "string \<Rightarrow> int \<Rightarrow> registerAgentRequest \<Rightarrow> registeredAgent" where
  "registration i now req =
     \<lparr>ra_ID = i, ra_Name = rg_Name req, ra_Description = rg_Description req, ra_Kind = RegisteredAgentKindRemote,
      ra_BotID = [], ra_Endpoint = rg_Endpoint req, ra_AuthToken = rg_AuthToken req, ra_Health = RegisteredAgentHealthy,
      ra_LastHeartbeat = Some now, ra_CreatedAt = None, ra_UpdatedAt = None\<rparr>"

definition registered_json :: "registeredAgent \<Rightarrow> json" where
  "registered_json a = JObj [(''agent_id'', JStr (ra_ID a)), (''name'', JStr (ra_Name a))]"

definition RegisterHandler :: "'w goenv \<Rightarrow> 'w registeredAgentRepository \<Rightarrow> 'w handler" where
  "RegisterHandler env reg r w =
     (case decode_body registerAgentRequest_fields r of
        None \<Rightarrow> (WriteError r ''INVALID_ARGUMENT'' ''invalid request body'', w)
      | Some req \<Rightarrow>
          if TrimSpace (rg_Name req) = [] \<or> TrimSpace (rg_Endpoint req) = []
          then (WriteError r ''INVALID_ARGUMENT'' ''name and endpoint are required'', w)
          else (case ge_ULID env w of (u, w1) \<Rightarrow>
                  (case rar_Upsert reg (registration (NewPrefixedID u ''ra'') (ge_Now env w) req) w1 of
                     (Inl err, w2) \<Rightarrow> (WriteError r ''INTERNAL_ERROR'' (err_msg err), w2)
                   | (Inr stored, w2) \<Rightarrow> (WriteOKFromRequest r (registered_json stored), w2))))"

definition alive :: "int \<Rightarrow> registeredAgent \<Rightarrow> registeredAgent" where
  "alive now a = a\<lparr>ra_Health := RegisteredAgentHealthy, ra_LastHeartbeat := Some now\<rparr>"

definition HeartbeatHandler :: "'w goenv \<Rightarrow> 'w registeredAgentRepository \<Rightarrow> 'w handler" where
  "HeartbeatHandler env reg r w =
     (case decode_body (get_str ''name'') r of
        None \<Rightarrow> (WriteError r ''INVALID_ARGUMENT'' ''name is required'', w)
      | Some name \<Rightarrow>
          if TrimSpace name = [] then (WriteError r ''INVALID_ARGUMENT'' ''name is required'', w)
          else (case rar_GetByName reg name w of
                  (Inl _, w1) \<Rightarrow> (WriteError r ''NOT_FOUND'' ''agent not registered'', w1)
                | (Inr existing, w1) \<Rightarrow>
                    (case rar_Upsert reg (alive (ge_Now env w1) existing) w1 of
                       (Inl err, w2) \<Rightarrow> (WriteError r ''INTERNAL_ERROR'' (err_msg err), w2)
                     | (Inr _, w2) \<Rightarrow> (WriteOKFromRequest r (JObj [(''ok'', JBool True)]), w2))))"

section \<open>What is read from an answer\<close>

definition part_json :: "a2aPart \<Rightarrow> json" where
  "part_json p = JObj [(''kind'', JStr (pt_Kind p)), (''text'', JStr (pt_Text p))]"

definition parts_json :: "a2aPart list \<Rightarrow> json" where
  "parts_json ps = JArr (map part_json ps)"

definition message_json :: "string \<Rightarrow> a2aPart list \<Rightarrow> json" where
  "message_json i ps = JObj [(''kind'', JStr ''message''), (''role'', JStr ''agent''), (''messageId'', JStr i), (''parts'', parts_json ps)]"

definition task_json :: "string \<Rightarrow> a2aPart list \<Rightarrow> a2aPart list list \<Rightarrow> json" where
  "task_json i ps arts =
     JObj [(''id'', JStr i), (''kind'', JStr ''task''), (''status'', JObj [(''state'', JStr ''completed''), (''message'', message_json i ps)]),
           (''artifacts'', JArr (map (\<lambda>qs. JObj [(''artifactId'', JStr i), (''parts'', parts_json qs)]) arts))]"

definition response_json :: "string \<Rightarrow> json \<Rightarrow> json" where
  "response_json i v = JObj [(''jsonrpc'', JStr ''2.0''), (''id'', JStr i), (''result'', v)]"

text \<open>Strings that are well-formed UTF-8 go through JSON unchanged.\<close>

definition well_formed :: "a2aPart list \<Rightarrow> bool" where
  "well_formed ps \<longleftrightarrow> list_all (\<lambda>p. clean_utf8 (pt_Kind p) = pt_Kind p \<and> clean_utf8 (pt_Text p) = pt_Text p) ps"

lemmas field_simps_json = getters same_name_ascii lower_char_def

lemma decode_parts: "decode_elems a2aPart_fields (map part_json ps) = (ps, False)"
  by (induction ps) (simp_all add: decode_elems_def part_json_def a2aPart_fields_def field_simps_json)

lemma parts_field_json: "parts_field [(''artifactId'', JStr i), (''parts'', parts_json ps)] = (ps, False)"
  by (simp add: parts_field_def parts_json_def field_simps_json decode_parts [unfolded field_simps_json])

lemma message_members:
  "a2aMessage_fields [(''kind'', JStr ''message''), (''role'', JStr ''agent''), (''messageId'', JStr i), (''parts'', parts_json ps)] = (ps, False)"
  by (simp add: a2aMessage_fields_def parts_field_def parts_json_def field_simps_json decode_parts)

lemma decode_artifacts:
  "decode_elems parts_field (map (\<lambda>qs. JObj [(''artifactId'', JStr i), (''parts'', parts_json qs)]) arts) = (arts, False)"
  by (induction arts) (simp_all add: decode_elems_def parts_field_json)

lemma extract_message: "ps \<noteq> [] \<Longrightarrow> extractText env (Some (message_json i ps)) = Inr (joinTextParts ps)"
  by (cases ps) (simp_all add: extractText_def unmarshal_value_def message_json_def message_members)

lemma extract_task: "extractText env (Some (task_json i ps arts)) = Inr (task_text (ps, arts))"
proof -
  have "unmarshal_value a2aMessage_fields (Some (task_json i ps arts)) = Some []"
    by (simp add: unmarshal_value_def task_json_def a2aMessage_fields_def parts_field_def decode_elems_def field_simps_json)
  moreover have "unmarshal_value a2aTask_fields (Some (task_json i ps arts)) = Some (ps, arts)"
    by (simp add: unmarshal_value_def task_json_def a2aTask_fields_def field_simps_json decode_artifacts message_json_def message_members)
  ultimately show ?thesis by (simp add: extractText_def)
qed

lemma json_first_text: "texty v \<Longrightarrow> json_first (json_text v) = Some (clean_json v)"
  using value_round_trip [of v "2 * length (json_text v) + 1" "[]"] json_fuel_bound [of v] by (simp add: json_first_def)

lemma clean_parts: "well_formed ps \<Longrightarrow> texty (parts_json ps) \<and> clean_json (parts_json ps) = parts_json ps"
  by (simp add: parts_json_def well_formed_def list_all_iff part_json_def clean_utf8_ascii map_idI)

lemma clean_message:
  "well_formed ps \<Longrightarrow> clean_utf8 i = i \<Longrightarrow> texty (message_json i ps) \<and> clean_json (message_json i ps) = message_json i ps"
  using clean_parts by (simp add: message_json_def clean_utf8_ascii)

lemma clean_task:
  "well_formed ps \<Longrightarrow> list_all well_formed arts \<Longrightarrow> clean_utf8 i = i \<Longrightarrow>
   texty (task_json i ps arts) \<and> clean_json (task_json i ps arts) = task_json i ps arts"
  using clean_message [of ps i] clean_parts by (auto simp: task_json_def clean_utf8_ascii list_all_iff)

lemma answer_of_response:
  assumes "texty v" "clean_json v = v" "clean_utf8 i = i" "200 \<le> status" "status < 300"
  shows "a2a_answer env (status, Inr (json_text (response_json i v))) = extractText env (Some v)"
proof -
  have "texty (response_json i v)" "clean_json (response_json i v) = response_json i v"
    using assms(1-3) by (simp_all add: response_json_def clean_utf8_ascii)
  then have "unmarshal_value a2aResponse_fields (json_first (json_text (response_json i v))) = Some (Some v, None)"
    by (simp add: json_first_text del: json_text.simps)
       (simp add: unmarshal_value_def response_json_def a2aResponse_fields_def field_simps_json)
  then show ?thesis using assms(4,5) by (simp add: a2a_answer_def)
qed

lemma task_text_first: "(\<forall>qs \<in> set pre. qs = []) \<Longrightarrow> qs \<noteq> [] \<Longrightarrow> task_text ([], pre @ qs # post) = joinTextParts qs"
  by (induction pre) (auto simp: task_text_def)

lemma task_text_none: "(\<forall>qs \<in> set arts. qs = []) \<Longrightarrow> task_text ([], arts) = []"
  by (induction arts) (auto simp: task_text_def)

text \<open>
  C29. What an agent answers reaches the caller through the JSON text of its response: the texts of the parts
  of kind \<open>text\<close>, in order and joined, other parts left out.  The parts are those of a message that has
  some; of a task those of its status message if that has some, else those of the first artifact that
  has some, and if there is none the answer is empty.
\<close>

theorem a2a_reads_text_parts:
  assumes "well_formed ps" "list_all well_formed arts" "clean_utf8 i = i" "200 \<le> status" "status < 300"
  shows "(ps \<noteq> [] \<longrightarrow>
       a2a_answer env (status, Inr (json_text (response_json i (message_json i ps)))) = Inr (concat [pt_Text p. p \<leftarrow> ps, pt_Kind p = ''text'']))
    \<and> (ps \<noteq> [] \<longrightarrow>
       a2a_answer env (status, Inr (json_text (response_json i (task_json i ps arts)))) = Inr (concat [pt_Text p. p \<leftarrow> ps, pt_Kind p = ''text'']))
    \<and> (arts = pre @ qs # post \<longrightarrow> (\<forall>q \<in> set pre. q = []) \<longrightarrow> qs \<noteq> [] \<longrightarrow>
       a2a_answer env (status, Inr (json_text (response_json i (task_json i [] arts)))) = Inr (concat [pt_Text p. p \<leftarrow> qs, pt_Kind p = ''text'']))
    \<and> ((\<forall>q \<in> set arts. q = []) \<longrightarrow>
       a2a_answer env (status, Inr (json_text (response_json i (task_json i [] arts)))) = Inr [])"
proof -
  have join: "joinTextParts xs = concat [pt_Text p. p \<leftarrow> xs, pt_Kind p = ''text'']" for xs
    by (induction xs) (simp_all add: joinTextParts_def)
  have task: "a2a_answer env (status, Inr (json_text (response_json i (task_json i xs arts)))) = Inr (task_text (xs, arts))"
    if "well_formed xs" for xs
    using clean_task [OF that assms(2,3)] by (simp add: answer_of_response [OF _ _ assms(3-5)] extract_task del: json_text.simps)
  have none: "well_formed []" by (simp add: well_formed_def)
  have message: "ps \<noteq> [] \<Longrightarrow> a2a_answer env (status, Inr (json_text (response_json i (message_json i ps)))) = Inr (joinTextParts ps)"
    using clean_message [OF assms(1,3)] by (simp add: answer_of_response [OF _ _ assms(3-5)] extract_message del: json_text.simps)
  have status: "ps \<noteq> [] \<Longrightarrow> task_text (ps, arts) = joinTextParts ps" by (simp add: task_text_def)
  show ?thesis
    using task [OF assms(1)] task [OF none] message status task_text_first [of pre qs post] task_text_none [of arts]
    by (auto simp: join simp del: json_text.simps)
qed

text \<open>
  An agent whose heartbeat is accepted is stored as healthy with the time of the request, and no sweep
  within the given time marks it, whatever its kind.
\<close>

theorem heartbeat_keeps_alive:
  assumes "HeartbeatHandler env reg r w = (e, w2)" "env_Code e = ''OK''"
  shows "\<exists>name a w1 stored. decode_body (get_str ''name'') r = Some name \<and> rar_GetByName reg name w = (Inr a, w1)
    \<and> rar_Upsert reg (alive (ge_Now env w1) a) w1 = (Inr stored, w2) \<and> ra_ID (alive (ge_Now env w1) a) = ra_ID a
    \<and> (now - ge_Now env w1 \<le> ttl \<longrightarrow> \<not> sweep_due ttl now (alive (ge_Now env w1) a))"
  using assms
  by (auto simp: HeartbeatHandler_def WriteError_def alive_def sweep_due_def split: option.splits if_splits prod.splits sum.splits)

section \<open>Witnesses\<close>

definition sample_parts :: "a2aPart list" where
  "sample_parts = [\<lparr>pt_Kind = ''text'', pt_Text = ''a''\<rparr>, \<lparr>pt_Kind = ''file'', pt_Text = ''x''\<rparr>, \<lparr>pt_Kind = ''text'', pt_Text = ''b''\<rparr>]"

definition sample_artifacts :: "a2aPart list list" where
  "sample_artifacts = [[], [\<lparr>pt_Kind = ''text'', pt_Text = ''first''\<rparr>], [\<lparr>pt_Kind = ''text'', pt_Text = ''last''\<rparr>]]"

lemma a2a_reads_text_parts_witness:
  "a2a_answer (undefined :: unit httpEnv) (200, Inr (json_text (response_json ''r'' (message_json ''r'' sample_parts)))) = Inr ''ab''
   \<and> a2a_answer (undefined :: unit httpEnv) (200, Inr (json_text (response_json ''r'' (task_json ''r'' [] sample_artifacts)))) = Inr ''first''"
proof -
  have "well_formed sample_parts" "list_all well_formed sample_artifacts" "clean_utf8 ''r'' = ''r''"
    by (simp_all add: sample_parts_def sample_artifacts_def well_formed_def clean_utf8_ascii)
  from a2a_reads_text_parts [OF this, where status = 200 and env = "undefined :: unit httpEnv" and pre = "[[]]"
      and qs = "[\<lparr>pt_Kind = ''text'', pt_Text = ''first''\<rparr>]" and post = "[[\<lparr>pt_Kind = ''text'', pt_Text = ''last''\<rparr>]]"]
  show ?thesis
    by (simp add: sample_parts_def sample_artifacts_def del: json_text.simps)
qed

definition sample_agents :: "int registeredAgentRepository" where
  "sample_agents =
     \<lparr>rar_Upsert = return_ok, rar_GetByID = (\<lambda>_. return_err (errorf ''none'')),
      rar_GetByName = (\<lambda>n. return_ok (registration ''a1'' 0 \<lparr>rg_Name = n, rg_Description = [], rg_Endpoint = ''e'', rg_AuthToken = []\<rparr>)),
      rar_List = return_ok [], rar_DeleteByID = (\<lambda>_. return_ok ())\<rparr>"

definition sample_heartbeat :: httpRequest where
  "sample_heartbeat = \<lparr>hq_requestID = ''r'', hq_body = Some (JObj [(''name'', JStr ''n'')]), hq_rawQuery = []\<rparr>"

lemma heartbeat_keeps_alive_witness:
  "\<exists>a. \<not> sweep_due 10 15 a \<and> ra_LastHeartbeat a = Some 7"
proof -
  let ?env = "\<lparr>ge_Now = \<lambda>w. w, ge_ULID = \<lambda>w. (''u'', w)\<rparr> :: int goenv"
  obtain e w2 where h: "HeartbeatHandler ?env sample_agents sample_heartbeat 7 = (e, w2)" by fastforce
  then have "env_Code e = ''OK''"
    by (auto simp: HeartbeatHandler_def sample_heartbeat_def sample_agents_def decode_body_def field_simps_json return_ok_def
        TrimSpace_plain plain_char_def WriteOKFromRequest_def WriteOK_def)
  from heartbeat_keeps_alive [OF h this, of 15 10] show ?thesis
    by (auto simp: sample_agents_def return_ok_def alive_def)
qed

end
