(* ===== verification/A2AServer.thy ===== *)
theory A2AServer
  imports Boo A2A Services
begin

text \<open>
  The A2A MCP server, \<open>mcps/a2a/a2a.go\<close> and the handlers of \<open>mcps/a2a/main.go\<close>: the configured
  sources, the live boo sessions they stand for, and dispatching a prompt to one of them, over HTTP or
  by typing it into a terminal.  The file system, the environment, the boo program, random bytes and the
  HTTP client are parameters.  Then that names resolve to one server, and what a dispatch to a terminal
  gives back.
\<close>

section \<open>Sources\<close>

definition kindHTTP :: string where "kindHTTP = ''http''"
definition kindBoo :: string where "kindBoo = ''boo''"

record source =
  sc_Kind :: string
  sc_Name :: string
  sc_Description :: string
  sc_Endpoint :: string
  sc_AuthToken :: string
  sc_WaitTimeout :: string

definition source_fields :: "members \<Rightarrow> source \<times> bool" where
  "source_fields ms =
     (let (k, e1) = get_str ''kind'' ms; (n, e2) = get_str ''name'' ms; (d, e3) = get_str ''description'' ms;
          (ep, e4) = get_str ''endpoint'' ms; (t, e5) = get_str ''auth_token'' ms; (wt, e6) = get_str ''wait_timeout'' ms
      in (\<lparr>sc_Kind = k, sc_Name = n, sc_Description = d, sc_Endpoint = ep, sc_AuthToken = t, sc_WaitTimeout = wt\<rparr>,
          e1 \<or> e2 \<or> e3 \<or> e4 \<or> e5 \<or> e6))"

definition source_kind :: "source \<Rightarrow> string" where
  "source_kind s = (if sc_Kind s = [] then kindHTTP else sc_Kind s)"

record resolvedServer =
  rv_Name :: string
  rv_Description :: string
  rv_Kind :: string
  rv_Endpoint :: string
  rv_AuthToken :: string
  rv_Session :: string
  rv_WaitTimeout :: string

record 'w serverEnv = "'w booEnv" +
  sv_ReadFile :: "string \<Rightarrow> ('w, string) io"
  sv_Getenv :: "string \<Rightarrow> string"
  sv_HomeDir :: "goerr + string"
  sv_Rand :: "'w \<Rightarrow> nat list \<times> 'w"

definition loadSources :: "'w serverEnv \<Rightarrow> string \<Rightarrow> ('w, source list) io" where
  "loadSources env path =
     (if path = [] then return_ok []
      else attempt (sv_ReadFile env path) (\<lambda>res. case res of
             Inl err \<Rightarrow> return_err (wrapf (''read a2a config '' @ Quote path @ '': '') err [])
           | Inr data \<Rightarrow>
               (case unmarshal_list source_fields data of
                  None \<Rightarrow> return_err (wrapf (''parse a2a config '' @ Quote path @ '': '') (be_jsonError env data) [])
                | Some srcs \<Rightarrow> return_ok (case srcs of None \<Rightarrow> [] | Some xs \<Rightarrow> xs))))"

text \<open>The server starts without sources when they cannot be loaded.\<close>

definition server_sources :: "'w serverEnv \<Rightarrow> string \<Rightarrow> 'w \<Rightarrow> source list \<times> 'w" where
  "server_sources env path w = (case loadSources env path w of (Inl _, w1) \<Rightarrow> ([], w1) | (Inr srcs, w1) \<Rightarrow> (srcs, w1))"

section \<open>boo sessions\<close>

definition runBooCLI :: "'w serverEnv \<Rightarrow> string list \<Rightarrow> ('w, string \<times> int) io" where
  "runBooCLI env args w =
     (case be_Run env args w of
        (Ended out _ code, w1) \<Rightarrow> (Inr (out, code), w1)
      | (Failed _ err, w1) \<Rightarrow> (Inl err, w1))"

record booSession =
  bs_Name :: string
  bs_Title :: string
  bs_IdleMS :: int

definition booSession_fields :: "members \<Rightarrow> booSession \<times> bool" where
  "booSession_fields ms =
     (let (n, e1) = get_str ''name'' ms; (t, e2) = get_str ''title'' ms; (i, e3) = get_int ''idle_ms'' ms
      in (\<lparr>bs_Name = n, bs_Title = t, bs_IdleMS = i\<rparr>, e1 \<or> e2 \<or> e3))"

definition path_Dir :: "string \<Rightarrow> string" where
  "path_Dir s = path_Clean (rev (dropWhile (\<lambda>c. c \<noteq> CHR ''/'') (rev s)))"

definition booConfigDir :: "'w serverEnv \<Rightarrow> string" where
  "booConfigDir env =
     (if sv_Getenv env ''BOO_CONFIG'' \<noteq> [] then path_Dir (sv_Getenv env ''BOO_CONFIG'')
      else if sv_Getenv env ''XDG_CONFIG_HOME'' \<noteq> [] then path_Join [sv_Getenv env ''XDG_CONFIG_HOME'', ''boo'']
      else case sv_HomeDir env of Inl _ \<Rightarrow> ''.config/boo'' | Inr home \<Rightarrow> path_Join [home, ''.config'', ''boo''])"

definition booSessionCwd :: "'w serverEnv \<Rightarrow> string \<Rightarrow> 'w \<Rightarrow> string option \<times> 'w" where
  "booSessionCwd env session w =
     (case sv_ReadFile env (path_Join [booConfigDir env, session @ ''.state'']) w of
        (Inl _, w1) \<Rightarrow> (None, w1)
      | (Inr data, w1) \<Rightarrow> (let cwd = TrimSpace data in if cwd = [] then None else Some cwd, w1))"

definition strings_field :: "string \<Rightarrow> members \<Rightarrow> string list \<times> bool" where
  "strings_field n ms =
     (let (vs, e1) = get_list n ms; rs = map (\<lambda>v. upd_str v ([], False)) vs in (map fst rs, e1 \<or> list_ex snd rs))"

definition capabilities_fields :: "members \<Rightarrow> (string \<times> string list) \<times> bool" where
  "capabilities_fields ms =
     (let (d, e1) = get_str ''description'' ms; (ss, e2) = strings_field ''skills'' ms in ((d, ss), e1 \<or> e2))"

definition capability_text :: "string \<times> string list \<Rightarrow> string option" where
  "capability_text = (\<lambda>(description, skills).
     let desc = TrimSpace description;
         desc1 = (if length skills > 0 then (if desc \<noteq> [] then desc @ '' '' else desc) @ ''[skills: '' @ Join skills '', '' @ '']'' else desc)
     in if desc1 = [] then None else Some desc1)"

definition booCapabilitiesDescription :: "'w serverEnv \<Rightarrow> string \<Rightarrow> 'w \<Rightarrow> string option \<times> 'w" where
  "booCapabilitiesDescription env cwd w =
     (case sv_ReadFile env (path_Join [cwd, ''boo.capabilities.json'']) w of
        (Inl _, w1) \<Rightarrow> (None, w1)
      | (Inr data, w1) \<Rightarrow>
          (case unmarshal_struct capabilities_fields data of None \<Rightarrow> None | Some c \<Rightarrow> capability_text c, w1))"

definition booRoster :: "'w serverEnv \<Rightarrow> 'w \<Rightarrow> booSession list \<times> 'w" where
  "booRoster env w =
     (case runBooCLI env [''ls'', ''--json''] w of
        (Inl _, w1) \<Rightarrow> ([], w1)
      | (Inr (stdout, code), w1) \<Rightarrow>
          (if code \<noteq> 0 then []
           else case unmarshal_list booSession_fields stdout of Some (Some ss) \<Rightarrow> ss | _ \<Rightarrow> [], w1))"

record sessionDetail =
  sd_Name :: string
  sd_Title :: string
  sd_IdleMS :: int
  sd_Cwd :: string
  sd_Capability :: string

definition enrichSession :: "'w serverEnv \<Rightarrow> booSession \<Rightarrow> 'w \<Rightarrow> sessionDetail \<times> 'w" where
  "enrichSession env s w =
     (let d = \<lparr>sd_Name = bs_Name s, sd_Title = bs_Title s, sd_IdleMS = bs_IdleMS s, sd_Cwd = [], sd_Capability = []\<rparr> in
      case booSessionCwd env (bs_Name s) w of
        (None, w1) \<Rightarrow> (d, w1)
      | (Some cwd, w1) \<Rightarrow>
          (case booCapabilitiesDescription env cwd w1 of
             (None, w2) \<Rightarrow> (d\<lparr>sd_Cwd := cwd\<rparr>, w2)
           | (Some cap, w2) \<Rightarrow> (d\<lparr>sd_Cwd := cwd, sd_Capability := cap\<rparr>, w2)))"

fun enrichAll :: "'w serverEnv \<Rightarrow> booSession list \<Rightarrow> 'w \<Rightarrow> sessionDetail list \<times> 'w" where
  "enrichAll env [] w = ([], w)"
| "enrichAll env (s # ss) w =
     (case enrichSession env s w of (d, w1) \<Rightarrow> case enrichAll env ss w1 of (ds, w2) \<Rightarrow> (d # ds, w2))"

definition booRosterDetailed :: "'w serverEnv \<Rightarrow> 'w \<Rightarrow> sessionDetail list \<times> 'w" where
  "booRosterDetailed env w = (case booRoster env w of (ss, w1) \<Rightarrow> enrichAll env ss w1)"

definition booSessionDetail :: "'w serverEnv \<Rightarrow> string \<Rightarrow> 'w \<Rightarrow> sessionDetail option \<times> 'w" where
  "booSessionDetail env name w =
     (case booRoster env w of
        (ss, w1) \<Rightarrow>
          (case List.find (\<lambda>s. bs_Name s = name) ss of
             None \<Rightarrow> (None, w1)
           | Some s \<Rightarrow> (case enrichSession env s w1 of (d, w2) \<Rightarrow> (Some d, w2))))"

text \<open>The two resources of the server, as JSON text; an unknown session is not found.\<close>

definition detail_json :: "sessionDetail \<Rightarrow> json" where
  "detail_json d =
     JObj [(''name'', JStr (sd_Name d)), (''title'', JStr (sd_Title d)), (''idle_ms'', JNum (sd_IdleMS d)),
           (''cwd'', JStr (sd_Cwd d)), (''capability'', JStr (sd_Capability d))]"

definition sessions_resource :: "'w serverEnv \<Rightarrow> 'w \<Rightarrow> string \<times> 'w" where
  "sessions_resource env w =
     (case booRosterDetailed env w of (ds, w1) \<Rightarrow> (json_text (JObj [(''sessions'', JArr (map detail_json ds))]), w1))"

definition session_resource :: "'w serverEnv \<Rightarrow> string \<Rightarrow> 'w \<Rightarrow> string option \<times> 'w" where
  "session_resource env uri w =
     (case booSessionDetail env (TrimPrefix uri ''boo://session/'') w of
        (None, w1) \<Rightarrow> (None, w1)
      | (Some d, w1) \<Rightarrow> (Some (json_text (detail_json d)), w1))"

section \<open>Resolving\<close>

text \<open>The names seen are those of the servers kept.\<close>

definition add_server :: "resolvedServer \<Rightarrow> resolvedServer list \<Rightarrow> resolvedServer list" where
  "add_server rs out = (if rv_Name rs = [] \<or> rv_Name rs \<in> set (map rv_Name out) then out else out @ [rs])"

definition http_server :: "source \<Rightarrow> resolvedServer" where
  "http_server s =
     \<lparr>rv_Name = sc_Name s, rv_Description = sc_Description s, rv_Kind = kindHTTP, rv_Endpoint = sc_Endpoint s,
      rv_AuthToken = sc_AuthToken s, rv_Session = [], rv_WaitTimeout = []\<rparr>"

definition add_http :: "source list \<Rightarrow> resolvedServer list \<Rightarrow> resolvedServer list" where
  "add_http sources out = fold (\<lambda>s out. if source_kind s = kindHTTP then add_server (http_server s) out else out) sources out"

definition boo_server :: "string \<Rightarrow> booSession \<Rightarrow> string \<Rightarrow> resolvedServer" where
  "boo_server wt sess desc =
     \<lparr>rv_Name = bs_Name sess, rv_Description = desc, rv_Kind = kindBoo, rv_Endpoint = [], rv_AuthToken = [],
      rv_Session = bs_Name sess, rv_WaitTimeout = wt\<rparr>"

definition session_description :: "'w serverEnv \<Rightarrow> booSession \<Rightarrow> 'w \<Rightarrow> string \<times> 'w" where
  "session_description env sess w =
     (case booSessionCwd env (bs_Name sess) w of
        (None, w1) \<Rightarrow> (bs_Title sess, w1)
      | (Some cwd, w1) \<Rightarrow>
          (case booCapabilitiesDescription env cwd w1 of (None, w2) \<Rightarrow> (bs_Title sess, w2) | (Some cap, w2) \<Rightarrow> (cap, w2)))"

fun add_sessions :: "'w serverEnv \<Rightarrow> string \<Rightarrow> booSession list \<Rightarrow> resolvedServer list \<Rightarrow> 'w \<Rightarrow> resolvedServer list \<times> 'w" where
  "add_sessions env wt [] out w = (out, w)"
| "add_sessions env wt (sess # ss) out w =
     (case session_description env sess w of
        (desc, w1) \<Rightarrow> add_sessions env wt ss (add_server (boo_server wt sess desc) out) w1)"

text \<open>The sessions a boo source lists, if they can be had.\<close>

definition listed_sessions :: "string \<Rightarrow> booSession list option" where
  "listed_sessions stdout =
     (if TrimSpace stdout = [] then Some []
      else case unmarshal_list booSession_fields stdout of
             None \<Rightarrow> None
           | Some ss \<Rightarrow> Some (case ss of None \<Rightarrow> [] | Some xs \<Rightarrow> xs))"

fun add_boo :: "'w serverEnv \<Rightarrow> source list \<Rightarrow> resolvedServer list \<Rightarrow> 'w \<Rightarrow> resolvedServer list \<times> 'w" where
  "add_boo env [] out w = (out, w)"
| "add_boo env (s # rest) out w =
     (if source_kind s \<noteq> kindBoo then add_boo env rest out w
      else case runBooCLI env [''ls'', ''--json''] w of
             (Inl _, w1) \<Rightarrow> add_boo env rest out w1
           | (Inr (stdout, code), w1) \<Rightarrow>
               (if code \<noteq> 0 then add_boo env rest out w1
                else case listed_sessions stdout of
                       None \<Rightarrow> add_boo env rest out w1
                     | Some ss \<Rightarrow>
                         (case add_sessions env (if sc_WaitTimeout s = [] then ''60s'' else sc_WaitTimeout s) ss out w1 of
                            (out1, w2) \<Rightarrow> add_boo env rest out1 w2)))"

definition resolve :: "'w serverEnv \<Rightarrow> source list \<Rightarrow> 'w \<Rightarrow> resolvedServer list \<times> 'w" where
  "resolve env sources w = add_boo env sources (add_http sources []) w"

record serverView =
  vw_Name :: string
  vw_Description :: string
  vw_Endpoint :: string
  vw_Kind :: string

definition runList :: "resolvedServer list \<Rightarrow> serverView list" where
  "runList = map (\<lambda>s. \<lparr>vw_Name = rv_Name s, vw_Description = rv_Description s, vw_Endpoint = rv_Endpoint s, vw_Kind = rv_Kind s\<rparr>)"

section \<open>Dispatching\<close>

definition newID :: "'w serverEnv \<Rightarrow> string \<Rightarrow> ('w, string) io" where
  "newID env prefx w =
     (case sv_Rand env w of (b, w1) \<Rightarrow>
        (Inr (prefx @ ''_'' @ concat (map (\<lambda>n. [hex_digit (n div 16), hex_digit (n mod 16)]) b)), w1))"

definition a2a_send :: "'w serverEnv \<Rightarrow> 'w httpEnv \<Rightarrow> string \<Rightarrow> string \<Rightarrow> string \<Rightarrow> ('w, string) io" where
  "a2a_send env http endpoint authToken prompt =
     andThen (newID env ''rpc'') (\<lambda>rpcID.
     andThen (newID env ''msg'') (\<lambda>msgID.
     a2a_call http endpoint authToken (a2a_request rpcID msgID prompt)))"

definition booDispatchErr :: "string \<Rightarrow> int \<Rightarrow> goerr option" where
  "booDispatchErr session code =
     (if code = 0 \<or> code = 4 then None
      else if code = 3 then Some (errorf (''boo session not running: '' @ session))
      else Some (errorf (''boo error (exit '' @ Itoa code @ '') for session '' @ session)))"

text \<open>Running the program for a dispatch, with its errors: what it printed.\<close>

definition booCommand :: "'w serverEnv \<Rightarrow> string \<Rightarrow> string list \<Rightarrow> ('w, string) io" where
  "booCommand env session args =
     attempt (runBooCLI env args) (\<lambda>res. case res of
       Inl err \<Rightarrow> return_err (wrapf ''boo not available: '' err [])
     | Inr (out, code) \<Rightarrow> (case booDispatchErr session code of Some e \<Rightarrow> return_err e | None \<Rightarrow> return_ok out))"

definition booPeek :: "'w serverEnv \<Rightarrow> string \<Rightarrow> ('w, string) io" where
  "booPeek env session = booCommand env session [''peek'', session, ''--scrollback'']"

definition ends_in_prompt :: "string \<Rightarrow> bool" where
  "ends_in_prompt l =
     (let t = rev (dropWhile (\<lambda>c. c = CHR '' '') (rev l)) in t = [] \<or> last t \<in> {CHR ''$'', CHR ''#'', CHR ''%'', CHR ''>''})"

definition trimDelta :: "string list \<Rightarrow> string \<Rightarrow> string" where
  "trimDelta lines prompt =
     (let lines1 = (case lines of [] \<Rightarrow> [] | l # ls \<Rightarrow> if Contains l prompt then ls else lines)
      in Join (rev (dropWhile ends_in_prompt (rev lines1))) [newline])"

definition dispatch_delta :: "string \<Rightarrow> string \<Rightarrow> string \<Rightarrow> string" where
  "dispatch_delta before after prompt =
     (let afterLines = split_on newline after
      in trimDelta (drop (min (count_list before newline) (length afterLines)) afterLines) prompt)"

definition dispatchBoo :: "'w serverEnv \<Rightarrow> string \<Rightarrow> string \<Rightarrow> string \<Rightarrow> ('w, string) io" where
  "dispatchBoo env session prompt waitTimeout =
     andThen (booPeek env session) (\<lambda>before.
     andThen (booCommand env session [''send'', session, ''--text'', prompt, ''--enter'']) (\<lambda>_.
     andThen (booCommand env session [''wait'', session, ''--idle'', ''--timeout'', waitTimeout]) (\<lambda>_.
     andThen (booPeek env session) (\<lambda>after.
     return_ok (dispatch_delta before after prompt)))))"

record dispatchInput =
  di_AgentName :: string
  di_Prompt :: string

definition dispatch_to :: "'w serverEnv \<Rightarrow> 'w httpEnv \<Rightarrow> resolvedServer \<Rightarrow> string \<Rightarrow> ('w, string) io" where
  "dispatch_to env http target prompt =
     (if rv_Kind target = kindHTTP then a2a_send env http (rv_Endpoint target) (rv_AuthToken target) prompt
      else if rv_Kind target = kindBoo then dispatchBoo env (rv_Session target) prompt (rv_WaitTimeout target)
      else return_err (errorf (''unknown a2a server kind: '' @ rv_Kind target)))"

definition runDispatch :: "'w serverEnv \<Rightarrow> 'w httpEnv \<Rightarrow> source list \<Rightarrow> dispatchInput \<Rightarrow> ('w, string) io" where
  "runDispatch env http sources inp =
     (if di_Prompt inp = [] then return_err (errorf ''prompt is required'')
      else (\<lambda>w. case resolve env sources w of
              (servers, w1) \<Rightarrow>
                (case List.find (\<lambda>s. rv_Name s = di_AgentName inp) servers of
                   None \<Rightarrow> return_err (errorf (''no such a2a server: '' @ di_AgentName inp)) w1
                 | Some target \<Rightarrow> dispatch_to env http target (di_Prompt inp) w1)))"

section \<open>Names resolve to one server\<close>

definition named :: "resolvedServer list \<Rightarrow> bool" where
  "named out \<longleftrightarrow> distinct (map rv_Name out) \<and> [] \<notin> set (map rv_Name out)"

lemma find_append: "List.find P (xs @ ys) = (case List.find P xs of Some x \<Rightarrow> Some x | None \<Rightarrow> List.find P ys)"
  by (induction xs) auto

lemma named_add_server: "named out \<Longrightarrow> named (add_server rs out)"
  by (auto simp: named_def add_server_def)

lemma named_add_http: "named out \<Longrightarrow> named (add_http sources out)"
  by (induction sources arbitrary: out) (simp_all add: add_http_def named_add_server)

lemma add_server_prefix: "\<exists>more. add_server rs out = out @ more \<and> set more \<subseteq> {rs}"
  by (auto simp: add_server_def)

lemma add_sessions_extends:
  assumes "add_sessions env wt ss out w = (out', w')" "named out"
  shows "named out' \<and> (\<exists>more. out' = out @ more \<and> (\<forall>r \<in> set more. rv_Kind r = kindBoo))"
  using assms
proof (induction ss arbitrary: out w)
  case Nil
  then show ?case by simp
next
  case (Cons sess ss)
  obtain desc w1 where d: "session_description env sess w = (desc, w1)" by fastforce
  let ?out = "add_server (boo_server wt sess desc) out"
  have r: "add_sessions env wt ss ?out w1 = (out', w')" using Cons.prems(1) d by simp
  from Cons.IH [OF r named_add_server [OF Cons.prems(2)]] obtain more where
    n: "named out'" and more: "out' = ?out @ more" "\<forall>r \<in> set more. rv_Kind r = kindBoo" by blast
  obtain m1 where "?out = out @ m1" "set m1 \<subseteq> {boo_server wt sess desc}" using add_server_prefix by blast
  with more have "out' = out @ (m1 @ more)" "\<forall>r \<in> set (m1 @ more). rv_Kind r = kindBoo"
    by (auto simp: boo_server_def)
  with n show ?case by blast
qed

lemma add_boo_extends:
  assumes "add_boo env sources out w = (out', w')" "named out"
  shows "named out' \<and> (\<exists>more. out' = out @ more \<and> (\<forall>r \<in> set more. rv_Kind r = kindBoo))"
  using assms
proof (induction sources arbitrary: out w)
  case Nil
  then show ?case by simp
next
  case (Cons s rest)
  consider (skip) w1 where "add_boo env rest out w1 = (out', w')"
    | (listed) wt ss w1 out1 w2 where "add_sessions env wt ss out w1 = (out1, w2)" "add_boo env rest out1 w2 = (out', w')"
    using Cons.prems(1) by (auto split: if_splits prod.splits sum.splits option.splits)
  then show ?case
  proof cases
    case skip
    from Cons.IH [OF skip Cons.prems(2)] show ?thesis .
  next
    case listed
    from add_sessions_extends [OF listed(1) Cons.prems(2)] obtain m1 where
      "named out1" "out1 = out @ m1" "\<forall>r \<in> set m1. rv_Kind r = kindBoo" by blast
    with Cons.IH [OF listed(2)] obtain m2 where
      "named out'" "out' = out @ (m1 @ m2)" "\<forall>r \<in> set (m1 @ m2). rv_Kind r = kindBoo" by auto
    then show ?thesis by blast
  qed
qed

lemma http_server_name: "rv_Name (http_server s) = sc_Name s"
  by (simp add: http_server_def)

lemma find_add_http:
  assumes "n \<noteq> []"
  shows "List.find (\<lambda>r. rv_Name r = n) (add_http sources out) =
    (case List.find (\<lambda>r. rv_Name r = n) out of
       Some r \<Rightarrow> Some r
     | None \<Rightarrow> map_option http_server (List.find (\<lambda>s. source_kind s = kindHTTP \<and> sc_Name s = n) sources))"
proof (induction sources arbitrary: out)
  case Nil
  then show ?case by (simp add: add_http_def split: option.splits)
next
  case (Cons s sources)
  have "List.find (\<lambda>r. rv_Name r = n) (add_server rs out) =
      (case List.find (\<lambda>r. rv_Name r = n) out of Some r \<Rightarrow> Some r | None \<Rightarrow> if rv_Name rs = n then Some rs else None)" for rs
  proof (cases "List.find (\<lambda>r. rv_Name r = n) out")
    case None
    then have "n \<notin> rv_Name ` set out" by (auto simp: find_None_iff)
    with None assms show ?thesis by (auto simp: add_server_def find_append)
  next
    case (Some r)
    then show ?thesis by (auto simp: add_server_def find_append)
  qed
  with Cons [of out] Cons [of "add_server (http_server s) out"] show ?case
    by (auto simp: add_http_def http_server_name split: option.splits)
qed

text \<open>
  C32. However the boo program behaves, the servers the sources resolve to have names, no two the same;
  and a name that an HTTP source has resolves to the first such source, so a prompt for it is sent to its
  endpoint with its token and never typed into a terminal of the same name.
\<close>

theorem resolve_http_first:
  assumes "resolve env sources w = (servers, w1)"
  shows "distinct (map rv_Name servers) \<and> [] \<notin> set (map rv_Name servers)
    \<and> (\<forall>s n prompt. List.find (\<lambda>s. source_kind s = kindHTTP \<and> sc_Name s = n) sources = Some s \<and> n \<noteq> [] \<and> prompt \<noteq> [] \<longrightarrow>
         runDispatch env http sources \<lparr>di_AgentName = n, di_Prompt = prompt\<rparr> w = a2a_send env http (sc_Endpoint s) (sc_AuthToken s) prompt w1)"
proof -
  have "named (add_http sources [])" by (rule named_add_http) (simp add: named_def)
  from add_boo_extends [OF assms [unfolded resolve_def] this] obtain more where
    n: "named servers" and servers: "servers = add_http sources [] @ more" by blast
  have "List.find (\<lambda>r. rv_Name r = n) servers = Some (http_server s)"
    if "List.find (\<lambda>s. source_kind s = kindHTTP \<and> sc_Name s = n) sources = Some s" "n \<noteq> []" for n s
    using that by (simp add: servers find_append find_add_http)
  then show ?thesis using n assms by (auto simp: named_def runDispatch_def dispatch_to_def http_server_def)
qed

section \<open>What a terminal gives back\<close>

lemma split_on_append: "split_on c (a @ c # b) = split_on c a @ split_on c b"
proof -
  have "split_on c a = butlast (split_on c a) @ [last (split_on c a)]" by simp
  then show ?thesis using split_on_append_sep [of c a b] by (metis append_assoc)
qed

lemma drop_complete_lines:
  assumes "newline \<notin> set c" "a = [] \<or> last a = newline"
  shows "drop (count_list (a @ c) newline) (split_on newline (a @ rest)) = split_on newline rest"
proof -
  have c: "count_list c newline = 0" using assms(1) by (simp add: count_notin)
  show ?thesis
  proof (cases "a = []")
    case True
    with c show ?thesis by simp
  next
    case False
    with assms(2) obtain a0 where a: "a = a0 @ [newline]" by (metis append_butlast_last_id)
    have "split_on newline (a @ rest) = split_on newline a0 @ split_on newline rest"
      by (simp add: a split_on_append)
    moreover have "count_list (a @ c) newline = length (split_on newline a0)"
      using c a by (simp add: count_list_append length_split_on)
    ultimately show ?thesis by simp
  qed
qed

lemma drop_min_length: "drop (min n (length xs)) xs = drop n xs"
  by (cases "n \<le> length xs") auto

text \<open>
  C31. A prompt of one line typed into a terminal gives back the output the terminal showed for it.  Let the
  scrollback be some complete lines and a shell prompt \<open>sh\<close>, and end up with the prompt echoed there,
  the lines of an output \<open>out\<close>, and a shell prompt \<open>sh'\<close>, none of the three with a line break; let \<open>sh'\<close>
  be recognised as a shell prompt (blank, or ending in \<open>$\<close>, \<open>#\<close>, \<open>%\<close> or \<open>>\<close> before blanks) and
  the last line of \<open>out\<close> not be taken for one.  Then the result is exactly \<open>out\<close>, whether the wait was
  over before the terminal was idle or not.
\<close>

theorem dispatchBoo_returns_output:
  assumes "be_Run env [''peek'', session, ''--scrollback''] w = (Ended (shown @ sh) e0 0, w1)"
    and "be_Run env [''send'', session, ''--text'', prompt, ''--enter''] w1 = (Ended o1 e1 0, w2)"
    and "be_Run env [''wait'', session, ''--idle'', ''--timeout'', wt] w2 = (Ended o2 e2 code, w3)" "code = 0 \<or> code = 4"
    and "be_Run env [''peek'', session, ''--scrollback''] w3 = (Ended (shown @ sh @ prompt @ newline # out @ newline # sh') e3 0, w4)"
    and "shown = [] \<or> last shown = newline" "newline \<notin> set (sh @ prompt @ sh')"
    and "ends_in_prompt sh'" "\<not> ends_in_prompt (last (split_on newline out))"
  shows "dispatchBoo env session prompt wt w = (Inr out, w4)"
proof -
  have "split_on newline ((sh @ prompt) @ newline # out @ newline # sh') = (sh @ prompt) # split_on newline out @ [sh']"
    using assms(7) by (simp only: split_on_append) (simp add: split_on_single)
  then have d: "drop (min (count_list (shown @ sh) newline) (length (split_on newline (shown @ sh @ prompt @ newline # out @ newline # sh'))))
      (split_on newline (shown @ sh @ prompt @ newline # out @ newline # sh')) = (sh @ prompt) # split_on newline out @ [sh']"
    using drop_complete_lines [OF _ assms(6), of sh "sh @ prompt @ newline # out @ newline # sh'"] assms(7)
    by (simp add: drop_min_length)
  have echo: "Contains (sh @ prompt) prompt" unfolding Contains_iff by (metis append_Nil2)
  have "dropWhile ends_in_prompt (rev (split_on newline out @ [sh'])) = rev (split_on newline out)"
    using assms(8,9) by (simp add: dropWhile_eq_self_iff hd_rev)
  with d echo have "dispatch_delta (shown @ sh) (shown @ sh @ prompt @ newline # out @ newline # sh') prompt = out"
    by (simp add: dispatch_delta_def trimDelta_def)
  then show ?thesis using assms(1-5)
    by (auto simp: dispatchBoo_def booPeek_def booCommand_def booDispatchErr_def attempt_def andThen_def runBooCLI_def return_ok_def)
qed

text \<open>The echo of a prompt of several lines is never found, as it is looked for in one line.\<close>

lemma multiline_echo_kept:
  assumes "newline \<in> set prompt"
  shows "dispatch_delta before after prompt = Join (rev (dropWhile ends_in_prompt (rev
    (drop (min (count_list before newline) (length (split_on newline after))) (split_on newline after))))) [newline]"
proof -
  have not_in: "\<not> Contains l prompt" if "l \<in> set (drop n (split_on newline after))" for l n
    using assms split_on_no_sep [OF in_set_dropD [OF that]] by (auto simp: Contains_iff)
  have "\<not> Contains l prompt" if "drop n (split_on newline after) = l # ls" for l ls n
    using not_in [of l n] that by simp
  then show ?thesis by (auto simp: dispatch_delta_def trimDelta_def Let_def split: list.splits)
qed

section \<open>Witnesses\<close>

definition sample_server_env :: "nat serverEnv" where
  "sample_server_env =
     \<lparr>be_Run = \<lambda>args w.
        (Ended (if w = 0 then ''$ '' else if w = 3 then ''$ ls'' @ [newline] @ ''a.go'' @ [newline] @ ''$ '' else []) [] (if w = 2 then 4 else 0), w + 1),
      be_jsonError = errorf, sv_ReadFile = \<lambda>_. return_err (errorf ''none''), sv_Getenv = \<lambda>_. [], sv_HomeDir = Inr ''/home'',
      sv_Rand = \<lambda>w. ([1, 2], w + 1)\<rparr>"

lemma dispatchBoo_returns_output_witness: "dispatchBoo sample_server_env ''s'' ''ls'' ''60s'' 0 = (Inr ''a.go'', 4)"
proof -
  have "\<not> ends_in_prompt (last (split_on newline ''a.go''))" by (simp add: ends_in_prompt_def newline_def)
  moreover have "newline \<notin> set (''$ '' @ ''ls'' @ ''$ '')" by (simp add: newline_def)
  moreover have "ends_in_prompt ''$ ''" by (simp add: ends_in_prompt_def)
  ultimately show ?thesis
    using dispatchBoo_returns_output [of sample_server_env "''s''" 0 "[]" "''$ ''" "[]" 1 "''ls''" "[]" "[]" 2 "''60s''" "[]" "[]" 4 3
        "''a.go''" "''$ ''" "[]" 4]
    by (simp add: sample_server_env_def)
qed

lemma resolve_http_first_witness:
  "\<exists>w1. runDispatch sample_server_env (undefined :: nat httpEnv)
       [\<lparr>sc_Kind = [], sc_Name = ''a'', sc_Description = [], sc_Endpoint = ''e'', sc_AuthToken = ''t'', sc_WaitTimeout = []\<rparr>]
       \<lparr>di_AgentName = ''a'', di_Prompt = ''p''\<rparr> 0 = a2a_send sample_server_env undefined ''e'' ''t'' ''p'' w1"
proof -
  let ?s = "\<lparr>sc_Kind = [], sc_Name = ''a'', sc_Description = [], sc_Endpoint = ''e'', sc_AuthToken = ''t'', sc_WaitTimeout = []\<rparr>"
  obtain servers w1 where "resolve sample_server_env [?s] 0 = (servers, w1)" by fastforce
  from resolve_http_first [OF this, of "undefined :: nat httpEnv"] show ?thesis
    by (auto simp: source_kind_def)
qed

end
