(* ===== verification/WeChat.thy ===== *)
theory WeChat
  imports HttpClient GoUrl Base64 Orchestrator
begin

text \<open>
  The WeChat channel (\<open>internal/channel/wechat\<close>): the client of the iLink HTTP API
  (\<open>client.go\<close>) with its login sessions, its long poll for messages and the sending of replies;
  the reply target and the reply gateway (\<open>reply_target.go\<close>, \<open>reply_gateway.go\<close>); and the
  provider (\<open>provider.go\<close>).  The chains of one-line wrappers around \<open>createBindingRequestWithAuth\<close>,
  \<open>performCreateBinding\<close> and their twins are the functions they call.
\<close>

section \<open>Login sessions\<close>

datatype createSessionResult =
  CreateSession (cs_QRCode: string) (cs_QRCodeURL: string) (cs_QRCodeImgContent: string) (cs_QRBase64: string)
    (cs_Ticket: string) (cs_URL: string) (cs_ExpiresAt: timestamp) (cs_Data: "createSessionResult option")

definition or_else :: "string \<Rightarrow> string \<Rightarrow> string" where
  "or_else a b = (if a = [] then b else a)"

fun normalized :: "createSessionResult \<Rightarrow> createSessionResult" where
  "normalized (CreateSession q u i b t l x None) =
     CreateSession q (if b \<noteq> [] \<and> u = [] then b else u) i b t l x None"
| "normalized (CreateSession q u i b t l x (Some d)) =
     (let data = normalized d;
          u1 = or_else u (cs_QRCodeURL data);
          b1 = or_else b (cs_QRBase64 data)
      in CreateSession (or_else q (cs_QRCode data)) (if b1 \<noteq> [] \<and> u1 = [] then b1 else u1)
           (or_else i (cs_QRCodeImgContent data)) b1 (or_else t (cs_Ticket data)) (or_else l (cs_URL data))
           (if x = None then cs_ExpiresAt data else x) None)"

definition providerRef :: "createSessionResult \<Rightarrow> string" where
  "providerRef r = (if cs_QRCode r \<noteq> [] then cs_QRCode r else cs_Ticket r)"

definition cs_qrPayload :: "createSessionResult \<Rightarrow> string" where
  "cs_qrPayload r =
     (if cs_QRCode r \<noteq> [] then cs_QRCode r
      else if cs_Ticket r \<noteq> [] then cs_Ticket r
      else if cs_QRCodeURL r \<noteq> [] then cs_QRCodeURL r
      else if cs_URL r \<noteq> [] then cs_URL r
      else cs_QRCodeImgContent r)"

definition qrShareURL :: "createSessionResult \<Rightarrow> string" where
  "qrShareURL r =
     (if cs_QRCodeImgContent r \<noteq> [] then cs_QRCodeImgContent r
      else if cs_QRCodeURL r \<noteq> [] then cs_QRCodeURL r
      else cs_URL r)"

definition normalizedExpiry :: "int \<Rightarrow> timestamp \<Rightarrow> int" where
  "normalizedExpiry now expiresAt = (case expiresAt of Some t \<Rightarrow> t | None \<Rightarrow> now + 5 * minute)"

record getSessionResult =
  gs_Status :: string
  gs_QRCode :: string
  gs_QRCodeURL :: string
  gs_ExpiresAt :: timestamp
  gs_OpenID :: string
  gs_Nickname :: string
  gs_AvatarURL :: string
  gs_BaseURL :: string
  gs_BotToken :: string
  gs_ILinkBotID :: string
  gs_ILinkUserID :: string
  gs_CredentialPayload :: "json option"
  gs_CredentialVersion :: int
  gs_ErrorMessage :: string

definition gs_qrPayload :: "getSessionResult \<Rightarrow> string" where
  "gs_qrPayload r = (if gs_QRCodeURL r \<noteq> [] then gs_QRCodeURL r else gs_QRCode r)"

definition gs_accountUID :: "getSessionResult \<Rightarrow> string" where
  "gs_accountUID r = (if gs_ILinkUserID r \<noteq> [] then gs_ILinkUserID r else gs_OpenID r)"

definition normalizedStatus :: "getSessionResult \<Rightarrow> string" where
  "normalizedStatus r = (if gs_Status r = ''wait'' \<or> gs_Status r = ''scaned'' then ''qr_ready'' else gs_Status r)"

text \<open>A payload the server sent is kept as its text; else one is made, its keys in order.\<close>

definition normalizedCredentialPayload :: "getSessionResult \<Rightarrow> string" where
  "normalizedCredentialPayload r =
     json_text (case gs_CredentialPayload r of
       Some v \<Rightarrow> v
     | None \<Rightarrow>
         JObj [(''avatar'', JStr (gs_AvatarURL r)), (''baseurl'', JStr (gs_BaseURL r)), (''bot_token'', JStr (gs_BotToken r)),
               (''ilink_bot_id'', JStr (gs_ILinkBotID r)), (''ilink_user_id'', JStr (gs_ILinkUserID r)),
               (''nickname'', JStr (gs_Nickname r)), (''openid'', JStr (gs_OpenID r))])"

definition normalizedCredentialVersion :: "getSessionResult \<Rightarrow> int" where
  "normalizedCredentialVersion r = (if gs_CredentialVersion r \<noteq> 0 then gs_CredentialVersion r else 1)"

section \<open>Requests\<close>

definition buildBotQRCodeURL :: "string \<Rightarrow> string" where
  "buildBotQRCodeURL baseURL = baseURL @ ''/ilink/bot/get_bot_qrcode?'' @ Values_Encode (Values_Set ''bot_type'' ''3'' [])"

definition buildQRCodeStatusURL :: "string \<Rightarrow> string \<Rightarrow> string" where
  "buildQRCodeStatusURL baseURL qrcode =
     baseURL @ ''/ilink/bot/get_qrcode_status?'' @ Values_Encode (Values_Set ''qrcode'' qrcode [])"

definition attachAuth :: "string \<Rightarrow> string \<Rightarrow> httpCall \<Rightarrow> httpCall" where
  "attachAuth authToken wechatUIN req =
     (if authToken = [] then req
      else
        let req1 = set_header ''Authorization'' (''Bearer '' @ authToken) (set_header ''AuthorizationType'' ''ilink_bot_token'' req)
        in if wechatUIN \<noteq> [] then set_header ''X-WECHAT-UIN'' wechatUIN req1 else req1)"

text \<open>Four random bytes, the most significant first, in base64.\<close>

definition be_bytes :: "nat \<Rightarrow> string" where
  "be_bytes n = bytes [n div 2 ^ 24 mod 256, n div 2 ^ 16 mod 256, n div 2 ^ 8 mod 256, n mod 256]"

definition randomWechatUIN :: "'w httpEnv \<Rightarrow> 'w \<Rightarrow> string \<times> 'w" where
  "randomWechatUIN env w = (case he_Uint32 env w of (n, w1) \<Rightarrow> (base64_encode (be_bytes n), w1))"

section \<open>Responses\<close>

definition body_note :: "string \<Rightarrow> string" where
  "body_note body = ''body='' @ Quote body"

definition decodeJSONResponse ::
  "'w httpEnv \<Rightarrow> (members \<Rightarrow> 'a \<times> bool) \<Rightarrow> string \<Rightarrow> httpAnswer \<Rightarrow> goerr + 'a" where
  "decodeJSONResponse env flds action answer =
     (case answer of
        (status, Inl err) \<Rightarrow> Inl (wrapf (''read '' @ action @ '' response: '') err [])
      | (status, Inr body) \<Rightarrow>
          if status \<noteq> 200 then Inl (errorf (action @ '': status='' @ Itoa status @ '' '' @ body_note body))
          else
            let failed = Inl (wrapf (''decode '' @ action @ '' response: '') (he_jsonError env body) (''; '' @ body_note body))
            in case json_first body of
                 None \<Rightarrow> failed
               | Some v \<Rightarrow>
                   (case as_struct v of (ms, e0) \<Rightarrow> case flds ms of (x, e) \<Rightarrow> if e0 \<or> e then failed else Inr x))"

text \<open>
  The members of a login session; \<open>data\<close> nests, at most as deep as the text is long, which is the
  fuel given.
\<close>

fun createSession_fields :: "(string \<Rightarrow> timestamp option) \<Rightarrow> nat \<Rightarrow> members \<Rightarrow> createSessionResult \<times> bool" where
  "createSession_fields parse fuel ms =
     (let (q, e1) = get_str ''qrcode'' ms; (u, e2) = get_str ''qrcode_url'' ms; (i, e3) = get_str ''qrcode_img_content'' ms;
          (b, e4) = get_str ''qr_base64'' ms; (t, e5) = get_str ''ticket'' ms; (l, e6) = get_str ''url'' ms;
          (x, e7) = get_time parse ''expires_at'' ms; (d, e8) = get_ptr ''data'' ms;
          (data, e9) =
            (case (fuel, d) of
               (Suc n, Some ms1) \<Rightarrow> (case createSession_fields parse n ms1 of (r, e) \<Rightarrow> (Some r, e))
             | _ \<Rightarrow> (None, False))
      in (CreateSession q u i b t l x data, e1 \<or> e2 \<or> e3 \<or> e4 \<or> e5 \<or> e6 \<or> e7 \<or> e8 \<or> e9))"

declare createSession_fields.simps [simp del]

definition getSession_fields :: "(string \<Rightarrow> timestamp option) \<Rightarrow> members \<Rightarrow> getSessionResult \<times> bool" where
  "getSession_fields parse ms =
     (let (status, e1) = get_str ''status'' ms; (qr, e2) = get_str ''qrcode'' ms; (qu, e3) = get_str ''qrcode_url'' ms;
          (x, e4) = get_time parse ''expires_at'' ms; (openid, e5) = get_str ''openid'' ms; (nick, e6) = get_str ''nickname'' ms;
          (avatar, e7) = get_str ''avatar_url'' ms; (base, e8) = get_str ''baseurl'' ms; (token, e9) = get_str ''bot_token'' ms;
          (botid, e10) = get_str ''ilink_bot_id'' ms; (userid, e11) = get_str ''ilink_user_id'' ms;
          (payload, e12) = get_raw ''credential_payload'' ms; (version, e13) = get_int ''credential_version'' ms;
          (err, e14) = get_str ''error_message'' ms
      in (\<lparr>gs_Status = status, gs_QRCode = qr, gs_QRCodeURL = qu, gs_ExpiresAt = x, gs_OpenID = openid, gs_Nickname = nick,
           gs_AvatarURL = avatar, gs_BaseURL = base, gs_BotToken = token, gs_ILinkBotID = botid, gs_ILinkUserID = userid,
           gs_CredentialPayload = payload, gs_CredentialVersion = version, gs_ErrorMessage = err\<rparr>,
          e1 \<or> e2 \<or> e3 \<or> e4 \<or> e5 \<or> e6 \<or> e7 \<or> e8 \<or> e9 \<or> e10 \<or> e11 \<or> e12 \<or> e13 \<or> e14))"

section \<open>The client\<close>

record wechatClient =
  wc_baseURL :: string
  wc_authToken :: string

definition clientTimeout :: int where "clientTimeout = 30 * second"

text \<open>
  \<open>CreateBindingSession\<close> and \<open>GetBindingSession\<close>: an error of the transport is wrapped with the name
  of the action.
\<close>

definition get_json ::
  "'w httpEnv \<Rightarrow> (string \<Rightarrow> members \<Rightarrow> 'a \<times> bool) \<Rightarrow> string \<Rightarrow> string \<Rightarrow> wechatClient \<Rightarrow> ('w, 'a) io" where
  "get_json env flds action url c =
     andThen (lift_sum (new_request env ''GET'' url None clientTimeout)) (\<lambda>req.
     attempt (he_Do env (attachAuth (wc_authToken c) [] req)) (\<lambda>res. case res of
         Inl err \<Rightarrow> return_err (wrapf (action @ '' request: '') err [])
       | Inr answer \<Rightarrow>
           lift_sum (decodeJSONResponse env (flds (case snd answer of Inr body \<Rightarrow> body | Inl _ \<Rightarrow> [])) action answer)))"

definition CreateBindingSession :: "'w httpEnv \<Rightarrow> wechatClient \<Rightarrow> ('w, createSessionResult) io" where
  "CreateBindingSession env c =
     andThen (get_json env (\<lambda>body. createSession_fields (he_parseTime env) (length body)) ''create binding''
                (buildBotQRCodeURL (wc_baseURL c)) c) (\<lambda>result.
     return_ok (normalized result))"

definition GetBindingSession :: "'w httpEnv \<Rightarrow> wechatClient \<Rightarrow> string \<Rightarrow> ('w, getSessionResult) io" where
  "GetBindingSession env c ref =
     get_json env (\<lambda>_. getSession_fields (he_parseTime env)) ''get binding'' (buildQRCodeStatusURL (wc_baseURL c) ref) c"

section \<open>Receiving messages\<close>

record message =
  wm_MsgID :: string
  wm_MsgType :: string
  wm_From :: string
  wm_Text :: string
  wm_ContextToken :: string
  wm_Raw :: string
  wm_Created :: int

record getUpdatesOptions =
  guo_BaseURL :: string
  guo_Token :: string
  guo_WechatUIN :: string
  guo_Cursor :: string
  guo_Timeout :: int

record getUpdatesResult =
  gur_Messages :: "message list"
  gur_Cursor :: string
  gur_NextTimeout :: int

record messageItem =
  mi_Type :: int
  mi_MsgID :: string
  mi_TextItem :: "string option"

record weixinMessage =
  xm_MessageID :: int
  xm_FromUserID :: string
  xm_ToUserID :: string
  xm_ContextToken :: string
  xm_CreateTimeMS :: int
  xm_ItemList :: "messageItem list"

record getUpdatesResponse =
  gup_Ret :: int
  gup_ErrCode :: int
  gup_ErrMsg :: string
  gup_Messages :: "weixinMessage list"
  gup_GetUpdatesBuf :: string
  gup_SyncBuf :: string
  gup_LongPollingMS :: int

definition messageItem_fields :: "members \<Rightarrow> messageItem \<times> bool" where
  "messageItem_fields ms =
     (let (ty, e1) = get_int ''type'' ms; (i, e2) = get_str ''msg_id'' ms; (ti, e3) = get_ptr ''text_item'' ms;
          (txt, e4) = (case ti of None \<Rightarrow> (None, False)
                       | Some ms1 \<Rightarrow> (case get_str ''text'' ms1 of (t, e) \<Rightarrow> (Some t, e)))
      in (\<lparr>mi_Type = ty, mi_MsgID = i, mi_TextItem = txt\<rparr>, e1 \<or> e2 \<or> e3 \<or> e4))"

definition weixinMessage_fields :: "members \<Rightarrow> weixinMessage \<times> bool" where
  "weixinMessage_fields ms =
     (let (i, e1) = get_int ''message_id'' ms; (from1, e2) = get_str ''from_user_id'' ms; (to1, e3) = get_str ''to_user_id'' ms;
          (tok, e4) = get_str ''context_token'' ms; (t, e5) = get_int ''create_time_ms'' ms; (vs, e6) = get_list ''item_list'' ms;
          (its, e7) = decode_elems messageItem_fields vs
      in (\<lparr>xm_MessageID = i, xm_FromUserID = from1, xm_ToUserID = to1, xm_ContextToken = tok, xm_CreateTimeMS = t, xm_ItemList = its\<rparr>,
          e1 \<or> e2 \<or> e3 \<or> e4 \<or> e5 \<or> e6 \<or> e7))"

definition getUpdatesResponse_fields :: "members \<Rightarrow> getUpdatesResponse \<times> bool" where
  "getUpdatesResponse_fields ms =
     (let (ret, e1) = get_int ''ret'' ms; (code, e2) = get_int ''errcode'' ms; (msg, e3) = get_str ''errmsg'' ms;
          (vs, e4) = get_list ''msgs'' ms; (xs, e5) = decode_elems weixinMessage_fields vs;
          (buf, e6) = get_str ''get_updates_buf'' ms; (sync, e7) = get_str ''sync_buf'' ms;
          (poll, e8) = get_int ''longpolling_timeout_ms'' ms
      in (\<lparr>gup_Ret = ret, gup_ErrCode = code, gup_ErrMsg = msg, gup_Messages = xs, gup_GetUpdatesBuf = buf, gup_SyncBuf = sync,
           gup_LongPollingMS = poll\<rparr>, e1 \<or> e2 \<or> e3 \<or> e4 \<or> e5 \<or> e6 \<or> e7 \<or> e8))"

text \<open>\<open>json.Unmarshal\<close> of a body into a struct: the error, or the struct.\<close>

definition unmarshal :: "'w httpEnv \<Rightarrow> (members \<Rightarrow> 'a \<times> bool) \<Rightarrow> string \<Rightarrow> goerr + 'a" where
  "unmarshal env flds body =
     (case json_parse body of
        None \<Rightarrow> Inl (he_jsonError env body)
      | Some v \<Rightarrow>
          (case as_struct v of (ms, e0) \<Rightarrow> case flds ms of (x, e) \<Rightarrow> if e0 \<or> e then Inl (he_jsonError env body) else Inr x))"

definition messageItem_json :: "messageItem \<Rightarrow> json" where
  "messageItem_json item =
     JObj [(''type'', JNum (mi_Type item)), (''msg_id'', JStr (mi_MsgID item)),
           (''text_item'', case mi_TextItem item of None \<Rightarrow> JNull | Some t \<Rightarrow> JObj [(''text'', JStr t)])]"

definition weixinMessage_json :: "weixinMessage \<Rightarrow> json" where
  "weixinMessage_json m =
     JObj [(''message_id'', JNum (xm_MessageID m)), (''from_user_id'', JStr (xm_FromUserID m)), (''to_user_id'', JStr (xm_ToUserID m)),
           (''context_token'', JStr (xm_ContextToken m)), (''create_time_ms'', JNum (xm_CreateTimeMS m)),
           (''item_list'', if xm_ItemList m = [] then JNull else JArr (map messageItem_json (xm_ItemList m)))]"

text \<open>The items of a message: the last nonempty id wins, the texts are joined by line ends.\<close>

definition take_item :: "messageItem \<Rightarrow> message \<Rightarrow> message" where
  "take_item item p =
     (let p1 = (if mi_MsgID item \<noteq> [] then p\<lparr>wm_MsgID := mi_MsgID item\<rparr> else p)
      in case mi_TextItem item of
           None \<Rightarrow> p1
         | Some t \<Rightarrow>
             if t = [] then p1
             else p1\<lparr>wm_Text := (if wm_Text p1 \<noteq> [] then wm_Text p1 @ [newline] else []) @ t, wm_MsgType := ''text''\<rparr>)"

definition parse_message :: "weixinMessage \<Rightarrow> message" where
  "parse_message msg =
     (fold take_item (xm_ItemList msg)
        \<lparr>wm_MsgID = Itoa (xm_MessageID msg), wm_MsgType = [], wm_From = xm_FromUserID msg, wm_Text = [],
         wm_ContextToken = xm_ContextToken msg, wm_Raw = [], wm_Created = xm_CreateTimeMS msg\<rparr>)
     \<lparr>wm_Raw := json_text (weixinMessage_json msg)\<rparr>"

text \<open>A product of 64-bit integers wraps.\<close>

definition int64 :: "int \<Rightarrow> int" where
  "int64 i = (i + 2 ^ 63) mod 2 ^ 64 - 2 ^ 63"

definition updates_of :: "getUpdatesResponse \<Rightarrow> getUpdatesResult" where
  "updates_of raw =
     \<lparr>gur_Messages = filter (\<lambda>p. wm_MsgID p \<noteq> [] \<and> wm_Text p \<noteq> []) (map parse_message (gup_Messages raw)),
      gur_Cursor = or_else (gup_GetUpdatesBuf raw) (gup_SyncBuf raw),
      gur_NextTimeout = int64 (gup_LongPollingMS raw * millisecond)\<rparr>"

definition getUpdatesRequest :: "string \<Rightarrow> json" where
  "getUpdatesRequest cursor =
     JObj [(''get_updates_buf'', JStr cursor), (''base_info'', JObj [(''channel_version'', JStr ''1.0.0'')])]"

definition updates_answer :: "'w httpEnv \<Rightarrow> httpAnswer \<Rightarrow> goerr + getUpdatesResult" where
  "updates_answer env answer =
     (case answer of
        (status, Inl err) \<Rightarrow> Inl (wrapf ''read getupdates response: '' err [])
      | (status, Inr body) \<Rightarrow>
          (case unmarshal env getUpdatesResponse_fields body of
             Inl err \<Rightarrow>
               if status \<noteq> 200
               then Inl (errorf (''getupdates failed: status='' @ Itoa status @ '' '' @ body_note body))
               else Inl (wrapf ''decode getupdates response: '' err (''; status='' @ Itoa status @ '' '' @ body_note body))
           | Inr raw \<Rightarrow>
               if status \<noteq> 200 \<or> gup_Ret raw \<noteq> 0 \<or> gup_ErrCode raw \<noteq> 0
               then Inl (errorf (''getupdates failed: status='' @ Itoa status @ '' ret='' @ Itoa (gup_Ret raw) @ '' errcode=''
                     @ Itoa (gup_ErrCode raw) @ '' errmsg='' @ Quote (gup_ErrMsg raw) @ '' '' @ body_note body))
               else Inr (updates_of raw)))"

definition GetMessagesLongPoll :: "'w httpEnv \<Rightarrow> wechatClient \<Rightarrow> getUpdatesOptions \<Rightarrow> ('w, getUpdatesResult) io" where
  "GetMessagesLongPoll env c opts =
     (let baseURL = or_else (guo_BaseURL opts) (wc_baseURL c); token = or_else (guo_Token opts) (wc_authToken c) in
      case new_request env ''POST'' (baseURL @ ''/ilink/bot/getupdates'') (Some (json_text (getUpdatesRequest (guo_Cursor opts))))
             (guo_Timeout opts) of
        Inl err \<Rightarrow> return_err (wrapf ''create getupdates request: '' err [])
      | Inr req \<Rightarrow>
          attempt (he_Do env (attachAuth token (guo_WechatUIN opts) (set_header ''Content-Type'' ''application/json'' req)))
            (\<lambda>res. case res of
                Inl err \<Rightarrow> return_err (wrapf ''getupdates request: '' err [])
              | Inr answer \<Rightarrow> lift_sum (updates_answer env answer)))"

section \<open>Sending messages\<close>

record sendMessageOptions =
  smo_BaseURL :: string
  smo_Token :: string
  smo_WechatUIN :: string
  smo_ToUserID :: string
  smo_MsgText :: string
  smo_ContextToken :: string

definition defaultSendMessageTimeout :: int where "defaultSendMessageTimeout = 30 * second"

text \<open>Maps are written with their keys in order.\<close>

definition sendMessage_json :: "int \<Rightarrow> sendMessageOptions \<Rightarrow> json" where
  "sendMessage_json nanos opts =
     JObj [(''base_info'', JObj [(''channel_version'', JStr ''1.0.0'')]),
           (''msg'', JObj [(''client_id'', JStr (''myclaw-wechat-'' @ Itoa nanos)),
                           (''context_token'', JStr (smo_ContextToken opts)),
                           (''from_user_id'', JStr []),
                           (''item_list'', JArr [JObj [(''text_item'', JObj [(''text'', JStr (smo_MsgText opts))]), (''type'', JNum 1)]]),
                           (''message_state'', JNum 2), (''message_type'', JNum 2), (''to_user_id'', JStr (smo_ToUserID opts))])]"

definition sendStatus_fields :: "members \<Rightarrow> (int \<times> int \<times> string) \<times> bool" where
  "sendStatus_fields ms =
     (let (ret, e1) = get_int ''ret'' ms; (code, e2) = get_int ''errcode'' ms; (msg, e3) = get_str ''errmsg'' ms
      in ((ret, code, msg), e1 \<or> e2 \<or> e3))"

definition decodeSendMessageResponse :: "'w httpEnv \<Rightarrow> httpAnswer \<Rightarrow> goerr + unit" where
  "decodeSendMessageResponse env answer =
     (case answer of
        (status, Inl err) \<Rightarrow> Inl (wrapf ''read sendmsg response: '' err [])
      | (status, Inr body) \<Rightarrow>
          (case unmarshal env sendStatus_fields body of
             Inl err \<Rightarrow>
               if status \<noteq> 200
               then Inl (errorf (''sendmsg failed: status='' @ Itoa status @ '' '' @ body_note body))
               else Inl (wrapf ''decode sendmsg response: '' err (''; status='' @ Itoa status @ '' '' @ body_note body))
           | Inr (ret, code, msg) \<Rightarrow>
               if status \<noteq> 200 \<or> ret \<noteq> 0 \<or> code \<noteq> 0
               then Inl (errorf (''sendmsg failed: status='' @ Itoa status @ '' ret='' @ Itoa ret @ '' errcode='' @ Itoa code
                     @ '' errmsg='' @ Quote msg @ '' '' @ body_note body))
               else Inr ()))"

text \<open>
  The request also ends with its context: at the context's deadline or, without one, after
  \<open>defaultSendMessageTimeout\<close>, besides the client's own timeout.
\<close>

definition contextWithDefaultTimeout :: "int \<Rightarrow> goctx \<Rightarrow> int \<Rightarrow> goctx" where
  "contextWithDefaultTimeout now ctx timeout =
     (case cx_deadline ctx of Some t \<Rightarrow> ctx | None \<Rightarrow> WithTimeout now ctx timeout)"

definition SendTextMessage ::
  "(goctx \<Rightarrow> 'w httpEnv) \<Rightarrow> wechatClient \<Rightarrow> goctx \<Rightarrow> sendMessageOptions \<Rightarrow> ('w, unit) io" where
  "SendTextMessage env c ctx opts = (\<lambda>w.
     let baseURL = or_else (smo_BaseURL opts) (wc_baseURL c); token = or_else (smo_Token opts) (wc_authToken c);
         now = he_Now (env ctx) w;
         env1 = env (contextWithDefaultTimeout now ctx defaultSendMessageTimeout)
     in if TrimSpace (smo_ContextToken opts) = []
        then return_err (errorf ''sendmsg context token is required'') w
        else case new_request env1 ''POST'' (baseURL @ ''/ilink/bot/sendmessage'') (Some (json_text (sendMessage_json now opts)))
                    clientTimeout of
               Inl err \<Rightarrow> return_err (wrapf ''create sendmsg request: '' err []) w
             | Inr req \<Rightarrow>
                 attempt (he_Do env1 (attachAuth token (smo_WechatUIN opts) (set_header ''Content-Type'' ''application/json'' req)))
                   (\<lambda>res. case res of
                       Inl err \<Rightarrow> return_err (wrapf ''sendmsg request: '' err [])
                     | Inr answer \<Rightarrow> lift_sum (decodeSendMessageResponse env1 answer)) w)"

section \<open>The reply gateway\<close>

definition ErrMissingReplyRecipient :: goerr where
  "ErrMissingReplyRecipient = errorf ''wechat reply target recipient_id is required''"
definition ErrMissingReplyBaseURL :: goerr where
  "ErrMissingReplyBaseURL = errorf ''wechat reply target metadata base_url is required''"
definition ErrMissingReplyToken :: goerr where
  "ErrMissingReplyToken = errorf ''wechat reply target metadata token is required''"
definition ErrMissingReplyWechatUIN :: goerr where
  "ErrMissingReplyWechatUIN = errorf ''wechat reply target metadata wechat_uin is required''"
definition ErrMissingReplyContextToken :: goerr where
  "ErrMissingReplyContextToken = errorf ''wechat reply target metadata context_token is required''"

definition trimmedMetadataValue :: "replyTarget \<Rightarrow> string \<Rightarrow> string" where
  "trimmedMetadataValue target key = TrimSpace (MetadataValue target key)"

definition trimmedRecipientID :: "replyTarget \<Rightarrow> string" where
  "trimmedRecipientID target = TrimSpace (rt_RecipientID target)"

definition validateReplyTarget :: "replyTarget \<Rightarrow> goerr option" where
  "validateReplyTarget target =
     (if TrimSpace (rt_RecipientID target) = [] then Some ErrMissingReplyRecipient
      else if TrimSpace (MetadataValue target ''base_url'') = [] then Some ErrMissingReplyBaseURL
      else if TrimSpace (MetadataValue target ''token'') = [] then Some ErrMissingReplyToken
      else if TrimSpace (MetadataValue target ''wechat_uin'') = [] then Some ErrMissingReplyWechatUIN
      else if TrimSpace (MetadataValue target ''context_token'') = [] then Some ErrMissingReplyContextToken
      else None)"

definition wechat_Reply ::
  "(sendMessageOptions \<Rightarrow> ('w, unit) io) \<Rightarrow> replyTarget \<Rightarrow> response \<Rightarrow> ('w, unit) io" where
  "wechat_Reply send target resp =
     (let txt = TrimSpace (rs_Text resp) in
      if txt = [] then return_ok ()
      else case validateReplyTarget target of
             Some err \<Rightarrow> return_err err
           | None \<Rightarrow>
               attempt (send \<lparr>smo_BaseURL = trimmedMetadataValue target ''base_url'', smo_Token = trimmedMetadataValue target ''token'',
                         smo_WechatUIN = trimmedMetadataValue target ''wechat_uin'', smo_ToUserID = trimmedRecipientID target,
                         smo_MsgText = txt, smo_ContextToken = trimmedMetadataValue target ''context_token''\<rparr>)
                 (\<lambda>res. case res of
                     Inl err \<Rightarrow> return_err (wrapf ''wechat reply: '' err [])
                   | Inr _ \<Rightarrow> return_ok ()))"

end
