(* ===== verification/WeChatRuntime.thy ===== *)
theory WeChatRuntime
  imports WeChat
begin

text \<open>
  The WeChat provider (\<open>provider.go\<close>), the reply target made from stored credentials
  (\<open>reply_target.go\<close>) and the runtime that polls for messages (\<open>runtime.go\<close>).  The rendering of
  a QR code as PNG is a parameter.  A runtime is run on the list of its rounds: what each look
  at the context and each poll gave it.
\<close>

section \<open>The provider\<close>

definition renderQRCodeDataURL :: "(string \<Rightarrow> goerr + string) \<Rightarrow> string \<Rightarrow> goerr + string" where
  "renderQRCodeDataURL qr_png payload =
     (case qr_png payload of
        Inl err \<Rightarrow> Inl err
      | Inr png \<Rightarrow> Inr (''data:image/png;base64,'' @ base64_encode png))"

definition createBindingQRCodePayload :: "(string \<Rightarrow> goerr + string) \<Rightarrow> createSessionResult \<Rightarrow> goerr + string" where
  "createBindingQRCodePayload qr_png result =
     (if cs_QRCodeImgContent result \<noteq> [] then renderQRCodeDataURL qr_png (cs_QRCodeImgContent result)
      else if cs_QRCodeURL result \<noteq> [] then Inr (cs_QRCodeURL result)
      else if cs_URL result \<noteq> [] then Inr (cs_URL result)
      else Inr (cs_qrPayload result))"

definition wechat_CreateBinding ::
  "('w \<Rightarrow> int) \<Rightarrow> (string \<Rightarrow> goerr + string) \<Rightarrow> ('w, createSessionResult) io \<Rightarrow> createBindingRequest \<Rightarrow> ('w, createBindingResult) io" where
  "wechat_CreateBinding now qr_png create req =
     attempt create (\<lambda>res. case res of
         Inl err \<Rightarrow> return_err (wrapf ''wechat create binding: '' err [])
       | Inr result \<Rightarrow>
           (case createBindingQRCodePayload qr_png result of
              Inl err \<Rightarrow> return_err (wrapf ''wechat render qr: '' err [])
            | Inr qrPayload \<Rightarrow>
                (\<lambda>w. return_ok \<lparr>cbr_ProviderBindingRef = providerRef result, cbr_QRCodePayload = qrPayload,
                      cbr_QRShareURL = qrShareURL result,
                      cbr_ExpiresAt = Some (normalizedExpiry (now w) (cs_ExpiresAt result))\<rparr> w)))"

definition wechat_RefreshBinding ::
  "('w \<Rightarrow> int) \<Rightarrow> (string \<Rightarrow> ('w, getSessionResult) io) \<Rightarrow> refreshBindingRequest \<Rightarrow> ('w, refreshBindingResult) io" where
  "wechat_RefreshBinding now get req =
     attempt (get (rbq_ProviderBindingRef req)) (\<lambda>res. case res of
         Inl err \<Rightarrow> return_err (wrapf ''wechat refresh binding: '' err [])
       | Inr result \<Rightarrow>
           (\<lambda>w. return_ok \<lparr>rbr_ProviderStatus = normalizedStatus result, rbr_QRCodePayload = gs_qrPayload result,
                 rbr_ExpiresAt = Some (normalizedExpiry (now w) (gs_ExpiresAt result)), rbr_AccountUID = gs_accountUID result,
                 rbr_DisplayName = gs_Nickname result, rbr_AvatarURL = gs_AvatarURL result,
                 rbr_CredentialPayload = normalizedCredentialPayload result,
                 rbr_CredentialVersion = normalizedCredentialVersion result, rbr_ErrorMessage = gs_ErrorMessage result\<rparr> w))"

text \<open>
  \<open>json.Unmarshal\<close> into a \<open>map[string]any\<close>: \<open>None\<close> for an error, and for the text \<open>null\<close> the nil
  map, here \<open>Some None\<close>.
\<close>

definition unmarshal_map :: "string \<Rightarrow> members option option" where
  "unmarshal_map payload =
     (case json_parse payload of
        Some (JObj ms) \<Rightarrow> Some (Some ms)
      | Some JNull \<Rightarrow> Some None
      | _ \<Rightarrow> None)"

definition wechat_BuildRuntimeConfig :: "(string \<Rightarrow> goerr) \<Rightarrow> buildRuntimeConfigRequest \<Rightarrow> goerr + json" where
  "wechat_BuildRuntimeConfig json_error req =
     (case unmarshal_map (brq_CredentialPayload req) of
        None \<Rightarrow> Inl (wrapf ''unmarshal credential payload: '' (json_error (brq_CredentialPayload req)) [])
      | Some payload \<Rightarrow>
          Inr (JObj [(''credential_blob'', JObj [(''payload'', case payload of None \<Rightarrow> JNull | Some ms \<Rightarrow> JObj ms),
                                                 (''version'', JNum (brq_CredentialVersion req))]),
                     (''runtime_options'', JObj [(''poll_interval_seconds'', JNum 3)])]))"

section \<open>Reply targets from credentials\<close>

definition map_members :: "members option \<Rightarrow> members" where
  "map_members payload = (case payload of None \<Rightarrow> [] | Some ms \<Rightarrow> ms)"

definition uin_of :: "(string \<times> 'w) \<Rightarrow> string \<Rightarrow> 'w \<Rightarrow> string \<times> 'w" where
  "uin_of fresh stored w = (if stored = [] then fresh else (stored, w))"

definition BuildReplyTarget ::
  "'w httpEnv \<Rightarrow> string \<Rightarrow> string \<Rightarrow> string \<Rightarrow> ('w, replyTarget) io" where
  "BuildReplyTarget env recipientID accountUID credentialPayload = (\<lambda>w.
     (case (if credentialPayload = [] then Some None else unmarshal_map credentialPayload) of
        None \<Rightarrow> return_err (wrapf ''unmarshal wechat credential payload: '' (he_jsonError env credentialPayload) []) w
      | Some payload \<Rightarrow>
          let ms = map_members payload;
              (uin, w1) = uin_of (randomWechatUIN env w) (any_str ms ''wechat_uin'') w
          in return_ok
               \<lparr>rt_ChannelType = ''wechat'', rt_RecipientID = recipientID,
                rt_Metadata = [(''account_uid'', accountUID), (''base_url'', any_str ms ''baseurl''),
                               (''token'', any_str ms ''bot_token''), (''wechat_uin'', uin)]\<rparr> w1))"

section \<open>The runtime\<close>

definition ErrSessionExpired :: goerr where
  "ErrSessionExpired = \<lparr>err_msg = ''wechat session expired'', err_wraps = [SessionExpired]\<rparr>"

definition classifyRuntimePollError :: "goerr \<Rightarrow> goerr" where
  "classifyRuntimePollError err =
     (let lower = ToLower (err_msg err) in
      if Contains lower ''errcode=-14'' \<or> Contains lower ''session timeout'' \<or> Contains lower ''session expired''
      then wrapf [] ErrSessionExpired ('': '' @ err_msg err)
      else err)"

definition nextPollTimeout :: "int \<Rightarrow> int \<Rightarrow> int" where
  "nextPollTimeout current next =
     (if next > 0 then next else if current > 0 then current else 35 * second)"

record wechatRuntime =
  wr_req :: startRuntimeRequest
  wr_baseURL :: string
  wr_botToken :: string
  wr_wechatUIN :: string
  wr_cursor :: string
  wr_pollTimeout :: int

text \<open>
  \<open>StartRuntime\<close>.  A credential payload \<open>null\<close> leaves the map nil, and storing \<open>wechat_uin\<close> in it
  panics.  What the rewritten payload would be is not used afterwards.
\<close>

datatype ('w, 'h) started = StartRefused goerr | StartPanics | StartedRuntime 'h "runtimeStateEvent option" 'w

definition wechat_StartRuntime :: "'w httpEnv \<Rightarrow> startRuntimeRequest \<Rightarrow> 'w \<Rightarrow> ('w, wechatRuntime) started" where
  "wechat_StartRuntime env req w =
     (case unmarshal_map (srq_CredentialPayload req) of
        None \<Rightarrow> StartRefused (wrapf ''unmarshal runtime credential payload: '' (he_jsonError env (srq_CredentialPayload req)) [])
      | Some None \<Rightarrow> StartPanics
      | Some (Some ms) \<Rightarrow>
          (case uin_of (randomWechatUIN env w) (any_str ms ''wechat_uin'') w of
             (uin, w1) \<Rightarrow>
               StartedRuntime
                 \<lparr>wr_req = req, wr_baseURL = any_str ms ''baseurl'', wr_botToken = any_str ms ''bot_token'',
                  wr_wechatUIN = uin, wr_cursor = [], wr_pollTimeout = 35 * second\<rparr>
                 (if srq_OnState req
                  then Some \<lparr>se_BotID = srq_BotID req, se_ChannelType = srq_ChannelType req,
                             se_State = RuntimeStateConnected, se_Err = None, se_Reason = []\<rparr> else None)
                 w1))"

text \<open>
  A round: the error of the context when the loop looks at it first; then what the poll
  returned, and whether the context was done by then.
\<close>

record pollRound =
  po_ctxErr :: "goerr option"
  po_result :: "goerr + getUpdatesResult"
  po_doneAfter :: bool

datatype wechatAction =
    Polled getUpdatesOptions
  | StateEvent runtimeStateEvent
  | MessageEvent runtimeEvent
  | Slept int

definition message_event :: "wechatRuntime \<Rightarrow> message \<Rightarrow> runtimeEvent" where
  "message_event rt msg =
     \<lparr>ev_BotID = srq_BotID (wr_req rt), ev_ChannelType = srq_ChannelType (wr_req rt), ev_MessageID = wm_MsgID msg,
      ev_From = wm_From msg, ev_Text = wm_Text msg,
      ev_ReplyTarget =
        \<lparr>rt_ChannelType = srq_ChannelType (wr_req rt), rt_RecipientID = wm_From msg,
         rt_Metadata = [(''account_uid'', srq_AccountUID (wr_req rt)), (''base_url'', wr_baseURL rt),
                        (''token'', wr_botToken rt), (''wechat_uin'', wr_wechatUIN rt)]
           @ (if wm_ContextToken msg \<noteq> [] then [(''context_token'', wm_ContextToken msg)] else [])\<rparr>,
      ev_Raw = wm_Raw msg\<rparr>"

definition state_event :: "wechatRuntime \<Rightarrow> runtimeStateKind \<Rightarrow> goerr option \<Rightarrow> string \<Rightarrow> wechatAction list" where
  "state_event rt kind err reason =
     (if srq_OnState (wr_req rt)
      then [StateEvent \<lparr>se_BotID = srq_BotID (wr_req rt), se_ChannelType = srq_ChannelType (wr_req rt),
                        se_State = kind, se_Err = err, se_Reason = reason\<rparr>] else [])"

definition poll_options :: "wechatRuntime \<Rightarrow> getUpdatesOptions" where
  "poll_options rt =
     \<lparr>guo_BaseURL = wr_baseURL rt, guo_Token = wr_botToken rt, guo_WechatUIN = wr_wechatUIN rt,
      guo_Cursor = wr_cursor rt, guo_Timeout = wr_pollTimeout rt\<rparr>"

text \<open>What a round does, and the runtime after it; \<open>None\<close> when its goroutine has returned.\<close>

definition poll_round :: "wechatRuntime \<Rightarrow> pollRound \<Rightarrow> wechatAction list \<times> wechatRuntime option" where
  "poll_round rt r =
     (case po_ctxErr r of
        Some err \<Rightarrow> (state_event rt RuntimeStateStopped None (err_msg err), None)
      | None \<Rightarrow>
          (case po_result r of
             Inl err \<Rightarrow>
               if po_doneAfter r then ([Polled (poll_options rt)], None)
               else
                 let classifiedErr = classifyRuntimePollError err in
                 if errors_Is classifiedErr SessionExpired
                 then (Polled (poll_options rt) # state_event rt RuntimeStateError (Some classifiedErr) [], None)
                 else ([Polled (poll_options rt), Slept (2 * second)], Some rt)
           | Inr updates \<Rightarrow>
               (Polled (poll_options rt)
                  # (if srq_OnEvent (wr_req rt) then map (\<lambda>m. MessageEvent (message_event rt m)) (gur_Messages updates) else []),
                Some (rt\<lparr>wr_pollTimeout := nextPollTimeout (wr_pollTimeout rt) (gur_NextTimeout updates),
                         wr_cursor := (if gur_Cursor updates \<noteq> [] then gur_Cursor updates else wr_cursor rt)\<rparr>))))"

fun poll_loop :: "wechatRuntime \<Rightarrow> pollRound list \<Rightarrow> wechatAction list \<times> wechatRuntime option" where
  "poll_loop rt [] = ([], Some rt)"
| "poll_loop rt (r # rs) =
     (case poll_round rt r of
        (acts, None) \<Rightarrow> (acts, None)
      | (acts, Some rt1) \<Rightarrow> (case poll_loop rt1 rs of (acts2, res) \<Rightarrow> (acts @ acts2, res)))"

end
