(* ===== verification/Feishu.thy ===== *)
theory Feishu
  imports WeChatRuntime Boo
begin

text \<open>
  The Feishu channel, but for the trace cards (\<open>internal/channel/feishu\<close>): \<open>types.go\<close>,
  \<open>registry.go\<close>, \<open>api.go\<close>, \<open>dialer.go\<close>, \<open>provider.go\<close>, \<open>reply_gateway.go\<close> and \<open>runtime.go\<close>.  The HTTP
  client, the calls of the SDK and the Markdown parser are parameters: \<open>lk_Reply\<close>, \<open>lk_Create\<close> and
  \<open>lk_Patch\<close> are the three calls on messages, and \<open>lk_Markdown\<close> gives the kinds of the nodes of the
  document a text parses into, in the order of a walk.
\<close>

section \<open>Types\<close>

definition feishuType :: string where "feishuType = ''feishu''"

record credentials =
  cr_AppID :: string
  cr_AppSecret :: string
  cr_BotOpenID :: string

record appInfo =
  ai_AppName :: string
  ai_BotOpenID :: string

record feishuMessage =
  fm_MessageID :: string
  fm_ChatID :: string
  fm_ChatType :: string
  fm_SenderOpenID :: string
  fm_Text :: string
  fm_MentionedOpenIDs :: "string list"

record sendParams =
  sm_ChatID :: string
  sm_Body :: string
  sm_ReplyMessageID :: string
  sm_Mentions :: "string list"

record cardParams =
  cp_ChatID :: string
  cp_Content :: string
  cp_ReplyMessageID :: string

record 'w feishuAPI =
  fa_ValidateApp :: "string \<Rightarrow> string \<Rightarrow> ('w, appInfo) io"
  fa_SendText :: "credentials \<Rightarrow> sendParams \<Rightarrow> ('w, unit) io"
  fa_CreateCard :: "credentials \<Rightarrow> cardParams \<Rightarrow> ('w, string) io"
  fa_PatchCard :: "credentials \<Rightarrow> string \<Rightarrow> string \<Rightarrow> ('w, unit) io"

section \<open>The registry\<close>

type_synonym registry = "string \<rightharpoonup> credentials"

definition NewRegistry :: registry where "NewRegistry = Map.empty"

definition Register :: "string \<Rightarrow> credentials \<Rightarrow> registry \<Rightarrow> registry" where
  "Register botID creds r = r(botID \<mapsto> creds)"

definition Unregister :: "string \<Rightarrow> registry \<Rightarrow> registry" where
  "Unregister botID r = r(botID := None)"

definition Lookup :: "string \<Rightarrow> registry \<Rightarrow> credentials option" where
  "Lookup botID r = r botID"

section \<open>The API\<close>

text \<open>A client of the SDK is made of an app and its secret.\<close>

type_synonym larkClient = "string \<times> string"

record larkResponse =
  lr_Success :: bool
  lr_Code :: int
  lr_Msg :: string
  lr_MessageID :: "string option"

datatype nodeKind =
    Heading | ListNode | Blockquote | FencedCodeBlock | CodeBlock | ThematicBreak | Emphasis | Link | AutoLink | Image
  | CodeSpan | Table | Strikethrough | OtherKind

record 'w larkEnv =
  lk_http :: "'w httpEnv"
  lk_Reply :: "larkClient \<Rightarrow> string \<Rightarrow> string \<Rightarrow> string \<Rightarrow> ('w, larkResponse) io"
  lk_Create :: "larkClient \<Rightarrow> string \<Rightarrow> string \<Rightarrow> string \<Rightarrow> ('w, larkResponse) io"
  lk_Patch :: "larkClient \<Rightarrow> string \<Rightarrow> string \<Rightarrow> ('w, larkResponse) io"
  lk_Markdown :: "string \<Rightarrow> nodeKind list"

text \<open>The state of the API client: the clients of the SDK by app, beside the world.\<close>

type_synonym 'w larkWorld = "(string \<rightharpoonup> larkClient) \<times> 'w"

definition on_world :: "('w, 'a) io \<Rightarrow> ('w larkWorld, 'a) io" where
  "on_world m = (\<lambda>(cs, w). case m w of (r, w1) \<Rightarrow> (r, (cs, w1)))"

definition get_larkClient :: "string \<Rightarrow> string \<Rightarrow> ('w larkWorld, larkClient) io" where
  "get_larkClient appID appSecret = (\<lambda>(cs, w).
     case cs appID of
       Some c \<Rightarrow> (Inr c, (cs, w))
     | None \<Rightarrow> (Inr (appID, appSecret), (cs(appID \<mapsto> (appID, appSecret)), w)))"

definition httpTimeout :: int where "httpTimeout = 15 * second"

text \<open>A request to the REST API, and the answer decoded whatever its status is.\<close>

definition rest_call :: "'w httpEnv \<Rightarrow> (members \<Rightarrow> 'a \<times> bool) \<Rightarrow> string \<Rightarrow> string \<Rightarrow> string option \<Rightarrow> string \<times> string \<Rightarrow> ('w, 'a) io" where
  "rest_call env flds method url body hdr =
     andThen (lift_sum (new_request env method url body httpTimeout)) (\<lambda>req.
     andThen (he_Do env (set_header (fst hdr) (snd hdr) req)) (\<lambda>(_, body).
     lift_sum (case body of
                 Inl err \<Rightarrow> Inl err
               | Inr b \<Rightarrow>
                   (case json_first b of
                      None \<Rightarrow> Inl (he_jsonError env b)
                    | Some v \<Rightarrow> (case as_struct v of (ms, e0) \<Rightarrow> case flds ms of (x, e) \<Rightarrow>
                        if e0 \<or> e then Inl (he_jsonError env b) else Inr x)))))"

definition token_fields :: "members \<Rightarrow> (int \<times> string \<times> string) \<times> bool" where
  "token_fields ms =
     (let (c, e1) = get_int ''code'' ms; (m, e2) = get_str ''msg'' ms; (t, e3) = get_str ''tenant_access_token'' ms
      in ((c, m, t), e1 \<or> e2 \<or> e3))"

definition tenantAccessToken :: "'w httpEnv \<Rightarrow> string \<Rightarrow> string \<Rightarrow> string \<Rightarrow> ('w, string) io" where
  "tenantAccessToken env domain appID appSecret =
     andThen (rest_call env token_fields ''POST'' (domain @ ''/open-apis/auth/v3/tenant_access_token/internal'')
                (Some (json_text (JObj [(''app_id'', JStr appID), (''app_secret'', JStr appSecret)])))
                (''Content-Type'', ''application/json; charset=utf-8'')) (\<lambda>(code, msg, token).
     if code \<noteq> 0 then return_err (errorf (''feishu auth failed: code='' @ Itoa code @ '' msg='' @ msg)) else return_ok token)"

definition botInfo_fields :: "members \<Rightarrow> (int \<times> string \<times> appInfo) \<times> bool" where
  "botInfo_fields ms =
     (let (c, e1) = get_int ''code'' ms; (m, e2) = get_str ''msg'' ms; (bs, e3) = get_struct ''bot'' ms;
          (n, e4) = get_str ''app_name'' bs; (i, e5) = get_str ''open_id'' bs
      in ((c, m, \<lparr>ai_AppName = n, ai_BotOpenID = i\<rparr>), e1 \<or> e2 \<or> e3 \<or> e4 \<or> e5))"

definition botInfo :: "'w httpEnv \<Rightarrow> string \<Rightarrow> string \<Rightarrow> ('w, appInfo) io" where
  "botInfo env domain token =
     andThen (rest_call env botInfo_fields ''GET'' (domain @ ''/open-apis/bot/v3/info'') None (''Authorization'', ''Bearer '' @ token))
       (\<lambda>(code, msg, info).
     if code \<noteq> 0 then return_err (errorf (''feishu bot info failed: code='' @ Itoa code @ '' msg='' @ msg)) else return_ok info)"

definition ValidateApp :: "'w httpEnv \<Rightarrow> string \<Rightarrow> string \<Rightarrow> string \<Rightarrow> ('w, appInfo) io" where
  "ValidateApp env domain appID appSecret =
     andThen (tenantAccessToken env domain appID appSecret) (\<lambda>token. botInfo env domain token)"

text \<open>A text with its mentions before it, each between the two given texts.\<close>

definition mention :: "string \<Rightarrow> sendParams \<Rightarrow> string" where
  "mention opening p =
     (if length (sm_Mentions p) > 0
      then concat (map (\<lambda>openID. opening @ openID @ quote_char # ''></at>'') (sm_Mentions p)) @ '' '' @ sm_Body p
      else sm_Body p)"

definition buildTextContent :: "sendParams \<Rightarrow> string" where
  "buildTextContent p = json_text (JObj [(''text'', JStr (mention (''<at user_id='' @ [quote_char]) p))])"

definition markdown_card :: "string \<Rightarrow> string" where
  "markdown_card md =
     json_text (JObj [(''config'', JObj [(''wide_screen_mode'', JBool True)]),
                      (''elements'', JArr [JObj [(''content'', JStr md), (''tag'', JStr ''markdown'')]])])"

definition buildCardContent :: "sendParams \<Rightarrow> string" where
  "buildCardContent p = markdown_card (mention (''<at id='' @ [quote_char]) p)"

definition richMarkdownKinds :: "nodeKind list" where
  "richMarkdownKinds =
     [Heading, ListNode, Blockquote, FencedCodeBlock, CodeBlock, ThematicBreak, Emphasis, Link, AutoLink, Image, CodeSpan,
      Table, Strikethrough]"

definition isRichMarkdown :: "'w larkEnv \<Rightarrow> string \<Rightarrow> bool" where
  "isRichMarkdown env t = list_ex (\<lambda>k. k \<in> set richMarkdownKinds) (lk_Markdown env t)"

definition MsgTypeInteractive :: string where "MsgTypeInteractive = ''interactive''"
definition MsgTypeText :: string where "MsgTypeText = ''text''"

text \<open>The two ways of sending a message, and the error of a response that is no success.\<close>

definition lark_message :: "'w larkEnv \<Rightarrow> larkClient \<Rightarrow> string \<Rightarrow> string \<Rightarrow> string \<Rightarrow> string \<Rightarrow> ('w, larkResponse) io" where
  "lark_message env client reply chat msgType content =
     (if reply \<noteq> [] then lk_Reply env client reply msgType content else lk_Create env client chat msgType content)"

definition lark_error :: "string \<Rightarrow> larkResponse \<Rightarrow> goerr" where
  "lark_error what resp = errorf (''feishu '' @ what @ '' failed: code='' @ Itoa (lr_Code resp) @ '' msg='' @ lr_Msg resp)"

definition lark_send :: "'w larkEnv \<Rightarrow> larkClient \<Rightarrow> string \<Rightarrow> string \<Rightarrow> sendParams \<Rightarrow> ('w, unit) io" where
  "lark_send env client msgType content p =
     andThen (lark_message env client (sm_ReplyMessageID p) (sm_ChatID p) msgType content) (\<lambda>resp.
     if lr_Success resp then return_ok ()
     else return_err (lark_error (if sm_ReplyMessageID p \<noteq> [] then ''reply'' else ''send'') resp))"

definition SendText :: "'w larkEnv \<Rightarrow> credentials \<Rightarrow> sendParams \<Rightarrow> ('w larkWorld, unit) io" where
  "SendText env creds p =
     andThen (get_larkClient (cr_AppID creds) (cr_AppSecret creds)) (\<lambda>client. on_world
       (let plain = lark_send env client MsgTypeText (buildTextContent p) p in
        if isRichMarkdown env (sm_Body p)
        then attempt (lark_send env client MsgTypeInteractive (buildCardContent p) p) (\<lambda>res. case res of
               Inr _ \<Rightarrow> return_ok ()
             | Inl _ \<Rightarrow> plain)
        else plain))"

definition CreateCard :: "'w larkEnv \<Rightarrow> credentials \<Rightarrow> cardParams \<Rightarrow> ('w larkWorld, string) io" where
  "CreateCard env creds p =
     (let what = (if cp_ReplyMessageID p \<noteq> [] then ''reply card'' else ''create card'') in
      andThen (get_larkClient (cr_AppID creds) (cr_AppSecret creds)) (\<lambda>client. on_world
        (andThen (lark_message env client (cp_ReplyMessageID p) (cp_ChatID p) MsgTypeInteractive (cp_Content p)) (\<lambda>resp.
         if \<not> lr_Success resp then return_err (lark_error what resp)
         else case lr_MessageID resp of
                None \<Rightarrow> return_err (errorf (''feishu '' @ what @ '' returned no message id''))
              | Some i \<Rightarrow> return_ok i))))"

definition PatchCard :: "'w larkEnv \<Rightarrow> credentials \<Rightarrow> string \<Rightarrow> string \<Rightarrow> ('w larkWorld, unit) io" where
  "PatchCard env creds messageID cardJSON =
     andThen (get_larkClient (cr_AppID creds) (cr_AppSecret creds)) (\<lambda>client. on_world
       (andThen (lk_Patch env client messageID cardJSON) (\<lambda>resp.
        if lr_Success resp then return_ok () else return_err (lark_error ''patch card'' resp))))"

definition NewAPI :: "'w larkEnv \<Rightarrow> string \<Rightarrow> 'w larkWorld feishuAPI" where
  "NewAPI env domain =
     \<lparr>fa_ValidateApp = \<lambda>appID appSecret. on_world (ValidateApp (lk_http env) domain appID appSecret),
      fa_SendText = SendText env, fa_CreateCard = CreateCard env, fa_PatchCard = PatchCard env\<rparr>"

section \<open>Incoming messages\<close>

text \<open>An event of the SDK: its fields are pointers to strings; a sender or a mention may have no id.\<close>

record larkEvent =
  le_MessageId :: "string option"
  le_ChatId :: "string option"
  le_ChatType :: "string option"
  le_MessageType :: "string option"
  le_Content :: "string option"
  le_SenderOpenId :: "string option option"
  le_Mentions :: "string option option list"

definition derefStr :: "string option \<Rightarrow> string" where
  "derefStr s = (case s of None \<Rightarrow> [] | Some t \<Rightarrow> t)"

text \<open>What is decoded before an error stays.\<close>

definition parseTextContent :: "string \<Rightarrow> string \<Rightarrow> string" where
  "parseTextContent msgType content =
     (if msgType \<noteq> ''text'' then []
      else case json_parse content of None \<Rightarrow> [] | Some v \<Rightarrow> fst (get_str ''text'' (fst (as_struct v))))"

definition normalizeMessage :: "larkEvent \<Rightarrow> feishuMessage" where
  "normalizeMessage e =
     \<lparr>fm_MessageID = derefStr (le_MessageId e), fm_ChatID = derefStr (le_ChatId e), fm_ChatType = derefStr (le_ChatType e),
      fm_SenderOpenID = (case le_SenderOpenId e of None \<Rightarrow> [] | Some i \<Rightarrow> derefStr i),
      fm_Text = parseTextContent (derefStr (le_MessageType e)) (derefStr (le_Content e)),
      fm_MentionedOpenIDs = map derefStr (concat (map (\<lambda>m. case m of None \<Rightarrow> [] | Some i \<Rightarrow> [i]) (le_Mentions e)))\<rparr>"

definition shouldHandle :: "feishuMessage \<Rightarrow> string \<Rightarrow> bool" where
  "shouldHandle msg botOpenID =
     (if fm_Text msg = [] then False
      else if fm_ChatType msg = ''p2p'' then True
      else if botOpenID = [] then False
      else list_ex (\<lambda>i. i = botOpenID) (fm_MentionedOpenIDs msg))"

definition feishu_event :: "startRuntimeRequest \<Rightarrow> feishuMessage \<Rightarrow> runtimeEvent" where
  "feishu_event req msg =
     \<lparr>ev_BotID = srq_BotID req, ev_ChannelType = srq_ChannelType req, ev_MessageID = fm_MessageID msg,
      ev_From = fm_SenderOpenID msg, ev_Text = fm_Text msg,
      ev_ReplyTarget =
        \<lparr>rt_ChannelType = srq_ChannelType req, rt_RecipientID = fm_ChatID msg,
         rt_Metadata = [(''bot_id'', srq_BotID req), (''chat_id'', fm_ChatID msg), (''chat_type'', fm_ChatType msg),
                        (''message_id'', fm_MessageID msg), (''sender_open_id'', fm_SenderOpenID msg)]\<rparr>,
      ev_Raw = []\<rparr>"

text \<open>What a message makes the runtime call \<open>OnEvent\<close> with, if anything.\<close>

definition onMessage :: "startRuntimeRequest \<Rightarrow> credentials \<Rightarrow> feishuMessage \<Rightarrow> runtimeEvent option" where
  "onMessage req creds msg =
     (if \<not> shouldHandle msg (cr_BotOpenID creds) then None
      else if \<not> srq_OnEvent req then None
      else Some (feishu_event req msg))"

section \<open>The provider\<close>

definition feishu_CreateBinding :: "int \<Rightarrow> createBindingRequest \<Rightarrow> createBindingResult" where
  "feishu_CreateBinding now req =
     \<lparr>cbr_ProviderBindingRef = cbq_BindingID req, cbr_QRCodePayload = [], cbr_QRShareURL = [], cbr_ExpiresAt = Some (now + 5 * minute)\<rparr>"

definition config_value :: "strmap \<Rightarrow> string \<Rightarrow> string" where
  "config_value m k = (case map_of m k of None \<Rightarrow> [] | Some v \<Rightarrow> v)"

definition credentials_json :: "credentials \<Rightarrow> json" where
  "credentials_json c =
     JObj [(''app_id'', JStr (cr_AppID c)), (''app_secret'', JStr (cr_AppSecret c)), (''bot_open_id'', JStr (cr_BotOpenID c))]"

definition credentials_fields :: "members \<Rightarrow> credentials \<times> bool" where
  "credentials_fields ms =
     (let (i, e1) = get_str ''app_id'' ms; (s, e2) = get_str ''app_secret'' ms; (b, e3) = get_str ''bot_open_id'' ms
      in (\<lparr>cr_AppID = i, cr_AppSecret = s, cr_BotOpenID = b\<rparr>, e1 \<or> e2 \<or> e3))"

definition feishu_RefreshBinding :: "'w feishuAPI \<Rightarrow> refreshBindingRequest \<Rightarrow> ('w, refreshBindingResult) io" where
  "feishu_RefreshBinding api req =
     (let appID = TrimSpace (config_value (rbq_Config req) ''app_id'');
          appSecret = TrimSpace (config_value (rbq_Config req) ''app_secret'')
      in if appID = [] \<or> appSecret = [] then return_err (errorf ''feishu: app_id and app_secret are required'')
         else attempt (fa_ValidateApp api appID appSecret) (\<lambda>res. case res of
                Inl err \<Rightarrow> return_err (wrapf ''feishu validate app: '' err [])
              | Inr info \<Rightarrow>
                  return_ok \<lparr>rbr_ProviderStatus = ''confirmed'', rbr_QRCodePayload = [], rbr_ExpiresAt = None, rbr_AccountUID = appID,
                    rbr_DisplayName = ai_AppName info, rbr_AvatarURL = [],
                    rbr_CredentialPayload = json_text (credentials_json
                      \<lparr>cr_AppID = appID, cr_AppSecret = appSecret, cr_BotOpenID = ai_BotOpenID info\<rparr>),
                    rbr_CredentialVersion = 1, rbr_ErrorMessage = []\<rparr>))"

definition feishu_BuildRuntimeConfig :: "buildRuntimeConfigRequest \<Rightarrow> json" where
  "feishu_BuildRuntimeConfig req = JObj [(''credential_blob'', JObj [(''version'', JNum (brq_CredentialVersion req))])]"

section \<open>The reply gateway\<close>

definition reply_params :: "replyTarget \<Rightarrow> string \<Rightarrow> sendParams" where
  "reply_params target t =
     (let chatID = TrimSpace (MetadataValue target ''chat_id'');
          chat = (if chatID = [] then TrimSpace (rt_RecipientID target) else chatID);
          sender = TrimSpace (MetadataValue target ''sender_open_id'')
      in if MetadataValue target ''chat_type'' = ''group''
         then \<lparr>sm_ChatID = chat, sm_Body = t, sm_ReplyMessageID = TrimSpace (MetadataValue target ''message_id''),
               sm_Mentions = (if sender \<noteq> [] then [sender] else [])\<rparr>
         else \<lparr>sm_ChatID = chat, sm_Body = t, sm_ReplyMessageID = [], sm_Mentions = []\<rparr>)"

definition reply_outcome :: "goerr + unit \<Rightarrow> ('w, unit) io" where
  "reply_outcome res = (case res of Inl err \<Rightarrow> return_err (wrapf ''feishu reply: '' err []) | Inr _ \<Rightarrow> return_ok ())"

definition feishu_Reply :: "'w feishuAPI \<Rightarrow> registry \<Rightarrow> replyTarget \<Rightarrow> response \<Rightarrow> ('w, unit) io" where
  "feishu_Reply api reg target resp =
     (let t = TrimSpace (rs_Text resp); botID = TrimSpace (MetadataValue target ''bot_id'') in
      if t = [] then return_ok ()
      else if botID = [] then return_err (errorf ''feishu reply: bot_id metadata required'')
      else case Lookup botID reg of
             None \<Rightarrow> return_err (errorf (''feishu reply: bot '' @ Quote botID @ '' is not active''))
           | Some creds \<Rightarrow>
               attempt (fa_SendText api creds (reply_params target t)) reply_outcome)"

section \<open>The runtime\<close>

text \<open>
  The part of \<open>StartRuntime\<close> before its goroutine: the credentials, the registry and the event of the
  state, or the error.  \<open>dial\<close> is the dialer.
\<close>

definition state_of :: "startRuntimeRequest \<Rightarrow> runtimeStateKind \<Rightarrow> goerr option \<Rightarrow> string \<Rightarrow> runtimeStateEvent option" where
  "state_of req k err reason =
     (if srq_OnState req
      then Some \<lparr>se_BotID = srq_BotID req, se_ChannelType = srq_ChannelType req, se_State = k, se_Err = err, se_Reason = reason\<rparr>
      else None)"

definition feishu_StartRuntime ::
  "'w httpEnv \<Rightarrow> (credentials \<Rightarrow> ('w, unit) io) \<Rightarrow> startRuntimeRequest \<Rightarrow> (registry \<times> 'w, credentials \<times> runtimeStateEvent option) io" where
  "feishu_StartRuntime env dial req = (\<lambda>(reg, w).
     case unmarshal_struct credentials_fields (srq_CredentialPayload req) of
       None \<Rightarrow> (Inl (wrapf ''feishu unmarshal credentials: '' (he_jsonError env (srq_CredentialPayload req)) []), (reg, w))
     | Some creds \<Rightarrow>
         if cr_AppID creds = [] \<or> cr_AppSecret creds = []
         then (Inl (errorf ''feishu: runtime credentials missing app_id/app_secret''), (reg, w))
         else (case dial creds w of
                 (Inl err, w1) \<Rightarrow> (Inl (wrapf ''feishu dial: '' err []), (reg, w1))
               | (Inr _, w1) \<Rightarrow>
                   (Inr (creds, state_of req RuntimeStateConnected None []), (Register (srq_BotID req) creds reg, w1))))"

text \<open>
  The goroutine after the connection has ended, with the error of its context if it has one: the state
  event it reports.  It takes the credentials from the registry afterwards.
\<close>

definition end_event :: "startRuntimeRequest \<Rightarrow> goerr option \<Rightarrow> goerr option \<Rightarrow> runtimeStateEvent option" where
  "end_event req ctxErr startErr =
     (case ctxErr of
        Some err \<Rightarrow> state_of req RuntimeStateStopped None (err_msg err)
      | None \<Rightarrow> state_of req RuntimeStateError startErr [])"

end
