(* ===== verification/Startup.thy ===== *)
theory Startup
  imports Commands A2AServer Orchestration HttpChannel Feishu
begin

text \<open>
  How the program starts: the dispatch of its arguments (\<open>main.go\<close>), opening and migrating the database
  (\<open>internal/store/db.go\<close>), what \<open>bootstrap.New\<close> makes before it builds its parts, the channels it registers,
  and the work it starts once they are built.  The command library, the file system, the database and its
  migrator are parameters.
\<close>

section \<open>The arguments\<close>

definition isHelpArg :: "string \<Rightarrow> bool" where
  "isHelpArg arg \<longleftrightarrow> arg = ''help'' \<or> arg = ''-h'' \<or> arg = ''--help''"

definition usage :: string where
  "usage = ''Usage:'' @ [newline] @ ''  myclaw [server]'' @ [newline] @ ''  myclaw help'' @ [newline]
     @ ''  myclaw mcp <list|add|remove|enable|disable|attach|detach> [...]'' @ [newline]"

text \<open>
  \<open>execute\<close> is \<open>root.Execute\<close> on the arguments: its error, the exit code a command has set and the world;
  \<open>commands\<close> are the names of the commands of the root.  The result is the exit code and what is written to
  the standard error.
\<close>

definition runWithServer ::
  "string list \<Rightarrow> (string list \<Rightarrow> 'w \<Rightarrow> (goerr option \<times> int) \<times> 'w) \<Rightarrow> string list \<Rightarrow> 'w \<Rightarrow> (int \<times> string) \<times> 'w" where
  "runWithServer commands execute args w =
     (case execute args w of
        ((None, code), w1) \<Rightarrow> ((code, []), w1)
      | ((Some err, _), w1) \<Rightarrow>
          (if args \<noteq> [] \<and> \<not> isHelpArg (hd args)
           then if List.member commands (hd args) then ((1, err_msg err @ [newline]), w1)
                else ((1, ''unknown command: '' @ hd args @ [newline, newline] @ usage), w1)
           else ((1, err_msg err @ [newline]), w1)))"

text \<open>A run is silent only when the command library reports no error.\<close>

lemma failed_run_reports:
  assumes "execute args w = ((Some err, code), w1)"
  shows "fst (fst (runWithServer commands execute args w)) = 1 \<and> snd (fst (runWithServer commands execute args w)) \<noteq> []"
  using assms by (simp add: runWithServer_def)

section \<open>The database\<close>

record 'w dbEnv =
  db_gorm :: "string \<Rightarrow> ('w, unit) io"
  db_sql :: "('w, unit) io"
  db_source :: "('w, unit) io"
  db_driver :: "('w, unit) io"
  db_migrator :: "('w, unit) io"
  db_Up :: "('w, unit) io"
  db_ErrNoChange :: "goerr \<Rightarrow> bool"

text \<open>An operation whose error gets a prefix.\<close>

definition prefixed :: "string \<Rightarrow> ('w, 'a) io \<Rightarrow> ('w, 'a) io" where
  "prefixed what op = attempt op (\<lambda>r. case r of Inl err \<Rightarrow> return_err (wrapf (what @ '': '') err []) | Inr a \<Rightarrow> return_ok a)"

definition store_Open :: "'w dbEnv \<Rightarrow> string \<Rightarrow> ('w, unit) io" where
  "store_Open env dsn = prefixed ''open sqlite'' (db_gorm env dsn)"

definition store_Migrate :: "'w dbEnv \<Rightarrow> ('w, unit) io" where
  "store_Migrate env =
     andThen (prefixed ''get sql db'' (db_sql env)) (\<lambda>_.
     andThen (prefixed ''new iofs source'' (db_source env)) (\<lambda>_.
     andThen (prefixed ''new sqlite migration driver'' (db_driver env)) (\<lambda>_.
     andThen (prefixed ''new migrator'' (db_migrator env)) (\<lambda>_.
       attempt (db_Up env) (\<lambda>r. case r of
         Inr _ \<Rightarrow> return_ok ()
       | Inl err \<Rightarrow> if db_ErrNoChange env err then return_ok () else return_err (wrapf ''run up migrations: '' err []))))))"

section \<open>What is made before the parts\<close>

record 'w bootEnv =
  be_MkdirAll :: "string \<Rightarrow> ('w, unit) io"
  be_db :: "'w dbEnv"
  be_aead :: "string \<Rightarrow> gcm"

definition boot_prepare :: "'w bootEnv \<Rightarrow> config \<Rightarrow> ('w, gcm) io" where
  "boot_prepare env cfg =
     andThen (if cfg_DataDir cfg \<noteq> [] then be_MkdirAll env (cfg_DataDir cfg) else return_ok ()) (\<lambda>_.
     andThen (if cfg_SQLitePath cfg \<noteq> [] \<and> cfg_SQLitePath cfg \<noteq> '':memory:''
              then be_MkdirAll env (path_Dir (cfg_SQLitePath cfg)) else return_ok ()) (\<lambda>_.
     andThen (store_Open (be_db env) (cfg_SQLitePath cfg)) (\<lambda>_.
     andThen (store_Migrate (be_db env)) (\<lambda>_.
       lift_sum (NewCipher (be_aead env) (cfg_ChannelMasterKey cfg))))))"

section \<open>The channels\<close>

text \<open>Every provider is registered as its own starter.\<close>

definition boot_providers :: "'p \<Rightarrow> 'p \<Rightarrow> 'p \<Rightarrow> ('p, 'p) multiProvider" where
  "boot_providers wechat http feishu =
     Register_provider Some ''feishu'' (Some feishu) (Some feishu)
       (Register_provider Some http_ChannelType (Some http) (Some http)
         (Register_provider Some ''wechat'' (Some wechat) (Some wechat) NewMultiProvider))"

definition boot_gateways :: "'g \<Rightarrow> 'g \<Rightarrow> 'g \<Rightarrow> 'g multiReplyGateway" where
  "boot_gateways wechat http feishu =
     Register_gateway ''feishu'' feishu (Register_gateway http_ChannelType http (Register_gateway ''wechat'' wechat Map.empty))"

definition boot_reporters :: "'r \<Rightarrow> 'r multiProgressReporter" where
  "boot_reporters feishu = Register_reporter ''feishu'' feishu Map.empty"

lemma boot_providers_iff: "mp_providers (boot_providers w h f) t = (if t = ''feishu'' then Some f else if t = ''http'' then Some h else if t = ''wechat'' then Some w else None)"
  by (simp add: boot_providers_def Register_provider_def NewMultiProvider_def http_ChannelType_def)

lemma boot_starters_iff: "mp_starters (boot_providers w h f) t = (if t = ''feishu'' then Some f else if t = ''http'' then Some h else if t = ''wechat'' then Some w else None)"
  by (simp add: boot_providers_def Register_provider_def NewMultiProvider_def http_ChannelType_def)

lemma boot_gateways_iff: "boot_gateways w h f t = (if t = ''feishu'' then Some f else if t = ''http'' then Some h else if t = ''wechat'' then Some w else None)"
  by (simp add: boot_gateways_def Register_gateway_def http_ChannelType_def)

text \<open>
  Every channel that can start a runtime can also bind accounts and answer: an answer to a bot whose runtime was
  started reaches the gateway of its channel, and is refused for no other reason than the gateway's own.
\<close>

lemma started_channels_answer:
  assumes "mp_StartRuntime start (boot_providers w h f) req = Inr handle"
  shows "mp_providers (boot_providers w h f) (srq_ChannelType req) \<noteq> None"
    and "rt_ChannelType target = srq_ChannelType req
      \<Longrightarrow> \<exists>gw \<in> {gw, gh, gf}. mg_Reply call (boot_gateways gw gh gf) target resp = call gw target resp"
  using assms
  by (auto simp: mp_StartRuntime_def mg_Reply_def boot_starters_iff boot_providers_iff boot_gateways_iff split: if_splits)

section \<open>The work that is started\<close>

definition health_ttl :: int where "health_ttl = 90 * second"

text \<open>The loop of the sweeper, over the times its ticker fires: an error of a sweep is dropped.\<close>

definition HealthSweeper ::
  "('r \<Rightarrow> (goerr + registeredAgent list) \<times> 'r) \<Rightarrow> 'r upserter \<Rightarrow> int \<Rightarrow> int list \<Rightarrow> 'r \<Rightarrow> 'r" where
  "HealthSweeper listed upsert ttl ticks r =
     fold (\<lambda>now r. case listed r of (res, r1) \<Rightarrow> snd (SweepStaleAgents res upsert ttl now r1)) ticks r"

text \<open>
  The end of \<open>New\<close>: the capabilities are refreshed and the sub-agents registered, errors only being logged;
  then the runtimes are restored.  The restoring and the sweeper run in goroutines of their own.
\<close>

definition boot_start ::
  "'w goenv \<Rightarrow> 'w agentCapabilityRepository \<Rightarrow> (string \<Rightarrow> goerr + string) \<Rightarrow> (nat \<Rightarrow> string) \<Rightarrow> 'w botRepository
   \<Rightarrow> 'w upserter \<Rightarrow> 'w \<Rightarrow> 'w" where
  "boot_start env capabilities lookPath ulid bots upsert w =
     (case capability_Refresh env capabilities lookPath w of
        (_, w1) \<Rightarrow> (case br_ListWithAccounts bots w1 of
          (listed, w2) \<Rightarrow> snd (SyncLocalAgents ulid listed upsert w2)))"

end
