(* ===== verification/JsonFuel.thy ===== *)
theory JsonFuel
  imports WeChat
begin

text \<open>
  The fuel of the two functions that are given one is enough: the JSON parser reads any text the same with more
  fuel than \<open>json_parse\<close> gives it, and the nested members of a login session are no deeper than the
  text they were read from is long.
\<close>

section \<open>How deep a value is\<close>

fun json_depth :: "json \<Rightarrow> nat" where
  "json_depth (JArr js) = Suc (foldr max (map json_depth js) 0)"
| "json_depth (JObj ms) = Suc (foldr max (map (\<lambda>(k, v). json_depth v) ms) 0)"
| "json_depth _ = 1"

definition members_depth :: "members \<Rightarrow> nat" where
  "members_depth ms = foldr max (map (\<lambda>(k, v). json_depth v) ms) 0"

lemma members_depth_simps [simp]:
  "members_depth [] = 0"
  "members_depth ((k, v) # ms) = max (json_depth v) (members_depth ms)"
  by (simp_all add: members_depth_def)

lemma members_depth_append [simp]: "members_depth (ms @ ns) = max (members_depth ms) (members_depth ns)"
  by (induction ms) auto

lemma json_depth_obj [simp]: "json_depth (JObj ms) = Suc (members_depth ms)"
  by (simp add: members_depth_def)

declare json_depth.simps(2) [simp del]

section \<open>The parser takes what it reads\<close>

lemma skip_ws_length: "length (skip_ws s) \<le> length s"
  by (simp add: skip_ws_def length_dropWhile_le)

lemma prepend_Some: "prepend p x = Some (t, r) \<longleftrightarrow> (\<exists>t'. x = Some (t', r) \<and> t = p @ t')"
  by (auto simp: prepend_def)

lemma parse_chars_shorter: "parse_chars s = Some (t, r) \<Longrightarrow> length r < length s"
proof (induction s arbitrary: t r rule: length_induct)
  case (1 s)
  then have IH: "parse_chars u = Some (x, r) \<Longrightarrow> length u < length s \<Longrightarrow> length r < length s" for u x
    using less_trans by blast
  show ?case
  proof (cases s)
    case (Cons c cs)
    show ?thesis
      using 1(2) IH [of cs] IH [of "drop 4 (tl cs)"] IH [of "drop 10 (tl cs)"] IH [of "tl cs"] IH [of "drop (utf8_len s) s"]
      unfolding Cons parse_chars.simps
      by (auto simp: prepend_Some split: if_splits list.splits option.splits)
  qed (use 1(2) in simp)
qed

lemma dropWhile_less: "takeWhile P s \<noteq> [] \<Longrightarrow> length (dropWhile P s) < length s"
  by (cases s) (auto simp: length_dropWhile_le less_Suc_eq_le split: if_splits)

lemma parse_number_shorter:
  assumes "parse_number s = Some (v, r)"
  shows "length r < length s \<and> json_depth v = 1"
proof -
  obtain neg s1 where p1: "(case s of c # cs \<Rightarrow> if c = CHR ''-'' then (True, cs) else (False, s) | [] \<Rightarrow> (False, s)) = (neg, s1)"
    by fastforce
  obtain frac s3 where p2: "(case dropWhile is_digit s1 of
      c # cs \<Rightarrow> if c = CHR ''.'' then (c # takeWhile is_digit cs, dropWhile is_digit cs) else ([], dropWhile is_digit s1)
    | [] \<Rightarrow> ([], dropWhile is_digit s1)) = (frac, s3)" by fastforce
  obtain expo s4 where p3: "(case s3 of
      c # cs \<Rightarrow> if c = CHR ''e'' \<or> c = CHR ''E''
        then (let sg = takeWhile (\<lambda>d. d = CHR ''+'' \<or> d = CHR ''-'') (take 1 cs); r = drop (length sg) cs
              in (c # sg @ takeWhile is_digit r, dropWhile is_digit r))
        else ([], s3)
    | [] \<Rightarrow> ([], s3)) = (expo, s4)" by fastforce
  have res: "takeWhile is_digit s1 \<noteq> [] \<and> r = s4 \<and> json_depth v = 1"
    using assms unfolding parse_number_def p1 Let_def case_prod_conv p2 by (auto simp: p3 [unfolded Let_def] split: if_splits)
  have drops: "length (dropWhile is_digit cs) \<le> length cs" for cs by (rule length_dropWhile_le)
  have "length s1 \<le> length s" using p1 by (auto split: list.splits if_splits)
  moreover have "length (dropWhile is_digit s1) < length s1" using res by (intro dropWhile_less) simp
  moreover have "length s3 \<le> length (dropWhile is_digit s1)"
  proof (cases "dropWhile is_digit s1")
    case (Cons c cs)
    with p2 have "s3 = dropWhile is_digit cs \<or> s3 = c # cs" by (auto split: if_splits)
    then show ?thesis using drops [of cs] by (auto simp: Cons)
  next
    case Nil
    with p2 [unfolded Nil] show ?thesis by simp
  qed
  moreover have "length s4 \<le> length s3"
  proof (cases s3)
    case (Cons c cs)
    have "length (dropWhile is_digit (drop n cs)) \<le> Suc (length cs)" for n
      using drops [of "drop n cs"] by simp
    with p3 show ?thesis by (auto simp: Cons Let_def split: if_splits)
  qed (use p3 in simp)
  ultimately show ?thesis using res by simp
qed

lemma tl_shorter: "HasPrefix s [c] \<Longrightarrow> length (tl s) < length s"
  by (cases s) (auto simp: HasPrefix_def)

text \<open>What is read and what is left are no longer than the text: a value takes a character at least for each level.\<close>

lemma json_shrinks_all:
  "(\<forall>s v r. json_value n s = Some (v, r) \<longrightarrow> json_depth v + length r \<le> length s)
   \<and> (\<forall>s vs r. json_elems n s = Some (vs, r) \<longrightarrow> foldr max (map json_depth vs) 0 + length r < length s)
   \<and> (\<forall>s ms r. json_members n s = Some (ms, r) \<longrightarrow> members_depth ms + length r < length s)"
proof (induction n)
  case (Suc n)
  have val: "json_value n s = Some (v, r) \<Longrightarrow> json_depth v + length r \<le> length s" for s v r using Suc by blast
  have elems: "json_elems n s = Some (vs, r) \<Longrightarrow> foldr max (map json_depth vs) 0 + length r < length s" for s vs r using Suc by blast
  have members: "json_members n s = Some (ms, r) \<Longrightarrow> members_depth ms + length r < length s" for s ms r using Suc by blast
  have "json_depth v + length r \<le> length s" if e: "json_value (Suc n) s = Some (v, r)" for s v r
  proof (cases "skip_ws s")
    case (Cons c cs)
    then have l: "length cs < length s" using skip_ws_length [of s] by simp
    from e Cons consider t where "parse_chars cs = Some (t, r)" "v = JStr t"
      | x where "HasPrefix (skip_ws cs) [x]" "r = tl (skip_ws cs)" "json_depth v = 1"
      | vs where "json_elems n cs = Some (vs, r)" "v = JArr vs"
      | ms where "json_members n cs = Some (ms, r)" "v = JObj ms"
      | k where "r = drop (Suc k) (c # cs)" "json_depth v = 1"
      | "parse_number (c # cs) = Some (v, r)"
      by (auto simp: numeral_eq_Suc split: if_splits)
    then show ?thesis
    proof cases
      case 1 then show ?thesis using parse_chars_shorter [of cs t r] l by simp
    next
      case 2 then show ?thesis using tl_shorter [of "skip_ws cs" x] skip_ws_length [of cs] l by simp
    next
      case 3 then show ?thesis using elems [of cs vs r] l by simp
    next
      case 4 then show ?thesis using members [of cs ms r] l by simp
    next
      case 5 then show ?thesis using l by simp
    next
      case 6 then show ?thesis using parse_number_shorter [of "c # cs" v r] l by simp
    qed
  qed (use e in simp)
  moreover have "foldr max (map json_depth vs) 0 + length r < length s" if e: "json_elems (Suc n) s = Some (vs, r)" for s vs r
  proof -
    from e obtain v r0 c cs where h: "json_value n s = Some (v, r0)" "skip_ws r0 = c # cs"
      by (auto split: option.splits list.splits)
    with e consider "vs = [v]" "r = cs" | vs1 where "vs = v # vs1" "json_elems n cs = Some (vs1, r)"
      by (auto split: if_splits)
    then show ?thesis using val [OF h(1)] skip_ws_length [of r0] elems [of cs _ r] h(2) by cases fastforce+
  qed
  moreover have "members_depth ms + length r < length s" if e: "json_members (Suc n) s = Some (ms, r)" for s ms r
  proof -
    from e obtain q qs k r0 v r1 c cs where h: "skip_ws s = q # qs" "parse_chars qs = Some (k, r0)" "HasPrefix (skip_ws r0) '':''"
        "json_value n (tl (skip_ws r0)) = Some (v, r1)" "skip_ws r1 = c # cs"
      by (auto split: if_splits option.splits list.splits)
    with e consider "ms = [(k, v)]" "r = cs" | ms1 where "ms = (k, v) # ms1" "json_members n cs = Some (ms1, r)"
      by (auto split: if_splits)
    moreover have "length (tl (skip_ws r0)) < length s"
      using tl_shorter [OF h(3)] skip_ws_length [of r0] parse_chars_shorter [OF h(2)] skip_ws_length [of s] h(1) by simp
    ultimately show ?thesis using val [OF h(4)] skip_ws_length [of r1] members [of cs _ r] h(5) by cases fastforce+
  qed
  ultimately show ?case by blast
qed simp

lemma json_shrinks:
  "json_value n s = Some (v, r) \<Longrightarrow> json_depth v + length r \<le> length s"
  using json_shrinks_all by blast

section \<open>More fuel changes nothing\<close>

lemma json_fuel_step_all:
  "(\<forall>s. 2 * length s + 1 \<le> n \<longrightarrow> json_value (Suc n) s = json_value n s)
   \<and> (\<forall>s. 2 * length s + 2 \<le> n \<longrightarrow> json_elems (Suc n) s = json_elems n s)
   \<and> (\<forall>s. 2 * length s + 2 \<le> n \<longrightarrow> json_members (Suc n) s = json_members n s)"
proof (induction n)
  case (Suc n)
  have val: "2 * length s + 1 \<le> n \<Longrightarrow> json_value (Suc n) s = json_value n s" for s using Suc by blast
  have elems: "2 * length s + 2 \<le> n \<Longrightarrow> json_elems (Suc n) s = json_elems n s" for s using Suc by blast
  have members: "2 * length s + 2 \<le> n \<Longrightarrow> json_members (Suc n) s = json_members n s" for s using Suc by blast
  have "json_value (Suc (Suc n)) s = json_value (Suc n) s" if l: "2 * length s + 1 \<le> Suc n" for s
  proof (cases "skip_ws s")
    case (Cons c cs)
    then have "2 * length cs + 2 \<le> n" using skip_ws_length [of s] l by simp
    then show ?thesis
      unfolding json_value.simps(2) [of "Suc n"] json_value.simps(2) [of n] Cons by (simp only: elems members list.case)
  qed simp
  moreover have "json_elems (Suc (Suc n)) s = json_elems (Suc n) s" if l: "2 * length s + 2 \<le> Suc n" for s
  proof -
    have "json_elems (Suc n) cs = json_elems n cs" if "json_value n s = Some (v, r)" "skip_ws r = c # cs" for v r c cs
      using json_shrinks [OF that(1)] skip_ws_length [of r] that(2) l by (intro elems) simp
    then show ?thesis
      unfolding json_elems.simps(2) [of "Suc n"] json_elems.simps(2) [of n]
      using val [of s] l by (auto split: option.split list.split)
  qed
  moreover have "json_members (Suc (Suc n)) s = json_members (Suc n) s" if l: "2 * length s + 2 \<le> Suc n" for s
  proof (cases "skip_ws s")
    case (Cons q qs)
    have inner: "2 * length (tl (skip_ws r0)) + 1 \<le> n" if "parse_chars qs = Some (k, r0)" "HasPrefix (skip_ws r0) '':''" for k r0
      using parse_chars_shorter [OF that(1)] tl_shorter [OF that(2)] skip_ws_length [of r0] skip_ws_length [of s] l Cons by simp
    note unfold = json_members.simps(2) [of "Suc n" s] json_members.simps(2) [of n s]
    show ?thesis
    proof (cases "\<exists>k r0. parse_chars qs = Some (k, r0) \<and> HasPrefix (skip_ws r0) '':''")
      case True
      then obtain k r0 where h: "parse_chars qs = Some (k, r0)" "HasPrefix (skip_ws r0) '':''" by blast
      have "json_members (Suc n) cs = json_members n cs"
        if "json_value n (tl (skip_ws r0)) = Some (v, r)" "skip_ws r = c # cs" for v r c cs
        using inner [OF h] json_shrinks [OF that(1)] skip_ws_length [of r] that(2) by (intro members) simp
      then show ?thesis
        unfolding unfold Cons
        by (simp only: h val [OF inner [OF h]] list.case option.case prod.case simp_thms if_True if_False split: option.split list.split prod.split) auto
    next
      case False
      then show ?thesis
        unfolding unfold Cons by (cases "parse_chars qs") (auto simp del: json_value.simps json_members.simps)
    qed
  qed simp
  ultimately show ?case by blast
qed simp

text \<open>The parser reads every text the same whatever fuel it has beyond what \<open>json_parse\<close> gives it.\<close>

lemma json_fuel_enough: "2 * length s + 1 \<le> n \<Longrightarrow> json_value n s = json_value (2 * length s + 1) s"
proof (induction n rule: nat_induct_at_least)
  case (Suc n)
  then show ?case using json_fuel_step_all [of n] by simp
qed simp

section \<open>The members of a login session\<close>

definition ptr_depth :: "members option \<Rightarrow> nat" where
  "ptr_depth p = (case p of None \<Rightarrow> 0 | Some ms \<Rightarrow> Suc (members_depth ms))"

lemma upd_ptr_depth: "ptr_depth (fst (upd_ptr v acc)) \<le> max (json_depth v) (ptr_depth (fst acc))"
  by (cases "(v, acc)" rule: upd_ptr.cases) (auto simp: ptr_depth_def)

lemma get_ptr_depth: "ptr_depth (fst (get_ptr k ms)) \<le> members_depth ms"
proof -
  have "ptr_depth (fst (fold (\<lambda>(n, v) acc. if same_name n k then upd_ptr v acc else acc) ms acc))
      \<le> max (members_depth ms) (ptr_depth (fst acc))" for acc
  proof (induction ms arbitrary: acc)
    case (Cons m ms)
    obtain n v where m: "m = (n, v)" by (cases m)
    show ?case using Cons [of "if same_name n k then upd_ptr v acc else acc"] upd_ptr_depth [of v acc] by (auto simp: m)
  qed simp
  from this [of "(None, False)"] show ?thesis by (simp add: get_ptr_def decode_field_def ptr_depth_def)
qed

lemma createSession_fuel_step: "members_depth ms \<le> n \<Longrightarrow> createSession_fields parse (Suc n) ms = createSession_fields parse n ms"
proof (induction n arbitrary: ms)
  case 0
  then have "fst (get_ptr ''data'' ms) = None"
    using get_ptr_depth [of "''data''" ms] by (auto simp: ptr_depth_def split: option.splits)
  then show ?case by (simp add: createSession_fields.simps split_beta)
next
  case (Suc n)
  note unfold = createSession_fields.simps [of parse "Suc (Suc n)" ms] createSession_fields.simps [of parse "Suc n" ms]
  show ?case
  proof (cases "fst (get_ptr ''data'' ms)")
    case None
    then show ?thesis by (simp add: unfold split_beta)
  next
    case (Some ms1)
    then have "createSession_fields parse (Suc n) ms1 = createSession_fields parse n ms1"
      using get_ptr_depth [of "''data''" ms] Suc by (simp add: ptr_depth_def)
    with Some show ?thesis by (simp add: unfold split_beta)
  qed
qed

text \<open>The members of a text are decoded the same whatever fuel there is beyond its length.\<close>

lemma createSession_fuel_enough:
  assumes "json_first body = Some (JObj ms)" "length body \<le> n"
  shows "createSession_fields parse n ms = createSession_fields parse (length body) ms"
proof -
  obtain r where "json_value (2 * length body + 1) body = Some (JObj ms, r)" using assms(1) by (auto simp: json_first_def)
  from json_shrinks [OF this] have d: "members_depth ms \<le> length body" by simp
  from assms(2) show ?thesis
  proof (induction n rule: nat_induct_at_least)
    case (Suc n)
    then show ?case using createSession_fuel_step [of ms n parse] d by simp
  qed simp
qed

end
