(* ===== verification/FeishuTrace.thy ===== *)
theory FeishuTrace
  imports Feishu
begin

text \<open>
  The trace cards of the Feishu channel, \<open>internal/channel/feishu/progress.go\<close>: the text of a card, and a
  session as the steps of its goroutines: the callers of \<open>Ack\<close>, \<open>Step\<close> and \<open>Done\<close> or \<open>Fail\<close>, and the
  loop that makes the calls to the API.  A step is what one goroutine does between two points where others
  may run: the lock is released around a call to the API.  The clock and the results of the calls come
  with the actions.
\<close>

section \<open>The text of a card\<close>

definition maxTraceLines :: nat where "maxTraceLines = 25"

record traceStep =
  tp_tool :: string
  tp_target :: string

record traceState =
  tt_steps :: "traceStep list"
  tt_terminal :: string
  tt_reason :: string
  tt_elapsed :: int

text \<open>The texts of the source in UTF-8.\<close>

definition toolEmojis :: "(string \<times> string) list" where
  "toolEmojis =
     [(''Bash'', bytes [0xF0, 0x9F, 0x94, 0xA7]), (''Read'', bytes [0xF0, 0x9F, 0x93, 0x96]),
      (''Edit'', bytes [0xE2, 0x9C, 0x8F, 0xEF, 0xB8, 0x8F]), (''Write'', bytes [0xE2, 0x9C, 0x8F, 0xEF, 0xB8, 0x8F]),
      (''Grep'', bytes [0xF0, 0x9F, 0x94, 0x8D]), (''Glob'', bytes [0xF0, 0x9F, 0x94, 0x8D]),
      (''WebFetch'', bytes [0xF0, 0x9F, 0x8C, 0x90]), (''WebSearch'', bytes [0xF0, 0x9F, 0x8C, 0x90]),
      (''Task'', bytes [0xF0, 0x9F, 0xA4, 0x96])]"

definition toolEmoji :: "string \<Rightarrow> string" where
  "toolEmoji t = (case map_of toolEmojis t of Some e \<Rightarrow> e | None \<Rightarrow> bytes [0xE2, 0x96, 0xB8])"

text \<open>The time elapsed is not negative, and whole seconds of it are shown.\<close>

definition bu_text :: string where "bu_text = bytes [0xE6, 0xAD, 0xA5]"

definition traceHeader :: "traceState \<Rightarrow> string" where
  "traceHeader st =
     (if tt_terminal st = ''done''
      then bytes [0xE2, 0x9C, 0x85, 0x20, 0xE5, 0xAE, 0x8C, 0xE6, 0x88, 0x90, 0x20, 0xC2, 0xB7, 0x20] @ Itoa (int (length (tt_steps st)))
           @ '' '' @ bu_text @ bytes [0x20, 0xC2, 0xB7, 0x20] @ Itoa (tt_elapsed st div second) @ ''s''
      else if tt_terminal st = ''fail''
      then (let failed = bytes [0xE2, 0x9A, 0xA0, 0xEF, 0xB8, 0x8F, 0x20, 0xE5, 0xA4, 0xB1, 0xE8, 0xB4, 0xA5] in
            if TrimSpace (tt_reason st) \<noteq> [] then failed @ bytes [0xEF, 0xBC, 0x9A] @ tt_reason st else failed)
      else bytes [0xF0, 0x9F, 0xA4, 0x96, 0x20, 0xE5, 0xA4, 0x84, 0xE7, 0x90, 0x86, 0xE4, 0xB8, 0xAD, 0xE2, 0x80, 0xA6])"

definition step_line :: "traceStep \<Rightarrow> string" where
  "step_line s =
     newline # toolEmoji (tp_tool s) @ '' '' @ tp_tool s @ (if tp_target s \<noteq> [] then ''  '' @ tp_target s else [])"

definition progress_text :: "traceState \<Rightarrow> string" where
  "progress_text st =
     (let n = length (tt_steps st) in
      ''**'' @ traceHeader st @ ''**''
      @ (if n > maxTraceLines
         then newline # bytes [0xE2, 0x80, 0xA6] @ ''(+'' @ Itoa (int (n - maxTraceLines)) @ '' '' @ bu_text @ '')''
         else [])
      @ concat (map step_line (drop (n - maxTraceLines) (tt_steps st))))"

definition buildProgressCard :: "traceState \<Rightarrow> string" where
  "buildProgressCard st = markdown_card (progress_text st)"

section \<open>A session\<close>

definition traceMinInterval :: int where "traceMinInterval = 700 * millisecond"

record traceTarget =
  tg_chatID :: string
  tg_replyMessageID :: string

text \<open>
  The calls to the API, in the order in which they are made: creating the card, and replacing the card with
  the given id, each with the state it shows.
\<close>

datatype traceRPC = CreateRPC traceState | PatchRPC string traceState

fun rpc_state :: "traceRPC \<Rightarrow> traceState" where
  "rpc_state (CreateRPC st) = st"
| "rpc_state (PatchRPC _ st) = st"

definition create_call :: "'w feishuAPI \<Rightarrow> credentials \<Rightarrow> traceTarget \<Rightarrow> traceState \<Rightarrow> ('w, string) io" where
  "create_call api creds target st =
     fa_CreateCard api creds \<lparr>cp_ChatID = tg_chatID target, cp_Content = buildProgressCard st, cp_ReplyMessageID = tg_replyMessageID target\<rparr>"

definition patch_call :: "'w feishuAPI \<Rightarrow> credentials \<Rightarrow> string \<Rightarrow> traceState \<Rightarrow> ('w, unit) io" where
  "patch_call api creds messageID st = fa_PatchCard api creds messageID (buildProgressCard st)"

text \<open>
  Where the goroutines are.  The loop: not started, at the outer and at the inner \<open>select\<close>, waiting for the
  API in \<open>flushNow\<close> with its argument \<open>final\<close>, or over (\<open>flushed\<close> closed).  The first call of \<open>finish\<close>: none, past its lock with a card to finish, past
  \<open>ensureLoop\<close>, past closing \<open>closed\<close>, returned; or returned with nothing to show.
\<close>

datatype loopPC = LoopOff | LoopSelect | LoopTimer | LoopCreating bool | LoopPatching bool | LoopOver
datatype finPC = FinNone | FinStarted | FinLooped | FinClosed | FinReturned | FinSkipped

text \<open>
  \<open>tr_acking\<close> and \<open>tr_acked\<close> count the calls of \<open>Ack\<close> that wait for the API and those before \<open>ensureLoop\<close>,
  \<open>tr_ensuring\<close> and \<open>tr_signalling\<close> those of \<open>Step\<close> before \<open>ensureLoop\<close> and before \<open>signal\<close>.
\<close>

record traceSession =
  tr_minInterval :: int
  tr_start :: int
  tr_steps :: "traceStep list"
  tr_messageID :: string
  tr_created :: bool
  tr_degraded :: bool
  tr_terminal :: string
  tr_reason :: string
  tr_lastPatch :: int
  tr_wake :: bool
  tr_closed :: bool
  tr_loop :: loopPC
  tr_fin :: finPC
  tr_acking :: nat
  tr_acked :: nat
  tr_ensuring :: nat
  tr_signalling :: nat
  tr_rpcs :: "traceRPC list"

text \<open>\<open>lastPatch\<close> is the zero time, long before any time of the clock.\<close>

definition newTraceSession :: "int \<Rightarrow> int \<Rightarrow> int \<Rightarrow> traceSession" where
  "newTraceSession minInterval now zero_time =
     \<lparr>tr_minInterval = minInterval, tr_start = now, tr_steps = [], tr_messageID = [], tr_created = False, tr_degraded = False,
      tr_terminal = [], tr_reason = [], tr_lastPatch = zero_time, tr_wake = False, tr_closed = False, tr_loop = LoopOff,
      tr_fin = FinNone, tr_acking = 0, tr_acked = 0, tr_ensuring = 0, tr_signalling = 0, tr_rpcs = []\<rparr>"

definition snapshot :: "int \<Rightarrow> traceSession \<Rightarrow> traceState" where
  "snapshot now s =
     \<lparr>tt_steps = tr_steps s, tt_terminal = tr_terminal s, tt_reason = tr_reason s,
      tt_elapsed = (if tr_terminal s = ''done'' then now - tr_start s else 0)\<rparr>"

text \<open>\<open>ensureCardLocked\<close>: its call to the API, and what it does with the result.\<close>

definition issue_create :: "int \<Rightarrow> traceSession \<Rightarrow> traceSession" where
  "issue_create now s = s\<lparr>tr_rpcs := tr_rpcs s @ [CreateRPC (snapshot now s)]\<rparr>"

definition card_result :: "int \<Rightarrow> goerr + string \<Rightarrow> traceSession \<Rightarrow> traceSession" where
  "card_result now r s =
     (case r of
        Inl _ \<Rightarrow> s\<lparr>tr_degraded := True\<rparr>
      | Inr i \<Rightarrow> s\<lparr>tr_messageID := i, tr_created := True, tr_lastPatch := now\<rparr>)"

definition issue_patch :: "int \<Rightarrow> traceSession \<Rightarrow> traceSession" where
  "issue_patch now s = s\<lparr>tr_rpcs := tr_rpcs s @ [PatchRPC (tr_messageID s) (snapshot now s)], tr_lastPatch := now\<rparr>"

text \<open>\<open>flushNow\<close>: up to its call to the API, and from the result of \<open>CreateCard\<close>, and of \<open>PatchCard\<close>.\<close>

definition flush_return :: "bool \<Rightarrow> traceSession \<Rightarrow> traceSession" where
  "flush_return final s = s\<lparr>tr_loop := (if final then LoopOver else LoopSelect)\<rparr>"

definition flushNow :: "int \<Rightarrow> bool \<Rightarrow> traceSession \<Rightarrow> traceSession" where
  "flushNow now final s =
     (if tr_degraded s then flush_return final s
      else if \<not> tr_created s then (issue_create now s)\<lparr>tr_loop := LoopCreating final\<rparr>
      else (issue_patch now s)\<lparr>tr_loop := LoopPatching final\<rparr>)"

definition flush_created :: "int \<Rightarrow> bool \<Rightarrow> goerr + string \<Rightarrow> traceSession \<Rightarrow> traceSession" where
  "flush_created now final r s =
     (let s1 = card_result now r s in
      case r of
        Inl _ \<Rightarrow> flush_return final s1
      | Inr _ \<Rightarrow> if \<not> final then flush_return final s1 else (issue_patch now s1)\<lparr>tr_loop := LoopPatching final\<rparr>)"

definition ensureLoop :: "traceSession \<Rightarrow> traceSession" where
  "ensureLoop s = (if tr_loop s = LoopOff then s\<lparr>tr_loop := LoopSelect\<rparr> else s)"

section \<open>Actions\<close>

datatype traceAction =
    AckCall int | AckReturn int "goerr + string" | AckLoop
  | StepCall progressEvent | StepLoop | StepSignal
  | FinishCall string string | FinishLoop | FinishClose | FinishReturn
  | LoopClosed int | LoopWake int | LoopTimeout int | LoopAnswer int "goerr + string"

fun ack_step :: "traceAction \<Rightarrow> traceSession \<Rightarrow> traceSession option" where
  "ack_step (AckCall now) s =
     Some (if tr_created s \<or> tr_degraded s then s\<lparr>tr_acked := tr_acked s + 1\<rparr>
           else (issue_create now s)\<lparr>tr_acking := tr_acking s + 1\<rparr>)"
| "ack_step (AckReturn now r) s =
     (if tr_acking s = 0 then None
      else let s1 = (card_result now r s)\<lparr>tr_acking := tr_acking s - 1\<rparr> in
           Some (case r of Inl _ \<Rightarrow> s1 | Inr _ \<Rightarrow> s1\<lparr>tr_acked := tr_acked s + 1\<rparr>))"
| "ack_step AckLoop s = (if tr_acked s = 0 then None else Some ((ensureLoop s)\<lparr>tr_acked := tr_acked s - 1\<rparr>))"
| "ack_step _ s = None"

fun caller_step :: "traceAction \<Rightarrow> traceSession \<Rightarrow> traceSession option" where
  "caller_step (StepCall ev) s =
     Some (s\<lparr>tr_steps := tr_steps s @ [\<lparr>tp_tool = pe_Tool ev, tp_target = pe_Target ev\<rparr>], tr_ensuring := tr_ensuring s + 1\<rparr>)"
| "caller_step StepLoop s =
     (if tr_ensuring s = 0 then None
      else Some ((ensureLoop s)\<lparr>tr_ensuring := tr_ensuring s - 1, tr_signalling := tr_signalling s + 1\<rparr>))"
| "caller_step StepSignal s =
     (if tr_signalling s = 0 then None else Some (s\<lparr>tr_signalling := tr_signalling s - 1, tr_wake := True\<rparr>))"
| "caller_step _ s = None"

text \<open>A call of \<open>finish\<close> after the first returns at once.\<close>

fun finish_step :: "traceAction \<Rightarrow> traceSession \<Rightarrow> traceSession option" where
  "finish_step (FinishCall kind reason) s =
     (if tr_terminal s \<noteq> [] then Some s
      else Some (s\<lparr>tr_terminal := kind, tr_reason := reason,
                   tr_fin := (if tr_created s \<or> length (tr_steps s) > 0 then FinStarted else FinSkipped)\<rparr>))"
| "finish_step FinishLoop s = (if tr_fin s \<noteq> FinStarted then None else Some ((ensureLoop s)\<lparr>tr_fin := FinLooped\<rparr>))"
| "finish_step FinishClose s = (if tr_fin s \<noteq> FinLooped then None else Some (s\<lparr>tr_closed := True, tr_fin := FinClosed\<rparr>))"
| "finish_step FinishReturn s =
     (if tr_fin s = FinClosed \<and> tr_loop s = LoopOver then Some (s\<lparr>tr_fin := FinReturned\<rparr>) else None)"
| "finish_step _ s = None"

fun loop_step :: "traceAction \<Rightarrow> traceSession \<Rightarrow> traceSession option" where
  "loop_step (LoopClosed now) s =
     (if tr_closed s \<and> (tr_loop s = LoopSelect \<or> tr_loop s = LoopTimer) then Some (flushNow now True s) else None)"
| "loop_step (LoopWake now) s =
     (if tr_wake s \<and> tr_loop s = LoopSelect
      then let s1 = s\<lparr>tr_wake := False\<rparr> in
           Some (if tr_minInterval s - (now - tr_lastPatch s) > 0 then s1\<lparr>tr_loop := LoopTimer\<rparr> else flushNow now False s1)
      else None)"
| "loop_step (LoopTimeout now) s = (if tr_loop s = LoopTimer then Some (flushNow now False s) else None)"
| "loop_step (LoopAnswer now r) s =
     (case tr_loop s of
        LoopCreating final \<Rightarrow> Some (flush_created now final r s)
      | LoopPatching final \<Rightarrow> Some (flush_return final s)
      | _ \<Rightarrow> None)"
| "loop_step _ s = None"

text \<open>\<open>Done\<close> and \<open>Fail\<close> are the two kinds of \<open>finish\<close>.\<close>

definition finish_kind :: "traceAction \<Rightarrow> bool" where
  "finish_kind a = (case a of FinishCall kind reason \<Rightarrow> (kind = ''done'' \<and> reason = []) \<or> kind = ''fail'' | _ \<Rightarrow> True)"

definition tr_step :: "traceAction \<Rightarrow> traceSession \<Rightarrow> traceSession option" where
  "tr_step a s =
     (if \<not> finish_kind a then None
      else case a of
             AckCall _ \<Rightarrow> ack_step a s | AckReturn _ _ \<Rightarrow> ack_step a s | AckLoop \<Rightarrow> ack_step a s
           | StepCall _ \<Rightarrow> caller_step a s | StepLoop \<Rightarrow> caller_step a s | StepSignal \<Rightarrow> caller_step a s
           | FinishCall _ _ \<Rightarrow> finish_step a s | FinishLoop \<Rightarrow> finish_step a s | FinishClose \<Rightarrow> finish_step a s
           | FinishReturn \<Rightarrow> finish_step a s
           | _ \<Rightarrow> loop_step a s)"

text \<open>
  The steps of a session.  In a calm session, as the orchestrator makes it, \<open>Ack\<close> is called before anything
  else, and nothing else is called until it has returned.
\<close>

definition untouched :: "traceSession \<Rightarrow> bool" where
  "untouched s \<longleftrightarrow> tr_loop s = LoopOff \<and> tr_fin s = FinNone \<and> tr_steps s = []"

fun ack_call :: "traceAction \<Rightarrow> bool" where
  "ack_call (AckCall _) = True"
| "ack_call _ = False"

fun ack_goes_on :: "traceAction \<Rightarrow> bool" where
  "ack_goes_on (AckReturn _ _) = True"
| "ack_goes_on AckLoop = True"
| "ack_goes_on _ = False"

definition calm_action :: "traceAction \<Rightarrow> traceSession \<Rightarrow> bool" where
  "calm_action a s \<longleftrightarrow> (ack_call a \<longrightarrow> untouched s) \<and> (tr_acking s > 0 \<or> tr_acked s > 0 \<longrightarrow> ack_goes_on a)"

inductive trace_step :: "bool \<Rightarrow> traceSession \<Rightarrow> traceSession \<Rightarrow> bool" for calm where
  act: "tr_step a s = Some t \<Longrightarrow> calm \<longrightarrow> calm_action a s \<Longrightarrow> trace_step calm s t"

definition trace_initial :: "traceSession \<Rightarrow> bool" where
  "trace_initial s \<longleftrightarrow> (\<exists>minInterval now zero_time. s = newTraceSession minInterval now zero_time)"

section \<open>The reporter\<close>

text \<open>\<open>Begin\<close>: the credentials and the destination of the session, if there is one.\<close>

definition feishu_Begin :: "registry \<Rightarrow> bool \<Rightarrow> replyTarget \<Rightarrow> (credentials \<times> traceTarget) option" where
  "feishu_Begin reg enabled target =
     (if \<not> enabled \<or> rt_ChannelType target \<noteq> feishuType then None
      else case Lookup (TrimSpace (MetadataValue target ''bot_id'')) reg of
             None \<Rightarrow> None
           | Some creds \<Rightarrow>
               (let chatID = TrimSpace (MetadataValue target ''chat_id'');
                    chat = (if chatID = [] then TrimSpace (rt_RecipientID target) else chatID)
                in Some (creds, \<lparr>tg_chatID = chat,
                     tg_replyMessageID = (if MetadataValue target ''chat_type'' = ''group'' then TrimSpace (MetadataValue target ''message_id'') else [])\<rparr>)))"

end
