(* ===== verification/FeishuTraceLaws.thy ===== *)
theory FeishuTraceLaws
  imports FeishuTrace "HOL-Library.Sublist"
begin

text \<open>
  What a trace card shows: how many lines it has; that the last call to the API of a finished session
  shows its outcome and its steps; that finishing never waits for ever; that a calm session makes one
  card; and that a step after a turn that showed nothing starts a loop that never ends.
\<close>

section \<open>Lines of a card\<close>

lemma char_no_newline: "n mod 256 \<noteq> (10 :: nat) \<Longrightarrow> char_of n \<noteq> newline"
proof
  assume n: "n mod 256 \<noteq> 10" and "char_of n = newline"
  then have "(of_char (char_of n :: char) :: nat) = of_char newline" by (rule_tac arg_cong)
  with n show False by (simp add: newline_def)
qed

lemma bytes_no_newline: "list_all (\<lambda>n. n mod 256 \<noteq> 10) ns \<Longrightarrow> newline \<notin> set (bytes ns)"
  using char_no_newline by (fastforce simp: bytes_def list_all_iff)

lemma emoji_no_newline: "newline \<notin> set (toolEmoji t)"
proof (cases "map_of toolEmojis t")
  case None
  then show ?thesis by (simp add: toolEmoji_def bytes_no_newline)
next
  case (Some e)
  have "list_all (\<lambda>(_, e). newline \<notin> set e) toolEmojis" by (simp add: toolEmojis_def bytes_no_newline)
  then show ?thesis using map_of_SomeD [OF Some] Some by (auto simp: toolEmoji_def list_all_iff)
qed

lemma itoa_no_newline: "newline \<notin> set (itoa_nat n)"
proof (induction n rule: itoa_nat.induct)
  case (1 n)
  have "char_of (48 + m mod 10) \<noteq> newline" for m :: nat
  proof -
    have "m mod 10 < 10" by simp
    then have "(48 + m mod 10) mod 256 = 48 + m mod 10" by (intro mod_less) linarith
    then have "(48 + m mod 10) mod 256 \<noteq> 10" by simp
    then show ?thesis by (rule char_no_newline)
  qed
  from this [of n] show ?case
    using 1 by (subst itoa_nat.simps) (auto simp del: itoa_nat.simps)
qed

lemma Itoa_no_newline: "newline \<notin> set (Itoa i)"
  using itoa_no_newline by (simp add: Itoa_def newline_def)

lemma header_no_newline: "newline \<notin> set (tt_reason st) \<Longrightarrow> newline \<notin> set (traceHeader st)"
  by (simp add: traceHeader_def bytes_no_newline Itoa_no_newline bu_text_def Let_def) (simp add: newline_def)

lemma step_line_count:
  "newline \<notin> set (tp_tool s @ tp_target s) \<Longrightarrow> count_list (step_line s) newline = 1"
  using emoji_no_newline by (simp add: step_line_def count_list_append count_notin) (simp add: newline_def)

lemma step_lines_count:
  "list_all (\<lambda>s. newline \<notin> set (tp_tool s @ tp_target s)) ss \<Longrightarrow> count_list (concat (map step_line ss)) newline = length ss"
  by (induction ss) (simp_all add: count_list_append step_line_count)

lemma list_all_drop: "list_all P xs \<Longrightarrow> list_all P (drop n xs)"
  by (metis append_take_drop_id list_all_append)

text \<open>
  However long a turn is, its card has a header, at most 25 lines of steps, which are the last ones, and
  one line for the number of the others, when no tool, target or reason has a line break.
\<close>

theorem card_lines_bounded:
  assumes "newline \<notin> set (tt_reason st)" "list_all (\<lambda>s. newline \<notin> set (tp_tool s @ tp_target s)) (tt_steps st)"
  shows "count_list (progress_text st) newline = (if length (tt_steps st) > 25 then 26 else length (tt_steps st))
    \<and> suffix (concat (map step_line (drop (length (tt_steps st) - 25) (tt_steps st)))) (progress_text st)"
proof -
  have "count_list (concat (map step_line (drop (length (tt_steps st) - 25) (tt_steps st)))) newline = min 25 (length (tt_steps st))"
    using step_lines_count [OF list_all_drop [OF assms(2)]] by simp
  moreover have "count_list (traceHeader st) newline = 0" by (simp add: count_notin header_no_newline [OF assms(1)])
  moreover have "newline \<notin> set (bytes [0xE2, 0x80, 0xA6] @ ''(+'' @ Itoa i @ '' '' @ bu_text @ '')'')" for i
    by (simp add: bytes_no_newline Itoa_no_newline bu_text_def) (simp add: newline_def)
  ultimately show ?thesis
    by (cases "length (tt_steps st) > 25") (simp_all add: progress_text_def maxTraceLines_def Let_def count_list_append count_notin suffix_def newline_def)
qed

section \<open>Steps of a session\<close>

lemmas trace_ops = issue_create_def issue_patch_def card_result_def flush_return_def flushNow_def flush_created_def ensureLoop_def
  snapshot_def

lemmas trace_steps = tr_step_def finish_kind_def trace_ops

lemma tr_step_cases:
  assumes "tr_step a s = Some t"
  obtains (ack) "ack_step a s = Some t" | (caller) "caller_step a s = Some t" | (finish) "finish_step a s = Some t" "finish_kind a"
    | (loop) "loop_step a s = Some t"
  using assms by (auto simp: tr_step_def split: if_splits traceAction.splits)

text \<open>The control state: how closing, finishing and the loop go together.\<close>

definition final_phase :: "traceSession \<Rightarrow> bool" where
  "final_phase s \<longleftrightarrow> tr_loop s = LoopCreating True \<or> tr_loop s = LoopPatching True \<or> tr_loop s = LoopOver"

definition trace_inv :: "traceSession \<Rightarrow> bool" where
  "trace_inv s \<longleftrightarrow>
     (tr_closed s \<longleftrightarrow> tr_fin s = FinClosed \<or> tr_fin s = FinReturned) \<and> (tr_fin s = FinReturned \<longrightarrow> tr_loop s = LoopOver)
     \<and> (final_phase s \<longrightarrow> tr_closed s) \<and> (tr_terminal s = [] \<longleftrightarrow> tr_fin s = FinNone)
     \<and> (tr_fin s = FinLooped \<or> tr_closed s \<longrightarrow> tr_loop s \<noteq> LoopOff)"

text \<open>What the steps do to the control state, and what only the flushing of a state does to the calls.\<close>

definition loop_edge :: "loopPC \<Rightarrow> loopPC \<Rightarrow> bool" where
  "loop_edge p q \<longleftrightarrow>
     (case p of
        LoopOff \<Rightarrow> False
      | LoopSelect \<Rightarrow> q \<noteq> LoopOff | LoopTimer \<Rightarrow> q \<noteq> LoopOff \<and> q \<noteq> LoopTimer
      | LoopCreating final \<Rightarrow> q = (if final then LoopOver else LoopSelect) \<or> (final \<and> q = LoopPatching True)
      | LoopPatching final \<Rightarrow> q = (if final then LoopOver else LoopSelect)
      | LoopOver \<Rightarrow> False)"

definition final_pc :: "loopPC \<Rightarrow> bool" where
  "final_pc p \<longleftrightarrow> p = LoopCreating True \<or> p = LoopPatching True \<or> p = LoopOver"

lemma final_phase_pc: "final_phase s = final_pc (tr_loop s)"
  by (simp add: final_phase_def final_pc_def)

lemma flushNow_control [simp]:
  "tr_closed (flushNow now final s) = tr_closed s" "tr_fin (flushNow now final s) = tr_fin s"
  "tr_terminal (flushNow now final s) = tr_terminal s" "tr_steps (flushNow now final s) = tr_steps s"
  "tr_acking (flushNow now final s) = tr_acking s" "tr_acked (flushNow now final s) = tr_acked s" "tr_wake (flushNow now final s) = tr_wake s"
  "tr_created (flushNow now final s) = tr_created s" "tr_degraded (flushNow now final s) = tr_degraded s"
  "tr_messageID (flushNow now final s) = tr_messageID s"
  "tr_loop (flushNow now final s) =
     (if tr_degraded s then if final then LoopOver else LoopSelect else if tr_created s then LoopPatching final else LoopCreating final)"
  "tr_rpcs (flushNow now final s) =
     (if tr_degraded s then tr_rpcs s
      else if tr_created s then tr_rpcs s @ [PatchRPC (tr_messageID s) (snapshot now s)] else tr_rpcs s @ [CreateRPC (snapshot now s)])"
  by (simp_all add: flushNow_def flush_return_def issue_create_def issue_patch_def)

lemma flush_created_control [simp]:
  "tr_closed (flush_created now final r s) = tr_closed s" "tr_fin (flush_created now final r s) = tr_fin s"
  "tr_terminal (flush_created now final r s) = tr_terminal s" "tr_steps (flush_created now final r s) = tr_steps s"
  "tr_acking (flush_created now final r s) = tr_acking s" "tr_acked (flush_created now final r s) = tr_acked s" "tr_wake (flush_created now final r s) = tr_wake s"
  "tr_created (flush_created now final r s) = (tr_created s \<or> \<not> isl r)" "tr_degraded (flush_created now final r s) = (tr_degraded s \<or> isl r)"
  "tr_messageID (flush_created now final r s) = (case r of Inl _ \<Rightarrow> tr_messageID s | Inr i \<Rightarrow> i)"
  "tr_loop (flush_created now final r s) = (if final then if isl r then LoopOver else LoopPatching True else LoopSelect)"
  "tr_rpcs (flush_created now final r s) =
     (case r of Inr i \<Rightarrow> if final then tr_rpcs s @ [PatchRPC i (snapshot now s)] else tr_rpcs s | Inl _ \<Rightarrow> tr_rpcs s)"
  by (cases r; cases final; simp add: flush_created_def flush_return_def issue_patch_def card_result_def snapshot_def)+

lemma flush_return_control [simp]:
  "tr_closed (flush_return final s) = tr_closed s" "tr_fin (flush_return final s) = tr_fin s"
  "tr_terminal (flush_return final s) = tr_terminal s" "tr_steps (flush_return final s) = tr_steps s"
  "tr_acking (flush_return final s) = tr_acking s" "tr_acked (flush_return final s) = tr_acked s" "tr_wake (flush_return final s) = tr_wake s"
  "tr_created (flush_return final s) = tr_created s" "tr_degraded (flush_return final s) = tr_degraded s"
  "tr_messageID (flush_return final s) = tr_messageID s" "tr_rpcs (flush_return final s) = tr_rpcs s"
  "tr_loop (flush_return final s) = (if final then LoopOver else LoopSelect)"
  by (simp_all add: flush_return_def)

lemma ensureLoop_control [simp]:
  "tr_closed (ensureLoop s) = tr_closed s" "tr_fin (ensureLoop s) = tr_fin s" "tr_terminal (ensureLoop s) = tr_terminal s"
  "tr_steps (ensureLoop s) = tr_steps s" "tr_acking (ensureLoop s) = tr_acking s" "tr_acked (ensureLoop s) = tr_acked s" "tr_wake (ensureLoop s) = tr_wake s"
  "tr_created (ensureLoop s) = tr_created s" "tr_degraded (ensureLoop s) = tr_degraded s" "tr_messageID (ensureLoop s) = tr_messageID s"
  "tr_rpcs (ensureLoop s) = tr_rpcs s" "tr_loop (ensureLoop s) = (if tr_loop s = LoopOff then LoopSelect else tr_loop s)"
  by (simp_all add: ensureLoop_def)

lemma card_result_control [simp]:
  "tr_closed (card_result now r s) = tr_closed s" "tr_fin (card_result now r s) = tr_fin s" "tr_terminal (card_result now r s) = tr_terminal s"
  "tr_steps (card_result now r s) = tr_steps s" "tr_wake (card_result now r s) = tr_wake s" "tr_loop (card_result now r s) = tr_loop s"
  "tr_created (card_result now r s) = (tr_created s \<or> \<not> isl r)" "tr_degraded (card_result now r s) = (tr_degraded s \<or> isl r)"
  "tr_rpcs (card_result now r s) = tr_rpcs s" "tr_acked (card_result now r s) = tr_acked s"
  by (cases r; simp add: card_result_def)+

lemma snapshot_shows [simp]: "tt_terminal (snapshot now s) = tr_terminal s" "tt_steps (snapshot now s) = tr_steps s"
  by (simp_all add: snapshot_def)

text \<open>A call of \<open>Ack\<close> or \<open>Step\<close>: the loop may be started, and a call may be made that shows the state.\<close>

definition shows_state :: "traceSession \<Rightarrow> traceSession \<Rightarrow> bool" where
  "shows_state s t \<longleftrightarrow> tr_rpcs t = tr_rpcs s
     \<or> (\<exists>r. tr_rpcs t = tr_rpcs s @ [r] \<and> tt_terminal (rpc_state r) = tr_terminal s \<and> tt_steps (rpc_state r) = tr_steps s)"

lemma ack_control:
  assumes "ack_step a s = Some t"
  shows "tr_closed t = tr_closed s \<and> tr_fin t = tr_fin s \<and> tr_terminal t = tr_terminal s \<and> tr_steps t = tr_steps s
    \<and> (tr_loop t = tr_loop s \<or> tr_loop s = LoopOff \<and> tr_loop t = LoopSelect) \<and> (tr_degraded s \<longrightarrow> tr_degraded t) \<and> shows_state s t
    \<and> tr_wake t = tr_wake s"
  using assms by (cases a) (auto simp: shows_state_def issue_create_def Let_def split: if_splits sum.splits)

lemma caller_control:
  assumes "caller_step a s = Some t"
  shows "tr_closed t = tr_closed s \<and> tr_fin t = tr_fin s \<and> tr_terminal t = tr_terminal s \<and> prefix (tr_steps s) (tr_steps t)
    \<and> (tr_loop t = tr_loop s \<or> tr_loop s = LoopOff \<and> tr_loop t = LoopSelect) \<and> tr_degraded t = tr_degraded s
    \<and> tr_created t = tr_created s \<and> tr_messageID t = tr_messageID s \<and> tr_acking t = tr_acking s \<and> tr_acked t = tr_acked s \<and> tr_rpcs t = tr_rpcs s"
  using assms by (cases a) (auto split: if_splits)

lemma finish_control:
  assumes "finish_step a s = Some t"
  shows "tr_steps t = tr_steps s \<and> tr_rpcs t = tr_rpcs s \<and> tr_degraded t = tr_degraded s \<and> tr_created t = tr_created s
    \<and> tr_messageID t = tr_messageID s \<and> tr_acking t = tr_acking s \<and> tr_acked t = tr_acked s \<and> (tr_terminal s \<noteq> [] \<longrightarrow> tr_terminal t = tr_terminal s)
    \<and> (tr_loop t = tr_loop s \<or> tr_loop s = LoopOff \<and> tr_loop t = LoopSelect) \<and> (tr_fin s = FinSkipped \<and> tr_terminal s \<noteq> [] \<longrightarrow> tr_fin t = FinSkipped)"
  using assms by (cases a) (auto split: if_splits)

lemma loop_control:
  assumes "loop_step a s = Some t"
  shows "tr_closed t = tr_closed s \<and> tr_fin t = tr_fin s \<and> tr_terminal t = tr_terminal s \<and> tr_steps t = tr_steps s
    \<and> loop_edge (tr_loop s) (tr_loop t) \<and> (tr_degraded s \<longrightarrow> tr_degraded t) \<and> tr_acking t = tr_acking s \<and> tr_acked t = tr_acked s
    \<and> (final_pc (tr_loop t) \<longrightarrow> tr_closed s \<or> final_pc (tr_loop s)) \<and> shows_state s t"
proof (cases a)
  case (LoopClosed now)
  with assms show ?thesis by (auto simp: loop_edge_def final_pc_def shows_state_def split: if_splits)
next
  case (LoopWake now)
  then have "tr_wake s" "tr_loop s = LoopSelect" and t: "t = (s\<lparr>tr_wake := False\<rparr>)\<lparr>tr_loop := LoopTimer\<rparr> \<or> t = flushNow now False (s\<lparr>tr_wake := False\<rparr>)"
    using assms by (auto simp: Let_def split: if_splits)
  from t \<open>tr_loop s = LoopSelect\<close> show ?thesis by (elim disjE) (simp_all add: loop_edge_def final_pc_def shows_state_def)
next
  case (LoopTimeout now)
  with assms show ?thesis by (auto simp: loop_edge_def final_pc_def shows_state_def split: if_splits)
next
  case (LoopAnswer now r)
  with assms show ?thesis
    by (cases r; cases "tr_loop s") (auto simp: loop_edge_def final_pc_def shows_state_def)
qed (use assms in auto)

lemma trace_inv_pc: "trace_inv s \<longleftrightarrow>
    (tr_closed s \<longleftrightarrow> tr_fin s = FinClosed \<or> tr_fin s = FinReturned) \<and> (tr_fin s = FinReturned \<longrightarrow> tr_loop s = LoopOver)
     \<and> (final_pc (tr_loop s) \<longrightarrow> tr_closed s) \<and> (tr_terminal s = [] \<longleftrightarrow> tr_fin s = FinNone)
     \<and> (tr_fin s = FinLooped \<or> tr_closed s \<longrightarrow> tr_loop s \<noteq> LoopOff)"
  by (simp add: trace_inv_def final_phase_pc)

lemma final_pc_simps [simp]: "final_pc LoopOver" "\<not> final_pc LoopSelect" "\<not> final_pc LoopOff" by (simp_all add: final_pc_def)

lemma ack_inv: "ack_step a s = Some t \<Longrightarrow> trace_inv s \<Longrightarrow> trace_inv t"
  by (drule ack_control) (elim conjE disjE; auto simp: trace_inv_pc)

lemma caller_inv: "caller_step a s = Some t \<Longrightarrow> trace_inv s \<Longrightarrow> trace_inv t"
  by (drule caller_control) (elim conjE disjE; auto simp: trace_inv_pc)

lemma finish_inv:
  assumes "finish_step a s = Some t" "finish_kind a" "trace_inv s"
  shows "trace_inv t"
proof (cases a)
  case (FinishCall kind reason)
  with assms show ?thesis by (auto simp: trace_inv_pc finish_kind_def split: if_splits)
qed (use assms in \<open>auto simp: trace_inv_pc split: if_splits\<close>)

lemma loop_inv: "loop_step a s = Some t \<Longrightarrow> trace_inv s \<Longrightarrow> trace_inv t"
  by (drule loop_control, cases "tr_loop s") (auto simp: trace_inv_pc loop_edge_def split: if_splits)

lemma tr_step_inv: "tr_step a s = Some t \<Longrightarrow> trace_inv s \<Longrightarrow> trace_inv t"
  by (erule tr_step_cases) (auto intro: ack_inv caller_inv finish_inv loop_inv)

lemma initial_trace_inv: "trace_initial s \<Longrightarrow> trace_inv s"
  by (auto simp: trace_initial_def newTraceSession_def trace_inv_def final_phase_def)

interpretation traces: transition_system trace_initial "trace_step calm" trace_inv for calm
proof
  show "trace_initial s \<Longrightarrow> trace_inv s" for s by (rule initial_trace_inv)
  show "trace_step calm s t \<Longrightarrow> trace_inv s \<Longrightarrow> trace_inv t" for s t by (auto elim!: trace_step.cases intro: tr_step_inv)
qed

section \<open>What a finished session shows\<close>

text \<open>The last call shows the outcome and, at the head of its steps, the given ones.\<close>

definition covers :: "traceStep list \<Rightarrow> string \<Rightarrow> traceSession \<Rightarrow> bool" where
  "covers steps kind s \<longleftrightarrow>
     tr_rpcs s \<noteq> [] \<and> tt_terminal (rpc_state (last (tr_rpcs s))) = kind \<and> prefix steps (tt_steps (rpc_state (last (tr_rpcs s))))"

definition settled :: "traceStep list \<Rightarrow> string \<Rightarrow> traceSession \<Rightarrow> bool" where
  "settled steps kind s \<longleftrightarrow>
     tr_terminal s = kind \<and> kind \<noteq> [] \<and> prefix steps (tr_steps s)
     \<and> (tr_loop s = LoopPatching True \<or> tr_loop s = LoopOver \<longrightarrow> tr_degraded s \<or> covers steps kind s)"

lemma settled_kept:
  assumes "settled steps kind s" "tr_terminal t = tr_terminal s" "prefix (tr_steps s) (tr_steps t)" "tr_degraded s \<longrightarrow> tr_degraded t"
    and "shows_state s t" "tr_loop t = tr_loop s \<or> tr_loop s = LoopOff \<and> tr_loop t = LoopSelect"
  shows "settled steps kind t"
proof -
  have "covers steps kind t" if "covers steps kind s"
    using assms(1-3,5) that by (auto simp: settled_def covers_def shows_state_def intro: prefix_order.trans)
  with assms show ?thesis by (auto simp: settled_def intro: prefix_order.trans)
qed

lemma ack_settled: "ack_step a s = Some t \<Longrightarrow> settled steps kind s \<Longrightarrow> settled steps kind t"
  by (drule ack_control) (rule settled_kept, auto)

lemma caller_settled: "caller_step a s = Some t \<Longrightarrow> settled steps kind s \<Longrightarrow> settled steps kind t"
  by (drule caller_control) (rule settled_kept, auto simp: shows_state_def)

lemma finish_settled: "finish_step a s = Some t \<Longrightarrow> settled steps kind s \<Longrightarrow> settled steps kind t"
proof -
  assume "finish_step a s = Some t" and st: "settled steps kind s"
  note c = finish_control [OF this(1)]
  have "tr_terminal s \<noteq> []" using st by (simp add: settled_def)
  with c show ?thesis by (intro settled_kept [OF st]) (simp_all add: shows_state_def)
qed

lemma loop_settled:
  assumes "loop_step a s = Some t" "settled steps kind s"
  shows "settled steps kind t"
proof (cases a)
  case (LoopClosed now)
  with assms show ?thesis by (auto simp: settled_def covers_def split: if_splits)
next
  case (LoopWake now)
  with assms show ?thesis by (auto simp: settled_def Let_def split: if_splits)
next
  case (LoopTimeout now)
  with assms show ?thesis by (auto simp: settled_def split: if_splits)
next
  case (LoopAnswer now r)
  with assms show ?thesis by (cases r; cases "tr_loop s") (auto simp: settled_def covers_def split: if_splits)
qed (use assms in auto)

interpretation settleds: stable_property "trace_step calm" "settled steps kind" for calm steps kind
  by unfold_locales (auto elim!: trace_step.cases tr_step_cases intro: ack_settled caller_settled finish_settled loop_settled)

text \<open>
  C37. When \<open>Done\<close> or \<open>Fail\<close> ends a session that has shown or recorded something and returns, then the last call
  to the API shows its outcome and begins with the steps recorded before; unless the card could not be
  created.  This holds however the calls of \<open>Ack\<close> and \<open>Step\<close> and the loop are interleaved.
\<close>

theorem trace_shows_outcome:
  assumes "trace_initial s0" "(trace_step calm)\<^sup>*\<^sup>* s0 s" "tr_terminal s = []"
    and "tr_step (FinishCall kind reason) s = Some s1" "(trace_step calm)\<^sup>*\<^sup>* s1 s2" "tr_fin s2 = FinReturned"
  shows "tr_degraded s2 \<or> (tr_rpcs s2 \<noteq> [] \<and> tt_terminal (rpc_state (last (tr_rpcs s2))) = kind
    \<and> prefix (tr_steps s) (tt_steps (rpc_state (last (tr_rpcs s2)))))"
proof -
  have inv: "trace_inv s" by (rule traces.reachable_inv [OF assms(1,2)])
  have "\<not> final_phase s" using inv assms(3) by (auto simp: trace_inv_def)
  then have "settled (tr_steps s) kind s1"
    using assms(3,4) by (auto simp: tr_step_def finish_kind_def settled_def final_phase_def split: if_splits)
  then have "settled (tr_steps s) kind s2" by (rule settleds.steps_stable [OF assms(5)])
  moreover have "tr_loop s2 = LoopOver"
    using traces.steps_inv [OF assms(5) tr_step_inv [OF assms(4) inv]] assms(6) by (simp add: trace_inv_def)
  ultimately show ?thesis by (simp add: settled_def covers_def)
qed

section \<open>Finishing never waits for ever\<close>

text \<open>
  An upper bound of the actions the loop has left once \<open>closed\<close> is closed.  Only a signal of \<open>Step\<close> raises it
  again, by at most four.
\<close>

definition loop_rank :: "traceSession \<Rightarrow> nat" where
  "loop_rank s =
     (case tr_loop s of
        LoopOver \<Rightarrow> 0 | LoopPatching final \<Rightarrow> if final then 1 else 4 | LoopCreating final \<Rightarrow> if final then 2 else 5
      | LoopSelect \<Rightarrow> 3 | LoopTimer \<Rightarrow> 6 | LoopOff \<Rightarrow> 0) + (if tr_wake s then 4 else 0)"

lemma loop_rank_decreases:
  assumes "loop_step a s = Some t"
  shows "loop_rank t < loop_rank s"
proof (cases a)
  case (LoopClosed now)
  with assms show ?thesis by (auto simp: loop_rank_def split: if_splits)
next
  case (LoopWake now)
  with assms show ?thesis by (auto simp: loop_rank_def Let_def split: if_splits)
next
  case (LoopTimeout now)
  with assms show ?thesis by (auto simp: loop_rank_def split: if_splits)
next
  case (LoopAnswer now r)
  with assms show ?thesis by (cases "tr_loop s") (auto simp: loop_rank_def)
qed (use assms in auto)

lemma loop_rank_bound: "loop_rank s \<le> 10"
  by (simp add: loop_rank_def split: loopPC.splits)

fun loop_action :: "traceAction \<Rightarrow> bool" where
  "loop_action (LoopClosed _) = True"
| "loop_action (LoopWake _) = True"
| "loop_action (LoopTimeout _) = True"
| "loop_action (LoopAnswer _ _) = True"
| "loop_action _ = False"

lemma loop_action_step: "loop_action a \<Longrightarrow> tr_step a s = loop_step a s"
  by (cases a) (simp_all add: tr_step_def finish_kind_def)

lemma loop_action_iff: "loop_step a s = Some t \<Longrightarrow> loop_action a"
  by (cases a) simp_all

lemma caller_rank:
  "caller_step a s = Some t \<Longrightarrow> tr_loop s \<noteq> LoopOff \<Longrightarrow>
   tr_loop t = tr_loop s \<and> loop_rank t \<le> loop_rank s + (if a = StepSignal then 4 else 0) \<and> \<not> loop_action a"
  by (cases a) (auto simp: loop_rank_def split: if_splits)

lemma step_rank:
  assumes "tr_step a s = Some t" "tr_loop s \<noteq> LoopOff"
  shows "loop_rank t + (if loop_action a then 1 else 0) \<le> loop_rank s + (if a = StepSignal then 4 else 0)"
  using assms(1)
proof (cases rule: tr_step_cases)
  case ack
  then have "\<not> loop_action a" by (cases a) auto
  with ack_control [OF ack] assms(2) show ?thesis by (auto simp: loop_rank_def)
next
  case caller
  from caller_rank [OF this assms(2)] show ?thesis by auto
next
  case finish
  then have "\<not> loop_action a" "loop_rank t = loop_rank s" using assms(2) by (cases a; auto simp: loop_rank_def split: if_splits)+
  then show ?thesis by simp
next
  case loop
  from loop_rank_decreases [OF this] show ?thesis by simp
qed

fun run_trace :: "traceAction list \<Rightarrow> traceSession \<Rightarrow> traceSession option" where
  "run_trace [] s = Some s"
| "run_trace (a # as) s = (case tr_step a s of None \<Rightarrow> None | Some t \<Rightarrow> run_trace as t)"

lemma run_trace_inv: "run_trace as s = Some t \<Longrightarrow> trace_inv s \<Longrightarrow> trace_inv t"
  by (induction as arbitrary: s) (auto intro: tr_step_inv split: option.splits)

lemma closed_stays: "tr_step a s = Some t \<Longrightarrow> tr_closed s \<Longrightarrow> trace_inv s \<Longrightarrow> tr_closed t"
proof (erule tr_step_cases)
  assume "finish_step a s = Some t" "tr_closed s"
  then show "tr_closed t" by (cases a) (auto split: if_splits)
qed (auto dest: ack_control caller_control loop_control)

lemma run_trace_rank:
  "run_trace as s = Some t \<Longrightarrow> trace_inv s \<Longrightarrow> tr_closed s \<Longrightarrow>
   tr_closed t \<and> length (filter loop_action as) + loop_rank t \<le> loop_rank s + 4 * length (filter (\<lambda>a. a = StepSignal) as)"
proof (induction as arbitrary: s)
  case (Cons a as)
  then obtain u where u: "tr_step a s = Some u" "run_trace as u = Some t" by (auto split: option.splits)
  have "tr_loop s \<noteq> LoopOff" using Cons.prems(2,3) by (simp add: trace_inv_def)
  from step_rank [OF u(1) this] Cons.IH [OF u(2) tr_step_inv [OF u(1) Cons.prems(2)] closed_stays [OF u(1) Cons.prems(3,2)]]
  show ?case by (auto split: if_split_asm)
qed simp

lemma loop_progress: "trace_inv s \<Longrightarrow> tr_closed s \<Longrightarrow> tr_loop s \<noteq> LoopOver \<Longrightarrow> \<exists>a t. loop_step a s = Some t"
  by (cases "tr_loop s")
    (auto simp: trace_inv_def intro: exI [of _ "LoopClosed 0"] exI [of _ "LoopAnswer 0 (Inr [])"])

text \<open>
  C38. \<open>Done\<close> and \<open>Fail\<close> do not wait for ever.  From when they have closed the session, whatever the calls of
  \<open>Ack\<close>, \<open>Step\<close>, \<open>Done\<close> and \<open>Fail\<close> do in between, the loop makes at most ten actions more, and four for each
  time a \<open>Step\<close> signals it; until it is over there always is an action it can make, and once it is over
  the call returns.  (The API has to answer each call, in time or not.)
\<close>

theorem finish_returns:
  assumes "trace_initial s0" "(trace_step calm)\<^sup>*\<^sup>* s0 s" "tr_fin s = FinClosed" "run_trace as s = Some t"
  shows "length (filter loop_action as) \<le> 10 + 4 * length (filter (\<lambda>a. a = StepSignal) as)
    \<and> (tr_loop t \<noteq> LoopOver \<longrightarrow> (\<exists>a u. loop_action a \<and> tr_step a t = Some u))
    \<and> (tr_loop t = LoopOver \<longrightarrow> tr_fin t = FinReturned \<or> (\<exists>u. tr_step FinishReturn t = Some u \<and> tr_fin u = FinReturned))"
proof -
  have inv: "trace_inv s" by (rule traces.reachable_inv [OF assms(1,2)])
  then have "tr_closed s" using assms(3) by (simp add: trace_inv_def)
  note run = run_trace_rank [OF assms(4) inv this] run_trace_inv [OF assms(4) inv]
  have "tr_loop t \<noteq> LoopOver \<longrightarrow> (\<exists>a u. loop_action a \<and> tr_step a t = Some u)"
    using loop_progress [OF run(2)] run(1) loop_action_iff loop_action_step by metis
  moreover have "tr_loop t = LoopOver \<longrightarrow> tr_fin t = FinReturned \<or> (\<exists>u. tr_step FinishReturn t = Some u \<and> tr_fin u = FinReturned)"
    using run by (auto simp: trace_inv_def tr_step_def finish_kind_def)
  moreover have "length (filter loop_action as) \<le> 10 + 4 * length (filter (\<lambda>a. a = StepSignal) as)"
    using run(1) loop_rank_bound [of s] by linarith
  ultimately show ?thesis by blast
qed

section \<open>One card\<close>

definition creates :: "traceRPC list \<Rightarrow> nat" where
  "creates rs = length (filter (\<lambda>r. case r of CreateRPC _ \<Rightarrow> True | _ \<Rightarrow> False) rs)"

lemma creates_append [simp]:
  "creates (rs @ [CreateRPC st]) = creates rs + 1" "creates (rs @ [PatchRPC i st]) = creates rs" "creates [] = 0"
  by (simp_all add: creates_def)

definition card_ok :: "nat \<Rightarrow> loopPC \<Rightarrow> bool \<Rightarrow> bool \<Rightarrow> string \<Rightarrow> traceRPC list \<Rightarrow> bool" where
  "card_ok acking loop created degraded messageID rpcs \<longleftrightarrow>
     (acking > 0 \<longrightarrow> loop = LoopOff)
     \<and> (acking > 0 \<or> (\<exists>final. loop = LoopCreating final) \<longrightarrow> \<not> created \<and> \<not> degraded)
     \<and> creates rpcs = (if created \<or> degraded \<or> acking > 0 \<or> (\<exists>final. loop = LoopCreating final) then 1 else 0)
     \<and> ((\<exists>final. loop = LoopPatching final) \<longrightarrow> created)
     \<and> (\<forall>i st. PatchRPC i st \<in> set rpcs \<longrightarrow> created \<and> i = messageID)"

definition one_card :: "traceSession \<Rightarrow> bool" where
  "one_card s \<longleftrightarrow> tr_acking s + tr_acked s \<le> 1 \<and> card_ok (tr_acking s) (tr_loop s) (tr_created s) (tr_degraded s) (tr_messageID s) (tr_rpcs s)"

lemma card_ok_flush:
  assumes "card_ok ack p c d m rs" "p = LoopSelect \<or> p = LoopTimer"
  shows "card_ok ack LoopSelect c d m rs" "card_ok ack LoopTimer c d m rs" "d \<Longrightarrow> card_ok ack LoopOver c d m rs"
    "\<not> d \<Longrightarrow> c \<Longrightarrow> card_ok ack (LoopPatching final) c d m (rs @ [PatchRPC m st])"
    "\<not> d \<Longrightarrow> \<not> c \<Longrightarrow> card_ok ack (LoopCreating final) c d m (rs @ [CreateRPC st])"
  using assms by (auto simp: card_ok_def)

lemma card_ok_created:
  assumes "card_ok ack (LoopCreating final) c d m rs"
  shows "card_ok ack LoopSelect c True m rs" "card_ok ack LoopOver c True m rs"
    "card_ok ack LoopSelect True d i rs" "card_ok ack (LoopPatching True) True d i (rs @ [PatchRPC i st])"
  using assms by (auto simp: card_ok_def)

lemma card_ok_patched:
  assumes "card_ok ack (LoopPatching final) c d m rs"
  shows "card_ok ack LoopSelect c d m rs" "card_ok ack LoopOver c d m rs"
  using assms by (auto simp: card_ok_def)

lemma card_ok_ack:
  "card_ok 0 LoopOff c d m rs \<Longrightarrow> \<not> c \<Longrightarrow> \<not> d \<Longrightarrow> card_ok 1 LoopOff c d m (rs @ [CreateRPC st])"
  "card_ok 1 p c d m rs \<Longrightarrow> p = LoopOff \<and> card_ok 0 LoopOff c True m rs \<and> card_ok 0 LoopOff True d i rs"
  by (auto simp: card_ok_def)

lemma card_ok_start: "card_ok 0 LoopOff c d m rs \<Longrightarrow> card_ok 0 LoopSelect c d m rs"
  by (auto simp: card_ok_def)

lemma ack_one_card:
  assumes "ack_step a s = Some t" "one_card s" "calm_action a s"
  shows "one_card t"
proof (cases a)
  case (AckCall now)
  then have "tr_acking s = 0" "tr_acked s = 0" "tr_loop s = LoopOff" using assms(3) by (auto simp: calm_action_def untouched_def)
  with AckCall assms card_ok_ack(1) show ?thesis by (auto simp: one_card_def issue_create_def split: if_split_asm)
next
  case (AckReturn now r)
  then have one: "tr_acking s = 1" "tr_acked s = 0" using assms(1,2) by (auto simp: one_card_def split: if_split_asm)
  then have ok: "card_ok 1 (tr_loop s) (tr_created s) (tr_degraded s) (tr_messageID s) (tr_rpcs s)"
    using assms(2) by (simp add: one_card_def)
  from card_ok_ack(2) [OF this] have "tr_loop s = LoopOff" by blast
  with card_ok_ack(2) [OF ok] AckReturn assms(1) one show ?thesis
    by (cases r) (auto simp: one_card_def card_result_def Let_def)
next
  case AckLoop
  then have "tr_acking s = 0" using assms(1,2) by (auto simp: one_card_def split: if_split_asm)
  with AckLoop assms(1,2) card_ok_start show ?thesis by (auto simp: one_card_def ensureLoop_def split: if_split_asm)
qed (use assms in auto)

lemma caller_one_card: "caller_step a s = Some t \<Longrightarrow> one_card s \<Longrightarrow> tr_acking s = 0 \<Longrightarrow> one_card t"
  by (drule caller_control) (elim conjE disjE; simp add: one_card_def card_ok_start)

lemma finish_one_card: "finish_step a s = Some t \<Longrightarrow> one_card s \<Longrightarrow> tr_acking s = 0 \<Longrightarrow> one_card t"
  by (drule finish_control) (elim conjE disjE; simp add: one_card_def card_ok_start)

lemma flush_one_card:
  assumes "one_card s" "tr_loop s = LoopSelect \<or> tr_loop s = LoopTimer"
  shows "one_card (flushNow now final s)"
  using card_ok_flush [OF assms(1) [unfolded one_card_def, THEN conjunct2] assms(2)] assms(1)
  by (cases "tr_created s"; cases "tr_degraded s"; simp add: one_card_def)

lemma loop_one_card:
  assumes "loop_step a s = Some t" "one_card s"
  shows "one_card t"
proof (cases a)
  case (LoopClosed now)
  with assms show ?thesis by (auto intro: flush_one_card split: if_splits)
next
  case (LoopWake now)
  have "one_card (s\<lparr>tr_wake := False\<rparr>)" using assms(2) by (simp add: one_card_def)
  from flush_one_card [OF this] card_ok_flush(2) [OF this [unfolded one_card_def, THEN conjunct2]] LoopWake assms(1) show ?thesis
    by (auto simp: one_card_def Let_def split: if_splits)
next
  case (LoopTimeout now)
  with assms show ?thesis by (auto intro: flush_one_card split: if_splits)
next
  case (LoopAnswer now r)
  show ?thesis
  proof (cases "tr_loop s")
    case (LoopCreating final)
    with LoopAnswer assms card_ok_created [of "tr_acking s" final "tr_created s" "tr_degraded s" "tr_messageID s" "tr_rpcs s"] show ?thesis
      by (cases r) (auto simp: one_card_def)
  next
    case (LoopPatching final)
    with LoopAnswer assms card_ok_patched [of "tr_acking s" final "tr_created s" "tr_degraded s" "tr_messageID s" "tr_rpcs s"] show ?thesis
      by (auto simp: one_card_def)
  qed (use LoopAnswer assms in auto)
qed (use assms in auto)

lemma step_one_card:
  assumes "trace_step True s t" "one_card s"
  shows "one_card t"
proof -
  from assms(1) obtain a where st: "tr_step a s = Some t" and calm: "calm_action a s" by (auto elim: trace_step.cases)
  have quiet: "tr_acking s = 0" if "\<not> ack_goes_on a" using calm that by (auto simp: calm_action_def)
  from st show ?thesis
  proof (cases rule: tr_step_cases)
    case ack
    with assms(2) calm show ?thesis by (auto intro: ack_one_card)
  next
    case caller
    then have "\<not> ack_goes_on a" by (cases a) auto
    with caller assms(2) quiet show ?thesis by (auto intro: caller_one_card)
  next
    case finish
    then have "\<not> ack_goes_on a" by (cases a) auto
    with finish assms(2) quiet show ?thesis by (auto intro: finish_one_card)
  next
    case loop
    with assms(2) show ?thesis by (auto intro: loop_one_card)
  qed
qed

interpretation calm_traces: transition_system trace_initial "trace_step True" one_card
proof
  show "trace_initial s \<Longrightarrow> one_card s" for s by (auto simp: trace_initial_def newTraceSession_def one_card_def card_ok_def)
  show "trace_step True s t \<Longrightarrow> one_card s \<Longrightarrow> one_card t" for s t by (rule step_one_card)
qed

text \<open>
  C39. A session whose \<open>Ack\<close>, if there is one, returns before anything else is called creates at most one card,
  and every later update is of this card.
\<close>

theorem calm_session_one_card:
  assumes "trace_initial s0" "(trace_step True)\<^sup>*\<^sup>* s0 s"
  shows "creates (tr_rpcs s) \<le> 1 \<and> (\<forall>i st. PatchRPC i st \<in> set (tr_rpcs s) \<longrightarrow> tr_created s \<and> i = tr_messageID s)"
  using calm_traces.reachable_inv [OF assms] by (auto simp: one_card_def card_ok_def)

section \<open>A step after the end\<close>

definition abandoned :: "traceSession \<Rightarrow> bool" where
  "abandoned s \<longleftrightarrow> tr_fin s = FinSkipped \<and> trace_inv s \<and> tr_loop s \<noteq> LoopOff"

lemma step_abandoned: "tr_step a s = Some t \<Longrightarrow> abandoned s \<Longrightarrow> abandoned t"
proof -
  assume st: "tr_step a s = Some t" and ab: "abandoned s"
  have inv: "trace_inv t" using tr_step_inv [OF st] ab by (simp add: abandoned_def)
  have "tr_terminal s \<noteq> []" using ab by (auto simp: abandoned_def trace_inv_def)
  from st have "tr_fin t = FinSkipped \<and> tr_loop t \<noteq> LoopOff"
  proof (cases rule: tr_step_cases)
    case ack
    from ack_control [OF this] ab show ?thesis by (auto simp: abandoned_def)
  next
    case caller
    from caller_control [OF this] ab show ?thesis by (auto simp: abandoned_def)
  next
    case finish
    from finish_control [OF finish(1)] ab \<open>tr_terminal s \<noteq> []\<close> show ?thesis by (auto simp: abandoned_def)
  next
    case loop
    from loop_control [OF this] ab show ?thesis by (cases "tr_loop s") (auto simp: abandoned_def loop_edge_def split: if_splits)
  qed
  with inv show ?thesis by (simp add: abandoned_def)
qed

interpretation abandoneds: stable_property "trace_step calm" abandoned for calm
  by unfold_locales (auto elim!: trace_step.cases intro: step_abandoned)

text \<open>
  C40. A step that is reported after a turn has ended that showed nothing starts the loop of a session that is
  never closed: from then on the loop is never over.
\<close>

theorem late_step_leaks:
  "\<exists>s. (trace_step True)\<^sup>*\<^sup>* (newTraceSession traceMinInterval now zero_time) s \<and> tr_fin s = FinSkipped \<and> tr_loop s = LoopSelect
     \<and> (\<forall>calm t. (trace_step calm)\<^sup>*\<^sup>* s t \<longrightarrow> tr_loop t \<noteq> LoopOff \<and> tr_loop t \<noteq> LoopOver)"
proof -
  let ?s0 = "newTraceSession traceMinInterval now zero_time"
  let ?s1 = "?s0\<lparr>tr_terminal := ''fail'', tr_reason := ''r'', tr_fin := FinSkipped\<rparr>"
  let ?s2 = "?s1\<lparr>tr_steps := [\<lparr>tp_tool = ''Bash'', tp_target = []\<rparr>], tr_ensuring := 1\<rparr>"
  let ?s3 = "?s2\<lparr>tr_loop := LoopSelect, tr_ensuring := 0, tr_signalling := 1\<rparr>"
  have 1: "trace_step True ?s0 ?s1"
    by (rule trace_step.act [where a = "FinishCall ''fail'' ''r''"]) (simp_all add: trace_steps newTraceSession_def calm_action_def)
  have 2: "trace_step True ?s1 ?s2"
    by (rule trace_step.act [where a = "StepCall \<lparr>pe_Kind = [], pe_Tool = ''Bash'', pe_Target = []\<rparr>"])
      (simp_all add: trace_steps newTraceSession_def calm_action_def)
  have 3: "trace_step True ?s2 ?s3"
    by (rule trace_step.act [where a = StepLoop]) (simp_all add: trace_steps newTraceSession_def calm_action_def)
  have run: "(trace_step True)\<^sup>*\<^sup>* ?s0 ?s3"
    by (rule converse_rtranclp_into_rtranclp, rule 1, rule converse_rtranclp_into_rtranclp, rule 2,
      rule converse_rtranclp_into_rtranclp, rule 3, rule rtranclp.rtrancl_refl)
  have "trace_initial ?s0" by (auto simp: trace_initial_def)
  from traces.reachable_inv [OF this run] have "abandoned ?s3" by (simp add: abandoned_def)
  then have "abandoned t" if "(trace_step calm)\<^sup>*\<^sup>* ?s3 t" for calm t
    using abandoneds.steps_stable [OF that] by blast
  then have "tr_loop t \<noteq> LoopOff \<and> tr_loop t \<noteq> LoopOver" if "(trace_step calm)\<^sup>*\<^sup>* ?s3 t" for calm t
    using that by (fastforce simp: abandoned_def trace_inv_def final_phase_def)
  with run show ?thesis by (intro exI [of _ ?s3]) (auto simp: newTraceSession_def)
qed

section \<open>Witnesses\<close>

lemma run_trace_steps: "run_trace as s = Some t \<Longrightarrow> (trace_step False)\<^sup>*\<^sup>* s t"
proof (induction as arbitrary: s)
  case (Cons a as)
  then obtain u where u: "tr_step a s = Some u" "run_trace as u = Some t" by (auto split: option.splits)
  have "trace_step False s u" by (rule trace_step.act [OF u(1)]) simp
  then show ?case using Cons.IH [OF u(2)] by (rule converse_rtranclp_into_rtranclp)
qed simp

definition bash_step :: progressEvent where "bash_step = \<lparr>pe_Kind = ''tool'', pe_Tool = ''Bash'', pe_Target = ''ls''\<rparr>"

definition sample_trace :: traceSession where
  "sample_trace = the (run_trace [StepCall bash_step, StepLoop] (newTraceSession traceMinInterval 0 0))"

definition sample_done :: traceSession where
  "sample_done = the (run_trace [FinishCall ''done'' []] sample_trace)"

definition sample_closed :: traceSession where
  "sample_closed = the (run_trace [FinishLoop, FinishClose] sample_done)"

definition sample_over :: traceSession where
  "sample_over = the (run_trace [LoopClosed 5, LoopAnswer 6 (Inr ''m''), LoopAnswer 7 (Inr [])] sample_closed)"

lemmas sample_traces = sample_trace_def sample_done_def sample_closed_def sample_over_def bash_step_def newTraceSession_def trace_steps

lemma sample_initial: "trace_initial (newTraceSession traceMinInterval 0 0)"
  by (auto simp: trace_initial_def)

lemma sample_trace_run:
  "run_trace [StepCall bash_step, StepLoop] (newTraceSession traceMinInterval 0 0) = Some sample_trace"
  "tr_step (FinishCall ''done'' []) sample_trace = Some sample_done"
  "run_trace [FinishLoop, FinishClose] sample_done = Some sample_closed"
  "run_trace [LoopClosed 5, LoopAnswer 6 (Inr ''m''), LoopAnswer 7 (Inr [])] sample_closed = Some sample_over"
  "run_trace [LoopClosed 5, LoopAnswer 6 (Inr ''m''), LoopAnswer 7 (Inr []), FinishReturn] sample_closed = Some (sample_over\<lparr>tr_fin := FinReturned\<rparr>)"
  by (simp_all add: sample_traces)

lemma trace_shows_outcome_witness:
  "tt_terminal (rpc_state (last (tr_rpcs sample_over))) = ''done'' \<and> tr_steps sample_trace \<noteq> []
   \<and> prefix (tr_steps sample_trace) (tt_steps (rpc_state (last (tr_rpcs sample_over))))"
proof -
  have "(trace_step False)\<^sup>*\<^sup>* sample_done (sample_over\<lparr>tr_fin := FinReturned\<rparr>)"
    using run_trace_steps [OF sample_trace_run(3)] run_trace_steps [OF sample_trace_run(5)] by (rule rtranclp_trans)
  moreover have "tr_terminal sample_trace = []" "\<not> tr_degraded sample_over" "tr_steps sample_trace \<noteq> []" by (simp_all add: sample_traces)
  ultimately show ?thesis
    using trace_shows_outcome [OF sample_initial run_trace_steps [OF sample_trace_run(1)] _ sample_trace_run(2)] by fastforce
qed

lemma finish_returns_witness:
  "\<exists>u. tr_step FinishReturn sample_over = Some u \<and> tr_fin u = FinReturned"
proof -
  have "(trace_step False)\<^sup>*\<^sup>* (newTraceSession traceMinInterval 0 0) sample_done"
    using run_trace_steps [OF sample_trace_run(1)] trace_step.act [OF sample_trace_run(2), of False] by auto
  then have "(trace_step False)\<^sup>*\<^sup>* (newTraceSession traceMinInterval 0 0) sample_closed"
    using run_trace_steps [OF sample_trace_run(3)] by (rule rtranclp_trans)
  moreover have "tr_fin sample_closed = FinClosed" "tr_fin sample_over \<noteq> FinReturned" "tr_loop sample_over = LoopOver" by (simp_all add: sample_traces)
  ultimately show ?thesis using finish_returns [OF sample_initial _ _ sample_trace_run(4)] by blast
qed

lemma calm_session_one_card_witness:
  "\<exists>s :: traceSession. tr_rpcs s \<noteq> [] \<and> creates (tr_rpcs s) \<le> 1"
proof -
  let ?s0 = "newTraceSession traceMinInterval 0 0"
  have "trace_step True ?s0 ((issue_create 1 ?s0)\<lparr>tr_acking := 1\<rparr>)"
    by (rule trace_step.act [where a = "AckCall 1"]) (simp_all add: tr_step_def finish_kind_def newTraceSession_def untouched_def calm_action_def)
  from calm_session_one_card [OF sample_initial r_into_rtranclp [of "trace_step True", OF this]]
  have "creates (tr_rpcs ((issue_create 1 ?s0)\<lparr>tr_acking := 1\<rparr>)) \<le> 1" by blast
  moreover have "tr_rpcs ((issue_create 1 ?s0)\<lparr>tr_acking := 1\<rparr>) \<noteq> []" by (simp add: issue_create_def)
  ultimately show ?thesis by blast
qed

lemma card_lines_bounded_witness:
  "count_list (progress_text \<lparr>tt_steps = replicate 30 \<lparr>tp_tool = ''Bash'', tp_target = ''ls''\<rparr>, tt_terminal = [], tt_reason = [], tt_elapsed = 0\<rparr>) newline = 26"
proof -
  let ?st = "\<lparr>tt_steps = replicate 30 \<lparr>tp_tool = ''Bash'', tp_target = ''ls''\<rparr>, tt_terminal = [], tt_reason = [], tt_elapsed = 0\<rparr>"
  have "newline \<notin> set (tt_reason ?st)" by simp
  moreover have "list_all (\<lambda>s. newline \<notin> set (tp_tool s @ tp_target s)) (tt_steps ?st)" by (simp add: list_all_iff newline_def)
  ultimately show ?thesis using card_lines_bounded [of ?st] by simp
qed

lemma late_step_leaks_witness:
  "\<exists>s t. (trace_step True)\<^sup>*\<^sup>* (newTraceSession traceMinInterval 5 0) s \<and> tr_fin s = FinSkipped
     \<and> (trace_step False)\<^sup>*\<^sup>* s t \<and> tr_loop t \<noteq> LoopOff \<and> tr_loop t \<noteq> LoopOver"
  using late_step_leaks [of 5 0] by blast

end
