(* ===== verification/FeishuLaws.thy ===== *)
theory FeishuLaws
  imports Feishu
begin

text \<open>
  What the Feishu channel guarantees: the credentials of a login reach the runtime, an answer goes where
  the message came from, and the registry knows the credentials of a running bot as long as the bot
  is not started again before the goroutine of its last runtime is over.
\<close>

section \<open>Credentials\<close>

lemma credentials_read_back:
  assumes "clean_utf8 (cr_AppID c) = cr_AppID c" "clean_utf8 (cr_AppSecret c) = cr_AppSecret c" "clean_utf8 (cr_BotOpenID c) = cr_BotOpenID c"
  shows "unmarshal_struct credentials_fields (json_text (credentials_json c)) = Some c"
proof -
  have "json_parse (json_text (credentials_json c)) = Some (clean_json (credentials_json c))"
    by (rule json_round_trip) (simp add: credentials_json_def)
  then have "json_parse (json_text (credentials_json c)) = Some (credentials_json c)"
    using assms by (simp add: credentials_json_def clean_utf8_ascii del: json_text.simps)
  then show ?thesis
    by (simp add: unmarshal_struct_def del: json_text.simps)
      (simp add: credentials_json_def credentials_fields_def getters same_name_ascii lower_char_def)
qed

text \<open>
  C33. The credentials of a login reach the runtime: what \<open>RefreshBinding\<close> stores for an app starts a
  runtime that registers exactly the trimmed id and secret, and the open id the app was validated with.
\<close>

theorem feishu_login_starts_runtime:
  assumes "feishu_RefreshBinding api breq w = (Inr r, w1)"
    and "srq_CredentialPayload req = rbr_CredentialPayload r"
    and "list_all (\<lambda>k. clean_utf8 (TrimSpace (config_value (rbq_Config breq) k)) = TrimSpace (config_value (rbq_Config breq) k)) [''app_id'', ''app_secret'']"
    and "\<And>i s v info v1. fa_ValidateApp api i s v = (Inr info, v1) \<Longrightarrow> clean_utf8 (ai_BotOpenID info) = ai_BotOpenID info"
    and "\<And>c. dial c v = (Inr (), v')"
  shows "\<exists>info w0. fa_ValidateApp api (TrimSpace (config_value (rbq_Config breq) ''app_id'')) (TrimSpace (config_value (rbq_Config breq) ''app_secret'')) w
        = (Inr info, w0)
    \<and> (let creds = \<lparr>cr_AppID = TrimSpace (config_value (rbq_Config breq) ''app_id''),
                     cr_AppSecret = TrimSpace (config_value (rbq_Config breq) ''app_secret''), cr_BotOpenID = ai_BotOpenID info\<rparr>
       in feishu_StartRuntime env dial req (reg, v) =
            (Inr (creds, state_of req RuntimeStateConnected None []), (Register (srq_BotID req) creds reg, v')))"
proof -
  let ?i = "TrimSpace (config_value (rbq_Config breq) ''app_id'')"
  let ?s = "TrimSpace (config_value (rbq_Config breq) ''app_secret'')"
  have ne: "?i \<noteq> []" "?s \<noteq> []" using assms(1) by (auto simp: feishu_RefreshBinding_def return_err_def)
  obtain info w0 where v: "fa_ValidateApp api ?i ?s w = (Inr info, w0)"
    and r: "rbr_CredentialPayload r = json_text (credentials_json \<lparr>cr_AppID = ?i, cr_AppSecret = ?s, cr_BotOpenID = ai_BotOpenID info\<rparr>)"
    using assms(1) ne
    by (auto simp: feishu_RefreshBinding_def attempt_def return_err_def return_ok_def Let_def split: prod.splits sum.splits)
  have "unmarshal_struct credentials_fields (rbr_CredentialPayload r) = Some \<lparr>cr_AppID = ?i, cr_AppSecret = ?s, cr_BotOpenID = ai_BotOpenID info\<rparr>"
    unfolding r by (rule credentials_read_back) (use assms(3) assms(4) [OF v] in auto)
  then have "feishu_StartRuntime env dial req (reg, v) =
      (let creds = \<lparr>cr_AppID = ?i, cr_AppSecret = ?s, cr_BotOpenID = ai_BotOpenID info\<rparr>
       in (Inr (creds, state_of req RuntimeStateConnected None []), (Register (srq_BotID req) creds reg, v')))"
    using ne by (simp add: feishu_StartRuntime_def assms(2,5) Let_def)
  with v show ?thesis by (auto simp: Let_def)
qed

text \<open>The client of an app is made once: a secret that is changed later is not used.\<close>

lemma larkClient_keeps_secret:
  assumes "get_larkClient appID secret1 (cs, w) = (Inr c, (cs1, w))"
  shows "get_larkClient appID secret2 (cs1, v) = (Inr c, (cs1, v))"
  using assms by (auto simp: get_larkClient_def split: option.splits)

section \<open>Answers\<close>

text \<open>
  C34. An answer goes where the message came from: the target of the event of a message leads the gateway
  to send the trimmed answer with the credentials of the bot to the chat of the message, in a group as
  a reply to the message that mentions its sender.
\<close>

theorem feishu_answer_to_sender:
  assumes "onMessage req creds msg = Some ev" "Lookup (srq_BotID req) reg = Some c" "srq_BotID req \<noteq> []" "fm_ChatID msg \<noteq> []"
    and "list_all (\<lambda>t. TrimSpace t = t) [srq_BotID req, fm_ChatID msg, fm_MessageID msg, fm_SenderOpenID msg]"
    and "TrimSpace (rs_Text resp) \<noteq> []"
  shows "(feishu_Reply api reg (ev_ReplyTarget ev) resp :: ('w, unit) io) =
    attempt (fa_SendText api c
      (if fm_ChatType msg = ''group''
       then \<lparr>sm_ChatID = fm_ChatID msg, sm_Body = TrimSpace (rs_Text resp), sm_ReplyMessageID = fm_MessageID msg,
             sm_Mentions = (if fm_SenderOpenID msg = [] then [] else [fm_SenderOpenID msg])\<rparr>
       else \<lparr>sm_ChatID = fm_ChatID msg, sm_Body = TrimSpace (rs_Text resp), sm_ReplyMessageID = [], sm_Mentions = []\<rparr>)) reply_outcome"
proof -
  have trimmed: "TrimSpace (srq_BotID req) = srq_BotID req" "TrimSpace (fm_ChatID msg) = fm_ChatID msg"
    "TrimSpace (fm_MessageID msg) = fm_MessageID msg" "TrimSpace (fm_SenderOpenID msg) = fm_SenderOpenID msg"
    using assms(5) by simp_all
  have ev: "ev = feishu_event req msg" using assms(1) by (simp add: onMessage_def split: if_splits)
  have data: "MetadataValue (ev_ReplyTarget ev) ''bot_id'' = srq_BotID req" "MetadataValue (ev_ReplyTarget ev) ''chat_id'' = fm_ChatID msg"
    "MetadataValue (ev_ReplyTarget ev) ''chat_type'' = fm_ChatType msg" "MetadataValue (ev_ReplyTarget ev) ''message_id'' = fm_MessageID msg"
    "MetadataValue (ev_ReplyTarget ev) ''sender_open_id'' = fm_SenderOpenID msg"
    by (simp_all add: ev feishu_event_def MetadataValue_def)
  have "reply_params (ev_ReplyTarget ev) (TrimSpace (rs_Text resp)) =
      (if fm_ChatType msg = ''group''
       then \<lparr>sm_ChatID = fm_ChatID msg, sm_Body = TrimSpace (rs_Text resp), sm_ReplyMessageID = fm_MessageID msg,
             sm_Mentions = (if fm_SenderOpenID msg = [] then [] else [fm_SenderOpenID msg])\<rparr>
       else \<lparr>sm_ChatID = fm_ChatID msg, sm_Body = TrimSpace (rs_Text resp), sm_ReplyMessageID = [], sm_Mentions = []\<rparr>)"
    using assms(4) by (simp add: reply_params_def data trimmed)
  then show ?thesis using assms(2,3,6) by (simp add: feishu_Reply_def data trimmed)
qed

text \<open>
  Sending a text tries at most two messages: a Markdown text first as a card, and every text whose
  card was not accepted as a plain message with the same words; the error returned is the one of the
  plain message.
\<close>

lemma SendText_falls_back:
  assumes "get_larkClient (cr_AppID creds) (cr_AppSecret creds) (cs, w) = (Inr c, (cs1, w))"
  shows "SendText env creds p (cs, w) =
    (case (if isRichMarkdown env (sm_Body p) then lark_send env c MsgTypeInteractive (buildCardContent p) p w else (Inl (errorf []), w)) of
       (Inr _, w1) \<Rightarrow> (Inr (), (cs1, w1))
     | (Inl _, w1) \<Rightarrow> (case lark_send env c MsgTypeText (buildTextContent p) p w1 of (r, w2) \<Rightarrow> (r, (cs1, w2))))"
proof (cases "isRichMarkdown env (sm_Body p)")
  case True
  obtain r w1 where r: "lark_send env c MsgTypeInteractive (buildCardContent p) p w = (r, w1)" by fastforce
  with True assms show ?thesis
    by (cases r) (simp_all add: SendText_def andThen_def on_world_def attempt_def return_ok_def)
next
  case False
  with assms show ?thesis by (simp add: SendText_def andThen_def on_world_def)
qed

section \<open>Runtimes and the registry\<close>

text \<open>
  The runtimes that were started, in order, with their credentials.  A connected runtime whose
  connection ends first tells the connection manager, which then lets the bot be started again, and
  takes the credentials from the registry afterwards.  \<open>overlap\<close> says whether a bot may be started
  again in between; the manager never starts a bot that has a connected runtime.
\<close>

datatype runtimePhase = Connected | Ending | Over

record feishuSys =
  fy_registry :: registry
  fy_runtimes :: "(string \<times> credentials \<times> runtimePhase) list"

inductive fs_step :: "bool \<Rightarrow> feishuSys \<Rightarrow> feishuSys \<Rightarrow> bool" for overlap where
  start: "feishu_StartRuntime env dial req (fy_registry s, w :: unit) = (Inr (creds, ev), (reg, w1)) \<Longrightarrow>
    \<forall>(b, c, p) \<in> set (fy_runtimes s). b = srq_BotID req \<longrightarrow> p = Over \<or> (overlap \<and> p = Ending) \<Longrightarrow>
    fs_step overlap s \<lparr>fy_registry = reg, fy_runtimes = fy_runtimes s @ [(srq_BotID req, creds, Connected)]\<rparr>"
| ended: "i < length (fy_runtimes s) \<Longrightarrow> fy_runtimes s ! i = (b, c, Connected) \<Longrightarrow>
    fs_step overlap s (s\<lparr>fy_runtimes := (fy_runtimes s)[i := (b, c, Ending)]\<rparr>)"
| unregister: "i < length (fy_runtimes s) \<Longrightarrow> fy_runtimes s ! i = (b, c, Ending) \<Longrightarrow>
    fs_step overlap s \<lparr>fy_registry = Unregister b (fy_registry s), fy_runtimes = (fy_runtimes s)[i := (b, c, Over)]\<rparr>"

definition fs_init :: "feishuSys \<Rightarrow> bool" where
  "fs_init s \<longleftrightarrow> fy_registry s = NewRegistry \<and> fy_runtimes s = []"

text \<open>Of the runtimes of a bot at most one is not over.\<close>

definition exclusive :: "(string \<times> credentials \<times> runtimePhase) list \<Rightarrow> bool" where
  "exclusive rts \<longleftrightarrow>
     (\<forall>i < length rts. \<forall>j < length rts.
        fst (rts ! i) = fst (rts ! j) \<and> snd (snd (rts ! i)) \<noteq> Over \<and> snd (snd (rts ! j)) \<noteq> Over \<longrightarrow> i = j)"

lemma exclusive_update:
  assumes "exclusive rts" "i < length rts" "rts ! i = (b, c, p)" "p \<noteq> Over"
  shows "exclusive (rts[i := (b, c, q)])"
proof -
  have "fst (rts[i := (b, c, q)] ! j) = fst (rts ! j)" "snd (snd (rts[i := (b, c, q)] ! j)) \<noteq> Over \<Longrightarrow> snd (snd (rts ! j)) \<noteq> Over"
    if "j < length rts" for j
    using assms(2-4) that by (auto simp: nth_list_update split: if_splits)
  with assms(1) show ?thesis unfolding exclusive_def by (metis length_list_update)
qed

lemma exclusive_start:
  assumes "exclusive rts" "\<forall>(b', c', p) \<in> set rts. b' = b \<longrightarrow> p = Over"
  shows "exclusive (rts @ [(b, c, Connected)])"
proof -
  have old: "snd (snd (rts ! i)) = Over" if "i < length rts" "fst (rts ! i) = b" for i
    using assms(2) nth_mem [OF that(1)] that(2) by (cases "rts ! i") fastforce
  have "i = j" if "i < Suc (length rts)" "j < Suc (length rts)" "fst ((rts @ [(b, c, Connected)]) ! i) = fst ((rts @ [(b, c, Connected)]) ! j)"
    "snd (snd ((rts @ [(b, c, Connected)]) ! i)) \<noteq> Over" "snd (snd ((rts @ [(b, c, Connected)]) ! j)) \<noteq> Over" for i j
    using that old [of i] old [of j] assms(1) by (auto simp: nth_append less_Suc_eq exclusive_def split: if_splits)
  then show ?thesis by (simp add: exclusive_def)
qed

definition fs_inv :: "feishuSys \<Rightarrow> bool" where
  "fs_inv s \<longleftrightarrow> exclusive (fy_runtimes s) \<and> (\<forall>(b, c, p) \<in> set (fy_runtimes s). p = Connected \<longrightarrow> Lookup b (fy_registry s) = Some c)"

lemma StartRuntime_registers:
  assumes "feishu_StartRuntime env dial req (reg, w) = (Inr (creds, ev), (reg1, w1))"
  shows "reg1 = Register (srq_BotID req) creds reg"
  using assms by (auto simp: feishu_StartRuntime_def split: option.splits if_splits prod.splits sum.splits)

lemma fs_step_inv:
  assumes "fs_step False s t" "fs_inv s"
  shows "fs_inv t"
  using assms
proof (cases rule: fs_step.cases)
  case (start env dial req w creds ev reg w1)
  have over: "\<forall>(b, c, p) \<in> set (fy_runtimes s). b = srq_BotID req \<longrightarrow> p = Over" using start(3) by auto
  have "exclusive (fy_runtimes t)"
    unfolding start(1) using exclusive_start [OF _ over] assms(2) by (simp add: fs_inv_def)
  moreover have "\<forall>(b, c, p) \<in> set (fy_runtimes s). p = Connected \<longrightarrow> b \<noteq> srq_BotID req" using over by fastforce
  ultimately show ?thesis
    using assms(2) unfolding start(1) StartRuntime_registers [OF start(2)] fs_inv_def by (auto simp: Register_def Lookup_def)
next
  case (ended i b c)
  have "\<forall>(b', c', p) \<in> set ((fy_runtimes s)[i := (b, c, Ending)]). p = Connected \<longrightarrow> Lookup b' (fy_registry s) = Some c'"
    using assms(2) set_update_subset_insert [of "fy_runtimes s" i "(b, c, Ending)"] by (fastforce simp: fs_inv_def)
  with assms(2) ended show ?thesis by (simp add: fs_inv_def exclusive_update)
next
  case (unregister i b c)
  have other: "b' \<noteq> b" if "j < length (fy_runtimes s)" "fy_runtimes s ! j = (b', c', Connected)" for j b' c'
  proof
    assume "b' = b"
    then have "i = j" using assms(2) unregister that by (auto simp: fs_inv_def exclusive_def)
    with unregister(3) that(2) show False by simp
  qed
  have "\<forall>(b', c', p) \<in> set ((fy_runtimes s)[i := (b, c, Over)]). p = Connected \<longrightarrow> Lookup b' (Unregister b (fy_registry s)) = Some c'"
  proof clarify
    fix b' c' assume "(b', c', Connected) \<in> set ((fy_runtimes s)[i := (b, c, Over)])"
    then have m: "(b', c', Connected) \<in> set (fy_runtimes s)"
      using set_update_subset_insert [of "fy_runtimes s" i "(b, c, Over)"] by auto
    then have "b' \<noteq> b" using other by (auto simp: in_set_conv_nth)
    with m assms(2) show "Lookup b' (Unregister b (fy_registry s)) = Some c'"
      by (fastforce simp: fs_inv_def Lookup_def Unregister_def)
  qed
  with assms(2) unregister show ?thesis by (simp add: fs_inv_def exclusive_update)
qed

interpretation feishus: transition_system fs_init "fs_step False" fs_inv
proof
  show "fs_init s \<Longrightarrow> fs_inv s" for s by (simp add: fs_init_def fs_inv_def exclusive_def)
  show "fs_step False s t \<Longrightarrow> fs_inv s \<Longrightarrow> fs_inv t" for s t by (rule fs_step_inv)
qed

text \<open>
  C35. As long as no bot is started again before the goroutine of its last runtime is over, the registry
  has the credentials of every connected runtime, so an answer to one of its messages is never refused
  because the bot is not active.
\<close>

theorem feishu_connected_registered:
  assumes "fs_init s0" "(fs_step False)\<^sup>*\<^sup>* s0 s" "(b, c, Connected) \<in> set (fy_runtimes s)"
  shows "Lookup b (fy_registry s) = Some c"
  using feishus.reachable_inv [OF assms(1,2)] assms(3) by (auto simp: fs_inv_def)

definition fs_creds :: credentials where "fs_creds = \<lparr>cr_AppID = ''a'', cr_AppSecret = ''s'', cr_BotOpenID = ''o''\<rparr>"

definition fs_req :: startRuntimeRequest where
  "fs_req = \<lparr>srq_BotID = ''b'', srq_ChannelType = ''feishu'', srq_AccountUID = ''a'', srq_CredentialPayload = json_text (credentials_json fs_creds),
     srq_CredentialVersion = 1, srq_OnEvent = True, srq_OnState = True\<rparr>"

lemma fs_start:
  "feishu_StartRuntime env (\<lambda>_ w. (Inr (), w)) fs_req (reg, ()) =
     (Inr (fs_creds, state_of fs_req RuntimeStateConnected None []), (reg(''b'' \<mapsto> fs_creds), ()))"
proof -
  have "unmarshal_struct credentials_fields (json_text (credentials_json fs_creds)) = Some fs_creds"
    by (rule credentials_read_back) (simp_all add: fs_creds_def clean_utf8_ascii)
  then show ?thesis by (simp add: feishu_StartRuntime_def fs_req_def Register_def fs_creds_def del: json_text.simps)
qed

lemma fs_first: "fs_step overlap \<lparr>fy_registry = NewRegistry, fy_runtimes = []\<rparr>
    \<lparr>fy_registry = [''b'' \<mapsto> fs_creds], fy_runtimes = [(''b'', fs_creds, Connected)]\<rparr>"
  using fs_step.start [where s = "\<lparr>fy_registry = NewRegistry, fy_runtimes = []\<rparr>" and overlap = overlap and req = fs_req, OF fs_start [simplified]]
  by (simp add: NewRegistry_def fs_req_def)

text \<open>
  C36. A bot that is started again when its last runtime has reported its end, as the connection manager
  allows, can lose its credentials to that runtime: it stays connected and every answer to its messages
  is refused.
\<close>

theorem feishu_restart_loses_credentials:
  "\<exists>s. (fs_step True)\<^sup>*\<^sup>* \<lparr>fy_registry = NewRegistry, fy_runtimes = []\<rparr> s
     \<and> (''b'', fs_creds, Connected) \<in> set (fy_runtimes s) \<and> Lookup ''b'' (fy_registry s) = None"
proof -
  let ?r = "[''b'' \<mapsto> fs_creds]"
  have 2: "fs_step True \<lparr>fy_registry = ?r, fy_runtimes = [(''b'', fs_creds, Connected)]\<rparr>
      \<lparr>fy_registry = ?r, fy_runtimes = [(''b'', fs_creds, Ending)]\<rparr>"
    using fs_step.ended [of 0 "\<lparr>fy_registry = ?r, fy_runtimes = [(''b'', fs_creds, Connected)]\<rparr>"] by simp
  have 3: "fs_step True \<lparr>fy_registry = ?r, fy_runtimes = [(''b'', fs_creds, Ending)]\<rparr>
      \<lparr>fy_registry = ?r, fy_runtimes = [(''b'', fs_creds, Ending), (''b'', fs_creds, Connected)]\<rparr>"
    using fs_step.start [where s = "\<lparr>fy_registry = ?r, fy_runtimes = [(''b'', fs_creds, Ending)]\<rparr>" and overlap = True
        and req = fs_req, OF fs_start [simplified]] by (simp add: fs_req_def)
  have 4: "fs_step True \<lparr>fy_registry = ?r, fy_runtimes = [(''b'', fs_creds, Ending), (''b'', fs_creds, Connected)]\<rparr>
      \<lparr>fy_registry = Unregister ''b'' ?r, fy_runtimes = [(''b'', fs_creds, Over), (''b'', fs_creds, Connected)]\<rparr>"
    using fs_step.unregister [of 0 "\<lparr>fy_registry = ?r, fy_runtimes = [(''b'', fs_creds, Ending), (''b'', fs_creds, Connected)]\<rparr>"] by simp
  have "(fs_step True)\<^sup>*\<^sup>* \<lparr>fy_registry = NewRegistry, fy_runtimes = []\<rparr>
      \<lparr>fy_registry = Unregister ''b'' ?r, fy_runtimes = [(''b'', fs_creds, Over), (''b'', fs_creds, Connected)]\<rparr>"
    by (rule converse_rtranclp_into_rtranclp, rule fs_first, rule converse_rtranclp_into_rtranclp, rule 2,
      rule converse_rtranclp_into_rtranclp, rule 3, rule converse_rtranclp_into_rtranclp, rule 4, rule rtranclp.rtrancl_refl)
  then show ?thesis by (intro exI conjI) (auto simp: Lookup_def Unregister_def)
qed

section \<open>Witnesses\<close>

definition sample_feishu :: "nat feishuAPI" where
  "sample_feishu =
     \<lparr>fa_ValidateApp = \<lambda>i s. return_ok \<lparr>ai_AppName = ''bot'', ai_BotOpenID = ''o''\<rparr>, fa_SendText = \<lambda>c p w. (Inr (), w + 1),
      fa_CreateCard = \<lambda>c p. return_ok ''m'', fa_PatchCard = \<lambda>c i j. return_ok ()\<rparr>"

lemma feishu_login_starts_runtime_witness:
  "\<exists>creds ev reg v. feishu_StartRuntime (undefined :: nat httpEnv) (\<lambda>_ w. (Inr (), w)) (fs_req\<lparr>srq_CredentialPayload :=
       json_text (credentials_json \<lparr>cr_AppID = ''a'', cr_AppSecret = ''s'', cr_BotOpenID = ''o''\<rparr>)\<rparr>) (NewRegistry, 0)
     = (Inr (creds, ev), (reg, v)) \<and> Lookup ''b'' reg = Some \<lparr>cr_AppID = ''a'', cr_AppSecret = ''s'', cr_BotOpenID = ''o''\<rparr>"
proof -
  let ?breq = "\<lparr>rbq_ProviderBindingRef = ''r'', rbq_ChannelType = ''feishu'', rbq_Config = [(''app_id'', ''a''), (''app_secret'', ''s'')]\<rparr>"
  have trim: "TrimSpace ''a'' = ''a''" "TrimSpace ''s'' = ''s''" by (simp_all add: TrimSpace_plain plain_char_def)
  obtain r where r: "feishu_RefreshBinding sample_feishu ?breq 0 = (Inr r, 0)"
    and p: "rbr_CredentialPayload r = json_text (credentials_json \<lparr>cr_AppID = ''a'', cr_AppSecret = ''s'', cr_BotOpenID = ''o''\<rparr>)"
    by (simp add: feishu_RefreshBinding_def config_value_def trim sample_feishu_def attempt_def return_ok_def Let_def del: json_text.simps)
  show ?thesis
    using feishu_login_starts_runtime [OF r, where dial = "\<lambda>_ w. (Inr (), w)" and v = 0 and v' = 0 and env = "undefined :: nat httpEnv"
        and req = "fs_req\<lparr>srq_CredentialPayload := rbr_CredentialPayload r\<rparr>" and reg = NewRegistry]
    by (auto simp: config_value_def trim sample_feishu_def return_ok_def clean_utf8_ascii p fs_req_def Register_def Lookup_def Let_def
        simp del: json_text.simps)
qed

lemma feishu_answer_to_sender_witness:
  "feishu_Reply sample_feishu [''b'' \<mapsto> fs_creds]
     (ev_ReplyTarget (feishu_event fs_req \<lparr>fm_MessageID = ''m'', fm_ChatID = ''c'', fm_ChatType = ''group'', fm_SenderOpenID = ''u'', fm_Text = ''t'',
        fm_MentionedOpenIDs = [''o'']\<rparr>)) (text_response ''hi'') 0 = (Inr (), 1)"
proof -
  let ?m = "\<lparr>fm_MessageID = ''m'', fm_ChatID = ''c'', fm_ChatType = ''group'', fm_SenderOpenID = ''u'', fm_Text = ''t'', fm_MentionedOpenIDs = [''o'']\<rparr>"
  have trim: "TrimSpace ''b'' = ''b''" "TrimSpace ''c'' = ''c''" "TrimSpace ''m'' = ''m''" "TrimSpace ''u'' = ''u''" "TrimSpace ''hi'' = ''hi''"
    by (simp_all add: TrimSpace_plain plain_char_def)
  have "onMessage fs_req fs_creds ?m = Some (feishu_event fs_req ?m)"
    by (simp add: onMessage_def shouldHandle_def fs_creds_def fs_req_def)
  from feishu_answer_to_sender [OF this, where reg = "[''b'' \<mapsto> fs_creds]" and c = fs_creds and resp = "text_response ''hi''" and api = sample_feishu]
  have "feishu_Reply sample_feishu [''b'' \<mapsto> fs_creds] (ev_ReplyTarget (feishu_event fs_req ?m)) (text_response ''hi'')
      = attempt (fa_SendText sample_feishu fs_creds
          \<lparr>sm_ChatID = ''c'', sm_Body = ''hi'', sm_ReplyMessageID = ''m'', sm_Mentions = [''u'']\<rparr>) reply_outcome"
    by (auto simp: fs_req_def Lookup_def trim simp del: json_text.simps)
  then show ?thesis by (simp add: sample_feishu_def attempt_def reply_outcome_def return_ok_def)
qed

lemma feishu_connected_registered_witness: "Lookup ''b'' [''b'' \<mapsto> fs_creds] = Some fs_creds"
proof -
  have "fs_init \<lparr>fy_registry = NewRegistry, fy_runtimes = []\<rparr>" by (simp add: fs_init_def)
  from feishu_connected_registered [OF this r_into_rtranclp [of "fs_step False", OF fs_first], of "''b''" fs_creds] show ?thesis by simp
qed

end
