(* ===== verification/WeChatLaws.thy ===== *)
theory WeChatLaws
  imports WeChatRuntime
begin

text \<open>
  What holds of the WeChat channel: the normal form of a login session, the messages taken from
  a poll and how their ids work together with the orchestrator's deduplication, the life of a
  runtime, and the way from stored credentials to an answer sent.
\<close>

section \<open>Login sessions\<close>

text \<open>The session and the sessions nested in it, outermost first; the first nonempty text of a list.\<close>

fun chain :: "createSessionResult \<Rightarrow> createSessionResult list" where
  "chain (CreateSession q u i b t l x None) = [CreateSession q u i b t l x None]"
| "chain (CreateSession q u i b t l x (Some d)) = CreateSession q u i b t l x (Some d) # chain d"

fun first_nonempty :: "string list \<Rightarrow> string" where
  "first_nonempty [] = []"
| "first_nonempty (x # xs) = or_else x (first_nonempty xs)"

fun first_some :: "'a option list \<Rightarrow> 'a option" where
  "first_some [] = None"
| "first_some (x # xs) = (if x = None then first_some xs else x)"

lemma or_else_simps [simp]: "or_else [] b = b" "or_else a [] = a" "or_else a b = [] \<longleftrightarrow> a = [] \<and> b = []"
  by (simp_all add: or_else_def)

lemma or_else_assoc: "or_else (or_else a b) c = or_else a (or_else b c)"
  by (simp add: or_else_def)

lemma first_nonempty_append: "first_nonempty (xs @ ys) = or_else (first_nonempty xs) (first_nonempty ys)"
  by (induction xs) (simp_all add: or_else_assoc)

lemma first_nonempty_Nil_iff: "first_nonempty xs = [] \<longleftrightarrow> (\<forall>x \<in> set xs. x = [])"
  by (induction xs) auto

lemma normalized_fields:
  "cs_Data (normalized r) = None
   \<and> cs_QRCode (normalized r) = first_nonempty (map cs_QRCode (chain r))
   \<and> cs_QRCodeImgContent (normalized r) = first_nonempty (map cs_QRCodeImgContent (chain r))
   \<and> cs_QRBase64 (normalized r) = first_nonempty (map cs_QRBase64 (chain r))
   \<and> cs_Ticket (normalized r) = first_nonempty (map cs_Ticket (chain r))
   \<and> cs_URL (normalized r) = first_nonempty (map cs_URL (chain r))
   \<and> cs_ExpiresAt (normalized r) = first_some (map cs_ExpiresAt (chain r))
   \<and> cs_QRCodeURL (normalized r) =
       or_else (first_nonempty (map cs_QRCodeURL (chain r))) (first_nonempty (rev (map cs_QRBase64 (chain r))))"
proof (induction r rule: normalized.induct)
  case (1 q u i b t l x)
  then show ?case by (simp add: or_else_def)
next
  case (2 q u i b t l x d)
  have "first_nonempty (rev (map cs_QRBase64 (chain d))) = [] \<longleftrightarrow> first_nonempty (map cs_QRBase64 (chain d)) = []"
    by (simp add: first_nonempty_Nil_iff)
  with 2 show ?case
    by (simp add: Let_def first_nonempty_append or_else_assoc) (auto simp: or_else_def)
qed

text \<open>
  Normalising a login session flattens it: a session may come wrapped in any number of
  \<open>data\<close> objects, and every field of the normal form is the first nonempty one from the outside
  in; a missing \<open>qrcode_url\<close> is made up for by the innermost \<open>qr_base64\<close>.  The normal form has no
  \<open>data\<close>, and normalising it again changes nothing.
\<close>

theorem normalized_flattens:
  "cs_Data (normalized r) = None
   \<and> cs_QRCode (normalized r) = first_nonempty (map cs_QRCode (chain r))
   \<and> cs_Ticket (normalized r) = first_nonempty (map cs_Ticket (chain r))
   \<and> cs_URL (normalized r) = first_nonempty (map cs_URL (chain r))
   \<and> cs_ExpiresAt (normalized r) = first_some (map cs_ExpiresAt (chain r))
   \<and> cs_QRCodeURL (normalized r) =
       or_else (first_nonempty (map cs_QRCodeURL (chain r))) (first_nonempty (rev (map cs_QRBase64 (chain r))))
   \<and> normalized (normalized r) = normalized r"
proof -
  obtain q u i b t l x d where r: "normalized r = CreateSession q u i b t l x d" by (cases "normalized r")
  have d: "d = None" and u: "u = or_else (first_nonempty (map cs_QRCodeURL (chain r))) (first_nonempty (rev (map cs_QRBase64 (chain r))))"
    and b: "b = first_nonempty (map cs_QRBase64 (chain r))"
    using normalized_fields [of r] r by auto
  have "b \<noteq> [] \<Longrightarrow> u \<noteq> []" using u b by (auto simp: first_nonempty_Nil_iff)
  then have "normalized (normalized r) = normalized r" by (auto simp: r d)
  then show ?thesis using normalized_fields [of r] by simp
qed

section \<open>Messages\<close>

definition item_texts :: "weixinMessage \<Rightarrow> string list" where
  "item_texts m = filter (\<lambda>t. t \<noteq> []) (List.map_filter mi_TextItem (xm_ItemList m))"

definition item_ids :: "weixinMessage \<Rightarrow> string list" where
  "item_ids m = filter (\<lambda>i. i \<noteq> []) (map mi_MsgID (xm_ItemList m))"

lemma Join_snoc: "xs \<noteq> [] \<Longrightarrow> Join (xs @ [t]) sep = Join xs sep @ sep @ t"
  by (induction xs sep rule: Join.induct) (auto simp: Join_Cons_nonempty)

lemma Join_eq_Nil: "\<forall>x \<in> set xs. x \<noteq> [] \<Longrightarrow> Join xs sep = [] \<longleftrightarrow> xs = []"
  by (cases "(xs, sep)" rule: Join.cases) auto

lemma fold_items:
  "\<forall>x \<in> set texts. x \<noteq> [] \<Longrightarrow> wm_Text p = Join texts [newline] \<Longrightarrow>
   wm_Text (fold take_item items p) =
     Join (texts @ filter (\<lambda>t. t \<noteq> []) (List.map_filter mi_TextItem items)) [newline]
   \<and> wm_MsgID (fold take_item items p) = last (wm_MsgID p # filter (\<lambda>i. i \<noteq> []) (map mi_MsgID items))
   \<and> wm_From (fold take_item items p) = wm_From p \<and> wm_ContextToken (fold take_item items p) = wm_ContextToken p"
proof (induction items arbitrary: p texts)
  case Nil
  then show ?case by (simp add: List.map_filter_simps)
next
  case (Cons it items)
  define ts where "ts = texts @ filter (\<lambda>t. t \<noteq> []) (List.map_filter mi_TextItem [it])"
  have joined: "wm_Text (take_item it p) = Join ts [newline]"
    using Cons.prems Join_eq_Nil [OF Cons.prems(1), of "[newline]"]
    by (auto simp: ts_def take_item_def Let_def List.map_filter_simps Join_snoc split: option.splits)
  have "\<forall>x \<in> set ts. x \<noteq> []" using Cons.prems(1) by (auto simp: ts_def)
  from Cons.IH [OF this joined] show ?case
    by (auto simp: ts_def take_item_def Let_def List.map_filter_simps split: option.splits)
qed

lemma parse_message_fields:
  "wm_Text (parse_message m) = Join (item_texts m) [newline]"
  "wm_MsgID (parse_message m) = last (Itoa (xm_MessageID m) # item_ids m)"
  "wm_From (parse_message m) = xm_FromUserID m" "wm_ContextToken (parse_message m) = xm_ContextToken m"
  using fold_items [of "[]" "\<lparr>wm_MsgID = Itoa (xm_MessageID m), wm_MsgType = [], wm_From = xm_FromUserID m, wm_Text = [],
         wm_ContextToken = xm_ContextToken m, wm_Raw = [], wm_Created = xm_CreateTimeMS m\<rparr>" "xm_ItemList m"]
  by (simp_all add: parse_message_def item_texts_def item_ids_def)

lemma parse_message_id_nonempty: "wm_MsgID (parse_message m) \<noteq> []"
proof -
  have "\<forall>i \<in> set (Itoa (xm_MessageID m) # item_ids m). i \<noteq> []" by (auto simp: item_ids_def)
  then have "last (Itoa (xm_MessageID m) # item_ids m) \<noteq> []" by (rule bspec) (rule last_in_set, simp)
  then show ?thesis unfolding parse_message_fields .
qed

lemma parse_message_text_empty: "wm_Text (parse_message m) = [] \<longleftrightarrow> item_texts m = []"
  by (simp add: parse_message_fields Join_eq_Nil item_texts_def)

text \<open>
  The messages of a poll are those of the response that have text, in order and each once:
  the text is that of the items, one per line, and the id is the last id an item has, or else
  the decimal text of the message's number.  So no message is ever without an id, and the
  messages the server sends without any are all called \<open>0\<close>.
\<close>

theorem updates_messages:
  "gur_Messages (updates_of raw) = map parse_message (filter (\<lambda>m. item_texts m \<noteq> []) (gup_Messages raw))
   \<and> (\<forall>p \<in> set (gur_Messages (updates_of raw)). wm_MsgID p \<noteq> [] \<and> wm_Text p \<noteq> [])
   \<and> wm_Text (parse_message m) = Join (item_texts m) [newline]
   \<and> wm_MsgID (parse_message m) = last (Itoa (xm_MessageID m) # item_ids m)
   \<and> (xm_MessageID m = 0 \<and> item_ids m = [] \<longrightarrow> wm_MsgID (parse_message m) = ''0'')"
proof -
  have "gur_Messages (updates_of raw) = map parse_message (filter (\<lambda>m. item_texts m \<noteq> []) (gup_Messages raw))"
    by (simp add: updates_of_def filter_map o_def parse_message_id_nonempty parse_message_text_empty)
  moreover have "Itoa 0 = ''0''" by code_simp
  moreover have "\<forall>p \<in> set (gur_Messages (updates_of raw)). wm_MsgID p \<noteq> [] \<and> wm_Text p \<noteq> []"
    by (simp add: updates_of_def)
  ultimately show ?thesis by (simp add: parse_message_fields(1, 2))
qed

lemma admitted_is_duplicate:
  assumes "fst (snd (fst (admitMessage now m1 x)))" "im_MessageID m1 \<noteq> []" "im_MessageID m2 = im_MessageID m1"
    and "im_BotID m2 = im_BotID m1"
  shows "is_duplicate later m2 (snd (admitMessage now m1 x))"
  using assms by (cases rule: admitMessage_cases [of now m1 x]) (auto simp: is_duplicate_def mark_seen_def seen_key_def)

text \<open>
  Two messages the server sends without an id get in each other's way: once the first is
  admitted, the orchestrator takes the second one, from whoever it is and whatever it says, for a
  redelivery of the first and drops it.
\<close>

theorem idless_messages_collide:
  assumes "xm_MessageID a = 0" "item_ids a = []" "xm_MessageID b = 0" "item_ids b = []"
    and "fst (snd (fst (admitMessage now (event_message (message_event rt (parse_message a))) x)))"
  shows "snd (snd (fst (admitMessage later (event_message (message_event rt (parse_message b)))
           (snd (admitMessage now (event_message (message_event rt (parse_message a))) x)))))"
proof -
  let ?m = "\<lambda>m. event_message (message_event rt (parse_message m))"
  have id: "im_MessageID (?m m) = Itoa 0" if "xm_MessageID m = 0" "item_ids m = []" for m
    using that by (simp add: event_message_def message_event_def parse_message_fields)
  have bot: "im_BotID (?m m) = srq_BotID (wr_req rt)" for m by (simp add: event_message_def message_event_def)
  have "is_duplicate later (?m b) (snd (admitMessage now (?m a) x))"
    by (rule admitted_is_duplicate [OF assms(5)]) (simp_all add: id assms(1-4) bot)
  then show ?thesis by (cases rule: admitMessage_cases [of later "?m b" "snd (admitMessage now (?m a) x)"]) simp_all
qed

section \<open>The runtime\<close>

text \<open>A round after which the loop goes on, what it received, and the cursor after some rounds.\<close>

definition continues :: "pollRound \<Rightarrow> bool" where
  "continues r \<longleftrightarrow> po_ctxErr r = None \<and>
     (case po_result r of
        Inr _ \<Rightarrow> True
      | Inl e \<Rightarrow> \<not> po_doneAfter r \<and> \<not> errors_Is (classifyRuntimePollError e) SessionExpired)"

definition received :: "pollRound \<Rightarrow> message list" where
  "received r = (case po_result r of Inr u \<Rightarrow> gur_Messages u | Inl _ \<Rightarrow> [])"

definition cursor_after :: "string \<Rightarrow> pollRound list \<Rightarrow> string" where
  "cursor_after = foldl (\<lambda>c r. case po_result r of Inr u \<Rightarrow> or_else (gur_Cursor u) c | Inl _ \<Rightarrow> c)"

fun message_of :: "wechatAction \<Rightarrow> runtimeEvent option" where
  "message_of (MessageEvent ev) = Some ev"
| "message_of _ = None"

fun poll_of :: "wechatAction \<Rightarrow> getUpdatesOptions option" where
  "poll_of (Polled opts) = Some opts"
| "poll_of _ = None"

lemma map_filter_append [simp]: "List.map_filter f (xs @ ys) = List.map_filter f xs @ List.map_filter f ys"
  by (simp add: List.map_filter_def)

lemma map_filter_Cons [simp]: "List.map_filter f (x # xs) = (case f x of None \<Rightarrow> [] | Some y \<Rightarrow> [y]) @ List.map_filter f xs"
  by (auto simp: List.map_filter_def split: option.splits)

lemma map_filter_Nil [simp]: "List.map_filter f [] = []"
  by (simp add: List.map_filter_def)

lemma poll_round_continues:
  assumes "continues r"
  shows "\<exists>acts rt1. poll_round rt r = (acts, Some rt1)
    \<and> List.map_filter message_of acts = (if srq_OnEvent (wr_req rt) then map (message_event rt) (received r) else [])
    \<and> List.map_filter poll_of acts = [poll_options rt]
    \<and> wr_cursor rt1 = cursor_after (wr_cursor rt) [r] \<and> wr_req rt1 = wr_req rt \<and> message_event rt1 = message_event rt"
proof -
  have ev: "List.map_filter message_of (map (\<lambda>m. MessageEvent (message_event rt m)) ms) = map (message_event rt) ms"
    "List.map_filter poll_of (map (\<lambda>m. MessageEvent (message_event rt m)) ms) = []" for ms
    by (induction ms) auto
  show ?thesis
    using assms ev
    by (auto simp: continues_def poll_round_def received_def cursor_after_def Let_def or_else_def message_event_def [abs_def]
        split: sum.splits)
qed

lemma poll_round_stops:
  assumes "\<not> continues r"
  shows "\<exists>acts. poll_round rt r = (acts, None) \<and> List.map_filter message_of acts = []"
  using assms by (auto simp: continues_def poll_round_def state_event_def Let_def split: sum.splits option.splits)

text \<open>
  C19. A runtime polls until its context is done or its session has expired, and until then it
  loses and repeats nothing: every message of every successful poll is handed to the bot once,
  in order, transient errors are survived, and each poll asks with the last nonempty cursor the
  server has given.
\<close>

theorem poll_loop_delivers:
  "(snd (poll_loop rt rs) = None \<longleftrightarrow> takeWhile continues rs \<noteq> rs)
   \<and> List.map_filter message_of (fst (poll_loop rt rs)) =
       (if srq_OnEvent (wr_req rt) then map (message_event rt) (concat (map received (takeWhile continues rs))) else [])
   \<and> (\<forall>i < length (takeWhile continues rs).
        guo_Cursor (List.map_filter poll_of (fst (poll_loop rt rs)) ! i) = cursor_after (wr_cursor rt) (take i rs))"
proof (induction rs arbitrary: rt)
  case Nil
  then show ?case by simp
next
  case (Cons r rs)
  show ?case
  proof (cases "continues r")
    case False
    with poll_round_stops [OF False, of rt] show ?thesis by auto
  next
    case True
    obtain acts rt1 where r: "poll_round rt r = (acts, Some rt1)"
      "List.map_filter message_of acts = (if srq_OnEvent (wr_req rt) then map (message_event rt) (received r) else [])"
      "List.map_filter poll_of acts = [poll_options rt]"
      "wr_cursor rt1 = cursor_after (wr_cursor rt) [r]" "wr_req rt1 = wr_req rt" "message_event rt1 = message_event rt"
      using poll_round_continues [OF True, of rt] by blast
    obtain acts2 res where run: "poll_loop rt1 rs = (acts2, res)" by fastforce
    note IH = Cons.IH [of rt1, unfolded run fst_conv snd_conv]
    have "guo_Cursor (([poll_options rt] @ List.map_filter poll_of acts2) ! i) = cursor_after (wr_cursor rt) (take i (r # rs))"
      if "i < Suc (length (takeWhile continues rs))" for i
      using that IH r(4) by (cases i) (auto simp: poll_options_def cursor_after_def)
    with True r IH run show ?thesis by simp
  qed
qed

section \<open>Credentials\<close>

lemma base64_encode_nonempty: "s \<noteq> [] \<Longrightarrow> base64_encode s \<noteq> []"
  by (cases s rule: base64_encode.cases) auto

lemma randomWechatUIN_nonempty: "fst (randomWechatUIN env w) \<noteq> []"
  by (auto simp: randomWechatUIN_def be_bytes_def bytes_def base64_encode_nonempty split: prod.splits)

text \<open>The credentials of a confirmed session, as the runtime and the simulator read them.\<close>

lemma credentials_map:
  assumes "gs_CredentialPayload r = None"
  shows "\<exists>ms. unmarshal_map (normalizedCredentialPayload r) = Some (Some ms)
    \<and> any_str ms ''baseurl'' = clean_utf8 (gs_BaseURL r) \<and> any_str ms ''bot_token'' = clean_utf8 (gs_BotToken r)
    \<and> any_str ms ''wechat_uin'' = []"
proof -
  have ascii: "clean_utf8 k = k" if "k \<in> {''avatar'', ''baseurl'', ''bot_token'', ''ilink_bot_id'', ''ilink_user_id'', ''nickname'', ''openid''}" for k
    using that by (intro clean_utf8_ascii) auto
  define v where "v = JObj [(''avatar'', JStr (gs_AvatarURL r)), (''baseurl'', JStr (gs_BaseURL r)), (''bot_token'', JStr (gs_BotToken r)),
               (''ilink_bot_id'', JStr (gs_ILinkBotID r)), (''ilink_user_id'', JStr (gs_ILinkUserID r)),
               (''nickname'', JStr (gs_Nickname r)), (''openid'', JStr (gs_OpenID r))]"
  have v: "normalizedCredentialPayload r = json_text v" using assms by (simp add: normalizedCredentialPayload_def v_def del: json_text.simps)
  have "texty v" by (simp add: v_def)
  from json_round_trip [OF this] have "json_parse (normalizedCredentialPayload r) = Some (clean_json v)" by (simp only: v)
  then show ?thesis by (simp add: unmarshal_map_def v_def ascii any_str_def any_lookup_def)
qed

text \<open>
  The credentials of a login reach the runtime: what \<open>RefreshBinding\<close> makes of a session whose
  server sent no payload of its own is accepted by \<open>StartRuntime\<close>, which then polls with exactly
  the base URL and the token of that session and a fresh nonempty UIN.  A payload \<open>null\<close> from the
  server, however, is passed on as it is and makes \<open>StartRuntime\<close> panic.
\<close>

theorem credentials_reach_runtime:
  "(gs_CredentialPayload r = None \<longrightarrow>
     (\<exists>rt ev w1. wechat_StartRuntime env (req\<lparr>srq_CredentialPayload := normalizedCredentialPayload r\<rparr>) w = StartedRuntime rt ev w1
        \<and> guo_BaseURL (poll_options rt) = clean_utf8 (gs_BaseURL r) \<and> guo_Token (poll_options rt) = clean_utf8 (gs_BotToken r)
        \<and> guo_WechatUIN (poll_options rt) \<noteq> []))
   \<and> (gs_CredentialPayload r = Some JNull \<longrightarrow>
        wechat_StartRuntime env (req\<lparr>srq_CredentialPayload := normalizedCredentialPayload r\<rparr>) w = StartPanics)"
proof (intro conjI impI)
  assume "gs_CredentialPayload r = None"
  from credentials_map [OF this] obtain ms where ms: "unmarshal_map (normalizedCredentialPayload r) = Some (Some ms)"
    "any_str ms ''baseurl'' = clean_utf8 (gs_BaseURL r)" "any_str ms ''bot_token'' = clean_utf8 (gs_BotToken r)"
    "any_str ms ''wechat_uin'' = []" by blast
  obtain uin w1 where u: "randomWechatUIN env w = (uin, w1)" by fastforce
  then have "uin \<noteq> []" using randomWechatUIN_nonempty [of env w] by simp
  then show "\<exists>rt ev w1. wechat_StartRuntime env (req\<lparr>srq_CredentialPayload := normalizedCredentialPayload r\<rparr>) w = StartedRuntime rt ev w1
      \<and> guo_BaseURL (poll_options rt) = clean_utf8 (gs_BaseURL r) \<and> guo_Token (poll_options rt) = clean_utf8 (gs_BotToken r)
      \<and> guo_WechatUIN (poll_options rt) \<noteq> []"
    using ms u by (simp add: wechat_StartRuntime_def uin_of_def poll_options_def)
next
  assume null: "gs_CredentialPayload r = Some JNull"
  have "json_parse (json_text JNull) = Some JNull" by (subst json_round_trip) simp_all
  with null show "wechat_StartRuntime env (req\<lparr>srq_CredentialPayload := normalizedCredentialPayload r\<rparr>) w = StartPanics"
    by (simp add: wechat_StartRuntime_def unmarshal_map_def normalizedCredentialPayload_def)
qed

section \<open>Answers\<close>

text \<open>
  An answer goes back to where the message came from: the reply to an event of the runtime is
  sent with the runtime's own base URL, token and UIN, to the sender and with the context token of
  the very message; it is refused without sending if one of these is blank, and an empty answer is
  not sent.
\<close>

theorem wechat_answer_reaches_sender:
  "wechat_Reply send (ev_ReplyTarget (message_event rt msg)) resp =
     (if TrimSpace (rs_Text resp) = [] then return_ok ()
      else if [] \<notin> set (map TrimSpace [wm_From msg, wr_baseURL rt, wr_botToken rt, wr_wechatUIN rt, wm_ContextToken msg])
      then attempt (send \<lparr>smo_BaseURL = TrimSpace (wr_baseURL rt), smo_Token = TrimSpace (wr_botToken rt),
                          smo_WechatUIN = TrimSpace (wr_wechatUIN rt), smo_ToUserID = TrimSpace (wm_From msg),
                          smo_MsgText = TrimSpace (rs_Text resp), smo_ContextToken = TrimSpace (wm_ContextToken msg)\<rparr>)
             (\<lambda>res. case res of Inl err \<Rightarrow> return_err (wrapf ''wechat reply: '' err []) | Inr _ \<Rightarrow> return_ok ())
      else return_err (the (validateReplyTarget (ev_ReplyTarget (message_event rt msg)))))"
proof -
  have meta: "MetadataValue (ev_ReplyTarget (message_event rt msg)) ''base_url'' = wr_baseURL rt"
    "MetadataValue (ev_ReplyTarget (message_event rt msg)) ''token'' = wr_botToken rt"
    "MetadataValue (ev_ReplyTarget (message_event rt msg)) ''wechat_uin'' = wr_wechatUIN rt"
    "MetadataValue (ev_ReplyTarget (message_event rt msg)) ''context_token'' = wm_ContextToken msg"
    "rt_RecipientID (ev_ReplyTarget (message_event rt msg)) = wm_From msg"
    by (simp_all add: message_event_def MetadataValue_def)
  show ?thesis
    by (simp add: wechat_Reply_def Let_def validateReplyTarget_def trimmedMetadataValue_def trimmedRecipientID_def meta)
qed

text \<open>
  The reply target made from stored credentials has no context token, and the gateway sends
  nothing without one: whatever the credentials are, every nonempty answer to it is refused.
\<close>

theorem built_target_refused:
  assumes "BuildReplyTarget env recipientID accountUID credentialPayload w = (Inr target, w1)"
    and "TrimSpace (rs_Text resp) \<noteq> []"
  shows "\<exists>err. wechat_Reply send target resp = return_err err"
proof -
  have "MetadataValue target ''context_token'' = []"
    using assms(1) by (auto simp: BuildReplyTarget_def return_ok_def return_err_def Let_def MetadataValue_def split: option.splits prod.splits)
  moreover note TrimSpace_Nil
  ultimately have "validateReplyTarget target \<noteq> None" by (simp add: validateReplyTarget_def)
  then show ?thesis using assms(2) by (auto simp: wechat_Reply_def Let_def)
qed

section \<open>Witnesses\<close>

definition sample_http :: "nat httpEnv" where
  "sample_http =
     \<lparr>he_NewRequest = \<lambda>_. None, he_Do = \<lambda>_. return_ok (200, Inr ''{}''), he_jsonError = errorf,
      he_parseTime = \<lambda>_. None, he_Uint32 = \<lambda>w. (7, w), he_Now = \<lambda>_. 0\<rparr>"

definition idless :: "string \<Rightarrow> string \<Rightarrow> weixinMessage" where
  "idless from txt =
     \<lparr>xm_MessageID = 0, xm_FromUserID = from, xm_ToUserID = ''bot'', xm_ContextToken = ''c'', xm_CreateTimeMS = 0,
      xm_ItemList = [\<lparr>mi_Type = 1, mi_MsgID = [], mi_TextItem = Some txt\<rparr>]\<rparr>"

definition sample_updates :: getUpdatesResponse where
  "sample_updates =
     \<lparr>gup_Ret = 0, gup_ErrCode = 0, gup_ErrMsg = [], gup_Messages = [idless ''alice'' ''hi'', idless ''bob'' []],
      gup_GetUpdatesBuf = ''c1'', gup_SyncBuf = [], gup_LongPollingMS = 5\<rparr>"

definition sample_runtime :: wechatRuntime where
  "sample_runtime =
     \<lparr>wr_req = \<lparr>srq_BotID = ''b1'', srq_ChannelType = ''wechat'', srq_AccountUID = ''u'', srq_CredentialPayload = ''{}'',
                srq_CredentialVersion = 1, srq_OnEvent = True, srq_OnState = True\<rparr>,
      wr_baseURL = ''https://w'', wr_botToken = ''t'', wr_wechatUIN = ''Nw=='', wr_cursor = [], wr_pollTimeout = 35 * second\<rparr>"

definition sample_confirmed :: getSessionResult where
  "sample_confirmed =
     \<lparr>gs_Status = ''confirmed'', gs_QRCode = [], gs_QRCodeURL = [], gs_ExpiresAt = None, gs_OpenID = [], gs_Nickname = ''n'',
      gs_AvatarURL = [], gs_BaseURL = ''https://w'', gs_BotToken = ''t'', gs_ILinkBotID = [], gs_ILinkUserID = [],
      gs_CredentialPayload = None, gs_CredentialVersion = 1, gs_ErrorMessage = []\<rparr>"

lemma updates_messages_witness:
  "map wm_Text (gur_Messages (updates_of sample_updates)) = [''hi''] \<and> wm_MsgID (parse_message (idless ''bob'' [])) = ''0''"
proof -
  have "gur_Messages (updates_of sample_updates) = map parse_message [idless ''alice'' ''hi'']"
    using updates_messages [of sample_updates "idless ''bob'' []"]
    by (simp add: sample_updates_def item_texts_def idless_def)
  moreover have "wm_Text (parse_message (idless ''alice'' ''hi'')) = ''hi''"
    using updates_messages [of sample_updates "idless ''alice'' ''hi''"] by (simp add: item_texts_def idless_def)
  moreover have "wm_MsgID (parse_message (idless ''bob'' [])) = ''0''"
    using updates_messages [of sample_updates "idless ''bob'' []"]
    by (elim conjE) (rule mp, assumption, simp add: item_ids_def idless_def)
  ultimately show ?thesis by simp
qed

lemma idless_messages_collide_witness:
  "let msg = (\<lambda>m. event_message (message_event sample_runtime (parse_message m)));
       o1 = snd (admitMessage 0 (msg (idless ''alice'' ''hi'')) NewBotMessageOrchestrator)
   in snd (snd (fst (admitMessage 1 (msg (idless ''bob'' ''help'')) o1)))"
proof -
  have "fst (snd (fst (admitMessage 0 (event_message (message_event sample_runtime (parse_message (idless ''alice'' ''hi'')))) NewBotMessageOrchestrator)))"
    by (simp add: admitMessage_def NewBotMessageOrchestrator_def Let_def cleanupSeenLocked_def or_state_def empty_botState_def)
  from idless_messages_collide [OF _ _ _ _ this, of "idless ''bob'' ''help''" 1] show ?thesis
    by (simp add: Let_def idless_def item_ids_def)
qed

definition sample_rounds :: "pollRound list" where
  "sample_rounds =
     [\<lparr>po_ctxErr = None, po_result = Inl (errorf ''refused''), po_doneAfter = False\<rparr>,
      \<lparr>po_ctxErr = None, po_result = Inr (updates_of sample_updates), po_doneAfter = False\<rparr>,
      \<lparr>po_ctxErr = Some (errorf ''context canceled''), po_result = Inl (errorf []), po_doneAfter = True\<rparr>]"

lemma poll_loop_delivers_witness:
  "snd (poll_loop sample_runtime sample_rounds) = None
   \<and> map ev_Text (List.map_filter message_of (fst (poll_loop sample_runtime sample_rounds))) = [''hi'']"
proof -
  have "ToLower ''refused'' = ''refused''" by (subst ToLower_ascii) (simp_all add: lower_char_def)
  then have go: "takeWhile continues sample_rounds = take 2 sample_rounds"
    by (simp add: sample_rounds_def continues_def classifyRuntimePollError_def Let_def numeral_2_eq_2 HasPrefix_def)
  have r: "concat (map received (take 2 sample_rounds)) = gur_Messages (updates_of sample_updates)"
    by (simp add: sample_rounds_def received_def)
  have texts: "map wm_Text (gur_Messages (updates_of sample_updates)) = [''hi'']"
    by (simp add: updates_of_def sample_updates_def idless_def parse_message_def take_item_def Let_def)
  have ev: "map ev_Text (map (message_event rt) ms) = map wm_Text ms" for rt ms by (simp add: message_event_def)
  have on: "srq_OnEvent (wr_req sample_runtime)" by (simp add: sample_runtime_def)
  note d = poll_loop_delivers [of sample_runtime sample_rounds, unfolded go r if_P [OF on]]
  have "snd (poll_loop sample_runtime sample_rounds) = None" using d by (simp add: sample_rounds_def)
  moreover have "List.map_filter message_of (fst (poll_loop sample_runtime sample_rounds))
      = map (message_event sample_runtime) (gur_Messages (updates_of sample_updates))"
    by (rule d [THEN conjunct2, THEN conjunct1])
  ultimately show ?thesis by (simp only: ev texts simp_thms)
qed

lemma credentials_reach_runtime_witness:
  "\<exists>rt ev w1. wechat_StartRuntime sample_http ((wr_req sample_runtime)\<lparr>srq_CredentialPayload := normalizedCredentialPayload sample_confirmed\<rparr>) 0
       = StartedRuntime rt ev w1 \<and> guo_Token (poll_options rt) = ''t''"
proof -
  have "clean_utf8 ''t'' = ''t''" by (rule clean_utf8_ascii) simp
  with credentials_reach_runtime [of sample_confirmed sample_http "wr_req sample_runtime" 0] show ?thesis
    by (auto simp: sample_confirmed_def)
qed

lemma built_target_refused_witness:
  "case BuildReplyTarget sample_http ''alice'' ''u'' [] 0 of
     (Inr target, _) \<Rightarrow> \<exists>err. wechat_Reply (\<lambda>_. return_ok ()) target (text_response ''hi'') = (return_err err :: (nat, unit) io)
   | _ \<Rightarrow> False"
proof -
  have "isl (fst (BuildReplyTarget sample_http ''alice'' ''u'' [] 0)) = False"
    by (simp add: BuildReplyTarget_def map_members_def return_ok_def Let_def split: prod.splits)
  then obtain target w1 where b: "BuildReplyTarget sample_http ''alice'' ''u'' [] 0 = (Inr target, w1)"
    by (cases "BuildReplyTarget sample_http ''alice'' ''u'' [] 0") (metis fst_conv isl_def sum.exhaust_sel sum.collapse(2))
  have "TrimSpace (rs_Text (text_response ''hi'')) \<noteq> []" by (simp add: TrimSpace_plain plain_char_def)
  from built_target_refused [OF b this] show ?thesis by (simp add: b)
qed

end
