(* ===== verification/Hooks.thy ===== *)
theory Hooks
  imports HttpApi WeChatLaws
begin

text \<open>
  Prompts that do not come from a chat: webhooks (\<open>internal/hook\<close>) and simulated messages
  (\<open>internal/app/bot/message_simulator.go\<close>).  The bots, the resolver, the agents, the orchestrator and
  the cipher are parameters; a hook is its id and its function.
\<close>

section \<open>Webhooks\<close>

record 'w hook =
  hk_ID :: string
  hk_Handle :: "httpRequest \<Rightarrow> ('w, string) io"

record 'w hookManager =
  hm_hooks :: "string \<rightharpoonup> 'w hook"
  hm_GetByName :: "string \<Rightarrow> ('w, bot) io"
  hm_Resolve :: "string \<Rightarrow> ('w, spec) io"
  hm_Send :: "string \<Rightarrow> spec \<Rightarrow> request \<Rightarrow> ('w, response) io"

definition NewHookManager ::
  "(string \<Rightarrow> ('w, bot) io) \<Rightarrow> (string \<Rightarrow> ('w, spec) io) \<Rightarrow> (string \<Rightarrow> spec \<Rightarrow> request \<Rightarrow> ('w, response) io) \<Rightarrow> 'w hookManager" where
  "NewHookManager botRepo resolver executor =
     \<lparr>hm_hooks = Map.empty, hm_GetByName = botRepo, hm_Resolve = resolver, hm_Send = executor\<rparr>"

definition RegisterHook :: "'w hook \<Rightarrow> 'w hookManager \<Rightarrow> 'w hookManager" where
  "RegisterHook h m = m\<lparr>hm_hooks := (hm_hooks m)(hk_ID h \<mapsto> h)\<rparr>"

definition text_json :: "response \<Rightarrow> json" where
  "text_json resp = JObj [(''text'', JStr (rs_Text resp))]"

definition sendToAgent :: "'w hookManager \<Rightarrow> httpRequest \<Rightarrow> bot \<Rightarrow> string \<Rightarrow> 'w \<Rightarrow> envelope \<times> 'w" where
  "sendToAgent m r b prompt w =
     (case hm_Resolve m (bot_ID b) w of
        (Inl err, w1) \<Rightarrow> (WriteError r ''INTERNAL_ERROR'' (''failed to resolve agent spec: '' @ err_msg err), w1)
      | (Inr sp, w1) \<Rightarrow>
          (case hm_Send m (bot_ID b) sp (empty_request\<lparr>rq_Prompt := prompt\<rparr>) w1 of
             (Inl err, w2) \<Rightarrow> (WriteError r ''INTERNAL_ERROR'' (''agent execution failed: '' @ err_msg err), w2)
           | (Inr resp, w2) \<Rightarrow> (WriteOKFromRequest r (text_json resp), w2)))"

definition bot_not_found :: "httpRequest \<Rightarrow> string \<Rightarrow> goerr \<Rightarrow> envelope" where
  "bot_not_found r botName err =
     (if errors_Is err NotFound then WriteError r ''NOT_FOUND'' (''no bot found with name: '' @ botName)
      else WriteError r ''INTERNAL_ERROR'' (err_msg err))"

definition handleWithHook :: "'w hookManager \<Rightarrow> httpRequest \<Rightarrow> string \<Rightarrow> 'w hook \<Rightarrow> 'w \<Rightarrow> envelope \<times> 'w" where
  "handleWithHook m r botName h w =
     (case hk_Handle h r w of
        (Inl err, w1) \<Rightarrow> (WriteError r ''INVALID_ARGUMENT'' (err_msg err), w1)
      | (Inr prompt, w1) \<Rightarrow>
          (case hm_GetByName m botName w1 of
             (Inl err, w2) \<Rightarrow> (bot_not_found r botName err, w2)
           | (Inr b, w2) \<Rightarrow> sendToAgent m r b prompt w2))"

text \<open>\<open>body\<close> is what reading the body of the request comes to.\<close>

definition handlePassthrough :: "'w hookManager \<Rightarrow> httpRequest \<Rightarrow> goerr + string \<Rightarrow> string \<Rightarrow> 'w \<Rightarrow> envelope \<times> 'w" where
  "handlePassthrough m r body botName w =
     (case hm_GetByName m botName w of
        (Inl err, w1) \<Rightarrow> (bot_not_found r botName err, w1)
      | (Inr b, w1) \<Rightarrow>
          (case body of
             Inl _ \<Rightarrow> (WriteError r ''INVALID_ARGUMENT'' ''failed to read request body'', w1)
           | Inr prompt \<Rightarrow> sendToAgent m r b prompt w1))"

definition HandleHook :: "'w hookManager \<Rightarrow> httpRequest \<Rightarrow> goerr + string \<Rightarrow> string \<Rightarrow> string \<Rightarrow> 'w \<Rightarrow> envelope \<times> 'w" where
  "HandleHook m r body platform botName w =
     (case hm_hooks m platform of
        Some h \<Rightarrow> handleWithHook m r botName h w
      | None \<Rightarrow> handlePassthrough m r body botName w)"

text \<open>
  A webhook is answered with success only when a bot of the given name was found, its agent was
  resolved and asked with the prompt, and with the text of the agent's answer.  The prompt is the one
  the hook of the platform makes, and the body as it is when the platform has none.
\<close>

theorem HandleHook_asks_agent:
  assumes "HandleHook m r body platform botName w = (e, w')" "env_Code e = ''OK''"
  shows "\<exists>prompt b sp resp w0 w1 w2 w3. hm_GetByName m botName w0 = (Inr b, w1) \<and> hm_Resolve m (bot_ID b) w1 = (Inr sp, w2)
    \<and> hm_Send m (bot_ID b) sp (empty_request\<lparr>rq_Prompt := prompt\<rparr>) w2 = (Inr resp, w') \<and> e = WriteOKFromRequest r (text_json resp)
    \<and> (case hm_hooks m platform of None \<Rightarrow> body = Inr prompt \<and> w0 = w | Some h \<Rightarrow> hk_Handle h r w = (Inr prompt, w0))"
  using assms
  by (auto simp: HandleHook_def handleWithHook_def handlePassthrough_def sendToAgent_def bot_not_found_def WriteError_def
      split: option.splits prod.splits sum.splits if_splits) blast+

section \<open>Simulated messages\<close>

record simulateMessageInput =
  si_BotID :: string
  si_From :: string
  si_Text :: string
  si_MessageID :: string
  si_RecipientID :: string

text \<open>
  The simulator, without the pointers to itself: \<open>handle\<close> is the orchestrator if there is one, and
  \<open>decrypt\<close> the cipher if there is one.
\<close>

definition buildReplyTarget :: "'w httpEnv \<Rightarrow> string \<Rightarrow> string \<Rightarrow> string \<Rightarrow> string \<Rightarrow> ('w, replyTarget) io" where
  "buildReplyTarget env channelType recipientID accountUID credentialPayload =
     (if channelType = ''wechat'' then BuildReplyTarget env recipientID accountUID credentialPayload
      else return_err (wrapf (''unsupported channel type '' @ Quote channelType @ '': '') ErrInvalidArg []))"

definition simulated :: "simulateMessageInput \<Rightarrow> string \<Rightarrow> simulateMessageInput" where
  "simulated input messageID =
     \<lparr>si_BotID = TrimSpace (si_BotID input), si_From = TrimSpace (si_From input), si_Text = si_Text input,
      si_MessageID = messageID, si_RecipientID = TrimSpace (si_RecipientID input)\<rparr>"

definition simulated_message :: "simulateMessageInput \<Rightarrow> replyTarget \<Rightarrow> inboundMessage" where
  "simulated_message out target =
     \<lparr>im_BotID = si_BotID out, im_MessageID = si_MessageID out, im_From = si_From out, im_Text = si_Text out,
      im_ReplyTarget = target, im_ReceivedAt = None, im_Ctx = None\<rparr>"

definition simulated_target ::
  "'w httpEnv \<Rightarrow> (string \<Rightarrow> ('w, bot) io) \<Rightarrow> (string \<Rightarrow> ('w, channelAccount) io) \<Rightarrow> (string \<Rightarrow> goerr + string) option \<Rightarrow>
   simulateMessageInput \<Rightarrow> ('w, replyTarget) io" where
  "simulated_target env bots accounts decrypt out =
     andThen (bots (si_BotID out)) (\<lambda>b.
     if bot_ChannelAccountID b = [] then return_err (wrapf ''bot channel account is missing: '' ErrInvalidArg [])
     else
       andThen (accounts (bot_ChannelAccountID b)) (\<lambda>account.
       andThen (lift_sum (case decrypt of None \<Rightarrow> Inr (ca_CredentialCiphertext account)
                                        | Some d \<Rightarrow> d (ca_CredentialCiphertext account))) (\<lambda>credentialPayload.
       buildReplyTarget env (bot_ChannelType b) (si_RecipientID out) (ca_AccountUID account) credentialPayload)))"

definition Simulate ::
  "'w goenv \<Rightarrow> 'w httpEnv \<Rightarrow> (string \<Rightarrow> ('w, bot) io) \<Rightarrow> (string \<Rightarrow> ('w, channelAccount) io) \<Rightarrow> (string \<Rightarrow> goerr + string) option \<Rightarrow>
   (inboundMessage \<Rightarrow> ('w, unit) io) option \<Rightarrow> simulateMessageInput \<Rightarrow> ('w, simulateMessageInput) io" where
  "Simulate genv env bots accounts decrypt handle input =
     (if TrimSpace (si_BotID input) = [] \<or> TrimSpace (si_From input) = [] \<or> TrimSpace (si_RecipientID input) = []
         \<or> TrimSpace (si_Text input) = []
      then return_err (wrapf ''bot_id, from, recipient_id and text are required: '' ErrInvalidArg [])
      else case handle of
             None \<Rightarrow> return_err (errorf ''message simulator orchestrator is required'')
           | Some handleMsg \<Rightarrow>
               andThen (if TrimSpace (si_MessageID input) = [] then fresh_id genv ''msg'' else return_ok (TrimSpace (si_MessageID input)))
                 (\<lambda>messageID.
               let out = simulated input messageID in
               andThen (simulated_target env bots accounts decrypt out) (\<lambda>target.
               andThen (handleMsg (simulated_message out target)) (\<lambda>_. return_ok out))))"

lemma simulated_target_built:
  assumes "simulated_target env bots accounts decrypt out w = (Inr target, w')"
  shows "\<exists>uid payload w0. BuildReplyTarget env (si_RecipientID out) uid payload w0 = (Inr target, w')"
  using assms by (auto simp: simulated_target_def andThen_Inr_iff buildReplyTarget_def split: if_splits)

text \<open>
  C30. No simulated message is ever answered over WeChat.  The message the orchestrator is given carries the
  trimmed bot and sender, the text as it is, and the trimmed id, or a fresh one when the given id is
  blank; the caller is told this id; and every nonblank reply to the target of the message is refused
  by the gateway.
\<close>

theorem simulated_answers_refused:
  assumes "Simulate genv env bots accounts decrypt (Some handleMsg) input w = (Inr out, w')"
    and "TrimSpace (rs_Text resp) \<noteq> []"
  shows "\<exists>msg w1. handleMsg msg w1 = (Inr (), w')
    \<and> im_BotID msg = TrimSpace (si_BotID input) \<and> im_From msg = TrimSpace (si_From input) \<and> im_Text msg = si_Text input
    \<and> im_MessageID msg = (if TrimSpace (si_MessageID input) = [] then NewPrefixedID (fst (ge_ULID genv w)) ''msg''
                          else TrimSpace (si_MessageID input))
    \<and> si_MessageID out = im_MessageID msg
    \<and> (\<exists>err. wechat_Reply send (im_ReplyTarget msg) resp = return_err err)"
proof -
  obtain i w2 w3 target w4 where
    i: "(if TrimSpace (si_MessageID input) = [] then fresh_id genv ''msg'' else return_ok (TrimSpace (si_MessageID input))) w = (Inr i, w2)"
    and t: "simulated_target env bots accounts decrypt (simulated input i) w3 = (Inr target, w4)"
    and h: "handleMsg (simulated_message (simulated input i) target) w4 = (Inr (), w')" "out = simulated input i"
    using assms(1) unfolding Simulate_def andThen_Inr_iff Let_def by (auto simp: andThen_Inr_iff return_ok_def split: if_split_asm)
  have id: "i = (if TrimSpace (si_MessageID input) = [] then NewPrefixedID (fst (ge_ULID genv w)) ''msg'' else TrimSpace (si_MessageID input))"
    using i by (auto simp: fresh_id_def return_ok_def split: if_split_asm prod.split_asm)
  from simulated_target_built [OF t] obtain uid payload w0 where
    "BuildReplyTarget env (si_RecipientID (simulated input i)) uid payload w0 = (Inr target, w4)" by blast
  from built_target_refused [OF this assms(2), of send] obtain err where "wechat_Reply send target resp = return_err err" by blast
  with h id show ?thesis
    by (intro exI [of _ "simulated_message (simulated input i) target"] exI [of _ w4]) (auto simp: simulated_message_def simulated_def)
qed

section \<open>Witnesses\<close>

definition sample_hooks :: "nat hookManager" where
  "sample_hooks =
     RegisterHook \<lparr>hk_ID = ''git'', hk_Handle = \<lambda>r. return_ok ''review''\<rparr>
       (NewHookManager (\<lambda>n. return_ok (sample_bot\<lparr>bot_Name := n\<rparr>)) (\<lambda>_. return_ok empty_spec)
          (\<lambda>i sp rq w. (Inr (text_response (rq_Prompt rq)), w + 1)))"

definition sample_hook_request :: httpRequest where
  "sample_hook_request = \<lparr>hq_requestID = ''r'', hq_body = None, hq_rawQuery = []\<rparr>"

lemma HandleHook_asks_agent_witness:
  "\<exists>e w'. HandleHook sample_hooks sample_hook_request (Inr ''text'') ''git'' ''bot'' 0 = (e, w')
     \<and> e = WriteOKFromRequest sample_hook_request (JObj [(''text'', JStr ''review'')])"
proof -
  obtain e w' where h: "HandleHook sample_hooks sample_hook_request (Inr ''text'') ''git'' ''bot'' 0 = (e, w')" by fastforce
  then have "env_Code e = ''OK''"
    by (auto simp: HandleHook_def handleWithHook_def sendToAgent_def sample_hooks_def RegisterHook_def NewHookManager_def return_ok_def
        WriteOKFromRequest_def WriteOK_def)
  from HandleHook_asks_agent [OF h this] h show ?thesis
    by (auto simp: sample_hooks_def RegisterHook_def NewHookManager_def return_ok_def text_json_def text_response_def)
qed

definition sample_simulation :: simulateMessageInput where
  "sample_simulation = \<lparr>si_BotID = ''b1'', si_From = ''alice'', si_Text = ''hi'', si_MessageID = '' m1 '', si_RecipientID = ''alice''\<rparr>"

definition sample_wechat_account :: channelAccount where
  "sample_wechat_account =
     \<lparr>ca_ID = ''a1'', ca_UserID = ''u'', ca_ChannelType = ''wechat'', ca_AccountUID = ''x'', ca_DisplayName = [], ca_AvatarURL = [],
      ca_CredentialCiphertext = [], ca_CredentialVersion = 0, ca_LastBoundAt = None, ca_CreatedAt = None, ca_UpdatedAt = None\<rparr>"

definition sample_clock :: "nat goenv" where
  "sample_clock = \<lparr>ge_Now = \<lambda>_. 0, ge_ULID = \<lambda>w. (''u'', w + 1)\<rparr>"

text \<open>A plain text between two blanks.\<close>

lemma find_blank:
  "List.find (\<lambda>w. w \<noteq> [] \<and> HasPrefix (CHR '' '' # s) w) ws_runes = Some '' ''"
  "List.find (\<lambda>w. w \<noteq> [] \<and> HasPrefix (CHR '' '' # s) w) (map rev ws_runes) = Some '' ''"
proof -
  have "[0..<11] = [0,1,2,3,4,5,6,7,8,9,10::nat]" by (simp add: upt_rec)
  then show "List.find (\<lambda>w. w \<noteq> [] \<and> HasPrefix (CHR '' '' # s) w) ws_runes = Some '' ''"
    "List.find (\<lambda>w. w \<noteq> [] \<and> HasPrefix (CHR '' '' # s) w) (map rev ws_runes) = Some '' ''"
    by (simp_all add: ws_runes_def bytes_def HasPrefix_def char_of_def bit_0 bit_Suc)
qed

lemma strip_blank:
  "strip_front ws_runes (CHR '' '' # s) = strip_front ws_runes s"
  "strip_front (map rev ws_runes) (CHR '' '' # s) = strip_front (map rev ws_runes) s"
  by (subst strip_front.simps, simp only: find_blank option.case, simp)+

lemma TrimSpace_padded:
  assumes "plain_char (hd s)" "plain_char (last s)" "s \<noteq> []"
  shows "TrimSpace (CHR '' '' # s @ '' '') = s"
proof -
  have "strip_front ws_runes (s @ '' '') = s @ '' ''"
    by (rule strip_front_stop) (use assms ws_runes_not_plain HasPrefix_hd in \<open>metis hd_append2\<close>)
  moreover have "TrimRight_ws s = s"
    using TrimSpace_plain [OF assms(3,1,2)] by (metis TrimRight_ws_idem TrimSpace_def)
  ultimately show ?thesis by (simp add: TrimSpace_def TrimLeft_ws_def TrimRight_ws_def strip_blank)
qed

lemma simulated_answers_refused_witness:
  "\<exists>(msg :: inboundMessage) err. im_MessageID msg = ''m1'' \<and> im_From msg = ''alice''
     \<and> wechat_Reply (\<lambda>_. return_ok ()) (im_ReplyTarget msg) (text_response ''hi'') = (return_err err :: (nat, unit) io)"
proof -
  have ts: "TrimSpace ''b1'' = ''b1''" "TrimSpace ''alice'' = ''alice''" "TrimSpace ''hi'' = ''hi''" "TrimSpace '' m1 '' = ''m1''"
    using TrimSpace_padded [of "''m1''"] by (simp_all add: TrimSpace_plain plain_char_def)
  obtain target w1 where b: "BuildReplyTarget sample_http ''alice'' ''x'' [] 0 = (Inr target, w1)"
    by (cases "BuildReplyTarget sample_http ''alice'' ''x'' [] 0")
      (auto simp: BuildReplyTarget_def map_members_def return_ok_def Let_def split: prod.splits)
  have sim: "Simulate sample_clock sample_http (\<lambda>i. return_ok (sample_bot\<lparr>bot_ChannelAccountID := ''a1''\<rparr>)) (\<lambda>i. return_ok sample_wechat_account)
      None (Some (\<lambda>m. return_ok ())) sample_simulation 0 = (Inr (sample_simulation\<lparr>si_MessageID := ''m1''\<rparr>), w1)"
    using b by (simp add: Simulate_def sample_simulation_def ts simulated_def simulated_target_def andThen_def return_ok_def Let_def
        sample_bot_def sample_wechat_account_def lift_sum_def buildReplyTarget_def)
  have "TrimSpace (rs_Text (text_response ''hi'')) \<noteq> []" by (simp add: ts)
  from simulated_answers_refused [OF sim this, of "\<lambda>_. (return_ok () :: (nat, unit) io)"] show ?thesis
    by (elim exE conjE) (intro exI conjI, simp_all add: sample_simulation_def ts)
qed

end
