(* ===== verification/ClaudeAcp.thy ===== *)
theory ClaudeAcp
  imports AcpCore
begin

text \<open>
  The Claude driver, \<open>internal/agent/claude/driver_acp.go\<close>: one process that is given a line per turn
  and prints a stream of JSON events.  Its goroutines are the caller in \<open>Run\<close> (one at a time, for
  \<open>runMu\<close>), the reader, and \<open>Close\<close>; every section under the mutex, and every receive or send, is one operation.
  Contexts are indices into \<open>cl_ctxs\<close>, which holds the error of those that are done.
\<close>

section \<open>State\<close>

datatype claudeState = ClReady | ClRunning | ClBroken

record claudeEvent =
  ce_done :: bool
  ce_text :: string
  ce_isError :: bool
  ce_err :: "goerr option"

text \<open>The channel of a turn: all it was ever given, and how many of these were received.\<close>

record claudeChan =
  cc_sent :: "claudeEvent list"
  cc_taken :: nat

record claudeTurn =
  ct_ctx :: nat
  ct_derived :: bool
  ct_prompt :: string

text \<open>
  The sections and sends of the handler of a line: keeping the session id, choosing the channel of an
  event and sending it there, choosing the callback and calling it.
\<close>

datatype claudeOp =
    ClCapture string
  | ClDispatch claudeEvent
  | ClSendTo nat claudeEvent
  | ClProgress progressEvent
  | ClReport nat progressEvent

text \<open>The reader: what it still has to do for a line, or after the end of the output.\<close>

datatype claudeReader = ClReading | ClHandling "claudeOp list" | ClFailing "claudeOp list" | ClEnded

datatype claudeRun =
    ClIdle
  | ClSend claudeTurn nat
  | ClSendFailed claudeTurn nat goerr
  | ClLoop claudeTurn nat
  | ClAnswer claudeTurn nat string bool
  | ClReturn claudeTurn nat "response \<times> goerr option"

record claude =
  cl_spec :: spec
  cl_cmd :: bool
  cl_stdin :: bool
  cl_stderr :: string
  cl_state :: claudeState
  cl_readErr :: "goerr option"
  cl_closed :: bool
  cl_sessionID :: string
  cl_activeCh :: "nat option"
  cl_activeProgress :: "nat option"
  cl_chans :: "claudeChan list"
  cl_ctxs :: "goerr option list"
  cl_out :: "string list"
  cl_progress :: "(nat \<times> progressEvent) list"
  cl_reader :: claudeReader
  cl_run :: claudeRun
  cl_results :: "(response \<times> goerr option) list"

section \<open>The start of the process\<close>

definition isClaudeCommand :: "string \<Rightarrow> bool" where
  "isClaudeCommand = is_binary ''claude''"

definition cl_buildACPArgs :: "string \<Rightarrow> string list \<Rightarrow> bool \<Rightarrow> string \<Rightarrow> string list" where
  "cl_buildACPArgs command extra realCLI resumeSessionID =
     (if \<not> isClaudeCommand command \<and> \<not> realCLI then extra
      else [''-p'', ''--input-format'', ''stream-json'', ''--output-format'', ''stream-json'', ''--verbose'']
           @ (if resumeSessionID \<noteq> [] then [''--resume'', resumeSessionID] else []) @ extra)"

definition flattenEnv :: "strmap \<Rightarrow> string list" where
  "flattenEnv env = map (\<lambda>k. k @ ''='' @ (case map_of env k of Some v \<Rightarrow> v | None \<Rightarrow> [])) (sort (map fst env))"

text \<open>The environment is what is added to the inherited one.\<close>

definition cl_command :: "spec \<Rightarrow> goerr + execCmd" where
  "cl_command sp =
     (if TrimSpace (sp_Command sp) = [] then Inl (errorf ''claude acp driver requires command'')
      else Inr \<lparr>xc_Path = sp_Command sp,
                xc_Args = cl_buildACPArgs (sp_Command sp) (spec_args sp) (sp_RealCLI sp) (sp_ResumeSessionID sp),
                xc_Dir = nonblank (sp_WorkDir sp), xc_Env = Some (''IS_SANDBOX=1'' # flattenEnv (spec_env sp))\<rparr>)"

definition cl_launch :: "goerr option \<Rightarrow> goerr option \<Rightarrow> goerr option \<Rightarrow> spec \<Rightarrow> goerr + claude" where
  "cl_launch pipeErr1 pipeErr2 startErr sp =
     (case cl_command sp of
        Inl err \<Rightarrow> Inl err
      | Inr cmd \<Rightarrow>
          (case start_error ''claude acp'' pipeErr1 pipeErr2 startErr of
             Some err \<Rightarrow> Inl err
           | None \<Rightarrow>
               Inr \<lparr>cl_spec = sp, cl_cmd = True, cl_stdin = True, cl_stderr = [], cl_state = ClReady, cl_readErr = None,
                    cl_closed = False, cl_sessionID = [], cl_activeCh = None, cl_activeProgress = None, cl_chans = [],
                    cl_ctxs = [None], cl_out = [], cl_progress = [], cl_reader = ClReading, cl_run = ClIdle, cl_results = []\<rparr>))"

section \<open>Shared operations\<close>

text \<open>The first error is kept.\<close>

definition cl_markBroken :: "goerr \<Rightarrow> claude \<Rightarrow> claude" where
  "cl_markBroken err r = r\<lparr>cl_readErr := (case cl_readErr r of None \<Rightarrow> Some err | Some e \<Rightarrow> Some e), cl_state := ClBroken\<rparr>"

definition cl_set_ready :: "claude \<Rightarrow> claude" where
  "cl_set_ready r = (if cl_state r \<noteq> ClBroken then r\<lparr>cl_state := ClReady\<rparr> else r)"

definition cl_queued :: "claudeChan \<Rightarrow> claudeEvent list" where
  "cl_queued c = drop (cc_taken c) (cc_sent c)"

definition cl_offer :: "nat \<Rightarrow> claudeEvent \<Rightarrow> claude \<Rightarrow> claude" where
  "cl_offer c ev r =
     (if c < length (cl_chans r) \<and> length (cl_queued (cl_chans r ! c)) < turnBuffer
      then r\<lparr>cl_chans := (cl_chans r)[c := (cl_chans r ! c)\<lparr>cc_sent := cc_sent (cl_chans r ! c) @ [ev]\<rparr>]\<rparr> else r)"

definition cl_end_ctx :: "nat \<Rightarrow> goerr \<Rightarrow> claude \<Rightarrow> claude" where
  "cl_end_ctx c err r =
     (if c < length (cl_ctxs r) \<and> cl_ctxs r ! c = None then r\<lparr>cl_ctxs := (cl_ctxs r)[c := Some err]\<rparr> else r)"

section \<open>The reader\<close>

record claudeBlock =
  cb_Type :: string
  cb_Name :: string
  cb_Input :: "json option"

record claudeStreamEvent =
  cs_Type :: string
  cs_Subtype :: string
  cs_IsError :: bool
  cs_Result :: string
  cs_SessionID :: string
  cs_Message :: "claudeBlock list option"

definition claudeBlock_fields :: "members \<Rightarrow> claudeBlock \<times> bool" where
  "claudeBlock_fields ms =
     (let (t, e1) = get_str ''type'' ms; (n, e2) = get_str ''name'' ms; (i, e3) = get_raw ''input'' ms
      in (\<lparr>cb_Type = t, cb_Name = n, cb_Input = i\<rparr>, e1 \<or> e2 \<or> e3))"

definition claudeStreamEvent_fields :: "members \<Rightarrow> claudeStreamEvent \<times> bool" where
  "claudeStreamEvent_fields ms =
     (let (t, e1) = get_str ''type'' ms; (st, e2) = get_str ''subtype'' ms; (ie, e3) = get_bool ''is_error'' ms;
          (res, e4) = get_str ''result'' ms; (sid, e5) = get_str ''session_id'' ms; (mp, e6) = get_ptr ''message'' ms;
          (msg, e7) = (case mp of
                         None \<Rightarrow> (None, False)
                       | Some mm \<Rightarrow>
                           (case get_list ''content'' mm of (vs, f1) \<Rightarrow>
                              case decode_elems claudeBlock_fields vs of (bs, f2) \<Rightarrow> (Some bs, f1 \<or> f2)))
      in (\<lparr>cs_Type = t, cs_Subtype = st, cs_IsError = ie, cs_Result = res, cs_SessionID = sid, cs_Message = msg\<rparr>,
          e1 \<or> e2 \<or> e3 \<or> e4 \<or> e5 \<or> e6 \<or> e7))"

definition block_progress :: "claudeBlock \<Rightarrow> claudeOp list" where
  "block_progress b =
     (if cb_Type b \<noteq> ''tool_use'' \<or> cb_Name b = [] then []
      else
        let input = (case cb_Input b of None \<Rightarrow> [] | Some v \<Rightarrow> fst (as_struct v))
        in [ClProgress \<lparr>pe_Kind = ''tool'', pe_Tool = cb_Name b, pe_Target = TargetFromInput (cb_Name b) input\<rparr>])"

definition handleLine :: "string \<Rightarrow> claudeOp list" where
  "handleLine line =
     (case unmarshal_value claudeStreamEvent_fields (json_parse line) of
        None \<Rightarrow> []
      | Some evt \<Rightarrow>
          (if cs_Type evt = ''system'' \<and> cs_Subtype evt = ''init'' \<and> cs_SessionID evt \<noteq> [] then [ClCapture (cs_SessionID evt)] else [])
          @ (case cs_Message evt of
               Some blocks \<Rightarrow> if cs_Type evt = ''assistant'' then concat (map block_progress blocks) else []
             | None \<Rightarrow> [])
          @ (if cs_Type evt = ''result''
             then [ClDispatch \<lparr>ce_done = True, ce_text = cs_Result evt, ce_isError = cs_IsError evt, ce_err = None\<rparr>] else []))"

definition capture_session :: "string \<Rightarrow> claude \<Rightarrow> claude" where
  "capture_session sid r = (if cl_sessionID r = [] then r\<lparr>cl_sessionID := sid\<rparr> else r)"

definition cl_report :: "nat \<Rightarrow> progressEvent \<Rightarrow> claude \<Rightarrow> claude" where
  "cl_report c ev r = r\<lparr>cl_progress := cl_progress r @ [(c, ev)]\<rparr>"

text \<open>A step of the reader in a handler (\<open>dispatchTurnEvent\<close> and \<open>dispatchProgress\<close> are two), with what is next.\<close>

fun cl_op :: "claudeOp \<Rightarrow> claude \<Rightarrow> claudeOp list \<times> claude" where
  "cl_op (ClCapture sid) r = ([], capture_session sid r)"
| "cl_op (ClDispatch ev) r = (case cl_activeCh r of None \<Rightarrow> [] | Some c \<Rightarrow> [ClSendTo c ev], r)"
| "cl_op (ClSendTo c ev) r = ([], cl_offer c ev r)"
| "cl_op (ClProgress pe) r = (case cl_activeProgress r of None \<Rightarrow> [] | Some c \<Rightarrow> [ClReport c pe], r)"
| "cl_op (ClReport c pe) r = ([], cl_report c pe r)"

definition cl_handling :: "claudeOp list \<Rightarrow> claudeReader" where
  "cl_handling ops = (if ops = [] then ClReading else ClHandling ops)"

definition cl_failing :: "claudeOp list \<Rightarrow> claudeReader" where
  "cl_failing ops = (if ops = [] then ClEnded else ClFailing ops)"

definition cl_read_line :: "string \<Rightarrow> claude \<Rightarrow> claude option" where
  "cl_read_line scanned r =
     (if cl_reader r \<noteq> ClReading then None
      else Some (let line = TrimSpace scanned in if line = [] then r else r\<lparr>cl_reader := cl_handling (handleLine line)\<rparr>))"

definition cl_read_end :: "goerr option \<Rightarrow> claude \<Rightarrow> claude option" where
  "cl_read_end scanErr r =
     (if cl_reader r \<noteq> ClReading then None
      else
        let e = (case scanErr of None \<Rightarrow> eof | Some e \<Rightarrow> e);
            stderr = TrimSpace (cl_stderr r);
            err = wrapf ''claude acp read failed: '' e (if stderr \<noteq> [] then '' (stderr: '' @ stderr @ '')'' else [])
        in Some ((cl_markBroken err r)\<lparr>cl_reader := ClFailing [ClDispatch \<lparr>ce_done = False, ce_text = [], ce_isError = False, ce_err = Some err\<rparr>]\<rparr>))"

definition cl_reader_next :: "claude \<Rightarrow> claude option" where
  "cl_reader_next r =
     (case cl_reader r of
        ClHandling (op # ops) \<Rightarrow> (case cl_op op r of (todo, r1) \<Rightarrow> Some (r1\<lparr>cl_reader := cl_handling (todo @ ops)\<rparr>))
      | ClFailing (op # ops) \<Rightarrow> (case cl_op op r of (todo, r1) \<Rightarrow> Some (r1\<lparr>cl_reader := cl_failing (todo @ ops)\<rparr>))
      | _ \<Rightarrow> None)"

section \<open>Turns\<close>

definition cl_Run_begin :: "goctx \<Rightarrow> request \<Rightarrow> claude \<Rightarrow> claude option" where
  "cl_Run_begin ctx req r =
     (if cl_run r \<noteq> ClIdle then None
      else
        let prompt = TrimSpace (rq_Prompt req); c = length (cl_chans r);
            refuse = (\<lambda>err. Some (r\<lparr>cl_results := cl_results r @ [(empty_response, Some err)]\<rparr>))
        in if prompt = [] then refuse (errorf ''claude acp request prompt is required'')
           else if cl_state r = ClBroken
           then refuse (case cl_readErr r of None \<Rightarrow> errorf ''claude acp runtime is broken'' | Some err \<Rightarrow> err)
           else Some (r\<lparr>cl_state := ClRunning, cl_chans := cl_chans r @ [\<lparr>cc_sent = [], cc_taken = 0\<rparr>], cl_activeCh := Some c,
                        cl_activeProgress := (if rq_OnProgress req then Some c else None), cl_ctxs := cl_ctxs r @ [None],
                        cl_run := ClSend \<lparr>ct_ctx = length (cl_ctxs r),
                                          ct_derived = (cx_deadline ctx = None \<and> sp_Timeout (cl_spec r) > 0), ct_prompt = prompt\<rparr> c\<rparr>))"

definition user_message :: "string \<Rightarrow> json" where
  "user_message prompt =
     JObj [(''message'', JObj [(''content'', JArr [JObj [(''text'', JStr prompt), (''type'', JStr ''text'')]]), (''role'', JStr ''user'')]),
           (''type'', JStr ''user'')]"

definition cl_send :: "goerr option \<Rightarrow> string \<Rightarrow> claude \<Rightarrow> goerr option \<times> claude" where
  "cl_send werr prompt r =
     (if \<not> cl_stdin r then (Some (errorf ''claude acp stdin is closed''), r)
      else case werr of
             Some err \<Rightarrow> (Some (wrapf ''write claude acp request: '' err []), r)
           | None \<Rightarrow> (None, r\<lparr>cl_out := cl_out r @ [json_text (user_message prompt)]\<rparr>))"

definition cl_classifyContextError :: "goerr \<Rightarrow> goerr" where
  "cl_classifyContextError e =
     (if errors_Is e DeadlineExceeded then wrapf ''claude acp timed out: '' e []
      else if errors_Is e Canceled then wrapf ''claude acp canceled: '' e []
      else e)"

definition cl_take :: "nat \<Rightarrow> claude \<Rightarrow> (claudeEvent \<times> claude) option" where
  "cl_take c r =
     (if length (cl_chans r) \<le> c then None
      else case cl_queued (cl_chans r ! c) of
             [] \<Rightarrow> None
           | ev # _ \<Rightarrow> Some (ev, r\<lparr>cl_chans := (cl_chans r)[c := (cl_chans r ! c)\<lparr>cc_taken := cc_taken (cl_chans r ! c) + 1\<rparr>]\<rparr>))"

text \<open>What \<open>Run\<close> does with an event.\<close>

definition cl_event :: "claudeTurn \<Rightarrow> nat \<Rightarrow> claudeEvent \<Rightarrow> claude \<Rightarrow> claude" where
  "cl_event tn c ev r =
     (case ce_err ev of
        Some err \<Rightarrow> (cl_markBroken err r)\<lparr>cl_run := ClReturn tn c (empty_response, Some (wrapf ''claude acp turn failed: '' err []))\<rparr>
      | None \<Rightarrow>
          if \<not> ce_done ev then r\<lparr>cl_run := ClLoop tn c\<rparr>
          else
            let t = TrimSpace (ce_text ev);
                t1 = (if ce_isError ev then or_text t ''claude acp returned an error'' else t)
            in (cl_set_ready r)\<lparr>cl_run := ClAnswer tn c t1 (ce_isError ev)\<rparr>)"

definition cl_response :: "int \<Rightarrow> string \<Rightarrow> bool \<Rightarrow> claude \<Rightarrow> response \<times> goerr option" where
  "cl_response duration t isError r =
     (\<lparr>rs_Text = t, rs_RuntimeType = ''claude'', rs_ExitCode = (if isError then 1 else 0), rs_Duration = duration,
       rs_RawOutput = t, rs_SessionID = cl_sessionID r\<rparr>,
      if isError then Some (errorf (''claude acp turn error: '' @ t)) else None)"

definition cl_close_turn :: "nat \<Rightarrow> claude \<Rightarrow> claude" where
  "cl_close_turn c r = (if cl_activeCh r = Some c then r\<lparr>cl_activeCh := None, cl_activeProgress := None\<rparr> else r)"

text \<open>The deferred calls, and the result.\<close>

definition cl_return :: "claudeTurn \<Rightarrow> nat \<Rightarrow> response \<times> goerr option \<Rightarrow> claude \<Rightarrow> claude" where
  "cl_return tn c res r =
     (let r1 = cl_close_turn c (if ct_derived tn then cl_end_ctx (ct_ctx tn) context_canceled r else r)
      in r1\<lparr>cl_run := ClIdle, cl_results := cl_results r1 @ [res]\<rparr>)"

text \<open>
  A step of \<open>Run\<close>, with the error of the write and the time that has passed; \<open>None\<close> while it waits.
\<close>

fun cl_run_step :: "goerr option \<Rightarrow> int \<Rightarrow> claudeRun \<Rightarrow> claude \<Rightarrow> claude option" where
  "cl_run_step werr d ClIdle r = None"
| "cl_run_step werr d (ClSend tn c) r =
     Some (case cl_send werr (ct_prompt tn) r of
             (Some err, r1) \<Rightarrow> r1\<lparr>cl_run := ClSendFailed tn c err\<rparr>
           | (None, r1) \<Rightarrow> r1\<lparr>cl_run := ClLoop tn c\<rparr>)"
| "cl_run_step werr d (ClSendFailed tn c err) r = Some ((cl_markBroken err r)\<lparr>cl_run := ClReturn tn c (empty_response, Some err)\<rparr>)"
| "cl_run_step werr d (ClLoop tn c) r = map_option (\<lambda>(ev, r1). cl_event tn c ev r1) (cl_take c r)"
| "cl_run_step werr d (ClAnswer tn c t isError) r = Some (r\<lparr>cl_run := ClReturn tn c (cl_response d t isError r)\<rparr>)"
| "cl_run_step werr d (ClReturn tn c res) r = Some (cl_return tn c res r)"

text \<open>The loop of \<open>Run\<close> when its context is done.\<close>

fun cl_run_ctx_done :: "claudeRun \<Rightarrow> claude \<Rightarrow> claude option" where
  "cl_run_ctx_done (ClLoop tn c) r =
     (if ct_ctx tn < length (cl_ctxs r)
      then map_option (\<lambda>e. let err = cl_classifyContextError e
                            in (cl_markBroken err r)\<lparr>cl_run := ClReturn tn c (empty_response, Some err)\<rparr>) (cl_ctxs r ! ct_ctx tn)
      else None)"
| "cl_run_ctx_done _ r = None"

section \<open>Closing, standard error\<close>

definition cl_Close :: "(goerr \<times> bool) option \<Rightarrow> claude \<Rightarrow> goerr option \<times> claude" where
  "cl_Close wait r =
     (if cl_closed r then (None, r)
      else
        (if \<not> cl_cmd r then None else case wait of Some (err, expected) \<Rightarrow> if expected then None else Some err | None \<Rightarrow> None,
         (cl_markBroken (errorf ''claude acp runtime is closed'') r)\<lparr>cl_closed := True, cl_stdin := False, cl_cmd := False\<rparr>))"

definition cl_stderr_Write :: "string \<Rightarrow> claude \<Rightarrow> claude" where
  "cl_stderr_Write p r =
     r\<lparr>cl_stderr := fold (\<lambda>line cur. let t = TrimSpace line in if t \<noteq> [] then t else cur) (split_on newline (TrimSpace p)) (cl_stderr r)\<rparr>"

section \<open>All together\<close>

inductive cl_step :: "claude \<Rightarrow> claude \<Rightarrow> bool" where
  run_begin: "cl_Run_begin ctx req r = Some r1 \<Longrightarrow> cl_step r r1"
| run: "cl_run_step werr d (cl_run r) r = Some r1 \<Longrightarrow> cl_step r r1"
| run_done: "cl_run_ctx_done (cl_run r) r = Some r1 \<Longrightarrow> cl_step r r1"
| line: "cl_read_line l r = Some r1 \<Longrightarrow> cl_step r r1"
| read_end: "cl_read_end scanErr r = Some r1 \<Longrightarrow> cl_step r r1"
| reader: "cl_reader_next r = Some r1 \<Longrightarrow> cl_step r r1"
| stderr: "cl_step r (cl_stderr_Write p r)"
| ctx_done: "err \<in> {deadline_exceeded, context_canceled} \<Longrightarrow> cl_step r (cl_end_ctx c err r)"
| close: "cl_step r (snd (cl_Close wait r))"

end
