(* ===== verification/AcpLaws.thy ===== *)
theory AcpLaws
  imports AcpCore
begin

text \<open>
  Laws of the operations of \<open>AcpCore\<close>, for every runtime that extends its state: which part of the
  state an operation leaves alone, that a call is only ever answered by a line of the process that
  carries its id (\<open>rpc_ok\<close>), that the channels of the turns are queues (\<open>chans_ok\<close>), and that a turn
  answers from the channel it opened itself (\<open>in_turn\<close>).
\<close>

named_theorems core_simps \<open>operations that leave the calls, the channels or the breakage alone\<close>

section \<open>Lines\<close>

lemma TrimSpace_object: "TrimSpace (json_text (JObj ms)) = json_text (JObj ms)"
  by (rule TrimSpace_plain) (simp_all add: plain_char_def)

lemma decode_line_text: "texty v \<Longrightarrow> decode_line (json_text v) = unmarshal_value rpcResponse_fields (Some (clean_json v))"
  by (simp add: decode_line_def json_round_trip del: json_text.simps)

text \<open>The lines of a process that answers a call or sends a message.\<close>

definition reply_value :: "int \<Rightarrow> json \<Rightarrow> json" where
  "reply_value i v = JObj [(''id'', JNum i), (''result'', v)]"

definition message_value :: "string \<Rightarrow> json \<Rightarrow> json" where
  "message_value m p = JObj [(''method'', JStr m), (''params'', p)]"

lemma decode_reply: "texty v \<Longrightarrow> decode_line (json_text (reply_value i v)) =
   Some \<lparr>rr_ID = Some (JNum i), rr_Method = [], rr_Result = Some (clean_json v), rr_Error = None, rr_Params = None\<rparr>"
  by (subst decode_line_text)
     (simp_all add: reply_value_def unmarshal_value_def rpcResponse_fields_def getters same_name_ascii lower_char_def clean_utf8_ascii)

lemma decode_message: "texty p \<Longrightarrow> decode_line (json_text (message_value m p)) =
   Some \<lparr>rr_ID = None, rr_Method = clean_utf8 m, rr_Result = None, rr_Error = None, rr_Params = Some (clean_json p)\<rparr>"
  by (subst decode_line_text)
     (simp_all add: message_value_def unmarshal_value_def rpcResponse_fields_def getters same_name_ascii lower_char_def clean_utf8_ascii)

lemma trim_lines: "TrimSpace (json_text (reply_value i v)) = json_text (reply_value i v)" "json_text (reply_value i v) \<noteq> []"
  "TrimSpace (json_text (message_value m p)) = json_text (message_value m p)" "json_text (message_value m p) \<noteq> []"
  by (simp_all add: reply_value_def message_value_def TrimSpace_object del: json_text.simps) simp_all

section \<open>Calls\<close>

text \<open>The table of calls: ids are fresh, and the pending ones are those in flight.\<close>

definition in_flight :: "callState option \<Rightarrow> bool" where
  "in_flight st \<longleftrightarrow> (case st of Some (CallReturned _) \<Rightarrow> False | None \<Rightarrow> False | _ \<Rightarrow> True)"

definition calls_ok :: "int list \<Rightarrow> int \<Rightarrow> (int \<Rightarrow> callState option) \<Rightarrow> bool" where
  "calls_ok P n C \<longleftrightarrow>
     distinct P \<and> 0 \<le> n \<and> (\<forall>i. (i \<in> set P) = in_flight (C i)) \<and> (\<forall>i. C i \<noteq> None \<longrightarrow> 0 < i \<and> i \<le> n)"

text \<open>A line that answers a call, and the results and replies that come from such lines.\<close>

definition answers :: "string list \<Rightarrow> int \<Rightarrow> rpcResponse \<Rightarrow> bool" where
  "answers L i resp \<longleftrightarrow>
     (\<exists>line \<in> set L. decode_line line = Some resp) \<and> rr_Method resp = [] \<and> response_id resp = Some i"

definition answered :: "string list \<Rightarrow> int \<Rightarrow> json option \<Rightarrow> bool" where
  "answered L i v \<longleftrightarrow> (\<exists>resp. answers L i resp \<and> rr_Error resp = None \<and> rr_Result resp = v)"

definition result_of :: "callState option \<Rightarrow> (goerr + json option) option" where
  "result_of st = (case st of Some (CallLeaving res) \<Rightarrow> Some res | Some (CallReturned res) \<Rightarrow> Some res | _ \<Rightarrow> None)"

definition results_ok :: "string list \<Rightarrow> (int \<Rightarrow> callState option) \<Rightarrow> bool" where
  "results_ok L C \<longleftrightarrow> (\<forall>i v. result_of (C i) = Some (Inr v) \<longrightarrow> answered L i v)"

definition reply_ok :: "string list \<Rightarrow> int \<Rightarrow> rpcResponse \<Rightarrow> bool" where
  "reply_ok L i resp \<longleftrightarrow> rr_Error resp \<noteq> None \<or> answers L i resp"

definition replies_ok :: "string list \<Rightarrow> (int \<Rightarrow> rpcResponse option) \<Rightarrow> bool" where
  "replies_ok L R \<longleftrightarrow> (\<forall>i resp. R i = Some resp \<longrightarrow> reply_ok L i resp)"

definition reader_ok :: "string list \<Rightarrow> readerState \<Rightarrow> bool" where
  "reader_ok L rd \<longleftrightarrow> (\<forall>i resp. rd = Sending i resp \<longrightarrow> reply_ok L i resp)"

definition rpc_ok :: "'a acpRuntime_scheme \<Rightarrow> bool" where
  "rpc_ok r \<longleftrightarrow>
     calls_ok (ar_pending r) (ar_nextID r) (ar_calls r) \<and> results_ok (ar_in r) (ar_calls r)
     \<and> replies_ok (ar_in r) (ar_replies r) \<and> reader_ok (ar_in r) (ar_reader r)"

definition rpc_part where
  "rpc_part r = (ar_pending r, ar_nextID r, ar_calls r, ar_replies r, ar_reader r, ar_in r)"

lemma rpc_ok_cong: "rpc_part s = rpc_part r \<Longrightarrow> rpc_ok s = rpc_ok r"
  by (simp add: rpc_part_def rpc_ok_def)

lemma in_flight_simps [simp]:
  "\<not> in_flight None" "\<not> in_flight (Some (CallReturned res))" "in_flight (Some (CallLeaving res))"
  "in_flight (Some (CallWriting c l))" "in_flight (Some (CallWaiting c))" "in_flight (Some CallPanicked)"
  by (simp_all add: in_flight_def)

lemma result_of_simps [simp]:
  "result_of None = None" "result_of (Some (CallReturned res)) = Some res" "result_of (Some (CallLeaving res)) = Some res"
  "result_of (Some (CallWriting c l)) = None" "result_of (Some (CallWaiting c)) = None" "result_of (Some CallPanicked) = None"
  by (simp_all add: result_of_def)

lemma calls_ok_upd: "calls_ok P n C \<Longrightarrow> in_flight (C i) \<Longrightarrow> in_flight (Some st) \<Longrightarrow> calls_ok P n (C(i \<mapsto> st))"
  unfolding calls_ok_def by (metis fun_upd_apply in_flight_simps(1))

lemma calls_ok_new: "calls_ok P n C \<Longrightarrow> in_flight (Some st) \<Longrightarrow> calls_ok ((n + 1) # P) (n + 1) (C(n + 1 \<mapsto> st))"
proof -
  assume ok: "calls_ok P n C" and st: "in_flight (Some st)"
  then have "C (n + 1) = None" unfolding calls_ok_def by fastforce
  moreover have "C i \<noteq> None \<Longrightarrow> 0 < i \<and> i \<le> n + 1" for i using ok unfolding calls_ok_def by fastforce
  ultimately show ?thesis using ok st unfolding calls_ok_def by auto
qed

lemma calls_ok_return:
  "calls_ok P n C \<Longrightarrow> C i \<noteq> None \<Longrightarrow> calls_ok (filter (\<lambda>j. j \<noteq> i) P) n (C(i \<mapsto> CallReturned res))"
  unfolding calls_ok_def by auto

lemma calls_ok_skip: "calls_ok P n C \<Longrightarrow> calls_ok P (n + 1) C"
  unfolding calls_ok_def by fastforce

lemma results_ok_upd:
  "results_ok L C \<Longrightarrow> (\<And>v. result_of (Some st) = Some (Inr v) \<Longrightarrow> answered L i v) \<Longrightarrow> results_ok L (C(i \<mapsto> st))"
  by (auto simp: results_ok_def)

lemma replies_ok_upd: "replies_ok L R \<Longrightarrow> reply_ok L i resp \<Longrightarrow> replies_ok L (R(i \<mapsto> resp))"
  by (auto simp: replies_ok_def)

lemma replies_ok_del: "replies_ok L R \<Longrightarrow> replies_ok L (R(i := None))"
  by (auto simp: replies_ok_def)

lemma reader_ok_simps [simp]:
  "reader_ok L Reading" "reader_ok L (Handling ops)" "reader_ok L (handling ops)" "reader_ok L (ReadFailed e)" "reader_ok L (Failing is ch e)" "reader_ok L ReaderDone"
  "reader_ok L (Sending i resp) = reply_ok L i resp"
  by (auto simp: reader_ok_def handling_def)

lemma grows:
  assumes "set L \<subseteq> set L'"
  shows "answers L i resp \<Longrightarrow> answers L' i resp" "results_ok L C \<Longrightarrow> results_ok L' C" "replies_ok L R \<Longrightarrow> replies_ok L' R"
    "reply_ok L i resp \<Longrightarrow> reply_ok L' i resp"
  using assms unfolding answers_def results_ok_def replies_ok_def reply_ok_def answered_def by blast+

lemmas call_splits = option.splits callState.splits if_splits

lemma rpc_ok_begin [intro]: "rpc_ok r \<Longrightarrow> rpc_ok (snd (rpc_begin name c m ps r))"
  by (auto simp: rpc_begin_def rpc_ok_def Let_def calls_ok_skip calls_ok_new intro!: results_ok_upd)

lemma rpc_ok_write: "rpc_write name werr i r = Some s \<Longrightarrow> rpc_ok r \<Longrightarrow> rpc_ok s"
  by (auto simp: rpc_write_def rpc_ok_def split: call_splits intro!: calls_ok_upd results_ok_upd)

lemma rpc_ok_ctx_done: "rpc_ctx_done i r = Some s \<Longrightarrow> rpc_ok r \<Longrightarrow> rpc_ok s"
  by (auto simp: rpc_ctx_done_def rpc_ok_def split: call_splits intro!: calls_ok_upd results_ok_upd)

lemma rpc_ok_leave: "rpc_leave i r = Some s \<Longrightarrow> rpc_ok r \<Longrightarrow> rpc_ok s"
  by (auto simp: rpc_leave_def rpc_ok_def split: call_splits intro!: calls_ok_return results_ok_upd) (auto simp: results_ok_def)

lemma reply_result_answered: "reply_ok L i resp \<Longrightarrow> reply_result e resp = Inr v \<Longrightarrow> answered L i v"
  by (auto simp: reply_ok_def reply_result_def answered_def split: option.splits)

lemma rpc_ok_reply: "rpc_reply i r = Some s \<Longrightarrow> rpc_ok r \<Longrightarrow> rpc_ok s"
  by (auto simp: rpc_reply_def rpc_ok_def replies_ok_del split: call_splits intro!: calls_ok_upd results_ok_upd
      elim!: reply_result_answered [rotated]) (auto simp: replies_ok_def)

lemma rpc_ok_read_end: "read_end name e r = Some s \<Longrightarrow> rpc_ok r \<Longrightarrow> rpc_ok s"
  by (auto simp: read_end_def rpc_ok_def markBroken_def Let_def split: if_splits)

lemma reply_ok_failure [simp]: "reply_ok L i (failure_response err)"
  by (simp add: reply_ok_def failure_response_def)

lemma rpc_part_offer [core_simps]: "rpc_part (offer_event c ev r) = rpc_part r" "rpc_part (put_event c ev r) = rpc_part r"
  by (simp_all add: rpc_part_def offer_event_def put_event_def)

lemma rpc_ok_set_reader: "rpc_ok r \<Longrightarrow> reader_ok (ar_in r) rd \<Longrightarrow> rpc_ok (r\<lparr>ar_reader := rd\<rparr>)"
  by (simp add: rpc_ok_def)

lemma rpc_ok_reader: "reader_next r = Some s \<Longrightarrow> rpc_ok r \<Longrightarrow> rpc_ok s"
  by (auto simp: reader_next_def split: readerState.splits list.splits call_splits
      intro!: rpc_ok_set_reader simp: rpc_ok_cong [OF rpc_part_offer(1)])
     (auto simp: rpc_ok_def replies_ok_upd)

text \<open>The rest of the operations do not touch the calls.\<close>

lemma rpc_part_frame [core_simps]:
  "rpc_part (markBroken e r) = rpc_part r" "rpc_part (stderr_Write txt r) = rpc_part r" "rpc_part (end_ctx c e r) = rpc_part r"
  "rpc_part (cancel_derived d c r) = rpc_part r" "rpc_part (snd (acp_Close name w r)) = rpc_part r"
  "rpc_part (write_line v r) = rpc_part r" "rpc_part (snd (acp_notify name werr m ps r)) = rpc_part r"
  "rpc_part (snd (turn_begin name ctx req r)) = rpc_part r" "rpc_part (open_turn sid p r) = rpc_part r"
  "rpc_part (close_turn c r) = rpc_part r" "rpc_part (set_ready r) = rpc_part r"
  "rpc_part (report_progress c pe r) = rpc_part r"
  by (simp_all add: rpc_part_def markBroken_def stderr_Write_def end_ctx_def cancel_derived_def acp_Close_def write_line_def
      acp_notify_def turn_begin_def new_ctx_def open_turn_def close_turn_def set_ready_def report_progress_def
      offer_event_def put_event_def Let_def split: option.splits)

lemma rpc_part_take [core_simps]: "take_event c r = Some (ev, s) \<Longrightarrow> rpc_part s = rpc_part r"
  by (auto simp: take_event_def rpc_part_def split: list.splits)

section \<open>Channels\<close>

definition chan_ok :: "chan \<Rightarrow> bool" where
  "chan_ok c \<longleftrightarrow> ch_taken c \<le> length (ch_sent c) \<and> length (queued c) \<le> turnBuffer"

definition chans_ok :: "'a acpRuntime_scheme \<Rightarrow> bool" where
  "chans_ok r \<longleftrightarrow> (\<forall>c \<in> set (ar_chans r). chan_ok c)"

lemma queued_simps [simp]:
  "queued \<lparr>ch_sent = xs, ch_taken = n\<rparr> = drop n xs"
  "ch_taken c \<le> length (ch_sent c) \<Longrightarrow> queued (c\<lparr>ch_sent := ch_sent c @ evs\<rparr>) = queued c @ evs"
  "queued (c\<lparr>ch_taken := Suc (ch_taken c)\<rparr>) = tl (queued c)"
  by (simp_all add: queued_def drop_Suc tl_drop)

lemma chans_ok_cong: "ar_chans s = ar_chans r \<Longrightarrow> chans_ok s = chans_ok r"
  by (simp add: chans_ok_def)

lemma the_chan_ok: "chans_ok r \<Longrightarrow> chan_ok (the_chan r c)"
  by (auto simp: chans_ok_def the_chan_def chan_ok_def)

lemma chans_ok_upd: "chans_ok r \<Longrightarrow> chan_ok ch \<Longrightarrow> chans_ok (r\<lparr>ar_chans := (ar_chans r)[c := ch]\<rparr>)"
  by (auto simp: chans_ok_def dest!: set_update_subset_insert [THEN subsetD])

lemma chans_ok_put: "chans_ok r \<Longrightarrow> has_room r c \<Longrightarrow> chans_ok (put_event c ev r)"
  unfolding put_event_def
  by (rule chans_ok_upd, assumption) (use the_chan_ok [of r c] in \<open>auto simp: chan_ok_def has_room_def\<close>)

lemma chans_ok_offer: "chans_ok r \<Longrightarrow> chans_ok (offer_event c ev r)"
  by (simp add: offer_event_def chans_ok_put)

lemma chans_ok_take: "take_event c r = Some (ev, s) \<Longrightarrow> chans_ok r \<Longrightarrow> chans_ok s"
proof -
  assume t: "take_event c r = Some (ev, s)" and ok: "chans_ok r"
  then have "ch_taken (the_chan r c) < length (ch_sent (the_chan r c))"
    by (simp add: take_event_def queued_def split: list.splits) (metis drop_all leI list.distinct(1))
  with t ok the_chan_ok [OF ok, of c] show "chans_ok s"
    by (auto simp: take_event_def chan_ok_def queued_def split: list.splits intro!: chans_ok_upd)
qed

lemma chans_ok_open: "chans_ok r \<Longrightarrow> chans_ok (open_turn sid p r)"
  by (simp add: open_turn_def chans_ok_def chan_ok_def Let_def)

lemma chans_frame [core_simps]:
  "ar_chans (markBroken e r) = ar_chans r" "ar_chans (stderr_Write txt r) = ar_chans r" "ar_chans (end_ctx c e r) = ar_chans r"
  "ar_chans (cancel_derived d c r) = ar_chans r" "ar_chans (snd (acp_Close name w r)) = ar_chans r"
  "ar_chans (write_line v r) = ar_chans r" "ar_chans (snd (acp_notify name werr m ps r)) = ar_chans r"
  "ar_chans (snd (turn_begin name ctx req r)) = ar_chans r" "ar_chans (close_turn c r) = ar_chans r"
  "ar_chans (set_ready r) = ar_chans r" "ar_chans (report_progress c pe r) = ar_chans r"
  "ar_chans (snd (rpc_begin name c m ps r)) = ar_chans r"
  by (simp_all add: markBroken_def stderr_Write_def end_ctx_def cancel_derived_def acp_Close_def write_line_def
      acp_notify_def turn_begin_def new_ctx_def close_turn_def set_ready_def report_progress_def rpc_begin_def Let_def
      split: option.splits)

lemma chans_frame_Some:
  "rpc_write name werr i r = Some s \<Longrightarrow> ar_chans s = ar_chans r"
  "rpc_ctx_done i r = Some s \<Longrightarrow> ar_chans s = ar_chans r"
  "rpc_reply i r = Some s \<Longrightarrow> ar_chans s = ar_chans r"
  "rpc_leave i r = Some s \<Longrightarrow> ar_chans s = ar_chans r"
  "read_end name e r = Some s \<Longrightarrow> ar_chans s = ar_chans r"
  by (auto simp: rpc_write_def rpc_ctx_done_def rpc_reply_def rpc_leave_def read_end_def markBroken_def Let_def split: call_splits)

text \<open>
  A channel keeps what it was given: what was sent before is a prefix of what is sent later.  Only
  the turn that owns it takes events out.
\<close>

definition chan_grow :: "chan \<Rightarrow> chan \<Rightarrow> bool" where
  "chan_grow a b \<longleftrightarrow> prefix (ch_sent a) (ch_sent b)"

definition chan_feed :: "chan \<Rightarrow> chan \<Rightarrow> bool" where
  "chan_feed a b \<longleftrightarrow> prefix (ch_sent a) (ch_sent b) \<and> ch_taken b = ch_taken a"

definition pointwise :: "(chan \<Rightarrow> chan \<Rightarrow> bool) \<Rightarrow> chan list \<Rightarrow> chan list \<Rightarrow> bool" where
  "pointwise R cs ds \<longleftrightarrow> length cs \<le> length ds \<and> (\<forall>c < length cs. R (cs ! c) (ds ! c))"

abbreviation "chans_grow \<equiv> pointwise chan_grow"
abbreviation "chans_feed \<equiv> pointwise chan_feed"

lemma chan_grow_refl [simp]: "chan_grow a a" and chan_feed_refl [simp]: "chan_feed a a"
  by (simp_all add: chan_grow_def chan_feed_def)

lemma pointwise_refl [simp]: "(\<And>a. R a a) \<Longrightarrow> pointwise R cs cs"
  by (simp add: pointwise_def)

lemma feed_trans: "chans_feed as bs \<Longrightarrow> chans_feed bs cs \<Longrightarrow> chans_feed as cs"
  by (simp add: pointwise_def chan_feed_def) (meson order.strict_trans2 order_trans prefix_order.trans)

lemma feed_grow: "chans_feed as bs \<Longrightarrow> chans_grow as bs"
  by (simp add: pointwise_def chan_feed_def chan_grow_def)

lemma pointwise_upd: "(\<And>a. R a a) \<Longrightarrow> R (cs ! c) ch \<Longrightarrow> pointwise R cs (cs[c := ch])"
  by (cases "c < length cs") (simp_all add: pointwise_def nth_list_update list_update_beyond)

lemma feed_put: "chans_feed (ar_chans r) (ar_chans (put_event c ev r))"
  by (cases "c < length (ar_chans r)")
     (auto simp: put_event_def the_chan_def chan_feed_def list_update_beyond intro!: pointwise_upd)

lemma feed_offer [simp]: "chans_feed (ar_chans r) (ar_chans (offer_event c ev r))"
  by (simp add: offer_event_def feed_put)

lemma feed_open [simp]: "chans_feed (ar_chans r) (ar_chans (open_turn sid p r))"
  by (simp add: open_turn_def pointwise_def Let_def nth_append)

lemma grow_take: "take_event c r = Some (ev, s) \<Longrightarrow> chans_grow (ar_chans r) (ar_chans s)"
  by (auto simp: take_event_def the_chan_def queued_def chan_grow_def split: list.splits if_splits intro!: pointwise_upd)

lemma feed_reader: "reader_next r = Some s \<Longrightarrow> chans_feed (ar_chans r) (ar_chans s)"
  by (auto simp: reader_next_def split: readerState.splits list.splits call_splits)

lemma chans_ok_reader: "reader_next r = Some s \<Longrightarrow> chans_ok r \<Longrightarrow> chans_ok s"
  using chans_ok_offer [of r]
  by (auto simp: reader_next_def chans_ok_def split: readerState.splits list.splits call_splits)

lemma take_event_Some:
  assumes "take_event c r = Some (ev, s)" "c < length (ar_chans r)"
  shows "ch_taken (ar_chans r ! c) < length (ch_sent (ar_chans r ! c))" "ev = ch_sent (ar_chans r ! c) ! ch_taken (ar_chans r ! c)"
    "ar_chans s = (ar_chans r)[c := (ar_chans r ! c)\<lparr>ch_taken := ch_taken (ar_chans r ! c) + 1\<rparr>]"
proof -
  from assms have d: "drop (ch_taken (ar_chans r ! c)) (ch_sent (ar_chans r ! c)) = ev # tl (queued (ar_chans r ! c))"
    and s: "ar_chans s = (ar_chans r)[c := (ar_chans r ! c)\<lparr>ch_taken := ch_taken (ar_chans r ! c) + 1\<rparr>]"
    by (auto simp: take_event_def the_chan_def queued_def split: list.splits)
  show "ch_taken (ar_chans r ! c) < length (ch_sent (ar_chans r ! c))" using d by (metis drop_all leI list.distinct(1))
  show "ev = ch_sent (ar_chans r ! c) ! ch_taken (ar_chans r ! c)" using d by (metis nth_via_drop)
  show "ar_chans s = (ar_chans r)[c := (ar_chans r ! c)\<lparr>ch_taken := ch_taken (ar_chans r ! c) + 1\<rparr>]" by (rule s)
qed

text \<open>What a turn has read of its channel, and an answer made of the first events of a channel.\<close>

definition event_text :: "turnEvent \<Rightarrow> string" where
  "event_text ev = te_Delta ev @ te_Text ev"

definition read_so_far :: "chan \<Rightarrow> string list \<Rightarrow> bool" where
  "read_so_far ch parts \<longleftrightarrow>
     concat parts = concat (map event_text (take (ch_taken ch) (ch_sent ch)))
     \<and> (\<forall>ev \<in> set (take (ch_taken ch) (ch_sent ch)). te_Err ev = None \<and> te_Kind ev \<noteq> ''completed'')"

definition answer_of :: "chan \<Rightarrow> string \<Rightarrow> bool" where
  "answer_of ch txt \<longleftrightarrow> txt \<noteq> [] \<and>
     (\<exists>evs ev. prefix (evs @ [ev]) (ch_sent ch) \<and> te_Kind ev = ''completed''
        \<and> (\<forall>e \<in> set evs. te_Kind e \<noteq> ''completed'') \<and> (\<forall>e \<in> set (evs @ [ev]). te_Err e = None)
        \<and> txt = TrimSpace (concat (map event_text (evs @ [ev]))))"

lemma answer_of_grow: "answer_of a txt \<Longrightarrow> chan_grow a b \<Longrightarrow> answer_of b txt"
  unfolding answer_of_def chan_grow_def by (elim conjE exE, intro conjI, assumption) (blast intro: prefix_order.trans)

lemma read_so_far_feed: "read_so_far a parts \<Longrightarrow> chan_ok a \<Longrightarrow> chan_feed a b \<Longrightarrow> read_so_far b parts"
  by (auto simp: read_so_far_def chan_feed_def chan_ok_def prefix_def)

lemma concat_add_parts: "concat (add_parts ev parts) = concat parts @ event_text ev"
  by (simp add: add_parts_def event_text_def)

lemma event_outcome_read:
  assumes "take_event c r = Some (ev, s)" "c < length (ar_chans r)" "read_so_far (ar_chans r ! c) parts"
  shows "event_outcome ev parts = TurnContinues parts1 \<Longrightarrow> read_so_far (ar_chans s ! c) parts1"
    and "event_outcome ev parts = TurnAnswers answer \<Longrightarrow> answer_of (ar_chans s ! c) answer"
proof -
  let ?ch = "ar_chans r ! c"
  note t = take_event_Some [OF assms(1, 2)]
  have upto: "take (ch_taken ?ch + 1) (ch_sent ?ch) = take (ch_taken ?ch) (ch_sent ?ch) @ [ev]"
    using t(1,2) by (simp add: take_Suc_conv_app_nth)
  show "event_outcome ev parts = TurnContinues parts1 \<Longrightarrow> read_so_far (ar_chans s ! c) parts1"
    using assms(2,3) upto
    by (auto simp: event_outcome_def Let_def t(3) read_so_far_def concat_add_parts split: option.splits if_splits)
  assume a: "event_outcome ev parts = TurnAnswers answer"
  then have ev: "te_Err ev = None" "te_Kind ev = ''completed''" "answer \<noteq> []"
    "answer = TrimSpace (concat (map event_text (take (ch_taken ?ch) (ch_sent ?ch) @ [ev])))"
    using assms(3) by (auto simp: event_outcome_def Let_def read_so_far_def concat_add_parts split: option.splits if_splits)
  have "prefix (take (ch_taken ?ch) (ch_sent ?ch) @ [ev]) (ch_sent ?ch)" unfolding upto [symmetric] by (rule take_is_prefix)
  then show "answer_of (ar_chans s ! c) answer"
    unfolding answer_of_def using ev assms(2,3)
    by (intro conjI exI [of _ "take (ch_taken ?ch) (ch_sent ?ch)"] exI [of _ ev]) (auto simp: t(3) read_so_far_def)
qed

section \<open>Breaking\<close>

lemma state_frame [core_simps]:
  "ar_state (stderr_Write txt r) = ar_state r" "ar_state (end_ctx c e r) = ar_state r" "ar_state (cancel_derived d c r) = ar_state r"
  "ar_state (write_line v r) = ar_state r" "ar_state (snd (acp_notify name werr m ps r)) = ar_state r"
  "ar_state (open_turn sid p r) = ar_state r" "ar_state (close_turn c r) = ar_state r"
  "ar_state (report_progress c pe r) = ar_state r"
  "ar_state (snd (rpc_begin name c m ps r)) = ar_state r" "ar_state (offer_event c ev r) = ar_state r"
  "ar_state (put_event c ev r) = ar_state r" "ar_state (markBroken e r) = StateBroken"
  by (simp_all add: markBroken_def stderr_Write_def end_ctx_def cancel_derived_def write_line_def open_turn_def
      acp_notify_def close_turn_def report_progress_def rpc_begin_def offer_event_def put_event_def Let_def split: option.splits)

lemma state_frame_Some:
  "rpc_write name werr i r = Some s \<Longrightarrow> ar_state s = ar_state r"
  "rpc_ctx_done i r = Some s \<Longrightarrow> ar_state s = ar_state r"
  "rpc_reply i r = Some s \<Longrightarrow> ar_state s = ar_state r"
  "rpc_leave i r = Some s \<Longrightarrow> ar_state s = ar_state r"
  "take_event c r = Some (ev, s) \<Longrightarrow> ar_state s = ar_state r"
  "reader_next r = Some s \<Longrightarrow> ar_state s = ar_state r"
  "read_end name e r = Some s \<Longrightarrow> ar_state s = StateBroken"
  by (auto simp: rpc_write_def rpc_ctx_done_def rpc_reply_def rpc_leave_def read_end_def markBroken_def take_event_def
      reader_next_def Let_def core_simps split: call_splits list.splits readerState.splits)

lemma broken_stays:
  "ar_state r = StateBroken \<Longrightarrow> ar_state (set_ready r) = StateBroken"
  "ar_state r = StateBroken \<Longrightarrow> ar_state (snd (acp_Close name w r)) = StateBroken"
  "ar_state r = StateBroken \<Longrightarrow> ar_state (snd (turn_begin name ctx req r)) = StateBroken"
  "ar_state r = StateBroken \<Longrightarrow> turn_begin name ctx req r = (fst (turn_begin name ctx req r), r) \<and> isl (fst (turn_begin name ctx req r))"
  by (simp_all add: set_ready_def acp_Close_def turn_begin_def Let_def)

section \<open>The state of the driver\<close>

lemma more_frame:
  "acpRuntime.more (markBroken e r) = acpRuntime.more r" "acpRuntime.more (stderr_Write txt r) = acpRuntime.more r"
  "acpRuntime.more (end_ctx c e r) = acpRuntime.more r" "acpRuntime.more (cancel_derived d c r) = acpRuntime.more r"
  "acpRuntime.more (snd (acp_Close name w r)) = acpRuntime.more r" "acpRuntime.more (write_line v r) = acpRuntime.more r"
  "acpRuntime.more (snd (acp_notify name werr m ps r)) = acpRuntime.more r"
  "acpRuntime.more (snd (turn_begin name ctx req r)) = acpRuntime.more r"
  "acpRuntime.more (close_turn c r) = acpRuntime.more r" "acpRuntime.more (set_ready r) = acpRuntime.more r"
  "acpRuntime.more (report_progress c pe r) = acpRuntime.more r"
  "acpRuntime.more (snd (rpc_begin name c m ps r)) = acpRuntime.more r" "acpRuntime.more (offer_event c ev r) = acpRuntime.more r"
  "acpRuntime.more (put_event c ev r) = acpRuntime.more r" "acpRuntime.more (open_turn sid b r) = acpRuntime.more r"
  by (simp_all add: markBroken_def stderr_Write_def end_ctx_def cancel_derived_def acp_Close_def write_line_def acp_notify_def
      turn_begin_def new_ctx_def close_turn_def set_ready_def report_progress_def rpc_begin_def
      offer_event_def put_event_def open_turn_def Let_def split: option.splits)

lemma more_frame_Some:
  "rpc_write name werr i r = Some s \<Longrightarrow> acpRuntime.more s = acpRuntime.more r"
  "rpc_ctx_done i r = Some s \<Longrightarrow> acpRuntime.more s = acpRuntime.more r"
  "rpc_reply i r = Some s \<Longrightarrow> acpRuntime.more s = acpRuntime.more r"
  "rpc_leave i r = Some s \<Longrightarrow> acpRuntime.more s = acpRuntime.more r"
  "take_event c r = Some (ev, s) \<Longrightarrow> acpRuntime.more s = acpRuntime.more r"
  "reader_next r = Some s \<Longrightarrow> acpRuntime.more s = acpRuntime.more r"
  "read_end name e r = Some s \<Longrightarrow> acpRuntime.more s = acpRuntime.more r"
  by (auto simp: rpc_write_def rpc_ctx_done_def rpc_reply_def rpc_leave_def read_end_def take_event_def
      reader_next_def Let_def more_frame split: call_splits list.splits readerState.splits)

lemma more_line: "read_line handle l r = Some s \<Longrightarrow> acpRuntime.more s = acpRuntime.more r"
  by (auto simp: read_line_def Let_def split: call_splits)

lemma handler_nextE:
  assumes "handler_next tool ok r = Some s"
  obtains op ops todo r1 where "handler_op tool ok op r = (todo, r1)" "s = r1\<lparr>ar_reader := handling (todo @ ops)\<rparr>"
  using assms by (auto simp: handler_next_def split: readerState.split_asm list.split_asm prod.split_asm)

text \<open>A property of the state every section of a handler keeps is kept by its steps.\<close>

lemma handler_keeps:
  assumes "handler_next tool ok r = Some s" "\<And>i. R r (snd (tool i r))" "\<And>c ev. R r (offer_event c ev r)"
    and "\<And>c pe. R r (report_progress c pe r)" "\<And>v. R r (write_line v r)" "R r r"
    and "\<And>t ops. R r t \<Longrightarrow> R r (t\<lparr>ar_reader := handling ops\<rparr>)"
  shows "R r s"
proof -
  from assms(1) obtain op ops todo r1 where op: "handler_op tool ok op r = (todo, r1)" and s: "s = r1\<lparr>ar_reader := handling (todo @ ops)\<rparr>"
    by (rule handler_nextE)
  have "R r r1" using op assms(2) [of "case op of OpTool i _ \<Rightarrow> i | _ \<Rightarrow> []"] assms(3-6) by (cases op) (auto split: prod.split_asm)
  then show ?thesis unfolding s by (rule assms(7))
qed

lemma more_init: "init_next name werr wait (pc, r) = Some (pc1, s) \<Longrightarrow> acpRuntime.more s = acpRuntime.more r"
  using more_frame(5) [of name wait] more_frame(7) [of name werr "''initialized''" None r]
  by (cases pc) (auto simp: init_next_def split: option.split_asm callState.split_asm sum.split_asm prod.split_asm)

section \<open>Sessions\<close>

text \<open>Only the turn and its goroutines touch the session and what is active.\<close>

definition session_part where
  "session_part r = (ar_sessionID r, ar_sessionWorkDir r, ar_activeSession r, ar_activeCh r)"

lemma session_frame [core_simps]:
  "session_part (markBroken e r) = session_part r" "session_part (stderr_Write txt r) = session_part r"
  "session_part (end_ctx c e r) = session_part r" "session_part (cancel_derived d c r) = session_part r"
  "session_part (snd (acp_Close name w r)) = session_part r" "session_part (write_line v r) = session_part r"
  "session_part (snd (acp_notify name werr m ps r)) = session_part r"
  "session_part (snd (turn_begin name ctx req r)) = session_part r" "session_part (set_ready r) = session_part r"
  "session_part (report_progress c pe r) = session_part r"
  "session_part (snd (rpc_begin name c m ps r)) = session_part r" "session_part (offer_event c ev r) = session_part r"
  "session_part (put_event c ev r) = session_part r"
  by (simp_all add: session_part_def markBroken_def stderr_Write_def end_ctx_def cancel_derived_def acp_Close_def write_line_def
      acp_notify_def turn_begin_def new_ctx_def set_ready_def report_progress_def rpc_begin_def
      offer_event_def put_event_def Let_def split: option.splits prod.splits)

lemma session_frame_Some:
  "rpc_write name werr i r = Some s \<Longrightarrow> session_part s = session_part r"
  "rpc_ctx_done i r = Some s \<Longrightarrow> session_part s = session_part r"
  "rpc_reply i r = Some s \<Longrightarrow> session_part s = session_part r"
  "rpc_leave i r = Some s \<Longrightarrow> session_part s = session_part r"
  "take_event c r = Some (ev, s) \<Longrightarrow> session_part s = session_part r"
  "reader_next r = Some s \<Longrightarrow> session_part s = session_part r"
  "read_end name e r = Some s \<Longrightarrow> session_part s = session_part r"
proof -
  show "reader_next r = Some s \<Longrightarrow> session_part s = session_part r"
    using session_frame(12) [of _ _ r] by (fastforce simp: reader_next_def session_part_def split: readerState.splits list.splits call_splits)
qed (auto simp: rpc_write_def rpc_ctx_done_def rpc_reply_def rpc_leave_def read_end_def take_event_def session_part_def markBroken_def
      Let_def split: call_splits list.splits)

lemma session_reader [simp]: "session_part (r\<lparr>ar_reader := y\<rparr>) = session_part r"
  by (simp add: session_part_def)

lemma session_line: "read_line handle l r = Some s \<Longrightarrow> session_part s = session_part r"
  by (auto simp: read_line_def session_part_def Let_def split: call_splits)

lemma session_handler:
  "handler_next tool ok r = Some s \<Longrightarrow> (\<And>i. session_part (snd (tool i r)) = session_part r) \<Longrightarrow> session_part s = session_part r"
  by (erule handler_keeps [where R = "\<lambda>r s. session_part s = session_part r"]) (simp_all add: core_simps)

lemma more_handler:
  "handler_next tool ok r = Some s \<Longrightarrow> (\<And>i. acpRuntime.more (snd (tool i r)) = acpRuntime.more r) \<Longrightarrow> acpRuntime.more s = acpRuntime.more r"
  by (erule handler_keeps [where R = "\<lambda>r s. acpRuntime.more s = acpRuntime.more r"]) (simp_all add: more_frame)

lemma session_init: "init_next name werr wait (pc, r) = Some (pc1, s) \<Longrightarrow> session_part s = session_part r"
  using session_frame(5) [of name wait] session_frame(7) [of name werr "''initialized''" None r]
  by (cases pc) (auto simp: init_next_def session_part_def split: option.split_asm callState.split_asm sum.split_asm prod.split_asm)

lemma session_receive: "turn_receive name what c parts r = Some (next, s) \<Longrightarrow> session_part s = session_part r"
  by (auto simp: turn_receive_def core_simps session_frame_Some Let_def split: option.split_asm eventOutcome.split_asm)

section \<open>Drivers\<close>

text \<open>
  What the turn of a driver is at, apart from how it gets its session; a driver shows it with the
  results of its turns and whether its start is over.  None of these is part of the shared state.
\<close>

datatype phase = Quiet | Looping nat "string list" | Answering nat string | Returning "response \<times> goerr option"

type_synonym turnView = "phase \<times> (response \<times> goerr option) list \<times> bool"

fun next_phase :: "nat \<Rightarrow> turnNext \<Rightarrow> phase" where
  "next_phase c (NextLoop parts) = Looping c parts"
| "next_phase c (NextAnswer answer) = Answering c answer"
| "next_phase c (NextReturn err) = Returning (empty_response, Some err)"

fun phase_ok :: "chan list \<Rightarrow> phase \<Rightarrow> bool" where
  "phase_ok cs (Looping c parts) = (c < length cs \<and> read_so_far (cs ! c) parts)"
| "phase_ok cs (Answering c answer) = (c < length cs \<and> answer_of (cs ! c) answer)"
| "phase_ok cs _ = True"

definition acp_ok :: "('a acpRuntime_scheme \<Rightarrow> turnView) \<Rightarrow> 'a acpRuntime_scheme \<Rightarrow> bool" where
  "acp_ok view r \<longleftrightarrow> rpc_ok r \<and> chans_ok r \<and> phase_ok (ar_chans r) (fst (view r))"

text \<open>
  The turn that gives result number \<open>n\<close>, when there were \<open>k\<close> channels before it: until it has opened
  its channel there are no more than these, the one it opens is number \<open>k\<close>, and from then on it
  reads, answers and returns from this one.
\<close>

definition answered_by :: "nat \<Rightarrow> chan list \<Rightarrow> response \<times> goerr option \<Rightarrow> bool" where
  "answered_by k cs res \<longleftrightarrow> (snd res = None \<longrightarrow> k < length cs \<and> answer_of (cs ! k) (rs_Text (fst res)))"

fun phase_in :: "nat \<Rightarrow> chan list \<Rightarrow> phase \<Rightarrow> bool" where
  "phase_in k cs Quiet = (length cs = k)"
| "phase_in k cs (Looping c parts) = (c = k)"
| "phase_in k cs (Answering c answer) = (c = k)"
| "phase_in k cs (Returning res) = answered_by k cs res"

definition in_turn :: "nat \<Rightarrow> nat \<Rightarrow> chan list \<Rightarrow> turnView \<Rightarrow> bool" where
  "in_turn n k cs v \<longleftrightarrow>
     n \<le> length (fst (snd v)) \<and> (length (fst (snd v)) = n \<longrightarrow> phase_in k cs (fst v))
     \<and> (n < length (fst (snd v)) \<longrightarrow> answered_by k cs (fst (snd v) ! n))"

text \<open>
  A step beside the turn opens no channel and only adds to those there are, keeps all well formed, and
  does not mend a runtime that is broken once its start is over.
\<close>

definition acp_broken :: "('a acpRuntime_scheme \<Rightarrow> turnView) \<Rightarrow> 'a acpRuntime_scheme \<Rightarrow> bool" where
  "acp_broken view r \<longleftrightarrow> ar_state r = StateBroken \<and> snd (snd (view r))"

definition harmless :: "('a acpRuntime_scheme \<Rightarrow> turnView) \<Rightarrow> 'a acpRuntime_scheme \<Rightarrow> 'a acpRuntime_scheme \<Rightarrow> bool" where
  "harmless view r s \<longleftrightarrow>
     (rpc_ok r \<longrightarrow> rpc_ok s) \<and> (chans_ok r \<longrightarrow> chans_ok s) \<and> chans_feed (ar_chans r) (ar_chans s)
     \<and> length (ar_chans s) = length (ar_chans r) \<and> view s = view r
     \<and> (acp_broken view r \<longrightarrow> acp_broken view s)"

lemma answered_by_error [simp]: "answered_by k cs (resp, Some e)"
  by (simp add: answered_by_def)

lemma answered_by_grow: "chans_grow cs ds \<Longrightarrow> answered_by k cs res \<Longrightarrow> answered_by k ds res"
  unfolding answered_by_def pointwise_def by (meson answer_of_grow order_less_le_trans)

lemma phase_ok_feed:
  assumes "phase_ok cs p" "chans_feed cs ds" "\<forall>c \<in> set cs. chan_ok c"
  shows "phase_ok ds p"
proof -
  have f: "c < length cs \<Longrightarrow> c < length ds \<and> chan_feed (cs ! c) (ds ! c) \<and> chan_grow (cs ! c) (ds ! c) \<and> chan_ok (cs ! c)" for c
    using assms(2,3) by (auto simp: pointwise_def chan_feed_def chan_grow_def)
  show ?thesis using assms(1) f by (cases p) (auto intro: read_so_far_feed answer_of_grow)
qed

lemma phase_in_grow: "chans_grow cs ds \<Longrightarrow> length ds = length cs \<Longrightarrow> phase_in k cs p \<Longrightarrow> phase_in k ds p"
  by (cases p) (auto intro: answered_by_grow)

lemma in_turn_grow: "chans_grow cs ds \<Longrightarrow> length ds = length cs \<Longrightarrow> in_turn n k cs v \<Longrightarrow> in_turn n k ds v"
  by (auto simp: in_turn_def intro: answered_by_grow phase_in_grow)

lemma in_turn_start: "fst v = Quiet \<Longrightarrow> in_turn (length (fst (snd v))) (length cs) cs v"
  by (simp add: in_turn_def)

lemma harmless_ok: "harmless view r s \<Longrightarrow> acp_ok view r \<Longrightarrow> acp_ok view s"
  using phase_ok_feed [of "ar_chans r" "fst (view r)" "ar_chans s"] by (auto simp: harmless_def acp_ok_def chans_ok_def)

lemma harmless_broken: "harmless view r s \<Longrightarrow> acp_broken view r \<Longrightarrow> acp_broken view s"
  by (simp add: harmless_def)

text \<open>What every step of a driver keeps.\<close>

definition acp_keeps :: "('a acpRuntime_scheme \<Rightarrow> turnView) \<Rightarrow> 'a acpRuntime_scheme \<Rightarrow> 'a acpRuntime_scheme \<Rightarrow> bool" where
  "acp_keeps view r s \<longleftrightarrow>
     (acp_ok view r \<longrightarrow> acp_ok view s \<and> (\<forall>n k. in_turn n k (ar_chans r) (view r) \<longrightarrow> in_turn n k (ar_chans s) (view s)))
     \<and> (acp_broken view r \<longrightarrow> acp_broken view s)"

lemma harmless_keeps: "harmless view r s \<Longrightarrow> acp_keeps view r s"
  using harmless_ok [of view r s] harmless_broken [of view r s] in_turn_grow [OF feed_grow, of "ar_chans r" "ar_chans s"]
  by (auto simp: acp_keeps_def harmless_def)

lemma keeps_trans: "acp_keeps view r s \<Longrightarrow> acp_keeps view s t \<Longrightarrow> acp_keeps view r t"
  by (simp add: acp_keeps_def)

lemma keeps_refl [simp]: "acp_keeps view r r"
  by (simp add: acp_keeps_def)

text \<open>A step of the turn itself: only what the driver shows of it changes.\<close>

lemma keeps_view:
  assumes "rpc_part s = rpc_part r" "ar_chans s = ar_chans r" "ar_state s = ar_state r" "snd (snd (view s)) = snd (snd (view r))"
    and "acp_ok view r \<Longrightarrow> phase_ok (ar_chans r) (fst (view s))"
    and "\<And>n k. acp_ok view r \<Longrightarrow> in_turn n k (ar_chans r) (view r) \<Longrightarrow> in_turn n k (ar_chans r) (view s)"
  shows "acp_keeps view r s"
  using assms rpc_ok_cong [OF assms(1)] chans_ok_cong [OF assms(2)] by (auto simp: acp_keeps_def acp_ok_def acp_broken_def)

lemma in_turn_phase:
  "in_turn n k cs v \<Longrightarrow> (length (fst (snd v)) = n \<Longrightarrow> phase_in k cs (fst v) \<Longrightarrow> phase_in k cs p) \<Longrightarrow> in_turn n k cs (p, snd v)"
  by (simp add: in_turn_def)

lemma in_turn_result:
  "in_turn n k cs v \<Longrightarrow> (length (fst (snd v)) = n \<Longrightarrow> phase_in k cs (fst v) \<Longrightarrow> answered_by k cs res) \<Longrightarrow>
   in_turn n k cs (p, fst (snd v) @ [res], b)"
  by (auto simp: in_turn_def nth_append less_Suc_eq)

text \<open>The turn opens its channel.\<close>

lemma in_turn_open: "in_turn n k cs v \<Longrightarrow> fst v = Quiet \<Longrightarrow> in_turn n k (cs @ [ch]) (Looping (length cs) parts, snd v)"
  by (auto simp: in_turn_def answered_by_def nth_append)

lemma harmless_refl [simp]: "harmless view r r"
  by (simp add: harmless_def)

lemma harmless_trans: "harmless view r s \<Longrightarrow> harmless view s t \<Longrightarrow> harmless view r t"
  using feed_trans [of "ar_chans r" "ar_chans s" "ar_chans t"] by (simp add: harmless_def)

lemma harmless_fold: "(\<And>x r. harmless view r (f x r)) \<Longrightarrow> harmless view r (fold f xs r)"
  by (induction xs arbitrary: r) (auto intro: harmless_trans)

text \<open>The turn receiving an event keeps what is well formed, and its new phase is.\<close>

lemma turn_receive_ok:
  assumes "turn_receive name what c parts r = Some (next, s)" "rpc_ok r" "chans_ok r" "phase_ok (ar_chans r) (Looping c parts)"
  shows "rpc_ok s \<and> chans_ok s \<and> chans_grow (ar_chans r) (ar_chans s) \<and> phase_ok (ar_chans s) (next_phase c next)
    \<and> acpRuntime.more s = acpRuntime.more r \<and> length (ar_chans s) = length (ar_chans r)"
proof -
  from assms(1) obtain ev r1 where t: "take_event c r = Some (ev, r1)" by (auto simp: turn_receive_def split: option.splits)
  have pre: "c < length (ar_chans r)" "read_so_far (ar_chans r ! c) parts" using assms(4) by simp_all
  have r1: "rpc_ok r1" "chans_ok r1" "chans_grow (ar_chans r) (ar_chans r1)" "acpRuntime.more r1 = acpRuntime.more r"
    "c < length (ar_chans r1)" "length (ar_chans r1) = length (ar_chans r)"
    using assms(2,3) rpc_ok_cong [OF rpc_part_take [OF t]] chans_ok_take [OF t] grow_take [OF t] more_frame_Some(5) [OF t]
      take_event_Some(3) [OF t pre(1)] pre(1) by simp_all
  have b: "rpc_ok (markBroken e r1)" "chans_ok (markBroken e r1)" "rpc_ok (set_ready r1)" "chans_ok (set_ready r1)" for e
    using r1 rpc_ok_cong [OF rpc_part_frame(1)] rpc_ok_cong [OF rpc_part_frame(11)] chans_ok_cong [OF chans_frame(1)]
      chans_ok_cong [OF chans_frame(10)] by blast+
  show ?thesis
    using assms(1) t r1 b event_outcome_read [OF t pre]
    by (cases "event_outcome ev parts") (auto simp: turn_receive_def Let_def core_simps more_frame)
qed

lemma in_turn_receive:
  assumes "in_turn n k cs (Looping c parts, rs, b)" "chans_grow cs ds" "length ds = length cs"
  shows "in_turn n k ds (next_phase c next, rs, b)"
  using in_turn_grow [OF assms(2,3,1)] by (cases "next") (auto simp: in_turn_def)

lemma turn_receive_broken: "turn_receive name what c parts r = Some (next, s) \<Longrightarrow> ar_state r = StateBroken \<Longrightarrow> ar_state s = StateBroken"
  by (auto simp: turn_receive_def set_ready_def markBroken_def state_frame_Some Let_def split: option.split_asm eventOutcome.split_asm)

lemma turn_receive_more: "turn_receive name what c parts r = Some (next, s) \<Longrightarrow> acpRuntime.more s = acpRuntime.more r"
  by (auto simp: turn_receive_def more_frame more_frame_Some Let_def split: option.split_asm eventOutcome.split_asm)

lemma turn_ctx_done_frame:
  assumes "turn_ctx_done name c r = Some (next, s)"
  obtains e err where "s = markBroken e r" "next = NextReturn err"
  using assms by (auto simp: turn_ctx_done_def Let_def)

locale acp_driver =
  fixes view :: "'a acpRuntime_scheme \<Rightarrow> turnView"
  assumes view_more: "acpRuntime.more s = acpRuntime.more r \<Longrightarrow> view s = view r"
begin

lemma harmless_more:
  assumes "acpRuntime.more s = acpRuntime.more r" "rpc_ok r \<Longrightarrow> rpc_ok s" "chans_ok r \<Longrightarrow> chans_ok s"
    and "chans_feed (ar_chans r) (ar_chans s)" "length (ar_chans s) = length (ar_chans r)"
    and "ar_state r = StateBroken \<Longrightarrow> ar_state s = StateBroken"
  shows "harmless view r s"
  using assms view_more [OF assms(1)] by (auto simp: harmless_def acp_broken_def)

lemma harmless_eq:
  assumes "acpRuntime.more s = acpRuntime.more r" "rpc_ok r \<Longrightarrow> rpc_ok s" "ar_chans s = ar_chans r" "ar_state r = StateBroken \<Longrightarrow> ar_state s = StateBroken"
  shows "harmless view r s"
  using assms chans_ok_cong [OF assms(3)] by (intro harmless_more) simp_all

lemma harmless_frame:
  assumes "acpRuntime.more s = acpRuntime.more r" "rpc_part s = rpc_part r" "ar_chans s = ar_chans r" "ar_state r = StateBroken \<Longrightarrow> ar_state s = StateBroken"
  shows "harmless view r s"
  using assms rpc_ok_cong [OF assms(2)] by (intro harmless_eq) simp_all

lemma harmless_ops:
  "harmless view r (markBroken e r)" "harmless view r (stderr_Write txt r)" "harmless view r (end_ctx c e r)"
  "harmless view r (snd (acp_Close name w r))" "harmless view r (write_line v r)" "harmless view r (report_progress c pe r)"
  "harmless view r (set_ready r)" "harmless view r (cancel_derived d c r)" "harmless view r (close_turn c r)"
  "harmless view r (snd (acp_notify name werr m ps r))" "harmless view r (snd (turn_begin name ctx req r))"
  by (rule harmless_frame; simp add: core_simps more_frame broken_stays(1-3))+

lemma length_chans:
  "length (ar_chans (put_event c ev r)) = length (ar_chans r)" "length (ar_chans (offer_event c ev r)) = length (ar_chans r)"
  "reader_next r = Some s \<Longrightarrow> length (ar_chans s) = length (ar_chans r)"
  by (auto simp: offer_event_def put_event_def reader_next_def split: readerState.splits list.splits call_splits)

lemma harmless_offer: "harmless view r (offer_event c ev r)"
  by (rule harmless_more; simp add: more_frame rpc_ok_cong [OF rpc_part_offer(1)] chans_ok_offer core_simps length_chans)

lemma harmless_put: "has_room r c \<Longrightarrow> harmless view r (put_event c ev r)"
  by (rule harmless_more; simp add: more_frame rpc_ok_cong [OF rpc_part_offer(2)] chans_ok_put feed_put core_simps length_chans)

lemma harmless_begin: "rpc_begin name c m ps r = (x, s) \<Longrightarrow> harmless view r s"
  using rpc_ok_begin [of r name c m ps] more_frame(12) [of name c m ps r] chans_frame(12) [of name c m ps r] state_frame(9) [of name c m ps r]
  by (intro harmless_eq) simp_all

lemma harmless_calls:
  "rpc_write name werr i r = Some s \<Longrightarrow> harmless view r s" "rpc_ctx_done i r = Some s \<Longrightarrow> harmless view r s"
  "rpc_reply i r = Some s \<Longrightarrow> harmless view r s" "rpc_leave i r = Some s \<Longrightarrow> harmless view r s"
  "read_end name e r = Some s \<Longrightarrow> harmless view r s"
  by (rule harmless_eq; simp add: more_frame_Some chans_frame_Some rpc_ok_write rpc_ok_ctx_done rpc_ok_reply rpc_ok_leave
      rpc_ok_read_end state_frame_Some)+

lemma harmless_reader: "reader_next r = Some s \<Longrightarrow> harmless view r s"
  by (rule harmless_more) (simp_all add: more_frame_Some rpc_ok_reader chans_ok_reader feed_reader state_frame_Some length_chans)

lemma harmless_set_reader: "reader_ok (ar_in r) rd \<Longrightarrow> harmless view r (r\<lparr>ar_reader := rd\<rparr>)"
  by (rule harmless_eq) (simp_all add: rpc_ok_def)

lemma harmless_in: "harmless view r (r\<lparr>ar_in := ar_in r @ [l]\<rparr>)"
proof -
  have "set (ar_in r) \<subseteq> set (ar_in r @ [l])" by auto
  from grows [OF this] show ?thesis by (intro harmless_eq) (simp_all add: rpc_ok_def reader_ok_def)
qed

lemma harmless_sessions:
  "harmless view r (r\<lparr>ar_sessionID := a, ar_sessionWorkDir := b\<rparr>)" "harmless view r (r\<lparr>ar_activeSession := a\<rparr>)"
  by (rule harmless_frame; simp add: rpc_part_def)+

lemma harmless_starting: "\<not> snd (snd (view r)) \<Longrightarrow> harmless view r (r\<lparr>ar_state := st\<rparr>)"
  using view_more [of "r\<lparr>ar_state := st\<rparr>" r]
    rpc_ok_cong [of "r\<lparr>ar_state := st\<rparr>" r] chans_ok_cong [of "r\<lparr>ar_state := st\<rparr>" r]
  by (simp add: harmless_def acp_broken_def rpc_part_def)

lemma harmless_line: "read_line handle l r = Some s \<Longrightarrow> harmless view r s"
  by (auto simp: read_line_def Let_def reply_ok_def answers_def harmless_in split: call_splits
      intro!: harmless_trans [OF harmless_in harmless_set_reader])

lemma harmless_handler:
  assumes "handler_next tool ok r = Some s" "\<And>i. harmless view r (snd (tool i r))"
  shows "harmless view r s"
  using assms(1)
  by (rule handler_keeps [where R = "harmless view"])
     (simp_all add: assms(2) harmless_offer harmless_ops harmless_trans [OF _ harmless_set_reader])

text \<open>The turn opens its channel and starts to receive.\<close>

lemma open_keeps:
  assumes "rpc_part s = rpc_part (open_turn sid p r)" "ar_chans s = ar_chans (open_turn sid p r)" "ar_state s = ar_state r"
    and "view s = (Looping (length (ar_chans r)) [], snd (view r))" "fst (view r) = Quiet"
  shows "acp_keeps view r s"
proof -
  have c: "ar_chans s = ar_chans r @ [\<lparr>ch_sent = [], ch_taken = 0\<rparr>]"
    using assms(2) by (simp add: open_turn_def Let_def)
  show ?thesis
    using rpc_ok_cong [OF assms(1)] rpc_ok_cong [OF rpc_part_frame(9) [of sid p r]] chans_ok_open [of r sid p] chans_ok_cong [OF assms(2)]
      assms(3-5) in_turn_open
    by (auto simp: acp_keeps_def acp_ok_def acp_broken_def c read_so_far_def)
qed

text \<open>The start of the driver, until it says that it is over.\<close>

lemma harmless_init:
  assumes "init_next name werr wait (pc, r) = Some (pc1, s)" "snd (snd (view r)) \<Longrightarrow> pc = InitDone"
  shows "harmless view r s"
proof (cases pc)
  case (InitCall i)
  then show ?thesis using assms harmless_ops(4)
    by (auto simp: init_next_def split: option.split_asm callState.split_asm sum.split_asm)
next
  case InitNotify
  obtain e s1 where n: "acp_notify name werr ''initialized'' None r = (e, s1)" by fastforce
  have "harmless view r s1" using harmless_ops(10) [of r name werr "''initialized''" None] by (simp add: n)
  then show ?thesis using assms InitNotify harmless_ops(4)
    by (cases e) (auto simp: init_next_def n intro: harmless_trans)
next
  case InitReady
  then show ?thesis using assms harmless_starting by (auto simp: init_next_def)
qed (use assms in \<open>simp_all add: init_next_def\<close>)

end

section \<open>Runs\<close>

text \<open>The state after the given operations, when each of them can be made.\<close>

fun run_all :: "('s \<Rightarrow> 's option) list \<Rightarrow> 's \<Rightarrow> 's option" where
  "run_all [] r = Some r"
| "run_all (f # fs) r = (case f r of None \<Rightarrow> None | Some s \<Rightarrow> run_all fs s)"

lemma run_all_steps:
  assumes "list_all (\<lambda>f. \<forall>r s. f r = Some s \<longrightarrow> step r s) fs" "run_all fs r = Some s"
  shows "step\<^sup>*\<^sup>* r s"
  using assms by (induction fs arbitrary: r) (auto split: option.split_asm intro: converse_rtranclp_into_rtranclp)

section \<open>Machines\<close>

text \<open>
  A driver as a machine: every step keeps its states well formed and its broken runtimes broken.
  What follows for every reachable state is proved once here.
\<close>

locale acp_machine = acp_driver view
  for view :: "'a acpRuntime_scheme \<Rightarrow> turnView" +
  fixes initial :: "'a acpRuntime_scheme \<Rightarrow> bool"
    and step :: "'a acpRuntime_scheme \<Rightarrow> 'a acpRuntime_scheme \<Rightarrow> bool"
  assumes initial_ok: "initial r \<Longrightarrow> acp_ok view r"
    and step_keeps: "step r s \<Longrightarrow> acp_keeps view r s"
begin

lemma steps_keep: "step\<^sup>*\<^sup>* r s \<Longrightarrow> acp_keeps view r s"
  by (induction rule: rtranclp_induct) (auto intro: keeps_trans step_keeps)

lemma reachable_ok: "initial r \<Longrightarrow> step\<^sup>*\<^sup>* r s \<Longrightarrow> acp_ok view s"
  using steps_keep initial_ok by (auto simp: acp_keeps_def)

lemma broken_for_good: "step\<^sup>*\<^sup>* r s \<Longrightarrow> acp_broken view r \<Longrightarrow> acp_broken view s"
  using steps_keep by (auto simp: acp_keeps_def)

text \<open>
  An answer without error is the text the channel of its turn was given up to its first completion.
\<close>

lemma answers_stream:
  assumes "initial r" "step\<^sup>*\<^sup>* r s" "fst (view s) = Quiet" "step\<^sup>*\<^sup>* s t" "fst (snd (view t)) = fst (snd (view s)) @ (resp, None) # rest"
  shows "length (ar_chans s) < length (ar_chans t) \<and> rs_Text resp \<noteq> [] \<and>
    (\<exists>evs ev. prefix (evs @ [ev]) (ch_sent (ar_chans t ! length (ar_chans s)))
       \<and> te_Kind ev = ''completed'' \<and> (\<forall>e \<in> set evs. te_Kind e \<noteq> ''completed'') \<and> (\<forall>e \<in> set (evs @ [ev]). te_Err e = None)
       \<and> rs_Text resp = TrimSpace (concat (map event_text (evs @ [ev]))))"
proof -
  have "acp_ok view s" using reachable_ok [OF assms(1, 2)] .
  moreover have "in_turn (length (fst (snd (view s)))) (length (ar_chans s)) (ar_chans s) (view s)" using assms(3) by (rule in_turn_start)
  ultimately have "in_turn (length (fst (snd (view s)))) (length (ar_chans s)) (ar_chans t) (view t)"
    using steps_keep [OF assms(4)] by (auto simp: acp_keeps_def)
  then have "answered_by (length (ar_chans s)) (ar_chans t) (resp, None)" by (simp add: in_turn_def assms(5))
  then show ?thesis by (simp add: answered_by_def answer_of_def)
qed

lemma calls_matched:
  assumes "initial r" "step\<^sup>*\<^sup>* r s"
  shows "distinct (ar_pending s) \<and> (\<forall>i \<in> set (ar_pending s). 0 < i \<and> i \<le> ar_nextID s)
    \<and> (ar_calls s i = Some (CallReturned (Inr v)) \<longrightarrow>
         (\<exists>line \<in> set (ar_in s). \<exists>resp. decode_line line = Some resp \<and> rr_Method resp = [] \<and> response_id resp = Some i
            \<and> rr_Error resp = None \<and> rr_Result resp = v))"
proof -
  have ok: "rpc_ok s" using reachable_ok [OF assms] by (simp add: acp_ok_def)
  then have "distinct (ar_pending s)" "\<forall>i \<in> set (ar_pending s). 0 < i \<and> i \<le> ar_nextID s"
    unfolding rpc_ok_def calls_ok_def by (blast, metis in_flight_simps(1))
  moreover have "answered (ar_in s) i v" if "ar_calls s i = Some (CallReturned (Inr v))"
    using ok that by (simp add: rpc_ok_def results_ok_def)
  ultimately show ?thesis unfolding answered_def answers_def by blast
qed

end

end
