(* ===== verification/ClaudeLaws.thy ===== *)
theory ClaudeLaws
  imports ClaudeAcp AcpLaws
begin

text \<open>
  What holds of the Claude driver in every reachable state (\<open>cl_step\<close>): the first event of the channel a
  turn has opened decides it, the first error of a runtime is the one it keeps, and no turn waits for a reader that
  has ended.
\<close>

section \<open>Channels\<close>

definition cl_grow :: "claudeChan list \<Rightarrow> claudeChan list \<Rightarrow> bool" where
  "cl_grow cs ds \<longleftrightarrow> length cs \<le> length ds
     \<and> (\<forall>c < length cs. prefix (cc_sent (cs ! c)) (cc_sent (ds ! c)) \<and> cc_taken (ds ! c) = cc_taken (cs ! c))"

definition decisive :: "claudeEvent \<Rightarrow> bool" where
  "decisive ev \<longleftrightarrow> ce_done ev \<or> ce_err ev \<noteq> None"

definition events_decisive :: "claudeChan list \<Rightarrow> bool" where
  "events_decisive cs \<longleftrightarrow> (\<forall>ch \<in> set cs. \<forall>ev \<in> set (cc_sent ch). decisive ev)"

text \<open>The answer the first event of a channel gives.\<close>

definition answers_first :: "claudeChan list \<Rightarrow> nat \<Rightarrow> string \<Rightarrow> bool" where
  "answers_first cs c t \<longleftrightarrow> c < length cs \<and>
     (\<exists>ev rest. cc_sent (cs ! c) = ev # rest \<and> ce_done ev \<and> \<not> ce_isError ev \<and> ce_err ev = None \<and> t = TrimSpace (ce_text ev))"

definition cl_answered :: "nat \<Rightarrow> claudeChan list \<Rightarrow> response \<times> goerr option \<Rightarrow> bool" where
  "cl_answered c cs res \<longleftrightarrow> (snd res = None \<longrightarrow> answers_first cs c (rs_Text (fst res)))"

lemma cl_grow_refl [simp]: "cl_grow cs cs"
  by (simp add: cl_grow_def)

lemma answers_first_grow: "cl_grow cs ds \<Longrightarrow> answers_first cs c t \<Longrightarrow> answers_first ds c t"
  unfolding cl_grow_def answers_first_def prefix_def by fastforce

lemma answers_first_take: "answers_first cs c t \<Longrightarrow> answers_first (cs[b := (cs ! b)\<lparr>cc_taken := n\<rparr>]) c t"
  by (cases "b = c"; cases "b < length cs") (auto simp: answers_first_def nth_list_update)

lemma cl_answered_error [simp]: "cl_answered c cs (resp, Some e)"
  by (simp add: cl_answered_def)

section \<open>The invariant\<close>

text \<open>Where the turn is: its channel is the active one, and it has taken nothing before it leaves the loop.\<close>

fun cl_run_ok :: "claudeRun \<Rightarrow> nat option \<Rightarrow> claudeChan list \<Rightarrow> bool" where
  "cl_run_ok ClIdle a cs = (a = None)"
| "cl_run_ok (ClSend tn c) a cs = (a = Some c \<and> c < length cs \<and> cc_taken (cs ! c) = 0)"
| "cl_run_ok (ClSendFailed tn c err) a cs = (a = Some c \<and> c < length cs \<and> cc_taken (cs ! c) = 0)"
| "cl_run_ok (ClLoop tn c) a cs = (a = Some c \<and> c < length cs \<and> cc_taken (cs ! c) = 0)"
| "cl_run_ok (ClAnswer tn c t isError) a cs = (a = Some c \<and> c < length cs \<and> (\<not> isError \<longrightarrow> answers_first cs c t))"
| "cl_run_ok (ClReturn tn c res) a cs = (a = Some c \<and> c < length cs \<and> cl_answered c cs res)"

text \<open>
  A reader that has ended has left an event to the turn that may still wait for one, and one that is about
  to leave it will.
\<close>

fun in_loop :: "claudeRun \<Rightarrow> nat option" where
  "in_loop (ClSend tn c) = Some c"
| "in_loop (ClLoop tn c) = Some c"
| "in_loop _ = None"

fun op_decisive :: "claudeOp \<Rightarrow> bool" where
  "op_decisive (ClDispatch ev) = decisive ev"
| "op_decisive (ClSendTo c ev) = decisive ev"
| "op_decisive _ = True"

definition loop_in :: "claude \<Rightarrow> nat \<Rightarrow> bool" where
  "loop_in r c \<longleftrightarrow> (\<forall>c2. in_loop (cl_run r) = Some c2 \<longrightarrow> c2 = c)"

fun failing_ok :: "claudeOp list \<Rightarrow> claude \<Rightarrow> bool" where
  "failing_ok [ClDispatch ev] r = decisive ev"
| "failing_ok [ClSendTo c ev] r = (decisive ev \<and> loop_in r c)"
| "failing_ok _ r = False"

definition cl_reader_ok :: "claude \<Rightarrow> bool" where
  "cl_reader_ok r \<longleftrightarrow>
     (case cl_reader r of
        ClReading \<Rightarrow> True
      | ClHandling ops \<Rightarrow> list_all op_decisive ops
      | ClFailing ops \<Rightarrow> cl_state r = ClBroken \<and> failing_ok ops r
      | ClEnded \<Rightarrow> cl_state r = ClBroken \<and> (\<forall>c. in_loop (cl_run r) = Some c \<longrightarrow> cc_sent (cl_chans r ! c) \<noteq> []))"

definition cl_inv :: "claude \<Rightarrow> bool" where
  "cl_inv r \<longleftrightarrow>
     (cl_state r = ClBroken) = (cl_readErr r \<noteq> None) \<and> events_decisive (cl_chans r)
     \<and> cl_run_ok (cl_run r) (cl_activeCh r) (cl_chans r) \<and> cl_reader_ok r"

lemma failing_ok_run:
  "failing_ok ops r \<Longrightarrow> (\<And>c. in_loop (cl_run s) = Some c \<Longrightarrow> in_loop (cl_run r) = Some c) \<Longrightarrow> failing_ok ops s"
  by (cases "(ops, r)" rule: failing_ok.cases) (auto simp: loop_in_def)

text \<open>The reader does not mind a step that leaves it alone, leaves broken what is, and starts no loop.\<close>

lemma reader_ok_frame:
  assumes "cl_reader_ok r" "cl_reader s = cl_reader r" "cl_chans s = cl_chans r" "cl_state r = ClBroken \<Longrightarrow> cl_state s = ClBroken"
    and "cl_state r = ClBroken \<Longrightarrow> (\<And>c. in_loop (cl_run s) = Some c \<Longrightarrow> in_loop (cl_run r) = Some c)"
  shows "cl_reader_ok s"
  using assms failing_ok_run [of _ r s] by (auto simp: cl_reader_ok_def split: claudeReader.splits)

lemma cl_run_ok_grow: "cl_grow cs ds \<Longrightarrow> cl_run_ok pc a cs \<Longrightarrow> cl_run_ok pc a ds"
  by (cases pc) (auto simp: cl_grow_def cl_answered_def intro: answers_first_grow [unfolded cl_grow_def])

text \<open>A step beside the turn.\<close>

lemma cl_inv_grow:
  assumes "cl_inv r" "cl_grow (cl_chans r) (cl_chans s)" "events_decisive (cl_chans s)"
    and "cl_run s = cl_run r" "cl_activeCh s = cl_activeCh r"
    and "(cl_state s = ClBroken) = (cl_readErr s \<noteq> None)" "cl_reader_ok s"
  shows "cl_inv s"
  using assms cl_run_ok_grow [OF assms(2)] by (simp add: cl_inv_def)

lemma offer_grow: "cl_grow (cl_chans r) (cl_chans (cl_offer c ev r))"
  by (auto simp: cl_grow_def cl_offer_def nth_list_update)

lemma offer_decisive: "decisive ev \<Longrightarrow> events_decisive (cl_chans r) \<Longrightarrow> events_decisive (cl_chans (cl_offer c ev r))"
  by (auto simp: events_decisive_def cl_offer_def dest!: set_update_subset_insert [THEN subsetD]) (meson nth_mem)

lemma offer_frame:
  "cl_run (cl_offer c ev r) = cl_run r" "cl_activeCh (cl_offer c ev r) = cl_activeCh r" "cl_results (cl_offer c ev r) = cl_results r"
  "cl_state (cl_offer c ev r) = cl_state r" "cl_readErr (cl_offer c ev r) = cl_readErr r" "cl_reader (cl_offer c ev r) = cl_reader r"
  by (simp_all add: cl_offer_def)

text \<open>Once an event has been offered, the channel holds one.\<close>

lemma offer_filled: "c < length (cl_chans r) \<Longrightarrow> cc_sent (cl_chans (cl_offer c ev r) ! c) \<noteq> []"
  by (auto simp: cl_offer_def cl_queued_def turnBuffer_def)

lemma broken_frame:
  "cl_run (cl_markBroken e r) = cl_run r" "cl_activeCh (cl_markBroken e r) = cl_activeCh r" "cl_results (cl_markBroken e r) = cl_results r"
  "cl_chans (cl_markBroken e r) = cl_chans r" "cl_state (cl_markBroken e r) = ClBroken" "cl_readErr (cl_markBroken e r) \<noteq> None"
  "cl_reader (cl_markBroken e r) = cl_reader r"
  by (simp_all add: cl_markBroken_def split: option.splits)

text \<open>What no part of the invariant looks at.\<close>

definition quiet_part where
  "quiet_part r = (cl_chans r, cl_run r, cl_activeCh r, cl_results r, cl_state r, cl_readErr r, cl_reader r)"

lemma quiet_inv: "quiet_part s = quiet_part r \<Longrightarrow> cl_inv s = cl_inv r"
  using reader_ok_frame [of r s] reader_ok_frame [of s r] by (auto simp: quiet_part_def cl_inv_def)

lemma quiet_ops:
  "quiet_part (cl_stderr_Write p r) = quiet_part r" "quiet_part (cl_end_ctx c e r) = quiet_part r"
  "quiet_part (capture_session sid r) = quiet_part r" "quiet_part (cl_report c pe r) = quiet_part r"
  by (simp_all add: quiet_part_def cl_stderr_Write_def cl_end_ctx_def capture_session_def cl_report_def)

lemma handleLine_decisive: "list_all op_decisive (handleLine line)"
proof -
  have b: "list_all op_decisive (concat (map block_progress bs))" for bs
    by (induction bs) (simp_all add: block_progress_def Let_def)
  show ?thesis by (simp add: handleLine_def b decisive_def split: option.splits)
qed

lemma cl_handling_simps [simp]:
  "cl_reader r = cl_handling ops \<Longrightarrow> cl_reader_ok r = list_all op_decisive ops"
  "cl_reader r = ClReading \<Longrightarrow> cl_reader_ok r"
  by (simp_all add: cl_reader_ok_def cl_handling_def)

text \<open>A step of a handler changes what the reader is at, and the channels at most by one more event.\<close>

lemma cl_op_frame:
  assumes "cl_op op r = (todo, s)"
  shows "cl_run s = cl_run r" "cl_activeCh s = cl_activeCh r" "cl_results s = cl_results r" "cl_state s = cl_state r"
    "cl_readErr s = cl_readErr r" "cl_grow (cl_chans r) (cl_chans s)" "length (cl_chans s) = length (cl_chans r)"
  using assms offer_grow [of r] quiet_ops(3,4)
  by (cases op; auto simp: offer_frame quiet_part_def cl_offer_def)+

lemma cl_op_decisive:
  assumes "cl_op op r = (todo, s)" "op_decisive op" "events_decisive (cl_chans r)"
  shows "events_decisive (cl_chans s)" "list_all op_decisive todo"
  using assms offer_decisive quiet_ops(3,4) by (cases op; auto simp: quiet_part_def split: option.splits)+

lemma inv_op:
  assumes "cl_inv r" "cl_op op r = (todo, s)" "op_decisive op" "cl_reader_ok (s\<lparr>cl_reader := rd\<rparr>)"
  shows "cl_inv (s\<lparr>cl_reader := rd\<rparr>)"
  by (rule cl_inv_grow [OF assms(1)])
     (use assms cl_op_frame [OF assms(2)] cl_op_decisive [OF assms(2,3)] in \<open>simp_all add: cl_inv_def\<close>)

lemma active_loop: "cl_inv r \<Longrightarrow> in_loop (cl_run r) = Some c \<Longrightarrow> cl_activeCh r = Some c \<and> c < length (cl_chans r)"
  by (cases "cl_run r") (auto simp: cl_inv_def)

lemma inv_reader:
  assumes "cl_inv r" "cl_reader_next r = Some s"
  shows "cl_inv s"
proof (cases "cl_reader r")
  case (ClHandling ops0)
  then obtain op ops where ops: "cl_reader r = ClHandling (op # ops)" using assms(2) by (auto simp: cl_reader_next_def split: list.split_asm)
  obtain todo r1 where op: "cl_op op r = (todo, r1)" by fastforce
  have d: "list_all op_decisive (op # ops)" using assms(1) ops by (simp add: cl_inv_def cl_reader_ok_def)
  then have "list_all op_decisive (todo @ ops)" using cl_op_decisive(2) [OF op] assms(1) by (simp add: cl_inv_def)
  then show ?thesis using inv_op [OF assms(1) op, of "cl_handling (todo @ ops)"] d assms(2) ops op by (simp add: cl_reader_next_def)
next
  case (ClFailing ops0)
  then have st: "cl_state r = ClBroken" "failing_ok ops0 r" using assms(1) by (simp_all add: cl_inv_def cl_reader_ok_def)
  then consider ev where "ops0 = [ClDispatch ev]" "decisive ev" | c ev where "ops0 = [ClSendTo c ev]" "decisive ev" "loop_in r c"
    by (cases "(ops0, r)" rule: failing_ok.cases) auto
  then show ?thesis
  proof cases
    case (1 ev)
    have "cl_reader_ok (r\<lparr>cl_reader := cl_failing (case cl_activeCh r of None \<Rightarrow> [] | Some c \<Rightarrow> [ClSendTo c ev])\<rparr>)"
      using st(1) 1(2) active_loop [OF assms(1)] by (auto simp: cl_reader_ok_def cl_failing_def loop_in_def split: option.splits)
    then show ?thesis using inv_op [OF assms(1), of "ClDispatch ev"] 1 ClFailing assms(2) by (auto simp: cl_reader_next_def)
  next
    case (2 c ev)
    have "cc_sent (cl_chans (cl_offer c ev r) ! c2) \<noteq> []" if "in_loop (cl_run r) = Some c2" for c2
      using 2(3) that active_loop [OF assms(1) that] offer_filled [of c2 r ev] by (simp add: loop_in_def)
    then have "cl_reader_ok ((cl_offer c ev r)\<lparr>cl_reader := cl_failing []\<rparr>)"
      using st(1) by (simp add: cl_reader_ok_def cl_failing_def offer_frame)
    then show ?thesis using inv_op [OF assms(1), of "ClSendTo c ev"] 2 ClFailing assms(2) by (auto simp: cl_reader_next_def)
  qed
qed (use assms(2) in \<open>simp_all add: cl_reader_next_def\<close>)

section \<open>The turn\<close>

text \<open>A step of the turn that moves it on without touching the channels.\<close>

lemma cl_inv_run:
  assumes "cl_inv r" "cl_run_ok pc (cl_activeCh r) (cl_chans r)" "\<And>c. in_loop pc = Some c \<Longrightarrow> in_loop (cl_run r) = Some c"
  shows "cl_inv (r\<lparr>cl_run := pc\<rparr>)"
proof -
  have "cl_reader_ok (r\<lparr>cl_run := pc\<rparr>)" by (rule reader_ok_frame [of r]) (use assms in \<open>simp_all add: cl_inv_def\<close>)
  with assms show ?thesis by (simp add: cl_inv_def)
qed

lemma cl_inv_broken:
  assumes "cl_inv r"
  shows "cl_inv (cl_markBroken e r)"
proof -
  have "cl_reader_ok (cl_markBroken e r)" by (rule reader_ok_frame [of r]) (use assms in \<open>simp_all add: cl_inv_def broken_frame\<close>)
  with assms show ?thesis by (simp add: cl_inv_def broken_frame)
qed

lemma cl_inv_ready:
  assumes "cl_inv r"
  shows "cl_inv (cl_set_ready r)"
proof -
  have "cl_reader_ok (cl_set_ready r)" by (rule reader_ok_frame [of r]) (use assms in \<open>simp_all add: cl_inv_def cl_set_ready_def\<close>)
  with assms show ?thesis by (auto simp: cl_inv_def cl_set_ready_def)
qed

lemma ready_frame: "cl_activeCh (cl_set_ready r) = cl_activeCh r" "cl_chans (cl_set_ready r) = cl_chans r" "cl_run (cl_set_ready r) = cl_run r"
  by (simp_all add: cl_set_ready_def)

lemma take_first:
  assumes "cl_take c r = Some (ev, s)" "cc_taken (cl_chans r ! c) = 0"
  shows "c < length (cl_chans r)" "\<exists>rest. cc_sent (cl_chans r ! c) = ev # rest"
    "s = r\<lparr>cl_chans := (cl_chans r)[c := (cl_chans r ! c)\<lparr>cc_taken := 1\<rparr>]\<rparr>"
  using assms by (auto simp: cl_take_def cl_queued_def split: if_splits list.split_asm)

lemma leave_loop: "cl_reader_ok r \<Longrightarrow> in_loop (cl_run s) = None \<Longrightarrow> cl_reader s = cl_reader r \<Longrightarrow> (cl_state r = ClBroken \<Longrightarrow> cl_state s = ClBroken) \<Longrightarrow> cl_reader_ok s"
  using failing_ok_run [of _ r s] by (auto simp: cl_reader_ok_def split: claudeReader.splits)

lemma inv_take_event:
  assumes "cl_inv r" "cl_run r = ClLoop tn c" "cl_take c r = Some (ev, s)"
  shows "cl_inv (cl_event tn c ev s)" "\<forall>tn2 c2. cl_run (cl_event tn c ev s) \<noteq> ClLoop tn2 c2"
    "cl_chans (cl_event tn c ev s) = (cl_chans r)[c := (cl_chans r ! c)\<lparr>cc_taken := 1\<rparr>]"
    "cl_results (cl_event tn c ev s) = cl_results r"
proof -
  have pre: "cl_activeCh r = Some c" "cc_taken (cl_chans r ! c) = 0" using assms(1,2) by (simp_all add: cl_inv_def)
  obtain rest where t: "c < length (cl_chans r)" "cc_sent (cl_chans r ! c) = ev # rest"
    "s = r\<lparr>cl_chans := (cl_chans r)[c := (cl_chans r ! c)\<lparr>cc_taken := 1\<rparr>]\<rparr>"
    using take_first [OF assms(3) pre(2)] by blast
  have d: "decisive ev" using assms(1) t(2) nth_mem [OF t(1)] by (force simp: cl_inv_def events_decisive_def)
  have dec: "events_decisive (cl_chans s)"
    using assms(1) nth_mem [OF t(1)] by (auto simp: t(3) cl_inv_def events_decisive_def dest!: set_update_subset_insert [THEN subsetD])
  have first: "ce_done ev \<Longrightarrow> \<not> ce_isError ev \<Longrightarrow> ce_err ev = None \<Longrightarrow> answers_first (cl_chans s) c (TrimSpace (ce_text ev))"
    using t by (auto simp: answers_first_def)
  have st: "(cl_state s = ClBroken) = (cl_readErr s \<noteq> None)" "cl_activeCh s = Some c" "c < length (cl_chans s)" "cl_reader s = cl_reader r"
    "cl_state s = cl_state r"
    using assms(1) pre t by (simp_all add: cl_inv_def t(3))
  have rd: "cl_reader_ok r" using assms(1) by (simp add: cl_inv_def)
  have left: "in_loop (cl_run (cl_event tn c ev s)) = None"
    using d by (auto simp: cl_event_def decisive_def Let_def split: option.splits)
  have rd2: "cl_reader_ok (cl_event tn c ev s)"
    by (rule leave_loop [OF rd left]) (use st in \<open>auto simp: cl_event_def cl_markBroken_def cl_set_ready_def Let_def split: option.splits\<close>)
  show "cl_inv (cl_event tn c ev s)"
  proof (cases "ce_err ev")
    case (Some err)
    then show ?thesis using dec st rd2 by (simp add: cl_event_def cl_inv_def broken_frame)
  next
    case None
    then have "ce_done ev" using d by (simp add: decisive_def)
    then show ?thesis using None dec st rd2 first by (auto simp: cl_event_def cl_inv_def cl_set_ready_def Let_def)
  qed
  show "\<forall>tn2 c2. cl_run (cl_event tn c ev s) \<noteq> ClLoop tn2 c2" using left by auto
  show "cl_chans (cl_event tn c ev s) = (cl_chans r)[c := (cl_chans r ! c)\<lparr>cc_taken := 1\<rparr>]" "cl_results (cl_event tn c ev s) = cl_results r"
    by (auto simp: cl_event_def cl_markBroken_def cl_set_ready_def t(3) Let_def split: option.splits)
qed

lemma return_frame:
  "cl_results (cl_return tn c res r) = cl_results r @ [res]" "cl_chans (cl_return tn c res r) = cl_chans r"
  "cl_run (cl_return tn c res r) = ClIdle" "cl_reader (cl_return tn c res r) = cl_reader r" "cl_state (cl_return tn c res r) = cl_state r"
  "cl_readErr (cl_return tn c res r) = cl_readErr r"
  "cl_activeCh (cl_return tn c res r) = (if cl_activeCh r = Some c then None else cl_activeCh r)"
  by (simp_all add: cl_return_def cl_close_turn_def cl_end_ctx_def Let_def)

lemma inv_return:
  assumes "cl_inv r" "cl_run r = ClReturn tn c res"
  shows "cl_inv (cl_return tn c res r)"
proof -
  have "cl_reader_ok (cl_return tn c res r)" by (rule leave_loop [of r]) (use assms in \<open>simp_all add: cl_inv_def return_frame\<close>)
  then show ?thesis using assms by (simp add: cl_inv_def return_frame)
qed

lemma inv_run:
  assumes "cl_inv r" "cl_run_step werr d (cl_run r) r = Some s"
  shows "cl_inv s"
proof (cases "cl_run r")
  case (ClSend tn c)
  let ?s1 = "snd (cl_send werr (ct_prompt tn) r)"
  have q: "quiet_part ?s1 = quiet_part r" by (simp add: quiet_part_def cl_send_def split: option.splits)
  then have s1: "cl_inv ?s1" "cl_run ?s1 = ClSend tn c" using quiet_inv [OF q] assms(1) ClSend by (simp_all add: quiet_part_def)
  obtain e s2 where e: "cl_send werr (ct_prompt tn) r = (e, s2)" by fastforce
  let ?pc = "case e of Some err \<Rightarrow> ClSendFailed tn c err | None \<Rightarrow> ClLoop tn c"
  have s: "s = ?s1\<lparr>cl_run := ?pc\<rparr>" using assms(2) ClSend e by (simp split: option.split_asm)
  show ?thesis unfolding s
    by (rule cl_inv_run [OF s1(1)]) (use s1 in \<open>auto simp: cl_inv_def split: option.splits\<close>)
next
  case (ClSendFailed tn c err)
  then show ?thesis using assms cl_inv_run [OF cl_inv_broken [OF assms(1)], of "ClReturn tn c (empty_response, Some err)" err]
    by (auto simp: broken_frame cl_inv_def [of r])
next
  case (ClLoop tn c)
  then show ?thesis using assms inv_take_event [OF assms(1) ClLoop] by auto
next
  case (ClAnswer tn c t isError)
  then show ?thesis using assms
    by (auto simp: cl_inv_def [of r] cl_response_def cl_answered_def intro!: cl_inv_run [OF assms(1)])
next
  case (ClReturn tn c res)
  with inv_return [OF assms(1) this] show ?thesis using assms(2) by simp
qed (use assms in simp)

lemma inv_run_done: "cl_inv r \<Longrightarrow> cl_run_ctx_done (cl_run r) r = Some s \<Longrightarrow> cl_inv s"
  by (cases "cl_run r")
     (auto simp: Let_def broken_frame cl_inv_def [of r] split: if_splits intro!: cl_inv_run [OF cl_inv_broken])

lemma inv_begin:
  assumes "cl_inv r" "cl_Run_begin ctx req r = Some s"
  shows "cl_inv s"
proof -
  have "cl_reader_ok s"
    using assms failing_ok_run [of _ r s]
    by (auto simp: cl_Run_begin_def cl_inv_def cl_reader_ok_def Let_def split: if_splits claudeReader.splits)
  then show ?thesis using assms
    by (auto simp: cl_Run_begin_def cl_inv_def events_decisive_def Let_def split: if_splits)
qed

lemma read_endE:
  assumes "cl_read_end scanErr r = Some s"
  obtains e ev where "s = (cl_markBroken e r)\<lparr>cl_reader := ClFailing [ClDispatch ev]\<rparr>" "decisive ev" "cl_reader r = ClReading"
  using assms by (auto simp: cl_read_end_def decisive_def Let_def split: if_splits)

lemma cl_step_inv: "cl_step r s \<Longrightarrow> cl_inv r \<Longrightarrow> cl_inv s"
proof (induction rule: cl_step.induct)
  case (run_begin ctx req r r1)
  then show ?case using inv_begin by blast
next
  case (run werr d r r1)
  then show ?case using inv_run by blast
next
  case (run_done r r1)
  then show ?case using inv_run_done by blast
next
  case (line l r r1)
  have "cl_inv (r\<lparr>cl_reader := cl_handling (handleLine x)\<rparr>)" for x
    using line.prems handleLine_decisive by (simp add: cl_inv_def)
  then show ?case using line by (auto simp: cl_read_line_def Let_def split: if_splits)
next
  case (read_end scanErr r r1)
  then obtain e ev where "r1 = (cl_markBroken e r)\<lparr>cl_reader := ClFailing [ClDispatch ev]\<rparr>" "decisive ev" by (auto elim: read_endE)
  moreover have "cl_inv (cl_markBroken e r)" by (rule cl_inv_broken [OF read_end.prems])
  ultimately show ?case by (simp add: cl_inv_def cl_reader_ok_def broken_frame)
next
  case (reader r r1)
  then show ?case using inv_reader by blast
next
  case (stderr r p)
  then show ?case using quiet_inv [OF quiet_ops(1)] by simp
next
  case (ctx_done err r c)
  then show ?case using quiet_inv [OF quiet_ops(2)] by simp
next
  case (close r wait)
  let ?m = "cl_markBroken (errorf ''claude acp runtime is closed'') r"
  have "quiet_part (?m\<lparr>cl_closed := True, cl_stdin := False, cl_cmd := False\<rparr>) = quiet_part ?m" by (simp add: quiet_part_def)
  from quiet_inv [OF this] show ?case using close cl_inv_broken [OF close] by (simp add: cl_Close_def)
qed

definition cl_initial :: "claude \<Rightarrow> bool" where
  "cl_initial r \<longleftrightarrow> (\<exists>e1 e2 e3 sp. cl_launch e1 e2 e3 sp = Inr r)"

lemma cl_initial_inv: "cl_initial r \<Longrightarrow> cl_inv r"
proof -
  assume "cl_initial r"
  then obtain e1 e2 e3 sp where l: "cl_launch e1 e2 e3 sp = Inr r" by (auto simp: cl_initial_def)
  then show ?thesis
    by (cases "cl_command sp"; cases "start_error ''claude acp'' e1 e2 e3")
       (auto simp: cl_launch_def cl_inv_def events_decisive_def)
qed

interpretation claudes: transition_system cl_initial cl_step cl_inv
  by unfold_locales (auto intro: cl_initial_inv cl_step_inv)

section \<open>Turns\<close>

text \<open>
  The turn that gives result number \<open>n\<close>, when there were \<open>k\<close> channels before it: the one it opens is
  number \<open>k\<close>, and its answer is the one of this channel.
\<close>

fun chan_of :: "claudeRun \<Rightarrow> nat option" where
  "chan_of ClIdle = None"
| "chan_of (ClSend tn c) = Some c"
| "chan_of (ClSendFailed tn c err) = Some c"
| "chan_of (ClLoop tn c) = Some c"
| "chan_of (ClAnswer tn c t isError) = Some c"
| "chan_of (ClReturn tn c res) = Some c"

definition turn_of :: "nat \<Rightarrow> nat \<Rightarrow> claude \<Rightarrow> bool" where
  "turn_of n k r \<longleftrightarrow>
     n \<le> length (cl_results r)
     \<and> (length (cl_results r) = n \<longrightarrow> (case chan_of (cl_run r) of None \<Rightarrow> length (cl_chans r) = k | Some c \<Rightarrow> c = k))
     \<and> (n < length (cl_results r) \<longrightarrow> cl_answered k (cl_chans r) (cl_results r ! n))"

lemma cl_answered_grow: "cl_grow cs ds \<Longrightarrow> cl_answered c cs res \<Longrightarrow> cl_answered c ds res"
  by (auto simp: cl_answered_def intro: answers_first_grow)

lemma turn_of_grow:
  "turn_of n k r \<Longrightarrow> cl_grow (cl_chans r) (cl_chans s) \<Longrightarrow> length (cl_chans s) = length (cl_chans r) \<Longrightarrow>
   chan_of (cl_run s) = chan_of (cl_run r) \<Longrightarrow> cl_results s = cl_results r \<Longrightarrow> turn_of n k s"
  by (auto simp: turn_of_def intro: cl_answered_grow split: option.splits)

lemma turn_of_same:
  "turn_of n k r \<Longrightarrow> cl_chans s = cl_chans r \<Longrightarrow> chan_of (cl_run s) = chan_of (cl_run r) \<Longrightarrow> cl_results s = cl_results r \<Longrightarrow> turn_of n k s"
  by (rule turn_of_grow) simp_all

lemma turn_of_quiet: "turn_of n k r \<Longrightarrow> quiet_part s = quiet_part r \<Longrightarrow> turn_of n k s"
  by (rule turn_of_same) (simp_all add: quiet_part_def)

lemma turn_of_run:
  assumes "cl_inv r" "cl_run_step werr d (cl_run r) r = Some s" "turn_of n k r"
  shows "turn_of n k s"
proof (cases "cl_run r")
  case (ClLoop tn c)
  then obtain ev r1 where t: "cl_take c r = Some (ev, r1)" and s: "s = cl_event tn c ev r1" using assms(2) by auto
  have c: "chan_of (cl_run s) = Some c" by (auto simp: s cl_event_def Let_def split: option.splits)
  show ?thesis
    using assms(3) c inv_take_event(3,4) [OF assms(1) ClLoop t] answers_first_take
    by (auto simp: s ClLoop turn_of_def cl_answered_def)
next
  case (ClReturn tn c res)
  then have "cl_answered c (cl_chans r) res" using assms(1) by (simp add: cl_inv_def)
  then show ?thesis using assms(2,3) ClReturn
    by (auto simp: turn_of_def return_frame nth_append less_Suc_eq)
next
  case (ClSend tn c)
  then show ?thesis using assms(2,3)
    by (auto simp: cl_send_def split: if_split_asm option.split_asm intro: turn_of_same)
next
  case (ClSendFailed tn c err)
  then show ?thesis using assms(2,3) by (auto simp: broken_frame intro: turn_of_same)
next
  case (ClAnswer tn c t isError)
  then show ?thesis using assms(2,3) by (auto intro: turn_of_same)
qed (use assms(2) in simp)

lemma turn_of_begin: "cl_Run_begin ctx req r = Some s \<Longrightarrow> turn_of n k r \<Longrightarrow> turn_of n k s"
  using answers_first_grow [of "cl_chans r" "cl_chans r @ [x]" for x]
  by (auto simp: cl_Run_begin_def turn_of_def cl_answered_def cl_grow_def nth_append less_Suc_eq Let_def split: if_split_asm)

lemma turn_of_step: "cl_step r s \<Longrightarrow> cl_inv r \<Longrightarrow> turn_of n k r \<Longrightarrow> turn_of n k s"
proof (induction rule: cl_step.induct)
  case (run_begin ctx req r r1)
  then show ?case using turn_of_begin by blast
next
  case (run werr d r r1)
  then show ?case using turn_of_run by blast
next
  case (run_done r r1)
  then show ?case by (cases "cl_run r") (auto simp: Let_def broken_frame split: if_split_asm intro: turn_of_same)
next
  case (line l r r1)
  then show ?case by (auto simp: cl_read_line_def Let_def split: if_split_asm intro: turn_of_same)
next
  case (read_end scanErr r r1)
  from read_end.hyps show ?case by (rule read_endE) (use read_end.prems in \<open>auto simp: broken_frame intro: turn_of_same\<close>)
next
  case (reader r r1)
  then obtain op todo r2 rd where op: "cl_op op r = (todo, r2)" and r1: "r1 = r2\<lparr>cl_reader := rd\<rparr>"
    by (auto simp: cl_reader_next_def split: claudeReader.split_asm list.split_asm prod.split_asm)
  show ?case by (rule turn_of_grow [OF reader.prems(2)]) (use cl_op_frame [OF op] in \<open>simp_all add: r1\<close>)
next
  case (stderr r p)
  then show ?case using turn_of_quiet quiet_ops(1) by blast
next
  case (ctx_done err r c)
  then show ?case using turn_of_quiet quiet_ops(2) by blast
next
  case (close r wait)
  then show ?case by (auto simp: cl_Close_def broken_frame intro: turn_of_same)
qed

interpretation claude_turn: stable_property cl_step "\<lambda>r. cl_inv r \<and> turn_of n k r" for n k
  by unfold_locales (auto intro: turn_of_step cl_step_inv)

text \<open>
  C27. A turn of Claude is decided by the first event of its own channel, whatever the interleaving: when no
  turn runs, the first \<open>Run\<close> to return after this, if it gives an answer without error, gives the trimmed
  text of a result that is the first event of the channel it has opened itself, which did not exist
  before (number \<open>length (cl_chans s)\<close>), and that is no error.
\<close>

theorem claude_answers_first_result:
  assumes "cl_initial s0" "cl_step\<^sup>*\<^sup>* s0 s" "cl_run s = ClIdle" "cl_step\<^sup>*\<^sup>* s t" "cl_results t = cl_results s @ (resp, None) # rest"
  shows "length (cl_chans s) < length (cl_chans t) \<and>
    (\<exists>ev more. cc_sent (cl_chans t ! length (cl_chans s)) = ev # more \<and> ce_done ev \<and> \<not> ce_isError ev
       \<and> ce_err ev = None \<and> rs_Text resp = TrimSpace (ce_text ev))"
proof -
  have "turn_of (length (cl_results s)) (length (cl_chans s)) s" using assms(3) by (simp add: turn_of_def)
  with claude_turn.steps_stable [OF assms(4)] claudes.reachable_inv [OF assms(1, 2)]
  have "turn_of (length (cl_results s)) (length (cl_chans s)) t" by blast
  then have "cl_answered (length (cl_chans s)) (cl_chans t) (resp, None)" by (simp add: turn_of_def assms(5))
  then show ?thesis by (simp add: cl_answered_def answers_first_def)
qed

text \<open>
  C28. No turn of Claude waits for a reader that has ended: when the output of the process is over and a
  turn is in its loop, there is an event for it, and receiving it ends the loop.
\<close>

theorem claude_no_turn_hangs:
  assumes "cl_initial s0" "cl_step\<^sup>*\<^sup>* s0 s" "cl_reader s = ClEnded" "cl_run s = ClLoop tn c"
  shows "\<exists>t. cl_run_step werr d (cl_run s) s = Some t \<and> cl_step s t \<and> (\<forall>tn2 c2. cl_run t \<noteq> ClLoop tn2 c2)"
proof -
  have inv: "cl_inv s" by (rule claudes.reachable_inv [OF assms(1, 2)])
  then have "c < length (cl_chans s)" "cc_taken (cl_chans s ! c) = 0" "cc_sent (cl_chans s ! c) \<noteq> []"
    using assms(3,4) by (simp_all add: cl_inv_def cl_reader_ok_def)
  then obtain ev s1 where t: "cl_take c s = Some (ev, s1)"
    by (cases "cc_sent (cl_chans s ! c)") (auto simp: cl_take_def cl_queued_def)
  then have "cl_run_step werr d (cl_run s) s = Some (cl_event tn c ev s1)" using assms(4) by simp
  with inv_take_event [OF inv assms(4) t] show ?thesis using cl_step.run by blast
qed

section \<open>Errors\<close>

definition failed_with :: "goerr \<Rightarrow> claude \<Rightarrow> bool" where
  "failed_with e r \<longleftrightarrow> cl_state r = ClBroken \<and> cl_readErr r = Some e"

lemma failed_quiet: "quiet_part s = quiet_part r \<Longrightarrow> failed_with e s = failed_with e r"
  by (simp add: quiet_part_def failed_with_def)

lemma failed_broken: "failed_with e r \<Longrightarrow> failed_with e (cl_markBroken x r)"
  by (simp add: failed_with_def cl_markBroken_def)

lemma failed_fields [simp]: "failed_with e (r\<lparr>cl_run := pc\<rparr>) = failed_with e r"
  by (simp add: failed_with_def)

lemma failed_event: "failed_with e r \<Longrightarrow> failed_with e (cl_event tn c ev r)"
  by (simp add: cl_event_def failed_broken Let_def split: option.split) (simp add: failed_with_def cl_set_ready_def)

lemma failed_run: "cl_run_step werr d pc r = Some s \<Longrightarrow> failed_with e r \<Longrightarrow> failed_with e s"
proof (cases pc)
  case (ClLoop tn c)
  have "cl_take c r = Some (ev, r1) \<Longrightarrow> failed_with e r \<Longrightarrow> failed_with e r1" for ev r1
    by (auto simp: cl_take_def failed_with_def split: if_splits list.split_asm)
  then show "cl_run_step werr d pc r = Some s \<Longrightarrow> failed_with e r \<Longrightarrow> ?thesis" using ClLoop failed_event by auto
next
  case (ClSend tn c)
  show "cl_run_step werr d pc r = Some s \<Longrightarrow> failed_with e r \<Longrightarrow> ?thesis"
    by (auto simp: ClSend cl_send_def failed_with_def split: option.splits)
next
  case (ClReturn tn c res)
  show "cl_run_step werr d pc r = Some s \<Longrightarrow> failed_with e r \<Longrightarrow> ?thesis"
    by (auto simp: ClReturn cl_return_def cl_close_turn_def cl_end_ctx_def failed_with_def Let_def)
qed (auto simp: failed_broken)

lemma failed_step: "cl_step r s \<Longrightarrow> failed_with e r \<Longrightarrow> failed_with e s"
proof (induction rule: cl_step.induct)
  case (run_begin ctx req r r1)
  then show ?case by (auto simp: failed_with_def cl_Run_begin_def Let_def split: if_splits)
next
  case (run werr d r r1)
  then show ?case by (rule failed_run)
next
  case (run_done r r1)
  then show ?case by (cases "cl_run r") (auto simp: failed_with_def cl_markBroken_def Let_def split: if_splits)
next
  case (reader r r1)
  then obtain op todo r2 rd where op: "cl_op op r = (todo, r2)" and r1: "r1 = r2\<lparr>cl_reader := rd\<rparr>"
    by (auto simp: cl_reader_next_def split: claudeReader.split_asm list.split_asm prod.split_asm)
  show ?case using reader.prems cl_op_frame(4,5) [OF op] by (simp add: failed_with_def r1)
qed (auto simp: failed_with_def cl_read_line_def cl_read_end_def cl_markBroken_def cl_stderr_Write_def cl_end_ctx_def cl_Close_def
      Let_def split: if_splits)

interpretation claude_failed: stable_property cl_step "failed_with e" for e
  by unfold_locales (rule failed_step)

text \<open>
  The first error that breaks a Claude runtime is the one it keeps: every later \<open>Run\<close> with a prompt
  reports this error at once, whatever happens in between, closing included, and writes nothing.
\<close>

theorem claude_first_error_kept:
  assumes "cl_initial s0" "cl_step\<^sup>*\<^sup>* s0 r" "cl_state r = ClBroken" "cl_step\<^sup>*\<^sup>* r s"
    and "TrimSpace (rq_Prompt req) \<noteq> []" "cl_Run_begin ctx req s = Some t"
  shows "\<exists>e. cl_readErr r = Some e \<and> cl_results t = cl_results s @ [(empty_response, Some e)] \<and> cl_out t = cl_out s \<and> cl_run t = ClIdle"
proof -
  obtain e where "failed_with e r"
    using claudes.reachable_inv [OF assms(1, 2)] assms(3) by (auto simp: cl_inv_def failed_with_def)
  with claude_failed.steps_stable [OF assms(4)] have "failed_with e s" by blast
  with \<open>failed_with e r\<close> assms(5,6) show ?thesis
    by (auto simp: failed_with_def cl_Run_begin_def Let_def split: if_splits)
qed

section \<open>Runs of the model\<close>

definition cl_spec0 :: spec where "cl_spec0 = empty_spec\<lparr>sp_Command := ''claude''\<rparr>"

definition cl_start :: claude where "cl_start = projr (cl_launch None None None cl_spec0)"

definition result_line :: json where "result_line = JObj [(''type'', JStr ''result''), (''result'', JStr ''hello'')]"

definition hi_request :: request where "hi_request = empty_request\<lparr>rq_Prompt := ''hi''\<rparr>"

definition cl_do_run :: "claude \<Rightarrow> claude option" where
  "cl_do_run r = cl_run_step None 0 (cl_run r) r"

definition cl_turn_run :: "json \<Rightarrow> (claude \<Rightarrow> claude option) list" where
  "cl_turn_run v = [cl_Run_begin Background hi_request, cl_do_run, cl_read_line (json_text v), cl_reader_next, cl_reader_next,
     cl_do_run, cl_do_run, cl_do_run]"

text \<open>A second turn has an answer of its own.\<close>

definition again_line :: json where "again_line = JObj [(''type'', JStr ''result''), (''result'', JStr ''again'')]"

definition cl_orphaned :: "(claude \<Rightarrow> claude option) list" where
  "cl_orphaned = [cl_Run_begin Background hi_request, cl_do_run, cl_read_end None, cl_reader_next, cl_reader_next]"

definition cl_ended :: "(claude \<Rightarrow> claude option) list" where "cl_ended = [cl_read_end None]"

lemma cl_runs:
  "run_all (cl_turn_run v) r = Some s \<Longrightarrow> cl_step\<^sup>*\<^sup>* r s" "run_all cl_orphaned r = Some s \<Longrightarrow> cl_step\<^sup>*\<^sup>* r s"
  "run_all cl_ended r = Some s \<Longrightarrow> cl_step\<^sup>*\<^sup>* r s"
  by (rule run_all_steps [rotated], assumption,
      simp add: cl_turn_run_def cl_orphaned_def cl_ended_def, auto simp: cl_do_run_def intro: cl_step.intros)+

lemma cl_trim: "TrimSpace ''hi'' = ''hi''" "TrimSpace ''claude'' = ''claude''" "TrimSpace ''hello'' = ''hello''" "TrimSpace [] = []"
  "TrimSpace ''again'' = ''again''" "TrimSpace (json_text again_line) = json_text again_line" "json_text again_line \<noteq> []"
  "TrimSpace (json_text result_line) = json_text result_line" "json_text result_line \<noteq> []"
  by (simp_all add: TrimSpace_plain plain_char_def result_line_def again_line_def TrimSpace_object del: json_text.simps) simp_all

lemma result_line_decoded:
  "unmarshal_value claudeStreamEvent_fields (json_parse (json_text result_line)) =
     Some \<lparr>cs_Type = ''result'', cs_Subtype = [], cs_IsError = False, cs_Result = ''hello'', cs_SessionID = [], cs_Message = None\<rparr>"
  "unmarshal_value claudeStreamEvent_fields (json_parse (json_text again_line)) =
     Some \<lparr>cs_Type = ''result'', cs_Subtype = [], cs_IsError = False, cs_Result = ''again'', cs_SessionID = [], cs_Message = None\<rparr>"
proof -
  have "texty result_line" "clean_json result_line = result_line" "texty again_line" "clean_json again_line = again_line"
    by (simp_all add: result_line_def again_line_def clean_utf8_ascii)
  then show "unmarshal_value claudeStreamEvent_fields (json_parse (json_text result_line)) =
     Some \<lparr>cs_Type = ''result'', cs_Subtype = [], cs_IsError = False, cs_Result = ''hello'', cs_SessionID = [], cs_Message = None\<rparr>"
    "unmarshal_value claudeStreamEvent_fields (json_parse (json_text again_line)) =
     Some \<lparr>cs_Type = ''result'', cs_Subtype = [], cs_IsError = False, cs_Result = ''again'', cs_SessionID = [], cs_Message = None\<rparr>"
    by (simp_all add: json_round_trip del: json_text.simps)
       (simp_all add: result_line_def again_line_def unmarshal_value_def claudeStreamEvent_fields_def getters same_name_ascii lower_char_def)
qed

lemma cl_start_state: "cl_launch None None None cl_spec0 = Inr cl_start"
proof -
  obtain cmd where "cl_command cl_spec0 = Inr cmd" by (simp add: cl_command_def cl_spec0_def cl_trim)
  then show ?thesis by (simp add: cl_start_def cl_launch_def)
qed

lemma cl_start_initial: "cl_initial cl_start"
  unfolding cl_initial_def using cl_start_state by blast

lemma cl_start_fields: "cl_start =
   \<lparr>cl_spec = cl_spec0, cl_cmd = True, cl_stdin = True, cl_stderr = [], cl_state = ClReady, cl_readErr = None,
    cl_closed = False, cl_sessionID = [], cl_activeCh = None, cl_activeProgress = None, cl_chans = [],
    cl_ctxs = [None], cl_out = [], cl_progress = [], cl_reader = ClReading, cl_run = ClIdle, cl_results = []\<rparr>"
  using cl_start_state by (auto simp: cl_launch_def split: sum.split_asm)

lemmas cl_eval = cl_start_fields cl_turn_run_def cl_orphaned_def cl_do_run_def cl_Run_begin_def hi_request_def empty_request_def cl_spec0_def
  empty_spec_def Background_def cl_send_def cl_read_line_def handleLine_def result_line_decoded cl_handling_def cl_failing_def cl_offer_def
  cl_queued_def turnBuffer_def cl_take_def cl_event_def cl_set_ready_def cl_response_def cl_return_def cl_close_turn_def cl_end_ctx_def
  cl_read_end_def cl_reader_next_def cl_markBroken_def cl_trim Let_def

lemma cl_sample_answer:
  "(case run_all (cl_turn_run result_line) cl_start of None \<Rightarrow> None
    | Some s \<Rightarrow> map_option (\<lambda>t. (cl_run s, length (cl_chans s), map (\<lambda>(resp, e). (rs_Text resp, e)) (cl_results s),
        cl_results t = cl_results s @ [((text_response ''again'')\<lparr>rs_RuntimeType := ''claude'', rs_RawOutput := ''again''\<rparr>, None)]))
        (run_all (cl_turn_run again_line) s)) =
     Some (ClIdle, 1, [(''hello'', None)], True)"
  by (simp add: cl_eval text_response_def empty_response_def del: json_text.simps)

lemma cl_sample_orphan:
  "map_option (\<lambda>s. (cl_reader s, cl_run s)) (run_all cl_orphaned cl_start) =
     Some (ClEnded, ClLoop \<lparr>ct_ctx = 1, ct_derived = False, ct_prompt = ''hi''\<rparr> 0)"
  by (simp add: cl_eval del: json_text.simps)

lemma claude_answers_first_result_witness:
  "\<exists>s t resp rest. cl_step\<^sup>*\<^sup>* cl_start s \<and> map (\<lambda>(resp, e). (rs_Text resp, e)) (cl_results s) = [(''hello'', None)]
     \<and> cl_step\<^sup>*\<^sup>* s t \<and> cl_results t = cl_results s @ (resp, None) # rest \<and> rs_Text resp = ''again''
     \<and> (\<exists>ev more. cc_sent (cl_chans t ! 1) = ev # more \<and> TrimSpace (ce_text ev) = ''again'')"
proof -
  from cl_sample_answer obtain s t where st: "run_all (cl_turn_run result_line) cl_start = Some s" "run_all (cl_turn_run again_line) s = Some t"
    "cl_run s = ClIdle" "length (cl_chans s) = 1" "map (\<lambda>(resp, e). (rs_Text resp, e)) (cl_results s) = [(''hello'', None)]"
    and r: "cl_results t = cl_results s @ [((text_response ''again'')\<lparr>rs_RuntimeType := ''claude'', rs_RawOutput := ''again''\<rparr>, None)]"
    by (auto split: option.split_asm)
  note steps = cl_runs(1) [OF st(1)] cl_runs(1) [OF st(2)]
  have "\<exists>ev more. cc_sent (cl_chans t ! 1) = ev # more \<and> TrimSpace (ce_text ev) = ''again''"
    using claude_answers_first_result [OF cl_start_initial steps(1) st(3) steps(2) r] by (auto simp: st(4) text_response_def)
  with steps st(5) r show ?thesis
    by (intro exI [of _ s] exI [of _ t] exI [of _ "(text_response ''again'')\<lparr>rs_RuntimeType := ''claude'', rs_RawOutput := ''again''\<rparr>"]
        exI [of _ "[]"]) (simp add: text_response_def)
qed

lemma claude_no_turn_hangs_witness:
  "\<exists>s t. cl_step\<^sup>*\<^sup>* cl_start s \<and> cl_reader s = ClEnded \<and> cl_step s t"
proof -
  obtain s tn c where s: "run_all cl_orphaned cl_start = Some s" "cl_reader s = ClEnded" "cl_run s = ClLoop tn c"
    using cl_sample_orphan by auto
  from claude_no_turn_hangs [OF cl_start_initial cl_runs(2) [OF s(1)] s(2,3)] cl_runs(2) [OF s(1)] s(2) show ?thesis by blast
qed

lemma claude_first_error_kept_witness:
  "\<exists>r e t. cl_step\<^sup>*\<^sup>* cl_start r \<and> cl_Run_begin Background hi_request r = Some t \<and> cl_results t = cl_results r @ [(empty_response, Some e)]"
proof -
  obtain r t where r: "run_all cl_ended cl_start = Some r" "cl_state r = ClBroken" "cl_Run_begin Background hi_request r = Some t"
    by (simp add: cl_eval cl_ended_def)
  have "TrimSpace (rq_Prompt hi_request) \<noteq> []" by (simp add: hi_request_def cl_trim)
  from claude_first_error_kept [OF cl_start_initial cl_runs(3) [OF r(1)] r(2) rtranclp.rtrancl_refl this r(3)] cl_runs(3) [OF r(1)] r(3)
  show ?thesis by blast
qed

end
