(* ===== verification/CodexExec.thy ===== *)
theory CodexExec
  imports AcpCore
begin

text \<open>
  The codex driver that starts one process per turn, \<open>internal/agent/codex/driver_exec.go\<close>, and what
  its answers are in terms of the output of the process, which is a parameter: \<open>proc\<close> tells what a
  command comes to under the timeout that was derived for it, if any.
\<close>

section \<open>Lines of the output\<close>

text \<open>
  \<open>bufio.Scanner\<close> with a bound: the lines it yields, and whether it stops at one that is too long.
  (It also drops a carriage return at the end of a line; every line is trimmed anyway.)
\<close>

definition maxExecLine :: nat where "maxExecLine = 1024 * 1024"

definition newline_lines :: "string \<Rightarrow> string list" where
  "newline_lines raw = (let ls = split_on newline raw in if last ls = [] then butlast ls else ls)"

definition scan_lines :: "string \<Rightarrow> string list \<times> bool" where
  "scan_lines raw =
     (let ls = newline_lines raw
      in (takeWhile (\<lambda>l. length l < maxExecLine) ls, \<not> list_all (\<lambda>l. length l < maxExecLine) ls))"

section \<open>Events\<close>

record execStreamEvent =
  ev_Type :: string
  ev_Item :: "string option"
  ev_Message :: string
  ev_Error :: "string option"

text \<open>An item is its text, an error its message.\<close>

definition inner_text :: "string \<Rightarrow> members option \<Rightarrow> string option \<times> bool" where
  "inner_text k p = (case p of None \<Rightarrow> (None, False) | Some ms \<Rightarrow> (case get_str k ms of (t, e) \<Rightarrow> (Some t, e)))"

definition execStreamEvent_fields :: "members \<Rightarrow> execStreamEvent \<times> bool" where
  "execStreamEvent_fields ms =
     (let (t, e1) = get_str ''type'' ms; (ip, e2) = get_ptr ''item'' ms; (it, e3) = inner_text ''text'' ip;
          (msg, e4) = get_str ''message'' ms; (ep, e5) = get_ptr ''error'' ms; (er, e6) = inner_text ''message'' ep
      in (\<lparr>ev_Type = t, ev_Item = it, ev_Message = msg, ev_Error = er\<rparr>, e1 \<or> e2 \<or> e3 \<or> e4 \<or> e5 \<or> e6))"

definition decode_event :: "string \<Rightarrow> execStreamEvent option" where
  "decode_event line = unmarshal_value execStreamEvent_fields (json_parse line)"

fun first_failure :: "string list \<Rightarrow> string option" where
  "first_failure [] = None"
| "first_failure (l # ls) =
     (let line = TrimSpace l in
      if line = [] then first_failure ls
      else case decode_event line of
             None \<Rightarrow> first_failure ls
           | Some ev \<Rightarrow>
               (case ev_Error ev of
                  Some m \<Rightarrow> if ev_Type ev = ''turn.failed'' \<and> TrimSpace m \<noteq> [] then Some (TrimSpace m) else first_failure ls
                | None \<Rightarrow> first_failure ls))"

definition extractExecFailureMessage :: "string \<Rightarrow> string \<Rightarrow> string" where
  "extractExecFailureMessage raw stderr =
     (case first_failure (fst (scan_lines raw)) of
        Some m \<Rightarrow> m
      | None \<Rightarrow> or_text (TrimSpace stderr) (TrimSpace raw))"

text \<open>The loop of \<open>lastCompletedItemText\<close>, with the text found so far; \<open>None\<close> for an event it cannot decode.\<close>

fun last_item :: "string list \<Rightarrow> string \<Rightarrow> string option" where
  "last_item [] found = Some found"
| "last_item (l # ls) found =
     (let line = TrimSpace l in
      if line = [] then last_item ls found
      else case decode_event line of
             None \<Rightarrow> None
           | Some ev \<Rightarrow>
               (case ev_Item ev of
                  Some t \<Rightarrow> last_item ls (if ev_Type ev = ''item.completed'' then or_text (TrimSpace t) found else found)
                | None \<Rightarrow> last_item ls found))"

text \<open>The text of a decoding error is left out after its prefix.\<close>

definition lastCompletedItemText :: "string \<Rightarrow> goerr + string" where
  "lastCompletedItemText raw =
     (case last_item (fst (scan_lines raw)) [] of
        None \<Rightarrow> Inl (errorf ''decode codex exec output: '')
      | Some found \<Rightarrow>
          if snd (scan_lines raw) then Inl (errorf ''read codex exec output: bufio.Scanner: token too long'')
          else if found = [] then Inl (errorf ''codex exec output missing completed item text'')
          else Inr found)"

section \<open>The runtime\<close>

text \<open>
  What a process comes to: its output, its error with the exit code it carries if any, the error of
  the context at that moment, and the time it took.
\<close>

record procOutcome =
  po_stdout :: string
  po_stderr :: string
  po_err :: "(goerr \<times> int option) option"
  po_ctx :: "goerr option"
  po_duration :: int

definition exec_Init :: "spec \<Rightarrow> goerr + spec" where
  "exec_Init sp = (if TrimSpace (sp_Command sp) = [] then Inl (errorf ''codex exec driver requires command'') else Inr sp)"

definition exec_args :: "spec \<Rightarrow> string \<Rightarrow> string list" where
  "exec_args sp prompt = spec_args sp @ [''exec'', ''--json'', ''--skip-git-repo-check'', ''resume'', ''--last'', prompt]"

text \<open>The directory of the spec is not trimmed.\<close>

definition exec_command :: "spec \<Rightarrow> request \<Rightarrow> execCmd" where
  "exec_command sp req =
     \<lparr>xc_Path = sp_Command sp, xc_Args = exec_args sp (TrimSpace (rq_Prompt req)),
      xc_Dir = (case nonblank (rq_WorkDir req) of
                  Some d \<Rightarrow> Some d
                | None \<Rightarrow> if TrimSpace (sp_WorkDir sp) \<noteq> [] then Some (sp_WorkDir sp) else None),
      xc_Env = (if FlattenEnv (spec_env sp) = [] then None else Some (FlattenEnv (spec_env sp)))\<rparr>"

definition exec_timeout :: "spec \<Rightarrow> goctx \<Rightarrow> int option" where
  "exec_timeout sp ctx = (if cx_deadline ctx = None \<and> sp_Timeout sp > 0 then Some (sp_Timeout sp) else None)"

definition exec_context_error :: "goerr \<Rightarrow> goerr" where
  "exec_context_error e =
     (if errors_Is e DeadlineExceeded then wrapf ''codex exec timed out: '' e []
      else if errors_Is e Canceled then wrapf ''codex exec canceled: '' e []
      else e)"

definition exec_response :: "string \<Rightarrow> int \<Rightarrow> procOutcome \<Rightarrow> response" where
  "exec_response t code out =
     \<lparr>rs_Text = t, rs_RuntimeType = ''codex'', rs_ExitCode = code, rs_Duration = po_duration out,
      rs_RawOutput = po_stdout out, rs_SessionID = []\<rparr>"

definition exec_outcome :: "procOutcome \<Rightarrow> response \<times> goerr option" where
  "exec_outcome out =
     (case po_err out of
        Some (err, code) \<Rightarrow>
          (case po_ctx out of
             Some e \<Rightarrow> (empty_response, Some (exec_context_error e))
           | None \<Rightarrow>
               (let message = or_text (extractExecFailureMessage (po_stdout out) (TrimSpace (po_stderr out))) (err_msg err)
                in (exec_response message (case code of None \<Rightarrow> 0 | Some c \<Rightarrow> c) out,
                    Some (errorf (''codex exec failed: '' @ message)))))
      | None \<Rightarrow>
          (case lastCompletedItemText (po_stdout out) of
             Inl err \<Rightarrow> (exec_response [] 0 out, Some err)
           | Inr t \<Rightarrow> (exec_response t 0 out, None)))"

definition exec_Run :: "(int option \<Rightarrow> execCmd \<Rightarrow> procOutcome) \<Rightarrow> spec \<Rightarrow> goctx \<Rightarrow> request \<Rightarrow> response \<times> goerr option" where
  "exec_Run proc sp ctx req =
     (if TrimSpace (rq_Prompt req) = [] then (empty_response, Some (errorf ''codex exec request prompt is required''))
      else exec_outcome (proc (exec_timeout sp ctx) (exec_command sp req)))"

section \<open>Answers\<close>

text \<open>The nonblank texts of the completed items, in order.\<close>

definition completed_text :: "execStreamEvent \<Rightarrow> string option" where
  "completed_text ev =
     (case ev_Item ev of
        Some t \<Rightarrow> if ev_Type ev = ''item.completed'' \<and> TrimSpace t \<noteq> [] then Some (TrimSpace t) else None
      | None \<Rightarrow> None)"

definition nonblank_lines :: "string list \<Rightarrow> string list" where
  "nonblank_lines ls = filter (\<lambda>l. l \<noteq> []) (map TrimSpace ls)"

lemma last_item_spec:
  "last_item ls found =
     (if list_all (\<lambda>l. decode_event l \<noteq> None) (nonblank_lines ls)
      then Some (last (found # List.map_filter completed_text (List.map_filter decode_event (nonblank_lines ls))))
      else None)"
  by (induction ls arbitrary: found)
     (auto simp: nonblank_lines_def completed_text_def or_text_def List.map_filter_simps Let_def split: option.splits)

lemma map_filter_nonempty: "t \<in> set (List.map_filter completed_text evs) \<Longrightarrow> t \<noteq> []"
  by (auto simp: List.map_filter_def completed_text_def split: option.splits if_splits)

text \<open>
  C26. The answer of a codex process that ends well is decided by its output alone: every nonblank line
  has to be an event, none may have more than a megabyte, and the answer is the trimmed text of the
  last completed item that has any; otherwise the turn has an error and no text.
\<close>

theorem exec_answers_last_item:
  "exec_Run proc sp ctx req =
     (let out = proc (exec_timeout sp ctx) (exec_command sp req);
          ls = nonblank_lines (fst (scan_lines (po_stdout out)));
          texts = List.map_filter completed_text (List.map_filter decode_event ls)
      in if TrimSpace (rq_Prompt req) = [] then (empty_response, Some (errorf ''codex exec request prompt is required''))
         else if po_err out \<noteq> None then exec_outcome out
         else if \<not> list_all (\<lambda>l. decode_event l \<noteq> None) ls
         then (exec_response [] 0 out, Some (errorf ''decode codex exec output: ''))
         else if snd (scan_lines (po_stdout out))
         then (exec_response [] 0 out, Some (errorf ''read codex exec output: bufio.Scanner: token too long''))
         else if texts = [] then (exec_response [] 0 out, Some (errorf ''codex exec output missing completed item text''))
         else (exec_response (last texts) 0 out, None))"
proof -
  have "texts \<noteq> [] \<Longrightarrow> last texts \<noteq> []" if "texts = List.map_filter completed_text evs" for texts evs
    unfolding that by (rule map_filter_nonempty, rule last_in_set)
  then show ?thesis
    by (auto simp: exec_Run_def exec_outcome_def lastCompletedItemText_def last_item_spec Let_def split: option.splits)
qed

end
