(* ===== verification/CodexAcp.thy ===== *)
theory CodexAcp
  imports AcpCore
begin

text \<open>
  The codex driver of \<open>internal/agent/codex/driver_acp.go\<close>: threads and their resumption, the handlers
  of the messages of \<open>codex app-server\<close>, and the goroutines: the caller in \<open>Run\<close> (one at a time, for
  \<open>runMu\<close>), one \<open>turn/start\<close> call per turn, the calls, the reader, and \<open>Close\<close>.  What the code has
  in common with the opencode driver is an instance of \<open>AcpCore\<close>; a thread is a session there.
\<close>

section \<open>State\<close>

text \<open>The goroutine that asks for a turn, and the context, channel and parameters it has.\<close>

record startJob =
  st_ctx :: nat
  st_ch :: nat
  st_threadID :: string
  st_workDir :: string
  st_prompt :: string

datatype startState =
    StartCall startJob
  | StartWait startJob int
  | StartEnd

datatype cxRun =
    CxIdle
  | CxEnsure turn
  | CxResume turn string
  | CxResumeWait turn int
  | CxNew turn
  | CxNewWait turn int
  | CxStore turn string
  | CxInstall turn string
  | CxLoop turn nat "string list"
  | CxAnswer turn nat string
  | CxReturn turn nat "response \<times> goerr option"

record codex = acpRuntime +
  cx_init :: initState
  cx_run :: cxRun
  cx_starts :: "startState list"
  cx_results :: "(response \<times> goerr option) list"

definition cx_name :: string where "cx_name = ''codex acp''"
definition runtimeTypeCodex :: string where "runtimeTypeCodex = ''codex''"

section \<open>The operations shared with the other driver\<close>

definition cx_markBroken :: "goerr \<Rightarrow> codex \<Rightarrow> codex" where
  "cx_markBroken = markBroken"

definition cx_rpc_begin :: "nat \<Rightarrow> string \<Rightarrow> json option \<Rightarrow> codex \<Rightarrow> (goerr + int) \<times> codex" where
  "cx_rpc_begin = rpc_begin cx_name"

definition cx_rpc_write :: "goerr option \<Rightarrow> int \<Rightarrow> codex \<Rightarrow> codex option" where
  "cx_rpc_write = rpc_write cx_name"

definition cx_rpc_ctx_done :: "int \<Rightarrow> codex \<Rightarrow> codex option" where
  "cx_rpc_ctx_done = rpc_ctx_done"

definition cx_rpc_reply :: "int \<Rightarrow> codex \<Rightarrow> codex option" where
  "cx_rpc_reply = rpc_reply"

definition cx_rpc_leave :: "int \<Rightarrow> codex \<Rightarrow> codex option" where
  "cx_rpc_leave = rpc_leave"

definition cx_notify :: "goerr option \<Rightarrow> string \<Rightarrow> json option \<Rightarrow> codex \<Rightarrow> goerr option \<times> codex" where
  "cx_notify = acp_notify cx_name"

definition cx_Close :: "(goerr \<times> bool) option \<Rightarrow> codex \<Rightarrow> goerr option \<times> codex" where
  "cx_Close = acp_Close cx_name"

definition cx_stderr_Write :: "string \<Rightarrow> codex \<Rightarrow> codex" where
  "cx_stderr_Write = stderr_Write"

definition cx_read_end :: "goerr option \<Rightarrow> codex \<Rightarrow> codex option" where
  "cx_read_end = read_end cx_name"

definition cx_reader_next :: "codex \<Rightarrow> codex option" where
  "cx_reader_next = reader_next"

definition cx_dispatchTurnEvent :: "string \<Rightarrow> turnEvent \<Rightarrow> codex \<Rightarrow> codex" where
  "cx_dispatchTurnEvent = acp_dispatch"

definition cx_dispatchProgress :: "progressEvent \<Rightarrow> codex \<Rightarrow> codex" where
  "cx_dispatchProgress = dispatchProgress"

definition cx_classifyACPContextError :: "goerr \<Rightarrow> goerr" where
  "cx_classifyACPContextError = acp_classifyContextError cx_name"

section \<open>The start of the process\<close>

definition cx_buildACPArgs :: "string \<Rightarrow> string list \<Rightarrow> bool \<Rightarrow> string list" where
  "cx_buildACPArgs = with_subcommand ''codex'' ''app-server''"

definition cx_command :: "spec \<Rightarrow> goerr + execCmd" where
  "cx_command = acp_command cx_name cx_buildACPArgs"

text \<open>\<open>Init\<close> up to its first call, and the rest of it.\<close>

definition cx_launch :: "goerr option \<Rightarrow> goerr option \<Rightarrow> goerr option \<Rightarrow> spec \<Rightarrow> goerr + codex" where
  "cx_launch pipeErr1 pipeErr2 startErr sp =
     (case cx_command sp of
        Inl err \<Rightarrow> Inl err
      | Inr cmd \<Rightarrow>
          (case start_error cx_name pipeErr1 pipeErr2 startErr of
             Some err \<Rightarrow> Inl err
           | None \<Rightarrow>
               (let r = started_runtime sp \<lparr>cx_init = InitCall 1, cx_run = CxIdle, cx_starts = [], cx_results = []\<rparr>
                in Inr (snd (cx_rpc_begin 0 ''initialize'' (Some (initialize_params [])) r)))))"

definition cx_init_next :: "goerr option \<Rightarrow> (goerr \<times> bool) option \<Rightarrow> initState \<times> codex \<Rightarrow> (initState \<times> codex) option" where
  "cx_init_next = init_next cx_name"

section \<open>Threads\<close>

definition ensureThread :: "turn \<Rightarrow> codex \<Rightarrow> cxRun" where
  "ensureThread tn r =
     (let resumeID = TrimSpace (sp_ResumeSessionID (ar_spec r)) in
      if ar_sessionID r \<noteq> [] \<and> ar_sessionWorkDir r = tn_workDir tn then CxInstall tn (ar_sessionID r)
      else if ar_sessionID r = [] \<and> resumeID \<noteq> [] then CxResume tn resumeID
      else CxNew tn)"

definition resume_params :: "string \<Rightarrow> json" where
  "resume_params resumeID = JObj [(''threadId'', JStr resumeID)]"

definition thread_params :: "string \<Rightarrow> json" where
  "thread_params workDir =
     JObj [(''approvalPolicy'', JStr ''never''), (''cwd'', JStr workDir), (''sandbox'', JStr ''danger-full-access'')]"

definition thread_fields :: "members \<Rightarrow> string \<times> bool" where
  "thread_fields ms = (let (t, e1) = get_struct ''thread'' ms; (i, e2) = get_str ''id'' t in (i, e1 \<or> e2))"

text \<open>The text of a decoding error is left out after its prefix.\<close>

definition decodeThreadID :: "json option \<Rightarrow> string \<Rightarrow> goerr + string" where
  "decodeThreadID result method =
     (case unmarshal_value thread_fields result of
        None \<Rightarrow> Inl (errorf (''decode codex acp '' @ method @ '' result: ''))
      | Some i \<Rightarrow> if i = [] then Inl (errorf (''codex acp '' @ method @ '' returned empty thread id'')) else Inr i)"

text \<open>The thread \<open>tryResumeThread\<close> goes on with, given the result of its call.\<close>

definition resumed_thread :: "goerr + json option \<Rightarrow> string option" where
  "resumed_thread res =
     (case res of
        Inl _ \<Rightarrow> None
      | Inr result \<Rightarrow>
          (case decodeThreadID result ''thread/resume'' of
             Inl _ \<Rightarrow> None
           | Inr i \<Rightarrow> if i = [] then None else Some i))"

definition started_thread :: "goerr + json option \<Rightarrow> goerr + string" where
  "started_thread res = (case res of Inl err \<Rightarrow> Inl err | Inr result \<Rightarrow> decodeThreadID result ''thread/start'')"

definition store_thread :: "string \<Rightarrow> string \<Rightarrow> codex \<Rightarrow> codex" where
  "store_thread i workDir r = r\<lparr>ar_sessionID := i, ar_sessionWorkDir := workDir\<rparr>"

section \<open>Messages of the process\<close>

definition handleApprovalRequest :: "string \<Rightarrow> readerOp list" where
  "handleApprovalRequest = answer_permission [''allow'']"

definition itemDelta_fields :: "members \<Rightarrow> (string \<times> string) \<times> bool" where
  "itemDelta_fields ms = (let (t, e1) = get_str ''threadId'' ms; (d, e2) = get_str ''delta'' ms in ((t, d), e1 \<or> e2))"

definition handleItemDelta :: "json option \<Rightarrow> readerOp list" where
  "handleItemDelta params =
     (case unmarshal_value itemDelta_fields params of
        None \<Rightarrow> []
      | Some (t, d) \<Rightarrow> if d = [] then [] else [OpDispatch t (empty_event\<lparr>te_Delta := d\<rparr>)])"

definition itemStarted_fields :: "members \<Rightarrow> (string \<times> json option) \<times> bool" where
  "itemStarted_fields ms = (let (t, e1) = get_str ''threadId'' ms; (i, e2) = get_raw ''item'' ms in ((t, i), e1 \<or> e2))"

text \<open>The type and the contents of an item, each with its own type and text; errors are ignored.\<close>

definition item_head_fields :: "members \<Rightarrow> (string \<times> (string \<times> string) list) \<times> bool" where
  "item_head_fields ms =
     (let (t, e1) = get_str ''type'' ms; (cs, e2) = get_list ''content'' ms;
          (contents, e3) = decode_elems (\<lambda>m. let (ct, f1) = get_str ''type'' m; (x, f2) = get_str ''text'' m
                                              in ((ct, x), f1 \<or> f2)) cs
      in ((t, contents), e1 \<or> e2 \<or> e3))"

definition item_head :: "json option \<Rightarrow> string \<times> (string \<times> string) list" where
  "item_head raw = (case raw of None \<Rightarrow> ([], []) | Some v \<Rightarrow> fst (item_head_fields (fst (as_struct v))))"

definition codexToolFromItem :: "string \<Rightarrow> json option \<Rightarrow> (string \<times> string) option" where
  "codexToolFromItem itemType raw =
     (case raw of
        None \<Rightarrow> None
      | Some v \<Rightarrow>
          (case as_struct v of (m, e) \<Rightarrow>
             if e then None
             else if itemType \<in> {''commandExecution'', ''command_execution'', ''command''}
             then Some (''Bash'', TargetFromInput ''Bash'' m)
             else if itemType \<in> {''fileChange'', ''file_change'', ''patch''}
             then Some (''Edit'', TargetFromInput ''Edit''
                                    (case any_lookup m ''path'' of None \<Rightarrow> m | Some p \<Rightarrow> m @ [(''file_path'', p)]))
             else if itemType \<in> {''mcpToolCall'', ''mcp_tool_call'', ''toolCall''}
             then (let name = or_text (any_str m ''name'') ''Task'' in Some (name, TargetFromInput name m))
             else None))"

definition handleItemStarted :: "json option \<Rightarrow> readerOp list" where
  "handleItemStarted params =
     (case unmarshal_value itemStarted_fields params of
        None \<Rightarrow> []
      | Some (t, item) \<Rightarrow>
          (case item_head item of (ty, contents) \<Rightarrow>
             if ty = ''agentMessage''
             then [OpDispatch t (empty_event\<lparr>te_Text := x\<rparr>). (ct, x) \<leftarrow> contents, ct = ''text'' \<and> x \<noteq> []]
             else (case codexToolFromItem ty item of
                     Some (tool, target) \<Rightarrow> [OpProgress \<lparr>pe_Kind = ''tool'', pe_Tool = tool, pe_Target = target\<rparr>]
                   | None \<Rightarrow> [])))"

definition handleTurnCompleted :: "json option \<Rightarrow> readerOp list" where
  "handleTurnCompleted params =
     (case unmarshal_value (get_str ''threadId'') params of
        None \<Rightarrow> []
      | Some t \<Rightarrow> [OpDispatch t (empty_event\<lparr>te_Kind := ''completed''\<rparr>)])"

definition messageDelta_fields :: "members \<Rightarrow> (string \<times> string) \<times> bool" where
  "messageDelta_fields ms =
     (let (t, e1) = get_str ''threadId'' ms; (msg, e2) = get_struct ''msg'' ms; (d, e3) = get_str ''delta'' msg
      in ((t, d), e1 \<or> e2 \<or> e3))"

definition handleCodexAgentMessageDelta :: "json option \<Rightarrow> readerOp list" where
  "handleCodexAgentMessageDelta params =
     (case unmarshal_value messageDelta_fields params of
        None \<Rightarrow> []
      | Some (t, d) \<Rightarrow> if d = [] then [] else [OpDispatch t (empty_event\<lparr>te_Delta := d\<rparr>)])"

definition cx_handle :: "string \<Rightarrow> json option \<Rightarrow> string \<Rightarrow> readerOp list" where
  "cx_handle method params line =
     (if method = ''turn/approval/request'' then handleApprovalRequest line
      else if method = ''item/agentMessage/delta'' then handleItemDelta params
      else if method = ''item/started'' then handleItemStarted params
      else if method = ''turn/completed'' then handleTurnCompleted params
      else if method = ''codex/event/agent_message_delta'' then handleCodexAgentMessageDelta params
      else [])"

definition cx_read_line :: "string \<Rightarrow> codex \<Rightarrow> codex option" where
  "cx_read_line = read_line cx_handle"

text \<open>The handlers of codex keep no tool calls.\<close>

definition cx_handler_next :: "bool \<Rightarrow> codex \<Rightarrow> codex option" where
  "cx_handler_next = handler_next (\<lambda>i r. (False, r))"

section \<open>Turns\<close>

definition start_params :: "startJob \<Rightarrow> json" where
  "start_params j =
     JObj [(''approvalPolicy'', JStr ''never''), (''cwd'', JStr (st_workDir j)),
           (''input'', JArr [JObj [(''text'', JStr (st_prompt j)), (''type'', JStr ''text'')]]),
           (''sandboxPolicy'', JObj [(''type'', JStr ''dangerFullAccess'')]), (''threadId'', JStr (st_threadID j))]"

definition start_error_event :: "startJob \<Rightarrow> goerr \<Rightarrow> codex \<Rightarrow> codex" where
  "start_error_event j err = offer_event (st_ch j) (empty_event\<lparr>te_Kind := ''error'', te_Err := Some err\<rparr>)"

text \<open>A step of the goroutine that starts the turn; \<open>None\<close> while it waits.\<close>

fun start_step :: "startState \<Rightarrow> codex \<Rightarrow> (startState \<times> codex) option" where
  "start_step (StartCall j) r =
     (case cx_rpc_begin (st_ctx j) ''turn/start'' (Some (start_params j)) r of
        (Inl err, r1) \<Rightarrow> Some (StartEnd, start_error_event j err r1)
      | (Inr i, r1) \<Rightarrow> Some (StartWait j i, r1))"
| "start_step (StartWait j i) r =
     map_option (\<lambda>res. (StartEnd, case res of Inl err \<Rightarrow> start_error_event j err r | Inr _ \<Rightarrow> r)) (call_result i r)"
| "start_step StartEnd r = None"

definition cx_return :: "turn \<Rightarrow> response \<times> goerr option \<Rightarrow> codex \<Rightarrow> codex" where
  "cx_return tn res r =
     (cancel_derived (tn_derived tn) (tn_ctx tn) r)\<lparr>cx_run := CxIdle, cx_results := cx_results r @ [res]\<rparr>"

definition cx_Run_begin :: "goctx \<Rightarrow> request \<Rightarrow> codex \<Rightarrow> codex option" where
  "cx_Run_begin ctx req r =
     (if cx_run r \<noteq> CxIdle \<or> cx_init r \<noteq> InitDone then None
      else case turn_begin cx_name ctx req r of
             (Inl err, r1) \<Rightarrow> Some (r1\<lparr>cx_results := cx_results r1 @ [(empty_response, Some err)]\<rparr>)
           | (Inr tn, r1) \<Rightarrow> Some (r1\<lparr>cx_run := CxEnsure tn\<rparr>))"

definition thread_failed :: "turn \<Rightarrow> goerr \<Rightarrow> codex \<Rightarrow> codex" where
  "thread_failed tn err r = cx_return tn (empty_response, Some err) (cx_markBroken err r)"

definition cx_loop_next :: "turn \<Rightarrow> nat \<Rightarrow> turnNext \<Rightarrow> cxRun" where
  "cx_loop_next tn c next =
     (case next of
        NextLoop parts \<Rightarrow> CxLoop tn c parts
      | NextAnswer answer \<Rightarrow> CxAnswer tn c answer
      | NextReturn err \<Rightarrow> CxReturn tn c (empty_response, Some err))"

text \<open>A step of \<open>Run\<close>; \<open>None\<close> while it waits.\<close>

fun cx_run_step :: "cxRun \<Rightarrow> codex \<Rightarrow> codex option" where
  "cx_run_step CxIdle r = None"
| "cx_run_step (CxEnsure tn) r = Some (r\<lparr>cx_run := ensureThread tn r\<rparr>)"
| "cx_run_step (CxResume tn resumeID) r =
     (case cx_rpc_begin (tn_ctx tn) ''thread/resume'' (Some (resume_params resumeID)) r of
        (Inl _, r1) \<Rightarrow> Some (r1\<lparr>cx_run := CxNew tn\<rparr>)
      | (Inr i, r1) \<Rightarrow> Some (r1\<lparr>cx_run := CxResumeWait tn i\<rparr>))"
| "cx_run_step (CxResumeWait tn i) r =
     map_option (\<lambda>res. r\<lparr>cx_run := (case resumed_thread res of None \<Rightarrow> CxNew tn | Some t \<Rightarrow> CxStore tn t)\<rparr>) (call_result i r)"
| "cx_run_step (CxNew tn) r =
     (case cx_rpc_begin (tn_ctx tn) ''thread/start'' (Some (thread_params (tn_workDir tn))) r of
        (Inl err, r1) \<Rightarrow> Some (thread_failed tn err r1)
      | (Inr i, r1) \<Rightarrow> Some (r1\<lparr>cx_run := CxNewWait tn i\<rparr>))"
| "cx_run_step (CxNewWait tn i) r =
     map_option (\<lambda>res. case started_thread res of
         Inl err \<Rightarrow> thread_failed tn err r
       | Inr t \<Rightarrow> r\<lparr>cx_run := CxStore tn t\<rparr>) (call_result i r)"
| "cx_run_step (CxStore tn t) r = Some ((store_thread t (tn_workDir tn) r)\<lparr>cx_run := CxInstall tn t\<rparr>)"
| "cx_run_step (CxInstall tn t) r =
     (let c = length (ar_chans r); r1 = open_turn t (tn_progress tn) r in
      Some (r1\<lparr>cx_run := CxLoop tn c [],
               cx_starts := cx_starts r1 @ [StartCall \<lparr>st_ctx = tn_ctx tn, st_ch = c, st_threadID = t,
                                                       st_workDir = tn_workDir tn, st_prompt = tn_prompt tn\<rparr>]\<rparr>))"
| "cx_run_step (CxLoop tn c parts) r =
     map_option (\<lambda>(next, r1). r1\<lparr>cx_run := cx_loop_next tn c next\<rparr>) (turn_receive cx_name ''turn'' c parts r)"
| "cx_run_step (CxAnswer tn c answer) r = Some (r\<lparr>cx_run := CxReturn tn c (acp_answer runtimeTypeCodex answer r, None)\<rparr>)"
| "cx_run_step (CxReturn tn c res) r = Some (cx_return tn res (close_turn c r))"

text \<open>The loop of \<open>Run\<close> when its context is done.\<close>

fun cx_run_ctx_done :: "cxRun \<Rightarrow> codex \<Rightarrow> codex option" where
  "cx_run_ctx_done (CxLoop tn c parts) r =
     map_option (\<lambda>(next, r1). r1\<lparr>cx_run := cx_loop_next tn c next\<rparr>) (turn_ctx_done cx_name (tn_ctx tn) r)"
| "cx_run_ctx_done _ r = None"

section \<open>All together\<close>

text \<open>
  The steps of a runtime whose process has been started.  The environment chooses the requests,
  when contexts end, the lines of the process, the errors of writes, and when it is closed.
\<close>

inductive cx_step :: "codex \<Rightarrow> codex \<Rightarrow> bool" where
  init: "cx_init_next werr wait (cx_init r, r) = Some (pc, r1) \<Longrightarrow> cx_step r (r1\<lparr>cx_init := pc\<rparr>)"
| run_begin: "cx_Run_begin ctx req r = Some r1 \<Longrightarrow> cx_step r r1"
| run: "cx_run_step (cx_run r) r = Some r1 \<Longrightarrow> cx_step r r1"
| run_done: "cx_run_ctx_done (cx_run r) r = Some r1 \<Longrightarrow> cx_step r r1"
| start: "k < length (cx_starts r) \<Longrightarrow> start_step (cx_starts r ! k) r = Some (pc, r1) \<Longrightarrow>
          cx_step r (r1\<lparr>cx_starts := (cx_starts r)[k := pc]\<rparr>)"
| call_write: "cx_rpc_write werr i r = Some r1 \<Longrightarrow> cx_step r r1"
| call_done: "cx_rpc_ctx_done i r = Some r1 \<Longrightarrow> cx_step r r1"
| call_reply: "cx_rpc_reply i r = Some r1 \<Longrightarrow> cx_step r r1"
| call_leave: "cx_rpc_leave i r = Some r1 \<Longrightarrow> cx_step r r1"
| line: "cx_read_line l r = Some r1 \<Longrightarrow> cx_step r r1"
| handler: "cx_handler_next ok r = Some r1 \<Longrightarrow> cx_step r r1"
| read_end: "cx_read_end scanErr r = Some r1 \<Longrightarrow> cx_step r r1"
| reader: "cx_reader_next r = Some r1 \<Longrightarrow> cx_step r r1"
| stderr: "cx_step r (cx_stderr_Write p r)"
| ctx_done: "err \<in> {deadline_exceeded, context_canceled} \<Longrightarrow> cx_step r (end_ctx c err r)"
| close: "cx_init r = InitDone \<Longrightarrow> cx_step r (snd (cx_Close wait r))"

end
