(* ===== verification/CodexLaws.thy ===== *)
theory CodexLaws
  imports CodexAcp AcpLaws
begin

text \<open>
  What holds of the codex driver in every reachable state (\<open>cx_step\<close>): the laws all drivers share, by
  \<open>acp_machine\<close>, and that a turn runs in the thread that belongs to its working directory.
\<close>

section \<open>The driver as one of its kind\<close>

lemmas cx_shared = cx_markBroken_def cx_rpc_begin_def cx_rpc_write_def cx_rpc_ctx_done_def cx_rpc_reply_def cx_rpc_leave_def
  cx_notify_def cx_Close_def cx_stderr_Write_def cx_read_end_def cx_reader_next_def cx_dispatchTurnEvent_def
  cx_dispatchProgress_def cx_init_next_def cx_read_line_def cx_handler_next_def

fun cx_phase :: "cxRun \<Rightarrow> phase" where
  "cx_phase (CxLoop tn c parts) = Looping c parts"
| "cx_phase (CxAnswer tn c answer) = Answering c answer"
| "cx_phase (CxReturn tn c res) = Returning res"
| "cx_phase _ = Quiet"

definition cx_view :: "codex \<Rightarrow> turnView" where
  "cx_view r = (cx_phase (cx_run r), cx_results r, cx_init r = InitDone)"

abbreviation cx_ok :: "codex \<Rightarrow> bool" where
  "cx_ok \<equiv> acp_ok cx_view"

lemma codex_more:
  fixes r s :: codex
  assumes "acpRuntime.more s = acpRuntime.more r"
  shows "cx_run s = cx_run r" "cx_results s = cx_results r" "cx_init s = cx_init r" "cx_starts s = cx_starts r"
proof -
  have "(cx_run s, cx_results s, cx_init s, cx_starts s) = (cx_run r, cx_results r, cx_init r, cx_starts r)"
    using assms by (cases r rule: codex.cases_scheme; cases s rule: codex.cases_scheme; simp)
  then show "cx_run s = cx_run r" "cx_results s = cx_results r" "cx_init s = cx_init r" "cx_starts s = cx_starts r"
    by simp_all
qed

interpretation cx: acp_driver cx_view
proof
  fix r s :: codex
  assume "acpRuntime.more s = acpRuntime.more r"
  then show "cx_view s = cx_view r" using codex_more [of s r] by (simp add: cx_view_def)
qed

lemma cx_ok_iff:
  "cx_ok r \<longleftrightarrow> rpc_ok r \<and> chans_ok r \<and> phase_ok (ar_chans r) (cx_phase (cx_run r))"
  by (simp add: acp_ok_def cx_view_def)

lemma cx_fields [simp]:
  "rpc_ok (r\<lparr>cx_run := a\<rparr>) = rpc_ok r" "rpc_ok (r\<lparr>cx_results := b\<rparr>) = rpc_ok r" "rpc_ok (r\<lparr>cx_init := d\<rparr>) = rpc_ok r"
  "rpc_ok (r\<lparr>cx_starts := e\<rparr>) = rpc_ok r" "chans_ok (r\<lparr>cx_run := a\<rparr>) = chans_ok r" "chans_ok (r\<lparr>cx_results := b\<rparr>) = chans_ok r"
  "chans_ok (r\<lparr>cx_init := d\<rparr>) = chans_ok r" "chans_ok (r\<lparr>cx_starts := e\<rparr>) = chans_ok r"
  by (simp_all add: rpc_ok_def chans_ok_def)

lemma harmless_starts: "harmless cx_view r (r\<lparr>cx_starts := y\<rparr>)"
  by (simp add: harmless_def acp_broken_def cx_view_def)

section \<open>The steps beside the turn\<close>

lemma cx_harmless_start:
  assumes "start_step pc r = Some (pc1, s)"
  shows "harmless cx_view r s"
proof (cases pc)
  case (StartCall j)
  then show ?thesis using assms
    by (auto simp: start_error_event_def cx_rpc_begin_def split: prod.split_asm sum.split_asm
        dest!: cx.harmless_begin intro: harmless_trans cx.harmless_offer)
next
  case (StartWait j i)
  then obtain res :: "goerr + json option" where "s = (case res of Inl err \<Rightarrow> start_error_event j err r | Inr _ \<Rightarrow> r)"
    using assms by auto
  then show ?thesis by (cases res) (simp_all add: start_error_event_def cx.harmless_offer)
qed (use assms in simp)

section \<open>The turn\<close>

lemma cx_run_keeps:
  assumes "harmless cx_view r r1" "cx_ok r1 \<Longrightarrow> phase_ok (ar_chans r1) (cx_phase pc)"
    and "\<And>k. cx_ok r1 \<Longrightarrow> phase_in k (ar_chans r1) (cx_phase (cx_run r)) \<Longrightarrow> phase_in k (ar_chans r1) (cx_phase pc)"
  shows "acp_keeps cx_view r (r1\<lparr>cx_run := pc\<rparr>)"
proof (rule keeps_trans [OF harmless_keeps [OF assms(1)] keeps_view])
  have v: "cx_view r1 = cx_view r" using assms(1) by (simp add: harmless_def)
  show "in_turn n k (ar_chans r1) (cx_view r1) \<Longrightarrow> cx_ok r1 \<Longrightarrow> in_turn n k (ar_chans r1) (cx_view (r1\<lparr>cx_run := pc\<rparr>))" for n k
    using in_turn_phase [of n k "ar_chans r1" "cx_view r1" "cx_phase pc"] assms(3) v by (simp add: cx_view_def)
qed (use assms(2) in \<open>simp_all add: rpc_part_def cx_view_def\<close>)

lemma cx_quiet_keeps:
  "harmless cx_view r r1 \<Longrightarrow> cx_phase (cx_run r) = Quiet \<Longrightarrow> cx_phase pc = Quiet \<Longrightarrow> acp_keeps cx_view r (r1\<lparr>cx_run := pc\<rparr>)"
  by (rule cx_run_keeps) simp_all

lemma cx_result_keeps:
  assumes "harmless cx_view r r1" "\<And>k. cx_ok r1 \<Longrightarrow> phase_in k (ar_chans r1) (cx_phase (cx_run r)) \<Longrightarrow> answered_by k (ar_chans r1) res"
  shows "acp_keeps cx_view r (r1\<lparr>cx_run := CxIdle, cx_results := cx_results r @ [res]\<rparr>)" (is "acp_keeps _ _ ?s")
proof (rule keeps_trans [OF harmless_keeps [OF assms(1)] keeps_view])
  have v: "cx_view r1 = cx_view r" using assms(1) by (simp add: harmless_def)
  show "in_turn n k (ar_chans r1) (cx_view r1) \<Longrightarrow> cx_ok r1 \<Longrightarrow> in_turn n k (ar_chans r1) (cx_view ?s)" for n k
    using in_turn_result [of n k "ar_chans r1" "cx_view r1" res Quiet] assms(2) v by (simp add: cx_view_def)
qed (simp_all add: rpc_part_def cx_view_def)

lemma ensureThread_quiet [simp]: "cx_phase (ensureThread tn r) = Quiet"
  by (simp add: ensureThread_def Let_def)

lemma cx_return_keeps:
  assumes "harmless cx_view r r1" "\<And>k r2. cx_ok r2 \<Longrightarrow> phase_in k (ar_chans r2) (cx_phase (cx_run r)) \<Longrightarrow> answered_by k (ar_chans r2) res"
  shows "acp_keeps cx_view r (cx_return tn res r1)"
proof -
  have "cx_results r1 = cx_results r" using assms(1) by (simp add: harmless_def cx_view_def)
  then show ?thesis
    unfolding cx_return_def using cx_result_keeps [OF harmless_trans [OF assms(1) cx.harmless_ops(8)] assms(2)] by simp
qed

lemma thread_failed_keeps: "harmless cx_view r r1 \<Longrightarrow> acp_keeps cx_view r (thread_failed tn err r1)"
  unfolding thread_failed_def cx_shared by (erule cx_return_keeps [OF harmless_trans [OF _ cx.harmless_ops(1)]]) simp

lemma cx_loop_next_phase [simp]: "cx_phase (cx_loop_next tn c next) = next_phase c next"
  by (cases "next") (simp_all add: cx_loop_next_def)

lemma cx_receive_keeps:
  assumes "cx_run r = CxLoop tn c parts" "turn_receive name what c parts r = Some (next, s)"
  shows "acp_keeps cx_view r (s\<lparr>cx_run := cx_loop_next tn c next\<rparr>)"
proof -
  have more: "acpRuntime.more s = acpRuntime.more r" by (rule turn_receive_more [OF assms(2)])
  have "cx_ok (s\<lparr>cx_run := cx_loop_next tn c next\<rparr>)
      \<and> (in_turn n k (ar_chans r) (cx_view r) \<longrightarrow> in_turn n k (ar_chans s) (cx_view (s\<lparr>cx_run := cx_loop_next tn c next\<rparr>)))"
    if "cx_ok r" for n k
  proof -
    have ok: "rpc_ok r" "chans_ok r" "phase_ok (ar_chans r) (Looping c parts)" using that assms(1) by (simp_all add: cx_ok_iff)
    from turn_receive_ok [OF assms(2) ok] in_turn_receive [of n k "ar_chans r" c parts "cx_results r" "cx_init r = InitDone" "ar_chans s" "next"]
    show ?thesis by (auto simp: cx_ok_iff cx_view_def assms(1) codex_more [OF more])
  qed
  then show ?thesis
    using turn_receive_broken [OF assms(2)] by (simp add: acp_keeps_def acp_broken_def cx_view_def codex_more [OF more])
qed

lemma cx_run_step_keeps:
  assumes "cx_run_step (cx_run r) r = Some s"
  shows "acp_keeps cx_view r s"
proof (cases "cx_run r")
  case (CxLoop tn c parts)
  then show ?thesis using cx_receive_keeps [OF CxLoop] assms by auto
next
  case (CxEnsure tn)
  then show ?thesis using assms by (auto intro!: cx_quiet_keeps)
next
  case (CxResume tn resumeID)
  then show ?thesis using assms
    by (auto simp: cx_shared split: prod.split_asm sum.split_asm dest!: cx.harmless_begin intro!: cx_quiet_keeps)
next
  case (CxResumeWait tn i)
  then show ?thesis using assms by (auto intro!: cx_quiet_keeps split: option.splits)
next
  case (CxNew tn)
  then show ?thesis using assms
    by (auto simp: cx_shared split: prod.split_asm sum.split_asm dest!: cx.harmless_begin intro!: cx_quiet_keeps thread_failed_keeps)
next
  case (CxNewWait tn i)
  then obtain res where res: "s = (case started_thread res of Inl err \<Rightarrow> thread_failed tn err r | Inr t \<Rightarrow> r\<lparr>cx_run := CxStore tn t\<rparr>)"
    using assms by auto
  show ?thesis unfolding res using CxNewWait by (cases "started_thread res") (simp_all add: thread_failed_keeps cx_quiet_keeps)
next
  case (CxReturn tn c res)
  have "harmless cx_view r (close_turn c r)" by (rule cx.harmless_ops(9))
  from cx_return_keeps [OF this, of res] show ?thesis using CxReturn assms by auto
next
  case (CxAnswer tn c answer)
  then show ?thesis using assms by (auto simp: cx_ok_iff acp_answer_def answered_by_def intro!: cx_run_keeps)
next
  case (CxInstall tn t)
  then have s: "s = (open_turn t (tn_progress tn) r)\<lparr>cx_run := CxLoop tn (length (ar_chans r)) [],
      cx_starts := cx_starts (open_turn t (tn_progress tn) r) @ [StartCall \<lparr>st_ctx = tn_ctx tn, st_ch = length (ar_chans r), st_threadID = t,
        st_workDir = tn_workDir tn, st_prompt = tn_prompt tn\<rparr>]\<rparr>"
    using assms by (simp add: Let_def)
  show ?thesis unfolding s
    by (rule cx.open_keeps [of _ t "tn_progress tn"])
       (simp_all add: rpc_part_def core_simps cx_view_def CxInstall codex_more [OF more_frame(15)])
next
  case (CxStore tn t)
  then show ?thesis using assms cx.harmless_sessions(1) by (auto simp: store_thread_def intro!: cx_quiet_keeps)
qed (use assms in simp)

lemma cx_run_ctx_done_keeps: "cx_run_ctx_done (cx_run r) r = Some s \<Longrightarrow> acp_keeps cx_view r s"
  by (cases "cx_run r") (auto simp: turn_ctx_done_def Let_def intro!: cx_run_keeps cx.harmless_ops(1))

lemma cx_Run_begin_keeps:
  assumes "cx_Run_begin ctx req r = Some s"
  shows "acp_keeps cx_view r s"
proof -
  obtain x r1 where b: "turn_begin cx_name ctx req r = (x, r1)" by fastforce
  have h: "harmless cx_view r r1" using cx.harmless_ops(11) [of r cx_name ctx req] by (simp add: b)
  then have v: "cx_view r1 = cx_view r" by (simp add: harmless_def)
  have idle: "cx_run r = CxIdle" using assms by (auto simp: cx_Run_begin_def split: if_splits)
  then have same: "r1\<lparr>cx_results := cx_results r1 @ [res]\<rparr> = r1\<lparr>cx_run := CxIdle, cx_results := cx_results r @ [res]\<rparr>" for res
    using v by (cases x) (use b in \<open>auto simp: cx_view_def turn_begin_def new_ctx_def Let_def split: if_splits\<close>)
  show ?thesis using assms b cx_result_keeps [OF h] cx_quiet_keeps [OF h] idle
    by (cases x) (auto simp: cx_Run_begin_def same split: if_split_asm)
qed

lemma cx_step_keeps: "cx_step r s \<Longrightarrow> acp_keeps cx_view r s"
proof (induction rule: cx_step.induct)
  case (init werr wait r pc r1)
  then have h: "harmless cx_view r r1" using cx.harmless_init [of cx_name werr wait "cx_init r" r pc r1] by (simp add: cx_view_def cx_shared)
  have "cx_init r \<noteq> InitDone" using init.hyps by (auto simp: cx_shared init_next_def)
  then have "\<not> acp_broken cx_view r" by (simp add: acp_broken_def cx_view_def)
  moreover have "in_turn n k (ar_chans r) (cx_view r) \<Longrightarrow> in_turn n k (ar_chans r1) (cx_view (r1\<lparr>cx_init := pc\<rparr>))" for n k
    using h in_turn_grow [OF feed_grow, of "ar_chans r" "ar_chans r1"]
    by (fastforce simp: harmless_def cx_view_def in_turn_def)
  ultimately show ?case using harmless_ok [OF h] by (simp add: acp_keeps_def cx_ok_iff)
next
  case (run_begin ctx req r r1)
  then show ?case by (rule cx_Run_begin_keeps)
next
  case (run r r1)
  then show ?case by (rule cx_run_step_keeps)
next
  case (run_done r r1)
  then show ?case by (rule cx_run_ctx_done_keeps)
next
  case (start k r pc r1)
  show ?case by (rule harmless_keeps [OF harmless_trans [OF cx_harmless_start [OF start.hyps(2)] harmless_starts]])
next
  case (line l r r1)
  show ?case by (rule harmless_keeps [OF cx.harmless_line [OF line.hyps [unfolded cx_read_line_def]]])
next
  case (handler ok r r1)
  show ?case by (rule harmless_keeps [OF cx.harmless_handler [OF handler.hyps [unfolded cx_handler_next_def]]]) simp
qed (unfold cx_shared, (rule harmless_keeps, (erule cx.harmless_calls cx.harmless_reader | rule cx.harmless_ops))+)

definition cx_initial :: "codex \<Rightarrow> bool" where
  "cx_initial r \<longleftrightarrow> (\<exists>e1 e2 e3 sp. cx_launch e1 e2 e3 sp = Inr r)"

lemma cx_initialE:
  assumes "cx_initial r"
  obtains sp where "r = snd (rpc_begin cx_name 0 ''initialize'' (Some (initialize_params []))
      (started_runtime sp \<lparr>cx_init = InitCall 1, cx_run = CxIdle, cx_starts = [], cx_results = []\<rparr>))"
  using assms unfolding cx_initial_def cx_launch_def cx_shared
  by (elim exE) (simp add: Let_def split: sum.split_asm option.split_asm, blast)

lemma cx_initial_ok: "cx_initial r \<Longrightarrow> cx_ok r"
  by (erule cx_initialE, hypsubst, rule harmless_ok [OF cx.harmless_begin [OF surjective_pairing]])
     (simp add: cx_ok_iff started_runtime_def rpc_ok_def chans_ok_def calls_ok_def results_ok_def replies_ok_def)

interpretation codexes: acp_machine cx_view cx_initial cx_step
  by unfold_locales (auto intro: cx_initial_ok cx_step_keeps)

section \<open>Threads\<close>

definition in_thread :: "turn \<Rightarrow> codex \<Rightarrow> bool" where
  "in_thread tn r \<longleftrightarrow> ar_sessionID r \<noteq> [] \<and> ar_sessionWorkDir r = tn_workDir tn"

text \<open>Where a turn is, and the thread it has: none is active before it is installed.\<close>

fun thread_ok :: "cxRun \<Rightarrow> codex \<Rightarrow> bool" where
  "thread_ok (CxStore tn t) r = (t \<noteq> [] \<and> ar_activeCh r = None)"
| "thread_ok (CxInstall tn t) r = (in_thread tn r \<and> ar_sessionID r = t \<and> ar_activeCh r = None)"
| "thread_ok (CxLoop tn c parts) r = (in_thread tn r \<and> ar_activeSession r = ar_sessionID r \<and> ar_activeCh r = Some c)"
| "thread_ok (CxAnswer tn c answer) r = (in_thread tn r \<and> ar_activeSession r = ar_sessionID r \<and> ar_activeCh r = Some c)"
| "thread_ok (CxReturn tn c res) r = (in_thread tn r \<and> ar_activeSession r = ar_sessionID r \<and> ar_activeCh r = Some c)"
| "thread_ok _ r = (ar_activeCh r = None)"

definition threads_ok :: "codex \<Rightarrow> bool" where
  "threads_ok r \<longleftrightarrow> thread_ok (cx_run r) r"

lemma thread_ok_cong: "session_part s = session_part r \<Longrightarrow> thread_ok pc s = thread_ok pc r"
  by (cases pc) (simp_all add: session_part_def in_thread_def)

lemma thread_ok_fields [simp]:
  "thread_ok pc (r\<lparr>cx_run := a\<rparr>) = thread_ok pc r" "thread_ok pc (r\<lparr>cx_results := b\<rparr>) = thread_ok pc r"
  "thread_ok pc (r\<lparr>cx_init := d\<rparr>) = thread_ok pc r" "thread_ok pc (r\<lparr>cx_starts := e\<rparr>) = thread_ok pc r"
  by (rule thread_ok_cong, simp add: session_part_def)+

lemma threads_ok_frame:
  "session_part s = session_part r \<Longrightarrow> cx_run s = cx_run r \<Longrightarrow> threads_ok s = threads_ok r"
  using thread_ok_cong [of s r "cx_run r"] by (simp add: threads_ok_def)

lemma session_start: "start_step pc r = Some (pc1, s) \<Longrightarrow> session_part s = session_part r"
proof (cases pc)
  case (StartCall j)
  have b: "rpc_begin n c m ps r = (x, s1) \<Longrightarrow> session_part s1 = session_part r" for n c m ps x s1
    using session_frame(11) [of n c m ps r] by simp
  assume "start_step pc r = Some (pc1, s)"
  then show ?thesis using StartCall
    by (auto simp: start_error_event_def cx_rpc_begin_def core_simps b split: prod.split_asm sum.split_asm)
next
  case (StartWait j i)
  moreover assume "start_step pc r = Some (pc1, s)"
  ultimately obtain res :: "goerr + json option" where "s = (case res of Inl err \<Rightarrow> start_error_event j err r | Inr _ \<Rightarrow> r)"
    by auto
  then show ?thesis by (cases res) (simp_all add: start_error_event_def core_simps)
qed simp

lemma decodeThreadID_nonempty: "decodeThreadID result m = Inr t \<Longrightarrow> t \<noteq> []"
  by (auto simp: decodeThreadID_def split: option.split_asm if_split_asm)

lemma thread_results_nonempty: "started_thread res = Inr t \<Longrightarrow> t \<noteq> []" "resumed_thread res = Some t \<Longrightarrow> t \<noteq> []"
  by (auto simp: started_thread_def resumed_thread_def decodeThreadID_nonempty split: sum.split_asm if_split_asm)

lemma threads_step_return: "ar_activeCh r = None \<Longrightarrow> threads_ok (cx_return tn res r)"
  using session_frame(4) [of "tn_derived tn" "tn_ctx tn" r] by (simp add: cx_return_def threads_ok_def session_part_def)

lemma threads_step_failed: "ar_activeCh r = None \<Longrightarrow> threads_ok (thread_failed tn err r)"
  unfolding thread_failed_def by (rule threads_step_return) (simp add: cx_markBroken_def markBroken_def)

lemma threads_run_step:
  assumes "cx_run_step (cx_run r) r = Some s" "threads_ok r"
  shows "threads_ok s"
proof -
  have b: "rpc_begin n c m ps r = (x, s1) \<Longrightarrow> ar_activeCh s1 = ar_activeCh r" for n c m ps x s1
    using session_frame(11) [of n c m ps r] by (simp add: session_part_def)
  show ?thesis
  proof (cases "cx_run r")
    case (CxLoop tn c parts)
    then obtain "next" s1 where t: "turn_receive cx_name ''turn'' c parts r = Some (next, s1)" "s = s1\<lparr>cx_run := cx_loop_next tn c next\<rparr>"
      using assms(1) by auto
    from session_receive [OF t(1)] show ?thesis using CxLoop t(2) assms(2)
      by (cases "next") (auto simp: threads_ok_def cx_loop_next_def session_part_def in_thread_def)
  next
    case (CxNewWait tn i)
    then obtain res where res: "s = (case started_thread res of Inl err \<Rightarrow> thread_failed tn err r | Inr t \<Rightarrow> r\<lparr>cx_run := CxStore tn t\<rparr>)"
      using assms by auto
    show ?thesis unfolding res using assms(2) CxNewWait thread_results_nonempty(1)
      by (cases "started_thread res") (auto simp: threads_ok_def intro: threads_step_failed [unfolded threads_ok_def])
  next
    case (CxReturn tn c res)
    have "ar_activeCh (close_turn c r) = None" using assms(2) CxReturn by (simp add: close_turn_def threads_ok_def)
    then show ?thesis using assms(1) CxReturn by (auto intro: threads_step_return)
  next
    case (CxEnsure tn)
    then show ?thesis using assms by (auto simp: threads_ok_def ensureThread_def in_thread_def Let_def)
  next
    case (CxResumeWait tn i)
    then show ?thesis using assms thread_results_nonempty(2) by (auto simp: threads_ok_def split: option.splits)
  next
    case (CxNew tn)
    then show ?thesis using assms
      by (auto simp: cx_rpc_begin_def threads_ok_def b split: prod.split_asm sum.split_asm intro: threads_step_failed [unfolded threads_ok_def])
  qed (use assms in \<open>auto simp: threads_ok_def cx_rpc_begin_def store_thread_def in_thread_def open_turn_def b Let_def
         split: prod.split_asm sum.split_asm\<close>)
qed

lemma more_start: "start_step pc r = Some (pc1, s) \<Longrightarrow> acpRuntime.more s = acpRuntime.more r"
proof (cases pc)
  case (StartCall j)
  have b: "rpc_begin n c m ps r = (x, s1) \<Longrightarrow> acpRuntime.more s1 = acpRuntime.more r" for n c m ps x s1
    using more_frame(12) [of n c m ps r] by simp
  assume "start_step pc r = Some (pc1, s)"
  then show ?thesis using StartCall
    by (auto simp: start_error_event_def cx_rpc_begin_def more_frame b split: prod.split_asm sum.split_asm)
next
  case (StartWait j i)
  moreover assume "start_step pc r = Some (pc1, s)"
  ultimately obtain res :: "goerr + json option" where "s = (case res of Inl err \<Rightarrow> start_error_event j err r | Inr _ \<Rightarrow> r)"
    by auto
  then show ?thesis by (cases res) (simp_all add: start_error_event_def more_frame)
qed simp

lemma threads_more:
  "session_part s = session_part r \<Longrightarrow> acpRuntime.more s = acpRuntime.more r \<Longrightarrow> threads_ok s = threads_ok r"
  using codex_more(1) by (intro threads_ok_frame)

lemma threads_begin:
  assumes "cx_Run_begin ctx req r = Some s" "threads_ok r"
  shows "threads_ok s"
proof -
  obtain x r1 where b: "turn_begin cx_name ctx req r = (x, r1)" by fastforce
  have "threads_ok r1" "session_part r1 = session_part r" "cx_run r1 = cx_run r"
    using assms(2) threads_more [of r1 r] codex_more(1) [of r1 r] session_frame(8) [of cx_name ctx req r] more_frame(8) [of cx_name ctx req r] b
    by simp_all
  with assms b show ?thesis
    by (cases x) (auto simp: cx_Run_begin_def threads_ok_def session_part_def split: if_splits)
qed

lemma threads_step: "cx_step r s \<Longrightarrow> threads_ok r \<Longrightarrow> threads_ok s"
proof (induction rule: cx_step.induct)
  case (init werr wait r pc r1)
  have "threads_ok r1"
    using threads_more [OF session_init [OF init.hyps [unfolded cx_init_next_def]] more_init [OF init.hyps [unfolded cx_init_next_def]]] init.prems
    by simp
  then show ?case by (simp add: threads_ok_def)
next
  case (run_begin ctx req r r1)
  then show ?case by (rule threads_begin)
next
  case (run r r1)
  then show ?case by (rule threads_run_step)
next
  case (run_done r r1)
  then show ?case by (cases "cx_run r") (auto simp: turn_ctx_done_def threads_ok_def cx_loop_next_def in_thread_def markBroken_def Let_def)
next
  case (start k r pc r1)
  have "threads_ok r1" using threads_more [OF session_start [OF start.hyps(2)] more_start [OF start.hyps(2)]] start.prems by simp
  then show ?case by (simp add: threads_ok_def)
next
  case (line l r r1)
  then show ?case using threads_more [OF session_line more_line] by (auto simp: cx_read_line_def)
next
  case (handler ok r r1)
  then show ?case using threads_more [OF session_handler more_handler] by (fastforce simp: cx_handler_next_def)
qed (unfold cx_shared, simp_all add: threads_more [OF session_frame(2) more_frame(2)] threads_more [OF session_frame(3) more_frame(3)]
      threads_more [OF session_frame(5) more_frame(5)], (blast dest: threads_more [OF session_frame_Some(1) more_frame_Some(1)]
      threads_more [OF session_frame_Some(2) more_frame_Some(2)] threads_more [OF session_frame_Some(3) more_frame_Some(3)]
      threads_more [OF session_frame_Some(4) more_frame_Some(4)] threads_more [OF session_frame_Some(6) more_frame_Some(6)]
      threads_more [OF session_frame_Some(7) more_frame_Some(7)])+)

lemma threads_initial: "cx_initial r \<Longrightarrow> threads_ok r"
  by (erule cx_initialE) (simp add: rpc_begin_def started_runtime_def threads_ok_def Let_def)

interpretation codex_threads: transition_system cx_initial cx_step threads_ok
  by unfold_locales (auto intro: threads_initial threads_step)

section \<open>Turns\<close>

text \<open>
  C24. A turn of codex runs in its own thread, whatever the interleaving: while it receives events, the
  active thread is the one the runtime holds, which belongs to the working directory of the turn, and
  an event of another thread is given no channel and changes nothing.
\<close>

theorem codex_turn_in_thread:
  assumes "cx_initial s0" "cx_step\<^sup>*\<^sup>* s0 s" "cx_run s = CxLoop tn c parts"
  shows "ar_activeCh s = Some c \<and> ar_sessionID s \<noteq> [] \<and> ar_activeSession s = ar_sessionID s \<and> ar_sessionWorkDir s = tn_workDir tn
    \<and> (t \<noteq> [] \<longrightarrow> t \<noteq> ar_sessionID s \<longrightarrow> dispatch_target t s = None \<and> cx_dispatchTurnEvent t ev s = s)"
  using codex_threads.reachable_inv [OF assms(1, 2)] assms(3)
  by (auto simp: threads_ok_def in_thread_def cx_dispatchTurnEvent_def acp_dispatch_def dispatch_target_def)

text \<open>
  C25. Whatever the interleaving of the turn, its start call, the reader, timeouts and closing: when no turn
  runs, the first \<open>Run\<close> to return after this, if it gives an answer, gives that of the channel it has
  opened itself, which did not exist before (number \<open>length (ar_chans s)\<close>): the answer is not empty and
  is the trimmed concatenation of all the text this channel was given up to its first completion, none
  of which was an error.
\<close>

theorem codex_answers_stream:
  assumes "cx_initial s0" "cx_step\<^sup>*\<^sup>* s0 s" "cx_run s = CxIdle" "cx_step\<^sup>*\<^sup>* s t" "cx_results t = cx_results s @ (resp, None) # rest"
  shows "length (ar_chans s) < length (ar_chans t) \<and> rs_Text resp \<noteq> [] \<and>
    (\<exists>evs ev. prefix (evs @ [ev]) (ch_sent (ar_chans t ! length (ar_chans s)))
       \<and> te_Kind ev = ''completed'' \<and> (\<forall>e \<in> set evs. te_Kind e \<noteq> ''completed'') \<and> (\<forall>e \<in> set (evs @ [ev]). te_Err e = None)
       \<and> rs_Text resp = TrimSpace (concat (map event_text (evs @ [ev]))))"
  using codexes.answers_stream [OF assms(1, 2) _ assms(4)] assms(3,5) by (simp add: cx_view_def)

section \<open>Runs of the model\<close>

definition cx_spec :: spec where
  "cx_spec = empty_spec\<lparr>sp_Command := ''codex'', sp_ResumeSessionID := ''t1''\<rparr>"

definition cx_start :: codex where
  "cx_start = projr (cx_launch None None None cx_spec)"

definition cx_do_init :: "codex \<Rightarrow> codex option" where
  "cx_do_init r = map_option (\<lambda>(pc, r1). r1\<lparr>cx_init := pc\<rparr>) (cx_init_next None None (cx_init r, r))"

definition cx_do_run :: "codex \<Rightarrow> codex option" where
  "cx_do_run r = cx_run_step (cx_run r) r"

definition cx_do_start :: "nat \<Rightarrow> codex \<Rightarrow> codex option" where
  "cx_do_start k r =
     (if k < length (cx_starts r)
      then map_option (\<lambda>(pc, r1). r1\<lparr>cx_starts := (cx_starts r)[k := pc]\<rparr>) (start_step (cx_starts r ! k) r) else None)"

definition delta_params :: json where
  "delta_params = JObj [(''threadId'', JStr ''t1''), (''delta'', JStr ''hello'')]"

text \<open>A call answered by the process, and a conversation: the handshake, a resumed thread, one turn.\<close>

definition cx_call :: "int \<Rightarrow> json \<Rightarrow> (codex \<Rightarrow> codex option) list" where
  "cx_call i v = [cx_rpc_write None i, cx_read_line (json_text (reply_value i v)), cx_reader_next, cx_rpc_reply i, cx_rpc_leave i]"

definition cx_opening :: "(codex \<Rightarrow> codex option) list" where
  "cx_opening =
     cx_call 1 (JObj []) @ [cx_do_init, cx_do_init, cx_do_init, cx_Run_begin Background (empty_request\<lparr>rq_Prompt := ''hi''\<rparr>), cx_do_run, cx_do_run]
     @ cx_call 2 (JObj [(''thread'', JObj [(''id'', JStr ''t1'')])]) @ [cx_do_run, cx_do_run, cx_do_run]"

definition cx_event :: "string \<Rightarrow> json \<Rightarrow> (codex \<Rightarrow> codex option) list" where
  "cx_event m p = [cx_read_line (json_text (message_value m p)), cx_handler_next True, cx_handler_next True]"

definition cx_turn_end :: "json \<Rightarrow> nat \<Rightarrow> int \<Rightarrow> (codex \<Rightarrow> codex option) list" where
  "cx_turn_end p k i =
     [cx_do_start k, cx_rpc_write None i] @ cx_event ''item/agentMessage/delta'' p
     @ cx_event ''turn/completed'' (JObj [(''threadId'', JStr ''t1'')]) @ [cx_do_run, cx_do_run, cx_do_run, cx_do_run]"

definition cx_closing :: "(codex \<Rightarrow> codex option) list" where
  "cx_closing = cx_turn_end delta_params 0 3"

text \<open>A second turn, in the same thread.\<close>

definition again_delta :: json where
  "again_delta = JObj [(''threadId'', JStr ''t1''), (''delta'', JStr ''again'')]"

definition cx_again :: "(codex \<Rightarrow> codex option) list" where
  "cx_again = [cx_Run_begin Background (empty_request\<lparr>rq_Prompt := ''hi''\<rparr>), cx_do_run, cx_do_run] @ cx_turn_end again_delta 1 4"

lemma cx_ops_step:
  "cx_do_init r = Some s \<Longrightarrow> cx_step r s" "cx_do_run r = Some s \<Longrightarrow> cx_step r s" "cx_do_start k r = Some s \<Longrightarrow> cx_step r s"
  by (auto simp: cx_do_init_def cx_do_run_def cx_do_start_def split: if_splits intro: cx_step.intros)

lemma cx_call_steps: "list_all (\<lambda>f. \<forall>r s. f r = Some s \<longrightarrow> cx_step r s) (cx_call i v)"
  by (auto simp: cx_call_def intro: cx_step.intros)

lemma cx_end_steps: "list_all (\<lambda>f. \<forall>r s. f r = Some s \<longrightarrow> cx_step r s) (cx_turn_end p k i)"
  by (auto simp: cx_turn_end_def cx_event_def intro: cx_step.intros cx_ops_step)

lemma cx_runs:
  "run_all cx_opening r = Some s \<Longrightarrow> cx_step\<^sup>*\<^sup>* r s" "run_all (cx_opening @ cx_closing) r = Some s \<Longrightarrow> cx_step\<^sup>*\<^sup>* r s"
  "run_all cx_again r = Some s \<Longrightarrow> cx_step\<^sup>*\<^sup>* r s"
  by (rule run_all_steps [rotated], assumption,
      simp add: cx_opening_def cx_closing_def cx_again_def cx_call_steps cx_end_steps, auto intro: cx_step.intros cx_ops_step)+

lemma cx_trim: "TrimSpace ''again'' = ''again''" "TrimSpace ''hi'' = ''hi''" "TrimSpace ''t1'' = ''t1''" "TrimSpace ''hello'' = ''hello''" "TrimSpace ''codex'' = ''codex''"
  by (simp_all add: TrimSpace_plain plain_char_def)

lemma cx_start_state: "cx_start = snd (rpc_begin cx_name 0 ''initialize'' (Some (initialize_params []))
    (started_runtime cx_spec \<lparr>cx_init = InitCall 1, cx_run = CxIdle, cx_starts = [], cx_results = []\<rparr>))"
  and cx_start_initial: "cx_initial cx_start"
proof -
  have "cx_launch None None None cx_spec = Inr (snd (rpc_begin cx_name 0 ''initialize'' (Some (initialize_params []))
    (started_runtime cx_spec \<lparr>cx_init = InitCall 1, cx_run = CxIdle, cx_starts = [], cx_results = []\<rparr>)))"
    by (simp add: cx_launch_def cx_command_def acp_command_def cx_trim cx_spec_def cx_rpc_begin_def Let_def)
  then show "cx_start = snd (rpc_begin cx_name 0 ''initialize'' (Some (initialize_params []))
    (started_runtime cx_spec \<lparr>cx_init = InitCall 1, cx_run = CxIdle, cx_starts = [], cx_results = []\<rparr>))"
    and "cx_initial cx_start"
    unfolding cx_start_def cx_initial_def by simp_all blast
qed

lemma cx_texty: "texty again_delta" "clean_json again_delta = again_delta"
  "unmarshal_value itemDelta_fields (Some again_delta) = Some (''t1'', ''again'')" "texty delta_params" "clean_json delta_params = delta_params"
  "unmarshal_value itemDelta_fields (Some delta_params) = Some (''t1'', ''hello'')"
  "unmarshal_value thread_fields (Some (JObj [(''thread'', JObj [(''id'', JStr ''t1'')])])) = Some ''t1''"
  "unmarshal_value (get_str ''threadId'') (Some (JObj [(''threadId'', JStr ''t1'')])) = Some ''t1''"
  by (simp_all add: delta_params_def again_delta_def clean_utf8_ascii unmarshal_value_def itemDelta_fields_def thread_fields_def getters same_name_ascii lower_char_def)

lemmas cx_eval = rpc_write_def rpc_begin_def rpc_reply_def rpc_leave_def read_line_def reader_next_def init_next_def acp_notify_def write_line_def
  cx_shared turn_receive_def cx_loop_next_def cx_Run_begin_def turn_begin_def new_ctx_def turn_workDir_def or_text_def ensureThread_def
  store_thread_def open_turn_def resumed_thread_def decodeThreadID_def cx_handle_def handleItemDelta_def handleTurnCompleted_def
  dispatch_target_def handling_def handler_next_def cx_event_def cx_turn_end_def offer_event_def has_room_def put_event_def the_chan_def queued_def turnBuffer_def call_result_def take_event_def
  event_outcome_def add_parts_def set_ready_def acp_answer_def cx_return_def cancel_derived_def close_turn_def end_ctx_def reply_result_def
  response_id_def started_runtime_def cx_spec_def empty_spec_def trim_lines cx_trim decode_reply decode_message cx_texty
  Let_def empty_request_def Background_def empty_event_def clean_utf8_ascii text_response_def empty_response_def runtimeTypeCodex_def
  cx_do_init_def cx_do_run_def cx_do_start_def cx_call_def

lemma cx_sample_loop:
  "map_option (\<lambda>s. (cx_run s, ar_sessionID s)) (run_all cx_opening cx_start) =
     Some (CxLoop \<lparr>tn_ctx = 1, tn_derived = False, tn_prompt = ''hi'', tn_workDir = [], tn_progress = False\<rparr> 0 [], ''t1'')"
  unfolding cx_start_state cx_opening_def by (simp add: cx_eval del: json_text.simps)

lemma cx_sample_answer:
  "(case run_all (cx_opening @ cx_closing) cx_start of None \<Rightarrow> None
    | Some s \<Rightarrow> map_option (\<lambda>t. (cx_run s, length (ar_chans s), cx_results t = cx_results s @
        [((text_response ''again'')\<lparr>rs_RuntimeType := ''codex'', rs_RawOutput := ''again'', rs_SessionID := ''t1''\<rparr>, None)])) (run_all cx_again s)) =
     Some (CxIdle, 1, True)"
  unfolding cx_start_state cx_opening_def cx_closing_def cx_again_def by (simp add: cx_eval del: json_text.simps)

lemma codex_turn_in_thread_witness:
  "\<exists>s tn c parts. cx_step\<^sup>*\<^sup>* cx_start s \<and> cx_run s = CxLoop tn c parts \<and> cx_dispatchTurnEvent ''t2'' empty_event s = s"
proof -
  obtain s tn c parts where s: "run_all cx_opening cx_start = Some s" "cx_run s = CxLoop tn c parts" "ar_sessionID s = ''t1''"
    using cx_sample_loop by auto
  from codex_turn_in_thread [OF cx_start_initial cx_runs(1) [OF s(1)] s(2), of "''t2''" empty_event] s cx_runs(1) [OF s(1)]
  show ?thesis by auto
qed

lemma codex_answers_stream_witness:
  "\<exists>s t resp rest. cx_step\<^sup>*\<^sup>* cx_start s \<and> length (ar_chans s) = 1 \<and> cx_step\<^sup>*\<^sup>* s t \<and> cx_results t = cx_results s @ (resp, None) # rest
     \<and> rs_Text resp = ''again'' \<and> 1 < length (ar_chans t) \<and> ch_sent (ar_chans t ! 1) \<noteq> []"
proof -
  from cx_sample_answer obtain s t where st: "run_all (cx_opening @ cx_closing) cx_start = Some s" "run_all cx_again s = Some t" "cx_run s = CxIdle"
    "length (ar_chans s) = 1" and r: "cx_results t = cx_results s @
        [((text_response ''again'')\<lparr>rs_RuntimeType := ''codex'', rs_RawOutput := ''again'', rs_SessionID := ''t1''\<rparr>, None)]"
    by (auto split: option.split_asm)
  note steps = cx_runs(2) [OF st(1)] cx_runs(3) [OF st(2)]
  have "1 < length (ar_chans t) \<and> ch_sent (ar_chans t ! 1) \<noteq> []"
    using codex_answers_stream [OF cx_start_initial steps(1) st(3) steps(2) r] by (auto simp: st(4))
  with steps st(4) r show ?thesis
    by (intro exI [of _ s] exI [of _ t] exI [of _ "(text_response ''again'')\<lparr>rs_RuntimeType := ''codex'', rs_RawOutput := ''again'', rs_SessionID := ''t1''\<rparr>"]
        exI [of _ "[]"]) (simp add: text_response_def)
qed

end
