(* ===== verification/OrchSteps.thy ===== *)
theory OrchSteps
  imports Orchestrator
begin

text \<open>
  The goroutines of the message orchestrator, interleaved.

  The inbound calls of \<open>HandleMessage\<close> are two steps, since the lock is dropped between
  \<open>admitMessage\<close> and \<open>ensureWorker\<close>; sending the pending message to a new worker is a third,
  which waits for room in the channel it captured.  The accept goroutine of a bot receives,
  accepts and hands over; the deliver goroutine runs turns.  Both end when they see the stop
  channel closed.  \<open>orch_step stops env\<close> includes \<open>StopBot\<close> when \<open>stops\<close> is true.  The body
  of \<open>accept\<close> and the part of \<open>executeAndDeliver\<close> after \<open>Send\<close> are one step each.
\<close>

section \<open>The step relation\<close>

datatype acceptPhase = AIdle | AGot inboundMessage | AHand deliveryItem

datatype deliverPhase = DIdle | DRun deliveryItem

record orchSys =
  sy_o :: orchestrator
  sy_now :: int
  sy_callers :: "(string \<times> nat) list"
  sy_sends :: "(nat \<times> nat \<times> inboundMessage) list"
  sy_accept :: "nat \<rightharpoonup> (string \<times> acceptPhase)"
  sy_deliver :: "nat \<rightharpoonup> deliverPhase"

definition sys_init :: "orchSys \<Rightarrow> bool" where
  "sys_init s \<longleftrightarrow> sy_o s = NewBotMessageOrchestrator \<and> sy_callers s = [] \<and> sy_sends s = [] \<and>
     sy_accept s = Map.empty \<and> sy_deliver s = Map.empty"

definition acceptGo :: "nat \<Rightarrow> (string \<times> acceptPhase) option \<Rightarrow> orchSys \<Rightarrow> orchSys" where
  "acceptGo h p s = s\<lparr>sy_accept := (sy_accept s)(h := p)\<rparr>"

definition deliverGo :: "nat \<Rightarrow> deliverPhase option \<Rightarrow> orchSys \<Rightarrow> orchSys" where
  "deliverGo h p s = s\<lparr>sy_deliver := (sy_deliver s)(h := p)\<rparr>"

inductive orch_step :: "bool \<Rightarrow> orchEnv \<Rightarrow> orchSys \<Rightarrow> orchSys \<Rightarrow> bool" for stops env where
  admit: "im_Text msg \<noteq> [] \<Longrightarrow>
    admitMessage (sy_now s) (attachContext ctx msg (sy_o s)) (sy_o s) = ((r, admitted, dup), x) \<Longrightarrow>
    orch_step stops env s (s\<lparr>sy_o := x, sy_callers := (case r of None \<Rightarrow> [] | Some h \<Rightarrow> [(im_BotID msg, h)]) @ sy_callers s\<rparr>)"
| ensureSkip: "sy_callers s = c1 @ (b, h) # c2 \<Longrightarrow> ensureWorker b h (sy_o s) = (None, x) \<Longrightarrow>
    orch_step stops env s (s\<lparr>sy_callers := c1 @ c2\<rparr>)"
| ensureSpawn: "sy_callers s = c1 @ (b, h) # c2 \<Longrightarrow> ensureWorker b h (sy_o s) = (Some pending, x) \<Longrightarrow>
    orch_step stops env s (acceptGo h (Some (b, AIdle)) (deliverGo h (Some DIdle)
      (s\<lparr>sy_o := x, sy_callers := c1 @ c2,
         sy_sends := (case pending of None \<Rightarrow> [] | Some m \<Rightarrow> [(h, or_nextChan (sy_o s), m)]) @ sy_sends s\<rparr>)))"
| sendPending: "sy_sends s = s1 @ (h, chan, m) # s2 \<Longrightarrow> bs_worker (or_state (sy_o s) h) = Some w \<Longrightarrow>
    bw_chan w = chan \<Longrightarrow> offer m w = Some w' \<Longrightarrow>
    orch_step stops env s (s\<lparr>sy_o := or_put h ((or_state (sy_o s) h)\<lparr>bs_worker := Some w'\<rparr>) (sy_o s),
                             sy_sends := s1 @ s2\<rparr>)"
| sendOld: "sy_sends s = s1 @ (h, chan, m) # s2 \<Longrightarrow> bs_worker (or_state (sy_o s) h) = Some w \<Longrightarrow>
    bw_chan w \<noteq> chan \<Longrightarrow> orch_step stops env s (s\<lparr>sy_sends := s1 @ s2\<rparr>)"
| recv: "sy_accept s h = Some (b, AIdle) \<Longrightarrow> worker_recv h (sy_o s) = (Some m, x) \<Longrightarrow>
    orch_step stops env s (acceptGo h (Some (b, AGot m)) (s\<lparr>sy_o := x\<rparr>))"
| acceptOne: "sy_accept s h = Some (b, AGot m) \<Longrightarrow> accept env (sy_now s) b m (sy_o s) = (item, effs, x) \<Longrightarrow>
    orch_step stops env s (acceptGo h (Some (b, case item of None \<Rightarrow> AIdle | Some i \<Rightarrow> AHand i)) (s\<lparr>sy_o := x\<rparr>))"
| handOff: "sy_accept s h = Some (b, AHand item) \<Longrightarrow> sy_deliver s h = Some DIdle \<Longrightarrow>
    orch_step stops env s (acceptGo h (Some (b, AIdle)) (deliverGo h (Some (DRun item)) s))"
| acceptStop: "sy_accept s h = Some (b, AHand item) \<Longrightarrow> isStopping h (sy_o s) \<Longrightarrow>
    orch_step stops env s (acceptGo h None (s\<lparr>sy_o := finishMessage (sy_now s) (di_msg item) False (sy_o s)\<rparr>))"
| acceptExit: "sy_accept s h = Some (b, AIdle) \<Longrightarrow> isStopping h (sy_o s) \<Longrightarrow>
    orch_step stops env s (acceptGo h None s)"
| deliver: "sy_deliver s h = Some (DRun item) \<Longrightarrow>
    executeAndDeliver env started (sy_now s) h item (sy_o s) = (effs, x) \<Longrightarrow>
    orch_step stops env s (deliverGo h (Some DIdle) (s\<lparr>sy_o := x\<rparr>))"
| deliverExit: "sy_deliver s h = Some DIdle \<Longrightarrow> isStopping h (sy_o s) \<Longrightarrow>
    orch_step stops env s (deliverGo h None s)"
| push: "orch_step stops env s s"
| stop: "stops \<Longrightarrow> orch_step stops env s (s\<lparr>sy_o := snd (orch_StopBot b (sy_o s))\<rparr>)"
| elapse: "t \<ge> sy_now s \<Longrightarrow> orch_step stops env s (s\<lparr>sy_now := t\<rparr>)"

lemma go_simps [simp]:
  "sy_o (acceptGo h p s) = sy_o s" "sy_now (acceptGo h p s) = sy_now s"
  "sy_callers (acceptGo h p s) = sy_callers s" "sy_sends (acceptGo h p s) = sy_sends s"
  "sy_accept (acceptGo h p s) = (sy_accept s)(h := p)" "sy_deliver (acceptGo h p s) = sy_deliver s"
  "sy_o (deliverGo h q s) = sy_o s" "sy_now (deliverGo h q s) = sy_now s"
  "sy_callers (deliverGo h q s) = sy_callers s" "sy_sends (deliverGo h q s) = sy_sends s"
  "sy_accept (deliverGo h q s) = sy_accept s" "sy_deliver (deliverGo h q s) = (sy_deliver s)(h := q)"
  by (simp_all add: acceptGo_def deliverGo_def)

section \<open>What the calls leave alone\<close>

text \<open>The messages a state holds, and the shape of the heap.\<close>

definition held :: "botState \<Rightarrow> inboundMessage list" where
  "held s = (case bs_pending s of None \<Rightarrow> [] | Some m \<Rightarrow> [m])
     @ (case bs_worker s of None \<Rightarrow> [] | Some w \<Rightarrow> bw_queue w)"

definition same_shape :: "orchestrator \<Rightarrow> orchestrator \<Rightarrow> bool" where
  "same_shape x y \<longleftrightarrow> or_bots y = or_bots x \<and> length (or_heap y) = length (or_heap x) \<and>
     (\<forall>h < length (or_heap x).
        (bs_worker (or_state y h) = None) = (bs_worker (or_state x h) = None)
        \<and> bs_stopCh (or_state y h) = bs_stopCh (or_state x h))"

definition same_held :: "orchestrator \<Rightarrow> orchestrator \<Rightarrow> bool" where
  "same_held x y \<longleftrightarrow> (\<forall>h < length (or_heap x). held (or_state y h) = held (or_state x h))"

definition ptrs_ok :: "orchestrator \<Rightarrow> bool" where
  "ptrs_ok x \<longleftrightarrow> (\<forall>b h. or_bots x b = Some h \<longrightarrow> h < length (or_heap x)) \<and>
     (\<forall>b c h. or_bots x b = Some h \<longrightarrow> or_bots x c = Some h \<longrightarrow> b = c)"

lemma ptrs_okD: "ptrs_ok x \<Longrightarrow> or_bots x b = Some h \<Longrightarrow> h < length (or_heap x)"
  "ptrs_ok x \<Longrightarrow> or_bots x b = Some h \<Longrightarrow> or_bots x c = Some h \<Longrightarrow> b = c"
  unfolding ptrs_ok_def by blast+

lemma same_shape_refl [simp]: "same_shape x x" and same_held_refl [simp]: "same_held x x"
  by (simp_all add: same_shape_def same_held_def)

lemma same_shape_trans: "same_shape x y \<Longrightarrow> same_shape y z \<Longrightarrow> same_shape x z"
  by (simp add: same_shape_def)

lemma same_held_trans: "same_shape x y \<Longrightarrow> same_held x y \<Longrightarrow> same_held y z \<Longrightarrow> same_held x z"
  by (simp add: same_held_def same_shape_def)

lemma same_shape_ptrs: "same_shape x y \<Longrightarrow> ptrs_ok x \<Longrightarrow> ptrs_ok y"
  by (simp add: same_shape_def ptrs_ok_def)

lemma same_put:
  assumes "h < length (or_heap x)" "(bs_worker s = None) = (bs_worker (or_state x h) = None)"
    "bs_stopCh s = bs_stopCh (or_state x h)"
  shows "same_shape x (or_put h s x)" and "held s = held (or_state x h) \<Longrightarrow> same_held x (or_put h s x)"
  using assms by (auto simp: same_shape_def same_held_def)

lemma same_seen [simp]: "same_shape x (y\<lparr>or_seen := f\<rparr>) = same_shape x y" "same_held x (y\<lparr>or_seen := f\<rparr>) = same_held x y"
  by (simp_all add: same_shape_def same_held_def)

lemma same_mark_seen [simp]:
  "same_shape x (mark_seen now m y) = same_shape x y" "same_held x (mark_seen now m y) = same_held x y"
  by (simp_all add: same_shape_def same_held_def)

lemma markMessageStarted_same:
  assumes "ptrs_ok x"
  shows "same_shape x (markMessageStarted msg x)" "same_held x (markMessageStarted msg x)"
  using ptrs_okD [OF assms]
  by (auto simp: markMessageStarted_def held_def split: option.splits intro!: same_put)

lemma rememberReplyTarget_same:
  assumes "ptrs_ok x"
  shows "same_shape x (rememberReplyTarget msg x)" "same_held x (rememberReplyTarget msg x)"
  using ptrs_okD [OF assms]
  by (auto simp: rememberReplyTarget_def Let_def held_def split: option.splits intro!: same_put)

lemma resizeWorkerQueue_same:
  assumes "ptrs_ok x"
  shows "same_shape x (resizeWorkerQueue b n x)" "same_held x (resizeWorkerQueue b n x)"
proof -
  have step: "same_shape x (or_put h s (x\<lparr>or_nextChan := k\<rparr>)) \<and> (held s = held (or_state x h) \<longrightarrow> same_held x (or_put h s (x\<lparr>or_nextChan := k\<rparr>)))"
    if "h < length (or_heap x)" "(bs_worker s = None) = (bs_worker (or_state x h) = None)"
      "bs_stopCh s = bs_stopCh (or_state x h)" for h s k
    using that by (auto simp: same_shape_def same_held_def)
  show "same_shape x (resizeWorkerQueue b n x)" "same_held x (resizeWorkerQueue b n x)"
    using ptrs_okD [OF assms]
    by (auto simp: resizeWorkerQueue_def Let_def held_def split: option.splits
        intro!: same_put step [THEN conjunct1] step [THEN conjunct2, THEN mp])
qed

lemma dec_active_same:
  assumes "h < length (or_heap x)"
  shows "same_shape x (dec_active h x)" "same_held x (dec_active h x)"
  using assms by (auto simp: dec_active_def held_def intro!: same_put)

lemma finishMessage_same:
  assumes "ptrs_ok x"
  shows "same_shape x (finishMessage now msg ok x)" "same_held x (finishMessage now msg ok x)"
  using ptrs_okD [OF assms]
  by (auto simp: finishMessage_def Let_def dec_active_same split: option.splits)

lemma accept_result:
  assumes "accept env now b msg x = (item, effs, y)"
  shows "item = None \<and> y = finishMessage now msg False (rememberReplyTarget msg (markMessageStarted msg x))
    \<or> (\<exists>i n. item = Some i \<and> di_msg i = msg \<and> y = resizeWorkerQueue b n (rememberReplyTarget msg (markMessageStarted msg x)))"
proof (cases "en_resolve env (processingContext now (im_Ctx msg) 0 (rememberReplyTarget msg (markMessageStarted msg x))) b")
  case (Inl e)
  with assms show ?thesis by (simp add: accept_def Let_def)
next
  case (Inr sp)
  with assms show ?thesis by (auto simp: accept_def Let_def split: prod.splits)
qed

lemma accept_same:
  assumes "ptrs_ok x" "accept env now b msg x = (item, effs, y)"
  shows "same_shape x y" "same_held x y"
proof -
  let ?o1 = "rememberReplyTarget msg (markMessageStarted msg x)"
  have p1: "ptrs_ok (markMessageStarted msg x)"
    by (rule same_shape_ptrs [OF markMessageStarted_same(1) assms(1)]) (rule assms(1))
  have s1: "same_shape x ?o1" "same_held x ?o1"
    using markMessageStarted_same [OF assms(1), of msg] rememberReplyTarget_same [OF p1, of msg]
    by (blast intro: same_shape_trans same_held_trans)+
  have p2: "ptrs_ok ?o1" by (rule same_shape_ptrs [OF s1(1) assms(1)])
  have "y = finishMessage now msg False ?o1 \<or> (\<exists>n. y = resizeWorkerQueue b n ?o1)"
    using accept_result [OF assms(2)] by blast
  then show "same_shape x y" "same_held x y"
    using s1 finishMessage_same [OF p2, of now msg False] resizeWorkerQueue_same [OF p2, of b]
    by (blast intro: same_shape_trans same_held_trans)+
qed

lemma executeAndDeliver_result:
  "executeAndDeliver env st now h item x = (effs, y) \<Longrightarrow> \<exists>ok. y = finishMessage now (di_msg item) ok x"
  by (auto simp: executeAndDeliver_def Let_def split: prod.splits option.splits if_splits)

lemma executeAndDeliver_same:
  assumes "ptrs_ok x" "executeAndDeliver env st now h item x = (effs, y)"
  shows "same_shape x y" "same_held x y"
  using executeAndDeliver_result [OF assms(2)] finishMessage_same [OF assms(1)] by blast+

section \<open>Every goroutine can be stopped\<close>

definition sys_ptrs :: "orchSys \<Rightarrow> bool" where
  "sys_ptrs s \<longleftrightarrow> ptrs_ok (sy_o s) \<and>
     (\<forall>h < length (or_heap (sy_o s)).
        (bs_worker (or_state (sy_o s) h) = None) = (bs_stopCh (or_state (sy_o s) h) = None)) \<and>
     (\<forall>b h. or_bots (sy_o s) b = Some h \<longrightarrow> \<not> isStopping h (sy_o s)) \<and>
     (\<forall>h. sy_accept s h \<noteq> None \<or> sy_deliver s h \<noteq> None \<longrightarrow>
        h < length (or_heap (sy_o s)) \<and> bs_worker (or_state (sy_o s) h) \<noteq> None
        \<and> ((\<exists>b. or_bots (sy_o s) b = Some h) \<or> isStopping h (sy_o s))) \<and>
     (\<forall>(h, _, _) \<in> set (sy_sends s). h < length (or_heap (sy_o s)) \<and> bs_worker (or_state (sy_o s) h) \<noteq> None)"

lemma sys_ptrsD:
  assumes "sys_ptrs s"
  shows "ptrs_ok (sy_o s)"
    "h < length (or_heap (sy_o s)) \<Longrightarrow> (bs_worker (or_state (sy_o s) h) = None) = (bs_stopCh (or_state (sy_o s) h) = None)"
    "or_bots (sy_o s) b = Some h \<Longrightarrow> \<not> isStopping h (sy_o s)"
    "sy_accept s h = Some a \<or> sy_deliver s h = Some d \<Longrightarrow> h < length (or_heap (sy_o s))
      \<and> bs_worker (or_state (sy_o s) h) \<noteq> None \<and> ((\<exists>b. or_bots (sy_o s) b = Some h) \<or> isStopping h (sy_o s))"
    "(h, c, m) \<in> set (sy_sends s) \<Longrightarrow> h < length (or_heap (sy_o s)) \<and> bs_worker (or_state (sy_o s) h) \<noteq> None"
  using assms unfolding sys_ptrs_def by (blast | fastforce)+

lemma sys_ptrsI:
  assumes "ptrs_ok (sy_o s)"
    "\<And>h. h < length (or_heap (sy_o s)) \<Longrightarrow> (bs_worker (or_state (sy_o s) h) = None) = (bs_stopCh (or_state (sy_o s) h) = None)"
    "\<And>b h. or_bots (sy_o s) b = Some h \<Longrightarrow> \<not> isStopping h (sy_o s)"
    "\<And>h. sy_accept s h \<noteq> None \<or> sy_deliver s h \<noteq> None \<Longrightarrow> h < length (or_heap (sy_o s))
      \<and> bs_worker (or_state (sy_o s) h) \<noteq> None \<and> ((\<exists>b. or_bots (sy_o s) b = Some h) \<or> isStopping h (sy_o s))"
    "\<And>h c m. (h, c, m) \<in> set (sy_sends s) \<Longrightarrow> h < length (or_heap (sy_o s)) \<and> bs_worker (or_state (sy_o s) h) \<noteq> None"
  shows "sys_ptrs s"
proof -
  have "\<forall>(h, c, m) \<in> set (sy_sends s). h < length (or_heap (sy_o s)) \<and> bs_worker (or_state (sy_o s) h) \<noteq> None"
    using assms(5) by blast
  with assms(1-4) show ?thesis unfolding sys_ptrs_def by blast
qed

lemma sys_ptrs_same:
  assumes s: "sys_ptrs s" and sh: "same_shape (sy_o s) (sy_o s')"
    and a: "\<And>h. sy_accept s' h \<noteq> None \<or> sy_deliver s' h \<noteq> None \<Longrightarrow> sy_accept s h \<noteq> None \<or> sy_deliver s h \<noteq> None"
    and q: "set (sy_sends s') \<subseteq> set (sy_sends s)"
  shows "sys_ptrs s'"
proof -
  have eq: "or_bots (sy_o s') = or_bots (sy_o s)" "length (or_heap (sy_o s')) = length (or_heap (sy_o s))"
    using sh by (simp_all add: same_shape_def)
  have st: "h < length (or_heap (sy_o s)) \<Longrightarrow> (bs_worker (or_state (sy_o s') h) = None) = (bs_worker (or_state (sy_o s) h) = None)
      \<and> bs_stopCh (or_state (sy_o s') h) = bs_stopCh (or_state (sy_o s) h) \<and> isStopping h (sy_o s') = isStopping h (sy_o s)" for h
    using sh by (simp add: same_shape_def isStopping_def)
  note ptr = ptrs_okD(1) [OF sys_ptrsD(1) [OF s]]
  show ?thesis
  proof (rule sys_ptrsI, unfold eq)
    show "ptrs_ok (sy_o s')" by (rule same_shape_ptrs [OF sh sys_ptrsD(1) [OF s]])
    show "(bs_worker (or_state (sy_o s') h) = None) = (bs_stopCh (or_state (sy_o s') h) = None)"
      if "h < length (or_heap (sy_o s))" for h
      using st [OF that] sys_ptrsD(2) [OF s that] by simp
    show "\<not> isStopping h (sy_o s')" if "or_bots (sy_o s) b = Some h" for b h
      using st [OF ptr [OF that]] sys_ptrsD(3) [OF s that] by simp
    show "h < length (or_heap (sy_o s)) \<and> bs_worker (or_state (sy_o s') h) \<noteq> None
        \<and> ((\<exists>b. or_bots (sy_o s) b = Some h) \<or> isStopping h (sy_o s'))"
      if running: "sy_accept s' h \<noteq> None \<or> sy_deliver s' h \<noteq> None" for h
    proof -
      obtain x y where "sy_accept s h = Some x \<or> sy_deliver s h = Some y" using a [OF running] by blast
      from sys_ptrsD(4) [OF s this] st [of h] show ?thesis by auto
    qed
    show "h < length (or_heap (sy_o s)) \<and> bs_worker (or_state (sy_o s') h) \<noteq> None"
      if "(h, c, m) \<in> set (sy_sends s')" for h c m
      using sys_ptrsD(5) [OF s subsetD [OF q that]] st [of h] by auto
  qed
qed

lemma admit_base_shape:
  assumes "ptrs_ok x"
  shows "ptrs_ok (admit_base now b x)" "length (or_heap x) \<le> length (or_heap (admit_base now b x))"
    "base_ptr b x < length (or_heap (admit_base now b x))"
    "h < length (or_heap x) \<Longrightarrow> or_state (admit_base now b x) h = or_state x h"
    "h < length (or_heap (admit_base now b x)) \<Longrightarrow> \<not> h < length (or_heap x) \<Longrightarrow>
       or_state (admit_base now b x) h = empty_botState"
    "or_bots x c = Some h \<Longrightarrow> or_bots (admit_base now b x) c = Some h"
    "or_bots (admit_base now b x) c = Some h \<Longrightarrow> or_bots x c = Some h \<or> h = length (or_heap x) \<and> or_bots x b = None \<and> c = b"
  using assms
  by (auto simp: ptrs_ok_def admit_base_simps base_ptr_def or_state_def nth_append less_Suc_eq fun_upd_def
      split: option.splits if_splits)

text \<open>Apart from the table of seen messages, admitting a message adds a state or changes one.\<close>

lemma admitMessage_shape:
  assumes "ptrs_ok x" "admitMessage now msg x = (r, y)"
  shows "same_shape (admit_base now (im_BotID msg) x) y"
  using admit_base_shape(3) [OF assms(1), of "im_BotID msg" now]
proof (cases rule: admitMessage_cases [of now msg x])
  case duplicate with assms(2) show ?thesis by simp
next
  case pending
  with assms(2) admit_base_shape(3) [OF assms(1), of "im_BotID msg" now] show ?thesis
    by (auto intro!: same_put(1))
next
  case (queued w w')
  with assms(2) admit_base_shape(3) [OF assms(1), of "im_BotID msg" now] show ?thesis
    by (auto intro!: same_put(1))
next
  case busy with assms(2) show ?thesis by simp
qed

lemma sys_ptrs_admit:
  assumes s: "sys_ptrs s" and a: "admitMessage now msg (sy_o s) = (r, x)"
  shows "sys_ptrs (s\<lparr>sy_o := x, sy_callers := cs\<rparr>)"
proof -
  let ?y = "admit_base now (im_BotID msg) (sy_o s)"
  note p = sys_ptrsD(1) [OF s]
  have "sys_ptrs (s\<lparr>sy_o := ?y\<rparr>)"
  proof (rule sys_ptrsI; simp)
    show "ptrs_ok ?y" by (rule admit_base_shape(1) [OF p])
    show "(bs_worker (or_state ?y h) = None) = (bs_stopCh (or_state ?y h) = None)" if "h < length (or_heap ?y)" for h
      using admit_base_shape(4,5) [OF p] sys_ptrsD(2) [OF s] that
      by (cases "h < length (or_heap (sy_o s))") (simp_all add: empty_botState_def)
    show "\<not> isStopping h ?y" if "or_bots ?y b = Some h" for b h
    proof (cases "or_bots (sy_o s) b = Some h")
      case True
      then show ?thesis using sys_ptrsD(3) [OF s True] admit_base_shape(4) [OF p ptrs_okD(1) [OF p True]]
        by (simp add: isStopping_def)
    next
      case False
      then have "h = length (or_heap (sy_o s))" using admit_base_shape(7) [OF p that] by blast
      then show ?thesis using admit_base_shape(5) [OF p ptrs_okD(1) [OF admit_base_shape(1) [OF p] that]]
        by (simp add: isStopping_def empty_botState_def)
    qed
    show "h < length (or_heap ?y) \<and> (\<exists>w. bs_worker (or_state ?y h) = Some w)
        \<and> ((\<exists>b. or_bots ?y b = Some h) \<or> isStopping h ?y)"
      if running: "(\<exists>a b. sy_accept s h = Some (a, b)) \<or> (\<exists>d. sy_deliver s h = Some d)" for h
    proof -
      obtain u v where "sy_accept s h = Some u \<or> sy_deliver s h = Some v" using running by blast
      from sys_ptrsD(4) [OF s this] have old: "h < length (or_heap (sy_o s))"
        "bs_worker (or_state (sy_o s) h) \<noteq> None" "(\<exists>b. or_bots (sy_o s) b = Some h) \<or> isStopping h (sy_o s)"
        by simp_all
      have "(\<exists>b. or_bots ?y b = Some h) \<or> isStopping h ?y"
        using old(3) admit_base_shape(6) [OF p] admit_base_shape(4) [OF p old(1), of now "im_BotID msg"]
        unfolding isStopping_def by metis
      then show ?thesis
        using old admit_base_shape(2) [OF p, of now "im_BotID msg"] admit_base_shape(4) [OF p old(1)] by auto
    qed
    show "h < length (or_heap ?y) \<and> (\<exists>w. bs_worker (or_state ?y h) = Some w)" if "(h, c, m) \<in> set (sy_sends s)" for h c m
      using sys_ptrsD(5) [OF s that] admit_base_shape(2) [OF p, of now "im_BotID msg"] admit_base_shape(4) [OF p] by auto
  qed
  then show ?thesis
    by (rule sys_ptrs_same) (simp_all add: admitMessage_shape [OF p a])
qed

lemma ensureWorker_cases:
  assumes "ensureWorker b h x = (Some pending, y)"
  shows "or_bots x b = Some h" "bs_worker (or_state x h) = None" "pending = bs_pending (or_state x h)"
    "y = or_put h ((or_state x h)\<lparr>bs_pending := None,
           bs_worker := Some \<lparr>bw_chan = or_nextChan x, bw_cap = nat defaultQueueSize, bw_queue = []\<rparr>,
           bs_stopCh := Some False\<rparr>) (x\<lparr>or_nextChan := or_nextChan x + 1\<rparr>)"
  using assms by (auto simp: ensureWorker_def split: if_splits)

lemma or_heap_nextChan [simp]: "or_bots (x\<lparr>or_nextChan := n\<rparr>) = or_bots x" "or_heap (x\<lparr>or_nextChan := n\<rparr>) = or_heap x"
  "or_seen (x\<lparr>or_nextChan := n\<rparr>) = or_seen x"
  by simp_all

lemma sys_ptrs_spawn:
  assumes s: "sys_ptrs s" and e: "ensureWorker b h (sy_o s) = (Some pending, x)"
  shows "sys_ptrs (acceptGo h (Some (b, AIdle)) (deliverGo h (Some DIdle)
      (s\<lparr>sy_o := x, sy_callers := cs,
         sy_sends := (case pending of None \<Rightarrow> [] | Some m \<Rightarrow> [(h, n, m)]) @ sy_sends s\<rparr>)))"
proof -
  note [simp] = ensureWorker_cases(4) [OF e]
  note cur = ensureWorker_cases(1) [OF e]
  have lt: "h < length (or_heap (sy_o s))" by (rule ptrs_okD(1) [OF sys_ptrsD(1) [OF s] cur])
  let ?s = "acceptGo h (Some (b, AIdle)) (deliverGo h (Some DIdle)
      (s\<lparr>sy_o := x, sy_callers := cs,
         sy_sends := (case pending of None \<Rightarrow> [] | Some m \<Rightarrow> [(h, n, m)]) @ sy_sends s\<rparr>))"
  have heap: "length (or_heap x) = length (or_heap (sy_o s))" "or_bots x = or_bots (sy_o s)" by simp_all
  have st: "or_state x k = (if k = h then (or_state (sy_o s) h)\<lparr>bs_pending := None,
      bs_worker := Some \<lparr>bw_chan = or_nextChan (sy_o s), bw_cap = nat defaultQueueSize, bw_queue = []\<rparr>,
      bs_stopCh := Some False\<rparr> else or_state (sy_o s) k)" for k
    using lt by simp
  show ?thesis
  proof (rule sys_ptrsI)
    show "ptrs_ok (sy_o ?s)" using sys_ptrsD(1) [OF s] by (simp add: ptrs_ok_def)
    show "(bs_worker (or_state (sy_o ?s) k) = None) = (bs_stopCh (or_state (sy_o ?s) k) = None)"
      if "k < length (or_heap (sy_o ?s))" for k
      using sys_ptrsD(2) [OF s, of k] that lt by simp
    show "\<not> isStopping k (sy_o ?s)" if "or_bots (sy_o ?s) c = Some k" for c k
      using sys_ptrsD(3) [OF s, of c k] that lt by (simp add: isStopping_def)
    show "k < length (or_heap (sy_o ?s)) \<and> bs_worker (or_state (sy_o ?s) k) \<noteq> None
        \<and> ((\<exists>b. or_bots (sy_o ?s) b = Some k) \<or> isStopping k (sy_o ?s))"
      if running: "sy_accept ?s k \<noteq> None \<or> sy_deliver ?s k \<noteq> None" for k
    proof (cases "k = h")
      case True
      with lt cur show ?thesis by auto
    next
      case False
      then obtain u v where "sy_accept s k = Some u \<or> sy_deliver s k = Some v" using running by auto
      from sys_ptrsD(4) [OF s this] False lt show ?thesis by (simp add: isStopping_def)
    qed
    show "k < length (or_heap (sy_o ?s)) \<and> bs_worker (or_state (sy_o ?s) k) \<noteq> None"
      if "(k, c, m) \<in> set (sy_sends ?s)" for k c m
    proof (cases "k = h")
      case True
      with lt show ?thesis by simp
    next
      case False
      then have "(k, c, m) \<in> set (sy_sends s)" using that by (auto split: option.splits)
      from sys_ptrsD(5) [OF s this] False lt show ?thesis by simp
    qed
  qed
qed

lemma sys_ptrs_stop:
  assumes s: "sys_ptrs s"
  shows "sys_ptrs (s\<lparr>sy_o := snd (orch_StopBot b (sy_o s))\<rparr>)"
proof (cases "or_bots (sy_o s) b")
  case None
  with s show ?thesis by (simp add: orch_StopBot_def)
next
  case (Some h)
  note p = sys_ptrsD(1) [OF s]
  have lt: "h < length (or_heap (sy_o s))" by (rule ptrs_okD(1) [OF p Some])
  let ?y = "snd (orch_StopBot b (sy_o s))"
  have len: "length (or_heap ?y) = length (or_heap (sy_o s))"
    by (simp add: orch_StopBot_def Some Let_def)
  have bots: "or_bots ?y = (or_bots (sy_o s))(b := None)"
    by (simp add: orch_StopBot_def Some Let_def)
  have st: "or_state ?y k = (if k = h \<and> bs_stopCh (or_state (sy_o s) h) \<noteq> None
      then (or_state (sy_o s) h)\<lparr>bs_stopCh := Some True\<rparr> else or_state (sy_o s) k)" for k
    using lt by (simp add: orch_StopBot_def Some Let_def)
  show ?thesis
  proof (rule sys_ptrsI; simp add: len)
    show "ptrs_ok ?y" using p by (auto simp: ptrs_ok_def bots len split: if_splits)
    show "(bs_worker (or_state ?y k) = None) = (bs_stopCh (or_state ?y k) = None)"
      if "k < length (or_heap (sy_o s))" for k
      using sys_ptrsD(2) [OF s that] by (auto simp: st)
    show "\<not> isStopping k ?y" if "or_bots ?y c = Some k" for c k
    proof -
      have "c \<noteq> b" "or_bots (sy_o s) c = Some k" using that by (auto simp: bots split: if_splits)
      moreover have "k \<noteq> h" using ptrs_okD(2) [OF p Some, of c] calculation by auto
      ultimately show ?thesis using sys_ptrsD(3) [OF s] by (auto simp: isStopping_def st)
    qed
    show "k < length (or_heap (sy_o s)) \<and> (\<exists>w. bs_worker (or_state ?y k) = Some w)
        \<and> ((\<exists>c. or_bots ?y c = Some k) \<or> isStopping k ?y)"
      if running: "(\<exists>a b. sy_accept s k = Some (a, b)) \<or> (\<exists>d. sy_deliver s k = Some d)" for k
    proof -
      obtain u v where "sy_accept s k = Some u \<or> sy_deliver s k = Some v" using running by blast
      from sys_ptrsD(4) [OF s this] have old: "k < length (or_heap (sy_o s))"
        "bs_worker (or_state (sy_o s) k) \<noteq> None" "(\<exists>c. or_bots (sy_o s) c = Some k) \<or> isStopping k (sy_o s)"
        by simp_all
      show ?thesis
      proof (cases "k = h")
        case True
        then have "bs_stopCh (or_state (sy_o s) h) \<noteq> None" using old(1,2) sys_ptrsD(2) [OF s, of k] by auto
        with True have "isStopping k ?y" by (simp add: isStopping_def st)
        then show ?thesis using old by (auto simp: st)
      next
        case False
        then have "(\<exists>c. or_bots ?y c = Some k) \<or> isStopping k ?y"
          using old(3) Some unfolding isStopping_def by (simp add: bots st) (metis option.inject)
        then show ?thesis using old False by (auto simp: st)
      qed
    qed
    show "k < length (or_heap (sy_o s)) \<and> (\<exists>w. bs_worker (or_state ?y k) = Some w)"
      if "(k, c, m) \<in> set (sy_sends s)" for k c m
      using sys_ptrsD(5) [OF s that] by (auto simp: st)
  qed
qed

lemma worker_recv_Some:
  assumes "worker_recv h x = (Some m, y)"
  obtains w q where "bs_worker (or_state x h) = Some w" "bw_queue w = m # q"
    "y = or_put h ((or_state x h)\<lparr>bs_worker := Some (w\<lparr>bw_queue := q\<rparr>)\<rparr>) x"
  using assms by (auto simp: worker_recv_def split: option.splits list.splits)

lemma orch_step_ptrs: "orch_step stops env s s' \<Longrightarrow> sys_ptrs s \<Longrightarrow> sys_ptrs s'"
proof (induction rule: orch_step.induct)
  case (admit msg s ctx r admitted dup x)
  show ?case by (rule sys_ptrs_admit [OF admit(3,2)])
next
  case (ensureSkip s c1 b h c2 x)
  show ?case by (rule sys_ptrs_same [OF ensureSkip(3)]) simp_all
next
  case (ensureSpawn s c1 b h c2 pending x)
  show ?case by (rule sys_ptrs_spawn [OF ensureSpawn(3,2)])
next
  case (sendPending s s1 h chan m s2 w w')
  have "h < length (or_heap (sy_o s))" using sys_ptrsD(5) [OF sendPending(5), of h chan m] sendPending(1) by simp
  with sendPending show ?case by (intro sys_ptrs_same [OF sendPending(5)]) (auto intro!: same_put(1))
next
  case (sendOld s s1 h chan m s2 w)
  show ?case by (rule sys_ptrs_same [OF sendOld(4)]) (auto simp: sendOld(1))
next
  case (recv s h b m x)
  have lt: "h < length (or_heap (sy_o s))" using sys_ptrsD(4) [OF recv(3)] recv(1) by blast
  from recv(2) obtain w q where "bs_worker (or_state (sy_o s) h) = Some w"
    "x = or_put h ((or_state (sy_o s) h)\<lparr>bs_worker := Some (w\<lparr>bw_queue := q\<rparr>)\<rparr>) (sy_o s)" by (rule worker_recv_Some)
  with recv lt show ?case by (intro sys_ptrs_same [OF recv(3)]) (auto intro!: same_put(1) split: if_splits)
next
  case (acceptOne s h b m item effs x)
  have "same_shape (sy_o s) x" by (rule accept_same(1) [OF sys_ptrsD(1) [OF acceptOne(3)] acceptOne(2)])
  with acceptOne show ?case by (intro sys_ptrs_same [OF acceptOne(3)]) (auto split: if_splits)
next
  case (handOff s h b item)
  then show ?case by (intro sys_ptrs_same [OF handOff(3)]) (auto split: if_splits)
next
  case (acceptStop s h b item)
  then show ?case
    using finishMessage_same(1) [OF sys_ptrsD(1) [OF acceptStop(3)]]
    by (intro sys_ptrs_same [OF acceptStop(3)]) (auto split: if_splits)
next
  case (acceptExit s h b)
  then show ?case by (intro sys_ptrs_same [OF acceptExit(3)]) (auto split: if_splits)
next
  case (deliver s h item started effs x)
  have "same_shape (sy_o s) x" by (rule executeAndDeliver_same(1) [OF sys_ptrsD(1) [OF deliver(3)] deliver(2)])
  with deliver show ?case by (intro sys_ptrs_same [OF deliver(3)]) (auto split: if_splits)
next
  case (deliverExit s h)
  then show ?case by (intro sys_ptrs_same [OF deliverExit(3)]) (auto split: if_splits)
next
  case (push s)
  then show ?case .
next
  case (stop s b)
  show ?case by (rule sys_ptrs_stop [OF stop(2)])
next
  case (elapse s t)
  show ?case by (rule sys_ptrs_same [OF elapse(2)]) simp_all
qed

lemma sys_init_ptrs: "sys_init s \<Longrightarrow> sys_ptrs s"
  by (rule sys_ptrsI) (auto simp: sys_init_def NewBotMessageOrchestrator_def ptrs_ok_def)

interpretation orch: transition_system sys_init "orch_step stops env" sys_ptrs for stops env
  by unfold_locales (erule sys_init_ptrs, erule orch_step_ptrs)

text \<open>
  C2. No goroutine is out of reach: in every reachable state, also when bots are stopped
  between \<open>admitMessage\<close> and \<open>ensureWorker\<close> or in the middle of a turn, an accept or deliver
  goroutine that runs belongs to the state some bot has now, so that \<open>StopBot\<close> reaches it,
  or already sees its stop channel closed; and no bot's current state is a stopped one.
\<close>

theorem orch_goroutines_stoppable:
  assumes "sys_init s0" "(orch_step stops env)\<^sup>*\<^sup>* s0 s"
  shows "(sy_accept s h \<noteq> None \<or> sy_deliver s h \<noteq> None \<longrightarrow>
      (\<exists>b. or_bots (sy_o s) b = Some h) \<or> isStopping h (sy_o s))
    \<and> (\<forall>b. or_bots (sy_o s) b = Some h \<longrightarrow> \<not> isStopping h (sy_o s))"
  using orch.reachable_inv [OF assms] unfolding sys_ptrs_def by blast

section \<open>A message is in flight at most once\<close>

text \<open>Where a message can be: pending, queued, with the accept or deliver goroutine, or being sent.\<close>

definition accept_msgs :: "(string \<times> acceptPhase) option \<Rightarrow> inboundMessage list" where
  "accept_msgs p = (case p of Some (_, AGot m) \<Rightarrow> [m] | Some (_, AHand i) \<Rightarrow> [di_msg i] | _ \<Rightarrow> [])"

definition deliver_msgs :: "deliverPhase option \<Rightarrow> inboundMessage list" where
  "deliver_msgs p = (case p of Some (DRun i) \<Rightarrow> [di_msg i] | _ \<Rightarrow> [])"

definition send_msgs :: "nat \<Rightarrow> (nat \<times> nat \<times> inboundMessage) list \<Rightarrow> inboundMessage list" where
  "send_msgs h qs = map (\<lambda>(_, _, m). m) (filter (\<lambda>(k, _, _). k = h) qs)"

definition msgs_at :: "orchSys \<Rightarrow> nat \<Rightarrow> inboundMessage list" where
  "msgs_at s h = held (or_state (sy_o s) h) @ accept_msgs (sy_accept s h) @ deliver_msgs (sy_deliver s h)
     @ send_msgs h (sy_sends s)"

definition cnt :: "string \<Rightarrow> inboundMessage list \<Rightarrow> nat" where
  "cnt k ms = length (filter (\<lambda>m. im_MessageID m \<noteq> [] \<and> seen_key m = k) ms)"

definition copies :: "string \<Rightarrow> orchSys \<Rightarrow> nat" where
  "copies k s = (\<Sum>h < length (or_heap (sy_o s)). cnt k (msgs_at s h))"

definition in_progress :: "string \<Rightarrow> orchestrator \<Rightarrow> bool" where
  "in_progress k x = (case or_seen x k of None \<Rightarrow> False | Some st \<Rightarrow> sm_inProgress st)"

definition once :: "orchSys \<Rightarrow> bool" where
  "once s \<longleftrightarrow> (\<forall>k. copies k s \<le> 1 \<and> (copies k s = 1 \<longrightarrow> in_progress k (sy_o s)))"

lemma cnt_simps [simp]:
  "cnt k [] = 0" "cnt k (xs @ ys) = cnt k xs + cnt k ys"
  "cnt k (m # ms) = (if im_MessageID m \<noteq> [] \<and> seen_key m = k then 1 else 0) + cnt k ms"
  by (simp_all add: cnt_def)

lemma phase_msgs_simps [simp]:
  "accept_msgs None = []" "accept_msgs (Some (b, AIdle)) = []" "accept_msgs (Some (b, AGot m)) = [m]"
  "accept_msgs (Some (b, AHand i)) = [di_msg i]" "deliver_msgs None = []" "deliver_msgs (Some DIdle) = []"
  "deliver_msgs (Some (DRun i)) = [di_msg i]" "send_msgs h [] = []"
  "send_msgs h ((k, c, m) # qs) = (if k = h then [m] else []) @ send_msgs h qs"
  "send_msgs h (qs @ rs) = send_msgs h qs @ send_msgs h rs"
  by (simp_all add: accept_msgs_def deliver_msgs_def send_msgs_def)

text \<open>A step that changes what one state holds changes the number of copies by the difference there.\<close>

lemma copies_change:
  assumes "h < length (or_heap (sy_o s))" "length (or_heap (sy_o s')) = length (or_heap (sy_o s))"
    and "\<And>j. j < length (or_heap (sy_o s)) \<Longrightarrow> j \<noteq> h \<Longrightarrow> cnt k (msgs_at s' j) = cnt k (msgs_at s j)"
  shows "copies k s' + cnt k (msgs_at s h) = copies k s + cnt k (msgs_at s' h)"
proof -
  let ?A = "{..<length (or_heap (sy_o s))}"
  have mem: "finite ?A" "h \<in> ?A" using assms(1) by simp_all
  have "sum (\<lambda>j. cnt k (msgs_at s' j)) (?A - {h}) = sum (\<lambda>j. cnt k (msgs_at s j)) (?A - {h})"
    using assms(3) by (intro sum.cong) auto
  then show ?thesis
    unfolding copies_def assms(2) sum.remove [OF mem] by simp
qed

lemma copies_same:
  assumes "length (or_heap (sy_o s')) = length (or_heap (sy_o s))"
    and "\<And>j. j < length (or_heap (sy_o s)) \<Longrightarrow> cnt k (msgs_at s' j) = cnt k (msgs_at s j)"
  shows "copies k s' = copies k s"
  unfolding copies_def assms(1) using assms(2) by (intro sum.cong) auto

lemma copies_mono:
  assumes "length (or_heap (sy_o s')) = length (or_heap (sy_o s))"
    and "\<And>j. j < length (or_heap (sy_o s)) \<Longrightarrow> cnt k (msgs_at s' j) \<le> cnt k (msgs_at s j)"
  shows "copies k s' \<le> copies k s"
  unfolding copies_def assms(1) using assms(2) by (intro sum_mono) auto

lemma once_mono:
  assumes "once s" "\<And>k. copies k s' \<le> copies k s" "\<And>k. in_progress k (sy_o s) \<Longrightarrow> in_progress k (sy_o s')"
  shows "once s'"
  unfolding once_def
proof (intro allI conjI impI)
  fix k
  have le: "copies k s' \<le> copies k s" "copies k s \<le> 1" using assms(1,2) by (auto simp: once_def)
  then show "copies k s' \<le> 1" by simp
  show "in_progress k (sy_o s')" if "copies k s' = 1"
    using le that assms(1) by (intro assms(3)) (simp add: once_def)
qed

text \<open>When a message is finished and leaves, the record of its id may go; the others stay.\<close>

lemma once_leave:
  assumes "once s" "h < length (or_heap (sy_o s))" "length (or_heap (sy_o s')) = length (or_heap (sy_o s))"
    and same: "\<And>k j. j < length (or_heap (sy_o s)) \<Longrightarrow> j \<noteq> h \<Longrightarrow> cnt k (msgs_at s' j) = cnt k (msgs_at s j)"
    and leave: "\<And>k. cnt k (msgs_at s h) = cnt k [m] + cnt k (msgs_at s' h)"
    and seen: "\<And>k. im_MessageID m = [] \<or> k \<noteq> seen_key m \<Longrightarrow> in_progress k (sy_o s') = in_progress k (sy_o s)"
  shows "once s'"
  unfolding once_def
proof (intro allI)
  fix k
  have eq: "copies k s = copies k s' + cnt k [m]"
    using copies_change [OF assms(2,3), of k] same leave [of k] by simp
  have one: "copies k s \<le> 1" "copies k s = 1 \<longrightarrow> in_progress k (sy_o s)" using assms(1) by (simp_all add: once_def)
  show "copies k s' \<le> 1 \<and> (copies k s' = 1 \<longrightarrow> in_progress k (sy_o s'))"
  proof (cases "im_MessageID m \<noteq> [] \<and> seen_key m = k")
    case True
    then show ?thesis using eq one by simp
  next
    case False
    then show ?thesis using eq one seen [of k] by auto
  qed
qed

lemma in_progress_finish:
  "im_MessageID m = [] \<or> k \<noteq> seen_key m \<Longrightarrow> in_progress k (finishMessage now m ok x) = in_progress k x"
  by (auto simp: in_progress_def finishMessage_def Let_def split: option.splits)

lemma in_progress_cong: "or_seen y = or_seen x \<Longrightarrow> in_progress k y = in_progress k x"
  by (simp add: in_progress_def)

lemma seen_frames [simp]:
  "or_seen (markMessageStarted msg x) = or_seen x" "or_seen (rememberReplyTarget msg x) = or_seen x"
  "or_seen (resizeWorkerQueue b n x) = or_seen x"
  by (auto simp: markMessageStarted_def rememberReplyTarget_def resizeWorkerQueue_def Let_def split: option.splits)

lemma once_enter:
  assumes "once s" "\<And>k. copies k s' \<le> copies k s + cnt k [m]"
    and new: "im_MessageID m \<noteq> [] \<Longrightarrow> \<not> in_progress (seen_key m) (sy_o s) \<and> in_progress (seen_key m) (sy_o s')"
    and keep: "\<And>k. im_MessageID m = [] \<or> k \<noteq> seen_key m \<Longrightarrow> in_progress k (sy_o s) \<Longrightarrow> in_progress k (sy_o s')"
  shows "once s'"
  unfolding once_def
proof (intro allI)
  fix k
  have one: "copies k s \<le> 1" "copies k s = 1 \<longrightarrow> in_progress k (sy_o s)" using assms(1) by (simp_all add: once_def)
  show "copies k s' \<le> 1 \<and> (copies k s' = 1 \<longrightarrow> in_progress k (sy_o s'))"
  proof (cases "im_MessageID m \<noteq> [] \<and> seen_key m = k")
    case True
    then have "copies k s = 0" using one new by (cases "copies k s = 1") auto
    then show ?thesis using assms(2) [of k] True new by auto
  next
    case False
    then show ?thesis using assms(2) [of k] one keep [of k] by (cases "copies k s' = 1") auto
  qed
qed

lemma held_empty [simp]: "held empty_botState = []"
  by (simp add: held_def empty_botState_def)

lemma held_upd:
  "cnt k (held (st\<lparr>bs_pending := Some m\<rparr>)) \<le> cnt k (held st) + cnt k [m]"
  "bs_worker st = Some w \<Longrightarrow> offer m w = Some w' \<Longrightarrow> cnt k (held (st\<lparr>bs_worker := Some w'\<rparr>)) = cnt k (held st) + cnt k [m]"
  "bs_worker st = Some w \<Longrightarrow> bw_queue w = m # q \<Longrightarrow>
     cnt k (held st) = cnt k (held (st\<lparr>bs_worker := Some (w\<lparr>bw_queue := q\<rparr>)\<rparr>)) + cnt k [m]"
  by (auto simp: held_def offer_def split: option.splits if_splits)

lemma msgs_at_outside:
  assumes "sys_ptrs s" "\<not> h < length (or_heap (sy_o s))"
  shows "sy_accept s h = None" "sy_deliver s h = None" "send_msgs h (sy_sends s) = []"
proof -
  show "sy_accept s h = None" "sy_deliver s h = None" using assms unfolding sys_ptrs_def by blast+
  have "\<forall>(k, _, _) \<in> set (sy_sends s). k \<noteq> h" using assms unfolding sys_ptrs_def by fastforce
  then show "send_msgs h (sy_sends s) = []" by (auto simp: send_msgs_def filter_empty_conv)
qed

lemma copies_base:
  assumes "sys_ptrs s"
  shows "copies k (s\<lparr>sy_o := admit_base now b (sy_o s)\<rparr>) = copies k s"
proof (cases "or_bots (sy_o s) b")
  case None
  note len = admit_base_simps(2) [of now b "sy_o s", simplified None, simplified]
  have st: "or_state (admit_base now b (sy_o s)) j =
      (if j < length (or_heap (sy_o s)) then or_state (sy_o s) j else empty_botState)"
    if "j < Suc (length (or_heap (sy_o s)))" for j
    using that by (auto simp: or_state_def len nth_append less_Suc_eq)
  have "copies k (s\<lparr>sy_o := admit_base now b (sy_o s)\<rparr>) =
      (\<Sum>h < length (or_heap (sy_o s)). cnt k (msgs_at (s\<lparr>sy_o := admit_base now b (sy_o s)\<rparr>) h))"
    using msgs_at_outside [OF assms, of "length (or_heap (sy_o s))"]
    by (simp add: copies_def len msgs_at_def st)
  also have "\<dots> = copies k s" unfolding copies_def by (rule sum.cong) (simp_all add: msgs_at_def st)
  finally show ?thesis .
next
  case (Some h)
  then show ?thesis
    by (intro copies_same) (simp_all add: admit_base_simps msgs_at_def or_state_def)
qed

lemma in_progress_base: "in_progress k x \<Longrightarrow> in_progress k (admit_base now b x)"
  using admit_base_seen [of now b x k] by (auto simp: in_progress_def split: option.splits)

lemma in_progress_mark:
  "in_progress k (mark_seen now m x) \<longleftrightarrow> (im_MessageID m \<noteq> [] \<and> k = seen_key m) \<or> in_progress k x"
  by (auto simp: mark_seen_def in_progress_def)

lemma not_duplicate_in_progress:
  "\<not> is_duplicate now m x \<Longrightarrow> im_MessageID m \<noteq> [] \<Longrightarrow> \<not> in_progress (seen_key m) x"
  by (auto simp: is_duplicate_def in_progress_def split: option.splits)

lemma in_progress_duplicate: "in_progress (seen_key m) x \<Longrightarrow> im_MessageID m \<noteq> [] \<Longrightarrow> is_duplicate t m x"
  by (auto simp: is_duplicate_def in_progress_def split: option.splits)

lemma once_admit:
  assumes once: "once s" and ptrs: "sys_ptrs s" and a: "admitMessage now msg (sy_o s) = (r, x)"
  shows "once (s\<lparr>sy_o := x, sy_callers := cs\<rparr>)"
proof -
  let ?b = "im_BotID msg"
  let ?y = "admit_base now ?b (sy_o s)" and ?h = "base_ptr ?b (sy_o s)"
  let ?t = "s\<lparr>sy_o := ?y\<rparr>"
  have lt: "?h < length (or_heap ?y)" by (rule admit_base_shape(3) [OF sys_ptrsD(1) [OF ptrs]])
  have base: "once ?t"
    by (rule once_mono [OF once]) (simp_all add: copies_base [OF ptrs] in_progress_base)
  have enter: "once (s\<lparr>sy_o := mark_seen now msg (or_put ?h st ?y), sy_callers := cs\<rparr>)"
    if nd: "\<not> is_duplicate now msg (sy_o s)" and st: "\<And>k. cnt k (held st) \<le> cnt k (held (or_state ?y ?h)) + cnt k [msg]" for st
  proof (rule once_enter [OF base, of _ msg])
    fix k
    let ?s' = "s\<lparr>sy_o := mark_seen now msg (or_put ?h st ?y), sy_callers := cs\<rparr>"
    have "copies k ?s' + cnt k (msgs_at ?t ?h) = copies k ?t + cnt k (msgs_at ?s' ?h)"
      by (rule copies_change) (use lt in \<open>simp_all add: msgs_at_def\<close>)
    moreover have "cnt k (msgs_at ?s' ?h) \<le> cnt k (msgs_at ?t ?h) + cnt k [msg]"
      using st [of k] lt by (simp add: msgs_at_def)
    ultimately show "copies k ?s' \<le> copies k ?t + cnt k [msg]" by linarith
  next
    assume "im_MessageID msg \<noteq> []"
    then show "\<not> in_progress (seen_key msg) (sy_o ?t) \<and>
        in_progress (seen_key msg) (sy_o (s\<lparr>sy_o := mark_seen now msg (or_put ?h st ?y), sy_callers := cs\<rparr>))"
      using not_duplicate_in_progress [of now msg ?y] nd by (simp add: in_progress_mark)
  next
    fix k assume "in_progress k (sy_o ?t)"
    then show "in_progress k (sy_o (s\<lparr>sy_o := mark_seen now msg (or_put ?h st ?y), sy_callers := cs\<rparr>))"
      using in_progress_cong [of "or_put ?h st ?y" ?y k] by (simp add: in_progress_mark)
  qed
  have same: "once (s\<lparr>sy_o := ?y, sy_callers := cs\<rparr>)"
    by (rule once_mono [OF base]) (simp_all add: copies_def msgs_at_def)
  show ?thesis
    by (cases rule: admitMessage_cases [of now msg "sy_o s"])
       (use a same enter held_upd in \<open>auto\<close>)
qed

text \<open>A step that rearranges messages within one state.\<close>

lemma once_rearrange:
  assumes "once s" "length (or_heap (sy_o s')) = length (or_heap (sy_o s))"
    and "\<And>k j. j < length (or_heap (sy_o s)) \<Longrightarrow> cnt k (msgs_at s' j) \<le> cnt k (msgs_at s j)"
    and "or_seen (sy_o s') = or_seen (sy_o s)"
  shows "once s'"
  by (rule once_mono [OF assms(1) copies_mono [OF assms(2,3)]]) (simp_all add: in_progress_def assms(4))

lemma shape_held:
  "same_shape x y \<Longrightarrow> same_held x y \<Longrightarrow> length (or_heap y) = length (or_heap x)
     \<and> (\<forall>h < length (or_heap x). held (or_state y h) = held (or_state x h))"
  by (simp add: same_shape_def same_held_def)

text \<open>What a step without \<open>StopBot\<close> does to the messages: move or drop them, finish one, admit one.\<close>

definition rearranges :: "orchSys \<Rightarrow> orchSys \<Rightarrow> bool" where
  "rearranges s s' \<longleftrightarrow> length (or_heap (sy_o s')) = length (or_heap (sy_o s)) \<and> or_seen (sy_o s') = or_seen (sy_o s)
     \<and> (\<forall>k j. j < length (or_heap (sy_o s)) \<longrightarrow> cnt k (msgs_at s' j) \<le> cnt k (msgs_at s j))"

definition finishes :: "inboundMessage \<Rightarrow> orchSys \<Rightarrow> orchSys \<Rightarrow> bool" where
  "finishes m s s' \<longleftrightarrow> (\<exists>h < length (or_heap (sy_o s)). length (or_heap (sy_o s')) = length (or_heap (sy_o s))
     \<and> (\<forall>k j. j < length (or_heap (sy_o s)) \<longrightarrow> j \<noteq> h \<longrightarrow> cnt k (msgs_at s' j) = cnt k (msgs_at s j))
     \<and> (\<forall>k. cnt k (msgs_at s h) = cnt k [m] + cnt k (msgs_at s' h))
     \<and> (\<forall>k. im_MessageID m = [] \<or> k \<noteq> seen_key m \<longrightarrow> in_progress k (sy_o s') = in_progress k (sy_o s)))"

definition admits :: "orchSys \<Rightarrow> orchSys \<Rightarrow> bool" where
  "admits s s' \<longleftrightarrow> (\<exists>now msg r x cs. admitMessage now msg (sy_o s) = (r, x) \<and> s' = s\<lparr>sy_o := x, sy_callers := cs\<rparr>)"

lemma rearrangesI:
  assumes "length (or_heap (sy_o s')) = length (or_heap (sy_o s))" "or_seen (sy_o s') = or_seen (sy_o s)"
    and "\<And>k j. j < length (or_heap (sy_o s)) \<Longrightarrow> cnt k (msgs_at s' j) \<le> cnt k (msgs_at s j)"
  shows "rearranges s s' \<or> (\<exists>m. finishes m s s') \<or> admits s s'"
  using assms by (simp add: rearranges_def)

lemma finishes_accept:
  assumes "h < length (or_heap (sy_o s))" "length (or_heap x) = length (or_heap (sy_o s))"
    "\<And>j. j < length (or_heap (sy_o s)) \<Longrightarrow> held (or_state x j) = held (or_state (sy_o s) j)"
    "accept_msgs (sy_accept s h) = [m]" "accept_msgs p = []"
    "\<And>k. im_MessageID m = [] \<or> k \<noteq> seen_key m \<Longrightarrow> in_progress k x = in_progress k (sy_o s)"
  shows "rearranges s (acceptGo h p (s\<lparr>sy_o := x\<rparr>)) \<or> (\<exists>m. finishes m s (acceptGo h p (s\<lparr>sy_o := x\<rparr>))) \<or>
     admits s (acceptGo h p (s\<lparr>sy_o := x\<rparr>))"
proof -
  have "finishes m s (acceptGo h p (s\<lparr>sy_o := x\<rparr>))"
    unfolding finishes_def using assms by (intro exI [of _ h]) (simp add: msgs_at_def)
  then show ?thesis by blast
qed

lemma orch_step_effect:
  assumes "orch_step False env s s'" "sys_ptrs s"
  shows "rearranges s s' \<or> (\<exists>m. finishes m s s') \<or> admits s s'"
  using assms
proof (induction rule: orch_step.induct)
  case (admit msg s ctx r admitted dup x)
  show ?case unfolding admits_def using admit(2) by blast
next
  case (ensureSkip s c1 b h c2 x)
  show ?case by (rule rearrangesI) (simp_all add: msgs_at_def)
next
  case (ensureSpawn s c1 b h c2 pending x)
  note e = ensureWorker_cases [OF ensureSpawn(2)]
  have lt: "h < length (or_heap (sy_o s))" by (rule ptrs_okD(1) [OF sys_ptrsD(1) [OF ensureSpawn(3)] e(1)])
  have go: "sy_accept s h = None" "sy_deliver s h = None"
    using sys_ptrsD(4) [OF ensureSpawn(3), of h] e(2) by (auto split: option.splits) (metis not_None_eq surj_pair)+
  show ?case
    by (rule rearrangesI)
       (use e lt go in \<open>auto simp: msgs_at_def held_def split: option.splits\<close>)
next
  case (sendPending s s1 h chan m s2 w w')
  have lt: "h < length (or_heap (sy_o s))" using sys_ptrsD(5) [OF sendPending(5), of h chan m] sendPending(1) by simp
  show ?case
    by (rule rearrangesI)
       (use lt sendPending(1) held_upd(2) [OF sendPending(2,4)] in \<open>auto simp: msgs_at_def\<close>)
next
  case (sendOld s s1 h chan m s2 w)
  show ?case by (rule rearrangesI) (simp_all add: msgs_at_def sendOld(1))
next
  case (recv s h b m x)
  have lt: "h < length (or_heap (sy_o s))" using sys_ptrsD(4) [OF recv(3)] recv(1) by blast
  from recv(2) obtain w q where w: "bs_worker (or_state (sy_o s) h) = Some w" "bw_queue w = m # q"
    "x = or_put h ((or_state (sy_o s) h)\<lparr>bs_worker := Some (w\<lparr>bw_queue := q\<rparr>)\<rparr>) (sy_o s)" by (rule worker_recv_Some)
  show ?case
    by (rule rearrangesI)
       (use lt w(3) recv(1) held_upd(3) [OF w(1,2)] in \<open>simp_all add: msgs_at_def\<close>)
next
  case (acceptOne s h b m item effs x)
  have lt: "h < length (or_heap (sy_o s))" using sys_ptrsD(4) [OF acceptOne(3)] acceptOne(1) by blast
  note same = shape_held [OF accept_same [OF sys_ptrsD(1) [OF acceptOne(3)] acceptOne(2)]]
  from accept_result [OF acceptOne(2)] show ?case
  proof (elim disjE exE conjE)
    assume "item = None" and x: "x = finishMessage (sy_now s) m False (rememberReplyTarget m (markMessageStarted m (sy_o s)))"
    then show ?thesis
      using same lt acceptOne(1)
      by (intro finishes_accept [where m = m])
         (simp_all add: in_progress_finish in_progress_def [of _ "rememberReplyTarget _ _"] in_progress_def [of _ "sy_o s"])
  next
    fix i n assume i: "item = Some i" "di_msg i = m" and x: "x = resizeWorkerQueue b n (rememberReplyTarget m (markMessageStarted m (sy_o s)))"
    show ?thesis
      by (rule rearrangesI) (use same lt acceptOne(1) i x in \<open>simp_all add: msgs_at_def\<close>)
  qed
next
  case (handOff s h b item)
  show ?case
    by (rule rearrangesI) (use handOff(1,2) in \<open>simp_all add: msgs_at_def\<close>)
next
  case (acceptStop s h b item)
  have lt: "h < length (or_heap (sy_o s))" using sys_ptrsD(4) [OF acceptStop(3)] acceptStop(1) by blast
  note same = shape_held [OF finishMessage_same [OF sys_ptrsD(1) [OF acceptStop(3)]]]
  show ?case
    using same lt acceptStop(1) by (intro finishes_accept [where m = "di_msg item"]) (simp_all add: in_progress_finish)
next
  case (acceptExit s h b)
  show ?case
    by (rule rearrangesI) (use acceptExit(1) in \<open>simp_all add: msgs_at_def\<close>)
next
  case (deliver s h item started effs x)
  have lt: "h < length (or_heap (sy_o s))" using sys_ptrsD(4) [OF deliver(3)] deliver(1) by blast
  note same = shape_held [OF executeAndDeliver_same [OF sys_ptrsD(1) [OF deliver(3)] deliver(2)]]
  obtain ok where x: "x = finishMessage (sy_now s) (di_msg item) ok (sy_o s)"
    using executeAndDeliver_result [OF deliver(2)] by blast
  have "finishes (di_msg item) s (deliverGo h (Some DIdle) (s\<lparr>sy_o := x\<rparr>))"
    unfolding finishes_def using lt same deliver(1)
    by (intro exI [of _ h]) (simp add: msgs_at_def x in_progress_finish)
  then show ?case by blast
next
  case (deliverExit s h)
  show ?case
    by (rule rearrangesI) (use deliverExit(1) in \<open>simp_all add: msgs_at_def\<close>)
next
  case (push s)
  show ?case by (rule rearrangesI) simp_all
next
  case (stop s b)
  then show ?case by simp
next
  case (elapse s t)
  show ?case by (rule rearrangesI) (simp_all add: msgs_at_def)
qed

lemma orch_step_once:
  assumes "orch_step False env s s'" "sys_ptrs s" "once s"
  shows "once s'"
  using orch_step_effect [OF assms(1,2)]
proof (elim disjE exE)
  assume "rearranges s s'"
  then show ?thesis by (intro once_rearrange [OF assms(3)]) (simp_all add: rearranges_def)
next
  fix m assume "finishes m s s'"
  then obtain h where "h < length (or_heap (sy_o s))" "length (or_heap (sy_o s')) = length (or_heap (sy_o s))"
     "\<And>k j. j < length (or_heap (sy_o s)) \<Longrightarrow> j \<noteq> h \<Longrightarrow> cnt k (msgs_at s' j) = cnt k (msgs_at s j)"
     "\<And>k. cnt k (msgs_at s h) = cnt k [m] + cnt k (msgs_at s' h)"
     "\<And>k. im_MessageID m = [] \<or> k \<noteq> seen_key m \<Longrightarrow> in_progress k (sy_o s') = in_progress k (sy_o s)"
    unfolding finishes_def by blast
  from once_leave [OF assms(3) this] show ?thesis .
next
  assume "admits s s'"
  then show ?thesis using once_admit [OF assms(3,2)] by (auto simp: admits_def)
qed

lemma sys_init_once: "sys_init s \<Longrightarrow> sys_ptrs s \<and> once s"
  by (auto simp: sys_init_ptrs once_def copies_def sys_init_def NewBotMessageOrchestrator_def)

interpretation orch_once: transition_system sys_init "orch_step False env" "\<lambda>s. sys_ptrs s \<and> once s" for env
  by unfold_locales (auto intro: orch_step_ptrs orch_step_once dest: sys_init_once)

section \<open>A lost message\<close>

text \<open>The id counts as being handled, but no copy of the message is left anywhere.\<close>

definition lost :: "string \<Rightarrow> orchSys \<Rightarrow> bool" where
  "lost k s \<longleftrightarrow> in_progress k (sy_o s) \<and> copies k s = 0"

lemma admit_lost:
  assumes ptrs: "sys_ptrs s" and lost: "lost k s" and a: "admitMessage now msg (sy_o s) = (r, x)"
  shows "lost k (s\<lparr>sy_o := x, sy_callers := cs\<rparr>)"
proof -
  let ?y = "admit_base now (im_BotID msg) (sy_o s)" and ?h = "base_ptr (im_BotID msg) (sy_o s)"
  have lt: "?h < length (or_heap ?y)" by (rule admit_base_shape(3) [OF sys_ptrsD(1) [OF ptrs]])
  have base: "copies k (s\<lparr>sy_o := ?y\<rparr>) = 0" "in_progress k ?y"
    using lost by (simp_all add: copies_base [OF ptrs] lost_def in_progress_base)
  have same: "lost k (s\<lparr>sy_o := ?y, sy_callers := cs\<rparr>)"
    using base by (simp add: lost_def copies_def msgs_at_def)
  have enter: "lost k (s\<lparr>sy_o := mark_seen now msg (or_put ?h st ?y), sy_callers := cs\<rparr>)"
    if nd: "\<not> is_duplicate now msg (sy_o s)" and st: "\<And>k. cnt k (held st) \<le> cnt k (held (or_state ?y ?h)) + cnt k [msg]" for st
  proof -
    let ?s' = "s\<lparr>sy_o := mark_seen now msg (or_put ?h st ?y), sy_callers := cs\<rparr>"
    have other: "cnt k [msg] = 0"
      using not_duplicate_in_progress [of now msg "sy_o s"] nd lost by (auto simp: lost_def)
    have "copies k ?s' + cnt k (msgs_at (s\<lparr>sy_o := ?y\<rparr>) ?h) = copies k (s\<lparr>sy_o := ?y\<rparr>) + cnt k (msgs_at ?s' ?h)"
      by (rule copies_change) (use lt in \<open>simp_all add: msgs_at_def\<close>)
    moreover have "cnt k (msgs_at ?s' ?h) \<le> cnt k (msgs_at (s\<lparr>sy_o := ?y\<rparr>) ?h)"
      using st [of k] lt other by (simp add: msgs_at_def)
    ultimately have "copies k ?s' = 0" using base by linarith
    then show ?thesis using base in_progress_cong [of "or_put ?h st ?y" ?y k] by (simp add: lost_def in_progress_mark)
  qed
  show ?thesis
    by (cases rule: admitMessage_cases [of now msg "sy_o s"])
       (use a same enter held_upd in \<open>auto\<close>)
qed

lemma orch_step_lost:
  assumes "orch_step False env s s'" "sys_ptrs s \<and> lost k s"
  shows "sys_ptrs s' \<and> lost k s'"
proof -
  have "lost k s'" using orch_step_effect [OF assms(1) conjunct1 [OF assms(2)]]
  proof (elim disjE exE)
    assume "rearranges s s'"
    then show ?thesis
      using copies_mono [of s' s k] assms(2) by (auto simp: rearranges_def lost_def in_progress_def)
  next
    fix m assume "finishes m s s'"
    then obtain h where h: "h < length (or_heap (sy_o s))" "length (or_heap (sy_o s')) = length (or_heap (sy_o s))"
       "\<And>k j. j < length (or_heap (sy_o s)) \<Longrightarrow> j \<noteq> h \<Longrightarrow> cnt k (msgs_at s' j) = cnt k (msgs_at s j)"
       "\<And>k. cnt k (msgs_at s h) = cnt k [m] + cnt k (msgs_at s' h)"
       "\<And>k. im_MessageID m = [] \<or> k \<noteq> seen_key m \<Longrightarrow> in_progress k (sy_o s') = in_progress k (sy_o s)"
      unfolding finishes_def by blast
    have "copies k s = copies k s' + cnt k [m]"
      using copies_change [OF h(1,2), of k] h(3,4) by simp
    then have "copies k s' = 0" "cnt k [m] = 0" using assms(2) by (simp_all add: lost_def)
    then show ?thesis using h(5) [of k] assms(2) by (auto simp: lost_def split: if_splits)
  next
    assume "admits s s'"
    then show ?thesis using admit_lost assms(2) by (auto simp: admits_def)
  qed
  with orch_step_ptrs [OF assms(1)] assms(2) show ?thesis by blast
qed

interpretation orch_lost: stable_property "orch_step False env" "\<lambda>s. sys_ptrs s \<and> lost k s" for env k
  by unfold_locales (rule orch_step_lost)

section \<open>Properties\<close>

text \<open>
  C1. As long as no bot is stopped, a message with an id is in flight at most once: over
  everything that is pending, queued, being accepted or being delivered there is at most one
  copy of it, and while there is one, redeliveries are refused as duplicates.
\<close>

theorem orch_in_flight_once:
  assumes "sys_init s0" "(orch_step False env)\<^sup>*\<^sup>* s0 s"
  shows "copies k s \<le> 1
    \<and> (\<forall>msg t. copies k s = 1 \<and> seen_key msg = k \<and> im_MessageID msg \<noteq> [] \<longrightarrow> is_duplicate t msg (sy_o s))"
  using orch_once.reachable_inv [OF assms]
  by (auto simp: once_def in_progress_def is_duplicate_def split: option.splits)

lemma two_admits:
  assumes "im_BotID m1 = im_BotID m2" "im_MessageID m1 \<noteq> im_MessageID m2" "im_MessageID m1 \<noteq> []" "im_MessageID m2 \<noteq> []"
    and "admitMessage t1 m1 NewBotMessageOrchestrator = (r1, x1)" "admitMessage t2 m2 x1 = (r2, x2)" "t1 \<le> t2"
  shows "in_progress (seen_key m1) x2 \<and> length (or_heap x2) = 1 \<and> held (or_state x2 0) = [m2]"
proof -
  have ne: "seen_key m1 \<noteq> seen_key m2" using assms(1,2) by (simp add: seen_key_def)
  have x1: "or_heap x1 = [empty_botState\<lparr>bs_pending := Some m1\<rparr>]" "or_bots x1 = [im_BotID m2 \<mapsto> 0]"
    "or_seen x1 = [seen_key m1 \<mapsto> \<lparr>sm_seenAt = t1, sm_inProgress = True\<rparr>]"
    using assms(1,3,5)
    by (auto simp: admitMessage_def NewBotMessageOrchestrator_def Let_def cleanupSeenLocked_def or_state_def
        empty_botState_def or_put_def mark_seen_def)
  have nd: "\<not> is_duplicate t2 m2 x1" using ne by (simp add: is_duplicate_def x1)
  have base: "admit_base t2 (im_BotID m2) x1 = x1 \<or> admit_base t2 (im_BotID m2) x1 = cleanupSeenLocked t2 x1"
    by (auto simp: admit_base_def x1 Let_def)
  have st: "or_state (admit_base t2 (im_BotID m2) x1) 0 = empty_botState\<lparr>bs_pending := Some m1\<rparr>"
    "length (or_heap (admit_base t2 (im_BotID m2) x1)) = 1" "base_ptr (im_BotID m2) x1 = 0"
    using base by (auto simp: or_state_def x1 base_ptr_def)
  have prog: "in_progress (seen_key m1) (admit_base t2 (im_BotID m2) x1)"
    by (rule in_progress_base) (simp add: in_progress_def x1)
  show ?thesis
  proof (cases rule: admitMessage_cases [of t2 m2 x1])
    case pending
    then have "x2 = mark_seen t2 m2 (or_put 0 (empty_botState\<lparr>bs_pending := Some m2\<rparr>) (admit_base t2 (im_BotID m2) x1))"
      using assms(6) by (simp add: st)
    moreover have "in_progress (seen_key m1) (or_put 0 u (admit_base t2 (im_BotID m2) x1))" for u
      using prog in_progress_cong [of "or_put 0 u (admit_base t2 (im_BotID m2) x1)"] by simp
    ultimately show ?thesis
      using st by (simp add: in_progress_mark held_def empty_botState_def)
  qed (use nd st in \<open>simp_all add: empty_botState_def\<close>)
qed

text \<open>
  C8. A message can be lost: when two messages of a bot are admitted before the first call
  reaches \<open>ensureWorker\<close>, the second overwrites the pending one.  No copy of the first is left,
  yet its id counts as being handled, and without a \<open>StopBot\<close> this never ends: whatever happens
  afterwards, it is not delivered and every redelivery is refused as a duplicate.
\<close>

theorem overwritten_pending_is_lost:
  fixes m1 m2 :: inboundMessage
  assumes "sys_init s0" "im_BotID m1 = im_BotID m2" "im_MessageID m1 \<noteq> im_MessageID m2"
    and "im_MessageID m1 \<noteq> []" "im_MessageID m2 \<noteq> []" "im_Text m1 \<noteq> []" "im_Text m2 \<noteq> []"
  shows "\<exists>s. (orch_step False env)\<^sup>*\<^sup>* s0 s \<and>
    (\<forall>s'. (orch_step False env)\<^sup>*\<^sup>* s s' \<longrightarrow>
       copies (seen_key m1) s' = 0 \<and> (\<forall>t. is_duplicate t m1 (sy_o s')))"
proof -
  let ?now = "sy_now s0"
  define n1 where "n1 = attachContext None m1 (sy_o s0)"
  obtain r1 ad1 d1 x1 where a1: "admitMessage ?now n1 (sy_o s0) = ((r1, ad1, d1), x1)"
    by (metis surj_pair)
  have a1': "admitMessage ?now n1 NewBotMessageOrchestrator = ((r1, ad1, d1), x1)"
    using a1 assms(1) by (simp add: sys_init_def)
  define s1 where "s1 = s0\<lparr>sy_o := x1, sy_callers := (case r1 of None \<Rightarrow> [] | Some h \<Rightarrow> [(im_BotID m1, h)]) @ sy_callers s0\<rparr>"
  define n2 where "n2 = attachContext None m2 x1"
  obtain r2 ad2 d2 x2 where a2: "admitMessage ?now n2 x1 = ((r2, ad2, d2), x2)"
    by (metis surj_pair)
  define s2 where "s2 = s1\<lparr>sy_o := x2, sy_callers := (case r2 of None \<Rightarrow> [] | Some h \<Rightarrow> [(im_BotID m2, h)]) @ sy_callers s1\<rparr>"
  have st1: "orch_step False env s0 s1"
    unfolding s1_def by (rule orch_step.admit [where ctx = None, OF assms(6) a1 [unfolded n1_def]])
  have "orch_step False env s1 s2"
    unfolding s2_def using a2 unfolding n2_def by (intro orch_step.admit [where ctx = None, OF assms(7)]) (simp add: s1_def)
  with st1 have run: "(orch_step False env)\<^sup>*\<^sup>* s0 s2" by simp
  have n: "im_BotID n1 = im_BotID m1" "im_MessageID n1 = im_MessageID m1"
    "im_BotID n2 = im_BotID m2" "im_MessageID n2 = im_MessageID m2"
    by (simp_all add: n1_def n2_def attachContext_def)
  then have keys: "seen_key n1 = seen_key m1" by (simp add: seen_key_def)
  have "in_progress (seen_key n1) x2 \<and> length (or_heap x2) = 1 \<and> held (or_state x2 0) = [n2]"
    by (rule two_admits [OF _ _ _ _ a1' a2]) (use assms n in simp_all)
  then have "lost (seen_key m1) s2"
    using assms(1-5) keys n
    by (simp add: lost_def copies_def s2_def s1_def msgs_at_def sys_init_def seen_key_def)
  moreover have "sys_ptrs s2" using orch.steps_inv [OF run sys_init_ptrs [OF assms(1)]] .
  ultimately have "lost (seen_key m1) s'" if "(orch_step False env)\<^sup>*\<^sup>* s2 s'" for s'
    using orch_lost.steps_stable [OF that, of "seen_key m1"] by blast
  then show ?thesis
    using run assms(4) in_progress_duplicate unfolding lost_def by blast
qed

section \<open>Examples\<close>

definition sample_sys :: orchSys where
  "sample_sys = \<lparr>sy_o = NewBotMessageOrchestrator, sy_now = 0, sy_callers = [], sy_sends = [],
     sy_accept = Map.empty, sy_deliver = Map.empty\<rparr>"

lemma sample_sys_init: "sys_init sample_sys"
  by (simp add: sys_init_def sample_sys_def)

text \<open>A first message arrives and its worker is started.\<close>

lemma sample_run:
  obtains s where "(orch_step False env)\<^sup>*\<^sup>* sample_sys s" "sy_accept s 0 = Some (''b1'', AIdle)"
    "or_bots (sy_o s) = [''b1'' \<mapsto> 0]" "copies ''b1:m1'' s = 1"
proof -
  let ?msg = "attachContext None sample_msg (sy_o sample_sys)"
  obtain x where a: "admitMessage 0 ?msg (sy_o sample_sys) = ((Some 0, True, False), x)"
      and x: "or_heap x = [empty_botState\<lparr>bs_pending := Some ?msg\<rparr>]" "or_bots x = [''b1'' \<mapsto> 0]" "or_nextChan x = 0"
    by (simp add: admitMessage_def sample_simps sample_sys_def attachContext_def cleanupSeenLocked_def
        or_state_def empty_botState_def or_put_def mark_seen_def)
  define s1 where "s1 = sample_sys\<lparr>sy_o := x, sy_callers := [(''b1'', 0)]\<rparr>"
  have st1: "orch_step False env sample_sys s1"
    using orch_step.admit [of sample_msg sample_sys None "Some 0" True False x False env] a
    by (simp add: s1_def sample_msg_def sample_sys_def)
  have e: "\<exists>y. ensureWorker ''b1'' 0 (sy_o s1) = (Some (Some ?msg), y)"
    by (simp add: ensureWorker_def s1_def x or_state_def empty_botState_def)
  then obtain y where e: "ensureWorker ''b1'' 0 (sy_o s1) = (Some (Some ?msg), y)" ..
  let ?s2 = "acceptGo 0 (Some (''b1'', AIdle)) (deliverGo 0 (Some DIdle)
      (s1\<lparr>sy_o := y, sy_callers := [] @ [], sy_sends := (case Some ?msg of None \<Rightarrow> [] | Some m \<Rightarrow> [(0, or_nextChan (sy_o s1), m)]) @ sy_sends s1\<rparr>))"
  have st2: "orch_step False env s1 ?s2"
    by (rule orch_step.ensureSpawn [OF _ e]) (simp add: s1_def)
  have "(orch_step False env)\<^sup>*\<^sup>* sample_sys ?s2" using st1 st2 by simp
  then show thesis
    by (rule that)
       (use ensureWorker_cases(4) [OF e] in \<open>simp_all add: s1_def x copies_def msgs_at_def held_def or_state_def or_put_def
          sample_sys_def attachContext_def sample_msg_def seen_key_def\<close>)
qed

lemma orch_goroutines_stoppable_witness:
  "\<exists>s :: orchSys. sy_accept s 0 \<noteq> None \<and> ((\<exists>b. or_bots (sy_o s) b = Some 0) \<or> isStopping 0 (sy_o s))"
proof -
  obtain s where "(orch_step False undefined)\<^sup>*\<^sup>* sample_sys s" "sy_accept s 0 = Some (''b1'', AIdle)"
    by (rule sample_run)
  with orch_goroutines_stoppable [OF sample_sys_init this(1), of 0] show ?thesis by (intro exI [of _ s]) simp
qed

lemma orch_in_flight_once_witness:
  "\<exists>s. copies ''b1:m1'' s = 1 \<and> is_duplicate 0 sample_msg (sy_o s)"
proof -
  obtain s where "(orch_step False undefined)\<^sup>*\<^sup>* sample_sys s" "copies ''b1:m1'' s = 1" by (rule sample_run)
  with orch_in_flight_once [OF sample_sys_init this(1), of "''b1:m1''"] show ?thesis
    by (intro exI [of _ s]) (simp add: sample_msg_def seen_key_def)
qed

lemma overwritten_pending_is_lost_witness:
  "\<exists>s. (orch_step False undefined)\<^sup>*\<^sup>* sample_sys s \<and> copies ''b1:m1'' s = 0 \<and> is_duplicate (1000 * minute) sample_msg (sy_o s)"
  using overwritten_pending_is_lost [OF sample_sys_init, of sample_msg "sample_msg\<lparr>im_MessageID := ''m2''\<rparr>" undefined]
  by (auto simp: sample_msg_def seen_key_def)

end
