(* ===== verification/ManagerSteps.thy ===== *)
theory ManagerSteps
  imports Manager
begin

text \<open>
  Concurrent callers of the session manager (\<open>internal/agent/manager.go\<close>) and the tickers
  of the scheduled tasks (\<open>runTask\<close> of \<open>internal/agent/session.go\<close>).

  Every call under way is a program counter (\<open>call\<close>), one constructor per place where it
  holds no lock of its own; \<open>call_begin\<close> runs the first critical section of a call and \<open>call_step\<close> the
  next one, so that the sections of any number of calls interleave in any order.  A turn
  holds its session's lock (\<open>ms_locked\<close>) while the runtime runs it: what takes that lock
  waits (\<open>waits_for\<close>), a tick skips, everything else goes on.  The answers of drivers and
  runtimes are arguments of each step and may differ from one to the next.
\<close>

section \<open>Calls under way\<close>

datatype mgrOp =
    OpSetPushSink string "nat option"
  | OpSchedule string scheduledTask
  | OpCancelTask string string
  | OpStopBot string
  | OpSend string spec request

datatype call =
    InSetPushSink nat "nat option"
  | InSchedule nat scheduledTask
  | InCancelTask nat string
  | InStopBot nat closing
  | SendMatches string spec request nat
  | SendState string spec request nat
  | SendCreate string spec request
  | SendRecheck string spec request nat
  | SendMatches2 string spec request nat nat
  | SendState2 string spec request nat nat
  | SendDrop nat closing nat request
  | SendSwap string request nat
  | SendSetSink string request nat "nat option" "nat option"
  | SendReplace string request nat nat closing
  | SendRestore string nat nat goerr
  | SendDiscard nat closing goerr
  | SendSession nat request
  | SendTurn nat request nat
  | SendPanicked nat
  | Answered response "goerr option"
  | Finished

text \<open>What a ticker's goroutine is doing, between two selects when \<open>Waiting\<close>.\<close>

datatype tickPhase =
    Waiting
  | InTurn nat
  | Pushing response
  | Sending nat pushResponse
  | Failing

text \<open>
  Three fields only record what happened: the bot each session was created for, the sinks
  registered so far, and the sessions one of whose \<open>Close\<close> calls failed.
\<close>

record mgrSys =
  ms_mgr :: agentManager
  ms_calls :: "call list"
  ms_locked :: "nat set"
  ms_tick :: "nat \<times> nat \<Rightarrow> tickPhase"
  ms_owner :: "string list"
  ms_registered :: "(string \<times> nat option) set"
  ms_failed :: "nat set"

section \<open>One section of a call\<close>

fun call_begin :: "mgrOp \<Rightarrow> agentManager \<Rightarrow> call \<times> agentManager" where
  "call_begin (OpSetPushSink b sink) m =
     (case setSink_register b sink m of
        (None, m1) \<Rightarrow> (Finished, m1)
      | (Some h, m1) \<Rightarrow> (InSetPushSink h sink, m1))"
| "call_begin (OpSchedule b task) m =
     (case am_sessions m b of None \<Rightarrow> Finished | Some h \<Rightarrow> InSchedule h task, m)"
| "call_begin (OpCancelTask b taskID) m =
     (case am_sessions m b of None \<Rightarrow> Finished | Some h \<Rightarrow> InCancelTask h taskID, m)"
| "call_begin (OpStopBot b) m =
     (case stop_remove b m of
        (None, m1) \<Rightarrow> (Finished, m1)
      | (Some h, m1) \<Rightarrow> (InStopBot h CloseTasks, m1))"
| "call_begin (OpSend b sp req) m =
     (case am_sessions m b of None \<Rightarrow> SendCreate b sp req | Some h \<Rightarrow> SendMatches b sp req h, m)"

text \<open>One section of a \<open>Close\<close> inside a call: \<open>go_on\<close> while it lasts, \<open>ready\<close> when it returns.\<close>

definition closing_call ::
  "closer \<Rightarrow> nat \<Rightarrow> closing \<Rightarrow> (closing \<Rightarrow> call) \<Rightarrow> (goerr option \<Rightarrow> call) \<Rightarrow> agentManager \<Rightarrow> call \<times> agentManager" where
  "closing_call close_rt h c go_on ready m =
     (case close_step close_rt c (am_session m h) of
        (Closed err, s) \<Rightarrow> (ready err, am_set h s m)
      | (c', s) \<Rightarrow> (go_on c', am_set h s m))"

fun call_step ::
  "('d \<Rightarrow> spec \<Rightarrow> goerr + nat) \<Rightarrow> 'd drivers \<Rightarrow> closer \<Rightarrow> runner \<Rightarrow> call \<Rightarrow> agentManager \<Rightarrow> call \<times> agentManager" where
  "call_step init ds close_rt run (InSetPushSink h sink) m =
     (Finished, on_session h (session_SetPushSink sink) m)"
| "call_step init ds close_rt run (InSchedule h task) m =
     (Finished, on_session h (\<lambda>s. snd (session_Schedule task s)) m)"
| "call_step init ds close_rt run (InCancelTask h taskID) m =
     (Finished, on_session h (\<lambda>s. snd (session_CancelTask taskID s)) m)"
| "call_step init ds close_rt run (InStopBot h c) m =
     closing_call close_rt h c (InStopBot h) (\<lambda>_. Finished) m"
| "call_step init ds close_rt run (SendMatches b sp req h) m =
     (if session_Matches (am_session m h) sp then SendState b sp req h else SendCreate b sp req, m)"
| "call_step init ds close_rt run (SendState b sp req h) m =
     (if session_State (am_session m h) \<noteq> SessionBroken then SendSession h req else SendCreate b sp req, m)"
| "call_step init ds close_rt run (SendCreate b sp req) m =
     (case sessionFor_create init ds sp m of
        (Inl err, m1) \<Rightarrow> (Answered empty_response (Some err), m1)
      | (Inr replacement, m1) \<Rightarrow> (SendRecheck b sp req replacement, m1))"
| "call_step init ds close_rt run (SendRecheck b sp req replacement) m =
     (case am_sessions m b of
        None \<Rightarrow> SendSwap b req replacement
      | Some current \<Rightarrow> SendMatches2 b sp req replacement current, m)"
| "call_step init ds close_rt run (SendMatches2 b sp req replacement current) m =
     (if session_Matches (am_session m current) sp then SendState2 b sp req replacement current
      else SendSwap b req replacement, m)"
| "call_step init ds close_rt run (SendState2 b sp req replacement current) m =
     (if session_State (am_session m current) \<noteq> SessionBroken then SendDrop replacement CloseTasks current req
      else SendSwap b req replacement, m)"
| "call_step init ds close_rt run (SendDrop replacement c current req) m =
     closing_call close_rt replacement c (\<lambda>c'. SendDrop replacement c' current req)
       (\<lambda>err. case err of
          Some _ \<Rightarrow> Answered empty_response err
        | None \<Rightarrow> SendSession current req) m"
| "call_step init ds close_rt run (SendSwap b req replacement) m =
     (case swap_session b replacement m of
        (stale, sink, m1) \<Rightarrow> (SendSetSink b req replacement stale sink, m1))"
| "call_step init ds close_rt run (SendSetSink b req replacement stale sink) m =
     (case stale of
        None \<Rightarrow> SendSession replacement req
      | Some st \<Rightarrow> SendReplace b req replacement st CloseTasks, set_sink replacement sink m)"
| "call_step init ds close_rt run (SendReplace b req replacement st c) m =
     closing_call close_rt st c (SendReplace b req replacement st)
       (\<lambda>err. case err of
          Some e \<Rightarrow> SendRestore b replacement st e
        | None \<Rightarrow> SendSession replacement req) m"
| "call_step init ds close_rt run (SendRestore b replacement st err) m =
     (SendDiscard replacement CloseTasks err, restore_session b replacement st m)"
| "call_step init ds close_rt run (SendDiscard replacement c err) m =
     closing_call close_rt replacement c (\<lambda>c'. SendDiscard replacement c' err)
       (\<lambda>_. Answered empty_response (Some err)) m"
| "call_step init ds close_rt run (SendSession h req) m =
     (case runLocked_begin (am_session m h) of
        (None, s) \<Rightarrow> (SendPanicked h, am_set h s m)
      | (Some runtime, s) \<Rightarrow> (SendTurn h req runtime, am_set h s m))"
| "call_step init ds close_rt run (SendTurn h req runtime) m =
     (let answer = run runtime req
      in (Answered (fst answer) (snd answer), on_session h (runLocked_end answer) m))"
| "call_step init ds close_rt run (SendPanicked h) m = (SendPanicked h, m)"
| "call_step init ds close_rt run (Answered resp err) m = (Answered resp err, m)"
| "call_step init ds close_rt run Finished m = (Finished, m)"

text \<open>The session a call is closing.\<close>

fun closes :: "call \<Rightarrow> (nat \<times> closing) option" where
  "closes (InStopBot h c) = Some (h, c)"
| "closes (SendDrop replacement c current req) = Some (replacement, c)"
| "closes (SendReplace b req replacement st c) = Some (st, c)"
| "closes (SendDiscard replacement c err) = Some (replacement, c)"
| "closes _ = None"

text \<open>The session whose turn lock the next section of a call takes.\<close>

fun waits_for :: "call \<Rightarrow> nat option" where
  "waits_for (SendMatches b sp req h) = Some h"
| "waits_for (SendState b sp req h) = Some h"
| "waits_for (SendMatches2 b sp req replacement current) = Some current"
| "waits_for (SendState2 b sp req replacement current) = Some current"
| "waits_for (SendSession h req) = Some h"
| "waits_for c = (case closes c of
     Some (h, CloseRead) \<Rightarrow> Some h
   | Some (h, CloseClear) \<Rightarrow> Some h
   | _ \<Rightarrow> None)"

section \<open>The steps of the system\<close>

definition crashed :: "mgrSys \<Rightarrow> bool" where
  "crashed x \<longleftrightarrow> (\<exists>h. SendPanicked h \<in> set (ms_calls x))"

definition ms_spawn :: "mgrOp \<Rightarrow> mgrSys \<Rightarrow> mgrSys" where
  "ms_spawn operation x =
     (case call_begin operation (ms_mgr x) of
        (c, m) \<Rightarrow> x\<lparr>ms_mgr := m, ms_calls := ms_calls x @ [c],
          ms_registered := (case operation of
             OpSetPushSink b sink \<Rightarrow> insert (b, sink) (ms_registered x)
           | _ \<Rightarrow> ms_registered x)\<rparr>)"

definition locked_after :: "call \<Rightarrow> call \<Rightarrow> nat set \<Rightarrow> nat set" where
  "locked_after c c' L =
     (case c' of SendTurn h _ _ \<Rightarrow> insert h L
      | _ \<Rightarrow> (case c of SendTurn h _ _ \<Rightarrow> L - {h} | _ \<Rightarrow> L))"

definition owner_after :: "call \<Rightarrow> call \<Rightarrow> string list \<Rightarrow> string list" where
  "owner_after c c' own = (case (c, c') of (SendCreate b _ _, SendRecheck _ _ _ _) \<Rightarrow> own @ [b] | _ \<Rightarrow> own)"

definition failed_after :: "closer \<Rightarrow> call \<Rightarrow> nat set \<Rightarrow> nat set" where
  "failed_after close_rt c F =
     (case closes c of
        Some (h, CloseRuntime r) \<Rightarrow> if close_rt r = None then F else insert h F
      | _ \<Rightarrow> F)"

definition ms_advance ::
  "('d \<Rightarrow> spec \<Rightarrow> goerr + nat) \<Rightarrow> 'd drivers \<Rightarrow> closer \<Rightarrow> runner \<Rightarrow> nat \<Rightarrow> mgrSys \<Rightarrow> mgrSys" where
  "ms_advance init ds close_rt run i x =
     (let c = ms_calls x ! i in
      case call_step init ds close_rt run c (ms_mgr x) of
        (c', m) \<Rightarrow> x\<lparr>ms_mgr := m, ms_calls := (ms_calls x)[i := c'],
          ms_locked := locked_after c c' (ms_locked x),
          ms_owner := owner_after c c' (ms_owner x),
          ms_failed := failed_after close_rt c (ms_failed x)\<rparr>)"

text \<open>
  A ticker: a tick is skipped while the lock is held, fails when the session has no runtime
  or is broken or stopped, and runs a turn otherwise; \<open>Failing\<close> cancels the task and ends the goroutine.
\<close>

fun tick_step :: "runner \<Rightarrow> bool \<Rightarrow> taskTimer \<Rightarrow> tickPhase \<Rightarrow> session \<Rightarrow> tickPhase \<times> session" where
  "tick_step run held t Waiting s =
     (if held then (Waiting, s)
      else if tick_idle s then (Failing, s)
      else (case runLocked_begin s of
              (None, s1) \<Rightarrow> (Failing, s1)
            | (Some runtime, s1) \<Rightarrow> (InTurn runtime, s1)))"
| "tick_step run held t (InTurn runtime) s =
     (case run runtime (tick_request (tt_task t) s) of
        (resp, None) \<Rightarrow> (Pushing resp, runLocked_end (resp, None) s)
      | (resp, Some err) \<Rightarrow> (Failing, runLocked_end (resp, Some err) s))"
| "tick_step run held t (Pushing resp) s =
     (case session_pushSink s of
        None \<Rightarrow> (Waiting, s)
      | Some sink \<Rightarrow> (Sending sink \<lparr>pr_Response = resp, pr_TaskID = st_ID (tt_task t)\<rparr>, s))"
| "tick_step run held t (Sending sink push) s = (Waiting, s)"
| "tick_step run held t Failing s = (Waiting, task_exit t (snd (session_CancelTask (st_ID (tt_task t)) s)))"

definition ms_ticker :: "runner \<Rightarrow> nat \<Rightarrow> taskTimer \<Rightarrow> mgrSys \<Rightarrow> mgrSys" where
  "ms_ticker run h t x =
     (let ph = ms_tick x (h, tt_num t) in
      case tick_step run (h \<in> ms_locked x) t ph (am_session (ms_mgr x) h) of
        (ph', s) \<Rightarrow> x\<lparr>ms_mgr := am_set h s (ms_mgr x), ms_tick := (ms_tick x)((h, tt_num t) := ph'),
          ms_locked := (case (ph, ph') of
             (_, InTurn _) \<Rightarrow> insert h (ms_locked x)
           | (InTurn _, _) \<Rightarrow> ms_locked x - {h}
           | _ \<Rightarrow> ms_locked x)\<rparr>)"

inductive ms_step :: "'d drivers \<Rightarrow> mgrSys \<Rightarrow> mgrSys \<Rightarrow> bool" for ds where
  spawn: "\<not> crashed x \<Longrightarrow> ms_step ds x (ms_spawn operation x)"
| advance: "\<not> crashed x \<Longrightarrow> i < length (ms_calls x) \<Longrightarrow>
    (\<And>h. waits_for (ms_calls x ! i) = Some h \<Longrightarrow> h \<notin> ms_locked x) \<Longrightarrow>
    ms_step ds x (ms_advance init ds close_rt run i x)"
| ticker: "\<not> crashed x \<Longrightarrow> h < length (am_heap (ms_mgr x)) \<Longrightarrow>
    t \<in> set (ss_live (am_session (ms_mgr x) h)) \<Longrightarrow> ms_step ds x (ms_ticker run h t x)"
| ticker_end: "\<not> crashed x \<Longrightarrow> h < length (am_heap (ms_mgr x)) \<Longrightarrow>
    t \<in> set (ss_live (am_session (ms_mgr x) h)) \<Longrightarrow> ms_tick x (h, tt_num t) = Waiting \<Longrightarrow>
    ms_step ds x (x\<lparr>ms_mgr := on_session h (runTask_stop t) (ms_mgr x)\<rparr>)"

definition ms_init :: "mgrSys \<Rightarrow> bool" where
  "ms_init x \<longleftrightarrow> x = \<lparr>ms_mgr = NewManager, ms_calls = [], ms_locked = {}, ms_tick = \<lambda>_. Waiting,
     ms_owner = [], ms_registered = {}, ms_failed = {}\<rparr>"

section \<open>Whose session it is\<close>

text \<open>
  A call under way on behalf of a bot holds only sessions created for that bot, and only
  sinks registered for it.
\<close>

definition serves :: "string list \<Rightarrow> nat \<Rightarrow> string \<Rightarrow> bool" where
  "serves own h b \<longleftrightarrow> h < length own \<and> own ! h = b"

fun call_ok :: "(string \<times> nat option) set \<Rightarrow> string list \<Rightarrow> call \<Rightarrow> bool" where
  "call_ok reg own (InSetPushSink h sink) = (h < length own \<and> (own ! h, sink) \<in> reg)"
| "call_ok reg own (InSchedule h task) = (h < length own)"
| "call_ok reg own (InCancelTask h taskID) = (h < length own)"
| "call_ok reg own (InStopBot h c) = (h < length own)"
| "call_ok reg own (SendMatches b sp req h) = serves own h b"
| "call_ok reg own (SendState b sp req h) = serves own h b"
| "call_ok reg own (SendCreate b sp req) = True"
| "call_ok reg own (SendRecheck b sp req replacement) = serves own replacement b"
| "call_ok reg own (SendMatches2 b sp req replacement current) = (serves own replacement b \<and> serves own current b)"
| "call_ok reg own (SendState2 b sp req replacement current) = (serves own replacement b \<and> serves own current b)"
| "call_ok reg own (SendDrop replacement c current req) = (replacement < length own \<and> current < length own)"
| "call_ok reg own (SendSwap b req replacement) = serves own replacement b"
| "call_ok reg own (SendSetSink b req replacement stale sink) =
     (serves own replacement b \<and> (case stale of None \<Rightarrow> True | Some st \<Rightarrow> serves own st b)
      \<and> (case sink of None \<Rightarrow> True | Some k \<Rightarrow> (b, Some k) \<in> reg))"
| "call_ok reg own (SendReplace b req replacement st c) = (serves own replacement b \<and> serves own st b)"
| "call_ok reg own (SendRestore b replacement st err) = (serves own replacement b \<and> serves own st b)"
| "call_ok reg own (SendDiscard replacement c err) = (replacement < length own)"
| "call_ok reg own (SendSession h req) = (h < length own)"
| "call_ok reg own (SendTurn h req runtime) = (h < length own)"
| "call_ok reg own (SendPanicked h) = True"
| "call_ok reg own (Answered resp err) = True"
| "call_ok reg own Finished = True"

definition tables_ok :: "(string \<times> nat option) set \<Rightarrow> string list \<Rightarrow> agentManager \<Rightarrow> bool" where
  "tables_ok reg own m \<longleftrightarrow> mgr_wf m \<and> length own = length (am_heap m) \<and>
     (\<forall>b h. am_sessions m b = Some h \<longrightarrow> own ! h = b) \<and>
     (\<forall>b k. am_sink m b = Some k \<longrightarrow> (b, Some k) \<in> reg) \<and>
     (\<forall>h k. h < length own \<longrightarrow> ss_sink (am_session m h) = Some k \<longrightarrow> (own ! h, Some k) \<in> reg)"

lemma tables_okD:
  assumes "tables_ok reg own m"
  shows "mgr_wf m" "length (am_heap m) = length own"
    and "am_sessions m b = Some h \<Longrightarrow> serves own h b"
    and "am_sink m b = Some k \<Longrightarrow> (b, Some k) \<in> reg"
    and "h < length own \<Longrightarrow> ss_sink (am_session m h) = Some k \<Longrightarrow> (own ! h, Some k) \<in> reg"
    and "h < length own \<Longrightarrow> session_wf (am_session m h)"
  using assms mgr_wfD(1,3) [of m] by (auto simp: tables_ok_def serves_def)

lemma tables_ok_set:
  assumes "tables_ok reg own m" "h < length own" "session_wf s"
    and "ss_sink s = ss_sink (am_session m h) \<or> (own ! h, ss_sink s) \<in> reg"
  shows "tables_ok reg own (am_set h s m)"
proof -
  have h: "h < length (am_heap m)" using tables_okD(2) [OF assms(1)] assms(2) by simp
  have "(own ! k, Some j) \<in> reg" if "k < length own" "ss_sink (am_session (am_set h s m) k) = Some j" for k j
    using that assms(4) tables_okD(5) [OF assms(1) that(1)] h by (metis am_session_set)
  with assms(1) mgr_wf_set [OF tables_okD(1) [OF assms(1)] h assms(3)] show ?thesis
    by (simp add: tables_ok_def)
qed

lemma tables_ok_on:
  assumes "tables_ok reg own m" "h < length own" "\<And>s. session_wf s \<Longrightarrow> session_wf (f s)"
    and "(\<forall>s. ss_sink (f s) = ss_sink s) \<or> (\<forall>s. (own ! h, ss_sink (f s)) \<in> reg)"
  shows "tables_ok reg own (on_session h f m)"
  unfolding on_session_def using assms tables_okD(6) [OF assms(1,2)]
  by (intro tables_ok_set) auto

lemma tables_ok_sink:
  "tables_ok reg own m \<Longrightarrow> h < length own \<Longrightarrow> (own ! h, k) \<in> reg
     \<Longrightarrow> tables_ok reg own (on_session h (session_SetPushSink k) m)"
  by (rule tables_ok_on) (erule session_SetPushSink_wf | simp add: session_SetPushSink_def)+

lemma serves_less: "serves own h b \<Longrightarrow> h < length own"
  by (simp add: serves_def)

lemma serves_unique: "serves own h b \<Longrightarrow> serves own h c \<Longrightarrow> b = c"
  by (simp add: serves_def)

lemma tables_ok_current:
  "tables_ok reg own m \<Longrightarrow> serves own h b \<Longrightarrow> tables_ok reg own (m\<lparr>am_sessions := (am_sessions m)(b \<mapsto> h)\<rparr>)"
  by (auto simp: tables_ok_def mgr_wf_def serves_def)

lemma tables_ok_register:
  "tables_ok reg own m \<Longrightarrow> tables_ok (insert (b, k) reg) own (m\<lparr>am_sinks := (am_sinks m)(b \<mapsto> k)\<rparr>)"
  by (auto simp: tables_ok_def mgr_wf_def am_sink_def)

lemma tables_ok_remove:
  "tables_ok reg own m \<Longrightarrow> tables_ok reg own
     (m\<lparr>am_sessions := (am_sessions m)(b := None), am_sinks := (am_sinks m)(b := None)\<rparr>)"
  by (auto simp: tables_ok_def mgr_wf_def am_sink_def)

lemma tables_ok_new:
  assumes "tables_ok reg own m" "session_wf s" "ss_sink s = None"
  shows "tables_ok reg (own @ [b]) (m\<lparr>am_heap := am_heap m @ [s]\<rparr>)"
  using assms by (auto simp: tables_ok_def mgr_wf_def am_sink_def am_session_def nth_append less_Suc_eq)

lemma call_ok_mono:
  "call_ok reg own c \<Longrightarrow> reg \<subseteq> reg' \<Longrightarrow> call_ok reg' (own @ new) c"
  by (cases c) (auto simp: serves_def nth_append split: option.splits)

lemma call_ok_mono_reg: "call_ok reg own c \<Longrightarrow> reg \<subseteq> reg' \<Longrightarrow> call_ok reg' own c"
  using call_ok_mono [of reg own c reg' "[]"] by simp

lemma closing_call_ok:
  assumes "tables_ok reg own m" "h < length own"
    and "closing_call cl h c go_on ready m = (c', m')"
    and "\<And>p. call_ok reg own (go_on p)" "\<And>e. call_ok reg own (ready e)"
  shows "tables_ok reg own m' \<and> call_ok reg own c'"
proof -
  have "m' = am_set h (snd (close_step cl c (am_session m h))) m"
    using assms(3) by (auto simp: closing_call_def split: prod.splits closing.splits)
  moreover have "call_ok reg own c'"
    using assms(3-5) by (auto simp: closing_call_def split: prod.splits closing.splits)
  ultimately show ?thesis
    using tables_ok_set [OF assms(1,2)] close_step_wf [OF tables_okD(6) [OF assms(1,2)]]
    by (simp add: frame_simps)
qed

lemma begin_turn_ok:
  "tables_ok reg own m \<Longrightarrow> h < length own \<Longrightarrow> tables_ok reg own (am_set h (snd (runLocked_begin (am_session m h))) m)"
  by (intro tables_ok_set runLocked_begin_wf tables_okD(6)) (simp_all add: frame_simps)

lemma create_ok:
  assumes ok: "tables_ok reg own m"
    and step: "call_step init ds cl run (SendCreate b sp req) m = (c', m')"
  shows "tables_ok reg (owner_after (SendCreate b sp req) c' own) m'
    \<and> call_ok reg (owner_after (SendCreate b sp req) c' own) c'"
proof (cases "sessionFor_create init ds sp m")
  case (Pair r m1)
  show ?thesis
  proof (cases r)
    case (Inl e)
    then show ?thesis using step Pair ok sessionFor_create_Inl [of init ds sp m e m1]
      by (auto simp: owner_after_def)
  next
    case (Inr h)
    with Pair obtain s driver where eq: "h = length (am_heap m)" "m1 = m\<lparr>am_heap := am_heap m @ [s]\<rparr>"
        "NewSession (init driver) sp = Inr s" by (auto elim: sessionFor_create_Inr)
    have s: "session_wf s" "ss_sink s = None"
      using NewSession_wf [OF eq(3)] eq(3) by (auto simp: NewSession_def Let_def split: sum.splits)
    have "c' = SendRecheck b sp req h" "m' = m1" using step Pair Inr by simp_all
    then show ?thesis using tables_ok_new [OF ok s, of b] eq(1,2) tables_okD(2) [OF ok]
      by (simp add: owner_after_def serves_def)
  qed
qed

lemma call_step_ok:
  assumes ok: "tables_ok reg own m" and c: "call_ok reg own c"
    and step: "call_step init ds cl run c m = (c', m')"
  shows "tables_ok reg (owner_after c c' own) m' \<and> call_ok reg (owner_after c c' own) c'"
proof (cases "\<exists>b sp req. c = SendCreate b sp req")
  case True
  with create_ok [OF ok] step show ?thesis by blast
next
  case False
  then have own: "owner_after c c' own = own" by (cases c) (auto simp: owner_after_def)
  note current = tables_okD(3) [OF ok] and sinks = tables_okD(4) [OF ok]
  have "tables_ok reg own m' \<and> call_ok reg own c'"
  proof (cases c)
    case (InSetPushSink h k)
    then show ?thesis using c step tables_ok_sink [OF ok, of h k] by auto
  next
    case (InSchedule h task)
    then show ?thesis using c step tables_ok_on [OF ok, of h "\<lambda>s. snd (session_Schedule task s)"]
      by (auto simp: session_Schedule_wf frame_simps)
  next
    case (InCancelTask h k)
    then show ?thesis using c step tables_ok_on [OF ok, of h "\<lambda>s. snd (session_CancelTask k s)"]
      by (auto simp: session_CancelTask_wf frame_simps)
  next
    case (InStopBot h cp)
    with c step show ?thesis by (intro closing_call_ok [OF ok, of h cl cp]) auto
  next
    case (SendRecheck b sp req rep)
    with c step ok current show ?thesis by (auto split: option.splits)
  next
    case (SendDrop rep cp cur req)
    with c step show ?thesis
      by (intro closing_call_ok [OF ok, of rep cl cp]) (auto split: option.split)
  next
    case (SendSwap b req rep)
    with c step tables_ok_current [OF ok] current sinks show ?thesis
      by (auto simp: swap_session_def split: option.split)
  next
    case (SendSetSink b req rep stale sink)
    then have r: "serves own rep b" using c by simp
    have "tables_ok reg own (set_sink rep sink m)"
      using c SendSetSink ok tables_ok_sink [OF ok serves_less [OF r], of sink] r
      by (auto simp: set_sink_def serves_def split: option.splits)
    with c step SendSetSink r show ?thesis by (auto simp: serves_def split: option.splits)
  next
    case (SendReplace b req rep st cp)
    with c step show ?thesis
      by (intro closing_call_ok [OF ok, of st cl cp]) (auto simp: serves_def split: option.split)
  next
    case (SendRestore b rep st e)
    with c step ok tables_ok_current [OF ok, of st b] show ?thesis
      by (auto simp: restore_session_def serves_def)
  next
    case (SendDiscard rep cp e)
    with c step show ?thesis by (intro closing_call_ok [OF ok, of rep cl cp]) auto
  next
    case (SendSession h req)
    with c step begin_turn_ok [OF ok, of h] show ?thesis by (auto split: prod.splits option.splits)
  next
    case (SendTurn h req rt)
    with c step tables_ok_on [OF ok, of h "runLocked_end (run rt req)"] show ?thesis
      by (auto simp: Let_def runLocked_end_wf frame_simps)
  qed (use False c step ok in \<open>auto simp: serves_def split: if_splits\<close>)
  then show ?thesis by (simp add: own)
qed

lemma call_begin_ok:
  assumes ok: "tables_ok reg own m" and step: "call_begin operation m = (c, m')"
  defines "reg' \<equiv> (case operation of OpSetPushSink b k \<Rightarrow> insert (b, k) reg | _ \<Rightarrow> reg)"
  shows "tables_ok reg' own m' \<and> call_ok reg' own c"
  using step tables_okD(3) [OF ok] tables_ok_register [OF ok] tables_ok_remove [OF ok] ok unfolding reg'_def
  by (cases operation)
     (auto simp: setSink_register_def stop_remove_def serves_def split: option.splits)

lemma tick_step_wf:
  "session_wf s \<Longrightarrow> t \<in> set (ss_live s) \<Longrightarrow> session_wf (snd (tick_step run held t ph s))"
  using runLocked_begin_wf [of s] tick_fail_wf [of s t]
  by (cases ph) (auto simp: runLocked_end_wf split: prod.splits option.splits)

lemma tick_step_frame [frame_simps]:
  "ss_sink (snd (tick_step run held t ph s)) = ss_sink s"
  "ss_runtime (snd (tick_step run held t ph s)) = ss_runtime s"
  using runLocked_parts_frame(1,3) [of s]
  by (cases ph; auto simp: frame_simps split: prod.splits option.splits)+

lemma tick_step_Sending:
  "fst (tick_step run held t ph s) = Sending k push \<Longrightarrow> ss_sink s = Some k"
  by (cases ph) (auto simp: session_pushSink_def split: prod.splits option.splits if_splits)

definition pushes_ok ::
  "(string \<times> nat option) set \<Rightarrow> string list \<Rightarrow> (nat \<times> nat \<Rightarrow> tickPhase) \<Rightarrow> bool" where
  "pushes_ok reg own tk \<longleftrightarrow>
     (\<forall>h n k push. tk (h, n) = Sending k push \<longrightarrow> h < length own \<and> (own ! h, Some k) \<in> reg)"

lemma pushes_okD:
  assumes "pushes_ok reg own tk" "tk (h, n) = Sending k push"
  shows "h < length own" "(own ! h, Some k) \<in> reg"
  using assms unfolding pushes_ok_def by blast+

lemma pushes_ok_mono:
  assumes "pushes_ok reg own tk" "reg \<subseteq> reg'"
  shows "pushes_ok reg' (own @ new) tk"
  unfolding pushes_ok_def
proof (intro allI impI)
  fix h n k push assume "tk (h, n) = Sending k push"
  note d = pushes_okD [OF assms(1) this]
  show "h < length (own @ new) \<and> ((own @ new) ! h, Some k) \<in> reg'"
    using d assms(2) by (auto simp: nth_append)
qed

definition ms_inv :: "mgrSys \<Rightarrow> bool" where
  "ms_inv x \<longleftrightarrow> tables_ok (ms_registered x) (ms_owner x) (ms_mgr x) \<and>
     (\<forall>c \<in> set (ms_calls x). call_ok (ms_registered x) (ms_owner x) c) \<and>
     pushes_ok (ms_registered x) (ms_owner x) (ms_tick x)"

lemma owner_after_append: "\<exists>new. owner_after c c' own = own @ new"
  by (cases c; cases c') (auto simp: owner_after_def)

lemma ms_spawn_inv:
  assumes inv: "ms_inv x"
  shows "ms_inv (ms_spawn operation x)"
proof -
  obtain c m where cb: "call_begin operation (ms_mgr x) = (c, m)" by (cases "call_begin operation (ms_mgr x)")
  define reg where
    "reg = (case operation of OpSetPushSink b k \<Rightarrow> insert (b, k) (ms_registered x) | _ \<Rightarrow> ms_registered x)"
  have sub: "ms_registered x \<subseteq> reg" by (cases operation) (auto simp: reg_def)
  have y: "ms_spawn operation x = x\<lparr>ms_mgr := m, ms_calls := ms_calls x @ [c], ms_registered := reg\<rparr>"
    by (simp add: ms_spawn_def cb reg_def)
  have "tables_ok reg (ms_owner x) m \<and> call_ok reg (ms_owner x) c"
    using call_begin_ok [OF _ cb] inv by (simp add: ms_inv_def reg_def)
  moreover have "\<forall>d \<in> set (ms_calls x). call_ok reg (ms_owner x) d"
    using inv call_ok_mono_reg [OF _ sub] by (simp add: ms_inv_def)
  moreover have "pushes_ok reg (ms_owner x) (ms_tick x)"
    using pushes_ok_mono [OF _ sub, of "ms_owner x" "ms_tick x" "[]"] inv by (simp add: ms_inv_def)
  ultimately show ?thesis unfolding ms_inv_def y by simp
qed

lemma ms_advance_inv:
  assumes inv: "ms_inv x" and i: "i < length (ms_calls x)"
  shows "ms_inv (ms_advance init ds cl run i x)"
proof -
  let ?c = "ms_calls x ! i"
  obtain c' m where cs: "call_step init ds cl run ?c (ms_mgr x) = (c', m)"
    by (cases "call_step init ds cl run ?c (ms_mgr x)")
  let ?own = "owner_after ?c c' (ms_owner x)"
  obtain new where new: "?own = ms_owner x @ new" using owner_after_append by blast
  have "tables_ok (ms_registered x) ?own m \<and> call_ok (ms_registered x) ?own c'"
    using call_step_ok [OF _ _ cs] inv i by (simp add: ms_inv_def)
  moreover have "\<forall>d \<in> set (ms_calls x). call_ok (ms_registered x) ?own d"
    using inv call_ok_mono [OF _ subset_refl, of "ms_registered x" "ms_owner x" _ new]
    by (simp add: ms_inv_def new)
  moreover have "pushes_ok (ms_registered x) ?own (ms_tick x)"
    using pushes_ok_mono [OF _ subset_refl] inv by (simp add: ms_inv_def new)
  ultimately show ?thesis
    unfolding ms_inv_def by (auto simp: ms_advance_def Let_def cs dest!: set_update_subset_insert [THEN subsetD])
qed

lemma ms_ticker_inv:
  assumes inv: "ms_inv x" and h: "h < length (am_heap (ms_mgr x))"
    and t: "t \<in> set (ss_live (am_session (ms_mgr x) h))"
  shows "ms_inv (ms_ticker run h t x)"
proof -
  let ?ph = "ms_tick x (h, tt_num t)" and ?s = "am_session (ms_mgr x) h"
  obtain ph' s where ts: "tick_step run (h \<in> ms_locked x) t ?ph ?s = (ph', s)"
    by (cases "tick_step run (h \<in> ms_locked x) t ?ph ?s")
  have ok: "tables_ok (ms_registered x) (ms_owner x) (ms_mgr x)" using inv by (simp add: ms_inv_def)
  have h': "h < length (ms_owner x)" using h tables_okD(2) [OF ok] by simp
  have s: "session_wf s" "ss_sink s = ss_sink ?s"
    using tick_step_wf [OF tables_okD(6) [OF ok h'] t, of run "h \<in> ms_locked x" ?ph] ts
      tick_step_frame(1) [of run "h \<in> ms_locked x" t ?ph ?s] by simp_all
  have "tables_ok (ms_registered x) (ms_owner x) (am_set h s (ms_mgr x))"
    using s by (intro tables_ok_set [OF ok h']) simp_all
  moreover have "(ms_owner x ! h, Some k) \<in> ms_registered x" if "ph' = Sending k push" for k push
    using tick_step_Sending [of run "h \<in> ms_locked x" t ?ph ?s k push] that ts tables_okD(5) [OF ok h'] by simp
  then have "pushes_ok (ms_registered x) (ms_owner x) ((ms_tick x)((h, tt_num t) := ph'))"
    using pushes_okD [of "ms_registered x" "ms_owner x" "ms_tick x"] inv h'
    unfolding ms_inv_def pushes_ok_def by (metis fun_upd_apply prod.inject)
  ultimately show ?thesis using inv by (simp add: ms_inv_def ms_ticker_def Let_def ts)
qed

lemma ms_step_inv: "ms_step ds x y \<Longrightarrow> ms_inv x \<Longrightarrow> ms_inv y"
proof (induction rule: ms_step.induct)
  case (ticker_end x h t)
  then have ok: "tables_ok (ms_registered x) (ms_owner x) (ms_mgr x)" by (simp add: ms_inv_def)
  then have "tables_ok (ms_registered x) (ms_owner x) (on_session h (runTask_stop t) (ms_mgr x))"
    using ticker_end(2) tables_okD(2) [OF ok]
    by (intro tables_ok_on) (simp_all add: runTask_stop_wf frame_simps)
  with ticker_end(5) show ?case by (simp add: ms_inv_def)
qed (simp_all add: ms_spawn_inv ms_advance_inv ms_ticker_inv)

lemma ms_init_inv: "ms_init x \<Longrightarrow> ms_inv x"
  using mgr_wf_New by (auto simp: ms_init_def ms_inv_def tables_ok_def pushes_ok_def) (simp_all add: NewManager_def am_sink_def)

interpretation managers: transition_system ms_init "ms_step ds" ms_inv for ds
  by unfold_locales (erule ms_init_inv, erule ms_step_inv)

section \<open>Who holds a runtime\<close>

text \<open>The sessions a call under way is going to install or to close.\<close>

definition while_closing :: "nat \<Rightarrow> closing \<Rightarrow> nat set" where
  "while_closing h c = (case c of Closed _ \<Rightarrow> {} | _ \<Rightarrow> {h})"

fun in_hand :: "call \<Rightarrow> nat set" where
  "in_hand (InStopBot h c) = while_closing h c"
| "in_hand (SendRecheck b sp req replacement) = {replacement}"
| "in_hand (SendMatches2 b sp req replacement current) = {replacement}"
| "in_hand (SendState2 b sp req replacement current) = {replacement}"
| "in_hand (SendDrop replacement c current req) = while_closing replacement c"
| "in_hand (SendSwap b req replacement) = {replacement}"
| "in_hand (SendSetSink b req replacement stale sink) = set_option stale"
| "in_hand (SendReplace b req replacement st c) = while_closing st c"
| "in_hand (SendRestore b replacement st err) = {replacement}"
| "in_hand (SendDiscard replacement c err) = while_closing replacement c"
| "in_hand _ = {}"

definition current :: "agentManager \<Rightarrow> nat \<Rightarrow> bool" where
  "current m h \<longleftrightarrow> (\<exists>b. am_sessions m b = Some h)"

text \<open>
  What one section does to a session that holds a runtime: it held it before, unless it has just been created
  and is in hand, and when it leaves the table or a hand it is in a hand, in the table or one that would not close.
\<close>

definition hand_over :: "call \<Rightarrow> call \<Rightarrow> nat set \<Rightarrow> agentManager \<Rightarrow> agentManager \<Rightarrow> nat \<Rightarrow> bool" where
  "hand_over c c' F m m' h \<longleftrightarrow>
     ss_runtime (am_session m' h) = None \<or> h \<in> in_hand c' \<or>
     (h < length (am_heap m) \<and> ss_runtime (am_session m h) \<noteq> None \<and> (current m h \<longrightarrow> current m' h) \<and>
      (h \<in> in_hand c \<longrightarrow> current m' h \<or> h \<in> F))"

lemma closing_call_hand_over:
  assumes "h < length (am_heap m)" "k < length (am_heap m)"
    and step: "closing_call cl h p go_on ready m = (c', m')"
    and c: "in_hand c = while_closing h p" "closes c = Some (h, p)"
    and go_on: "\<And>q. (\<And>e. q \<noteq> Closed e) \<Longrightarrow> h \<in> in_hand (go_on q)"
  shows "hand_over c c' (failed_after cl c {}) m m' k"
proof -
  obtain q s where cs: "close_step cl p (am_session m h) = (q, s)"
    by (cases "close_step cl p (am_session m h)")
  have m': "m' = am_set h s m" and c': "(\<And>e. q \<noteq> Closed e) \<Longrightarrow> c' = go_on q"
    using step by (auto simp: closing_call_def cs split: closing.splits)
  have cur: "current m' k = current m k" by (simp add: m' current_def)
  have "ss_runtime s = None \<or> h \<in> in_hand c' \<or> h \<notin> in_hand c \<or> h \<in> failed_after cl c {}"
    using cs go_on c' by (cases p) (auto simp: c failed_after_def while_closing_def split: option.splits)
  moreover have "ss_runtime s \<noteq> None \<Longrightarrow> ss_runtime (am_session m h) \<noteq> None"
    using cs by (cases p) (auto split: option.splits if_splits)
  ultimately show ?thesis
    using assms(1,2) cur while_closing_def[of h p] by (auto simp: hand_over_def m' c(1) split: closing.splits)
qed

lemma hand_over_same:
  assumes "\<And>h. ss_runtime (am_session m' h) = ss_runtime (am_session m h)"
    and "am_sessions m' = am_sessions m" "in_hand c \<subseteq> in_hand c'" "k < length (am_heap m)"
  shows "hand_over c c' F m m' k"
  using assms by (auto simp: hand_over_def current_def)

lemma on_session_runtime:
  assumes "h < length (am_heap m)" "\<And>s. ss_runtime (f s) = ss_runtime s"
  shows "ss_runtime (am_session (on_session h f m) k) = ss_runtime (am_session m k)"
    and "am_sessions (on_session h f m) = am_sessions m"
  using assms by (simp_all add: on_session_def)

lemma set_sink_runtime:
  assumes "h < length (am_heap m)"
  shows "ss_runtime (am_session (set_sink h sink m) k) = ss_runtime (am_session m k)"
    and "am_sessions (set_sink h sink m) = am_sessions m" "length (am_heap (set_sink h sink m)) = length (am_heap m)"
  using assms by (cases sink; simp add: set_sink_def session_SetPushSink_def on_session_def)+

lemma create_hand_over:
  assumes "call_step init ds cl run (SendCreate b sp req) m = (c', m')" "k < length (am_heap m')"
  shows "hand_over (SendCreate b sp req) c' F m m' k"
proof (cases "sessionFor_create init ds sp m")
  case (Pair r m1)
  show ?thesis
  proof (cases r)
    case (Inl e)
    with assms Pair sessionFor_create_Inl [of init ds sp m e m1] show ?thesis
      by (auto simp: hand_over_def)
  next
    case (Inr h)
    with Pair obtain s driver where eq: "h = length (am_heap m)" "m1 = m\<lparr>am_heap := am_heap m @ [s]\<rparr>"
      by (auto elim: sessionFor_create_Inr)
    with assms Pair Inr have "m' = m\<lparr>am_heap := am_heap m @ [s]\<rparr>" "c' = SendRecheck b sp req h" by simp_all
    with eq(1) assms(2) show ?thesis
      by (cases "k = h") (auto simp: hand_over_def current_def am_session_def nth_append)
  qed
qed

lemma call_step_hand_over:
  assumes ok: "tables_ok reg own m" and c: "call_ok reg own c"
    and step: "call_step init ds cl run c m = (c', m')" and k: "k < length (am_heap m')"
  shows "hand_over c c' (failed_after cl c {}) m m' k"
proof (cases "\<exists>b sp req. c = SendCreate b sp req")
  case True
  with create_hand_over step k show ?thesis by blast
next
  case False
  note len = tables_okD(2) [OF ok]
  have k': "k < length (am_heap m)"
  proof -
    have "length (am_heap m') = length own"
      using call_step_ok [OF ok c step] False tables_okD(2)
      by (cases c) (auto simp: owner_after_def)
    with k len show ?thesis by simp
  qed
  note close = closing_call_hand_over [OF _ k']
  show ?thesis
  proof (cases c)
    case (InSetPushSink h sink)
    with c step k' len show ?thesis
      by (auto intro!: hand_over_same on_session_runtime simp: session_SetPushSink_def)
  next
    case (InSchedule h task)
    with c step k' len show ?thesis by (auto intro!: hand_over_same on_session_runtime simp: frame_simps)
  next
    case (InCancelTask h i)
    with c step k' len show ?thesis by (auto intro!: hand_over_same on_session_runtime simp: frame_simps)
  next
    case (InStopBot h p)
    with c step len show ?thesis by (intro close) (auto simp: while_closing_def split: closing.split)
  next
    case (SendDrop rep p cur req)
    with c step len show ?thesis by (intro close) (auto simp: while_closing_def split: closing.split)
  next
    case (SendReplace b req rep st p)
    with c step len show ?thesis by (intro close) (auto simp: while_closing_def serves_def split: closing.split)
  next
    case (SendDiscard rep p e)
    with c step len show ?thesis by (intro close) (auto simp: while_closing_def split: closing.split)
  next
    case (SendSwap b req rep)
    with step k' show ?thesis by (auto simp: hand_over_def swap_session_def current_def)
  next
    case (SendSetSink b req rep stale sink)
    with c step k' len set_sink_runtime [of rep m] serves_less [of own rep b] show ?thesis
      by (auto intro!: hand_over_same simp: while_closing_def split: option.splits)
  next
    case (SendRestore b rep st e)
    have "\<exists>d. am_sessions (restore_session b rep st m) d = Some k" if "am_sessions m a = Some k" "k \<noteq> rep" for a
      using that by (cases "a = b") (auto simp: restore_session_def)
    moreover have "am_session (restore_session b rep st m) k = am_session m k"
      by (simp add: restore_session_def)
    ultimately show ?thesis using SendRestore step k'
      by (auto simp: hand_over_def current_def while_closing_def)
  next
    case (SendTurn h req rt)
    with c step k' len show ?thesis
      by (auto intro!: hand_over_same on_session_runtime simp: Let_def frame_simps)
  next
    case (SendSession h req)
    with c step k' len runLocked_parts_frame(3) [of "am_session m h"] show ?thesis
      by (auto intro!: hand_over_same split: prod.splits option.splits)
  qed (use False step k' in \<open>auto intro!: hand_over_same simp: while_closing_def split: if_splits option.splits\<close>)
qed

definition ms_tracked :: "mgrSys \<Rightarrow> bool" where
  "ms_tracked x \<longleftrightarrow> ms_inv x \<and>
     (\<forall>h < length (am_heap (ms_mgr x)). ss_runtime (am_session (ms_mgr x) h) \<noteq> None \<longrightarrow>
        current (ms_mgr x) h \<or> (\<exists>c \<in> set (ms_calls x). h \<in> in_hand c) \<or> h \<in> ms_failed x)"

lemma ms_trackedD:
  assumes "ms_tracked x"
  shows "ms_inv x"
    and "h < length (am_heap (ms_mgr x)) \<Longrightarrow> ss_runtime (am_session (ms_mgr x) h) \<noteq> None \<Longrightarrow>
      current (ms_mgr x) h \<or> (\<exists>c \<in> set (ms_calls x). h \<in> in_hand c) \<or> h \<in> ms_failed x"
  using assms by (simp_all add: ms_tracked_def)

lemma ms_tracked_same:
  assumes "ms_tracked x" "ms_inv y" "length (am_heap (ms_mgr y)) = length (am_heap (ms_mgr x))"
    and "\<And>h. ss_runtime (am_session (ms_mgr y) h) = ss_runtime (am_session (ms_mgr x) h)"
    and "am_sessions (ms_mgr y) = am_sessions (ms_mgr x)" "ms_calls y = ms_calls x" "ms_failed y = ms_failed x"
  shows "ms_tracked y"
  using assms by (simp add: ms_tracked_def current_def)

lemma ms_spawn_tracked:
  assumes x: "ms_tracked x"
  shows "ms_tracked (ms_spawn operation x)"
proof -
  obtain c m where cb: "call_begin operation (ms_mgr x) = (c, m)" by (cases "call_begin operation (ms_mgr x)")
  have heap: "am_heap m = am_heap (ms_mgr x)"
    using cb by (cases operation) (auto simp: setSink_register_def stop_remove_def split: option.splits)
  then have same: "am_session m h = am_session (ms_mgr x) h" for h by (simp add: am_session_def)
  have cur: "current m h \<or> h \<in> in_hand c" if "current (ms_mgr x) h" for h
  proof -
    from that obtain b where b: "am_sessions (ms_mgr x) b = Some h" by (auto simp: current_def)
    show ?thesis
    proof (cases "am_sessions m b = Some h")
      case True
      then show ?thesis by (auto simp: current_def)
    next
      case False
      with cb b show ?thesis by (cases operation)
        (auto simp: setSink_register_def stop_remove_def while_closing_def split: option.splits if_splits)
    qed
  qed
  have y: "ms_mgr (ms_spawn operation x) = m" "ms_calls (ms_spawn operation x) = ms_calls x @ [c]"
    "ms_failed (ms_spawn operation x) = ms_failed x"
    by (simp_all add: ms_spawn_def cb)
  show ?thesis unfolding ms_tracked_def
  proof (intro conjI allI impI)
    show "ms_inv (ms_spawn operation x)" by (rule ms_spawn_inv [OF ms_trackedD(1) [OF x]])
  next
    fix h assume "h < length (am_heap (ms_mgr (ms_spawn operation x)))"
      "ss_runtime (am_session (ms_mgr (ms_spawn operation x)) h) \<noteq> None"
    with ms_trackedD(2) [OF x, of h] cur [of h]
    show "current (ms_mgr (ms_spawn operation x)) h \<or> (\<exists>c \<in> set (ms_calls (ms_spawn operation x)). h \<in> in_hand c)
        \<or> h \<in> ms_failed (ms_spawn operation x)"
      by (auto simp: y heap same)
  qed
qed

lemma in_hand_update:
  assumes "i < length cs"
  shows "(\<exists>d \<in> set (cs[i := c']). h \<in> in_hand d) \<longleftrightarrow>
    h \<in> in_hand c' \<or> (\<exists>j < length cs. j \<noteq> i \<and> h \<in> in_hand (cs ! j))"
  unfolding Bex_def in_set_conv_nth length_list_update using assms by (metis nth_list_update)

lemma failed_after_Un: "failed_after cl c F = F \<union> failed_after cl c {}"
  by (auto simp: failed_after_def split: option.splits closing.splits)

lemma ms_advance_tracked:
  assumes x: "ms_tracked x" and i: "i < length (ms_calls x)"
  shows "ms_tracked (ms_advance init ds cl run i x)" (is "ms_tracked ?y")
proof -
  let ?c = "ms_calls x ! i"
  obtain c' m where cs: "call_step init ds cl run ?c (ms_mgr x) = (c', m)"
    by (cases "call_step init ds cl run ?c (ms_mgr x)")
  have y: "ms_mgr ?y = m" "ms_calls ?y = (ms_calls x)[i := c']"
    "ms_failed ?y = ms_failed x \<union> failed_after cl ?c {}"
    by (simp_all add: ms_advance_def cs Let_def failed_after_Un [symmetric])
  have inv: "tables_ok (ms_registered x) (ms_owner x) (ms_mgr x)" "call_ok (ms_registered x) (ms_owner x) ?c"
    using ms_trackedD(1) [OF x] i by (simp_all add: ms_inv_def)
  have "current m h \<or> (\<exists>d \<in> set (ms_calls ?y). h \<in> in_hand d) \<or> h \<in> ms_failed ?y"
    if h: "h < length (am_heap m)" "ss_runtime (am_session m h) \<noteq> None" for h
  proof (cases "h \<in> in_hand c'")
    case True
    then show ?thesis using i by (auto simp: y(2) in_hand_update)
  next
    case False
    with call_step_hand_over [OF inv cs h(1)] h(2)
    have before: "h < length (am_heap (ms_mgr x))" "ss_runtime (am_session (ms_mgr x) h) \<noteq> None"
      and over: "current (ms_mgr x) h \<longrightarrow> current m h"
        "h \<in> in_hand ?c \<longrightarrow> current m h \<or> h \<in> failed_after cl ?c {}"
      by (simp_all add: hand_over_def)
    from ms_trackedD(2) [OF x before] over show ?thesis
      using i by (auto simp: y(2,3) in_hand_update in_set_conv_nth)
  qed
  with ms_advance_inv [OF ms_trackedD(1) [OF x] i] show ?thesis by (simp add: ms_tracked_def y(1))
qed

lemma ms_step_tracked: "ms_step ds x y \<Longrightarrow> ms_tracked x \<Longrightarrow> ms_tracked y"
proof (induction rule: ms_step.induct)
  case (ticker x h t run)
  let ?s = "am_session (ms_mgr x) h"
  obtain ph' s where ts: "tick_step run (h \<in> ms_locked x) t (ms_tick x (h, tt_num t)) ?s = (ph', s)"
    by (cases "tick_step run (h \<in> ms_locked x) t (ms_tick x (h, tt_num t)) ?s")
  have "ss_runtime s = ss_runtime ?s"
    using tick_step_frame(2) [of run "h \<in> ms_locked x" t "ms_tick x (h, tt_num t)" ?s] ts by simp
  with ticker ts show ?case
    by (intro ms_tracked_same [OF ticker(4) ms_ticker_inv [OF ms_trackedD(1) [OF ticker(4)] ticker(2,3)]])
       (simp_all add: ms_ticker_def Let_def)
next
  case (ticker_end x h t)
  from ms_step_inv [OF ms_step.ticker_end [OF ticker_end(1-4)] ms_trackedD(1) [OF ticker_end(5)]] ticker_end
  show ?case by (intro ms_tracked_same [OF ticker_end(5)]) (simp_all add: on_session_def frame_simps)
qed (simp_all add: ms_spawn_tracked ms_advance_tracked)

lemma ms_init_tracked: "ms_init x \<Longrightarrow> ms_tracked x"
  using ms_init_inv [of x] by (auto simp: ms_tracked_def ms_init_def NewManager_def)

interpretation held_runtimes: transition_system ms_init "ms_step ds" ms_tracked for ds
  by unfold_locales (erule ms_init_tracked, erule ms_step_tracked)

section \<open>Closing behind a call's back\<close>



lemma spawn_to: "\<not> crashed x \<Longrightarrow> ms_spawn operation x = y \<Longrightarrow> ms_step ds x y"
  using ms_step.spawn by blast

lemma advance_to:
  "\<not> crashed x \<Longrightarrow> i < length (ms_calls x) \<Longrightarrow> (\<And>h. waits_for (ms_calls x ! i) = Some h \<Longrightarrow> h \<notin> ms_locked x)
     \<Longrightarrow> ms_advance init ds cl run i x = y \<Longrightarrow> ms_step ds x y"
  using ms_step.advance by blast



section \<open>Properties\<close>

definition call_over :: "call \<Rightarrow> bool" where
  "call_over c \<longleftrightarrow> (case c of Answered _ _ \<Rightarrow> True | Finished \<Rightarrow> True | _ \<Rightarrow> False)"

lemma call_over_in_hand: "call_over c \<Longrightarrow> in_hand c = {}"
  by (cases c) (simp_all add: call_over_def)

text \<open>
  C3. No CLI process is forgotten, however the critical sections of sends, stops,
  registrations and ticks interleave: in every reachable state a session that holds a
  runtime is the current session of a bot, or a call under way is about to install or to close it,
  or a \<open>Close\<close> of it has failed.  So once every call has returned, a session that holds a
  runtime is a current one unless its \<open>Close\<close> failed.
\<close>

theorem mgr_no_leaked_runtime:
  assumes "ms_init x" "(ms_step ds)\<^sup>*\<^sup>* x y"
    and "h < length (am_heap (ms_mgr y))" "ss_runtime (am_session (ms_mgr y) h) \<noteq> None"
  shows "((\<exists>b. am_sessions (ms_mgr y) b = Some h) \<or> (\<exists>c \<in> set (ms_calls y). h \<in> in_hand c) \<or> h \<in> ms_failed y)
    \<and> ((\<forall>c \<in> set (ms_calls y). call_over c) \<longrightarrow> (\<exists>b. am_sessions (ms_mgr y) b = Some h) \<or> h \<in> ms_failed y)"
  using ms_trackedD(2) [OF held_runtimes.reachable_inv [OF assms(1,2)] assms(3,4)] call_over_in_hand
  by (auto simp: current_def)

text \<open>
  C4. However the critical sections of concurrent calls and ticks interleave, and whether or
  not runtimes agree to close, in every reachable state: pointers are allocated and no session
  serves two bots; the tasks of every session have distinct ids and valid intervals and prompts,
  and every running ticker is registered or told to stop; a bot's current session was created for
  that bot; and a session's sink, as well as the sink an answer of its ticks is handed to, was registered for
  the bot the session was created for, so no answer of a scheduled task goes to another bot's receiver.
\<close>

theorem mgr_reachable_wf:
  assumes "ms_init x" "(ms_step ds)\<^sup>*\<^sup>* x y"
  shows "mgr_wf (ms_mgr y)
    \<and> (\<forall>b h. am_sessions (ms_mgr y) b = Some h \<longrightarrow> ms_owner y ! h = b)
    \<and> (\<forall>h k. h < length (am_heap (ms_mgr y)) \<longrightarrow> ss_sink (am_session (ms_mgr y) h) = Some k \<longrightarrow>
          (ms_owner y ! h, Some k) \<in> ms_registered y)
    \<and> (\<forall>h n k push. ms_tick y (h, n) = Sending k push \<longrightarrow> (ms_owner y ! h, Some k) \<in> ms_registered y)"
proof -
  have ok: "tables_ok (ms_registered y) (ms_owner y) (ms_mgr y)" "pushes_ok (ms_registered y) (ms_owner y) (ms_tick y)"
    using managers.reachable_inv [OF assms] by (simp_all add: ms_inv_def)
  show ?thesis using ok(1) pushes_okD(2) [OF ok(2)] by (simp add: tables_ok_def)
qed


text \<open>
  A \<open>SetPushSink\<close> between the swap of the sessions and the call that hands the sink read there
  to the replacement is undone: the older sink stays in the session, although the table has the newer one.
\<close>

theorem older_sink_kept:
  assumes "ms_init x" "(ms_step ds)\<^sup>*\<^sup>* x y" "\<not> crashed y"
    and i: "i < length (ms_calls y)" "ms_calls y ! i = SendSetSink b req h stale (Some k)"
    and b: "am_sessions (ms_mgr y) b = Some h"
  shows "\<exists>z. (ms_step ds)\<^sup>*\<^sup>* y z \<and> am_sessions (ms_mgr z) b = Some h
    \<and> am_sink (ms_mgr z) b = Some k' \<and> ss_sink (am_session (ms_mgr z) h) = Some k"
proof -
  let ?n = "length (ms_calls y)" and ?run = "\<lambda>_ _. (empty_response, None)"
  let ?adv = "ms_advance (\<lambda>_ _. Inr 0) ds (\<lambda>_. None) ?run"
  let ?y1 = "ms_spawn (OpSetPushSink b (Some k')) y" let ?y2 = "?adv ?n ?y1" let ?z = "?adv i ?y2"
  have h: "h < length (am_heap (ms_mgr y))"
    using managers.reachable_inv [OF assms(1,2)] b mgr_wfD(1) [of "ms_mgr y" b h]
    by (simp add: ms_inv_def tables_ok_def)
  have y1: "ms_calls ?y1 = ms_calls y @ [InSetPushSink h (Some k')]" "am_heap (ms_mgr ?y1) = am_heap (ms_mgr y)"
    "am_sessions (ms_mgr ?y1) = am_sessions (ms_mgr y)" "am_sinks (ms_mgr ?y1) = (am_sinks (ms_mgr y))(b \<mapsto> Some k')"
    using b by (simp_all add: ms_spawn_def setSink_register_def)
  have y2: "ms_calls ?y2 = ms_calls y @ [Finished]" "length (am_heap (ms_mgr ?y2)) = length (am_heap (ms_mgr y))"
    "am_sessions (ms_mgr ?y2) = am_sessions (ms_mgr y)" "am_sinks (ms_mgr ?y2) = (am_sinks (ms_mgr y))(b \<mapsto> Some k')"
    by (simp_all add: ms_advance_def Let_def y1 on_session_def)
  have z: "am_sessions (ms_mgr ?z) b = Some h" "am_sink (ms_mgr ?z) b = Some k'"
    "ss_sink (am_session (ms_mgr ?z) h) = Some k"
    using i b h by (simp_all add: ms_advance_def [of _ _ _ _ i] Let_def y2 nth_append set_sink_def on_session_def
        session_SetPushSink_def am_sink_def split: option.splits)
  have c: "\<not> crashed ?y1" "\<not> crashed ?y2" using assms(3) by (simp_all add: crashed_def y1(1) y2(1))
  have "ms_step ds y ?y1" by (rule ms_step.spawn [OF assms(3)])
  moreover have "ms_step ds ?y1 ?y2" using c(1) by (intro ms_step.advance) (simp_all add: y1(1))
  moreover have "ms_step ds ?y2 ?z" using c(2) i by (intro ms_step.advance) (simp_all add: y2(1) nth_append)
  ultimately show ?thesis using z by (meson converse_rtranclp_into_rtranclp r_into_rtranclp)
qed

section \<open>A run\<close>

text \<open>
  Bot \<open>b1\<close> registers sink 3 and sends: the session is created, is swapped in
  (\<open>sample_swapped\<close>), gets the sink and is about to run the turn (\<open>sample_sending\<close>).
\<close>

abbreviation sample_drivers :: "unit drivers" where
  "sample_drivers \<equiv> [''claude-acp'' \<mapsto> ()]"

definition sample_new :: session where
  "sample_new = \<lparr>ss_state = SessionReady, ss_runtime = Some 7, ss_spec = sample_spec, ss_sink = None,
     ss_tasks = [], ss_taskSeq = 0, ss_schedClosed = False, ss_stopped = [], ss_live = [], ss_nextTimer = 0\<rparr>"

definition sample_swapped :: mgrSys where
  "sample_swapped = \<lparr>ms_mgr = \<lparr>am_heap = [sample_new], am_sessions = [''b1'' \<mapsto> 0], am_sinks = [''b1'' \<mapsto> Some 3]\<rparr>,
     ms_calls = [Finished, SendSetSink ''b1'' empty_request 0 None (Some 3)], ms_locked = {}, ms_tick = \<lambda>_. Waiting,
     ms_owner = [''b1''], ms_registered = {(''b1'', Some 3)}, ms_failed = {}\<rparr>"

definition sample_sending :: mgrSys where
  "sample_sending = sample_swapped\<lparr>ms_mgr := \<lparr>am_heap = [sample_new\<lparr>ss_sink := Some 3\<rparr>],
       am_sessions = [''b1'' \<mapsto> 0], am_sinks = [''b1'' \<mapsto> Some 3]\<rparr>,
     ms_calls := [Finished, SendSession 0 empty_request]\<rparr>"

definition sample_init :: mgrSys where
  "sample_init = \<lparr>ms_mgr = NewManager, ms_calls = [], ms_locked = {}, ms_tick = \<lambda>_. Waiting,
     ms_owner = [], ms_registered = {}, ms_failed = {}\<rparr>"

lemma sample_init: "ms_init sample_init"
  by (simp add: ms_init_def sample_init_def)

lemma sample_swapped_reachable: "(ms_step sample_drivers)\<^sup>*\<^sup>* sample_init sample_swapped"
proof -
  let ?x1 = "sample_init\<lparr>ms_mgr := NewManager\<lparr>am_sinks := [''b1'' \<mapsto> Some 3]\<rparr>, ms_calls := [Finished],
     ms_registered := {(''b1'', Some 3)}\<rparr>"
  let ?x2 = "?x1\<lparr>ms_calls := [Finished, SendCreate ''b1'' sample_spec empty_request]\<rparr>"
  let ?m = "NewManager\<lparr>am_heap := [sample_new], am_sinks := [''b1'' \<mapsto> Some 3]\<rparr>"
  let ?x3 = "?x2\<lparr>ms_mgr := ?m, ms_owner := [''b1''],
     ms_calls := [Finished, SendRecheck ''b1'' sample_spec empty_request 0]\<rparr>"
  let ?x4 = "?x3\<lparr>ms_calls := [Finished, SendSwap ''b1'' empty_request 0]\<rparr>"
  note defs = ms_advance_def locked_after_def owner_after_def failed_after_def Let_def sample_init_def
    NewManager_def sample_swapped_def
  note adv = advance_to [where i = 1 and init = "\<lambda>_ _. Inr 7" and ds = sample_drivers and cl = "\<lambda>_. None"
      and run = "\<lambda>_ _. (empty_response, None)"]
  have "ms_step sample_drivers sample_init ?x1"
    by (rule spawn_to [where operation = "OpSetPushSink ''b1'' (Some 3)"])
       (simp_all add: crashed_def ms_spawn_def setSink_register_def sample_init_def NewManager_def)
  moreover have "ms_step sample_drivers ?x1 ?x2"
    by (rule spawn_to [where operation = "OpSend ''b1'' sample_spec empty_request"])
       (simp_all add: crashed_def ms_spawn_def NewManager_def)
  moreover have "sessionFor_create (\<lambda>_ _. Inr 7) sample_drivers sample_spec (NewManager\<lparr>am_sinks := [''b1'' \<mapsto> Some 3]\<rparr>) = (Inr 0, ?m)"
    by (simp add: sessionFor_create_def driverForSpec_def LookupDriver_def NewSession_def NewManager_def
        sample_spec_def sample_new_def cloneSpec_def empty_spec_def)
  then have "ms_step sample_drivers ?x2 ?x3" by (intro adv) (simp_all add: crashed_def defs)
  moreover have "ms_step sample_drivers ?x3 ?x4" "ms_step sample_drivers ?x4 sample_swapped"
    by (rule adv; simp add: crashed_def defs swap_session_def am_sink_def)+
  ultimately show ?thesis by (meson converse_rtranclp_into_rtranclp r_into_rtranclp)
qed

lemma sample_sending_reachable: "(ms_step sample_drivers)\<^sup>*\<^sup>* sample_init sample_sending"
proof -
  have "ms_step sample_drivers sample_swapped sample_sending"
    by (rule advance_to [where i = 1 and init = "\<lambda>_ _. Inr 7" and ds = sample_drivers and cl = "\<lambda>_. None"
          and run = "\<lambda>_ _. (empty_response, None)"])
       (simp_all add: crashed_def ms_advance_def locked_after_def owner_after_def failed_after_def Let_def
         sample_swapped_def sample_sending_def set_sink_def on_session_def am_set_def am_session_def
         session_SetPushSink_def)
  with sample_swapped_reachable show ?thesis by (rule rtranclp.rtrancl_into_rtrancl)
qed

lemma mgr_no_leaked_runtime_witness:
  "ss_runtime (am_session (ms_mgr sample_sending) 0) = Some 7
    \<and> (\<exists>b. am_sessions (ms_mgr sample_sending) b = Some 0)"
  using mgr_no_leaked_runtime [OF sample_init sample_sending_reachable, of 0]
  by (auto simp: sample_sending_def sample_swapped_def am_session_def sample_new_def)

lemma mgr_reachable_wf_witness:
  "mgr_wf (ms_mgr sample_sending) \<and> ms_owner sample_sending ! 0 = ''b1''
    \<and> (''b1'', Some 3) \<in> ms_registered sample_sending"
  using mgr_reachable_wf [OF sample_init sample_sending_reachable]
  by (simp add: sample_sending_def sample_swapped_def am_session_def)


lemma older_sink_kept_witness:
  "\<exists>z. (ms_step sample_drivers)\<^sup>*\<^sup>* sample_swapped z \<and> am_sink (ms_mgr z) ''b1'' = Some 4
    \<and> ss_sink (am_session (ms_mgr z) 0) = Some 3"
  using older_sink_kept [OF sample_init sample_swapped_reachable, of 1 "''b1''" empty_request 0 None 3 4]
  by (auto simp: crashed_def sample_swapped_def)

end
