(* ===== verification/CliResolver.thy ===== *)
theory CliResolver
  imports BotService GoUrl JsonText
begin

text \<open>
  The CLI resolver (\<open>internal/app/bot/cli_resolver.go\<close>): from the configuration of a bot to the
  \<open>spec\<close> its agent session is started with.  The file system is the record \<open>fs\<close> of the calls the
  source makes of the package \<open>os\<close>; of \<open>net/url\<close>, the splitting of a URL around its query and its
  reassembly are arguments, the query itself is that of \<open>GoUrl\<close>.
\<close>

section \<open>Errors and configuration\<close>

definition ErrBotCLIConfigMissing :: goerr where
  "ErrBotCLIConfigMissing = \<lparr>err_msg = ''bot cli config missing'', err_wraps = [CLIConfigMissing]\<rparr>"

definition ErrBotCLIUnavailable :: goerr where
  "ErrBotCLIUnavailable = \<lparr>err_msg = ''bot cli unavailable'', err_wraps = [CLIUnavailable]\<rparr>"

definition ErrBotCLIUnsupportedMode :: goerr where
  "ErrBotCLIUnsupportedMode = \<lparr>err_msg = ''bot cli mode unsupported'', err_wraps = [CLIUnsupportedMode]\<rparr>"

record 'w fs =
  fs_MkdirAll :: "string \<Rightarrow> ('w, unit) io"
  fs_WriteFile :: "string \<Rightarrow> string \<Rightarrow> ('w, unit) io"
  fs_Remove :: "string \<Rightarrow> ('w, unit) io"

text \<open>What surrounds the query of a URL: the text before it and the fragment.\<close>

record urlParts =
  url_before :: string
  url_RawQuery :: string
  url_fragment :: string

record urlLib =
  url_Parse :: "string \<Rightarrow> goerr + urlParts"
  url_String :: "urlParts \<Rightarrow> string"

record 'w cliResolver =
  rv_bots :: "'w botRepository"
  rv_capabilities :: "'w agentCapabilityRepository"
  rv_sessions :: "'w botCLISessionRepository option"
  rv_timeout :: int
  rv_workspaceRoot :: string
  rv_sqlitePath :: string
  rv_orchestratorTimeout :: int
  rv_mcpURL :: string
  rv_orchestratorPrompt :: string
  rv_mcpServers :: "'w mcpServerRepository option"

definition SetMCPServerRepository :: "'w mcpServerRepository \<Rightarrow> 'w cliResolver \<Rightarrow> 'w cliResolver" where
  "SetMCPServerRepository repo r = r\<lparr>rv_mcpServers := Some repo\<rparr>"

definition timeoutForMode :: "'w cliResolver \<Rightarrow> string \<Rightarrow> int" where
  "timeoutForMode r mode = rv_timeout r"

section \<open>MCP servers\<close>

record mcpEntry =
  me_Name :: string
  me_ServerType :: string
  me_URL :: string
  me_Command :: string
  me_Args :: "string list"

definition perBotMCPURL :: "urlLib \<Rightarrow> string \<Rightarrow> string \<Rightarrow> string" where
  "perBotMCPURL lib base botID =
     (case url_Parse lib base of
        Inl err \<Rightarrow> base
      | Inr u \<Rightarrow> url_String lib (u\<lparr>url_RawQuery := Values_Encode (Values_Set ''bot_id'' botID (ParseQuery (url_RawQuery u)))\<rparr>))"

definition entry_of :: "mcpServer \<Rightarrow> mcpEntry" where
  "entry_of s = \<lparr>me_Name = ms_Name s, me_ServerType = ms_ServerType s, me_URL = ms_URL s, me_Command = ms_Command s, me_Args = ms_Args s\<rparr>"

definition collectMCPServers :: "urlLib \<Rightarrow> 'w cliResolver \<Rightarrow> string \<Rightarrow> ('w, mcpEntry list) io" where
  "collectMCPServers lib r botID =
     (let own = (if rv_mcpURL r = [] then []
                 else [\<lparr>me_Name = ''myclaw'', me_ServerType = TypeHTTP, me_URL = perBotMCPURL lib (rv_mcpURL r) botID,
                        me_Command = [], me_Args = []\<rparr>])
      in case rv_mcpServers r of
           None \<Rightarrow> return_ok own
         | Some repo \<Rightarrow>
             attempt (mcr_ListEnabledByBot repo botID)
               (\<lambda>res. return_ok (case res of Inl err \<Rightarrow> own | Inr servers \<Rightarrow> own @ map entry_of servers)))"

text \<open>
  The configuration of one server, its members in the order \<open>json.Marshal\<close> gives the keys of a
  map; \<open>None\<close> for a type that is skipped.
\<close>

definition server_config :: "mcpEntry \<Rightarrow> json option" where
  "server_config e =
     (if me_ServerType e = TypeHTTP then Some (JObj [(''type'', JStr (me_ServerType e)), (''url'', JStr (me_URL e))])
      else if me_ServerType e = TypeStdio
      then Some (JObj [(''args'', JArr (map JStr (me_Args e))), (''command'', JStr (me_Command e)), (''type'', JStr (me_ServerType e))])
      else None)"

fun server_configs :: "mcpEntry list \<Rightarrow> (string \<times> json) list" where
  "server_configs [] = []"
| "server_configs (e # es) =
     (case server_config e of None \<Rightarrow> server_configs es | Some cfg \<Rightarrow> (me_Name e, cfg) # server_configs es)"

text \<open>The Go map \<open>servers\<close>, a later entry of the same name winning, and its members sorted by key.\<close>

definition sorted_members :: "(string \<times> json) list \<Rightarrow> (string \<times> json) list" where
  "sorted_members ms = map (\<lambda>k. (k, the (map_of (rev ms) k))) (sort (remdups (map fst ms)))"

definition mcpConfigJSON :: "mcpEntry list \<Rightarrow> string option" where
  "mcpConfigJSON entries =
     (let servers = sorted_members (server_configs entries) in
      if servers = [] then None else Some (json_text (JObj [(''mcpServers'', JObj servers)])))"

fun codexMCPArgs :: "mcpEntry list \<Rightarrow> string list" where
  "codexMCPArgs [] = []"
| "codexMCPArgs (e # es) =
     (if me_ServerType e = TypeStdio then
        [''-c'', ''mcp_servers.'' @ me_Name e @ ''.command='' @ Quote (me_Command e),
         ''-c'', ''mcp_servers.'' @ me_Name e @ ''.args='' @ json_text (JArr (map JStr (me_Args e)))]
      else if me_ServerType e = TypeHTTP then
        [''-c'', ''mcp_servers.'' @ me_Name e @ ''.url='' @ Quote (me_URL e)]
      else []) @ codexMCPArgs es"

section \<open>Resolving\<close>

definition writeSystemPromptDoc :: "'w fs \<Rightarrow> string \<Rightarrow> string \<Rightarrow> string \<Rightarrow> ('w, unit) io" where
  "writeSystemPromptDoc fs workDir cliKey prompt =
     (let docFile = (if cliKey = ''claude'' then ''CLAUDE.md'' else ''AGENTS.md'');
          path = path_Join [workDir, docFile]
      in
      if TrimSpace prompt \<noteq> [] then fs_WriteFile fs path prompt
      else attempt (fs_Remove fs path)
        (\<lambda>res. case res of
           Inr _ \<Rightarrow> return_ok ()
         | Inl err \<Rightarrow> if errors_Is err NotExist then return_ok () else return_err err))"

definition formatEnvKV :: "strmap \<Rightarrow> string" where
  "formatEnvKV env = Join (map (\<lambda>k. k @ ''='' @ (case map_of env k of Some v \<Rightarrow> v | None \<Rightarrow> [])) (sort (map fst env))) '' ''"

definition resumed_session :: "'w cliResolver \<Rightarrow> string \<Rightarrow> string \<Rightarrow> ('w, string) io" where
  "resumed_session r botID cliKey =
     (case rv_sessions r of
        None \<Rightarrow> return_ok []
      | Some sessions \<Rightarrow>
          attempt (bsr_Get sessions botID cliKey)
            (\<lambda>res. return_ok (case res of Inr stored \<Rightarrow> bcs_SessionID stored | Inl _ \<Rightarrow> [])))"

definition mcp_args :: "string \<Rightarrow> mcpEntry list \<Rightarrow> string list" where
  "mcp_args cliKey entries =
     (if cliKey = ''codex'' then codexMCPArgs entries
      else case mcpConfigJSON entries of Some cfg \<Rightarrow> [''--mcp-config'', cfg] | None \<Rightarrow> [])"

definition work_dir :: "'w cliResolver \<Rightarrow> bot \<Rightarrow> string \<Rightarrow> string" where
  "work_dir r b botID =
     (let given = TrimSpace (bot_Workspace b) in
      if given = [] \<and> rv_workspaceRoot r \<noteq> [] then path_Join [rv_workspaceRoot r, botID, ''workspace''] else given)"

text \<open>The spec, once the capability is accepted and the effects have been carried out.\<close>

definition resolved_spec :: "'w cliResolver \<Rightarrow> string \<Rightarrow> bot \<Rightarrow> agentCapability \<Rightarrow> string \<Rightarrow> mcpEntry list \<Rightarrow> spec" where
  "resolved_spec r botID b capability resume entries =
     (let alias = TrimSpace (bot_CLIAlias b);
          orchestrator = (bot_Role b = BotRoleOrchestrator);
          args = ac_Args capability @ mcp_args (ac_Key capability) entries
            @ (if orchestrator \<and> rv_orchestratorPrompt r \<noteq> [] then [''--append-system-prompt'', rv_orchestratorPrompt r] else [])
      in \<lparr>sp_BotID = botID, sp_BotName = bot_Name b, sp_Type = bot_AgentMode b,
          sp_Command = (if alias \<noteq> [] then alias else ac_Command capability),
          sp_Args = (if args = [] then None else Some args), sp_WorkDir = work_dir r b botID,
          sp_SQLitePath = rv_sqlitePath r, sp_Env = (if bot_AgentEnv b = [] then None else Some (bot_AgentEnv b)),
          sp_Timeout = (if orchestrator \<and> 0 < rv_orchestratorTimeout r then rv_orchestratorTimeout r
                        else timeoutForMode r (bot_AgentMode b)),
          sp_QueueSize = 0, sp_Orchestrator = orchestrator, sp_RealCLI = (alias \<noteq> []), sp_ResumeSessionID = resume\<rparr>)"

definition Resolve :: "urlLib \<Rightarrow> 'w fs \<Rightarrow> 'w cliResolver \<Rightarrow> string \<Rightarrow> ('w, spec) io" where
  "Resolve lib fs r botID =
     andThen (br_GetByID (rv_bots r) botID) (\<lambda>b.
     if bot_AgentCapabilityID b = [] \<or> bot_AgentMode b = [] then return_err ErrBotCLIConfigMissing
     else attempt (acr_GetByID (rv_capabilities r) (bot_AgentCapabilityID b)) (\<lambda>res.
       case res of
         Inl err \<Rightarrow> if errors_Is err NotFound then return_err ErrBotCLIConfigMissing else return_err err
       | Inr capability \<Rightarrow>
           if \<not> List.member (ac_SupportedModes capability) (bot_AgentMode b) then return_err ErrBotCLIUnsupportedMode
           else if TrimSpace (bot_CLIAlias b) = [] \<and> \<not> ac_Available capability then return_err ErrBotCLIUnavailable
           else if TrimSpace (bot_CLIAlias b) = [] \<and> ac_Command capability = [] then return_err ErrBotCLIConfigMissing
           else
             let workDir = work_dir r b botID in
             andThen (if workDir \<noteq> [] then fs_MkdirAll fs workDir else return_ok ()) (\<lambda>_.
             andThen (if workDir \<noteq> [] then writeSystemPromptDoc fs workDir (ac_Key capability) (bot_SystemPrompt b) else return_ok ()) (\<lambda>_.
             andThen (resumed_session r botID (ac_Key capability)) (\<lambda>resume.
             andThen (collectMCPServers lib r botID) (\<lambda>entries.
             return_ok (resolved_spec r botID b capability resume entries)))))))"

section \<open>What a resolved spec is\<close>

text \<open>
  A bot resolves only to a spec that can be launched: the bot and its capability are
  stored, the capability supports the bot's mode, the command is not empty and is the bot's
  alias, or, without one, the command of a capability that was found available; the spec is
  marked as an orchestrator exactly for that role, and only then gets the other timeout.
\<close>

theorem Resolve_launchable:
  assumes "Resolve lib fs r botID w = (Inr sp, w')"
  shows "\<exists>b w1 capability w2. br_GetByID (rv_bots r) botID w = (Inr b, w1)
    \<and> acr_GetByID (rv_capabilities r) (bot_AgentCapabilityID b) w1 = (Inr capability, w2)
    \<and> bot_AgentMode b \<in> set (ac_SupportedModes capability) \<and> sp_Type sp = bot_AgentMode b
    \<and> sp_Command sp \<noteq> [] \<and> (sp_RealCLI sp \<longleftrightarrow> TrimSpace (bot_CLIAlias b) \<noteq> [])
    \<and> sp_Command sp = (if sp_RealCLI sp then TrimSpace (bot_CLIAlias b) else ac_Command capability)
    \<and> (\<not> sp_RealCLI sp \<longrightarrow> ac_Available capability)
    \<and> (sp_Orchestrator sp \<longleftrightarrow> bot_Role b = BotRoleOrchestrator)
    \<and> (\<not> sp_Orchestrator sp \<longrightarrow> sp_Timeout sp = rv_timeout r)"
proof -
  from assms obtain b w1 where b: "br_GetByID (rv_bots r) botID w = (Inr b, w1)"
    and rest: "(if bot_AgentCapabilityID b = [] \<or> bot_AgentMode b = [] then return_err ErrBotCLIConfigMissing
     else attempt (acr_GetByID (rv_capabilities r) (bot_AgentCapabilityID b)) (\<lambda>res.
       case res of
         Inl err \<Rightarrow> if errors_Is err NotFound then return_err ErrBotCLIConfigMissing else return_err err
       | Inr capability \<Rightarrow>
           if \<not> List.member (ac_SupportedModes capability) (bot_AgentMode b) then return_err ErrBotCLIUnsupportedMode
           else if TrimSpace (bot_CLIAlias b) = [] \<and> \<not> ac_Available capability then return_err ErrBotCLIUnavailable
           else if TrimSpace (bot_CLIAlias b) = [] \<and> ac_Command capability = [] then return_err ErrBotCLIConfigMissing
           else
             let workDir = work_dir r b botID in
             andThen (if workDir \<noteq> [] then fs_MkdirAll fs workDir else return_ok ()) (\<lambda>_.
             andThen (if workDir \<noteq> [] then writeSystemPromptDoc fs workDir (ac_Key capability) (bot_SystemPrompt b) else return_ok ()) (\<lambda>_.
             andThen (resumed_session r botID (ac_Key capability)) (\<lambda>resume.
             andThen (collectMCPServers lib r botID) (\<lambda>entries.
             return_ok (resolved_spec r botID b capability resume entries))))))) w1 = (Inr sp, w')"
    unfolding Resolve_def by (rule andThen_InrE)
  from rest [unfolded guard_Inr, THEN conjunct2] show ?thesis
  proof (cases rule: attempt_cases)
    case (Ok capability w2)
    note guards = Ok(2) [unfolded sum.case guard_Inr Let_def]
    then obtain resume entries where sp: "sp = resolved_spec r botID b capability resume entries"
      by (auto elim!: andThen_InrE)
    show ?thesis
      using b Ok(1) guards by (intro exI conjI) (auto simp: sp resolved_spec_def Let_def timeoutForMode_def)
  next
    case (Err e w2)
    then show ?thesis by (auto split: if_splits)
  qed
qed

section \<open>The MCP configuration\<close>

lemma texty_server_configs: "list_all (\<lambda>(k, v). texty v) (server_configs es)"
  by (induction es) (auto simp: server_config_def list_all_iff split: option.splits)

lemma map_of_sorted_members: "map_of (sorted_members ms) k = map_of (rev ms) k"
proof -
  have "map_of (map (\<lambda>k. (k, the (map_of (rev ms) k))) ks) k = (if k \<in> set ks then Some (the (map_of (rev ms) k)) else None)" for ks
    by (induction ks) auto
  moreover have "map_of (rev ms) k = None" if "k \<notin> fst ` set ms" using that by (simp add: map_of_eq_None_iff)
  moreover have "map_of (rev ms) k \<noteq> None" if "k \<in> fst ` set ms" using that by (simp add: map_of_eq_None_iff)
  ultimately show ?thesis by (auto simp: sorted_members_def)
qed

lemma texty_sorted_members:
  assumes "list_all (\<lambda>(k, v). texty v) ms"
  shows "list_all (\<lambda>(k, v). texty v) (sorted_members ms)"
proof -
  have "texty v" if "(k, v) \<in> set (sorted_members ms)" for k v
  proof -
    from that have "k \<in> fst ` set (rev ms)" "v = the (map_of (rev ms) k)" by (auto simp: sorted_members_def)
    then have "(k, v) \<in> set (rev ms)" by (metis map_of_SomeD map_of_eq_None_iff option.collapse)
    with assms show ?thesis by (auto simp: list_all_iff)
  qed
  then show ?thesis by (auto simp: list_all_iff)
qed

text \<open>
  The value of \<open>--mcp-config\<close> is a JSON text that reads back as one object
  \<open>mcpServers\<close> with a member per server name, each the configuration of the last entry of that
  name whose type is known; there is no value exactly when no entry has a known type.
\<close>

theorem mcpConfigJSON_lists_servers:
  "case mcpConfigJSON entries of
     None \<Rightarrow> \<forall>e \<in> set entries. me_ServerType e \<noteq> TypeHTTP \<and> me_ServerType e \<noteq> TypeStdio
   | Some text \<Rightarrow> \<exists>servers. json_parse text = Some (clean_json (JObj [(''mcpServers'', JObj servers)]))
       \<and> distinct (map fst servers) \<and> (\<forall>n. map_of servers n = map_of (rev (server_configs entries)) n)"
proof (cases "mcpConfigJSON entries")
  case None
  then have "sort (remdups (map fst (server_configs entries))) = []"
    by (auto simp: mcpConfigJSON_def sorted_members_def Let_def split: if_splits)
  then have "set (map fst (server_configs entries)) = {}" by (metis list.set(1) set_remdups set_sort)
  then have "server_configs entries = []" by simp
  then have "\<forall>e \<in> set entries. server_config e = None" by (induction entries) (auto split: option.splits)
  then show ?thesis by (auto simp: None server_config_def split: if_splits)
next
  case (Some t)
  let ?servers = "sorted_members (server_configs entries)"
  from Some have t: "t = json_text (JObj [(''mcpServers'', JObj ?servers)])"
    by (auto simp: mcpConfigJSON_def Let_def split: if_splits)
  have "json_parse t = Some (clean_json (JObj [(''mcpServers'', JObj ?servers)]))"
    unfolding t using texty_sorted_members [OF texty_server_configs] by (intro json_round_trip) simp
  moreover have "distinct (map fst ?servers)" by (simp add: sorted_members_def comp_def)
  ultimately show ?thesis by (simp only: Some option.case) (metis map_of_sorted_members)
qed

definition sample_entry :: mcpEntry where
  "sample_entry = \<lparr>me_Name = ''boo'', me_ServerType = TypeHTTP, me_URL = ''u'', me_Command = [], me_Args = []\<rparr>"

lemma mcpConfigJSON_lists_servers_witness:
  "case mcpConfigJSON [sample_entry] of
     None \<Rightarrow> False
   | Some text \<Rightarrow> \<exists>servers. json_parse text = Some (clean_json (JObj [(''mcpServers'', JObj servers)]))
       \<and> map_of servers ''boo'' = Some (JObj [(''type'', JStr ''http''), (''url'', JStr ''u'')])"
  using mcpConfigJSON_lists_servers [of "[sample_entry]"]
  by (auto simp: sample_entry_def server_config_def TypeHTTP_def split: option.splits)

definition sample_resolver :: "unit cliResolver" where
  "sample_resolver =
     \<lparr>rv_bots = (undefined :: unit botRepository)\<lparr>br_GetByID := (\<lambda>i w. (Inr
        \<lparr>bot_ID = i, bot_UserID = ''u'', bot_Name = ''bot'', bot_Type = [], bot_ChannelType = [], bot_ChannelAccountID = [],
         bot_ConnectionStatus = [], bot_ConnectionError = [], bot_AgentCapabilityID = ''cap'', bot_AgentMode = ''codex-exec'',
         bot_Role = [], bot_CLIAlias = [], bot_Workspace = [], bot_SystemPrompt = [], bot_AgentEnv = [],
         bot_LastConnectedAt = None, bot_CreatedAt = None, bot_UpdatedAt = None\<rparr>, w))\<rparr>,
      rv_capabilities = (undefined :: unit agentCapabilityRepository)\<lparr>acr_GetByID := (\<lambda>i w. (Inr
        (no_capability\<lparr>ac_ID := i, ac_Key := ''codex'', ac_Command := ''codex'', ac_SupportedModes := [''codex-exec''],
          ac_Available := True\<rparr>), w))\<rparr>,
      rv_sessions = None, rv_timeout = 60, rv_workspaceRoot = [], rv_sqlitePath = [], rv_orchestratorTimeout = 0,
      rv_mcpURL = [], rv_orchestratorPrompt = [], rv_mcpServers = None\<rparr>"

lemma Resolve_launchable_witness:
  "\<exists>sp. Resolve undefined (undefined :: unit fs) sample_resolver ''b'' () = (Inr sp, ()) \<and> sp_Command sp \<noteq> []"
proof -
  obtain sp w' where r: "Resolve undefined (undefined :: unit fs) sample_resolver ''b'' () = (Inr sp, w')"
    by (simp add: Resolve_def andThen_def attempt_def sample_resolver_def no_capability_def work_dir_def Let_def return_ok_def
        resumed_session_def collectMCPServers_def)
  from Resolve_launchable [OF r] r show ?thesis by auto
qed

end
