(* ===== verification/HttpApiLaws.thy ===== *)
theory HttpApiLaws
  imports HttpApi
begin

text \<open>
  What a client of the HTTP API can rely on: the form of every answer, what \<open>POST bots/create\<close>
  means for \<open>GET bots/list\<close>, and which reply a chat is answered with.
\<close>

section \<open>The envelope\<close>

lemma json_round_trip_line:
  assumes "texty v"
  shows "json_parse (json_text v @ [newline]) = Some (clean_json v)"
proof -
  have "json_value (2 * length (json_text v @ [newline]) + 1) (json_text v @ [newline]) = Some (clean_json v, [newline])"
    using json_fuel_bound [OF assms] by (intro value_round_trip [OF assms]) (simp_all add: newline_def)
  then show ?thesis by (simp add: json_parse_def skip_ws_def json_space_def newline_def)
qed

lemma texty_simps [simp]:
  "list_all (\<lambda>(k, v). texty v) (omit_str k v)"
  "texty (strmap_json m)" "list_all (\<lambda>(k, v). texty v) (omit_map k m)" "texty (strs_json xs)" "texty (time_json f t)"
  by (auto simp: omit_str_def strmap_json_def omit_map_def strs_json_def time_json_def list_all_iff split: option.split)

lemmas response_defs = createBotResponse_def botResponse_def mcpServerResponse_def agentCapabilityResponse_def
  connectBotResponse_def refreshBotLoginResponse_def simulateBotMessageResponse_def httpChannelChatResponse_def

lemma texty_responses [simp]:
  "texty (createBotResponse a)" "texty (botResponse b)" "texty (mcpServerResponse c)" "texty (agentCapabilityResponse d)"
  "texty (connectBotResponse f g)" "texty (refreshBotLoginResponse f h)" "texty (simulateBotMessageResponse i)"
  by (simp_all add: response_defs)

text \<open>An answer is well formed when it carries the request's id and, unless it is \<open>OK\<close>, no data.\<close>

definition answer_ok :: "httpRequest \<Rightarrow> envelope \<Rightarrow> bool" where
  "answer_ok r e \<longleftrightarrow> env_RequestID e = hq_requestID r \<and> texty (env_Data e) \<and>
     (env_Code e = ''OK'' \<or> env_Code e \<in> {''INVALID_ARGUMENT'', ''NOT_FOUND'', ''INTERNAL_ERROR''} \<and> env_Data e = JObj [])"

lemma answer_ok_simps [simp]:
  "answer_ok r (WriteError r (error_code l e) m)" "answer_ok r (WriteError r ''INTERNAL_ERROR'' m)"
  "answer_ok r (WriteError r ''INVALID_ARGUMENT'' m)" "answer_ok r (WriteOKFromRequest r d) \<longleftrightarrow> texty d"
  by (simp_all add: answer_ok_def WriteError_def WriteOKFromRequest_def WriteOK_def RequestIDFromContext_def error_code_def)

lemma respond_ok:
  "(\<And>a. texty (show a)) \<Longrightarrow> answer_ok r (fst (respond l r show call w))"
  "(\<And>a. texty (show a)) \<Longrightarrow> answer_ok r (fst (internal_error r show call w))"
  "answer_ok r (fst (invalid_argument r m w))"
  by (auto simp: respond_def internal_error_def invalid_argument_def split: prod.splits sum.splits)

lemma api_handler_ok:
  assumes "api_handler deps ep = Some h"
  shows "answer_ok r (fst (h r w))"
  using assms
  by (cases ep)
    (auto simp: api_handler_def Let_def api_CreateBot_def api_ListBots_def api_ConfigureBotAgent_def api_ConnectBot_def
      api_DeleteBot_def api_SimulateBotMessage_def api_RefreshBotLogin_def api_ListAgentCapabilities_def api_ListMCPServers_def
      list_all_iff intro!: respond_ok split: option.splits)

text \<open>
  C17. Every answer of the bot endpoints, whatever the request and whatever the services do, has
  status 200 and a body that is one JSON object: a code, a message, the id the middleware drew
  for this request, and data.  The code is \<open>OK\<close> or one of three error codes, and an error has
  empty data.
\<close>

theorem api_answers_in_envelope:
  assumes "api_handler deps ep = Some h" "RequestIDMiddleware env h r w = (resp, w')"
  shows "\<exists>e. hr_status resp = 200 \<and> hr_ContentType resp = ''application/json''
    \<and> json_parse (hr_body resp) = Some (clean_json (envelope_json e))
    \<and> env_RequestID e = NewPrefixedID (fst (ge_ULID env w)) ''req''
    \<and> (env_Code e = ''OK'' \<or>
        env_Code e \<in> {''INVALID_ARGUMENT'', ''NOT_FOUND'', ''INTERNAL_ERROR''} \<and> env_Data e = JObj [])"
proof -
  let ?r = "r\<lparr>hq_requestID := NewPrefixedID (fst (ge_ULID env w)) ''req''\<rparr>"
  let ?e = "fst (h ?r (snd (ge_ULID env w)))"
  have resp: "resp = writeJSON StatusOK ?e"
    using assms(2) by (auto simp: RequestIDMiddleware_def split: prod.splits)
  have ok: "answer_ok ?r ?e" by (rule api_handler_ok [OF assms(1)])
  then have "json_parse (hr_body resp) = Some (clean_json (envelope_json ?e))"
    unfolding resp writeJSON_def httpResponse.simps
    by (intro json_round_trip_line) (simp add: envelope_json_def answer_ok_def)
  with ok show ?thesis
    by (intro exI [of _ ?e]) (simp add: resp writeJSON_def StatusOK_def answer_ok_def)
qed

section \<open>Chats\<close>

text \<open>The replies the loop takes are a prefix of those that arrive, without too long a gap.\<close>

definition chat_timeout :: "(int \<times> response) list \<Rightarrow> nat \<Rightarrow> int" where
  "chat_timeout arrivals n = (if n = 0 then chat_deadline else fst (arrivals ! (n - 1)) + chat_linger)"

lemma chat_read_later:
  assumes "sorted (map fst arrivals)" "\<forall>(t, reply) \<in> set arrivals. now \<le> t"
    and "chat_read pick now (Some r0) arrivals = (x, elapsed)"
  shows "\<exists>n \<le> length arrivals. x = Some (if n = 0 then r0 else snd (arrivals ! (n - 1)))
    \<and> elapsed = (if n = 0 then now else fst (arrivals ! (n - 1))) + chat_linger
    \<and> (\<forall>i < n. fst (arrivals ! i) \<le> (if i = 0 then now else fst (arrivals ! (i - 1))) + chat_linger)
    \<and> (n < length arrivals \<longrightarrow> elapsed \<le> fst (arrivals ! n))"
  using assms
proof (induction arrivals arbitrary: now r0)
  case Nil
  then show ?case by auto
next
  case (Cons a arrivals)
  obtain t reply where a: "a = (t, reply)" by fastforce
  have t: "now \<le> t" "max now t = t" using Cons.prems(2) a by auto
  show ?case
  proof (cases "t < now + chat_linger \<or> t = now + chat_linger \<and> pick t")
    case True
    have run: "chat_read pick t (Some reply) arrivals = (x, elapsed)"
      using Cons.prems(3) True a t by (auto simp: Let_def)
    have later: "\<forall>(t', r') \<in> set arrivals. t \<le> t'" "sorted (map fst arrivals)" using Cons.prems(1) a by auto
    from Cons.IH [OF later(2, 1) run] obtain n where n: "n \<le> length arrivals"
      "x = Some (if n = 0 then reply else snd (arrivals ! (n - 1)))"
      "elapsed = (if n = 0 then t else fst (arrivals ! (n - 1))) + chat_linger"
      "\<forall>i < n. fst (arrivals ! i) \<le> (if i = 0 then t else fst (arrivals ! (i - 1))) + chat_linger"
      "n < length arrivals \<longrightarrow> elapsed \<le> fst (arrivals ! n)"
      by blast
    then show ?thesis using True a
      by (intro exI [of _ "Suc n"]) (auto simp: nth_Cons split: nat.splits)
  next
    case False
    then have "x = Some r0" "elapsed = now + chat_linger" using Cons.prems(3) a t by (auto simp: Let_def split: if_splits)
    with False a show ?thesis by (intro exI [of _ 0]) auto
  qed
qed

lemma chat_read_prefix:
  assumes "sorted (map fst arrivals)" "\<forall>(t, reply) \<in> set arrivals. 0 \<le> t"
    and "chat_read pick 0 None arrivals = (x, elapsed)"
  shows "\<exists>n \<le> length arrivals. x = (if n = 0 then None else Some (snd (arrivals ! (n - 1))))
    \<and> elapsed = chat_timeout arrivals n
    \<and> (\<forall>i < n. fst (arrivals ! i) \<le> chat_timeout arrivals i)
    \<and> (n < length arrivals \<longrightarrow> elapsed \<le> fst (arrivals ! n))"
proof (cases arrivals)
  case Nil
  with assms show ?thesis by (auto simp: chat_timeout_def)
next
  case (Cons a rest)
  obtain t reply where a: "a = (t, reply)" by fastforce
  have t: "0 \<le> t" "max 0 t = t" using assms(2) Cons a by auto
  show ?thesis
  proof (cases "t < chat_deadline \<or> t = chat_deadline \<and> pick t")
    case True
    have run: "chat_read pick t (Some reply) rest = (x, elapsed)"
      using assms(3) True Cons a t by (auto simp: Let_def)
    have later: "\<forall>(t', r') \<in> set rest. t \<le> t'" "sorted (map fst rest)" using assms(1) Cons a by auto
    from chat_read_later [OF later(2, 1) run] obtain n where n: "n \<le> length rest"
      "x = Some (if n = 0 then reply else snd (rest ! (n - 1)))"
      "elapsed = (if n = 0 then t else fst (rest ! (n - 1))) + chat_linger"
      "\<forall>i < n. fst (rest ! i) \<le> (if i = 0 then t else fst (rest ! (i - 1))) + chat_linger"
      "n < length rest \<longrightarrow> elapsed \<le> fst (rest ! n)"
      by blast
    then show ?thesis using True Cons a
      by (intro exI [of _ "Suc n"]) (auto simp: chat_timeout_def nth_Cons split: nat.splits)
  next
    case False
    then have "x = None" "elapsed = chat_deadline" using assms(3) Cons a t by (auto simp: Let_def split: if_splits)
    with False Cons a show ?thesis by (intro exI [of _ 0]) (auto simp: chat_timeout_def)
  qed
qed

text \<open>
  C18. A chat whose message was handed to its bot is answered with the last reply its loop took:
  the loop takes the replies one after the other as long as the first comes within a minute and
  each further one within ten seconds of the one before, and ends at that limit; it is \<open>TIMEOUT\<close>
  exactly when none came in time.  The wait therefore has no bound of its own: every reply
  prolongs it.  Afterwards the chat's waiter is gone, whatever happened to the receiver meanwhile.
\<close>

theorem chat_answers_last_reply:
  assumes sorted: "sorted (map fst arrivals)" and replies: "\<forall>(t, reply) \<in> set arrivals. 0 \<le> t \<and> rs_Text reply \<noteq> []"
    and begun: "chat_begin between ulid r rcv = (Inr c, rcv1)"
    and run: "ChatWithHttpChannel between ulid pick during arrivals r rcv = ((e, elapsed), rcv2)"
  shows "(\<exists>n \<le> length arrivals.
      (\<forall>i < n. fst (arrivals ! i) \<le> chat_timeout arrivals i)
      \<and> elapsed = chat_timeout arrivals n \<and> (n < length arrivals \<longrightarrow> elapsed \<le> fst (arrivals ! n))
      \<and> e = (if n = 0 then WriteError r ''TIMEOUT'' ''bot did not reply within 60 seconds''
             else WriteOKFromRequest r
               (httpChannelChatResponse (ch_botID c) ''webui'' (rs_Text (snd (arrivals ! (n - 1)))) (ch_messageID c))))
    \<and> rv_chatWaiters rcv2 (chat_key (ch_botID c) (ch_messageID c)) \<noteq> Some (ch_waiter c)"
proof -
  obtain x where x: "chat_read pick 0 None arrivals = (x, elapsed)" "e = chat_answer r c x"
    "rcv2 = unregisterChat (ch_botID c) (ch_messageID c) (ch_waiter c) (during rcv1)"
    using run begun by (auto simp: ChatWithHttpChannel_def split: prod.splits)
  have times: "\<forall>(t, reply) \<in> set arrivals. 0 \<le> t" using replies by auto
  from chat_read_prefix [OF sorted times x(1)] obtain n where n: "n \<le> length arrivals"
    "x = (if n = 0 then None else Some (snd (arrivals ! (n - 1))))" "elapsed = chat_timeout arrivals n"
    "\<forall>i < n. fst (arrivals ! i) \<le> chat_timeout arrivals i" "n < length arrivals \<longrightarrow> elapsed \<le> fst (arrivals ! n)"
    by blast
  have nonempty: "n \<noteq> 0 \<Longrightarrow> rs_Text (snd (arrivals ! (n - 1))) \<noteq> []"
    using bspec [OF replies nth_mem [of "n - 1" arrivals]] n(1) by (simp add: split_beta)
  have "\<exists>n \<le> length arrivals. (\<forall>i < n. fst (arrivals ! i) \<le> chat_timeout arrivals i)
      \<and> elapsed = chat_timeout arrivals n \<and> (n < length arrivals \<longrightarrow> elapsed \<le> fst (arrivals ! n))
      \<and> e = (if n = 0 then WriteError r ''TIMEOUT'' ''bot did not reply within 60 seconds''
             else WriteOKFromRequest r
               (httpChannelChatResponse (ch_botID c) ''webui'' (rs_Text (snd (arrivals ! (n - 1)))) (ch_messageID c)))"
    using n nonempty x(2) by (intro exI [of _ n]) (auto simp: chat_answer_def)
  moreover have "rv_chatWaiters rcv2 (chat_key (ch_botID c) (ch_messageID c)) \<noteq> Some (ch_waiter c)"
    by (simp add: x(3) unregisterChat_def)
  ultimately show ?thesis by blast
qed

section \<open>Created bots are listed\<close>

text \<open>
  The contract of the users: a lookup by external id finds the user with that id or, when there
  is none, adds one.
\<close>

definition users_ok :: "('w \<Rightarrow> user set) \<Rightarrow> (string \<Rightarrow> ('w, user) io) \<Rightarrow> bool" where
  "users_ok users lookup \<longleftrightarrow>
     (\<forall>x w r w'. lookup x w = (r, w') \<longrightarrow>
        (case r of
           Inl e \<Rightarrow> users w' = users w
         | Inr u \<Rightarrow> user_ExternalUserID u = x \<and>
             (u \<in> users w \<and> users w' = users w \<or>
              (\<forall>v \<in> users w. user_ExternalUserID v \<noteq> x) \<and> users w' = insert u (users w))))"

lemma users_okD:
  assumes "users_ok users lookup" "lookup x w = (Inr u, w')"
  shows "user_ExternalUserID u = x" "u \<in> users w'" "users w \<subseteq> users w'"
    "inj_on user_ExternalUserID (users w) \<Longrightarrow> inj_on user_ExternalUserID (users w')"
  using assms unfolding users_ok_def by (fastforce simp: inj_on_def)+

lemma user_repository_contract:
  assumes "table_ok um_ID core rows tb" "\<And>m m'. core m = core m' \<Longrightarrow> um_ExternalUserID m = um_ExternalUserID m'"
    and "keeps rows (fresh_id env ''usr'')"
  shows "users_ok (\<lambda>w. toDomainUser ` rows w) (ur_FindOrCreateByExternalUserID (UserRepository env tb))"
proof -
  have ok: "create_ok um_ID core rows tb" "read_ok rows tb" using assms(1) by (simp_all add: table_ok_def)
  show ?thesis
    unfolding users_ok_def
  proof (intro allI impI)
    fix x w r w' assume run: "ur_FindOrCreateByExternalUserID (UserRepository env tb) x w = (r, w')"
    let ?P = "\<lambda>m. um_ExternalUserID m = x"
    let ?spec = "case r of Inl e \<Rightarrow> toDomainUser ` rows w' = toDomainUser ` rows w
      | Inr u \<Rightarrow> user_ExternalUserID u = x \<and> (u \<in> toDomainUser ` rows w \<and> toDomainUser ` rows w' = toDomainUser ` rows w \<or>
          (\<forall>v \<in> toDomainUser ` rows w. user_ExternalUserID v \<noteq> x) \<and> toDomainUser ` rows w' = insert u (toDomainUser ` rows w))"
    obtain q w1 where q: "tb_First tb ?P w = (q, w1)" by fastforce
    note w1 = read_okD(1) [OF ok(2) q]
    show ?spec
    proof (cases q)
      case (Inr m)
      then have "m \<in> rows w" "?P m" using read_okD(2) [OF ok(2), of ?P w m w1] q by auto
      moreover have "r = Inr (toDomainUser m)" "w' = w1"
        using run q Inr by (auto simp: UserRepository_def user_FindOrCreate_def attempt_def return_ok_def)
      ultimately show ?thesis using w1 by (auto simp: toDomainUser_def)
    next
      case (Inl err)
      show ?thesis
      proof (cases "err = ErrRecordNotFound")
        case False
        with run q Inl w1 show ?thesis
          by (auto simp: UserRepository_def user_FindOrCreate_def attempt_def return_err_def)
      next
        case True
        have none: "\<forall>m \<in> rows w. \<not> ?P m" using read_okD(4) [OF ok(2)] q Inl True by blast
        let ?row = "\<lambda>i. \<lparr>um_ID = i, um_ExternalUserID = x, um_Status = ''active'',
            um_CreatedAt = Some (ge_Now env w1), um_UpdatedAt = Some (ge_Now env w1)\<rparr>"
        have run1: "andThen (fresh_id env ''usr'') (\<lambda>i. andThen (tb_Create tb (?row i)) (\<lambda>m. return_ok (toDomainUser m))) w1 = (r, w')"
          using run q Inl True
          by (simp add: UserRepository_def user_FindOrCreate_def attempt_def andThen_def time_now_def)
        obtain ulid w2 where ulid: "ge_ULID env w1 = (ulid, w2)" by fastforce
        define i where "i = NewPrefixedID ulid ''usr''"
        have w2: "fresh_id env ''usr'' w1 = (Inr i, w2)" by (simp add: fresh_id_def ulid i_def)
        from run1 w2 have run2: "andThen (tb_Create tb (?row i)) (\<lambda>m. return_ok (toDomainUser m)) w2 = (r, w')"
          by (simp add: andThen_def)
        note keep = keepsD [OF assms(3) w2]
        from run2 show ?thesis
        proof (cases rule: andThen_cases)
          case (Err e)
          have "rows w' = rows w2" using ok(1) Err(1) unfolding create_ok_def by blast
          with Err(2) keep w1 show ?thesis by simp
        next
          case (Ok m w3)
          have m: "core m = core (?row i)" "rows w3 = insert m (rows w2)" using create_okD [OF ok(1) Ok(1)] by auto
          have "user_ExternalUserID (toDomainUser m) = x" using assms(2) [OF m(1)] by (simp add: toDomainUser_def)
          with Ok(2) m(2) keep w1 none show ?thesis by (auto simp: toDomainUser_def)
        qed
      qed
    qed
  qed
qed

lemma for_each_member:
  "for_each f xs w = (Inr ys, w') \<Longrightarrow> x \<in> set xs \<Longrightarrow> \<exists>y \<in> set ys. \<exists>w1 w2. f x w1 = (Inr y, w2)"
proof (induction xs arbitrary: w ys)
  case Nil
  then show ?case by simp
next
  case (Cons z zs)
  then obtain y w1 ys' where y: "f z w = (Inr y, w1)" "for_each f zs w1 = (Inr ys', w')" "ys = y # ys'"
    by (auto elim!: andThen_InrE)
  show ?case
  proof (cases "x = z")
    case True
    with y show ?thesis by auto
  next
    case False
    with Cons.IH [OF y(2)] Cons.prems(2) y(3) show ?thesis by auto
  qed
qed

lemma CreateBot_owner:
  assumes "bot_repo_ok bots (sv_bots sv)" "CreateBot env sv input w = (Inr out, w')"
  shows "\<exists>u w1 i w2 b. ur_FindOrCreateByExternalUserID (sv_users sv) (cbi_ExternalUserID input) w = (Inr u, w1)
    \<and> fresh_id env ''bot'' w1 = (Inr i, w2)
    \<and> br_Create (sv_bots sv) (new_bot sv input (user_ID u) i) w2 = (Inr b, w') \<and> b \<in> bots w' \<and> bot_UserID b = user_ID u
    \<and> bot_ID b = cbo_BotID out \<and> bot_Name b = cbi_Name input \<and> bot_Type b = cbo_Type out \<and> bot_Role b = cbo_Role out"
proof -
  have ok: "creates_ok bot_ID bot_core bots (br_Create (sv_bots sv))" using assms(1) by (simp add: bot_repo_ok_def)
  from assms(2) obtain u w1 i w2 b where run:
    "ur_FindOrCreateByExternalUserID (sv_users sv) (cbi_ExternalUserID input) w = (Inr u, w1)"
    "fresh_id env ''bot'' w1 = (Inr i, w2)" "br_Create (sv_bots sv) (new_bot sv input (user_ID u) i) w2 = (Inr b, w')"
    and out: "cbo_BotID out = bot_ID b" "cbo_Type out = bot_Type b" "cbo_Role out = bot_Role b"
    by (auto simp: CreateBot_def elim!: andThen_InrE split: if_splits)
  note b = creates_okD [OF ok run(3)]
  have "bot_core b = bot_core (new_bot sv input (user_ID u) i)" by (rule b(1))
  then have "bot_UserID b = user_ID u" "bot_Name b = cbi_Name input"
    by (cases b; simp add: bot_core_def new_bot_def Let_def)+
  with run out b(3) show ?thesis by auto
qed

lemma ListBots_lists:
  assumes "bot_repo_ok bots (sv_bots sv)" "\<And>x. keeps bots (ur_FindOrCreateByExternalUserID (sv_users sv) x)"
    and "ListBots sv x w = (Inr items, w')"
  shows "\<exists>u w1. ur_FindOrCreateByExternalUserID (sv_users sv) x w = (Inr u, w1)
    \<and> (\<forall>b \<in> bots w. bot_UserID b = user_ID u \<longrightarrow> (\<exists>ids. list_item b ids \<in> set items))"
proof -
  have ok: "list_ok bots (\<lambda>b. bot_UserID b = u) (br_ListByUserID (sv_bots sv) u)" for u
    using assms(1) by (simp add: bot_repo_ok_def)
  from assms(3) obtain u w1 bs w2 where run: "ur_FindOrCreateByExternalUserID (sv_users sv) x w = (Inr u, w1)"
    "br_ListByUserID (sv_bots sv) (user_ID u) w1 = (Inr bs, w2)"
    "for_each (\<lambda>b. andThen (attachedServerIDs sv (bot_ID b)) (\<lambda>mcpIDs. return_ok (list_item b mcpIDs))) bs w2 = (Inr items, w')"
    by (auto simp: ListBots_def elim!: andThen_InrE split: if_splits)
  have "set bs = {b \<in> bots w. bot_UserID b = user_ID u}"
    using ok run(2) keepsD [OF assms(2) run(1)] unfolding list_ok_def by fastforce
  moreover have "\<exists>ids. list_item b ids \<in> set items" if "b \<in> set bs" for b
    using for_each_member [OF run(3) that] by (auto elim!: andThen_InrE)
  ultimately show ?thesis using run(1) by blast
qed

text \<open>
  C16. A bot created over the API is listed over the API: when \<open>POST bots/create\<close> answered \<open>OK\<close> and
  \<open>GET bots/list\<close> for the same user then answers \<open>OK\<close>, the list has an item with the id that was
  returned, under the name, type and role of the bot.
\<close>

theorem created_bot_is_listed:
  assumes bots: "bot_repo_ok bots (sv_bots svc)"
    and users: "users_ok users (ur_FindOrCreateByExternalUserID (sv_users svc))" "inj_on user_ExternalUserID (users w)"
    and keeps: "\<And>x. keeps bots (ur_FindOrCreateByExternalUserID (sv_users svc) x)"
      "keeps users (fresh_id env ''bot'')" "\<And>b. keeps users (br_Create (sv_bots svc) b)"
    and post: "decode_body createBotRequest_fields r = Some req" "api_CreateBot env svc r w = (e, w1)" "env_Code e = ''OK''"
    and get: "Values_Get (ParseQuery (hq_rawQuery r2)) ''user_id'' = crq_UserID req"
      "api_ListBots svc r2 w1 = (e2, w2)" "env_Code e2 = ''OK''"
  shows "\<exists>out items. env_Data e = createBotResponse out \<and> env_Data e2 = JArr (map botResponse items)
    \<and> (\<exists>item \<in> set items. bli_BotID item = cbo_BotID out \<and> bli_Name item = crq_Name req
         \<and> bli_Type item = cbo_Type out \<and> bli_Role item = cbo_Role out)"
proof -
  let ?find = "ur_FindOrCreateByExternalUserID (sv_users svc)" and ?x = "crq_UserID req"
  let ?in = "\<lparr>cbi_ExternalUserID = ?x, cbi_Name = crq_Name req, cbi_Type = crq_Type req,
                    cbi_Role = crq_Role req, cbi_ChannelType = crq_ChannelType req,
                    cbi_AgentCapabilityID = crq_AgentCapabilityID req, cbi_AgentMode = crq_AgentMode req,
                    cbi_SystemPrompt = crq_SystemPrompt req, cbi_AgentEnv = crq_AgentEnv req\<rparr>"
  obtain out where c: "CreateBot env svc ?in w = (Inr out, w1)" and e: "env_Data e = createBotResponse out"
    using post by (auto simp: api_CreateBot_def respond_def invalid_argument_def WriteError_def error_code_def
        WriteOKFromRequest_def WriteOK_def split: if_splits prod.splits sum.splits)
  obtain items where l: "ListBots svc ?x w1 = (Inr items, w2)" and e2: "env_Data e2 = JArr (map botResponse items)"
    using get by (auto simp: api_ListBots_def Let_def respond_def invalid_argument_def WriteError_def error_code_def
        WriteOKFromRequest_def WriteOK_def split: if_splits prod.splits sum.splits)
  from CreateBot_owner [OF bots c] obtain u v1 i v2 b where b: "?find ?x w = (Inr u, v1)" "fresh_id env ''bot'' v1 = (Inr i, v2)"
    "br_Create (sv_bots svc) (new_bot svc ?in (user_ID u) i) v2 = (Inr b, w1)" "b \<in> bots w1" "bot_UserID b = user_ID u"
    "bot_ID b = cbo_BotID out" "bot_Name b = crq_Name req" "bot_Type b = cbo_Type out" "bot_Role b = cbo_Role out"
    by auto
  from ListBots_lists [OF bots keeps(1) l] obtain u' v3 where u': "?find ?x w1 = (Inr u', v3)"
    and items: "\<forall>b \<in> bots w1. bot_UserID b = user_ID u' \<longrightarrow> (\<exists>ids. list_item b ids \<in> set items)" by blast
  note fu = users_okD [OF users(1) b(1)] and fu' = users_okD [OF users(1) u']
  have same: "users w1 = users v1" using keepsD [OF keeps(2) b(2)] keepsD [OF keeps(3) b(3)] by simp
  have "inj_on user_ExternalUserID (users v3)" using fu(4) [OF users(2)] fu'(4) same by simp
  moreover have "u \<in> users v3" using fu(2) same fu'(3) by auto
  ultimately have "u' = u" using fu(1) fu'(1, 2) by (metis inj_on_eq_iff)
  with items b(4, 5) obtain ids where "list_item b ids \<in> set items" by auto
  with b(6-9) e e2 show ?thesis
    by (intro exI [of _ out] exI [of _ items]) (auto intro!: bexI [of _ "list_item b ids"] simp: list_item_def)
qed

section \<open>Examples\<close>

definition sample_dependencies :: "sampleWorld dependencies" where
  "sample_dependencies = \<lparr>dep_show_time = (\<lambda>_. []), dep_env = sample_env, dep_BotService = sample_service,
     dep_MessageSimulator = None\<rparr>"

definition bad_request :: httpRequest where
  "bad_request = \<lparr>hq_requestID = [], hq_body = None, hq_rawQuery = []\<rparr>"

lemma api_answers_in_envelope_witness:
  "\<exists>e. json_parse (hr_body (fst (RequestIDMiddleware sample_env (api_DeleteBot sample_service) bad_request sample_world))) =
     Some (clean_json (envelope_json e)) \<and> env_Data e = JObj []"
proof -
  have h: "api_handler sample_dependencies EP_DeleteBot = Some (api_DeleteBot sample_service)"
    by (simp add: api_handler_def sample_dependencies_def)
  obtain resp w' where run: "RequestIDMiddleware sample_env (api_DeleteBot sample_service) bad_request sample_world = (resp, w')"
    by fastforce
  have err: "hr_body resp = hr_body (writeJSON StatusOK (WriteError (bad_request\<lparr>hq_requestID := NewPrefixedID (fst (ge_ULID sample_env sample_world)) ''req''\<rparr>)
      ''INVALID_ARGUMENT'' ''invalid request body''))"
    using run by (auto simp: RequestIDMiddleware_def api_DeleteBot_def decode_body_def bad_request_def invalid_argument_def split: prod.splits)
  from api_answers_in_envelope [OF h run] obtain e where e: "json_parse (hr_body resp) = Some (clean_json (envelope_json e))"
    "env_Code e = ''OK'' \<or> env_Data e = JObj []" by blast
  have "json_parse (hr_body resp) = Some (clean_json (envelope_json (WriteError (bad_request\<lparr>hq_requestID := NewPrefixedID (fst (ge_ULID sample_env sample_world)) ''req''\<rparr>)
      ''INVALID_ARGUMENT'' ''invalid request body'')))"
    unfolding err writeJSON_def httpResponse.simps
    by (intro json_round_trip_line) (simp add: envelope_json_def WriteError_def)
  then show ?thesis using run by (auto simp: WriteError_def)
qed

definition sample_create :: httpRequest where
  "sample_create = \<lparr>hq_requestID = [], hq_body = Some (JObj [(''user_id'', JStr ''x''), (''name'', JStr ''two'')]), hq_rawQuery = []\<rparr>"

definition sample_list :: httpRequest where
  "sample_list = \<lparr>hq_requestID = [], hq_body = None, hq_rawQuery = ''user_id=x''\<rparr>"

definition sample_users :: "sampleWorld \<Rightarrow> user set" where
  "sample_users w = range (\<lambda>x. \<lparr>user_ID = ''u'', user_ExternalUserID = x, user_Status = ''active'', user_CreatedAt = None, user_UpdatedAt = None\<rparr>)"

lemma sample_users_ok:
  "users_ok sample_users (ur_FindOrCreateByExternalUserID (sv_users sample_service))" "inj_on user_ExternalUserID (sample_users w)"
  by (auto simp: users_ok_def sample_users_def sample_service_def inj_on_def)

lemma sample_create_decoded:
  "decode_body createBotRequest_fields sample_create = Some \<lparr>crq_UserID = ''x'', crq_Name = ''two'', crq_Type = [], crq_Role = [],
     crq_ChannelType = [], crq_AgentCapabilityID = [], crq_AgentMode = [], crq_SystemPrompt = [], crq_AgentEnv = []\<rparr>"
  by (simp add: decode_body_def createBotRequest_fields_def getters get_strmap_def sample_create_def same_name_ascii lower_char_def)

lemma sample_list_query: "Values_Get (ParseQuery (hq_rawQuery sample_list)) ''user_id'' = ''x''"
  by code_simp

lemma for_each_total: "(\<And>x w. \<exists>y w'. f x w = (Inr y, w')) \<Longrightarrow> \<exists>ys w'. for_each f xs w = (Inr ys, w')"
proof (induction xs arbitrary: w)
  case (Cons x xs)
  obtain y w1 where y: "f x w = (Inr y, w1)" using Cons.prems by blast
  obtain ys w2 where "for_each f xs w1 = (Inr ys, w2)" using Cons.IH Cons.prems by blast
  with y show ?case by (simp add: andThen_def return_ok_def)
qed (simp add: return_ok_def)

lemma sample_ListBots_total: "x \<noteq> [] \<Longrightarrow> \<exists>items w'. ListBots sample_service x w = (Inr items, w')"
proof -
  assume x: "x \<noteq> []"
  let ?item = "\<lambda>b. andThen (attachedServerIDs sample_service (bot_ID b)) (\<lambda>mcpIDs. return_ok (list_item b mcpIDs))"
  have item: "\<exists>y w'. ?item b w = (Inr y, w')" for b w
    by (simp add: attachedServerIDs_def mcs_ListByBot_def sample_service_def andThen_def return_ok_def)
  have "ListBots sample_service x = andThen (ur_FindOrCreateByExternalUserID (sv_users sample_service) x) (\<lambda>user.
      andThen (br_ListByUserID (sv_bots sample_service) (user_ID user)) (\<lambda>bots. for_each ?item bots))"
    using x by (simp add: ListBots_def)
  moreover obtain u where "ur_FindOrCreateByExternalUserID (sv_users sample_service) x w = (Inr u, w)"
    by (simp add: sample_service_def)
  moreover obtain bs where "br_ListByUserID (sv_bots sample_service) (user_ID u) w = (Inr bs, w)"
    by (simp add: sample_service_def BotRepository_def bots_ListByUserID_def mem_table_def andThen_def return_ok_def)
  moreover obtain items w' where "for_each ?item bs w = (Inr items, w')" using for_each_total [of ?item bs w, OF item] by blast
  ultimately show ?thesis by (simp add: andThen_def)
qed

lemma created_bot_is_listed_witness:
  "\<exists>items. env_Data (fst (api_ListBots sample_service sample_list
        (snd (api_CreateBot sample_env sample_service sample_create sample_world)))) = JArr (map botResponse items)
     \<and> (\<exists>item \<in> set items. bli_Name item = ''two'')"
proof -
  obtain e w1 where post: "api_CreateBot sample_env sample_service sample_create sample_world = (e, w1)" by fastforce
  obtain e2 w2 where get: "api_ListBots sample_service sample_list w1 = (e2, w2)" by fastforce
  have id: "NewPrefixedID ''01'' ''bot'' = ''bot_01''" by code_simp
  have e: "env_Code e = ''OK''"
    using post id
    by (auto simp: api_CreateBot_def sample_create_decoded respond_def CreateBot_def bots_Create_def new_bot_def Let_def
        sample_defs WriteOKFromRequest_def WriteOK_def)
  have e2: "env_Code e2 = ''OK''"
    using get sample_ListBots_total [of "''x''" w1]
    by (auto simp: api_ListBots_def sample_list_query respond_def Let_def WriteOKFromRequest_def WriteOK_def)
  have keeps: "keeps sample_users (fresh_id sample_env ''bot'')" "keeps sample_users (br_Create (sv_bots sample_service) b)" for b
    by (simp_all add: keeps_def sample_users_def)
  from created_bot_is_listed [OF sample_service_ok(1) sample_users_ok sample_service_keeps(5) keeps sample_create_decoded post e(1) _ get e2]
  show ?thesis using post get by (auto simp: sample_list_query)
qed

definition sample_chat_request :: httpRequest where
  "sample_chat_request = \<lparr>hq_requestID = [], hq_body = Some (JObj [(''bot_id'', JStr ''b1''), (''text'', JStr ''hi'')]), hq_rawQuery = []\<rparr>"

lemma chat_answers_last_reply_witness:
  "env_Code (fst (fst (ChatWithHttpChannel id ''01'' (\<lambda>_. True) id [(second, text_response ''ack''), (5 * second, text_response ''ok'')]
      sample_chat_request sample_chat_receiver))) = ''OK''"
proof -
  obtain c r1 where c: "chat_begin id ''01'' sample_chat_request sample_chat_receiver = (Inr c, r1)"
  proof -
    have "decode_body httpChannelChatRequest_fields sample_chat_request = Some \<lparr>hcq_BotID = ''b1'', hcq_Text = ''hi''\<rparr>"
      by (simp add: decode_body_def httpChannelChatRequest_fields_def getters sample_chat_request_def same_name_ascii lower_char_def)
    then have "\<exists>c r1. chat_begin id ''01'' sample_chat_request sample_chat_receiver = (Inr c, r1)"
      by (simp add: chat_begin_def TrimSpace_plain plain_char_def receiver_Active_def Receive_def sample_chat_receiver_def
          RegisterChat_def Register_bot_def NewReceiver_def Let_def)
    then show thesis using that by blast
  qed
  let ?a = "[(second, text_response ''ack''), (5 * second, text_response ''ok'')]"
  obtain e t r2 where run: "ChatWithHttpChannel id ''01'' (\<lambda>_. True) id ?a sample_chat_request sample_chat_receiver = ((e, t), r2)"
    by (metis prod.collapse)
  have "sorted (map fst ?a)" "\<forall>(t, reply) \<in> set ?a. 0 \<le> t \<and> rs_Text reply \<noteq> []" by (auto simp: second_def)
  from chat_answers_last_reply [OF this c run] obtain n where n: "n < length ?a \<longrightarrow> t \<le> fst (?a ! n)" "t = chat_timeout ?a n"
    "e = (if n = 0 then WriteError sample_chat_request ''TIMEOUT'' ''bot did not reply within 60 seconds''
       else WriteOKFromRequest sample_chat_request (httpChannelChatResponse (ch_botID c) ''webui'' (rs_Text (snd (?a ! (n - 1)))) (ch_messageID c)))"
    by blast
  have "n \<noteq> 0"
  proof
    assume "n = 0"
    with n(1, 2) show False by (simp add: chat_timeout_def chat_deadline_def second_def)
  qed
  with n(3) have "env_Code e = ''OK''" by (simp add: WriteOKFromRequest_def WriteOK_def)
  then show ?thesis by (simp add: run)
qed

end
