(* ===== verification/OpencodeAcp.thy ===== *)
theory OpencodeAcp
  imports AcpCore
begin

text \<open>
  The opencode driver (\<open>internal/agent/opencode/driver_acp.go\<close>): sessions and their recovery, the
  handlers of the messages of the process, and the goroutines: the caller in \<open>Run\<close> (one at a
  time, for \<open>runMu\<close>), one \<open>sendPrompt\<close> per turn, the calls, the reader, and \<open>Close\<close>.  What is
  shared with the codex driver is in \<open>AcpCore\<close>.
\<close>

section \<open>State\<close>

record sendJob =
  sj_ctx :: nat
  sj_sessionID :: string
  sj_workDir :: string
  sj_prompt :: string
  sj_ch :: nat

datatype sendState =
    SendPrompt sendJob
  | SendWait sendJob int
  | SendFailed sendJob goerr
  | SendClear sendJob goerr
  | SendNew sendJob goerr
  | SendNewWait sendJob goerr int
  | SendStore sendJob string
  | SendRepoint sendJob string
  | SendRetry sendJob string
  | SendRetryWait sendJob int
  | SendComplete sendJob
  | SendEnd

datatype runState =
    RunIdle
  | RunEnsure turn
  | RunAdopt turn string
  | RunNew turn
  | RunNewWait turn int
  | RunStore turn string
  | RunInstall turn string
  | RunLoop turn nat "string list"
  | RunAnswer turn nat string
  | RunReturn turn nat "response \<times> goerr option"

record opencode = acpRuntime +
  oc_adopted :: bool
  oc_seen :: "string list option"
  oc_init :: initState
  oc_run :: runState
  oc_sends :: "sendState list"
  oc_results :: "(response \<times> goerr option) list"

definition oc_name :: string where "oc_name = ''opencode acp''"
definition runtimeTypeOpencode :: string where "runtimeTypeOpencode = ''opencode''"

section \<open>The start of the process\<close>

definition oc_buildACPArgs :: "string \<Rightarrow> string list \<Rightarrow> bool \<Rightarrow> string list" where
  "oc_buildACPArgs = with_subcommand ''opencode'' ''acp''"

definition oc_command :: "spec \<Rightarrow> goerr + execCmd" where
  "oc_command = acp_command oc_name oc_buildACPArgs"

text \<open>\<open>Init\<close> up to its first call; \<open>init_next\<close> goes on from there.\<close>

definition oc_launch :: "goerr option \<Rightarrow> goerr option \<Rightarrow> goerr option \<Rightarrow> spec \<Rightarrow> goerr + opencode" where
  "oc_launch pipeErr1 pipeErr2 startErr sp =
     (case oc_command sp of
        Inl err \<Rightarrow> Inl err
      | Inr cmd \<Rightarrow>
          (case start_error oc_name pipeErr1 pipeErr2 startErr of
             Some err \<Rightarrow> Inl err
           | None \<Rightarrow>
               (let r = started_runtime sp \<lparr>oc_adopted = False, oc_seen = None, oc_init = InitCall 1, oc_run = RunIdle,
                                            oc_sends = [], oc_results = []\<rparr>
                in Inr (snd (rpc_begin oc_name 0 ''initialize''
                               (Some (initialize_params [(''protocolVersion'', JNum 1)])) r)))))"

section \<open>Sessions\<close>

definition ensureSession :: "turn \<Rightarrow> opencode \<Rightarrow> runState" where
  "ensureSession tn r =
     (let resumeID = TrimSpace (sp_ResumeSessionID (ar_spec r)) in
      if ar_sessionID r \<noteq> [] \<and> ar_sessionWorkDir r = tn_workDir tn then RunInstall tn (ar_sessionID r)
      else if ar_sessionID r = [] \<and> resumeID \<noteq> [] then RunAdopt tn resumeID
      else RunNew tn)"

definition adopt_session :: "string \<Rightarrow> string \<Rightarrow> opencode \<Rightarrow> opencode" where
  "adopt_session resumeID workDir r = r\<lparr>ar_sessionID := resumeID, ar_sessionWorkDir := workDir, oc_adopted := True\<rparr>"

definition newSession_begin :: "nat \<Rightarrow> string \<Rightarrow> opencode \<Rightarrow> (goerr + int) \<times> opencode" where
  "newSession_begin c workDir = rpc_begin oc_name c ''session/new'' (Some (JObj [(''cwd'', JStr workDir), (''mcpServers'', JArr [])]))"

text \<open>The text of a decoding error is left out after its prefix.\<close>

definition newSession_result :: "goerr + json option \<Rightarrow> goerr + string" where
  "newSession_result res =
     (case res of
        Inl err \<Rightarrow> Inl err
      | Inr result \<Rightarrow>
          (case unmarshal_value (get_str ''sessionId'') result of
             None \<Rightarrow> Inl (errorf ''decode opencode acp session/new result: '')
           | Some sid \<Rightarrow> if sid = [] then Inl (errorf ''opencode acp session/new returned empty session id'') else Inr sid))"

definition newSession_store :: "string \<Rightarrow> string \<Rightarrow> opencode \<Rightarrow> opencode" where
  "newSession_store sid workDir r = r\<lparr>ar_sessionID := sid, ar_sessionWorkDir := workDir, oc_adopted := False\<rparr>"

section \<open>Messages of the process\<close>

record contentItem =
  ci_Type :: string
  ci_Text :: string
  ci_Delta :: string
  ci_Completed :: bool

record sessionUpdate =
  su_SessionUpdate :: string
  su_ToolCallID :: string
  su_Status :: string
  su_Title :: string
  su_Kind :: string
  su_RawInput :: members
  su_Content :: "json option"

record updatePayload =
  up_SessionID :: string
  up_Item :: contentItem
  up_ContentItems :: "contentItem list"
  up_Update :: sessionUpdate

definition contentItem_fields :: "members \<Rightarrow> contentItem \<times> bool" where
  "contentItem_fields ms =
     (let (ty, e1) = get_str ''type'' ms; (txt, e2) = get_str ''text'' ms; (d, e3) = get_str ''delta'' ms;
          (c, e4) = get_bool ''completed'' ms
      in (\<lparr>ci_Type = ty, ci_Text = txt, ci_Delta = d, ci_Completed = c\<rparr>, e1 \<or> e2 \<or> e3 \<or> e4))"

definition sessionUpdate_fields :: "members \<Rightarrow> sessionUpdate \<times> bool" where
  "sessionUpdate_fields ms =
     (let (su, e1) = get_str ''sessionUpdate'' ms; (tc, e2) = get_str ''toolCallId'' ms; (st, e3) = get_str ''status'' ms;
          (ti, e4) = get_str ''title'' ms; (k, e5) = get_str ''kind'' ms; (ri, e6) = get_anymap ''rawInput'' ms;
          (c, e7) = get_raw ''content'' ms
      in (\<lparr>su_SessionUpdate = su, su_ToolCallID = tc, su_Status = st, su_Title = ti, su_Kind = k, su_RawInput = ri,
           su_Content = c\<rparr>, e1 \<or> e2 \<or> e3 \<or> e4 \<or> e5 \<or> e6 \<or> e7))"

definition updatePayload_fields :: "members \<Rightarrow> updatePayload \<times> bool" where
  "updatePayload_fields ms =
     (let (sid, e1) = get_str ''sessionId'' ms; (im, e2) = get_struct ''contentItem'' ms;
          (it, e3) = contentItem_fields im; (cs, e4) = get_list ''contentItems'' ms;
          (items, e5) = decode_elems contentItem_fields cs; (um, e6) = get_struct ''update'' ms;
          (u, e7) = sessionUpdate_fields um
      in (\<lparr>up_SessionID = sid, up_Item = it, up_ContentItems = items, up_Update = u\<rparr>,
          e1 \<or> e2 \<or> e3 \<or> e4 \<or> e5 \<or> e6 \<or> e7))"

text \<open>What the handlers do, in order; each step of it is one of \<open>handler_op\<close>.\<close>

definition dispatchDelta :: "string \<Rightarrow> string \<Rightarrow> readerOp list" where
  "dispatchDelta sid d = [OpDispatch sid (empty_event\<lparr>te_Delta := d\<rparr>)]"

definition dispatchText :: "string \<Rightarrow> string \<Rightarrow> readerOp list" where
  "dispatchText sid t = [OpDispatch sid (empty_event\<lparr>te_Text := t\<rparr>)]"

definition dispatchCompleted :: "string \<Rightarrow> readerOp list" where
  "dispatchCompleted sid = [OpDispatch sid (empty_event\<lparr>te_Kind := ''completed''\<rparr>)]"

definition dispatchPromptEvent :: "string \<Rightarrow> contentItem \<Rightarrow> readerOp list" where
  "dispatchPromptEvent sid it =
     (if ci_Delta it \<noteq> []
      then dispatchDelta sid (ci_Delta it) @ (if ci_Completed it then dispatchCompleted sid else [])
      else if ci_Text it \<noteq> [] \<and> ci_Completed it then dispatchDelta sid (ci_Text it) @ dispatchCompleted sid
      else if ci_Completed it then dispatchCompleted sid
      else if ci_Text it \<noteq> [] then dispatchText sid (ci_Text it)
      else [])"

text \<open>The first update of a tool call that is in progress is shown, if the call has a title or a kind.\<close>

definition tool_progress :: "sessionUpdate \<Rightarrow> readerOp list" where
  "tool_progress u =
     (if su_SessionUpdate u = ''tool_call_update'' \<and> su_Status u = ''in_progress'' \<and> su_ToolCallID u \<noteq> []
      then
        let tool = or_text (su_Title u) (su_Kind u)
        in [OpTool (su_ToolCallID u)
              (if tool = [] then None
               else Some \<lparr>pe_Kind = ''tool'', pe_Tool = tool, pe_Target = TargetFromInput tool (su_RawInput u)\<rparr>)]
      else [])"

text \<open>Whether a tool call was seen in this turn; from now on it is.\<close>

definition see_tool :: "string \<Rightarrow> opencode \<Rightarrow> bool \<times> opencode" where
  "see_tool i r =
     (let seen = (case oc_seen r of None \<Rightarrow> False | Some ids \<Rightarrow> i \<in> set ids)
      in (seen, if seen then r else r\<lparr>oc_seen := map_option (\<lambda>ids. i # ids) (oc_seen r)\<rparr>))"

definition message_chunk :: "string \<Rightarrow> sessionUpdate \<Rightarrow> readerOp list" where
  "message_chunk sid u =
     (if su_SessionUpdate u = ''agent_message_chunk''
      then (case unmarshal_value (get_str ''text'') (su_Content u) of
              Some t \<Rightarrow> if t \<noteq> [] then dispatchDelta sid t else []
            | None \<Rightarrow> [])
      else [])"

definition handleSessionUpdate :: "json option \<Rightarrow> readerOp list" where
  "handleSessionUpdate params =
     (case unmarshal_value updatePayload_fields params of
        None \<Rightarrow> []
      | Some p \<Rightarrow>
          let sid = up_SessionID p
          in tool_progress (up_Update p) @ message_chunk sid (up_Update p)
             @ (if ci_Type (up_Item p) \<noteq> [] then dispatchPromptEvent sid (up_Item p) else [])
             @ concat (map (dispatchPromptEvent sid) (up_ContentItems p)))"

definition handlePermissionRequest :: "string \<Rightarrow> readerOp list" where
  "handlePermissionRequest = answer_permission [''allow'', ''allowOnce'']"

definition oc_handle :: "string \<Rightarrow> json option \<Rightarrow> string \<Rightarrow> readerOp list" where
  "oc_handle method params line =
     (if method = ''session/update'' then handleSessionUpdate params
      else if method = ''session/request_permission'' then handlePermissionRequest line
      else [])"

section \<open>Prompts\<close>

definition prompt_params :: "string \<Rightarrow> string \<Rightarrow> json" where
  "prompt_params sid prompt =
     JObj [(''prompt'', JArr [JObj [(''text'', JStr prompt), (''type'', JStr ''text'')]]), (''sessionId'', JStr sid)]"

definition send_error :: "sendJob \<Rightarrow> goerr \<Rightarrow> opencode \<Rightarrow> opencode" where
  "send_error j err = offer_event (sj_ch j) (empty_event\<lparr>te_Kind := ''error'', te_Err := Some err\<rparr>)"

text \<open>A step of \<open>sendPrompt\<close>; \<open>None\<close> while it waits.\<close>

fun sendPrompt :: "sendState \<Rightarrow> opencode \<Rightarrow> (sendState \<times> opencode) option" where
  "sendPrompt (SendPrompt j) r =
     (case rpc_begin oc_name (sj_ctx j) ''session/prompt'' (Some (prompt_params (sj_sessionID j) (sj_prompt j))) r of
        (Inl err, r1) \<Rightarrow> Some (SendFailed j err, r1)
      | (Inr i, r1) \<Rightarrow> Some (SendWait j i, r1))"
| "sendPrompt (SendWait j i) r =
     map_option (\<lambda>res. (case res of Inl err \<Rightarrow> SendFailed j err | Inr _ \<Rightarrow> SendComplete j, r)) (call_result i r)"
| "sendPrompt (SendFailed j err) r =
     (let adopted = (oc_adopted r \<and> ar_sessionID r = sj_sessionID j) in
      if \<not> adopted \<or> ctx_err r (sj_ctx j) \<noteq> None then Some (SendEnd, send_error j err r)
      else Some (SendClear j err, r))"
| "sendPrompt (SendClear j err) r =
     Some (SendNew j err,
           if ar_sessionID r = sj_sessionID j
           then r\<lparr>ar_sessionID := [], ar_sessionWorkDir := [], oc_adopted := False\<rparr> else r)"
| "sendPrompt (SendNew j err) r =
     (case newSession_begin (sj_ctx j) (sj_workDir j) r of
        (Inl _, r1) \<Rightarrow> Some (SendEnd, send_error j err r1)
      | (Inr i, r1) \<Rightarrow> Some (SendNewWait j err i, r1))"
| "sendPrompt (SendNewWait j err i) r =
     map_option (\<lambda>res. case newSession_result res of
         Inl _ \<Rightarrow> (SendEnd, send_error j err r)
       | Inr sid \<Rightarrow> (SendStore j sid, r)) (call_result i r)"
| "sendPrompt (SendStore j sid) r = Some (SendRepoint j sid, newSession_store sid (sj_workDir j) r)"
| "sendPrompt (SendRepoint j sid) r =
     Some (SendRetry j sid, if ar_activeCh r = Some (sj_ch j) then r\<lparr>ar_activeSession := sid\<rparr> else r)"
| "sendPrompt (SendRetry j sid) r =
     (case rpc_begin oc_name (sj_ctx j) ''session/prompt'' (Some (prompt_params sid (sj_prompt j))) r of
        (Inl err, r1) \<Rightarrow> Some (SendEnd, send_error j err r1)
      | (Inr i, r1) \<Rightarrow> Some (SendRetryWait j i, r1))"
| "sendPrompt (SendRetryWait j i) r =
     map_option (\<lambda>res. case res of
         Inl err \<Rightarrow> (SendEnd, send_error j err r)
       | Inr _ \<Rightarrow> (SendComplete j, r)) (call_result i r)"
| "sendPrompt (SendComplete j) r =
     (if has_room r (sj_ch j) then Some (SendEnd, put_event (sj_ch j) (empty_event\<lparr>te_Kind := ''completed''\<rparr>) r) else None)"
| "sendPrompt SendEnd r = None"

text \<open>\<open>signalCompleted\<close> gives up when its context is done.\<close>

fun signal_gives_up :: "sendState \<Rightarrow> opencode \<Rightarrow> bool" where
  "signal_gives_up (SendComplete j) r = (ctx_err r (sj_ctx j) \<noteq> None)"
| "signal_gives_up _ r = False"

section \<open>Turns\<close>

definition oc_return :: "bool \<Rightarrow> nat \<Rightarrow> response \<times> goerr option \<Rightarrow> opencode \<Rightarrow> opencode" where
  "oc_return derived c res r =
     (cancel_derived derived c r)\<lparr>oc_run := RunIdle, oc_results := oc_results r @ [res]\<rparr>"

text \<open>The start of \<open>Run\<close>.\<close>

definition oc_Run_begin :: "goctx \<Rightarrow> request \<Rightarrow> opencode \<Rightarrow> opencode option" where
  "oc_Run_begin ctx req r =
     (if oc_run r \<noteq> RunIdle \<or> oc_init r \<noteq> InitDone then None
      else case turn_begin oc_name ctx req r of
             (Inl err, r1) \<Rightarrow> Some (r1\<lparr>oc_results := oc_results r1 @ [(empty_response, Some err)]\<rparr>)
           | (Inr tn, r1) \<Rightarrow> Some (r1\<lparr>oc_run := RunEnsure tn\<rparr>))"

definition ensure_failed :: "turn \<Rightarrow> goerr \<Rightarrow> opencode \<Rightarrow> opencode" where
  "ensure_failed tn err r = oc_return (tn_derived tn) (tn_ctx tn) (empty_response, Some err) (markBroken err r)"

definition loop_next :: "turn \<Rightarrow> nat \<Rightarrow> turnNext \<Rightarrow> runState" where
  "loop_next tn c next =
     (case next of
        NextLoop parts \<Rightarrow> RunLoop tn c parts
      | NextAnswer answer \<Rightarrow> RunAnswer tn c answer
      | NextReturn err \<Rightarrow> RunReturn tn c (empty_response, Some err))"

text \<open>A step of \<open>Run\<close>; \<open>None\<close> while it waits.\<close>

fun run_step :: "runState \<Rightarrow> opencode \<Rightarrow> opencode option" where
  "run_step RunIdle r = None"
| "run_step (RunEnsure tn) r = Some (r\<lparr>oc_run := ensureSession tn r\<rparr>)"
| "run_step (RunAdopt tn sid) r = Some ((adopt_session sid (tn_workDir tn) r)\<lparr>oc_run := RunInstall tn sid\<rparr>)"
| "run_step (RunNew tn) r =
     (case newSession_begin (tn_ctx tn) (tn_workDir tn) r of
        (Inl err, r1) \<Rightarrow> Some (ensure_failed tn err r1)
      | (Inr i, r1) \<Rightarrow> Some (r1\<lparr>oc_run := RunNewWait tn i\<rparr>))"
| "run_step (RunNewWait tn i) r =
     map_option (\<lambda>res. case newSession_result res of
         Inl err \<Rightarrow> ensure_failed tn err r
       | Inr sid \<Rightarrow> r\<lparr>oc_run := RunStore tn sid\<rparr>) (call_result i r)"
| "run_step (RunStore tn sid) r = Some ((newSession_store sid (tn_workDir tn) r)\<lparr>oc_run := RunInstall tn sid\<rparr>)"
| "run_step (RunInstall tn sid) r =
     (let c = length (ar_chans r); r1 = open_turn sid (tn_progress tn) r in
      Some (r1\<lparr>oc_seen := Some [], oc_run := RunLoop tn c [],
               oc_sends := oc_sends r1 @ [SendPrompt \<lparr>sj_ctx = tn_ctx tn, sj_sessionID = sid, sj_workDir = tn_workDir tn,
                                                     sj_prompt = tn_prompt tn, sj_ch = c\<rparr>]\<rparr>))"
| "run_step (RunLoop tn c parts) r =
     map_option (\<lambda>(next, r1). r1\<lparr>oc_run := loop_next tn c next\<rparr>) (turn_receive oc_name ''prompt'' c parts r)"
| "run_step (RunAnswer tn c answer) r = Some (r\<lparr>oc_run := RunReturn tn c (acp_answer runtimeTypeOpencode answer r, None)\<rparr>)"
| "run_step (RunReturn tn c res) r =
     (let r1 = (if ar_activeCh r = Some c then r\<lparr>oc_seen := None\<rparr> else r)
      in Some (oc_return (tn_derived tn) (tn_ctx tn) res (close_turn c r1)))"

text \<open>The loop of \<open>Run\<close> when its context is done.\<close>

fun run_ctx_done :: "runState \<Rightarrow> opencode \<Rightarrow> opencode option" where
  "run_ctx_done (RunLoop tn c parts) r =
     map_option (\<lambda>(next, r1). r1\<lparr>oc_run := loop_next tn c next\<rparr>) (turn_ctx_done oc_name (tn_ctx tn) r)"
| "run_ctx_done _ r = None"

section \<open>All together\<close>

text \<open>
  The steps of a runtime whose process has been started.  The environment chooses the requests,
  when contexts end, the lines of the process, the errors of writes, and when it is closed.
\<close>

inductive oc_step :: "opencode \<Rightarrow> opencode \<Rightarrow> bool" where
  init: "init_next oc_name werr wait (oc_init r, r) = Some (pc, r1) \<Longrightarrow> oc_step r (r1\<lparr>oc_init := pc\<rparr>)"
| run_begin: "oc_Run_begin ctx req r = Some r1 \<Longrightarrow> oc_step r r1"
| run: "run_step (oc_run r) r = Some r1 \<Longrightarrow> oc_step r r1"
| run_done: "run_ctx_done (oc_run r) r = Some r1 \<Longrightarrow> oc_step r r1"
| send: "k < length (oc_sends r) \<Longrightarrow> sendPrompt (oc_sends r ! k) r = Some (pc, r1) \<Longrightarrow>
         oc_step r (r1\<lparr>oc_sends := (oc_sends r)[k := pc]\<rparr>)"
| send_done: "k < length (oc_sends r) \<Longrightarrow> signal_gives_up (oc_sends r ! k) r \<Longrightarrow>
         oc_step r (r\<lparr>oc_sends := (oc_sends r)[k := SendEnd]\<rparr>)"
| call_write: "rpc_write oc_name werr i r = Some r1 \<Longrightarrow> oc_step r r1"
| call_done: "rpc_ctx_done i r = Some r1 \<Longrightarrow> oc_step r r1"
| call_reply: "rpc_reply i r = Some r1 \<Longrightarrow> oc_step r r1"
| call_leave: "rpc_leave i r = Some r1 \<Longrightarrow> oc_step r r1"
| line: "read_line oc_handle l r = Some r1 \<Longrightarrow> oc_step r r1"
| handler: "handler_next see_tool ok r = Some r1 \<Longrightarrow> oc_step r r1"
| read_end: "read_end oc_name scanErr r = Some r1 \<Longrightarrow> oc_step r r1"
| reader: "reader_next r = Some r1 \<Longrightarrow> oc_step r r1"
| stderr: "oc_step r (stderr_Write p r)"
| ctx_done: "err \<in> {deadline_exceeded, context_canceled} \<Longrightarrow> oc_step r (end_ctx c err r)"
| close: "oc_init r = InitDone \<Longrightarrow> oc_step r (snd (acp_Close oc_name wait r))"

end
