(* ===== verification/OpencodeLaws.thy ===== *)
theory OpencodeLaws
  imports OpencodeAcp AcpLaws
begin

text \<open>
  What holds of the opencode driver in every reachable state (\<open>oc_step\<close>), and of its handlers and
  its recovery of sessions.  The steps beside the turn are harmless by the laws of \<open>acp_driver\<close>.
\<close>

section \<open>The driver as one of its kind\<close>

fun oc_phase :: "runState \<Rightarrow> phase" where
  "oc_phase (RunLoop tn c parts) = Looping c parts"
| "oc_phase (RunAnswer tn c answer) = Answering c answer"
| "oc_phase (RunReturn tn c res) = Returning res"
| "oc_phase _ = Quiet"

definition oc_view :: "opencode \<Rightarrow> turnView" where
  "oc_view r = (oc_phase (oc_run r), oc_results r, oc_init r = InitDone)"

abbreviation oc_ok :: "opencode \<Rightarrow> bool" where
  "oc_ok \<equiv> acp_ok oc_view"

lemma opencode_more:
  fixes r s :: opencode
  assumes "acpRuntime.more s = acpRuntime.more r"
  shows "oc_run s = oc_run r" "oc_results s = oc_results r" "oc_init s = oc_init r" "oc_adopted s = oc_adopted r"
    "oc_seen s = oc_seen r" "oc_sends s = oc_sends r"
proof -
  have "(oc_run s, oc_results s, oc_init s, oc_adopted s, oc_seen s, oc_sends s) =
    (oc_run r, oc_results r, oc_init r, oc_adopted r, oc_seen r, oc_sends r)"
    using assms by (cases r rule: opencode.cases_scheme; cases s rule: opencode.cases_scheme; simp)
  then show "oc_run s = oc_run r" "oc_results s = oc_results r" "oc_init s = oc_init r" "oc_adopted s = oc_adopted r"
    "oc_seen s = oc_seen r" "oc_sends s = oc_sends r"
    by simp_all
qed

interpretation oc: acp_driver oc_view
proof
  fix r s :: opencode
  assume "acpRuntime.more s = acpRuntime.more r"
  then show "oc_view s = oc_view r" using opencode_more [of s r] by (simp add: oc_view_def)
qed

lemma oc_fields [simp]:
  "rpc_ok (r\<lparr>oc_run := a\<rparr>) = rpc_ok r" "rpc_ok (r\<lparr>oc_results := b\<rparr>) = rpc_ok r" "rpc_ok (r\<lparr>oc_init := d\<rparr>) = rpc_ok r"
  "rpc_ok (r\<lparr>oc_sends := e\<rparr>) = rpc_ok r" "rpc_ok (r\<lparr>oc_seen := f\<rparr>) = rpc_ok r" "rpc_ok (r\<lparr>oc_adopted := g\<rparr>) = rpc_ok r"
  "chans_ok (r\<lparr>oc_run := a\<rparr>) = chans_ok r" "chans_ok (r\<lparr>oc_results := b\<rparr>) = chans_ok r"
  "chans_ok (r\<lparr>oc_init := d\<rparr>) = chans_ok r" "chans_ok (r\<lparr>oc_sends := e\<rparr>) = chans_ok r"
  "chans_ok (r\<lparr>oc_seen := f\<rparr>) = chans_ok r" "chans_ok (r\<lparr>oc_adopted := g\<rparr>) = chans_ok r"
  by (simp_all add: rpc_ok_def chans_ok_def)

lemma oc_ok_iff:
  "oc_ok r \<longleftrightarrow> rpc_ok r \<and> chans_ok r \<and> phase_ok (ar_chans r) (oc_phase (oc_run r))"
  by (simp add: acp_ok_def oc_view_def)

lemma harmless_fields:
  "harmless oc_view r (r\<lparr>oc_seen := x\<rparr>)" "harmless oc_view r (r\<lparr>oc_sends := y\<rparr>)" "harmless oc_view r (r\<lparr>oc_adopted := z\<rparr>)"
  by (simp_all add: harmless_def acp_broken_def oc_view_def)

lemma harmless_see: "harmless oc_view r (snd (see_tool i r))"
  by (simp add: see_tool_def Let_def harmless_fields)

section \<open>The sender\<close>

lemma harmless_session:
  "harmless oc_view r (r\<lparr>ar_sessionID := a, ar_sessionWorkDir := b, oc_adopted := d\<rparr>)"
  using harmless_trans [OF oc.harmless_sessions(1) harmless_fields(3)] by simp

lemma harmless_send: "sendPrompt pc r = Some (pc1, s) \<Longrightarrow> harmless oc_view r s"
  by (cases "(pc, r)" rule: sendPrompt.cases,
      auto simp: newSession_begin_def send_error_def newSession_store_def Let_def harmless_session oc.harmless_sessions
        oc.harmless_offer oc.harmless_put
       split: prod.split_asm sum.split_asm if_split_asm dest!: oc.harmless_begin intro: harmless_trans oc.harmless_offer)
     (metis sum.exhaust oc.harmless_offer harmless_refl)+

section \<open>The turn\<close>

lemma oc_ok_fields: "oc_ok (r\<lparr>oc_init := x\<rparr>) = oc_ok r" "oc_ok (r\<lparr>oc_sends := y\<rparr>) = oc_ok r" "oc_ok (r\<lparr>oc_seen := z\<rparr>) = oc_ok r"
  by (simp_all add: oc_ok_iff)

lemma run_keeps:
  assumes "harmless oc_view r r1" "oc_ok r1 \<Longrightarrow> phase_ok (ar_chans r1) (oc_phase pc)"
    and "\<And>k. oc_ok r1 \<Longrightarrow> phase_in k (ar_chans r1) (oc_phase (oc_run r)) \<Longrightarrow> phase_in k (ar_chans r1) (oc_phase pc)"
  shows "acp_keeps oc_view r (r1\<lparr>oc_run := pc\<rparr>)"
proof (rule keeps_trans [OF harmless_keeps [OF assms(1)] keeps_view])
  have v: "oc_view r1 = oc_view r" using assms(1) by (simp add: harmless_def)
  show "in_turn n k (ar_chans r1) (oc_view r1) \<Longrightarrow> oc_ok r1 \<Longrightarrow> in_turn n k (ar_chans r1) (oc_view (r1\<lparr>oc_run := pc\<rparr>))" for n k
    using in_turn_phase [of n k "ar_chans r1" "oc_view r1" "oc_phase pc"] assms(3) v by (simp add: oc_view_def)
qed (use assms(2) in \<open>simp_all add: rpc_part_def oc_view_def\<close>)

lemma quiet_keeps:
  "harmless oc_view r r1 \<Longrightarrow> oc_phase (oc_run r) = Quiet \<Longrightarrow> oc_phase pc = Quiet \<Longrightarrow> acp_keeps oc_view r (r1\<lparr>oc_run := pc\<rparr>)"
  by (rule run_keeps) simp_all

lemma result_keeps:
  assumes "harmless oc_view r r1" "\<And>k. oc_ok r1 \<Longrightarrow> phase_in k (ar_chans r1) (oc_phase (oc_run r)) \<Longrightarrow> answered_by k (ar_chans r1) res"
  shows "acp_keeps oc_view r (r1\<lparr>oc_run := RunIdle, oc_results := oc_results r @ [res]\<rparr>)" (is "acp_keeps _ _ ?s")
proof (rule keeps_trans [OF harmless_keeps [OF assms(1)] keeps_view])
  have v: "oc_view r1 = oc_view r" using assms(1) by (simp add: harmless_def)
  show "in_turn n k (ar_chans r1) (oc_view r1) \<Longrightarrow> oc_ok r1 \<Longrightarrow> in_turn n k (ar_chans r1) (oc_view ?s)" for n k
    using in_turn_result [of n k "ar_chans r1" "oc_view r1" res Quiet] assms(2) v by (simp add: oc_view_def)
qed (simp_all add: rpc_part_def oc_view_def)

lemma ensureSession_quiet [simp]: "oc_phase (ensureSession tn r) = Quiet"
  by (simp add: ensureSession_def Let_def)

lemma return_keeps:
  assumes "harmless oc_view r r1" "\<And>k r2. oc_ok r2 \<Longrightarrow> phase_in k (ar_chans r2) (oc_phase (oc_run r)) \<Longrightarrow> answered_by k (ar_chans r2) res"
  shows "acp_keeps oc_view r (oc_return d c res r1)"
proof -
  have "oc_results r1 = oc_results r" using assms(1) by (simp add: harmless_def oc_view_def)
  then show ?thesis
    unfolding oc_return_def using result_keeps [OF harmless_trans [OF assms(1) oc.harmless_ops(8)] assms(2)] by simp
qed

lemma ensure_failed_keeps: "harmless oc_view r r1 \<Longrightarrow> acp_keeps oc_view r (ensure_failed tn err r1)"
  unfolding ensure_failed_def by (erule return_keeps [OF harmless_trans [OF _ oc.harmless_ops(1)]]) simp

lemma loop_next_phase [simp]: "oc_phase (loop_next tn c next) = next_phase c next"
  by (cases "next") (simp_all add: loop_next_def)

lemma receive_keeps:
  assumes "oc_run r = RunLoop tn c parts" "turn_receive name what c parts r = Some (next, s)"
  shows "acp_keeps oc_view r (s\<lparr>oc_run := loop_next tn c next\<rparr>)"
proof -
  have more: "acpRuntime.more s = acpRuntime.more r" by (rule turn_receive_more [OF assms(2)])
  have "oc_ok (s\<lparr>oc_run := loop_next tn c next\<rparr>)
      \<and> (in_turn n k (ar_chans r) (oc_view r) \<longrightarrow> in_turn n k (ar_chans s) (oc_view (s\<lparr>oc_run := loop_next tn c next\<rparr>)))"
    if "oc_ok r" for n k
  proof -
    have ok: "rpc_ok r" "chans_ok r" "phase_ok (ar_chans r) (Looping c parts)" using that assms(1) by (simp_all add: oc_ok_iff)
    from turn_receive_ok [OF assms(2) ok] in_turn_receive [of n k "ar_chans r" c parts "oc_results r" "oc_init r = InitDone" "ar_chans s" "next"]
    show ?thesis by (auto simp: oc_ok_iff oc_view_def assms(1) opencode_more [OF more])
  qed
  then show ?thesis
    using turn_receive_broken [OF assms(2)] by (simp add: acp_keeps_def acp_broken_def oc_view_def opencode_more [OF more])
qed

lemma run_step_keeps:
  assumes "run_step (oc_run r) r = Some s"
  shows "acp_keeps oc_view r s"
proof (cases "oc_run r")
  case (RunLoop tn c parts)
  then show ?thesis using receive_keeps [OF RunLoop] assms by auto
next
  case (RunEnsure tn)
  then show ?thesis using assms by (auto intro!: quiet_keeps)
next
  case (RunNew tn)
  then show ?thesis using assms
    by (auto simp: newSession_begin_def split: prod.split_asm sum.split_asm dest!: oc.harmless_begin intro!: quiet_keeps ensure_failed_keeps)
next
  case (RunNewWait tn i)
  then obtain res where res: "s = (case newSession_result res of Inl err \<Rightarrow> ensure_failed tn err r | Inr sid \<Rightarrow> r\<lparr>oc_run := RunStore tn sid\<rparr>)"
    using assms by auto
  show ?thesis unfolding res using RunNewWait by (cases "newSession_result res") (simp_all add: ensure_failed_keeps quiet_keeps)
next
  case (RunReturn tn c res)
  have "harmless oc_view r (close_turn c (if ar_activeCh r = Some c then r\<lparr>oc_seen := None\<rparr> else r))"
    by (rule harmless_trans [OF _ oc.harmless_ops(9)]) (simp add: harmless_fields)
  from return_keeps [OF this, of res] show ?thesis using RunReturn assms by (auto simp: Let_def)
next
  case (RunAnswer tn c answer)
  then show ?thesis using assms by (auto simp: oc_ok_iff acp_answer_def answered_by_def intro!: run_keeps)
next
  case (RunInstall tn sid)
  then have s: "s = (open_turn sid (tn_progress tn) r)\<lparr>oc_seen := Some [], oc_run := RunLoop tn (length (ar_chans r)) [],
      oc_sends := oc_sends (open_turn sid (tn_progress tn) r) @ [SendPrompt \<lparr>sj_ctx = tn_ctx tn, sj_sessionID = sid,
        sj_workDir = tn_workDir tn, sj_prompt = tn_prompt tn, sj_ch = length (ar_chans r)\<rparr>]\<rparr>"
    using assms by (simp add: Let_def)
  show ?thesis unfolding s
    by (rule oc.open_keeps [of _ sid "tn_progress tn"])
       (simp_all add: rpc_part_def core_simps oc_view_def RunInstall opencode_more [OF more_frame(15)])
next
  case (RunAdopt tn sid)
  then show ?thesis using assms harmless_session by (auto simp: adopt_session_def intro!: quiet_keeps)
next
  case (RunStore tn sid)
  then show ?thesis using assms harmless_session by (auto simp: newSession_store_def intro!: quiet_keeps)
qed (use assms in simp)

lemma run_ctx_done_keeps: "run_ctx_done (oc_run r) r = Some s \<Longrightarrow> acp_keeps oc_view r s"
  by (cases "oc_run r") (auto simp: turn_ctx_done_def Let_def intro!: run_keeps oc.harmless_ops(1))

lemma Run_begin_keeps:
  assumes "oc_Run_begin ctx req r = Some s"
  shows "acp_keeps oc_view r s"
proof -
  obtain x r1 where b: "turn_begin oc_name ctx req r = (x, r1)" by fastforce
  have h: "harmless oc_view r r1" using oc.harmless_ops(11) [of r oc_name ctx req] by (simp add: b)
  then have v: "oc_view r1 = oc_view r" by (simp add: harmless_def)
  have idle: "oc_run r = RunIdle" using assms by (auto simp: oc_Run_begin_def split: if_splits)
  then have same: "r1\<lparr>oc_results := oc_results r1 @ [res]\<rparr> = r1\<lparr>oc_run := RunIdle, oc_results := oc_results r @ [res]\<rparr>" for res
    using v by (cases x) (use b in \<open>auto simp: oc_view_def turn_begin_def new_ctx_def Let_def split: if_splits\<close>)
  show ?thesis using assms b result_keeps [OF h] quiet_keeps [OF h] idle
    by (cases x) (auto simp: oc_Run_begin_def same split: if_split_asm)
qed

lemma oc_step_keeps: "oc_step r s \<Longrightarrow> acp_keeps oc_view r s"
proof (induction rule: oc_step.induct)
  case (init werr wait r pc r1)
  then have h: "harmless oc_view r r1" using oc.harmless_init [OF init.hyps] by (simp add: oc_view_def)
  have "oc_init r \<noteq> InitDone" using init.hyps by (auto simp: init_next_def)
  then have "\<not> acp_broken oc_view r" by (simp add: acp_broken_def oc_view_def)
  moreover have "in_turn n k (ar_chans r) (oc_view r) \<Longrightarrow> in_turn n k (ar_chans r1) (oc_view (r1\<lparr>oc_init := pc\<rparr>))" for n k
    using harmless_keeps [OF h] h in_turn_grow [OF feed_grow, of "ar_chans r" "ar_chans r1"]
    by (fastforce simp: harmless_def oc_view_def in_turn_def)
  ultimately show ?case using harmless_ok [OF h] by (simp add: acp_keeps_def oc_ok_fields)
next
  case (run_begin ctx req r r1)
  then show ?case by (rule Run_begin_keeps)
next
  case (run r r1)
  then show ?case by (rule run_step_keeps)
next
  case (run_done r r1)
  then show ?case by (rule run_ctx_done_keeps)
next
  case (send k r pc r1)
  show ?case by (rule harmless_keeps [OF harmless_trans [OF harmless_send [OF send.hyps(2)] harmless_fields(2)]])
next
  case (send_done k r)
  show ?case by (rule harmless_keeps [OF harmless_fields(2)])
next
  case (line l r r1)
  show ?case by (rule harmless_keeps [OF oc.harmless_line [OF line.hyps]])
next
  case (handler ok r r1)
  show ?case by (rule harmless_keeps [OF oc.harmless_handler [OF handler.hyps harmless_see]])
qed (rule harmless_keeps, (erule oc.harmless_calls oc.harmless_reader | rule oc.harmless_ops))+

definition oc_initial :: "opencode \<Rightarrow> bool" where
  "oc_initial r \<longleftrightarrow> (\<exists>e1 e2 e3 sp. oc_launch e1 e2 e3 sp = Inr r)"

lemma oc_initial_ok: "oc_initial r \<Longrightarrow> oc_ok r"
proof -
  assume "oc_initial r"
  then obtain sp where r: "r = snd (rpc_begin oc_name 0 ''initialize'' (Some (initialize_params [(''protocolVersion'', JNum 1)]))
      (started_runtime sp \<lparr>oc_adopted = False, oc_seen = None, oc_init = InitCall 1, oc_run = RunIdle, oc_sends = [], oc_results = []\<rparr>))"
    unfolding oc_initial_def oc_launch_def by (elim exE) (simp add: Let_def split: sum.split_asm option.split_asm, blast)
  show "oc_ok r" unfolding r
    by (rule harmless_ok [OF oc.harmless_begin [OF surjective_pairing]])
       (simp add: oc_ok_iff started_runtime_def rpc_ok_def chans_ok_def calls_ok_def results_ok_def replies_ok_def)
qed

interpretation opencodes: acp_machine oc_view oc_initial oc_step
  by unfold_locales (auto intro: oc_initial_ok oc_step_keeps)

section \<open>Turns and calls\<close>

text \<open>
  C20. Whatever the interleaving of the turn, the senders, the reader, timeouts and closing: when no turn
  runs, the first \<open>Run\<close> to return after this, if it gives an answer, gives that of the channel it has
  opened itself, which did not exist before (number \<open>length (ar_chans s)\<close>): the answer is not empty and
  is the trimmed concatenation of all the text this channel was given up to its first completion, none
  of which was an error.  Nothing is taken from an earlier turn, skipped or read twice.
\<close>

theorem opencode_answers_stream:
  assumes "oc_initial s0" "oc_step\<^sup>*\<^sup>* s0 s" "oc_run s = RunIdle" "oc_step\<^sup>*\<^sup>* s t" "oc_results t = oc_results s @ (resp, None) # rest"
  shows "length (ar_chans s) < length (ar_chans t) \<and> rs_Text resp \<noteq> [] \<and>
    (\<exists>evs ev. prefix (evs @ [ev]) (ch_sent (ar_chans t ! length (ar_chans s)))
       \<and> te_Kind ev = ''completed'' \<and> (\<forall>e \<in> set evs. te_Kind e \<noteq> ''completed'') \<and> (\<forall>e \<in> set (evs @ [ev]). te_Err e = None)
       \<and> rs_Text resp = TrimSpace (concat (map event_text (evs @ [ev]))))"
  using opencodes.answers_stream [OF assms(1, 2) _ assms(4)] assms(3,5) by (simp add: oc_view_def)

text \<open>
  C21. A call is answered only by the process, and only by the line meant for it: when \<open>rpc\<close> returns
  a result, some line read so far was a response without error that carries the id of this very call
  and this result.  The calls that wait have different ids, all of them given out before.
\<close>

theorem opencode_calls_matched:
  assumes "oc_initial s0" "oc_step\<^sup>*\<^sup>* s0 s"
  shows "distinct (ar_pending s) \<and> (\<forall>i \<in> set (ar_pending s). 0 < i \<and> i \<le> ar_nextID s)
    \<and> (ar_calls s i = Some (CallReturned (Inr v)) \<longrightarrow>
         (\<exists>line \<in> set (ar_in s). \<exists>resp. decode_line line = Some resp \<and> rr_Method resp = [] \<and> response_id resp = Some i
            \<and> rr_Error resp = None \<and> rr_Result resp = v))"
  by (rule opencodes.calls_matched [OF assms])

section \<open>Broken runtimes\<close>

abbreviation "broken_for_good \<equiv> acp_broken oc_view"

text \<open>
  C23. A runtime that breaks after its start stays broken whatever happens, and every \<open>Run\<close> from then
  on reports an error at once, without starting a turn.
\<close>

theorem opencode_broken_for_good:
  assumes "oc_init r = InitDone" "ar_state r = StateBroken" "oc_step\<^sup>*\<^sup>* r s" "oc_Run_begin ctx req s = Some t"
  shows "ar_state s = StateBroken \<and> oc_run t = RunIdle \<and> ar_chans t = ar_chans s
    \<and> (\<exists>err. oc_results t = oc_results s @ [(empty_response, Some err)])"
proof -
  have "broken_for_good s" using opencodes.broken_for_good [OF assms(3)] assms(1,2) by (simp add: acp_broken_def oc_view_def)
  then have s: "ar_state s = StateBroken" by (simp add: acp_broken_def oc_view_def)
  from broken_stays(4) [OF s, of oc_name ctx req] assms(4) s show ?thesis
    by (auto simp: oc_Run_begin_def split: if_splits prod.split_asm sum.split_asm)
qed

section \<open>Closing during a call\<close>

text \<open>
  A call looks at \<open>stdin\<close> when it registers itself and writes to it later without looking again:
  if the runtime is closed in between, the write is made on a nil writer and the program panics.
\<close>

theorem opencode_close_panics:
  assumes "oc_init r = InitDone" "ar_closed r = False" "ar_calls r i = Some (CallWriting c line)"
  shows "\<exists>s. oc_step\<^sup>*\<^sup>* r s \<and> ar_calls s i = Some CallPanicked"
proof -
  let ?r1 = "snd (acp_Close oc_name None r)"
  have "oc_step r ?r1" using assms(1) by (rule oc_step.close)
  moreover have "rpc_write oc_name None i ?r1 = Some (?r1\<lparr>ar_calls := (ar_calls r)(i \<mapsto> CallPanicked)\<rparr>)"
    using assms(2,3) by (simp add: acp_Close_def rpc_write_def)
  then have "oc_step ?r1 (?r1\<lparr>ar_calls := (ar_calls r)(i \<mapsto> CallPanicked)\<rparr>)" by (rule oc_step.call_write)
  ultimately have "oc_step\<^sup>*\<^sup>* r (?r1\<lparr>ar_calls := (ar_calls r)(i \<mapsto> CallPanicked)\<rparr>)" by (meson converse_rtranclp_into_rtranclp r_into_rtranclp)
  then show ?thesis by (intro exI conjI) (assumption, simp)
qed

section \<open>Handlers\<close>

text \<open>What a handler does to an event: nothing, when the event names another session than the active one.\<close>

lemma dispatch_other:
  "sid \<noteq> [] \<Longrightarrow> ar_activeSession r \<noteq> [] \<Longrightarrow> sid \<noteq> ar_activeSession r \<Longrightarrow> handler_op tool ok (OpDispatch sid ev) r = ([], r)"
  by (simp add: dispatch_target_def)

fun names_session :: "string \<Rightarrow> readerOp \<Rightarrow> bool" where
  "names_session sid (OpDispatch s ev) = (s = sid)"
| "names_session sid (OpSend c ev) = False"
| "names_session sid op = True"

text \<open>
  An update gives no turn an event but through its own session id: its handler only chooses channels
  for that session, and what else it does is to show that a tool call has begun.
\<close>

lemma prompt_event_names: "list_all (names_session sid) (dispatchPromptEvent sid it)"
  by (simp add: dispatchPromptEvent_def dispatchDelta_def dispatchCompleted_def dispatchText_def)

theorem opencode_sessions_apart:
  assumes "unmarshal_value updatePayload_fields params = Some p"
  shows "list_all (names_session (up_SessionID p)) (handleSessionUpdate params)"
proof -
  have "list_all (names_session sid) (concat (map (dispatchPromptEvent sid) xs))" for sid xs
    by (induction xs) (simp_all add: prompt_event_names)
  then show ?thesis
    using assms by (simp add: handleSessionUpdate_def tool_progress_def message_chunk_def dispatchDelta_def prompt_event_names Let_def split: option.splits)
qed

text \<open>
  A tool call is shown at most once in a turn: of the updates of a turn, however many there are, no more
  are shown than there are different tool call ids among them.
\<close>

fun tools_shown :: "string list \<Rightarrow> opencode \<Rightarrow> nat" where
  "tools_shown [] r = 0"
| "tools_shown (i # is) r = (case see_tool i r of (seen, r1) \<Rightarrow> (if seen then 0 else 1) + tools_shown is r1)"

theorem tool_calls_shown_once: "oc_seen r = Some ids \<Longrightarrow> tools_shown is r = card (set is - set ids)"
proof (induction "is" arbitrary: r ids)
  case (Cons i "is")
  show ?case
  proof (cases "i \<in> set ids")
    case True
    then show ?thesis using Cons by (simp add: see_tool_def insert_Diff_if)
  next
    case False
    have "tools_shown is (r\<lparr>oc_seen := Some (i # ids)\<rparr>) = card (set is - set (i # ids))" by (rule Cons.IH) simp
    moreover have "set (i # is) - set ids = insert i (set is - set (i # ids))" using False by auto
    ultimately show ?thesis using Cons.prems False by (simp add: see_tool_def)
  qed
qed simp

section \<open>The sender ends\<close>

fun send_rank :: "sendState \<Rightarrow> nat" where
  "send_rank (SendPrompt j) = 11"
| "send_rank (SendWait j i) = 10"
| "send_rank (SendFailed j e) = 9"
| "send_rank (SendClear j e) = 8"
| "send_rank (SendNew j e) = 7"
| "send_rank (SendNewWait j e i) = 6"
| "send_rank (SendStore j sid) = 5"
| "send_rank (SendRepoint j sid) = 4"
| "send_rank (SendRetry j sid) = 3"
| "send_rank (SendRetryWait j i) = 2"
| "send_rank (SendComplete j) = 1"
| "send_rank SendEnd = 0"

text \<open>
  A sender ends: each of its steps, whatever the state of the runtime, lowers a rank that starts
  at eleven, so a rejected resumed session is recovered and the prompt repeated at most once.
\<close>

theorem sender_ends:
  assumes "sendPrompt pc r = Some (pc1, s)"
  shows "send_rank pc1 < send_rank pc \<and> send_rank (SendPrompt j) = 11"
proof (cases pc)
  case (SendWait j i)
  then have "\<exists>res :: goerr + json option. pc1 = (case res of Inl err \<Rightarrow> SendFailed j err | Inr _ \<Rightarrow> SendComplete j)" using assms by auto
  then obtain res :: "goerr + json option" where "pc1 = (case res of Inl err \<Rightarrow> SendFailed j err | Inr _ \<Rightarrow> SendComplete j)" by blast
  then show ?thesis using SendWait by (cases res) auto
next
  case (SendNewWait j e i)
  then have "\<exists>res :: goerr + json option. (case newSession_result res of Inl _ \<Rightarrow> (SendEnd, send_error j e r) | Inr sid \<Rightarrow> (SendStore j sid, r)) = (pc1, s)" using assms by auto
  then obtain res :: "goerr + json option" where "(case newSession_result res of Inl _ \<Rightarrow> (SendEnd, send_error j e r) | Inr sid \<Rightarrow> (SendStore j sid, r)) = (pc1, s)" by blast
  then show ?thesis using SendNewWait by (cases "newSession_result res") auto
next
  case (SendRetryWait j i)
  then have "\<exists>res :: goerr + json option. (case res of Inl err \<Rightarrow> (SendEnd, send_error j err r) | Inr _ \<Rightarrow> (SendComplete j, r)) = (pc1, s)" using assms by auto
  then obtain res :: "goerr + json option" where "(case res of Inl err \<Rightarrow> (SendEnd, send_error j err r) | Inr _ \<Rightarrow> (SendComplete j, r)) = (pc1, s)" by blast
  then show ?thesis using SendRetryWait by (cases res) auto
qed (use assms in \<open>auto simp: Let_def split: prod.split_asm sum.split_asm if_split_asm\<close>)

section \<open>Running the model\<close>

datatype ocAction =
    DoInit | DoRequest request | DoRun | DoRunTimeout | DoSend nat | DoWrite int | DoReply int | DoLeave int
  | DoLine string | DoHandler | DoEnd | DoReader | DoClose | DoTimeout nat

fun oc_do :: "ocAction \<Rightarrow> opencode \<Rightarrow> opencode option" where
  "oc_do DoInit r = map_option (\<lambda>(pc, r1). r1\<lparr>oc_init := pc\<rparr>) (init_next oc_name None None (oc_init r, r))"
| "oc_do (DoRequest req) r = oc_Run_begin Background req r"
| "oc_do DoRun r = run_step (oc_run r) r"
| "oc_do DoRunTimeout r = run_ctx_done (oc_run r) r"
| "oc_do (DoSend k) r =
     (if k < length (oc_sends r)
      then map_option (\<lambda>(pc, r1). r1\<lparr>oc_sends := (oc_sends r)[k := pc]\<rparr>) (sendPrompt (oc_sends r ! k) r) else None)"
| "oc_do (DoWrite i) r = rpc_write oc_name None i r"
| "oc_do (DoReply i) r = rpc_reply i r"
| "oc_do (DoLeave i) r = rpc_leave i r"
| "oc_do (DoLine l) r = read_line oc_handle l r"
| "oc_do DoHandler r = handler_next see_tool True r"
| "oc_do DoEnd r = read_end oc_name None r"
| "oc_do DoReader r = reader_next r"
| "oc_do DoClose r = (if oc_init r = InitDone then Some (snd (acp_Close oc_name None r)) else None)"
| "oc_do (DoTimeout c) r = Some (end_ctx c deadline_exceeded r)"

fun oc_exec :: "ocAction list \<Rightarrow> opencode \<Rightarrow> opencode option" where
  "oc_exec [] r = Some r"
| "oc_exec (a # as) r = (case oc_do a r of None \<Rightarrow> None | Some r1 \<Rightarrow> oc_exec as r1)"

lemma oc_do_step: "oc_do a r = Some s \<Longrightarrow> oc_step r s"
  by (cases "(a, r)" rule: oc_do.cases) (auto split: if_splits intro: oc_step.intros)

lemma oc_exec_steps: "oc_exec as r = Some s \<Longrightarrow> oc_step\<^sup>*\<^sup>* r s"
  by (induction as arbitrary: r) (auto split: option.splits dest!: oc_do_step intro: converse_rtranclp_into_rtranclp)

definition sample_spec :: spec where
  "sample_spec = empty_spec\<lparr>sp_Command := ''opencode'', sp_ResumeSessionID := ''s1''\<rparr>"

definition sample_start :: opencode where
  "sample_start = projr (oc_launch None None None sample_spec)"

definition chunk_params :: json where
  "chunk_params = JObj [(''sessionId'', JStr ''s1''),
        (''update'', JObj [(''sessionUpdate'', JStr ''agent_message_chunk''), (''content'', JObj [(''text'', JStr ''hello'')])])]"

lemma chunk_texty: "texty chunk_params" "clean_json chunk_params = chunk_params"
  by (simp_all add: chunk_params_def clean_utf8_ascii)

lemma chunk_payload: "unmarshal_value updatePayload_fields (Some chunk_params) = Some \<lparr>up_SessionID = ''s1'', 
  up_Item = \<lparr>ci_Type = [], ci_Text = [], ci_Delta = [], ci_Completed = False\<rparr>, up_ContentItems = [], up_Update =
   \<lparr>su_SessionUpdate = ''agent_message_chunk'', su_ToolCallID = [], su_Status = [], su_Title = [], su_Kind = [], su_RawInput = [],
   su_Content = Some (JObj [(''text'', JStr ''hello'')])\<rparr>\<rparr>"
  by (simp add: chunk_params_def unmarshal_value_def updatePayload_fields_def contentItem_fields_def sessionUpdate_fields_def decode_elems_def
    getters get_anymap_def same_name_ascii lower_char_def)


text \<open>A conversation: the handshake, a prompt in the resumed session, an update, the answer.\<close>

definition sample_actions :: "ocAction list" where
  "sample_actions =
     [DoWrite 1, DoLine (json_text (reply_value 1 (JObj []))), DoReader, DoReply 1, DoLeave 1, DoInit, DoInit, DoInit,
      DoRequest (empty_request\<lparr>rq_Prompt := ''hi''\<rparr>), DoRun, DoRun, DoRun, DoSend 0, DoWrite 2,
      DoLine (json_text (message_value ''session/update'' chunk_params)), DoHandler, DoHandler, DoLine (json_text (reply_value 2 (JObj []))), DoReader, DoReply 2, DoLeave 2,
      DoSend 0, DoSend 0, DoRun, DoRun, DoRun, DoRun]"

lemma trim_texts: "TrimSpace ''hi'' = ''hi''" "TrimSpace ''s1'' = ''s1''" "TrimSpace ''hello'' = ''hello''" "TrimSpace ''opencode'' = ''opencode''"
  by (simp_all add: TrimSpace_plain plain_char_def)

lemmas run_defs = rpc_write_def rpc_begin_def rpc_reply_def rpc_leave_def read_line_def reader_next_def init_next_def acp_notify_def write_line_def
  turn_receive_def turn_ctx_done_def loop_next_def oc_Run_begin_def turn_begin_def new_ctx_def turn_workDir_def or_text_def ensureSession_def adopt_session_def open_turn_def
  oc_handle_def handleSessionUpdate_def tool_progress_def message_chunk_def dispatchDelta_def dispatch_target_def handling_def handler_next_def offer_event_def has_room_def put_event_def
  the_chan_def queued_def turnBuffer_def call_result_def take_event_def event_outcome_def add_parts_def set_ready_def acp_answer_def
  oc_return_def cancel_derived_def close_turn_def end_ctx_def reply_result_def response_id_def

lemma sample_start: "sample_start = snd (rpc_begin oc_name 0 ''initialize''
    (Some (initialize_params [(''protocolVersion'', JNum 1)]))
    (started_runtime sample_spec \<lparr>oc_adopted = False, oc_seen = None, oc_init = InitCall 1, oc_run = RunIdle, oc_sends = [], oc_results = []\<rparr>))"
  and sample_initial: "oc_initial sample_start"
proof -
  have "oc_launch None None None sample_spec = Inr (snd (rpc_begin oc_name 0 ''initialize''
    (Some (initialize_params [(''protocolVersion'', JNum 1)]))
    (started_runtime sample_spec \<lparr>oc_adopted = False, oc_seen = None, oc_init = InitCall 1, oc_run = RunIdle, oc_sends = [], oc_results = []\<rparr>)))"
    by (simp add: oc_launch_def oc_command_def acp_command_def trim_texts sample_spec_def Let_def)
  then show "sample_start = snd (rpc_begin oc_name 0 ''initialize''
    (Some (initialize_params [(''protocolVersion'', JNum 1)]))
    (started_runtime sample_spec \<lparr>oc_adopted = False, oc_seen = None, oc_init = InitCall 1, oc_run = RunIdle, oc_sends = [], oc_results = []\<rparr>))"
    and "oc_initial sample_start"
    unfolding sample_start_def oc_initial_def by simp_all blast
qed

lemmas sample_run = run_defs started_runtime_def sample_spec_def empty_spec_def trim_lines trim_texts decode_reply decode_message chunk_texty clean_utf8_ascii
  chunk_payload Let_def empty_request_def Background_def empty_event_def getters same_name_ascii lower_char_def
  unmarshal_value_def [where raw = "Some (JObj [(''text'', JStr ''hello'')])"] text_response_def empty_response_def
  runtimeTypeOpencode_def

lemma sample_conversation:
  obtains s where "oc_step\<^sup>*\<^sup>* sample_start s" "length (ar_chans s) = 1" "ar_calls s 2 = Some (CallReturned (Inr (Some (JObj []))))"
    "oc_results s = [((text_response ''hello'')\<lparr>rs_RuntimeType := ''opencode'', rs_RawOutput := ''hello'', rs_SessionID := ''s1''\<rparr>, None)]"
proof -
  have "map_option (\<lambda>s. (length (ar_chans s), ar_calls s 2, oc_results s)) (oc_exec sample_actions sample_start) =
    Some (1, Some (CallReturned (Inr (Some (JObj [])))),
      [((text_response ''hello'')\<lparr>rs_RuntimeType := ''opencode'', rs_RawOutput := ''hello'', rs_SessionID := ''s1''\<rparr>, None)])"
    unfolding sample_start sample_actions_def by (simp add: sample_run del: json_text.simps)
  with that oc_exec_steps show thesis by auto
qed

text \<open>
  \<open>Init\<close> marks the runtime ready without looking whether the process has ended in the meantime.
\<close>

lemma opencode_ready_after_eof:
  "\<exists>s. oc_step\<^sup>*\<^sup>* sample_start s \<and> oc_init s = InitDone \<and> ar_reader s = ReaderDone \<and> ar_state s = StateReady"
proof -
  have "map_option (\<lambda>s. (oc_init s, ar_reader s, ar_state s))
      (oc_exec [DoWrite 1, DoLine (json_text (reply_value 1 (JObj []))), DoReader, DoReply 1, DoLeave 1, DoInit, DoInit, DoEnd, DoReader,
                DoReader, DoInit] sample_start) = Some (InitDone, ReaderDone, StateReady)"
    unfolding sample_start by (simp add: sample_run read_end_def markBroken_def del: json_text.simps)
  then show ?thesis by (auto simp del: oc_exec.simps oc_do.simps dest!: oc_exec_steps)
qed

section \<open>Witnesses\<close>

text \<open>A second turn, in the session of the first.\<close>

definition again_params :: json where
  "again_params = JObj [(''sessionId'', JStr ''s1''),
        (''update'', JObj [(''sessionUpdate'', JStr ''agent_message_chunk''), (''content'', JObj [(''text'', JStr ''again'')])])]"

lemma again_texty: "texty again_params" "clean_json again_params = again_params" "TrimSpace ''again'' = ''again''"
  by (simp_all add: again_params_def clean_utf8_ascii TrimSpace_plain plain_char_def)

lemma again_payload: "unmarshal_value updatePayload_fields (Some again_params) = Some \<lparr>up_SessionID = ''s1'', 
  up_Item = \<lparr>ci_Type = [], ci_Text = [], ci_Delta = [], ci_Completed = False\<rparr>, up_ContentItems = [], up_Update =
   \<lparr>su_SessionUpdate = ''agent_message_chunk'', su_ToolCallID = [], su_Status = [], su_Title = [], su_Kind = [], su_RawInput = [],
   su_Content = Some (JObj [(''text'', JStr ''again'')])\<rparr>\<rparr>"
  by (simp add: again_params_def unmarshal_value_def updatePayload_fields_def contentItem_fields_def sessionUpdate_fields_def decode_elems_def
    getters get_anymap_def same_name_ascii lower_char_def)

definition again_actions :: "ocAction list" where
  "again_actions =
     [DoRequest (empty_request\<lparr>rq_Prompt := ''hi''\<rparr>), DoRun, DoRun, DoSend 1, DoWrite 3,
      DoLine (json_text (message_value ''session/update'' again_params)), DoHandler, DoHandler, DoLine (json_text (reply_value 3 (JObj []))), DoReader, DoReply 3, DoLeave 3,
      DoSend 1, DoSend 1, DoRun, DoRun, DoRun, DoRun]"

lemma oc_exec_append: "oc_exec (as @ bs) r = (case oc_exec as r of None \<Rightarrow> None | Some s \<Rightarrow> oc_exec bs s)"
  by (induction as arbitrary: r) (simp_all split: option.splits)

lemma opencode_answers_stream_witness:
  "\<exists>s t resp rest. oc_step\<^sup>*\<^sup>* sample_start s \<and> length (ar_chans s) = 1 \<and> oc_step\<^sup>*\<^sup>* s t \<and> oc_results t = oc_results s @ (resp, None) # rest
     \<and> rs_Text resp = ''again'' \<and> 1 < length (ar_chans t) \<and> ch_sent (ar_chans t ! 1) \<noteq> []"
proof -
  have "(case oc_exec sample_actions sample_start of None \<Rightarrow> None
     | Some s \<Rightarrow> map_option (\<lambda>t. (oc_run s, length (ar_chans s), oc_results t = oc_results s @
        [((text_response ''again'')\<lparr>rs_RuntimeType := ''opencode'', rs_RawOutput := ''again'', rs_SessionID := ''s1''\<rparr>, None)])) (oc_exec again_actions s))
     = Some (RunIdle, 1, True)"
    unfolding sample_start sample_actions_def again_actions_def
    by (simp add: sample_run again_texty again_payload unmarshal_value_def [where raw = "Some (JObj [(''text'', JStr ''again'')])"] del: json_text.simps)
  then obtain s t where st: "oc_exec sample_actions sample_start = Some s" "oc_exec again_actions s = Some t" "oc_run s = RunIdle"
    "length (ar_chans s) = 1" and r: "oc_results t = oc_results s @
        [((text_response ''again'')\<lparr>rs_RuntimeType := ''opencode'', rs_RawOutput := ''again'', rs_SessionID := ''s1''\<rparr>, None)]"
    by (auto split: option.split_asm)
  note steps = oc_exec_steps [OF st(1)] oc_exec_steps [OF st(2)]
  have "1 < length (ar_chans t) \<and> ch_sent (ar_chans t ! 1) \<noteq> []"
    using opencode_answers_stream [OF sample_initial steps(1) st(3) steps(2) r] by (auto simp: st(4))
  with steps st(4) r show ?thesis
    by (intro exI [of _ s] exI [of _ t] exI [of _ "(text_response ''again'')\<lparr>rs_RuntimeType := ''opencode'', rs_RawOutput := ''again'', rs_SessionID := ''s1''\<rparr>"]
        exI [of _ "[]"]) (simp add: text_response_def)
qed

lemma opencode_calls_matched_witness:
  "\<exists>s. oc_step\<^sup>*\<^sup>* sample_start s \<and> ar_calls s 2 = Some (CallReturned (Inr (Some (JObj []))))
     \<and> (\<exists>line \<in> set (ar_in s). \<exists>resp. decode_line line = Some resp \<and> response_id resp = Some 2)"
proof -
  obtain s where s: "oc_step\<^sup>*\<^sup>* sample_start s" "ar_calls s 2 = Some (CallReturned (Inr (Some (JObj []))))"
    by (rule sample_conversation)
  then show ?thesis using opencode_calls_matched [OF sample_initial s(1), of 2 "Some (JObj [])"] by blast
qed

definition sample_broken :: opencode where
  "sample_broken = sample_start\<lparr>oc_init := InitDone, ar_state := StateBroken\<rparr>"

lemma opencode_broken_for_good_witness:
  "ar_state sample_broken = StateBroken \<and>
   (case oc_Run_begin Background (empty_request\<lparr>rq_Prompt := ''hi''\<rparr>) sample_broken of
      Some t \<Rightarrow> \<exists>err. oc_results t = oc_results sample_broken @ [(empty_response, Some err)] | None \<Rightarrow> False)"
proof -
  have r: "oc_init sample_broken = InitDone" "ar_state sample_broken = StateBroken" "oc_run sample_broken = RunIdle"
    by (simp_all add: sample_broken_def sample_start rpc_begin_def started_runtime_def Let_def)
  obtain x y where xy: "turn_begin oc_name Background (empty_request\<lparr>rq_Prompt := ''hi''\<rparr>) sample_broken = (x, y)" by fastforce
  obtain t where t: "oc_Run_begin Background (empty_request\<lparr>rq_Prompt := ''hi''\<rparr>) sample_broken = Some t"
    by (cases x) (use r xy in \<open>auto simp: oc_Run_begin_def\<close>)
  then show ?thesis using opencode_broken_for_good [OF r(1, 2) rtranclp.rtrancl_refl t] by simp
qed

lemma opencode_close_panics_witness:
  "\<exists>r s. oc_step\<^sup>*\<^sup>* sample_start r \<and> oc_step\<^sup>*\<^sup>* r s \<and> ar_calls s 2 = Some CallPanicked"
proof -
  have "map_option (\<lambda>s. (oc_init s, ar_closed s, case ar_calls s 2 of Some (CallWriting _ _) \<Rightarrow> True | _ \<Rightarrow> False))
      (oc_exec (take 13 sample_actions) sample_start) = Some (InitDone, False, True)"
    unfolding sample_start sample_actions_def by (simp add: sample_run del: json_text.simps)
  then obtain r where r: "oc_exec (take 13 sample_actions) sample_start = Some r" "oc_init r = InitDone" "ar_closed r = False"
    and "case ar_calls r 2 of Some (CallWriting _ _) \<Rightarrow> True | _ \<Rightarrow> False" by (auto simp del: oc_exec.simps)
  moreover from this obtain c line where "ar_calls r 2 = Some (CallWriting c line)"
    by (auto split: option.split_asm callState.split_asm)
  ultimately have r: "oc_exec (take 13 sample_actions) sample_start = Some r" "oc_init r = InitDone" "ar_closed r = False"
    "ar_calls r 2 = Some (CallWriting c line)" by simp_all
  from opencode_close_panics [OF r(2-4)] oc_exec_steps [OF r(1)] show ?thesis by blast
qed

lemma opencode_sessions_apart_witness:
  "list_all (names_session ''s1'') (handleSessionUpdate (Some chunk_params))"
  using opencode_sessions_apart [OF chunk_payload] by simp

lemma tool_calls_shown_once_witness: "tools_shown [''t1'', ''t2'', ''t1''] (sample_start\<lparr>oc_seen := Some []\<rparr>) = 2"
proof -
  have "card (set [''t1'', ''t2'', ''t1''] - set []) = 2" by (simp add: card_insert_if)
  then show ?thesis
    using tool_calls_shown_once [of "sample_start\<lparr>oc_seen := Some []\<rparr>" "[]" "[''t1'', ''t2'', ''t1'']"] by (simp del: tools_shown.simps)
qed

lemma sender_ends_witness:
  "case sendPrompt (SendRepoint \<lparr>sj_ctx = 0, sj_sessionID = ''s'', sj_workDir = [], sj_prompt = ''hi'', sj_ch = 0\<rparr> ''s2'') sample_start of
     Some (pc1, _) \<Rightarrow> send_rank pc1 < 4 | None \<Rightarrow> False"
  using sender_ends [of "SendRepoint \<lparr>sj_ctx = 0, sj_sessionID = ''s'', sj_workDir = [], sj_prompt = ''hi'', sj_ch = 0\<rparr> ''s2''" sample_start]
  by simp

end
