(* ===== verification/Spec2Isabelle.thy ===== *)
theory Spec2Isabelle
  imports Startup JsonFuel Commands FeishuTraceLaws FeishuTrace FeishuLaws A2AServer Boo Hooks Config A2A ClaudeLaws CodexExec CodexLaws OrchSteps Orchestration ManagerSteps ConnectionManager CliResolver HttpApiLaws WeChatLaws OpencodeLaws
begin

text \<open>
  Verification library of myclaw, a service that connects chat channels to command line agents.

  \<^bold>\<open>The program.\<close>  A user binds an account of a channel (WeChat, Feishu, or plain HTTP) to a \<^emph>\<open>bot\<close>.  The bot
  service stores bots, bindings and accounts; the connection manager keeps one running \<^emph>\<open>runtime\<close> of the channel
  per bot.  A message the runtime receives is handed to the message orchestrator, which refuses duplicates, keeps
  a queue per bot and runs one turn at a time: it asks the resolver how to start the agent of the bot, sends the
  prompt to the agent manager, and answers through the reply gateway of the channel, with a progress card where the
  channel has one.  The agent manager owns a \<^emph>\<open>session\<close> per bot, with its timed tasks, and the session drives a
  process through one of the drivers (claude, codex, opencode).  A bot may dispatch tasks to other agents, local
  ones through the agent manager or remote ones over HTTP.  Webhooks and simulated messages enter the same way as
  chats do.  Two servers of their own, \<open>mcps/boo\<close> and \<open>mcps/a2a\<close>, offer terminals and remote agents as tools.

  \<^bold>\<open>What stands where.\<close>  File names are relative to \<open>src/\<close>; \<open>internal/\<close> is left out.

  \<^item> \<open>Prelude\<close>: errors with the sentinels they wrap, contexts with deadlines, the collection \<open>op_defs\<close>, and two
    locales, \<open>transition_system\<close> (invariants over reachable states) and \<open>stable_property\<close> (what no step undoes).
  \<^item> \<open>GoStrings\<close>, \<open>GoTime\<close>, \<open>GoUrl\<close>, \<open>Base64\<close>, \<open>Json\<close>, \<open>JsonText\<close>, \<open>HttpClient\<close>: what the code uses of
    \<open>strings\<close>, \<open>strconv\<close>, \<open>time\<close>, \<open>net/url\<close>, \<open>encoding/base64\<close>, \<open>encoding/json\<close> and \<open>net/http\<close>.  A Go
    string is a list of bytes; a JSON struct is read field by field, as the decoder does, from the list of its
    fields; the text of a value is written and parsed by functions, and reading back what was written gives the
    value with its texts made valid UTF-8.  \<open>JsonFuel\<close> shows that the fuel of the parser is enough.
  \<^item> \<open>Domain\<close>: \<open>domain/*.go\<close>, the entities as records and the status texts.
  \<^item> \<open>Agent\<close>, \<open>Session\<close>, \<open>Manager\<close>: \<open>agent/types.go\<close>, \<open>driver.go\<close>, \<open>progress.go\<close>, \<open>logargs.go\<close>; \<open>session.go\<close>;
    \<open>manager.go\<close>.  The manager works on a heap of sessions, so that a replaced session is still there for the
    callers that hold it.  Every operation is given by its critical sections; \<open>Manager\<close> has what it does with
    nothing in between.  \<open>ManagerSteps\<close> interleaves the sections of any number of calls with the tickers:
    a call under way is a program counter (\<open>call\<close>), a ticker a phase (\<open>tickPhase\<close>), and \<open>ms_step\<close> runs the next
    section of one of them, waiting where the code takes the lock that a turn holds.
  \<^item> \<open>AcpCore\<close>, \<open>AcpLaws\<close>: what the codex and opencode drivers have in common, the table of pending calls, the
    channels of a turn, the reader; the laws are proved once, in the locales \<open>acp_driver\<close> and \<open>acp_machine\<close>, and
    interpreted for both drivers.  \<open>OpencodeAcp\<close>, \<open>OpencodeLaws\<close>: \<open>agent/opencode/driver_acp.go\<close>.  \<open>CodexAcp\<close>,
    \<open>CodexLaws\<close>: \<open>agent/codex/driver_acp.go\<close>.  \<open>CodexExec\<close>: \<open>agent/codex/driver_exec.go\<close>.  \<open>ClaudeAcp\<close>,
    \<open>ClaudeLaws\<close>: \<open>agent/claude/driver_acp.go\<close>.  The state of a driver is its struct, the calls in progress with
    their program counters, and the reader with what is left of the handler it is in; \<open>oc_step\<close>, \<open>cx_step\<close> and
    \<open>cl_step\<close> interleave them one critical section at a time.  The lines the process writes are chosen freely.
  \<^item> \<open>Channel\<close>: \<open>channel/*.go\<close>, the requests and targets and the dispatch by channel type.  \<open>HttpChannel\<close>:
    \<open>channel/httpchan\<close> and \<open>api/http/handlers/http_channel.go\<close>.  \<open>WeChat\<close>, \<open>WeChatRuntime\<close>, \<open>WeChatLaws\<close>:
    \<open>channel/wechat\<close>.  \<open>Feishu\<close>, \<open>FeishuLaws\<close>: \<open>channel/feishu\<close>; \<open>FeishuTrace\<close>, \<open>FeishuTraceLaws\<close>: its
    \<open>progress.go\<close>, with the goroutine that draws the card.
  \<^item> \<open>Orchestrator\<close>, \<open>OrchSteps\<close>: \<open>app/bot/message_orchestrator.go\<close>.  The states of bots live on a heap, since
    goroutines keep the pointer of a bot that was stopped; \<open>orch_step\<close> has one step per critical section.
  \<^item> \<open>Orchestration\<close>, \<open>A2A\<close>: \<open>app/orchestration\<close>, the task store, the runner, the tools, scheduling, the registry
    of agents and its sweeping, the client and the handlers of remote agents.
  \<^item> \<open>Repositories\<close>, \<open>Store\<close>, \<open>StoreLaws\<close>: the interfaces of \<open>domain/repositories.go\<close> as records of operations
    that take and return a world \<open>'w\<close>; the repositories of \<open>store/repositories\<close> over tables; the abstract
    contracts \<open>bot_repo_ok\<close> and \<open>binding_repo_ok\<close>, and that the repositories refine them.
  \<^item> \<open>Services\<close>: \<open>security/crypto.go\<close>, \<open>app/mcpserver\<close>, \<open>app/capability\<close>, \<open>app/user_service.go\<close>.  \<open>BotService\<close>,
    \<open>BotServiceLaws\<close>: \<open>app/bot/service.go\<close>.  \<open>ConnectionManager\<close>: \<open>app/bot/connection_manager.go\<close>, with the step
    relation of interleaved starts and ends.  \<open>CliResolver\<close>: \<open>app/bot/cli_resolver.go\<close>.  \<open>Hooks\<close>: \<open>hook\<close> and
    \<open>app/bot/message_simulator.go\<close>.
  \<^item> \<open>HttpApi\<close>, \<open>HttpApiLaws\<close>: \<open>api/http\<close>, the envelope, the handlers, the JSON of requests and answers.
  \<^item> \<open>Config\<close>: \<open>config/config.go\<close> and \<open>channel/feishu/config.go\<close>.  \<open>Commands\<close>: \<open>cmd/mcp.go\<close>, \<open>cmd/server.go\<close>,
    the restoring of runtimes, \<open>mcps/echo\<close> and \<open>mcps/ping\<close>.  \<open>Startup\<close>: \<open>main.go\<close>, \<open>store/db.go\<close> and the rest
    of \<open>bootstrap/bootstrap.go\<close>.
  \<^item> \<open>Boo\<close>: \<open>mcps/boo/boo.go\<close>.  \<open>A2AServer\<close>: \<open>mcps/a2a/a2a.go\<close> and the resources of its \<open>main.go\<close>.
\<close>

text \<open>
  \<^bold>\<open>How the code is read.\<close>

  \<^item> An operation that can fail gives a \<open>goerr + 'a\<close>, \<open>Inl\<close> being the error, or a pair where Go returns a value
    beside its error; \<open>goerr option\<close> is a result that is only an error.  Every early return is a branch.
  \<^item> Effects outside the program pass a world \<open>'w\<close> through (\<open>io\<close>, \<open>andThen\<close>, \<open>attempt\<close>).  The clock, fresh ids,
    \<open>net/http\<close>, the file system, processes, gorm's tables and the SDK of Feishu are arguments.  What is assumed of
    them is written as hypotheses with names: \<open>table_ok\<close> (what gorm promises of a table),
    \<open>transaction_ok\<close>, \<open>lookup_ok\<close> and their like; the witnesses instantiate them with tables that are lists.
  \<^item> A lock is the atomicity of a step: code between taking a lock and letting it go is one step, and every call made
    without the lock ends a step.  A channel of Go is a list with the bound of its buffer, and a send that would be
    dropped by \<open>select\<close> with \<open>default\<close> is dropped.  Contexts are values with a deadline and may be cancelled by a step.
  \<^item> A Go map is a function to options, or a list of pairs where its text is written (keys are then sorted).
  \<^item> A panic of the code is an outcome of its own (\<open>Panic\<close>, a phase of a call) or the absence of a result, \<open>None\<close>.

  \<^bold>\<open>What the lemmas show.\<close>

  \<^item> Messages: a message is in flight once, no goroutine is out of reach, a turn is answered once; a message can be
    lost in the pending slot of a bot (\<open>OrchSteps\<close>, \<open>Orchestrator\<close>).
  \<^item> Agents: every process is held by a current session or by a call about to deal with it, the table of sessions
    is well formed and no answer goes to another bot's sink, a stop can make the send it overtakes panic
    (\<open>ManagerSteps\<close>); schedules behave as a set of tasks (\<open>Session\<close>, \<open>Manager\<close>, locale \<open>task_scheduler\<close>).
  \<^item> Drivers: an answer is that of the channel the turn has opened itself, calls are matched by id, a broken
    runtime stays broken, no turn waits for a reader that is gone (\<open>OpencodeLaws\<close>, \<open>CodexLaws\<close>, \<open>CodexExec\<close>,
    \<open>ClaudeLaws\<close>).
  \<^item> Tasks: a settled task stays as it is and says what its runner gave (\<open>Orchestration\<close>).
  \<^item> Storage: repositories refine sets of rows, replacements are atomic, rows are read back (\<open>StoreLaws\<close>); deleting,
    creating and configuring bots on top of these contracts (\<open>BotServiceLaws\<close>, \<open>HttpApiLaws\<close>).
  \<^item> Channels: a bot has one runtime (\<open>ConnectionManager\<close>); chats over HTTP get their own answers (\<open>HttpChannel\<close>,
    \<open>HttpApiLaws\<close>); polling loses nothing (\<open>WeChatLaws\<close>); credentials and answers of Feishu (\<open>FeishuLaws\<close>), and
    what its card shows and that it ends (\<open>FeishuTraceLaws\<close>).  \<open>Hooks\<close> follows simulated messages to the gateway of
    WeChat, and \<open>Startup\<close> the registered channels to their gateways.
  \<^item> Texts: escaping, base64 and JSON are read back as they were written (\<open>GoUrl\<close>, \<open>Base64\<close>, \<open>JsonText\<close>); the parts of
    an agent's answer (\<open>A2A\<close>), the output of a terminal (\<open>A2AServer\<close>).

  \<^bold>\<open>Bounds.\<close>  Two functions run with fuel.  The parser of JSON is given twice the length of its text and one more, and reads
  every text the same with more; the search for the nested members of a login session is given the length of the text,
  which is more than it is deep; both are shown in \<open>JsonFuel\<close>.  Other loops recurse over their data,
  over the list of times a ticker fires, or are steps.  The numbers of the code stay: 256 events of a turn, a line of one megabyte, five replies of a chat, 25 lines of a
  card, ten actions at most of the loop of a closed card and four more for each signal of a late step.

  \<^bold>\<open>Not modelled.\<close>  What is left of the source has no logic of its own that could be stated: the passing of every part
  to the constructors of the others in \<open>bootstrap.New\<close> and the registration of routes with \<open>net/http\<close>
  (the table of the API's own routes is in \<open>HttpApi\<close>); the
  registration of tools with the MCP SDK (\<open>NewMCPHandler\<close>, the \<open>main.go\<close> of the servers under \<open>mcps\<close>), and flags of
  the command library; log lines; the static pages under \<open>api/http/web\<close>, the embedded prompt and migrations; column
  tags of rows; the dispatcher inside the SDK of Feishu, which calls \<open>normalizeMessage\<close> and \<open>onMessage\<close>; functions of
  \<open>wechat/client.go\<close> that only call another under a second name; \<open>internal/testutil\<close> and
  \<open>wechat/fake_provider.go\<close>, which only tests use.
\<close>

end
